(* ===== verification/Go_Strings.thy ===== *)
theory Go_Strings
  imports Main "HOL-Library.Sublist" "HOL-Library.List_Lexorder" "HOL-Library.Char_ord"
begin

text \<open>
  The part of Go's \<^verbatim>\<open>strings\<close> package (and a few regular expressions) the server uses, on
  \<open>string\<close>, the list of the bytes of a Go string.  Comparison of strings is the bytewise
  lexicographic order of \<open>List_Lexorder\<close> over \<open>Char_ord\<close>, as in Go.  Nothing here is specific to
  wharf-server; the definitions that model its code are in the other theories.
\<close>

section \<open>Collections of rules\<close>

named_theorems string_simps \<open>unfolds the string operations\<close>
named_theorems split_facts \<open>facts on split and join\<close>

section \<open>Cutting, splitting and joining\<close>

text \<open>\<^verbatim>\<open>strings.Split(s, "c")\<close> for a one-byte separator.\<close>

fun split_on :: "char \<Rightarrow> string \<Rightarrow> string list" where
  "split_on c [] = [[]]"
| "split_on c (x # xs) =
     (if x = c then [] # split_on c xs
      else (case split_on c xs of [] \<Rightarrow> [[x]] | y # ys \<Rightarrow> (x # y) # ys))"

text \<open>\<^verbatim>\<open>strings.Join(parts, sep)\<close>.\<close>

fun join_with :: "string \<Rightarrow> string list \<Rightarrow> string" where
  "join_with sep [] = []"
| "join_with sep [x] = x"
| "join_with sep (x # y # ys) = x @ sep @ join_with sep (y # ys)"

text \<open>
  \<^verbatim>\<open>strings.Cut(s, sep)\<close>: the text before and after the first occurrence of \<open>sep\<close>; \<open>None\<close>
  when it does not occur (Go then returns \<open>s\<close>, the empty string and false).
\<close>

fun cut_at :: "string \<Rightarrow> string \<Rightarrow> (string \<times> string) option" where
  "cut_at sep s =
     (if prefix sep s then Some ([], drop (length sep) s)
      else (case s of [] \<Rightarrow> None
            | x # xs \<Rightarrow> map_option (\<lambda>(a, b). (x # a, b)) (cut_at sep xs)))"

declare cut_at.simps [simp del]

text \<open>\<^verbatim>\<open>strings.Contains(s, sub)\<close>, \<^verbatim>\<open>strings.ContainsAny(s, chars)\<close>.\<close>

definition contains_str :: "string \<Rightarrow> string \<Rightarrow> bool" where
  "contains_str s sub = (cut_at sub s \<noteq> None)"

definition contains_any :: "string \<Rightarrow> string \<Rightarrow> bool" where
  "contains_any s cs = list_ex (\<lambda>c. c \<in> set cs) s"

text \<open>\<^verbatim>\<open>strings.ReplaceAll(s, old, new)\<close> for a non-empty \<open>old\<close>.\<close>

function replace_all :: "string \<Rightarrow> string \<Rightarrow> string \<Rightarrow> string" where
  "replace_all old new s =
     (if old = [] then s
      else if prefix old s then new @ replace_all old new (drop (length old) s)
      else (case s of [] \<Rightarrow> [] | x # xs \<Rightarrow> x # replace_all old new xs))"
  by pat_completeness auto
termination
  by (relation "measure (\<lambda>(old, new, s). length s)") (auto simp: prefix_def)

declare replace_all.simps [simp del]

text \<open>\<^verbatim>\<open>strings.CutPrefix\<close>, \<^verbatim>\<open>strings.TrimPrefix\<close> and \<^verbatim>\<open>strings.TrimSuffix\<close>.\<close>

definition cut_prefix :: "string \<Rightarrow> string \<Rightarrow> string option" where
  "cut_prefix s p = (if prefix p s then Some (drop (length p) s) else None)"

definition trim_prefix :: "string \<Rightarrow> string \<Rightarrow> string" where
  "trim_prefix s p = (if prefix p s then drop (length p) s else s)"

definition trim_suffix :: "string \<Rightarrow> string \<Rightarrow> string" where
  "trim_suffix s p = (if suffix p s then take (length s - length p) s else s)"

text \<open>\<^verbatim>\<open>strings.FieldsFunc\<close> for a predicate on single bytes: the maximal runs without one.\<close>

fun fields_by :: "(char \<Rightarrow> bool) \<Rightarrow> string \<Rightarrow> string list" where
  "fields_by p [] = []"
| "fields_by p (x # xs) =
     (if p x then fields_by p xs
      else (case xs of
              [] \<Rightarrow> [[x]]
            | y # _ \<Rightarrow> if p y then [x] # fields_by p xs
                      else (case fields_by p xs of [] \<Rightarrow> [[x]] | f # fs \<Rightarrow> (x # f) # fs)))"

section \<open>White space\<close>

text \<open>
  The UTF-8 encodings of the code points Go's \<^verbatim>\<open>unicode.IsSpace\<close> accepts.  \<^verbatim>\<open>strings.TrimSpace\<close>
  removes them from both ends.
\<close>

definition space_seqs :: "string list" where
  "space_seqs =
     [[CHR 0x09], [CHR 0x0A], [CHR 0x0B], [CHR 0x0C], [CHR 0x0D], [CHR 0x20],
      [CHR 0xC2, CHR 0x85], [CHR 0xC2, CHR 0xA0], [CHR 0xE1, CHR 0x9A, CHR 0x80],
      [CHR 0xE2, CHR 0x80, CHR 0x80], [CHR 0xE2, CHR 0x80, CHR 0x81],
      [CHR 0xE2, CHR 0x80, CHR 0x82], [CHR 0xE2, CHR 0x80, CHR 0x83],
      [CHR 0xE2, CHR 0x80, CHR 0x84], [CHR 0xE2, CHR 0x80, CHR 0x85],
      [CHR 0xE2, CHR 0x80, CHR 0x86], [CHR 0xE2, CHR 0x80, CHR 0x87],
      [CHR 0xE2, CHR 0x80, CHR 0x88], [CHR 0xE2, CHR 0x80, CHR 0x89],
      [CHR 0xE2, CHR 0x80, CHR 0x8A], [CHR 0xE2, CHR 0x80, CHR 0xA8],
      [CHR 0xE2, CHR 0x80, CHR 0xA9], [CHR 0xE2, CHR 0x80, CHR 0xAF],
      [CHR 0xE2, CHR 0x81, CHR 0x9F], [CHR 0xE3, CHR 0x80, CHR 0x80]]"

text \<open>
  \<open>strip_seqs\<close> drops leading occurrences of the (non-empty) sequences; the fuel is the length of
  the string, of which each round drops at least one byte.
\<close>

fun strip_fuel :: "nat \<Rightarrow> string list \<Rightarrow> string \<Rightarrow> string" where
  "strip_fuel 0 ws s = s"
| "strip_fuel (Suc n) ws s =
     (case find (\<lambda>w. prefix w s) ws of None \<Rightarrow> s | Some w \<Rightarrow> strip_fuel n ws (drop (length w) s))"

definition trim_left :: "string \<Rightarrow> string" where
  "trim_left s = strip_fuel (length s) space_seqs s"

definition trim_right :: "string \<Rightarrow> string" where
  "trim_right s = rev (strip_fuel (length s) (map rev space_seqs) (rev s))"

definition trim_space :: "string \<Rightarrow> string" where
  "trim_space s = trim_right (trim_left s)"

section \<open>Character classes\<close>

definition is_lower :: "char \<Rightarrow> bool" where
  "is_lower c = (CHR ''a'' \<le> c \<and> c \<le> CHR ''z'')"

definition is_upper :: "char \<Rightarrow> bool" where
  "is_upper c = (CHR ''A'' \<le> c \<and> c \<le> CHR ''Z'')"

definition is_digit :: "char \<Rightarrow> bool" where
  "is_digit c = (CHR ''0'' \<le> c \<and> c \<le> CHR ''9'')"

definition is_alpha :: "char \<Rightarrow> bool" where
  "is_alpha c = (is_lower c \<or> is_upper c)"

definition is_alnum :: "char \<Rightarrow> bool" where
  "is_alnum c = (is_alpha c \<or> is_digit c)"

text \<open>
  \<^verbatim>\<open>^[first][rest]*$\<close>, the shape of most of the server's regular expressions (Go's \<open>$\<close> is the end of
  the text).
\<close>

definition head_tail_re :: "(char \<Rightarrow> bool) \<Rightarrow> (char \<Rightarrow> bool) \<Rightarrow> string \<Rightarrow> bool" where
  "head_tail_re f g s = (case s of [] \<Rightarrow> False | x # xs \<Rightarrow> f x \<and> list_all g xs)"

text \<open>
  \<^verbatim>\<open>strings.ToLower\<close>, as far as its result is ASCII: the ASCII letters, and the two code points
  (U+212A and U+0130) whose lower case is one.  Other letters are left alone; the server only
  compares the result with ASCII texts or drops the other bytes.
\<close>

definition lower_char :: "char \<Rightarrow> char" where
  "lower_char c = (if is_upper c then char_of (of_char c + 32 :: nat) else c)"

fun to_lower :: "string \<Rightarrow> string" where
  "to_lower [] = []"
| "to_lower (x # xs) =
     (if prefix [CHR 0xE2, CHR 0x84, CHR 0xAA] (x # xs) then CHR ''k'' # to_lower (drop 2 xs)
      else if prefix [CHR 0xC4, CHR 0xB0] (x # xs) then CHR ''i'' # to_lower (drop 1 xs)
      else lower_char x # to_lower xs)"

lemmas class_defs = is_lower_def is_upper_def is_digit_def is_alpha_def is_alnum_def

section \<open>Decimal numbers\<close>

fun digits_of :: "nat \<Rightarrow> string" where
  "digits_of n = (if n < 10 then [char_of (48 + n)] else digits_of (n div 10) @ [char_of (48 + n mod 10)])"

declare digits_of.simps [simp del]

text \<open>\<^verbatim>\<open>fmt.Sprint\<close> and \<^verbatim>\<open>%d\<close> of an integer.\<close>

definition show_int :: "int \<Rightarrow> string" where
  "show_int i = (if i < 0 then ''-'' @ digits_of (nat (- i)) else digits_of (nat i))"

definition digit_val :: "char \<Rightarrow> int" where
  "digit_val c = of_char c - 48"

definition nat_of_digits :: "string \<Rightarrow> int" where
  "nat_of_digits s = foldl (\<lambda>acc c. acc * 10 + digit_val c) 0 s"

text \<open>
  \<^verbatim>\<open>strconv.Atoi\<close>: an optional sign and at least one decimal digit, in the range of a 64-bit
  \<open>int\<close>; \<open>None\<close> is its error.
\<close>

definition atoi :: "string \<Rightarrow> int option" where
  "atoi s =
     (let (neg, ds) = (case s of [] \<Rightarrow> (False, [])
                       | c # cs \<Rightarrow> if c = CHR ''-'' then (True, cs)
                                  else if c = CHR ''+'' then (False, cs) else (False, s));
          v = (if neg then - nat_of_digits ds else nat_of_digits ds)
      in if ds = [] \<or> \<not> list_all is_digit ds then None
         else if v < - (2 ^ 63) \<or> 2 ^ 63 \<le> v then None
         else Some v)"

section \<open>Lemmas\<close>

subsection \<open>split and join\<close>

lemma split_on_ne [simp]: "split_on c s \<noteq> []"
  by (induction s) (auto split: list.splits)

lemma join_split [simp]: "join_with [c] (split_on c s) = s"
proof (induction s)
  case Nil
  then show ?case by simp
next
  case (Cons x xs)
  obtain y ys where s: "split_on c xs = y # ys" by (cases "split_on c xs") auto
  show ?case
  proof (cases "x = c")
    case True
    with Cons s show ?thesis by simp
  next
    case False
    with Cons s show ?thesis by (cases ys) auto
  qed
qed

lemma split_no_sep: "c \<notin> set s \<Longrightarrow> split_on c s = [s]"
  by (induction s) (auto split: list.splits)

lemma split_append_sep:
  "split_on c (xs @ c # ys) = split_on c xs @ split_on c ys"
proof (induction xs)
  case Nil
  show ?case by simp
next
  case (Cons x xs)
  obtain z zs where "split_on c xs = z # zs" by (cases "split_on c xs") auto
  with Cons show ?case by simp
qed

lemma split_parts_no_sep: "w \<in> set (split_on c s) \<Longrightarrow> c \<notin> set w"
proof (induction s arbitrary: w)
  case Nil
  then show ?case by simp
next
  case (Cons x xs)
  obtain z zs where s: "split_on c xs = z # zs" by (cases "split_on c xs") auto
  have IH: "c \<notin> set z" "\<And>v. v \<in> set zs \<Longrightarrow> c \<notin> set v"
    using Cons.IH s by auto
  show ?case
  proof (cases "x = c")
    case True
    with Cons.prems s IH show ?thesis by auto
  next
    case False
    with Cons.prems s have "w = x # z \<or> w \<in> set zs" by auto
    with False IH show ?thesis by auto
  qed
qed

lemma set_split_chars: "w \<in> set (split_on c s) \<Longrightarrow> set w \<subseteq> set s"
proof (induction s arbitrary: w)
  case Nil
  then show ?case by simp
next
  case (Cons x xs)
  obtain z zs where s: "split_on c xs = z # zs" by (cases "split_on c xs") auto
  have IH: "set z \<subseteq> set xs" "\<And>v. v \<in> set zs \<Longrightarrow> set v \<subseteq> set xs"
    using Cons.IH s by simp_all
  from Cons.prems s have "w = [] \<or> w = z \<or> w = x # z \<or> w \<in> set zs"
    by (auto split: if_splits)
  with IH show ?case by auto
qed

lemma chars_in_split:
  assumes "x \<in> set s" and "x \<noteq> c"
  shows "\<exists>w\<in>set (split_on c s). x \<in> set w"
  using assms
proof (induction s)
  case Nil
  then show ?case by simp
next
  case (Cons y ys)
  obtain z zs where s: "split_on c ys = z # zs" by (cases "split_on c ys") auto
  show ?case
  proof (cases "y = c")
    case True
    with Cons s show ?thesis by auto
  next
    case False
    with Cons s show ?thesis by (cases "x = y") auto
  qed
qed

lemma split_inject: "split_on c s = split_on c t \<Longrightarrow> s = t"
  by (metis join_split)

lemma join_append:
  "xs \<noteq> [] \<Longrightarrow> ys \<noteq> [] \<Longrightarrow> join_with sep (xs @ ys) = join_with sep xs @ sep @ join_with sep ys"
  by (induction sep xs rule: join_with.induct) (auto simp: neq_Nil_conv)

lemma split_join:
  assumes "ws \<noteq> []" and "\<And>w. w \<in> set ws \<Longrightarrow> c \<notin> set w"
  shows "split_on c (join_with [c] ws) = ws"
  using assms
proof (induction "[c]" ws rule: join_with.induct)
  case 1
  then show ?case by simp
next
  case (2 x)
  then show ?case by (simp add: split_no_sep)
next
  case (3 x y ys)
  then have "split_on c (join_with [c] (y # ys)) = y # ys" by simp
  with 3 show ?case by (simp add: split_append_sep split_no_sep)
qed

text \<open>Being below a path, read off the strings or off the segments, is the same.\<close>

lemma prefix_split_iff:
  "prefix (split_on c p) (split_on c s) \<longleftrightarrow> s = p \<or> prefix (p @ [c]) s"
proof
  assume "prefix (split_on c p) (split_on c s)"
  then obtain zs where z: "split_on c s = split_on c p @ zs" by (auto simp: prefix_def)
  show "s = p \<or> prefix (p @ [c]) s"
  proof (cases zs)
    case Nil
    with z show ?thesis by (auto dest: split_inject)
  next
    case (Cons y ys)
    have "s = join_with [c] (split_on c p @ zs)" using z by (metis join_split)
    also have "\<dots> = p @ [c] @ join_with [c] zs" using Cons by (simp add: join_append)
    finally show ?thesis by simp
  qed
next
  assume "s = p \<or> prefix (p @ [c]) s"
  then show "prefix (split_on c p) (split_on c s)"
    by (auto simp: prefix_def split_append_sep)
qed

subsection \<open>cut and contains\<close>

lemma cut_at_Some: "cut_at sep s = Some (a, b) \<Longrightarrow> s = a @ sep @ b"
proof (induction s arbitrary: a b)
  case Nil
  then show ?case by (auto simp: cut_at.simps [of sep "[]"] split: if_splits)
next
  case (Cons x xs)
  show ?case
  proof (cases "prefix sep (x # xs)")
    case True
    with Cons.prems show ?thesis
      by (auto simp: cut_at.simps [of sep "x # xs"] prefix_def)
  next
    case False
    with Cons.prems obtain a' where "cut_at sep xs = Some (a', b)" and "a = x # a'"
      by (auto simp: cut_at.simps [of sep "x # xs"])
    with Cons.IH show ?thesis by simp
  qed
qed

lemma cut_at_length: "cut_at sep s = Some (a, b) \<Longrightarrow> length a + length sep + length b = length s"
  by (auto dest: cut_at_Some)

text \<open>What stands before the first occurrence holds none, whatever follows it.\<close>

lemma cut_at_first:
  assumes "cut_at sep s = Some (a, b)" and "i < length a"
  shows "\<not> prefix sep (drop i s)"
  using assms
proof (induction s arbitrary: a i)
  case Nil
  then show ?case by (auto simp: cut_at.simps [of sep "[]"] split: if_splits)
next
  case (Cons x xs)
  show ?case
  proof (cases "prefix sep (x # xs)")
    case True
    with Cons.prems show ?thesis by (auto simp: cut_at.simps [of sep "x # xs"])
  next
    case False
    with Cons.prems obtain a' where a': "cut_at sep xs = Some (a', b)" "a = x # a'"
      by (auto simp: cut_at.simps [of sep "x # xs"])
    show ?thesis
    proof (cases i)
      case 0
      with False show ?thesis by simp
    next
      case (Suc j)
      with a' Cons.prems Cons.IH [of a' j] show ?thesis by simp
    qed
  qed
qed

lemma cut_at_None_iff: "cut_at sep s = None \<longleftrightarrow> (\<forall>i \<le> length s. \<not> prefix sep (drop i s))"
proof (induction s)
  case Nil
  show ?case by (simp add: cut_at.simps [of sep "[]"])
next
  case (Cons x xs)
  have "cut_at sep (x # xs) = None \<longleftrightarrow> \<not> prefix sep (x # xs) \<and> cut_at sep xs = None"
    by (simp add: cut_at.simps [of sep "x # xs"])
  also have "\<dots> \<longleftrightarrow> (\<forall>i \<le> length (x # xs). \<not> prefix sep (drop i (x # xs)))"
    unfolding Cons.IH
  proof safe
    fix i
    assume a: "\<not> prefix sep (x # xs)" "\<forall>i\<le>length xs. \<not> prefix sep (drop i xs)"
      and i: "i \<le> length (x # xs)" and p: "prefix sep (drop i (x # xs))"
    from a i p show False by (cases i) auto
  next
    assume a: "\<forall>i\<le>length (x # xs). \<not> prefix sep (drop i (x # xs))" and "prefix sep (x # xs)"
    then show False by (metis drop0 le0)
  next
    fix i
    assume a: "\<forall>i\<le>length (x # xs). \<not> prefix sep (drop i (x # xs))"
      and "i \<le> length xs" "prefix sep (drop i xs)"
    then show False using a [rule_format, of "Suc i"] by simp
  qed
  finally show ?case .
qed

lemma contains_iff: "contains_str s sub \<longleftrightarrow> (\<exists>a b. s = a @ sub @ b)"
proof
  assume "contains_str s sub"
  then show "\<exists>a b. s = a @ sub @ b" by (auto simp: contains_str_def dest: cut_at_Some)
next
  assume "\<exists>a b. s = a @ sub @ b"
  then obtain a b where s: "s = a @ sub @ b" by blast
  then have "prefix sub (drop (length a) s)" and "length a \<le> length s" by auto
  then have "cut_at sub s \<noteq> None" using cut_at_None_iff [of sub s] by blast
  then show "contains_str s sub" by (simp add: contains_str_def)
qed

lemma cut_at_unique:
  assumes "\<And>i. i < length a \<Longrightarrow> \<not> prefix sep (drop i (a @ sep @ b))"
  shows "cut_at sep (a @ sep @ b) = Some (a, b)"
  using assms
proof (induction a)
  case Nil
  show ?case by (simp add: cut_at.simps)
next
  case (Cons x xs)
  from Cons.prems [of 0] have np: "\<not> prefix sep (x # xs @ sep @ b)" by simp
  have "\<And>i. i < length xs \<Longrightarrow> \<not> prefix sep (drop i (xs @ sep @ b))"
    using Cons.prems [of "Suc _"] by auto
  then have "cut_at sep (xs @ sep @ b) = Some (xs, b)" by (rule Cons.IH)
  with np show ?case by (simp add: cut_at.simps [of sep "x # xs @ sep @ b"])
qed

text \<open>A separator whose first byte does not occur before it is found at once.\<close>

lemma cut_at_head:
  assumes "c \<notin> set a"
  shows "cut_at (c # sep) (a @ (c # sep) @ b) = Some (a, b)"
proof (rule cut_at_unique)
  fix i
  assume i: "i < length a"
  then have "drop i (a @ (c # sep) @ b) = a ! i # drop (Suc i) a @ (c # sep) @ b"
    by (simp add: Cons_nth_drop_Suc)
  moreover from i assms have "a ! i \<noteq> c" by auto
  ultimately show "\<not> prefix (c # sep) (drop i (a @ (c # sep) @ b))" by simp
qed

lemma contains_any_iff: "contains_any s cs \<longleftrightarrow> set s \<inter> set cs \<noteq> {}"
  by (auto simp: contains_any_def list_ex_iff)

subsection \<open>replace\<close>

lemma replace_all_Nil [simp]: "replace_all old new [] = []"
  by (simp add: replace_all.simps)

lemma replace_all_Cons:
  "old \<noteq> [] \<Longrightarrow> \<not> prefix old (x # xs) \<Longrightarrow> replace_all old new (x # xs) = x # replace_all old new xs"
  by (simp add: replace_all.simps [of old new "x # xs"])

lemma replace_all_hit:
  "old \<noteq> [] \<Longrightarrow> replace_all old new (old @ s) = new @ replace_all old new s"
  by (simp add: replace_all.simps [of old new "old @ s"])

lemma replace_all_none:
  "old \<noteq> [] \<Longrightarrow> \<not> contains_str s old \<Longrightarrow> replace_all old new s = s"
proof (induction s)
  case Nil
  then show ?case by simp
next
  case (Cons x xs)
  have "\<not> contains_str xs old" using Cons.prems(2) unfolding contains_iff by (metis append_Cons)
  moreover have "\<not> prefix old (x # xs)"
    using Cons.prems(2) unfolding contains_iff prefix_def by (metis append_Nil)
  ultimately show ?case using Cons by (simp add: replace_all_Cons)
qed

text \<open>
  The text before the first occurrence is kept as it is and the occurrence replaced.
\<close>

lemma replace_all_cut:
  assumes "old \<noteq> []" and "cut_at old s = Some (a, b)"
  shows "replace_all old new s = a @ new @ replace_all old new b"
  using assms(2)
proof (induction s arbitrary: a)
  case Nil
  with assms(1) show ?case by (auto simp: cut_at.simps [of old "[]"])
next
  case (Cons x xs)
  show ?case
  proof (cases "prefix old (x # xs)")
    case True
    then obtain r where r: "x # xs = old @ r" by (auto simp: prefix_def)
    with Cons.prems have "a = []" and "b = r"
      by (simp_all add: cut_at.simps [of old "old @ r"])
    with r assms(1) show ?thesis by (simp add: replace_all_hit)
  next
    case False
    with Cons.prems obtain a' where "cut_at old xs = Some (a', b)" and "a = x # a'"
      by (auto simp: cut_at.simps [of old "x # xs"])
    with Cons.IH False assms(1) show ?thesis by (simp add: replace_all_Cons)
  qed
qed

lemma set_replace_all: "set (replace_all old new s) \<subseteq> set s \<union> set new"
proof (induction old new s rule: replace_all.induct)
  case (1 old new s)
  show ?case
  proof (cases "old = []")
    case True
    then show ?thesis by (simp add: replace_all.simps)
  next
    case False
    show ?thesis
    proof (cases "prefix old s")
      case True
      then have "set (drop (length old) s) \<subseteq> set s" by (simp add: set_drop_subset)
      with 1 True False show ?thesis by (subst replace_all.simps) auto
    next
      case np: False
      show ?thesis
      proof (cases s)
        case Nil
        then show ?thesis by simp
      next
        case (Cons x xs)
        with 1 np False show ?thesis by (subst replace_all.simps) auto
      qed
    qed
  qed
qed

lemma set_replace_all_erase: "set (replace_all old new s) \<subseteq> set (replace_all old [] s) \<union> set new"
proof (induction "length s" arbitrary: s rule: less_induct)
  case less
  show ?case
  proof (cases "old = []")
    case True
    then show ?thesis by (simp add: replace_all.simps)
  next
    case ne: False
    show ?thesis
    proof (cases "prefix old s")
      case True
      then obtain r where r: "s = old @ r" by (auto simp: prefix_def)
      with ne have "length r < length s" by (cases old) auto
      from less [OF this] show ?thesis using r ne by (auto simp: replace_all_hit)
    next
      case False
      show ?thesis
      proof (cases s)
        case Nil
        then show ?thesis by simp
      next
        case (Cons x xs)
        then have "length xs < length s" by simp
        from less [OF this] show ?thesis using Cons False ne by (auto simp: replace_all_Cons)
      qed
    qed
  qed
qed

lemma prefix_split_head:
  assumes "c \<notin> set old" and "old \<noteq> []"
  shows "prefix old s \<longleftrightarrow> prefix old (hd (split_on c s))"
  using assms
proof (induction s arbitrary: old)
  case Nil
  then show ?case by simp
next
  case (Cons x xs)
  obtain z zs where s: "split_on c xs = z # zs" by (cases "split_on c xs") auto
  obtain o1 os where o: "old = o1 # os" using Cons.prems by (cases old) auto
  show ?case
  proof (cases "x = c")
    case True
    with Cons.prems o show ?thesis by auto
  next
    case False
    show ?thesis
    proof (cases "os = []")
      case True
      with o False s show ?thesis by simp
    next
      case osne: False
      from Cons.prems o have "c \<notin> set os" by simp
      with Cons.IH osne s have "prefix os xs \<longleftrightarrow> prefix os z" by fastforce
      with o False s show ?thesis by simp
    qed
  qed
qed

text \<open>Splitting commutes with a replacement that neither removes nor adds a separator.\<close>

lemma split_replace_all:
  assumes "c \<notin> set old" and "c \<notin> set new" and "old \<noteq> []"
  shows "split_on c (replace_all old new s) = map (replace_all old new) (split_on c s)"
proof (induction "length s" arbitrary: s rule: less_induct)
  case less
  show ?case
  proof (cases "prefix old s")
    case True
    then obtain r where r: "s = old @ r" by (auto simp: prefix_def)
    obtain z zs where z: "split_on c r = z # zs" by (cases "split_on c r") auto
    have pre: "split_on c (w @ t) = (w @ hd (split_on c t)) # tl (split_on c t)"
      if "c \<notin> set w" for w t
      using that
    proof (induction w)
      case Nil
      then show ?case by simp
    next
      case (Cons y ys)
      then show ?case by auto
    qed
    have IH: "split_on c (replace_all old new r) = map (replace_all old new) (split_on c r)"
      using less [of r] r assms(3) by (cases old) auto
    have "split_on c (replace_all old new s) =
        (new @ hd (split_on c (replace_all old new r))) # tl (split_on c (replace_all old new r))"
      using r assms by (simp add: replace_all_hit pre)
    also have "\<dots> = map (replace_all old new) ((old @ z) # zs)"
      using IH z assms(3) by (simp add: replace_all_hit)
    also have "(old @ z) # zs = split_on c s" using r z assms(1) by (simp add: pre)
    finally show ?thesis .
  next
    case np: False
    show ?thesis
    proof (cases s)
      case Nil
      then show ?thesis by simp
    next
      case (Cons x xs)
      have IH: "split_on c (replace_all old new xs) = map (replace_all old new) (split_on c xs)"
        using less [of xs] Cons by simp
      obtain z zs where z: "split_on c xs = z # zs" by (cases "split_on c xs") auto
      show ?thesis
      proof (cases "x = c")
        case True
        with Cons np IH assms(3) show ?thesis by (simp add: replace_all_Cons)
      next
        case False
        have "\<not> prefix old (x # z)"
          using np Cons z False prefix_split_head [OF assms(1) assms(3), of s] by simp
        with Cons np IH z False assms(3) show ?thesis by (simp add: replace_all_Cons)
      qed
    qed
  qed
qed

subsection \<open>white space\<close>

lemma length_strip_fuel: "length (strip_fuel n ws s) \<le> length s"
proof (induction n arbitrary: s)
  case 0
  show ?case by simp
next
  case (Suc n)
  have "length (strip_fuel n ws (drop k s)) \<le> length s" for k
    using le_trans [OF Suc.IH [of "drop k s"]] by simp
  then show ?case by (simp split: option.split)
qed

lemma suffix_strip_fuel: "suffix (strip_fuel n ws s) s"
  by (induction n arbitrary: s) (auto split: option.splits intro: suffix_order.trans suffix_drop)

lemma set_strip_fuel: "set (strip_fuel n ws s) \<subseteq> set s"
  using set_mono_suffix [OF suffix_strip_fuel] .

lemma set_trim_space: "set (trim_space s) \<subseteq> set s"
  unfolding trim_space_def trim_left_def trim_right_def
  by (metis set_rev set_strip_fuel subset_trans)

text \<open>With one unit of fuel per byte nothing is left to strip.\<close>

lemma strip_fuel_done:
  assumes "\<forall>w\<in>set ws. w \<noteq> []" and "length s \<le> n"
  shows "find (\<lambda>w. prefix w (strip_fuel n ws s)) ws = None"
  using assms(2)
proof (induction n arbitrary: s)
  case 0
  then have "s = []" by simp
  then have "find (\<lambda>w. prefix w s) ws = None"
    using assms(1) by (auto simp: find_None_iff)
  then show ?case by simp
next
  case (Suc n)
  show ?case
  proof (cases "find (\<lambda>w. prefix w s) ws")
    case None
    then show ?thesis by simp
  next
    case (Some w)
    then have "w \<in> set ws" by (auto simp: find_Some_iff)
    with assms(1) have "w \<noteq> []" by blast
    then have "1 \<le> length w" by (cases w) simp_all
    with Suc.prems have "length (drop (length w) s) \<le> n" by simp
    with Suc.IH Some show ?thesis by simp
  qed
qed

end
