(* ===== verification/Go_Base.thy ===== *)
theory Go_Base
  imports Go_Strings
begin

text \<open>
  What every component uses: Go's error values, results that are an error or a value, and
  programs that run on a state and return either (a Go function with a last result of type
  \<^verbatim>\<open>error\<close>).  The rules collected in \<open>keeps_intros\<close> carry the invariant proofs of the
  stateful components: an invariant kept by the parts of a program is kept by the program,
  whichever branch an error takes.
\<close>

section \<open>Collections of rules\<close>

named_theorems keeps_intros \<open>introduction rules of \<open>keeps\<close>, one per program construct\<close>
named_theorems prog_simps \<open>unfolds the program combinators\<close>
named_theorems result_simps \<open>unfolds the combinators on results\<close>

section \<open>Errors\<close>

text \<open>
  The sentinel errors of the packages \<^verbatim>\<open>store\<close> and \<^verbatim>\<open>secrets\<close>, an error that is only a text, and
  \<^verbatim>\<open>fmt.Errorf\<close> with a \<open>%w\<close> at the end of the text.
\<close>

datatype gerr =
    ErrNotFound
  | ErrInvalidToken
  | ErrFingerprintInUse
  | ErrLastAdmin
  | ErrDigestPinned
  | ErrNoBinding string
  | ErrText string
  | ErrWrap string gerr

text \<open>\<^verbatim>\<open>err.Error()\<close>.\<close>

fun error_text :: "gerr \<Rightarrow> string" where
  "error_text ErrNotFound = ''not found''"
| "error_text ErrInvalidToken = ''invalid or expired enrollment token''"
| "error_text ErrFingerprintInUse = ''certificate fingerprint already in use''"
| "error_text ErrLastAdmin = ''cannot remove the last admin account''"
| "error_text ErrDigestPinned = ''image reference is pinned by digest''"
| "error_text (ErrNoBinding scheme) = ''this stack has no '' @ scheme @ '' connection''"
| "error_text (ErrText t) = t"
| "error_text (ErrWrap pre e) = pre @ error_text e"

text \<open>\<^verbatim>\<open>errors.Is(err, target)\<close> for a sentinel target: the target is somewhere in the chain.\<close>

fun error_is :: "gerr \<Rightarrow> gerr \<Rightarrow> bool" where
  "error_is (ErrWrap pre e) t = (ErrWrap pre e = t \<or> error_is e t)"
| "error_is e t = (e = t)"

text \<open>
  \<^verbatim>\<open>%q\<close> of a string, used in error texts only: the quote, the backslash and the control
  characters are escaped; bytes above 0x7f are kept as they are.
\<close>

definition hex_digit :: "nat \<Rightarrow> char" where
  "hex_digit n = ''0123456789abcdef'' ! (n mod 16)"

definition quote_char :: "char \<Rightarrow> string" where
  "quote_char c =
     (if c = CHR 0x22 then [CHR 0x5C, CHR 0x22]
      else if c = CHR 0x5C then [CHR 0x5C, CHR 0x5C]
      else if c = CHR 0x0A then [CHR 0x5C, CHR ''n'']
      else if c = CHR 0x0D then [CHR 0x5C, CHR ''r'']
      else if c = CHR 0x09 then [CHR 0x5C, CHR ''t'']
      else if c < CHR 0x20 \<or> c = CHR 0x7F
        then [CHR 0x5C, CHR ''x'', hex_digit (of_char c div 16), hex_digit (of_char c)]
      else [c])"

definition quoted :: "string \<Rightarrow> string" where
  "quoted s = [CHR 0x22] @ concat (map quote_char s) @ [CHR 0x22]"

section \<open>Results\<close>

type_synonym 'a result = "gerr + 'a"

definition bind_res :: "'a result \<Rightarrow> ('a \<Rightarrow> 'b result) \<Rightarrow> 'b result" where
  "bind_res r f = (case r of Inl e \<Rightarrow> Inl e | Inr x \<Rightarrow> f x)"

text \<open>\<^verbatim>\<open>return ..., fmt.Errorf("pre%w", err)\<close>.\<close>

definition wrap_res :: "string \<Rightarrow> 'a result \<Rightarrow> 'a result" where
  "wrap_res pre r = (case r of Inl e \<Rightarrow> Inl (ErrWrap pre e) | Inr x \<Rightarrow> Inr x)"

abbreviation err_text :: "string \<Rightarrow> 'a result" where
  "err_text t \<equiv> Inl (ErrText t)"

text \<open>\<^verbatim>\<open>if bad \<close>\<open>{\<close>\<^verbatim>\<open> return errors.New(text) \<close>\<open>}\<close>.\<close>

definition guard_res :: "bool \<Rightarrow> string \<Rightarrow> unit result" where
  "guard_res bad t = (if bad then err_text t else Inr ())"

fun map_res :: "('a \<Rightarrow> 'b result) \<Rightarrow> 'a list \<Rightarrow> 'b list result" where
  "map_res f [] = Inr []"
| "map_res f (x # xs) = bind_res (f x) (\<lambda>y. bind_res (map_res f xs) (\<lambda>ys. Inr (y # ys)))"

definition is_ok :: "'a result \<Rightarrow> bool" where
  "is_ok r = (case r of Inl _ \<Rightarrow> False | Inr _ \<Rightarrow> True)"

lemma bind_res_simps [simp]:
  "bind_res (Inl e) f = Inl e"
  "bind_res (Inr x) f = f x"
  by (simp_all add: bind_res_def)

lemma bind_res_eq_Inr [result_simps]:
  "bind_res r f = Inr y \<longleftrightarrow> (\<exists>x. r = Inr x \<and> f x = Inr y)"
  by (cases r) simp_all

lemma wrap_res_simps [simp]:
  "wrap_res pre (Inl e) = Inl (ErrWrap pre e)"
  "wrap_res pre (Inr x) = Inr x"
  by (simp_all add: wrap_res_def)

lemma wrap_res_eq_Inr [simp]: "wrap_res pre r = Inr x \<longleftrightarrow> r = Inr x"
  by (cases r) simp_all

lemma guard_res_eq_Inr [simp]: "guard_res bad t = Inr u \<longleftrightarrow> \<not> bad"
  by (simp add: guard_res_def)

lemma bind_guard_eq_Inr [simp]:
  "bind_res (guard_res bad t) f = Inr y \<longleftrightarrow> \<not> bad \<and> f () = Inr y"
  by (simp add: guard_res_def)

lemma is_ok_simps [simp]: "is_ok (Inr x)" "\<not> is_ok (Inl e)"
  by (simp_all add: is_ok_def)

lemma is_ok_iff: "is_ok r \<longleftrightarrow> (\<exists>x. r = Inr x)"
  by (cases r) simp_all

lemma is_ok_unit: "is_ok r \<longleftrightarrow> r = Inr ()"
  by (cases r) simp_all

lemma map_res_eq_Inr:
  "map_res f xs = Inr ys \<longleftrightarrow> list_all2 (\<lambda>x y. f x = Inr y) xs ys"
  by (induction xs arbitrary: ys) (auto simp: result_simps list_all2_Cons1)

section \<open>Programs\<close>

type_synonym ('s, 'a) prog = "'s \<Rightarrow> 'a result \<times> 's"

definition okP :: "'a \<Rightarrow> ('s, 'a) prog" where
  "okP x s = (Inr x, s)"

definition failP :: "gerr \<Rightarrow> ('s, 'a) prog" where
  "failP e s = (Inl e, s)"

text \<open>
  \<open>tryP m h f\<close> is a Go call with its \<^verbatim>\<open>if err != nil\<close> branch \<open>h\<close> and the code after it \<open>f\<close>;
  \<open>bindP\<close> returns the error to the caller.
\<close>

definition tryP :: "('s, 'a) prog \<Rightarrow> (gerr \<Rightarrow> ('s, 'b) prog) \<Rightarrow> ('a \<Rightarrow> ('s, 'b) prog) \<Rightarrow> ('s, 'b) prog" where
  "tryP m h f s = (case m s of (Inl e, s') \<Rightarrow> h e s' | (Inr x, s') \<Rightarrow> f x s')"

definition bindP :: "('s, 'a) prog \<Rightarrow> ('a \<Rightarrow> ('s, 'b) prog) \<Rightarrow> ('s, 'b) prog" where
  "bindP m f = tryP m failP f"

text \<open>The error is dropped, as in \<^verbatim>\<open>_ = f()\<close>, or logged.\<close>

definition ignoreP :: "('s, 'a) prog \<Rightarrow> ('s, unit) prog" where
  "ignoreP m = tryP m (\<lambda>_. okP ()) (\<lambda>_. okP ())"

definition getP :: "('s \<Rightarrow> 'a) \<Rightarrow> ('s, 'a) prog" where
  "getP f s = (Inr (f s), s)"

definition modP :: "('s \<Rightarrow> 's) \<Rightarrow> ('s, unit) prog" where
  "modP f s = (Inr (), f s)"

definition liftP :: "'a result \<Rightarrow> ('s, 'a) prog" where
  "liftP r s = (r, s)"

text \<open>A loop over a slice whose body may return an error to the caller.\<close>

fun forP :: "('a \<Rightarrow> ('s, unit) prog) \<Rightarrow> 'a list \<Rightarrow> ('s, unit) prog" where
  "forP f [] = okP ()"
| "forP f (x # xs) = bindP (f x) (\<lambda>_. forP f xs)"

text \<open>A program on a part of the state.\<close>

definition zoomP :: "('s \<Rightarrow> 't) \<Rightarrow> ('t \<Rightarrow> 's \<Rightarrow> 's) \<Rightarrow> ('t, 'a) prog \<Rightarrow> ('s, 'a) prog" where
  "zoomP get put m s = (let (r, t) = m (get s) in (r, put t s))"

text \<open>
  The unfolding rules below are not simplification rules by default: without their last argument
  they would rewrite the programs themselves.
\<close>

lemma okP_simp [prog_simps]: "okP x s = (Inr x, s)" by (simp add: okP_def)
lemma failP_simp [prog_simps]: "failP e s = (Inl e, s)" by (simp add: failP_def)
lemma getP_simp [prog_simps]: "getP f s = (Inr (f s), s)" by (simp add: getP_def)
lemma modP_simp [prog_simps]: "modP f s = (Inr (), f s)" by (simp add: modP_def)
lemma liftP_simp [prog_simps]: "liftP r s = (r, s)" by (simp add: liftP_def)

lemma okP_run [simp]:
  "snd (okP x s) = s" "fst (okP x s) = Inr x"
  "(case okP x s of (a, b) \<Rightarrow> g a b) = g (Inr x) s" "okP x s = (a, s') \<longleftrightarrow> Inr x = a \<and> s = s'"
  by (simp_all add: okP_simp)

lemma failP_run [simp]:
  "snd (failP e s) = s" "fst (failP e s) = Inl e"
  "(case failP e s of (a, b) \<Rightarrow> g a b) = g (Inl e) s" "failP e s = (a, s') \<longleftrightarrow> Inl e = a \<and> s = s'"
  by (simp_all add: failP_simp)

lemma getP_run [simp]:
  "snd (getP f s) = s" "fst (getP f s) = Inr (f s)"
  "(case getP f s of (a, b) \<Rightarrow> g a b) = g (Inr (f s)) s" "getP f s = (a, s') \<longleftrightarrow> Inr (f s) = a \<and> s = s'"
  by (simp_all add: getP_simp)

lemma liftP_run [simp]:
  "snd (liftP r s) = s" "fst (liftP r s) = r"
  "(case liftP r s of (a, b) \<Rightarrow> g a b) = g (r) s" "liftP r s = (a, s') \<longleftrightarrow> r = a \<and> s = s'"
  by (simp_all add: liftP_simp)

lemma modP_run [simp]:
  "snd (modP f s) = f s" "fst (modP f s) = Inr ()"
  "(case modP f s of (a, b) \<Rightarrow> g a b) = g (Inr ()) (f s)" "modP f s = (a, s') \<longleftrightarrow> Inr () = a \<and> f s = s'"
  by (simp_all add: modP_simp)

lemmas prog_defs = tryP_def bindP_def ignoreP_def zoomP_def

lemma tryP_okP [simp]: "tryP (okP x) h f = f x" by (rule ext) (simp add: tryP_def)
lemma tryP_failP [simp]: "tryP (failP e) h f = h e" by (rule ext) (simp add: tryP_def)
lemma bindP_okP [simp]: "bindP (okP x) f = f x" by (simp add: bindP_def)
lemma bindP_failP [simp]: "bindP (failP e) f = failP e" by (rule ext) (simp add: bindP_def tryP_def)

lemma snd_bindP_keep: "(\<And>x s. snd (f x s) = s) \<Longrightarrow> snd (bindP m f s) = snd (m s)"
  by (simp add: bindP_def tryP_def split: prod.split sum.split)

section \<open>Invariants of programs\<close>

text \<open>\<open>keeps I m\<close>: whatever \<open>m\<close> returns, it keeps \<open>I\<close>.\<close>

definition keeps :: "('s \<Rightarrow> bool) \<Rightarrow> ('s, 'a) prog \<Rightarrow> bool" where
  "keeps I m = (\<forall>s. I s \<longrightarrow> I (snd (m s)))"

lemma keepsI: "(\<And>s. I s \<Longrightarrow> I (snd (m s))) \<Longrightarrow> keeps I m"
  by (simp add: keeps_def)

lemma keepsD: "keeps I m \<Longrightarrow> I s \<Longrightarrow> I (snd (m s))"
  by (simp add: keeps_def)

lemma keepsE: "keeps I m \<Longrightarrow> I s \<Longrightarrow> m s = (r, s') \<Longrightarrow> I s'"
  using keepsD [of I m s] by simp

lemma keeps_okP [keeps_intros, intro]: "keeps I (okP x)" by (simp add: keeps_def)
lemma keeps_failP [keeps_intros, intro]: "keeps I (failP e)" by (simp add: keeps_def)
lemma keeps_getP [keeps_intros, intro]: "keeps I (getP f)" by (simp add: keeps_def)
lemma keeps_liftP [keeps_intros, intro]: "keeps I (liftP r)" by (simp add: keeps_def)

lemma keeps_modP: "(\<And>s. I s \<Longrightarrow> I (f s)) \<Longrightarrow> keeps I (modP f)"
  by (simp add: keeps_def)

lemma keeps_tryP [keeps_intros]:
  "keeps I m \<Longrightarrow> (\<And>e. keeps I (h e)) \<Longrightarrow> (\<And>x. keeps I (f x)) \<Longrightarrow> keeps I (tryP m h f)"
  by (fastforce simp: keeps_def tryP_def split: prod.split sum.split)

lemma keeps_bindP [keeps_intros]:
  "keeps I m \<Longrightarrow> (\<And>x. keeps I (f x)) \<Longrightarrow> keeps I (bindP m f)"
  unfolding bindP_def by (rule keeps_tryP) auto

lemma keeps_ignoreP [keeps_intros]: "keeps I m \<Longrightarrow> keeps I (ignoreP m)"
  unfolding ignoreP_def by (rule keeps_tryP) auto

lemma keeps_forP [keeps_intros]: "(\<And>x. keeps I (f x)) \<Longrightarrow> keeps I (forP f xs)"
  by (induction xs) (auto intro: keeps_bindP)

lemma keeps_if [keeps_intros]:
  "(b \<Longrightarrow> keeps I m) \<Longrightarrow> (\<not> b \<Longrightarrow> keeps I n) \<Longrightarrow> keeps I (if b then m else n)"
  by simp

lemma keeps_case_option [keeps_intros]:
  "keeps I m \<Longrightarrow> (\<And>x. keeps I (f x)) \<Longrightarrow> keeps I (case v of None \<Rightarrow> m | Some x \<Rightarrow> f x)"
  by (cases v) simp_all

lemma keeps_case_prod [keeps_intros]:
  "(\<And>x y. keeps I (f x y)) \<Longrightarrow> keeps I (case v of (x, y) \<Rightarrow> f x y)"
  by (cases v) simp

lemma keeps_case_sum [keeps_intros]:
  "(\<And>x. keeps I (f x)) \<Longrightarrow> (\<And>y. keeps I (g y)) \<Longrightarrow> keeps I (case v of Inl x \<Rightarrow> f x | Inr y \<Rightarrow> g y)"
  by (cases v) simp_all

lemma keeps_zoomP [keeps_intros]:
  assumes "keeps I m" and "\<And>s. J s \<Longrightarrow> I (get s)" and "\<And>s t. J s \<Longrightarrow> I t \<Longrightarrow> J (put t s)"
  shows "keeps J (zoomP get put m)"
  using assms by (auto simp: keeps_def zoomP_def split: prod.split) (metis snd_conv)

text \<open>A sequence of calls, each keeping the invariant.\<close>

fun run_all :: "('s, 'a) prog list \<Rightarrow> 's \<Rightarrow> 's" where
  "run_all [] s = s"
| "run_all (m # ms) s = run_all ms (snd (m s))"

lemma run_all_keeps: "(\<And>m. m \<in> set ms \<Longrightarrow> keeps I m) \<Longrightarrow> I s \<Longrightarrow> I (run_all ms s)"
  by (induction ms arbitrary: s) (auto simp: keeps_def)

section \<open>Association lists\<close>

text \<open>
  A Go map whose iteration order matters nowhere is an association list read with \<open>map_of\<close> and
  written with \<open>put_assoc\<close> and \<open>del_assoc\<close>.
\<close>

definition put_assoc :: "'k \<Rightarrow> 'v \<Rightarrow> ('k \<times> 'v) list \<Rightarrow> ('k \<times> 'v) list" where
  "put_assoc k v m = (k, v) # filter (\<lambda>p. fst p \<noteq> k) m"

definition del_assoc :: "'k \<Rightarrow> ('k \<times> 'v) list \<Rightarrow> ('k \<times> 'v) list" where
  "del_assoc k m = filter (\<lambda>p. fst p \<noteq> k) m"

lemma map_of_put_assoc [simp]: "map_of (put_assoc k v m) = (map_of m)(k \<mapsto> v)"
proof
  show "map_of (put_assoc k v m) x = ((map_of m)(k \<mapsto> v)) x" for x
    by (induction m) (auto simp: put_assoc_def)
qed

lemma map_of_del_assoc [simp]: "map_of (del_assoc k m) = (map_of m)(k := None)"
proof
  show "map_of (del_assoc k m) x = ((map_of m)(k := None)) x" for x
    by (induction m) (auto simp: del_assoc_def)
qed

text \<open>\<^verbatim>\<open>m[k]\<close> of a map to strings: the empty string for a key that is not there.\<close>

definition get_str :: "('k \<times> string) list \<Rightarrow> 'k \<Rightarrow> string" where
  "get_str m k = (case map_of m k of None \<Rightarrow> '''' | Some v \<Rightarrow> v)"

lemma distinct_put_assoc: "distinct (map fst m) \<Longrightarrow> distinct (map fst (put_assoc k v m))"
  by (induction m) (auto simp: put_assoc_def)

lemma distinct_del_assoc: "distinct (map fst m) \<Longrightarrow> distinct (map fst (del_assoc k m))"
  by (induction m) (auto simp: del_assoc_def)

text \<open>
  Keeping the first occurrence of each element, the loops with a \<^verbatim>\<open>seen\<close> map.
\<close>

fun dedup_from :: "'a list \<Rightarrow> 'a list \<Rightarrow> 'a list" where
  "dedup_from seen [] = []"
| "dedup_from seen (x # xs) =
     (if x \<in> set seen then dedup_from seen xs else x # dedup_from (x # seen) xs)"

abbreviation dedup :: "'a list \<Rightarrow> 'a list" where
  "dedup \<equiv> dedup_from []"

lemma set_dedup_from [simp]: "set (dedup_from seen xs) = set xs - set seen"
  by (induction seen xs rule: dedup_from.induct) auto

lemma distinct_dedup_from [simp]: "distinct (dedup_from seen xs)"
  by (induction seen xs rule: dedup_from.induct) auto

section \<open>Triples\<close>

text \<open>From \<open>P\<close>, whatever \<open>m\<close> returns satisfies \<open>Q\<close> in the state it leaves.\<close>

definition triple :: "('s \<Rightarrow> bool) \<Rightarrow> ('s, 'a) prog \<Rightarrow> ('a result \<Rightarrow> 's \<Rightarrow> bool) \<Rightarrow> bool" where
  "triple P m Q \<longleftrightarrow> (\<forall>s. P s \<longrightarrow> (case m s of (r, s') \<Rightarrow> Q r s'))"

lemma tripleI: "(\<And>s r s'. P s \<Longrightarrow> m s = (r, s') \<Longrightarrow> Q r s') \<Longrightarrow> triple P m Q"
  by (auto simp: triple_def split: prod.split)

lemma tripleD: "triple P m Q \<Longrightarrow> P s \<Longrightarrow> m s = (r, s') \<Longrightarrow> Q r s'"
  by (auto simp: triple_def)

lemma triple_weaken:
  "triple P m Q \<Longrightarrow> (\<And>s. P' s \<Longrightarrow> P s) \<Longrightarrow> (\<And>r s. Q r s \<Longrightarrow> Q' r s) \<Longrightarrow> triple P' m Q'"
  by (fastforce simp: triple_def split: prod.splits)

lemma triple_keeps: "keeps I m \<longleftrightarrow> triple I m (\<lambda>_. I)"
  by (auto simp: keeps_def triple_def split: prod.splits) (metis surjective_pairing)

lemma triple_tryP:
  assumes "triple P m R" and "\<And>e. triple (R (Inl e)) (h e) Q" and "\<And>x. triple (R (Inr x)) (f x) Q"
  shows "triple P (tryP m h f) Q"
proof (rule tripleI)
  fix s r s'
  assume P: "P s" and run: "tryP m h f s = (r, s')"
  obtain r1 s1 where m: "m s = (r1, s1)" by (metis surj_pair)
  have R: "R r1 s1" by (rule tripleD [OF assms(1) P m])
  show "Q r s'"
  proof (cases r1)
    case (Inl e)
    with run m have "h e s1 = (r, s')" by (simp add: tryP_def)
    then show ?thesis using tripleD [OF assms(2)] R Inl by blast
  next
    case (Inr x)
    with run m have "f x s1 = (r, s')" by (simp add: tryP_def)
    then show ?thesis using tripleD [OF assms(3)] R Inr by blast
  qed
qed

lemma triple_failP: "(\<And>s. P s \<Longrightarrow> Q (Inl e) s) \<Longrightarrow> triple P (failP e) Q"
  by (simp add: triple_def)

lemma triple_okP: "(\<And>s. P s \<Longrightarrow> Q (Inr x) s) \<Longrightarrow> triple P (okP x) Q"
  by (simp add: triple_def)

lemma triple_bindP:
  assumes "triple P m R" and "\<And>e s. R (Inl e) s \<Longrightarrow> Q (Inl e) s"
    and "\<And>x. triple (R (Inr x)) (f x) Q"
  shows "triple P (bindP m f) Q"
  unfolding bindP_def by (rule triple_tryP [OF assms(1) _ assms(3)]) (auto intro: triple_failP assms(2))

lemma triple_if:
  "(b \<Longrightarrow> triple P m Q) \<Longrightarrow> (\<not> b \<Longrightarrow> triple P n Q) \<Longrightarrow> triple P (if b then m else n) Q"
  by simp

text \<open>The form in which a concrete run discharges a hypothesis.\<close>

lemma run_eqI: "fst p = r \<Longrightarrow> p = (r, snd p)"
  by (cases p) simp

lemma find_in: "find P xs = Some x \<Longrightarrow> x \<in> set xs \<and> P x"
  by (auto simp: find_Some_iff)

lemma find_append: "find P (xs @ ys) = (case find P xs of None \<Rightarrow> find P ys | Some x \<Rightarrow> Some x)"
  by (induction xs) auto

text \<open>How a run of a compound program went.\<close>

lemma tryP_run: "tryP m h f s = (r, s') \<longleftrightarrow>
    (\<exists>e s1. m s = (Inl e, s1) \<and> h e s1 = (r, s')) \<or> (\<exists>x s1. m s = (Inr x, s1) \<and> f x s1 = (r, s'))"
  by (auto simp: tryP_def split: prod.splits sum.splits)

lemma zoomP_run: "zoomP get put m s = (r, s') \<longleftrightarrow> (\<exists>t. m (get s) = (r, t) \<and> s' = put t s)"
  by (auto simp: zoomP_def split: prod.splits)

lemma ignoreP_run: "ignoreP m s = (r, s') \<longleftrightarrow> r = Inr () \<and> s' = snd (m s)"
  by (auto simp: ignoreP_def tryP_def split: prod.splits sum.splits)

end
