(* ===== verification/Secret_Refs.thy ===== *)
theory Secret_Refs
  imports Go_Base
begin

text \<open>
  \<^verbatim>\<open>src/internal/secrets/ref.go\<close>: references \<open>ref+scheme://path#/field\<close>, their parser, the
  expansion of \<open>{stack}\<close> and the file \<open>secrets.refs.yaml\<close>.  The YAML decoder is a parameter.
\<close>

section \<open>References\<close>

record ref =
  r_scheme :: string
  r_path :: string
  r_field :: string

definition ref_string :: "ref \<Rightarrow> string" where
  "ref_string r = ''ref+'' @ r_scheme r @ ''://'' @ r_path r @ ''#/'' @ r_field r"

text \<open>\<^verbatim>\<open>schemeRe\<close>, \<^verbatim>\<open>envKeyRe\<close> and \<^verbatim>\<open>stackIDRe\<close>.\<close>

definition scheme_re :: "string \<Rightarrow> bool" where
  "scheme_re = head_tail_re is_lower (\<lambda>c. is_lower c \<or> is_digit c)"

definition env_key_re :: "string \<Rightarrow> bool" where
  "env_key_re = head_tail_re (\<lambda>c. is_alpha c \<or> c = CHR ''_'') (\<lambda>c. is_alnum c \<or> c = CHR ''_'')"

definition stack_id_re :: "string \<Rightarrow> bool" where
  "stack_id_re =
     head_tail_re (\<lambda>c. is_lower c \<or> is_digit c) (\<lambda>c. is_lower c \<or> is_digit c \<or> c = CHR ''-'')"

definition stack_placeholder :: string where
  "stack_placeholder = ''{stack}''"

text \<open>
  \<^verbatim>\<open>checkChars\<close>.  The loop of the source runs over code points; only ASCII ones are refused, and
  these are single bytes in UTF-8, so the loop over bytes refuses at the same place.
\<close>

definition bad_char :: "char \<Rightarrow> string option" where
  "bad_char c =
     (if c = CHR ''%'' then Some ''percent-encoding is not allowed''
      else if c = CHR ''#'' then Some ''# is not allowed''
      else if c = CHR 0x5C then Some ''backslash is not allowed''
      else if c \<le> CHR '' '' \<or> c = CHR 0x7F then Some ''whitespace and control characters are not allowed''
      else None)"

fun check_chars :: "string \<Rightarrow> unit result" where
  "check_chars [] = Inr ()"
| "check_chars (c # cs) = (case bad_char c of Some t \<Rightarrow> err_text t | None \<Rightarrow> check_chars cs)"

fun check_path_segs :: "string list \<Rightarrow> unit result" where
  "check_path_segs [] = Inr ()"
| "check_path_segs (seg # segs) =
     (if seg = '''' then err_text ''empty segment''
      else if seg = ''.'' \<or> seg = ''..'' then err_text ''\".\" and \"..\" segments are not allowed''
      else check_path_segs segs)"

definition check_path :: "string \<Rightarrow> unit result" where
  "check_path path =
     (if path = '''' then err_text ''empty''
      else bind_res (check_chars path) (\<lambda>_.
        if contains_any (replace_all stack_placeholder '''' path) ''{}''
        then err_text ''only {stack} can be written between braces''
        else check_path_segs (split_on CHR ''/'' path)))"

definition parse_ref :: "string \<Rightarrow> ref result" where
  "parse_ref s =
     (case cut_prefix s ''ref+'' of
        None \<Rightarrow> err_text ''not a reference (must start with ref+)''
      | Some rest \<Rightarrow>
        (case cut_at ''://'' rest of
           None \<Rightarrow> err_text ''expected ref+<scheme>://<path>#/<field>''
         | Some (scheme, rest) \<Rightarrow>
           if \<not> scheme_re scheme then err_text ''expected ref+<scheme>://<path>#/<field>''
           else (case cut_at ''#/'' rest of
              None \<Rightarrow> err_text ''missing #/<field>''
            | Some (path, field) \<Rightarrow>
              if contains_str path ''?'' \<or> contains_str field ''?''
              then err_text ''query parameters are not allowed in a reference''
              else bind_res (wrap_res ''path: '' (check_path path)) (\<lambda>_.
                if field = '''' \<or> contains_str field ''/''
                then err_text ''field must be a single non-empty name''
                else bind_res (wrap_res ''field: '' (check_chars field)) (\<lambda>_.
                  if contains_any field ''{}''
                  then err_text ''field: {stack} is only available in the path''
                  else Inr \<lparr>r_scheme = scheme, r_path = path, r_field = field\<rparr>)))))"

definition expand_stack :: "ref \<Rightarrow> string \<Rightarrow> ref result" where
  "expand_stack r stack =
     (if \<not> contains_str (r_path r) stack_placeholder then Inr r
      else if \<not> stack_id_re stack
        then err_text (''{stack} cannot be used: the stack id '' @ quoted stack @ '' is not a plain id'')
      else let path = replace_all stack_placeholder stack (r_path r)
           in bind_res (wrap_res ''path: '' (check_path path)) (\<lambda>_. Inr (r\<lparr>r_path := path\<rparr>)))"

section \<open>The file secrets.refs.yaml\<close>

record entry =
  e_key :: string
  e_ref :: ref

text \<open>A YAML scalar or anything else, as the decoder's \<^verbatim>\<open>any\<close> is used: a string or not.\<close>

datatype yaml_value = YString string | YOther

definition max_refs_file_size :: nat where
  "max_refs_file_size = 64 * 1024"

definition refs_file_name :: string where
  "refs_file_name = ''secrets.refs.yaml''"

text \<open>The loop over the items: its state is the index, the \<^verbatim>\<open>seen\<close> keys, the problems and the entries.\<close>

fun parse_items ::
  "(yaml_value \<times> yaml_value) list \<Rightarrow> nat \<Rightarrow> string list \<Rightarrow> string list \<Rightarrow> entry list
     \<Rightarrow> string list \<times> entry list" where
  "parse_items [] i seen problems entries = (problems, entries)"
| "parse_items ((k, v) # items) i seen problems entries =
     (case k of
        YOther \<Rightarrow> parse_items items (i + 1) seen
          (problems @ [''entry '' @ show_int (int i + 1) @ '': key is not a valid environment variable name'']) entries
      | YString key \<Rightarrow>
        if \<not> env_key_re key then parse_items items (i + 1) seen
          (problems @ [''entry '' @ show_int (int i + 1) @ '': key is not a valid environment variable name'']) entries
        else if key \<in> set seen then parse_items items (i + 1) seen
          (problems @ [key @ '': defined more than once'']) entries
        else (case v of
            YOther \<Rightarrow> parse_items items (i + 1) (key # seen)
              (problems @ [key @ '': value must be a ref+<scheme>://... string'']) entries
          | YString raw \<Rightarrow>
            (case parse_ref raw of
               Inl e \<Rightarrow> parse_items items (i + 1) (key # seen)
                 (problems @
                   [if \<not> prefix ''ref+'' raw
                    then key @ '': literal values are not allowed, keep non-secret settings in the stack's environment variables''
                    else key @ '': '' @ error_text e]) entries
             | Inr r \<Rightarrow> parse_items items (i + 1) (key # seen) problems
                 (entries @ [\<lparr>e_key = key, e_ref = r\<rparr>]))))"

text \<open>
  \<open>unmarshal\<close> stands for \<^verbatim>\<open>yaml.Unmarshal\<close> into a \<^verbatim>\<open>MapSlice\<close>: its error is the line of the
  failing token, when it has one (\<^verbatim>\<open>errorLine\<close>).
\<close>

definition error_line :: "int option \<Rightarrow> string" where
  "error_line pos = (case pos of None \<Rightarrow> '''' | Some n \<Rightarrow> '' (line '' @ show_int n @ '')'')"

definition parse_file ::
  "(string \<Rightarrow> int option + (yaml_value \<times> yaml_value) list) \<Rightarrow> string \<Rightarrow> entry list result" where
  "parse_file unmarshal data =
     (if length data > max_refs_file_size
      then err_text (refs_file_name @ '' is larger than '' @ show_int (int (max_refs_file_size div 1024)) @ '' KiB'')
      else (case unmarshal data of
          Inl pos \<Rightarrow> err_text (refs_file_name @ '' is not a valid flat KEY: ref+... map'' @ error_line pos)
        | Inr doc \<Rightarrow>
          (case parse_items doc 0 [] [] [] of (problems, entries) \<Rightarrow>
            if problems \<noteq> []
            then err_text (''invalid '' @ refs_file_name @ '':'' @ [CHR 0x0A] @ ''  '' @
                   join_with ([CHR 0x0A] @ ''  '') (sort problems))
            else Inr entries)))"

section \<open>Characters and paths\<close>

lemma check_chars_iff: "check_chars s = Inr () \<longleftrightarrow> list_all (\<lambda>c. bad_char c = None) s"
  by (induction s) (auto split: option.splits)

definition plain_segment :: "string \<Rightarrow> bool" where
  "plain_segment seg \<longleftrightarrow> seg \<noteq> '''' \<and> seg \<noteq> ''.'' \<and> seg \<noteq> ''..''"

lemma check_path_segs_iff: "check_path_segs segs = Inr () \<longleftrightarrow> list_all plain_segment segs"
  by (induction segs) (auto simp: plain_segment_def)

lemma check_path_iff:
  "check_path p = Inr () \<longleftrightarrow>
     list_all (\<lambda>c. bad_char c = None) p
   \<and> set (replace_all stack_placeholder '''' p) \<inter> {CHR ''{'', CHR ''}''} = {}
   \<and> list_all plain_segment (split_on CHR ''/'' p)"
proof -
  have "p = [] \<Longrightarrow> \<not> list_all plain_segment (split_on CHR ''/'' p)"
    by (simp add: plain_segment_def)
  then show ?thesis
    by (auto simp: check_path_def check_chars_iff check_path_segs_iff contains_any_iff result_simps)
qed

lemma stack_id_chars:
  assumes "stack_id_re i"
  shows "i \<noteq> []" and "c \<in> set i \<Longrightarrow> is_lower c \<or> is_digit c \<or> c = CHR ''-''"
    and "is_lower (hd i) \<or> is_digit (hd i)"
  using assms by (auto simp: stack_id_re_def head_tail_re_def list_all_iff split: list.splits)

lemma stack_id_bad_char:
  assumes "stack_id_re i"
  shows "list_all (\<lambda>c. bad_char c = None) i"
proof -
  have sp: "\<not> c \<le> CHR '' ''" if "is_lower c \<or> is_digit c \<or> c = CHR ''-''" for c
    using that by (auto simp: class_defs dest: order_trans)
  have "bad_char c = None" if "c \<in> set i" for c
    using stack_id_chars(2) [OF assms that] sp [of c] by (auto simp: bad_char_def class_defs)
  then show ?thesis by (simp add: list_all_iff)
qed

lemma stack_id_excludes:
  assumes "stack_id_re i"
  shows "CHR ''/'' \<notin> set i" "CHR ''{'' \<notin> set i" "CHR ''}'' \<notin> set i" "CHR ''_'' \<notin> set i"
    "CHR ''*'' \<notin> set i" "CHR ''?'' \<notin> set i"
  using stack_id_chars(2) [OF assms] by (force simp: class_defs)+

lemma placeholder_facts [simp]:
  "stack_placeholder \<noteq> []" "CHR ''/'' \<notin> set stack_placeholder"
  "hd stack_placeholder = CHR ''{''"
  by (simp_all add: stack_placeholder_def)

lemma braces_contains: "set s \<inter> {CHR ''{'', CHR ''}''} = {} \<Longrightarrow> \<not> contains_str s stack_placeholder"
  by (auto simp: contains_iff stack_placeholder_def)

lemma replace_segment_ok:
  assumes "stack_id_re i" and "plain_segment seg"
  shows "plain_segment (replace_all stack_placeholder i seg)"
proof (cases "cut_at stack_placeholder seg")
  case None
  then have "replace_all stack_placeholder i seg = seg"
    by (simp add: replace_all_none contains_str_def)
  with assms(2) show ?thesis by simp
next
  case (Some ab)
  obtain a b where "cut_at stack_placeholder seg = Some (a, b)" using Some by (cases ab) auto
  then have r: "replace_all stack_placeholder i seg = a @ i @ replace_all stack_placeholder i b"
    by (simp add: replace_all_cut)
  have "hd i \<in> set (replace_all stack_placeholder i seg)"
    using r stack_id_chars(1) [OF assms(1)] by simp
  moreover have "hd i \<noteq> CHR ''.''"
    using stack_id_chars(3) [OF assms(1)] by (auto simp: class_defs)
  ultimately show ?thesis by (auto simp: plain_segment_def)
qed

section \<open>Well-formed references\<close>

definition wf_ref :: "ref \<Rightarrow> bool" where
  "wf_ref r \<longleftrightarrow>
     scheme_re (r_scheme r) \<and> check_path (r_path r) = Inr () \<and> CHR ''?'' \<notin> set (r_path r)
   \<and> r_field r \<noteq> [] \<and> list_all (\<lambda>c. bad_char c = None) (r_field r)
   \<and> set (r_field r) \<inter> set ''?/{}'' = {}"

lemma scheme_no_colon: "scheme_re s \<Longrightarrow> CHR '':'' \<notin> set s"
  by (auto simp: scheme_re_def head_tail_re_def class_defs list_all_iff split: list.splits)

lemma check_path_no_hash: "check_path p = Inr () \<Longrightarrow> CHR ''#'' \<notin> set p"
  by (auto simp: check_path_iff list_all_iff bad_char_def)

lemma contains_char [simp]: "contains_str s [c] \<longleftrightarrow> c \<in> set s"
  by (auto simp: contains_iff in_set_conv_decomp)

lemma parse_ref_complete:
  assumes "wf_ref r"
  shows "parse_ref (ref_string r) = Inr r"
proof -
  have a: "cut_prefix (ref_string r) ''ref+'' = Some (r_scheme r @ ''://'' @ r_path r @ ''#/'' @ r_field r)"
    by (simp add: cut_prefix_def ref_string_def)
  have b: "cut_at ''://'' (r_scheme r @ ''://'' @ r_path r @ ''#/'' @ r_field r) =
      Some (r_scheme r, r_path r @ ''#/'' @ r_field r)"
    by (rule cut_at_head) (use assms scheme_no_colon in \<open>simp add: wf_ref_def\<close>)
  have c: "cut_at ''#/'' (r_path r @ ''#/'' @ r_field r) = Some (r_path r, r_field r)"
    by (rule cut_at_head) (use assms check_path_no_hash in \<open>simp add: wf_ref_def\<close>)
  have d: "check_chars (r_field r) = Inr ()" "\<not> contains_any (r_field r) ''{}''"
    using assms by (auto simp: wf_ref_def check_chars_iff contains_any_iff)
  show ?thesis
    using assms unfolding parse_ref_def a option.case b c prod.case
    by (auto simp: wf_ref_def d)
qed

lemma parse_ref_sound:
  assumes "parse_ref s = Inr r"
  shows "wf_ref r \<and> s = ref_string r"
proof -
  from assms obtain rest where a: "cut_prefix s ''ref+'' = Some rest"
    by (auto simp: parse_ref_def split: option.splits)
  then have s: "s = ''ref+'' @ rest"
    by (auto simp: cut_prefix_def prefix_def split: if_splits)
  from assms a obtain sch rest2 where b: "cut_at ''://'' rest = Some (sch, rest2)" "scheme_re sch"
    by (auto simp: parse_ref_def split: option.splits if_splits)
  from assms a b obtain p f where c: "cut_at ''#/'' rest2 = Some (p, f)"
    by (auto simp: parse_ref_def split: option.splits if_splits)
  from assms have r: "check_path p = Inr ()" "r = \<lparr>r_scheme = sch, r_path = p, r_field = f\<rparr>"
    "CHR ''?'' \<notin> set p" "CHR ''?'' \<notin> set f" "f \<noteq> []" "CHR ''/'' \<notin> set f"
    "check_chars f = Inr ()" "\<not> contains_any f ''{}''"
    using a b c by (auto simp: parse_ref_def result_simps split: if_splits)
  have "s = ref_string r"
    using s cut_at_Some [OF b(1)] cut_at_Some [OF c] r(2) by (simp add: ref_string_def)
  with r b(2) show ?thesis by (auto simp: wf_ref_def check_chars_iff contains_any_iff)
qed

text \<open>
  C3 parse_ref_iff.  Parsing and printing are inverse: a text is parsed to a reference exactly when
  the reference is well formed (scheme, path and field as the checks require) and the text is the
  one the reference prints.
\<close>

theorem parse_ref_iff: "parse_ref s = Inr r \<longleftrightarrow> wf_ref r \<and> s = ref_string r"
  using parse_ref_sound parse_ref_complete by blast

section \<open>Expanding the placeholder\<close>

lemma check_path_expand:
  assumes "check_path p = Inr ()" and "stack_id_re i"
  shows "check_path (replace_all stack_placeholder i p) = Inr ()"
    and "set (replace_all stack_placeholder i p) \<inter> {CHR ''{'', CHR ''}''} = {}"
proof -
  let ?q = "replace_all stack_placeholder i p"
  have split: "split_on CHR ''/'' ?q = map (replace_all stack_placeholder i) (split_on CHR ''/'' p)"
    by (rule split_replace_all) (simp_all add: stack_id_excludes [OF assms(2)])
  show braces: "set ?q \<inter> {CHR ''{'', CHR ''}''} = {}"
    using set_replace_all_erase [of stack_placeholder i p] assms(1) stack_id_excludes [OF assms(2)]
    by (auto simp: check_path_iff)
  then have "replace_all stack_placeholder '''' ?q = ?q"
    by (simp add: replace_all_none braces_contains)
  moreover have "list_all (\<lambda>c. bad_char c = None) ?q"
    using set_replace_all [of stack_placeholder i p] assms(1) stack_id_bad_char [OF assms(2)]
    by (auto simp: check_path_iff list_all_iff)
  moreover have "list_all plain_segment (split_on CHR ''/'' ?q)"
    unfolding split using assms(1) replace_segment_ok [OF assms(2)]
    by (auto simp: check_path_iff list_all_iff)
  ultimately show "check_path ?q = Inr ()" using braces by (simp add: check_path_iff)
qed

lemma expand_stack_result:
  assumes "expand_stack r i = Inr r'"
  shows "r' = r\<lparr>r_path := replace_all stack_placeholder i (r_path r)\<rparr>"
  using assms
  by (cases "contains_str (r_path r) stack_placeholder")
    (auto simp: expand_stack_def Let_def result_simps replace_all_none split: if_splits)

lemma expand_stack_ok:
  assumes "wf_ref r" and "stack_id_re i"
  shows "expand_stack r i = Inr (r\<lparr>r_path := replace_all stack_placeholder i (r_path r)\<rparr>)"
  using assms check_path_expand(1) [of "r_path r" i]
  by (auto simp: expand_stack_def Let_def wf_ref_def replace_all_none)

text \<open>
  Expanding a well-formed reference for a plain stack id never fails, and the
  result is a well-formed reference without braces whose path has the same segments as before, each
  with the id in place of \<open>{stack}\<close>: the id cannot add a segment or a \<^verbatim>\<open>..\<close>.
\<close>

theorem expand_stack_safe:
  assumes "wf_ref r" and "stack_id_re i"
  shows "\<exists>r'. expand_stack r i = Inr r' \<and> wf_ref r'
    \<and> set (r_path r') \<inter> {CHR ''{'', CHR ''}''} = {}
    \<and> r_scheme r' = r_scheme r \<and> r_field r' = r_field r
    \<and> split_on CHR ''/'' (r_path r') = map (replace_all stack_placeholder i) (split_on CHR ''/'' (r_path r))"
proof -
  have "CHR ''?'' \<notin> set (replace_all stack_placeholder i (r_path r))"
    using set_replace_all [of stack_placeholder i "r_path r"] assms(1) stack_id_excludes [OF assms(2)]
    by (auto simp: wf_ref_def)
  then show ?thesis
    using expand_stack_ok [OF assms] check_path_expand [OF _ assms(2), of "r_path r"] assms(1)
      split_replace_all [of "CHR ''/''" stack_placeholder i "r_path r"] stack_id_excludes [OF assms(2)]
    by (auto simp: wf_ref_def)
qed

theorem expand_stack_safe_witness:
  "\<exists>r'. expand_stack \<lparr>r_scheme = ''vault'', r_path = ''kv/{stack}/app'', r_field = ''key''\<rparr> ''blog'' = Inr r'
    \<and> wf_ref r' \<and> split_on CHR ''/'' (r_path r') = [''kv'', ''blog'', ''app'']"
proof -
  let ?r = "\<lparr>r_scheme = ''vault'', r_path = ''kv/{stack}/app'', r_field = ''key''\<rparr>"
  have w: "wf_ref ?r" "stack_id_re ''blog''" by code_simp+
  have m: "map (replace_all stack_placeholder ''blog'') (split_on CHR ''/'' (r_path ?r)) =
      [''kv'', ''blog'', ''app'']" by code_simp
  from expand_stack_safe [OF w] show ?thesis unfolding m by blast
qed

section \<open>The whole file\<close>

definition entry_item :: "entry \<Rightarrow> yaml_value \<times> yaml_value" where
  "entry_item e = (YString (e_key e), YString (ref_string (e_ref e)))"

definition wf_entries :: "string list \<Rightarrow> entry list \<Rightarrow> bool" where
  "wf_entries seen es \<longleftrightarrow>
     distinct (map e_key es) \<and> set (map e_key es) \<inter> set seen = {}
   \<and> list_all (\<lambda>e. env_key_re (e_key e) \<and> wf_ref (e_ref e)) es"

definition good_item :: "string list \<Rightarrow> yaml_value \<times> yaml_value \<Rightarrow> entry \<Rightarrow> bool" where
  "good_item seen item e \<longleftrightarrow>
     item = entry_item e \<and> env_key_re (e_key e) \<and> e_key e \<notin> set seen \<and> wf_ref (e_ref e)"

lemma parse_items_good:
  "good_item seen item e \<Longrightarrow>
     parse_items (item # items) i seen problems entries =
     parse_items items (i + 1) (e_key e # seen) problems (entries @ [e])"
  by (cases e) (simp add: good_item_def entry_item_def parse_ref_complete)

lemma parse_items_bad:
  assumes "\<And>e. \<not> good_item seen item e"
  shows "\<exists>seen' p entries'. parse_items (item # items) i seen problems entries =
     parse_items items (i + 1) seen' (problems @ [p]) entries'"
proof -
  obtain k v where kv: "item = (k, v)" by (cases item)
  show ?thesis
  proof (cases k)
    case YOther
    then show ?thesis unfolding kv by (simp only: parse_items.simps yaml_value.case) blast
  next
    case key: (YString key)
    show ?thesis
    proof (cases "env_key_re key \<and> key \<notin> set seen")
      case False
      then show ?thesis unfolding kv key
        by (cases "env_key_re key") (simp_all only: parse_items.simps yaml_value.case if_True if_False
          not_True_eq_False not_False_eq_True simp_thms, blast+)
    next
      case True
      show ?thesis
      proof (cases v)
        case YOther
        with True show ?thesis unfolding kv key
          by (simp only: parse_items.simps yaml_value.case if_False simp_thms) blast
      next
        case raw: (YString raw)
        have "parse_ref raw \<noteq> Inr r" for r
          using assms [of "\<lparr>e_key = key, e_ref = r\<rparr>"] True
          by (auto simp: good_item_def entry_item_def kv key raw parse_ref_iff)
        then obtain er where "parse_ref raw = Inl er" by (cases "parse_ref raw") auto
        with True show ?thesis unfolding kv key raw
          by (simp only: parse_items.simps yaml_value.case sum.case if_False simp_thms) blast
      qed
    qed
  qed
qed

lemma parse_items_nonempty: "problems \<noteq> [] \<Longrightarrow> parse_items items i seen problems entries \<noteq> ([], es)"
proof (induction items arbitrary: i seen problems entries)
  case Nil
  then show ?case by simp
next
  case (Cons item items)
  show ?case
  proof (cases "\<exists>e. good_item seen item e")
    case True
    then show ?thesis using Cons by (auto simp: parse_items_good simp del: parse_items.simps)
  next
    case False
    then obtain seen' p entries' where "parse_items (item # items) i seen problems entries =
        parse_items items (i + 1) seen' (problems @ [p]) entries'"
      using parse_items_bad by metis
    with Cons.IH [of "problems @ [p]"] show ?thesis by simp
  qed
qed

lemma parse_items_iff:
  "parse_items items i seen [] entries = ([], es) \<longleftrightarrow>
     (\<exists>new. es = entries @ new \<and> items = map entry_item new \<and> wf_entries seen new)"
proof (induction items arbitrary: i seen entries)
  case Nil
  then show ?case by (auto simp: wf_entries_def)
next
  case (Cons item items)
  have wf: "item # items = map entry_item new \<and> wf_entries seen new \<longleftrightarrow>
      (\<exists>e new'. new = e # new' \<and> good_item seen item e \<and> items = map entry_item new'
        \<and> wf_entries (e_key e # seen) new')" for new
    by (cases new) (auto simp: good_item_def wf_entries_def)
  show ?case
  proof (cases "\<exists>e. good_item seen item e")
    case True
    then obtain e where e: "good_item seen item e" by blast
    have uniq: "good_item seen item e' \<longleftrightarrow> e' = e" for e'
    proof
      assume "good_item seen item e'"
      with e have "e_key e' = e_key e" "wf_ref (e_ref e')" "wf_ref (e_ref e)"
        "ref_string (e_ref e') = ref_string (e_ref e)"
        by (simp_all add: good_item_def entry_item_def)
      moreover from this have "e_ref e' = e_ref e"
        by (metis parse_ref_complete sum.inject(2))
      ultimately show "e' = e" by (simp add: entry.equality)
    qed (simp add: e)
    show ?thesis
      unfolding parse_items_good [OF e] Cons.IH wf uniq by (simp, blast)
  next
    case False
    then obtain seen' p entries' where "parse_items (item # items) i seen [] entries =
        parse_items items (i + 1) seen' [p] entries'"
      using parse_items_bad [of seen item items i "[]" entries] by auto
    then have "parse_items (item # items) i seen [] entries \<noteq> ([], es)"
      by (simp add: parse_items_nonempty)
    with False show ?thesis unfolding wf by blast
  qed
qed

text \<open>
  \<^verbatim>\<open>ParseFile\<close> is all or nothing: it returns entries exactly when the file is
  small enough, decodes to a map, and every item is a valid variable name bound to the printed form
  of a well-formed reference, no name twice; the entries are then the items, in their order.
\<close>

theorem parse_file_iff:
  "parse_file unmarshal data = Inr es \<longleftrightarrow>
     length data \<le> 64 * 1024 \<and> unmarshal data = Inr (map entry_item es) \<and> wf_entries [] es"
proof (cases "unmarshal data")
  case (Inl pos)
  then show ?thesis by (simp add: parse_file_def max_refs_file_size_def)
next
  case (Inr doc)
  obtain ps xs where p: "parse_items doc 0 [] [] [] = (ps, xs)" by (cases "parse_items doc 0 [] [] []")
  have "parse_file unmarshal data = Inr es \<longleftrightarrow>
      length data \<le> 64 * 1024 \<and> parse_items doc 0 [] [] [] = ([], es)"
    using Inr p by (auto simp: parse_file_def max_refs_file_size_def)
  then show ?thesis using Inr by (auto simp: parse_items_iff)
qed

end
