(* ===== verification/Path_Rules.thy ===== *)
theory Path_Rules
  imports Secret_Refs
begin

text \<open>
  \<^verbatim>\<open>src/internal/secrets/rules.go\<close> and the access rules of \<^verbatim>\<open>connector.go\<close>: path rules with
  \<open>{stack}\<close> and \<open>*\<close>, allowed prefixes, and \<^verbatim>\<open>Effective.PathAllowed\<close>, which decides what a stack may
  read.  The matcher \<open>glob_segment\<close> is the source's backtracking loop; it is proved equal to the
  recursive definition of the language of a pattern, and the facts about rules rest on a small
  contract of matchers that it satisfies.
\<close>

section \<open>The matcher\<close>

text \<open>
  The state of the loop of \<^verbatim>\<open>globSegment\<close>: \<^verbatim>\<open>px\<close>, \<^verbatim>\<open>sx\<close>, and \<^verbatim>\<open>star\<close> with \<^verbatim>\<open>mark\<close>
  (\<^verbatim>\<open>star = -1\<close> is \<open>None\<close>).  After the loop the remaining stars of the pattern are skipped.
\<close>

function glob_skip :: "string \<Rightarrow> nat \<Rightarrow> nat" where
  "glob_skip P px = (if px < length P \<and> P ! px = CHR ''*'' then glob_skip P (px + 1) else px)"
  by pat_completeness auto
termination by (relation "measure (\<lambda>(P, px). length P - px)") auto

definition stars_from :: "string \<Rightarrow> nat \<Rightarrow> nat" where
  "stars_from P k = length (filter (\<lambda>c. c = CHR ''*'') (drop k P))"

definition low_mark :: "nat \<Rightarrow> nat option \<Rightarrow> nat" where
  "low_mark px star = (case star of None \<Rightarrow> px | Some k \<Rightarrow> min px (k + 1))"

lemma stars_from_mono: "i \<le> j \<Longrightarrow> stars_from P j \<le> stars_from P i"
proof -
  assume "i \<le> j"
  then have "drop i P = take (j - i) (drop i P) @ drop j P"
    by (metis append_take_drop_id drop_drop le_add_diff_inverse2)
  then have "stars_from P i = length (filter (\<lambda>c. c = CHR ''*'') (take (j - i) (drop i P))) + stars_from P j"
    unfolding stars_from_def by (metis filter_append length_append)
  then show ?thesis by simp
qed

lemma stars_from_step:
  "k < length P \<Longrightarrow> P ! k = CHR ''*'' \<Longrightarrow> stars_from P (k + 1) < stars_from P k"
  by (simp add: stars_from_def Cons_nth_drop_Suc [symmetric])

function glob_loop :: "string \<Rightarrow> string \<Rightarrow> nat \<Rightarrow> nat \<Rightarrow> nat option \<Rightarrow> nat \<Rightarrow> bool" where
  "glob_loop P S px sx star mark =
     (if sx < length S then
        (if px < length P \<and> P ! px = CHR ''*'' then glob_loop P S (px + 1) sx (Some px) sx
         else if px < length P \<and> P ! px = S ! sx then glob_loop P S (px + 1) (sx + 1) star mark
         else (case star of
             Some k \<Rightarrow> glob_loop P S (k + 1) (mark + 1) star (mark + 1)
           | None \<Rightarrow> False))
      else glob_skip P px = length P)"
  by pat_completeness auto
termination
proof (relation "measures
    [\<lambda>(P, S, px, sx, star, mark). stars_from P (low_mark px star),
     \<lambda>(P, S, px, sx, star, mark). length S - mark,
     \<lambda>(P, S, px, sx, star, mark). length S - sx]", goal_cases)
  case 1
  show ?case by simp
next
  case (2 P S px sx star mark)
  then have a: "stars_from P (px + 1) < stars_from P px" using stars_from_step [of px P] by simp
  have "stars_from P px \<le> stars_from P (low_mark px star)"
    by (rule stars_from_mono) (simp add: low_mark_def split: option.split)
  with a show ?case by (simp add: low_mark_def)
next
  case (3 P S px sx star mark)
  have "stars_from P (low_mark (px + 1) star) \<le> stars_from P (low_mark px star)"
    by (rule stars_from_mono) (auto simp: low_mark_def split: option.split)
  with 3 show ?case by auto
next
  case (4 P S px sx star mark k)
  have "stars_from P (k + 1) \<le> stars_from P (low_mark px star)"
    by (rule stars_from_mono) (simp add: 4 low_mark_def)
  with 4 show ?case by (auto simp: low_mark_def)
qed

declare glob_skip.simps [simp del] glob_loop.simps [simp del]

definition glob_segment :: "string \<Rightarrow> string \<Rightarrow> bool" where
  "glob_segment pattern s = glob_loop pattern s 0 0 None 0"

section \<open>What a pattern means\<close>

text \<open>The reference definition: \<open>*\<close> stands for any string, every other character for itself.\<close>

fun glob :: "string \<Rightarrow> string \<Rightarrow> bool" where
  "glob [] s \<longleftrightarrow> s = []"
| "glob (c # p) [] \<longleftrightarrow> c = CHR ''*'' \<and> glob p []"
| "glob (c # p) (x # s) \<longleftrightarrow>
     (if c = CHR ''*'' then glob p (x # s) \<or> glob (c # p) s else c = x \<and> glob p s)"

lemma glob_star: "glob (CHR ''*'' # p) s \<longleftrightarrow> (\<exists>m. glob p (drop m s))"
proof (induction s)
  case Nil
  show ?case by simp
next
  case (Cons x s)
  have "(\<exists>m. glob p (drop m (x # s))) \<longleftrightarrow> glob p (x # s) \<or> (\<exists>m. glob p (drop m s))"
  proof
    assume "\<exists>m. glob p (drop m (x # s))"
    then obtain m where "glob p (drop m (x # s))" ..
    then show "glob p (x # s) \<or> (\<exists>m. glob p (drop m s))" by (cases m) auto
  next
    assume "glob p (x # s) \<or> (\<exists>m. glob p (drop m s))"
    then show "\<exists>m. glob p (drop m (x # s))" by (metis drop0 drop_Suc_Cons)
  qed
  then show ?case using Cons.IH by simp
qed

lemma glob_lit: "CHR ''*'' \<notin> set l \<Longrightarrow> glob (l @ p) s \<longleftrightarrow> (\<exists>t. s = l @ t \<and> glob p t)"
proof (induction l arbitrary: s)
  case (Cons c l)
  then show ?case by (cases s) auto
qed simp

lemma glob_needs: "glob p s \<Longrightarrow> c \<in> set p \<Longrightarrow> c \<noteq> CHR ''*'' \<Longrightarrow> c \<in> set s"
  by (induction p s rule: glob.induct) (auto split: if_splits)

section \<open>The loop decides the meaning\<close>

lemma glob_skip_spec: "px \<le> length P \<Longrightarrow> glob_skip P px = length P \<longleftrightarrow> glob (drop px P) []"
proof (induction P px rule: glob_skip.induct)
  case (1 P px)
  show ?case
  proof (cases "px < length P")
    case True
    then have "drop px P = P ! px # drop (px + 1) P" by (simp add: Cons_nth_drop_Suc)
    with 1 True show ?thesis by (subst glob_skip.simps) auto
  next
    case False
    with 1 show ?thesis by (subst glob_skip.simps) auto
  qed
qed

text \<open>
  The invariant: since the last star at \<open>k\<close>, the pattern up to \<open>px\<close> is a literal text equal to the
  segment between \<open>mark\<close> and \<open>sx\<close>.
\<close>

definition glob_inv :: "string \<Rightarrow> string \<Rightarrow> nat \<Rightarrow> nat \<Rightarrow> nat option \<Rightarrow> nat \<Rightarrow> bool" where
  "glob_inv P S px sx star mark \<longleftrightarrow>
     px \<le> length P \<and> sx \<le> length S
   \<and> (case star of None \<Rightarrow> True
      | Some k \<Rightarrow> k < px \<and> mark \<le> sx
          \<and> (\<exists>l. CHR ''*'' \<notin> set l \<and> drop (k + 1) P = l @ drop px P \<and> drop mark S = l @ drop sx S))"

definition later :: "string \<Rightarrow> string \<Rightarrow> nat option \<Rightarrow> nat \<Rightarrow> bool" where
  "later P S star mark \<longleftrightarrow>
     (case star of None \<Rightarrow> False | Some k \<Rightarrow> \<exists>m > mark. glob (drop (k + 1) P) (drop m S))"

text \<open>A later start of the last star is only another suffix of what is left.\<close>

lemma later_suffix:
  assumes "glob_inv P S px sx star mark" and "later P S star mark"
  shows "\<exists>n. glob (drop px P) (drop n (drop sx S))"
proof -
  from assms(2) obtain k m where k: "star = Some k" "mark < m" "glob (drop (k + 1) P) (drop m S)"
    by (auto simp: later_def split: option.splits)
  from assms(1) k(1) obtain l where l: "CHR ''*'' \<notin> set l" "drop (k + 1) P = l @ drop px P"
    "drop mark S = l @ drop sx S" "mark \<le> sx" "sx \<le> length S" by (auto simp: glob_inv_def)
  from l(1,2) k(3) obtain t where t: "drop m S = l @ t" "glob (drop px P) t"
    by (auto simp: glob_lit)
  have "length S - mark = length l + (length S - sx)"
    using arg_cong [OF l(3), of length] by simp
  then have len: "mark + length l = sx" using l(4,5) by simp
  have "t = drop (m + length l) S"
    using arg_cong [OF t(1), of "drop (length l)"] by (simp add: add.commute)
  also have "m + length l = (m - mark) + sx" using len k(2) by simp
  finally have "t = drop (m - mark) (drop sx S)" by simp
  with t(2) show ?thesis by blast
qed

lemma glob_loop_spec:
  "glob_inv P S px sx star mark \<Longrightarrow>
     glob_loop P S px sx star mark \<longleftrightarrow> glob (drop px P) (drop sx S) \<or> later P S star mark"
proof (induction P S px sx star mark rule: glob_loop.induct)
  case (1 P S px sx star mark)
  note inv = 1(4)
  have px: "px \<le> length P" and sx: "sx \<le> length S" using inv by (simp_all add: glob_inv_def)
  show ?case
  proof (cases "sx < length S")
    case False
    then have S: "drop sx S = []" by simp
    have "later P S star mark \<Longrightarrow> glob (drop px P) []"
      using later_suffix [OF inv] S by simp
    with False S px show ?thesis by (subst glob_loop.simps) (auto simp: glob_skip_spec)
  next
    case True
    then have S: "drop sx S = S ! sx # drop (sx + 1) S" by (simp add: Cons_nth_drop_Suc)
    consider (star) "px < length P" "P ! px = CHR ''*''"
      | (eq) "px < length P" "P ! px \<noteq> CHR ''*''" "P ! px = S ! sx"
      | (other) "\<not> (px < length P \<and> (P ! px = CHR ''*'' \<or> P ! px = S ! sx))" by blast
    then show ?thesis
    proof cases
      case star
      then have P: "drop px P = CHR ''*'' # drop (px + 1) P" by (metis Cons_nth_drop_Suc Suc_eq_plus1)
      have inv': "glob_inv P S (px + 1) sx (Some px) sx"
        using star sx by (auto simp: glob_inv_def intro: exI [of _ "[]"])
      have "glob_loop P S px sx star mark = glob_loop P S (px + 1) sx (Some px) sx"
        using True star by (subst glob_loop.simps) simp
      also have "\<dots> \<longleftrightarrow> glob (drop (px + 1) P) (drop sx S) \<or> later P S (Some px) sx"
        using 1(1) [OF True _ inv'] star by simp
      also have "\<dots> \<longleftrightarrow> (\<exists>n. glob (drop (px + 1) P) (drop n (drop sx S)))" (is "?a \<or> ?b \<longleftrightarrow> (\<exists>n. ?c n)")
      proof
        assume "?a \<or> ?b"
        then show "\<exists>n. ?c n"
        proof
          assume ?a
          then have "?c 0" by simp
          then show ?thesis ..
        next
          assume ?b
          then obtain m where "m > sx" "glob (drop (px + 1) P) (drop m S)" by (auto simp: later_def)
          then have "?c (m - sx)" by simp
          then show ?thesis ..
        qed
      next
        assume "\<exists>n. ?c n"
        then obtain n where n: "?c n" ..
        then show "?a \<or> ?b"
          by (cases n) (auto simp: later_def add.commute intro!: exI [of _ "sx + n"])
      qed
      also have "\<dots> \<longleftrightarrow> glob (drop px P) (drop sx S)" unfolding P glob_star ..
      also have "\<dots> \<longleftrightarrow> glob (drop px P) (drop sx S) \<or> later P S star mark"
      proof -
        have "later P S star mark \<Longrightarrow> glob (drop px P) (drop sx S)"
          using later_suffix [OF inv] unfolding P glob_star by (metis drop_drop glob_star)
        then show ?thesis by blast
      qed
      finally show ?thesis .
    next
      case eq
      then have P: "drop px P = S ! sx # drop (px + 1) P" by (metis Cons_nth_drop_Suc Suc_eq_plus1)
      have inv': "glob_inv P S (px + 1) (sx + 1) star mark"
      proof (cases star)
        case None
        with eq True show ?thesis by (simp add: glob_inv_def)
      next
        case (Some k)
        with inv obtain l where "CHR ''*'' \<notin> set l" "drop (k + 1) P = l @ drop px P"
          "drop mark S = l @ drop sx S" "k < px" "mark \<le> sx" by (auto simp: glob_inv_def)
        then have "CHR ''*'' \<notin> set (l @ [S ! sx]) \<and> drop (k + 1) P = (l @ [S ! sx]) @ drop (px + 1) P
            \<and> drop mark S = (l @ [S ! sx]) @ drop (sx + 1) S" using eq P S by simp
        then have "\<exists>l. CHR ''*'' \<notin> set l \<and> drop (k + 1) P = l @ drop (px + 1) P
            \<and> drop mark S = l @ drop (sx + 1) S" by blast
        with Some eq True \<open>k < px\<close> \<open>mark \<le> sx\<close> show ?thesis by (simp add: glob_inv_def)
      qed
      have "glob_loop P S px sx star mark = glob_loop P S (px + 1) (sx + 1) star mark"
        using True eq by (subst glob_loop.simps) simp
      also have "\<dots> \<longleftrightarrow> glob (drop (px + 1) P) (drop (sx + 1) S) \<or> later P S star mark"
        using 1(2) [OF True _ _ inv'] eq by simp
      finally show ?thesis using eq P S by simp
    next
      case other
      have direct: "\<not> glob (drop px P) (drop sx S)"
      proof (cases "px < length P")
        case True
        then have "drop px P = P ! px # drop (px + 1) P" by (simp add: Cons_nth_drop_Suc)
        with True other S show ?thesis by auto
      next
        case False
        with S show ?thesis by simp
      qed
      show ?thesis
      proof (cases star)
        case None
        have "\<not> glob_loop P S px sx star mark"
          using True other None by (subst glob_loop.simps) auto
        with direct None show ?thesis by (simp add: later_def)
      next
        case (Some k)
        with inv have k: "k < px" "mark \<le> sx" by (simp_all add: glob_inv_def)
        then have inv': "glob_inv P S (k + 1) (mark + 1) star (mark + 1)"
          using Some px True by (auto simp: glob_inv_def intro: exI [of _ "[]"])
        have "glob_loop P S px sx star mark = glob_loop P S (k + 1) (mark + 1) star (mark + 1)"
          using True other Some by (subst glob_loop.simps) auto
        also have "\<dots> \<longleftrightarrow> glob (drop (k + 1) P) (drop (mark + 1) S) \<or> later P S star (mark + 1)"
          using 1(3) [OF True _ _ Some inv'] other by auto
        also have "\<dots> \<longleftrightarrow> later P S star mark"
          unfolding later_def Some option.case by (metis Suc_eq_plus1 Suc_lessI less_Suc_eq Suc_lessD)
        finally show ?thesis using direct by blast
      qed
    qed
  qed
qed

lemma glob_segment_loop: "glob_segment pattern s \<longleftrightarrow> glob pattern s"
  unfolding glob_segment_def
  using glob_loop_spec [of pattern s 0 0 None 0] by (simp add: glob_inv_def later_def)

text \<open>
  C1 glob_segment_glob.  The backtracking loop of \<^verbatim>\<open>globSegment\<close>, which keeps only the last star and
  resumes one byte further after each mismatch, decides exactly the language of the pattern.
\<close>

theorem glob_segment_glob: "glob_segment pattern s \<longleftrightarrow> glob pattern s"
  by (rule glob_segment_loop)

section \<open>Rules and prefixes\<close>

definition path_rules_key :: string where
  "path_rules_key = ''path_rules''"

text \<open>
  The inner loop of \<^verbatim>\<open>checkRule\<close>: each \<open>{stack}\<close> of a segment is looked at and replaced by \<^verbatim>\<open>x\<close>.
\<close>

function strip_placeholders :: "string \<Rightarrow> string result" where
  "strip_placeholders rest =
     (case cut_at stack_placeholder rest of
        None \<Rightarrow> Inr rest
      | Some (pre, after) \<Rightarrow>
        if after \<noteq> '''' \<and> hd after \<noteq> CHR ''_''
        then err_text (stack_placeholder @ '' must be followed by _, / or the end of the rule, not '' @
               quoted (take 1 after))
        else strip_placeholders (pre @ ''x'' @ after))"
  by pat_completeness auto
termination
proof (relation "measure length", goal_cases)
  case 1
  show ?case by simp
next
  case (2 rest ab pre after)
  then show ?case using cut_at_length [of stack_placeholder rest pre after]
    by (simp add: stack_placeholder_def)
qed

declare strip_placeholders.simps [simp del]

definition check_rule_seg :: "string \<Rightarrow> unit result" where
  "check_rule_seg seg =
     (if seg = '''' then err_text ''empty segment''
      else if seg = ''.'' \<or> seg = ''..'' then err_text ''\".\" and \"..\" segments are not allowed''
      else if contains_str seg ''**'' then err_text ''use a single * to stand for any characters''
      else bind_res (strip_placeholders seg) (\<lambda>rest.
        if contains_any rest ''{}''
        then err_text (''only '' @ stack_placeholder @ '' is allowed between braces'')
        else check_chars (replace_all ''*'' ''x'' rest)))"

fun check_rule_segs :: "string list \<Rightarrow> bool \<Rightarrow> bool result" where
  "check_rule_segs [] all_wild = Inr all_wild"
| "check_rule_segs (seg # segs) all_wild =
     bind_res (check_rule_seg seg) (\<lambda>_. check_rule_segs segs (if seg \<noteq> ''*'' then False else all_wild))"

definition check_rule :: "string \<Rightarrow> unit result" where
  "check_rule rule =
     bind_res (check_rule_segs (split_on CHR ''/'' rule) True) (\<lambda>all_wild.
       if all_wild then err_text ''a rule made only of * allows every path'' else Inr ())"

fun parse_rule_lines :: "string list \<Rightarrow> string list \<Rightarrow> string list result" where
  "parse_rule_lines [] out = Inr out"
| "parse_rule_lines (line # ls) out =
     (let rule = trim_space line in
      if rule = '''' then parse_rule_lines ls out
      else bind_res (wrap_res (''rule '' @ quoted rule @ '': '') (check_rule rule)) (\<lambda>_.
        parse_rule_lines ls (if rule \<in> set out then out else out @ [rule])))"

definition parse_rules :: "string \<Rightarrow> string list result" where
  "parse_rules input = parse_rule_lines (fields_by (\<lambda>c. c = CHR 0x0A \<or> c = CHR 0x0D) input) []"

definition validate_path_rules :: "(string \<times> string) list \<Rightarrow> unit result" where
  "validate_path_rules config = bind_res (parse_rules (get_str config path_rules_key)) (\<lambda>_. Inr ())"

definition expand_rules :: "string list \<Rightarrow> string \<Rightarrow> string list" where
  "expand_rules rules stack =
     (if \<not> stack_id_re stack then [] else map (replace_all stack_placeholder stack) rules)"

definition rule_covers :: "string list \<Rightarrow> string list \<Rightarrow> bool" where
  "rule_covers want segs \<longleftrightarrow>
     length want \<le> length segs \<and> list_all (\<lambda>(w, s). glob_segment w s) (zip want segs)"

definition rule_allowed :: "string list \<Rightarrow> string \<Rightarrow> bool" where
  "rule_allowed rules path =
     list_ex (\<lambda>rule. rule_covers (split_on CHR ''/'' rule) (split_on CHR ''/'' path)) rules"

definition path_allowed :: "string list \<Rightarrow> string \<Rightarrow> bool" where
  "path_allowed prefs path =
     list_ex (\<lambda>p. p = ''*'' \<or> path = p \<or> prefix (p @ ''/'') path) prefs"

fun parse_prefix_fields :: "string list \<Rightarrow> string list \<Rightarrow> string list result" where
  "parse_prefix_fields [] out = Inr out"
| "parse_prefix_fields (f # fs) out =
     (let p = trim_space f in
      if p = '''' then parse_prefix_fields fs out
      else if p = ''*'' then parse_prefix_fields fs (if p \<in> set out then out else out @ [p])
      else let q = trim_suffix (trim_suffix p ''*'') ''/'' in
        bind_res (wrap_res (''prefix '' @ quoted f @ '': '') (check_path q)) (\<lambda>_.
          parse_prefix_fields fs (if q \<in> set out then out else out @ [q])))"

definition parse_prefixes :: "string \<Rightarrow> string list result" where
  "parse_prefixes input =
     parse_prefix_fields (fields_by (\<lambda>c. c = CHR 0x0A \<or> c = CHR 0x0D \<or> c = CHR '','') input) []"

definition normalize_prefixes :: "string \<Rightarrow> string list result" where
  "normalize_prefixes input =
     bind_res (parse_prefixes input) (\<lambda>out.
       if out = [] then err_text ''at least one allowed path prefix is required (use * to allow everything)''
       else Inr out)"

section \<open>A stack's effective connection\<close>

record effective =
  ef_type :: string
  ef_config :: "(string \<times> string) list"
  ef_credentials :: "(string \<times> string) list"
  ef_prefixes :: "string list"
  ef_rules :: "string list"
  ef_has_rules :: bool
  ef_source :: string
  ef_identity :: string

text \<open>\<open>digest\<close> stands for the SHA-256 of the JSON of its arguments, in hex.\<close>

definition new_effective ::
  "(string \<Rightarrow> (string \<times> string) list \<Rightarrow> (string \<times> string) list \<Rightarrow> string) \<Rightarrow> string
     \<Rightarrow> (string \<times> string) list \<Rightarrow> (string \<times> string) list \<Rightarrow> string list \<Rightarrow> string \<Rightarrow> effective" where
  "new_effective digest typ config credentials prefs source =
     \<lparr>ef_type = typ, ef_config = config, ef_credentials = credentials, ef_prefixes = prefs,
      ef_rules = [], ef_has_rules = False, ef_source = source,
      ef_identity = digest typ config credentials\<rparr>"

definition apply_path_rules :: "effective \<Rightarrow> string \<Rightarrow> effective result" where
  "apply_path_rules e stack =
     bind_res (wrap_res ''the connection's path rules are invalid: ''
         (parse_rules (get_str (ef_config e) path_rules_key))) (\<lambda>rules.
       Inr (e\<lparr>ef_has_rules := rules \<noteq> [], ef_rules := expand_rules rules stack\<rparr>))"

definition eff_path_allowed :: "effective \<Rightarrow> string \<Rightarrow> bool" where
  "eff_path_allowed e path =
     (let prefs = (if ef_has_rules e then filter (\<lambda>p. p \<noteq> ''*'') (ef_prefixes e) else ef_prefixes e)
      in path_allowed prefs path \<or> rule_allowed (ef_rules e) path)"

definition allowed_summary :: "effective \<Rightarrow> string" where
  "allowed_summary e =
     (let parts = ef_prefixes e @ map (\<lambda>r. ''rule '' @ r) (ef_rules e)
      in if parts = [] then ''nothing: no allowed path and no path rule'' else join_with '', '' parts)"

section \<open>What an accepted rule looks like\<close>

lemma strip_placeholders_first:
  assumes "strip_placeholders seg = Inr rest" and "cut_at stack_placeholder seg = Some (pre, after)"
  shows "after = [] \<or> hd after = CHR ''_''"
  using assms by (subst (asm) strip_placeholders.simps) (auto split: if_splits)

lemma check_rule_segs_iff:
  "check_rule_segs segs b = Inr w \<longleftrightarrow>
     list_all (\<lambda>seg. check_rule_seg seg = Inr ()) segs \<and> w = (b \<and> list_all (\<lambda>seg. seg = ''*'') segs)"
  by (induction segs b rule: check_rule_segs.induct) (auto simp: result_simps)

lemma check_rule_iff:
  "check_rule rule = Inr () \<longleftrightarrow>
     list_all (\<lambda>seg. check_rule_seg seg = Inr ()) (split_on CHR ''/'' rule)
   \<and> (\<exists>seg\<in>set (split_on CHR ''/'' rule). seg \<noteq> ''*'')"
  by (auto simp: check_rule_def result_simps check_rule_segs_iff list_all_iff)

lemma parse_rule_lines_props:
  assumes "parse_rule_lines ls out = Inr rules" and "distinct out"
    and "\<And>r. r \<in> set out \<Longrightarrow> check_rule r = Inr ()"
  shows "distinct rules \<and> list_all (\<lambda>r. check_rule r = Inr ()) rules"
  using assms
proof (induction ls out rule: parse_rule_lines.induct)
  case (1 out)
  then show ?case by (simp add: list_all_iff)
next
  case (2 line ls out)
  show ?case
  proof (cases "trim_space line = ''''")
    case True
    with 2 show ?thesis by (simp add: Let_def)
  next
    case False
    let ?out = "if trim_space line \<in> set out then out else out @ [trim_space line]"
    from False 2 have c: "check_rule (trim_space line) = Inr ()" "parse_rule_lines ls ?out = Inr rules"
      by (simp_all add: Let_def result_simps)
    have "distinct ?out" "\<And>r. r \<in> set ?out \<Longrightarrow> check_rule r = Inr ()"
      using 2 c by (auto split: if_splits)
    with False c 2 show ?thesis by metis
  qed
qed

lemma parse_rules_accepted:
  "parse_rules input = Inr rules \<Longrightarrow> distinct rules \<and> list_all (\<lambda>r. check_rule r = Inr ()) rules"
  unfolding parse_rules_def by (rule parse_rule_lines_props) auto

section \<open>The contract of a matcher\<close>

text \<open>
  What the facts about rules need of the matcher: a literal prefix of the pattern is a prefix of the
  segment, and a character other than \<open>*\<close> has to occur.
\<close>

locale matcher =
  fixes matches :: "string \<Rightarrow> string \<Rightarrow> bool"
  assumes literal_prefix:
      "\<And>l p s. CHR ''*'' \<notin> set l \<Longrightarrow> matches (l @ p) s \<Longrightarrow> \<exists>t. s = l @ t \<and> matches p t"
    and needs: "\<And>p s c. matches p s \<Longrightarrow> c \<in> set p \<Longrightarrow> c \<noteq> CHR ''*'' \<Longrightarrow> c \<in> set s"
    and empty: "\<And>s. matches [] s \<longleftrightarrow> s = []"
begin

text \<open>A literal text in front that is cut off by a delimiter or by the end is determined by the segment.\<close>

lemma cut_off_unique:
  assumes "matches (l @ a @ p) s" and "matches (l @ b @ q) s"
    and "CHR ''*'' \<notin> set (l @ a)" and "CHR ''*'' \<notin> set (l @ b)" and "d \<noteq> CHR ''*''"
    and "d \<notin> set a" and "d \<notin> set b" and "p = [] \<or> hd p = d" and "q = [] \<or> hd q = d"
  shows "a = b"
proof -
  have tail: "\<exists>t. s = l @ x @ t \<and> (t = [] \<or> hd t = d)"
    if m: "matches (l @ x @ y) s" and x: "CHR ''*'' \<notin> set (l @ x)" and y: "y = [] \<or> hd y = d" for x y
  proof -
    from literal_prefix [of "l @ x" y s] m x obtain t where t: "s = l @ x @ t" "matches y t" by auto
    show ?thesis
    proof (cases y)
      case Nil
      with t empty show ?thesis by auto
    next
      case (Cons c y')
      with y have "y = [d] @ y'" by simp
      with t(2) assms(5) literal_prefix [of "[d]" y' t] show ?thesis using t(1) by auto
    qed
  qed
  from tail [OF assms(1,3,8)] obtain t where t: "s = l @ a @ t" "t = [] \<or> hd t = d" by auto
  from tail [OF assms(2,4,9)] obtain u where u: "s = l @ b @ u" "u = [] \<or> hd u = d" by auto
  have a: "takeWhile (\<lambda>c. c \<noteq> d) (a @ t) = a"
    using t(2) assms(6) by (cases t) (auto simp: takeWhile_append)
  have "takeWhile (\<lambda>c. c \<noteq> d) (b @ u) = b"
    using u(2) assms(7) by (cases u) (auto simp: takeWhile_append)
  with a t(1) u(1) show ?thesis by simp
qed

text \<open>A pattern with another character than the star does not match every segment.\<close>

lemma not_universal:
  assumes "\<exists>c\<in>set p. c \<noteq> CHR ''*''"
  shows "\<not> matches p ''a'' \<or> \<not> matches p ''b''"
  using assms needs [of p "''a''"] needs [of p "''b''"] by fastforce

end

interpretation gs: matcher glob_segment
proof unfold_locales
  fix l p s
  assume "CHR ''*'' \<notin> set l" "glob_segment (l @ p) s"
  then show "\<exists>t. s = l @ t \<and> glob_segment p t"
    by (simp add: glob_segment_loop glob_lit)
qed (auto simp: glob_segment_loop dest: glob_needs)

section \<open>Isolation of stacks\<close>

text \<open>
  A segment separates stacks when nothing before its first \<open>{stack}\<close> is a star.
\<close>

definition separating :: "string \<Rightarrow> bool" where
  "separating rule =
     list_ex (\<lambda>seg. case cut_at stack_placeholder seg of
         None \<Rightarrow> False | Some (pre, _) \<Rightarrow> CHR ''*'' \<notin> set pre) (split_on CHR ''/'' rule)"

lemma expand_rule_split:
  assumes "stack_id_re i"
  shows "split_on CHR ''/'' (replace_all stack_placeholder i rule) =
     map (replace_all stack_placeholder i) (split_on CHR ''/'' rule)"
  by (rule split_replace_all) (simp_all add: stack_id_excludes [OF assms])

lemma rule_covers_nth:
  "rule_covers want segs \<Longrightarrow> k < length want \<Longrightarrow> glob_segment (want ! k) (segs ! k)"
  by (auto simp: rule_covers_def list_all_length)

lemma expanded_tail:
  assumes "after = [] \<or> hd after = CHR ''_''"
  shows "replace_all stack_placeholder i after = [] \<or> hd (replace_all stack_placeholder i after) = CHR ''_''"
  using assms by (cases after) (auto simp: replace_all_Cons stack_placeholder_def)

lemma segment_isolation:
  assumes "check_rule_seg seg = Inr ()" and "cut_at stack_placeholder seg = Some (pre, after)"
    and "CHR ''*'' \<notin> set pre" and "stack_id_re a" and "stack_id_re b"
    and "glob_segment (replace_all stack_placeholder a seg) s"
    and "glob_segment (replace_all stack_placeholder b seg) s"
  shows "a = b"
proof -
  from assms(1) obtain rest where "strip_placeholders seg = Inr rest"
    by (auto simp: check_rule_seg_def result_simps split: if_splits)
  then have "after = [] \<or> hd after = CHR ''_''"
    using assms(2) strip_placeholders_first by blast
  note tail = expanded_tail [OF this]
  have cut: "replace_all stack_placeholder i seg = pre @ i @ replace_all stack_placeholder i after" for i
    using assms(2) by (simp add: replace_all_cut)
  show ?thesis
    by (rule gs.cut_off_unique [where d = "CHR ''_''" and l = pre and s = s
          and p = "replace_all stack_placeholder a after" and q = "replace_all stack_placeholder b after"])
      (use assms cut tail stack_id_excludes [OF assms(4)] stack_id_excludes [OF assms(5)] in auto)
qed

text \<open>
  C2 rule_isolates_stacks.  A rule the parser accepts, with a \<open>{stack}\<close> that no star precedes in
  its segment, never lets two stacks read the same path: a stack named \<open>blog\<close> cannot reach what the
  rule gives to \<open>blog-staging\<close>.
\<close>

theorem rule_isolates_stacks:
  assumes "check_rule rule = Inr ()" and "separating rule"
    and "rule_allowed (expand_rules [rule] a) path" and "rule_allowed (expand_rules [rule] b) path"
  shows "a = b"
proof -
  have ids: "stack_id_re a" "stack_id_re b"
    using assms(3,4) by (auto simp: expand_rules_def rule_allowed_def split: if_splits)
  let ?segs = "split_on CHR ''/'' rule" and ?path = "split_on CHR ''/'' path"
  from assms(2) obtain seg pre after where seg: "seg \<in> set ?segs"
    "cut_at stack_placeholder seg = Some (pre, after)" "CHR ''*'' \<notin> set pre"
    by (auto simp: separating_def list_ex_iff split: option.splits)
  from seg(1) obtain k where k: "k < length ?segs" "?segs ! k = seg" by (auto simp: in_set_conv_nth)
  have cov: "glob_segment (replace_all stack_placeholder i seg) (?path ! k)"
    if "stack_id_re i" "rule_allowed (expand_rules [rule] i) path" for i
    using that k rule_covers_nth [of "map (replace_all stack_placeholder i) ?segs" ?path k]
    by (simp add: expand_rules_def rule_allowed_def expand_rule_split)
  have "check_rule_seg seg = Inr ()" using assms(1) seg(1) by (auto simp: check_rule_iff list_all_iff)
  then show ?thesis
    using segment_isolation [OF _ seg(2,3) ids] cov [OF ids(1) assms(3)] cov [OF ids(2) assms(4)] by blast
qed

theorem rule_isolates_stacks_witness:
  "check_rule ''homelab/{stack}_*'' = Inr () \<and> separating ''homelab/{stack}_*''
    \<and> rule_allowed (expand_rules [''homelab/{stack}_*''] ''blog'') ''homelab/blog_db/key''
    \<and> \<not> rule_allowed (expand_rules [''homelab/{stack}_*''] ''wiki'') ''homelab/blog_db/key''"
proof -
  have a: "check_rule ''homelab/{stack}_*'' = Inr ()" by code_simp
  have b: "separating ''homelab/{stack}_*''" by code_simp
  have c: "rule_allowed (expand_rules [''homelab/{stack}_*''] ''blog'') ''homelab/blog_db/key''"
    by code_simp
  show ?thesis using a b c rule_isolates_stacks [OF a b c] by blast
qed

text \<open>
  Without the condition the isolation fails: the check looks only at what follows the placeholder,
  so a star in front of it is accepted, and \<open>blog\<close> reads what belongs to \<open>my-blog\<close>.
\<close>

lemma star_before_placeholder_leaks:
  "check_rule ''*{stack}'' = Inr ()
    \<and> rule_allowed (expand_rules [''*{stack}''] ''blog'') ''my-blog''
    \<and> rule_allowed (expand_rules [''*{stack}''] ''my-blog'') ''my-blog''"
  by code_simp

section \<open>No rule allows everything\<close>

lemma contains_double_star: "length s \<ge> 2 \<Longrightarrow> \<forall>c\<in>set s. c = CHR ''*'' \<Longrightarrow> contains_str s ''**''"
proof -
  assume a: "length s \<ge> 2" "\<forall>c\<in>set s. c = CHR ''*''"
  then obtain x y t where s: "s = x # y # t" by (cases s; cases "tl s") auto
  then have "s = [] @ ''**'' @ t" using a(2) by simp
  then show ?thesis by (auto simp: contains_iff)
qed

lemma wild_segment:
  assumes "check_rule_seg seg = Inr ()" and "seg \<noteq> ''*''"
  shows "\<exists>c\<in>set seg. c \<noteq> CHR ''*''"
proof (rule ccontr)
  assume n: "\<not> ?thesis"
  have "seg \<noteq> []" "\<not> contains_str seg ''**''"
    using assms(1) by (auto simp: check_rule_seg_def split: if_splits)
  with n have "length seg < 2" using contains_double_star [of seg] by (meson leI)
  with \<open>seg \<noteq> []\<close> n assms(2) show False by (cases seg; cases "tl seg") auto
qed

lemma expanded_not_wild:
  assumes "stack_id_re i" and "\<exists>c\<in>set seg. c \<noteq> CHR ''*''"
  shows "\<exists>c\<in>set (replace_all stack_placeholder i seg). c \<noteq> CHR ''*''"
proof (cases "cut_at stack_placeholder seg")
  case None
  with assms(2) show ?thesis by (simp add: replace_all_none contains_str_def)
next
  case (Some ab)
  obtain a b where "cut_at stack_placeholder seg = Some (a, b)" using Some by (cases ab) auto
  then have "set i \<subseteq> set (replace_all stack_placeholder i seg)" by (auto simp: replace_all_cut)
  moreover have "hd i \<in> set i" "CHR ''*'' \<notin> set i"
    using stack_id_chars(1) [OF assms(1)] stack_id_excludes [OF assms(1)] by simp_all
  ultimately show ?thesis by (metis subsetD)
qed

lemma check_path_repeat:
  assumes "0 < n" and "x = CHR ''a'' \<or> x = CHR ''b''"
  shows "check_path (join_with ''/'' (replicate n [x])) = Inr ()"
    and "split_on CHR ''/'' (join_with ''/'' (replicate n [x])) = replicate n [x]"
proof -
  let ?p = "join_with ''/'' (replicate n [x])"
  show split: "split_on CHR ''/'' ?p = replicate n [x]"
    using assms by (intro split_join) auto
  have chars: "set ?p \<subseteq> {x, CHR ''/''}"
  proof
    fix c
    assume "c \<in> set ?p"
    then show "c \<in> {x, CHR ''/''}"
      using chars_in_split [of c ?p "CHR ''/''"] unfolding split by (cases "c = CHR ''/''") auto
  qed
  then have "set ?p \<inter> {CHR ''{'', CHR ''}''} = {}" using assms(2) by auto
  then have "replace_all stack_placeholder '''' ?p = ?p"
    by (simp add: replace_all_none braces_contains)
  moreover have "list_all (\<lambda>c. bad_char c = None) ?p"
    using chars assms(2) by (auto simp: list_all_iff bad_char_def)
  moreover have "list_all plain_segment (replicate n [x])"
    using assms(2) by (auto simp: list_all_iff plain_segment_def)
  ultimately show "check_path ?p = Inr ()"
    using \<open>set ?p \<inter> _ = {}\<close> split by (simp add: check_path_iff)
qed

text \<open>
  A rule the parser accepts leaves some valid path out, for every stack:
  the check against rules made only of stars is enough.
\<close>

theorem rule_not_universal:
  assumes "check_rule rule = Inr ()"
  shows "\<exists>path. check_path path = Inr () \<and> \<not> rule_allowed (expand_rules [rule] i) path"
proof (cases "stack_id_re i")
  case False
  have "check_path ''a'' = Inr ()" by code_simp
  with False show ?thesis by (auto simp: expand_rules_def rule_allowed_def)
next
  case True
  let ?segs = "split_on CHR ''/'' rule"
  from assms obtain seg where seg: "seg \<in> set ?segs" "seg \<noteq> ''*''" "check_rule_seg seg = Inr ()"
    by (auto simp: check_rule_iff list_all_iff)
  then obtain k where k: "k < length ?segs" "?segs ! k = seg" by (auto simp: in_set_conv_nth)
  obtain x where x: "x = CHR ''a'' \<or> x = CHR ''b''"
    "\<not> glob_segment (replace_all stack_placeholder i seg) [x]"
    using gs.not_universal [OF expanded_not_wild [OF True wild_segment [OF seg(3,2)]]] by blast
  let ?p = "join_with ''/'' (replicate (length ?segs) [x])"
  have n: "0 < length ?segs" using k by linarith
  have "\<not> rule_covers (map (replace_all stack_placeholder i) ?segs) (split_on CHR ''/'' ?p)"
    using k x(2) rule_covers_nth [of "map (replace_all stack_placeholder i) ?segs" _ k]
    unfolding check_path_repeat(2) [OF n x(1)] by fastforce
  then have "\<not> rule_allowed (expand_rules [rule] i) ?p"
    using True by (simp add: expand_rules_def rule_allowed_def expand_rule_split)
  with check_path_repeat(1) [OF n x(1)] show ?thesis by blast
qed

theorem rule_not_universal_witness:
  "\<exists>path. check_path path = Inr () \<and> \<not> rule_allowed (expand_rules [''*/{stack}''] ''blog'') path"
  by (rule rule_not_universal) code_simp

section \<open>What a stack may read\<close>

lemma path_allowed_iff:
  "path_allowed ps path \<longleftrightarrow>
     ''*'' \<in> set ps \<or> (\<exists>p\<in>set ps. prefix (split_on CHR ''/'' p) (split_on CHR ''/'' path))"
  by (auto simp: path_allowed_def list_ex_iff prefix_split_iff)

lemma rule_covers_iff:
  "rule_covers want segs \<longleftrightarrow> (\<exists>us. prefix us segs \<and> list_all2 glob want us)"
proof
  assume r: "rule_covers want segs"
  have "list_all2 glob want (take (length want) segs)"
    using r by (auto simp: rule_covers_def list_all2_conv_all_nth list_all_length glob_segment_loop)
  then show "\<exists>us. prefix us segs \<and> list_all2 glob want us" using take_is_prefix by blast
next
  assume "\<exists>us. prefix us segs \<and> list_all2 glob want us"
  then obtain us vs where "segs = us @ vs" "list_all2 glob want us" by (auto simp: prefix_def)
  then show "rule_covers want segs"
    by (auto simp: rule_covers_def list_all_length glob_segment_loop list_all2_conv_all_nth nth_append)
qed

text \<open>
  What a stack may read through a connection: a path below one of its
  allowed prefixes, by whole segments; any path when it is allowed \<open>*\<close> and the connection has no
  rule at all; or a path below segments that match a rule with the stack's id in it.
\<close>

theorem eff_path_allowed_iff:
  assumes "apply_path_rules e stack = Inr e'"
  shows "\<exists>rules. parse_rules (get_str (ef_config e) path_rules_key) = Inr rules \<and>
    (eff_path_allowed e' path \<longleftrightarrow>
       (\<exists>p\<in>set (ef_prefixes e). p \<noteq> ''*'' \<and> prefix (split_on CHR ''/'' p) (split_on CHR ''/'' path))
     \<or> (''*'' \<in> set (ef_prefixes e) \<and> rules = [])
     \<or> (stack_id_re stack \<and> (\<exists>rule\<in>set rules. \<exists>us. prefix us (split_on CHR ''/'' path)
          \<and> list_all2 glob (map (replace_all stack_placeholder stack) (split_on CHR ''/'' rule)) us)))"
proof -
  from assms obtain rules where r: "parse_rules (get_str (ef_config e) path_rules_key) = Inr rules"
    "e' = e\<lparr>ef_has_rules := rules \<noteq> [], ef_rules := expand_rules rules stack\<rparr>"
    by (auto simp: apply_path_rules_def result_simps)
  have rule: "rule_allowed (expand_rules rules stack) path \<longleftrightarrow>
      stack_id_re stack \<and> (\<exists>rule\<in>set rules. \<exists>us. prefix us (split_on CHR ''/'' path)
        \<and> list_all2 glob (map (replace_all stack_placeholder stack) (split_on CHR ''/'' rule)) us)"
    by (auto simp: expand_rules_def rule_allowed_def list_ex_iff rule_covers_iff expand_rule_split)
  have all: "path_allowed ps path \<longleftrightarrow> ''*'' \<in> set ps \<or>
      (\<exists>p\<in>set ps. p \<noteq> ''*'' \<and> prefix (split_on CHR ''/'' p) (split_on CHR ''/'' path))" for ps
    using path_allowed_iff [of ps path] by metis
  show ?thesis
    using r(1) by (auto simp: r(2) eff_path_allowed_def Let_def all rule)
qed

definition sample_effective :: effective where
  "sample_effective = new_effective (\<lambda>_ _ _. ''id'') ''vault''
     [(''path_rules'', ''homelab/{stack}_*'')] [] [''*'', ''shared/mail''] ''connection main''"

theorem eff_path_allowed_iff_witness:
  "\<exists>e'. apply_path_rules sample_effective ''blog'' = Inr e'
    \<and> eff_path_allowed e' ''shared/mail/smtp'' \<and> \<not> eff_path_allowed e' ''homelab/other''"
proof -
  have ok: "is_ok (apply_path_rules sample_effective ''blog'')" by code_simp
  then obtain e' where e': "apply_path_rules sample_effective ''blog'' = Inr e'" by (auto simp: is_ok_iff)
  have r: "parse_rules (get_str (ef_config sample_effective) path_rules_key) = Inr [''homelab/{stack}_*'']"
    by code_simp
  have p: "set (ef_prefixes sample_effective) = {''*'', ''shared/mail''}" by code_simp
  have a: "eff_path_allowed e' ''shared/mail/smtp''"
    using eff_path_allowed_iff [OF e', of "''shared/mail/smtp''"] unfolding r p by auto
  have "case apply_path_rules sample_effective ''blog'' of
      Inr e' \<Rightarrow> \<not> eff_path_allowed e' ''homelab/other'' | Inl _ \<Rightarrow> False" by code_simp
  with e' a show ?thesis by auto
qed

end
