(* ===== verification/Secret_Resolve.thy ===== *)
theory Secret_Resolve
  imports Path_Rules
begin

text \<open>
  \<^verbatim>\<open>src/internal/secrets/resolve.go\<close> and \<^verbatim>\<open>sops.go\<close>: the resolution of a stack's references into
  environment variables.  A job is the state of one resolution, with its three caches; a provider
  is a program on the job.  Decryption and the lookup of the stack's connection are functions the
  caller puts in the job, as in the source; timeouts are not modelled (a provider that times out
  returns an error).
\<close>

section \<open>Jobs and their caches\<close>

record job =
  j_stack :: string
  j_enc_file :: string
  j_decrypt :: "(string \<Rightarrow> string \<Rightarrow> (string \<times> string) list result) option"
  j_binding :: "(string \<Rightarrow> effective result) option"
  j_enc :: "(string \<times> string) list result option"
  j_effective :: "(string \<times> effective result) list"
  j_memo :: "(string \<times> string result) list"

definition enc_file_name :: string where
  "enc_file_name = ''secrets.enc.yaml''"

definition sops_scheme :: string where
  "sops_scheme = ''sops''"

text \<open>\<^verbatim>\<open>Job.Effective\<close>.\<close>

definition lookup_binding :: "job \<Rightarrow> string \<Rightarrow> effective result" where
  "lookup_binding j scheme =
     (case j_binding j of None \<Rightarrow> Inl (ErrNoBinding scheme) | Some b \<Rightarrow> b scheme)"

definition job_effective :: "string \<Rightarrow> (job, effective) prog" where
  "job_effective scheme j =
     (case map_of (j_effective j) scheme of
        Some r \<Rightarrow> (r, j)
      | None \<Rightarrow>
        let r = lookup_binding j scheme
        in (r, j\<lparr>j_effective := put_assoc scheme r (j_effective j)\<rparr>))"

text \<open>\<^verbatim>\<open>Job.Memo\<close>.\<close>

definition job_memo :: "string \<Rightarrow> (job, string) prog \<Rightarrow> (job, string) prog" where
  "job_memo key fn j =
     (case map_of (j_memo j) key of
        Some r \<Rightarrow> (r, j)
      | None \<Rightarrow>
        let (r, j') = fn j
        in (r, j'\<lparr>j_memo := put_assoc key r (j_memo j')\<rparr>))"

text \<open>\<^verbatim>\<open>Job.encFileValues\<close>.\<close>

definition enc_file_values :: "(job, (string \<times> string) list) prog" where
  "enc_file_values j =
     (case j_enc j of
        Some r \<Rightarrow> (r, j)
      | None \<Rightarrow>
        let r = (if length (j_enc_file j) = 0
                 then err_text (enc_file_name @ '' was not found next to the compose file'')
                 else case j_decrypt j of
                     None \<Rightarrow> err_text (enc_file_name @ '' cannot be decrypted here'')
                   | Some d \<Rightarrow> d (j_stack j) (j_enc_file j))
        in (r, j\<lparr>j_enc := Some r\<rparr>))"

section \<open>Providers\<close>

text \<open>\<^verbatim>\<open>pr_connector\<close> says the provider is a \<^verbatim>\<open>Connector\<close>, one that needs a connection.\<close>

record provider =
  pr_connector :: bool
  pr_call :: "ref \<Rightarrow> (job, string) prog"

definition sops_call :: "ref \<Rightarrow> (job, string) prog" where
  "sops_call r =
     (if r_path r \<noteq> enc_file_name
      then failP (ErrText (''only '' @ enc_file_name @ '' can be referenced''))
      else bindP enc_file_values (\<lambda>values.
        case map_of values (r_field r) of
          None \<Rightarrow> failP (ErrText (''key '' @ quoted (r_field r) @ '' not found in '' @ enc_file_name))
        | Some v \<Rightarrow> okP v))"

definition sops_provider :: provider where
  "sops_provider = \<lparr>pr_connector = False, pr_call = sops_call\<rparr>"

type_synonym resolver = "(string \<times> provider) list"

definition connector_of :: "resolver \<Rightarrow> string \<Rightarrow> provider option" where
  "connector_of rv scheme =
     (case map_of rv scheme of Some p \<Rightarrow> if pr_connector p then Some p else None | None \<Rightarrow> None)"

section \<open>Resolution\<close>

record failure =
  f_key :: string
  f_ref :: ref
  f_err :: gerr

record resolved =
  res_env :: "(string \<times> string) list"
  res_notes :: "string list"
  res_sources :: "string list"

text \<open>The body of the loop of \<^verbatim>\<open>Resolve\<close>: the value of one entry, or its failure.\<close>

definition resolve_entry :: "resolver \<Rightarrow> entry \<Rightarrow> job \<Rightarrow> (failure + string) \<times> job" where
  "resolve_entry rv e j =
     (case expand_stack (e_ref e) (j_stack j) of
        Inl err \<Rightarrow> (Inl \<lparr>f_key = e_key e, f_ref = e_ref e, f_err = err\<rparr>, j)
      | Inr r \<Rightarrow>
        (case map_of rv (r_scheme r) of
           None \<Rightarrow>
             (Inl \<lparr>f_key = e_key e, f_ref = r,
                f_err = ErrText (''no provider for '' @ quoted (r_scheme r) @ '' is available'')\<rparr>, j)
         | Some p \<Rightarrow>
           let checked =
             (if pr_connector p then
                bindP (job_effective (r_scheme r)) (\<lambda>eff.
                  if \<not> eff_path_allowed eff (r_path r)
                  then failP (ErrText (''path '' @ quoted (r_path r) @
                    '' is outside the prefixes allowed for this stack ('' @ allowed_summary eff @ '')''))
                  else okP ())
              else okP ())
           in (case bindP checked (\<lambda>_. pr_call p r) j of
                 (Inl err, j') \<Rightarrow> (Inl \<lparr>f_key = e_key e, f_ref = r, f_err = err\<rparr>, j')
               | (Inr v, j') \<Rightarrow> (Inr v, j'))))"

fun resolve_entries ::
  "resolver \<Rightarrow> entry list \<Rightarrow> (string \<times> string) list \<Rightarrow> failure list \<Rightarrow> job
     \<Rightarrow> (string \<times> string) list \<times> failure list \<times> job" where
  "resolve_entries rv [] env fs j = (env, fs, j)"
| "resolve_entries rv (e # es) env fs j =
     (case resolve_entry rv e j of
        (Inl f, j') \<Rightarrow> resolve_entries rv es env (fs @ [f]) j'
      | (Inr v, j') \<Rightarrow> resolve_entries rv es (put_assoc (e_key e) v env) fs j')"

fun sources_loop :: "entry list \<Rightarrow> string list \<Rightarrow> string list \<Rightarrow> job \<Rightarrow> string list \<times> job" where
  "sources_loop [] seen out j = (out, j)"
| "sources_loop (e # es) seen out j =
     (let scheme = r_scheme (e_ref e) in
      if scheme \<in> set seen then sources_loop es seen out j
      else (case job_effective scheme j of
          (Inl _, j') \<Rightarrow> sources_loop es (scheme # seen) out j'
        | (Inr eff, j') \<Rightarrow> sources_loop es (scheme # seen) (out @ [scheme @ '': '' @ ef_source eff]) j'))"

definition used_sources :: "entry list \<Rightarrow> job \<Rightarrow> string list \<times> job" where
  "used_sources es j = (case sources_loop es [] [] j of (out, j') \<Rightarrow> (sort out, j'))"

definition unreferenced_enc_keys :: "entry list \<Rightarrow> job \<Rightarrow> string list \<times> job" where
  "unreferenced_enc_keys es j =
     (if length (j_enc_file j) = 0 then ([], j)
      else case enc_file_values j of
          (Inl _, j') \<Rightarrow> ([], j')
        | (Inr values, j') \<Rightarrow>
          let used = map (\<lambda>e. r_field (e_ref e)) (filter (\<lambda>e. r_scheme (e_ref e) = sops_scheme) es);
              missing = filter (\<lambda>k. k \<notin> set used) (remdups (map fst values))
          in if missing = [] then ([], j')
             else ([enc_file_name @ '' keys not referenced (ignored): '' @ join_with '', '' (sort missing)], j'))"

definition resolve :: "resolver \<Rightarrow> entry list \<Rightarrow> job \<Rightarrow> (failure list + resolved) \<times> job" where
  "resolve rv es j =
     (case resolve_entries rv es [] [] j of (env, fs, j1) \<Rightarrow>
        if fs \<noteq> [] then (Inl fs, j1)
        else (case unreferenced_enc_keys es j1 of (notes, j2) \<Rightarrow>
          (case used_sources es j2 of (sources, j3) \<Rightarrow>
            (Inr \<lparr>res_env = env, res_notes = notes, res_sources = sources\<rparr>, j3))))"

text \<open>\<^verbatim>\<open>ResolveError.Error\<close>.\<close>

definition failure_line :: "failure \<Rightarrow> string" where
  "failure_line f = f_key f @ '' ('' @ r_scheme (f_ref f) @ ''://): '' @ error_text (f_err f)"

definition resolve_error_text :: "failure list \<Rightarrow> string" where
  "resolve_error_text fs =
     show_int (int (length fs)) @ '' reference(s) could not be resolved:'' @ [CHR 0x0A] @ ''  '' @
     join_with ([CHR 0x0A] @ ''  '') (map failure_line fs)"

section \<open>The contract of a provider\<close>

text \<open>
  The cache of connections only holds what the lookup returns.  A provider leaves the job's inputs
  alone and keeps its cache honest.
\<close>

definition honest_cache :: "job \<Rightarrow> bool" where
  "honest_cache j \<longleftrightarrow> (\<forall>s r. map_of (j_effective j) s = Some r \<longrightarrow> r = lookup_binding j s)"

definition same_inputs :: "job \<Rightarrow> job \<Rightarrow> bool" where
  "same_inputs j j' \<longleftrightarrow>
     j_stack j' = j_stack j \<and> j_enc_file j' = j_enc_file j \<and> j_decrypt j' = j_decrypt j
   \<and> j_binding j' = j_binding j \<and> (honest_cache j \<longrightarrow> honest_cache j')"

lemma same_inputs_refl [simp]: "same_inputs j j" by (simp add: same_inputs_def)

lemma same_inputs_trans: "same_inputs a b \<Longrightarrow> same_inputs b c \<Longrightarrow> same_inputs a c"
  by (simp add: same_inputs_def)

lemma same_inputs_lookup: "same_inputs j j' \<Longrightarrow> lookup_binding j' = lookup_binding j"
  by (rule ext) (simp add: same_inputs_def lookup_binding_def)

locale secret_provider =
  fixes call :: "ref \<Rightarrow> (job, string) prog"
  assumes call_inputs: "\<And>r j. same_inputs j (snd (call r j))"
begin

lemma call_lookup: "lookup_binding (snd (call r j)) = lookup_binding j"
  by (rule same_inputs_lookup [OF call_inputs])

end

lemma job_effective_inputs: "same_inputs j (snd (job_effective s j))"
  by (auto simp: job_effective_def same_inputs_def honest_cache_def lookup_binding_def Let_def
      split: option.splits)

lemma job_effective_honest: "honest_cache j \<Longrightarrow> fst (job_effective s j) = lookup_binding j s"
  by (auto simp: job_effective_def honest_cache_def Let_def split: option.splits)

lemma enc_file_values_inputs: "same_inputs j (snd (enc_file_values j))"
  by (auto simp: enc_file_values_def same_inputs_def honest_cache_def lookup_binding_def Let_def
      split: option.splits)

lemma job_memo_inputs:
  assumes "\<And>j. same_inputs j (snd (fn j))"
  shows "same_inputs j (snd (job_memo key fn j))"
proof (cases "map_of (j_memo j) key")
  case None
  obtain r j' where f: "fn j = (r, j')" by (cases "fn j")
  with assms [of j] have "same_inputs j j'" by simp
  then have "same_inputs j (j'\<lparr>j_memo := m\<rparr>)" for m
    by (auto simp: same_inputs_def honest_cache_def lookup_binding_def)
  with None f show ?thesis by (simp add: job_memo_def)
next
  case (Some a)
  then show ?thesis by (simp add: job_memo_def)
qed

interpretation sops: secret_provider sops_call
proof unfold_locales
  fix r j
  show "same_inputs j (snd (sops_call r j))"
    using enc_file_values_inputs [of j]
    by (auto simp: sops_call_def bindP_def tryP_def split: prod.splits sum.splits option.splits)
qed

section \<open>All or nothing\<close>

text \<open>What each entry gives when the entries are resolved in order.\<close>

fun outcomes :: "resolver \<Rightarrow> entry list \<Rightarrow> job \<Rightarrow> (failure + string) list" where
  "outcomes rv [] j = []"
| "outcomes rv (e # es) j = (case resolve_entry rv e j of (out, j') \<Rightarrow> out # outcomes rv es j')"

definition failures_of :: "(failure + string) list \<Rightarrow> failure list" where
  "failures_of outs = List.map_filter (\<lambda>x. case x of Inl f \<Rightarrow> Some f | Inr _ \<Rightarrow> None) outs"

definition values_of :: "entry list \<Rightarrow> (failure + string) list \<Rightarrow> (string \<times> string) list" where
  "values_of es outs =
     List.map_filter (\<lambda>(e, x). case x of Inl _ \<Rightarrow> None | Inr v \<Rightarrow> Some (e_key e, v)) (zip es outs)"

lemma resolve_entries_outcomes:
  "\<exists>env' j'. resolve_entries rv es env fs j = (env', fs @ failures_of (outcomes rv es j), j')
    \<and> map_of env' = map_of (rev (values_of es (outcomes rv es j)) @ env)"
proof (induction es arbitrary: env fs j)
  case Nil
  then show ?case by (simp add: failures_of_def values_of_def)
next
  case (Cons e es)
  obtain out j1 where o: "resolve_entry rv e j = (out, j1)" by (cases "resolve_entry rv e j")
  show ?case
  proof (cases out)
    case (Inl f)
    with Cons.IH [of env "fs @ [f]" j1] o show ?thesis
      by (simp add: failures_of_def values_of_def map_filter_simps)
  next
    case (Inr v)
    with Cons.IH [of "put_assoc (e_key e) v env" fs j1] o show ?thesis
      by (simp add: failures_of_def values_of_def map_filter_simps map_add_def)
  qed
qed

lemma outcomes_length [simp]: "length (outcomes rv es j) = length es"
  by (induction es arbitrary: j) (auto split: prod.split)

lemma values_of_all:
  "length outs = length es \<Longrightarrow> failures_of outs = [] \<Longrightarrow>
     values_of es outs = zip (map e_key es) (map projr outs)"
  by (induction es outs rule: list_induct2')
    (auto simp: failures_of_def values_of_def map_filter_simps split: sum.splits)

text \<open>
  C4 resolve_all_or_nothing.  A resolution either reports every failing entry, in order, and returns
  no value at all, or no entry failed and the environment binds exactly the keys of the entries to
  the values their providers returned.
\<close>

theorem resolve_all_or_nothing:
  "case fst (resolve rv es j) of
     Inl fs \<Rightarrow> fs \<noteq> [] \<and> fs = failures_of (outcomes rv es j)
   | Inr res \<Rightarrow> failures_of (outcomes rv es j) = []
       \<and> map_of (res_env res) = map_of (rev (zip (map e_key es) (map projr (outcomes rv es j))))
       \<and> dom (map_of (res_env res)) = set (map e_key es)"
proof -
  obtain env j1 where r: "resolve_entries rv es [] [] j = (env, failures_of (outcomes rv es j), j1)"
    "map_of env = map_of (rev (values_of es (outcomes rv es j)))"
    using resolve_entries_outcomes [of rv es "[]" "[]" j] by auto
  show ?thesis
  proof (cases "failures_of (outcomes rv es j) = []")
    case True
    then have v: "values_of es (outcomes rv es j) = zip (map e_key es) (map projr (outcomes rv es j))"
      by (simp add: values_of_all)
    have "dom (map_of env) = set (map e_key es)"
      unfolding r(2) v by (simp add: dom_map_of_conv_image_fst set_map [symmetric] del: set_map)
    with True r v show ?thesis by (simp add: resolve_def split: prod.split)
  next
    case False
    with r show ?thesis by (simp add: resolve_def)
  qed
qed

section \<open>Confinement\<close>

text \<open>
  Two resolvers that differ only in what their connection-based providers answer outside the paths
  the stack is allowed.
\<close>

definition may_read :: "job \<Rightarrow> provider \<Rightarrow> ref \<Rightarrow> bool" where
  "may_read j p r \<longleftrightarrow>
     (pr_connector p \<longrightarrow>
       (\<exists>eff. lookup_binding j (r_scheme r) = Inr eff \<and> eff_path_allowed eff (r_path r)))"

definition agree_on_allowed :: "job \<Rightarrow> resolver \<Rightarrow> resolver \<Rightarrow> bool" where
  "agree_on_allowed j rv rv' \<longleftrightarrow>
     (\<forall>scheme. rel_option (\<lambda>p p'. pr_connector p' = pr_connector p
        \<and> (\<forall>r j'. r_scheme r = scheme \<and> lookup_binding j' = lookup_binding j \<and> may_read j p r
              \<longrightarrow> pr_call p' r j' = pr_call p r j')) (map_of rv scheme) (map_of rv' scheme))"

definition sound_providers :: "resolver \<Rightarrow> bool" where
  "sound_providers rv \<longleftrightarrow> (\<forall>p\<in>snd ` set rv. secret_provider (pr_call p))"

lemma resolve_entry_inputs:
  assumes "sound_providers rv"
  shows "same_inputs j (snd (resolve_entry rv e j))"
proof (cases "expand_stack (e_ref e) (j_stack j)")
  case (Inl err)
  then show ?thesis by (simp add: resolve_entry_def)
next
  case r: (Inr r)
  show ?thesis
  proof (cases "map_of rv (r_scheme r)")
    case None
    with r show ?thesis by (simp add: resolve_entry_def)
  next
    case (Some p)
    then have "secret_provider (pr_call p)"
      using assms by (force simp: sound_providers_def dest: map_of_SomeD)
    then have call: "same_inputs j' (snd (pr_call p r j'))" for j'
      by (rule secret_provider.call_inputs)
    have eff: "same_inputs j (snd (job_effective (r_scheme r) j))" by (rule job_effective_inputs)
    show ?thesis
      using r Some call [of j] eff
        same_inputs_trans [OF eff call [of "snd (job_effective (r_scheme r) j)"]]
      by (auto simp: resolve_entry_def Let_def bindP_def tryP_def split: prod.splits sum.splits)
  qed
qed

lemma resolve_entry_agree:
  assumes "honest_cache j" and "agree_on_allowed j0 rv rv'" and "lookup_binding j = lookup_binding j0"
  shows "resolve_entry rv' e j = resolve_entry rv e j"
proof (cases "expand_stack (e_ref e) (j_stack j)")
  case (Inl err)
  then show ?thesis by (simp add: resolve_entry_def)
next
  case r: (Inr r)
  have rel: "rel_option (\<lambda>p p'. pr_connector p' = pr_connector p
        \<and> (\<forall>ra j'. r_scheme ra = r_scheme r \<and> lookup_binding j' = lookup_binding j0 \<and> may_read j0 p ra
              \<longrightarrow> pr_call p' ra j' = pr_call p ra j')) (map_of rv (r_scheme r)) (map_of rv' (r_scheme r))"
    using assms(2) by (simp add: agree_on_allowed_def)
  show ?thesis
  proof (cases "map_of rv (r_scheme r)")
    case None
    with rel r show ?thesis by (simp add: resolve_entry_def)
  next
    case (Some p)
    with rel obtain p' where p': "map_of rv' (r_scheme r) = Some p'" "pr_connector p' = pr_connector p"
      and same: "\<And>j'. lookup_binding j' = lookup_binding j0 \<Longrightarrow> may_read j0 p r
        \<Longrightarrow> pr_call p' r j' = pr_call p r j'"
      by (auto elim: option.rel_cases)
    obtain er je where je: "job_effective (r_scheme r) j = (er, je)" by (cases "job_effective (r_scheme r) j")
    have er: "er = lookup_binding j0 (r_scheme r)"
      using job_effective_honest [OF assms(1), of "r_scheme r"] assms(3) je by simp
    have lje: "lookup_binding je = lookup_binding j0"
      using same_inputs_lookup [OF job_effective_inputs [of j "r_scheme r"]] assms(3) je by simp
    show ?thesis
    proof (cases "pr_connector p")
      case False
      then show ?thesis
        using r Some p' same [of j] assms(3) by (simp add: resolve_entry_def may_read_def)
    next
      case True
      then show ?thesis
        using r Some p' same [OF lje] je er
        by (cases er) (auto simp: resolve_entry_def may_read_def bindP_def tryP_def split: sum.split)
    qed
  qed
qed

lemma resolve_entries_agree:
  assumes "sound_providers rv" and "agree_on_allowed j0 rv rv'"
  shows "honest_cache j \<Longrightarrow> lookup_binding j = lookup_binding j0 \<Longrightarrow>
    resolve_entries rv' es env fs j = resolve_entries rv es env fs j"
proof (induction es arbitrary: env fs j)
  case (Cons e es)
  obtain out j1 where o: "resolve_entry rv e j = (out, j1)" by (cases "resolve_entry rv e j")
  have "same_inputs j j1" using resolve_entry_inputs [OF assms(1), of j e] o by simp
  then have "honest_cache j1" "lookup_binding j1 = lookup_binding j0"
    using Cons.prems same_inputs_lookup [of j j1] by (simp_all add: same_inputs_def)
  then show ?case
    using o Cons.IH resolve_entry_agree [OF Cons.prems(1) assms(2) Cons.prems(2), of e]
    by (simp split: sum.split)
qed simp

text \<open>
  C5 resolve_confined.  Nothing outside the paths a stack may read has an influence on its
  resolution: replace the providers by others that answer differently only there, and the
  environment, the notes and the errors stay the same.
\<close>

theorem resolve_confined:
  assumes "honest_cache j" and "sound_providers rv" and "agree_on_allowed j rv rv'"
  shows "resolve rv' es j = resolve rv es j"
  using resolve_entries_agree [OF assms(2,3,1) refl] by (simp add: resolve_def)

text \<open>Two providers that differ outside \<open>shared\<close>, for a stack allowed \<open>shared\<close>.\<close>

definition open_provider :: provider where
  "open_provider = \<lparr>pr_connector = True, pr_call = (\<lambda>r. okP ''hunter2'')\<rparr>"

definition closed_provider :: provider where
  "closed_provider = \<lparr>pr_connector = True, pr_call = (\<lambda>r.
     if path_allowed [''shared''] (r_path r) then okP ''hunter2'' else failP (ErrText ''denied''))\<rparr>"

definition sample_job :: job where
  "sample_job = \<lparr>j_stack = ''blog'', j_enc_file = '''', j_decrypt = None,
     j_binding = Some (\<lambda>_. Inr (new_effective (\<lambda>_ _ _. ''id'') ''vault'' [] [] [''shared''] ''main'')),
     j_enc = None, j_effective = [], j_memo = []\<rparr>"

definition sample_entry :: "string \<Rightarrow> entry" where
  "sample_entry path = \<lparr>e_key = ''KEY'', e_ref = \<lparr>r_scheme = ''vault'', r_path = path, r_field = ''f''\<rparr>\<rparr>"

theorem resolve_confined_witness:
  "honest_cache sample_job
   \<and> resolve [(''vault'', closed_provider)] [sample_entry ''shared/a'', sample_entry ''other''] sample_job
     = resolve [(''vault'', open_provider)] [sample_entry ''shared/a'', sample_entry ''other''] sample_job
   \<and> is_ok (case fst (resolve [(''vault'', open_provider)] [sample_entry ''shared/a''] sample_job) of
        Inl _ \<Rightarrow> Inl ErrNotFound | Inr r \<Rightarrow> Inr r)"
proof -
  have h: "honest_cache sample_job" by (simp add: honest_cache_def sample_job_def)
  have s: "sound_providers [(''vault'', open_provider)]"
    by (auto simp: sound_providers_def open_provider_def secret_provider_def)
  have a: "agree_on_allowed sample_job [(''vault'', open_provider)] [(''vault'', closed_provider)]"
    by (auto simp: agree_on_allowed_def open_provider_def closed_provider_def may_read_def sample_job_def
        lookup_binding_def new_effective_def eff_path_allowed_def rule_allowed_def)
  have ok: "is_ok (case fst (resolve [(''vault'', open_provider)] [sample_entry ''shared/a''] sample_job) of
        Inl _ \<Rightarrow> Inl ErrNotFound | Inr r \<Rightarrow> Inr r)"
    by code_simp
  show ?thesis using h ok resolve_confined [OF h s a] by blast
qed

end
