(* ===== verification/Store_Schema.thy ===== *)
theory Store_Schema
  imports Go_Base
begin

text \<open>
  The database of \<^verbatim>\<open>src/internal/store\<close>: one record with a list of rows per table (in the order of
  \<^verbatim>\<open>rowid\<close>, the order of insertion), the clock (\<^verbatim>\<open>datetime('now')\<close>, in seconds), the random source
  and the failures the driver is going to report.  A statement either fails with the driver's error
  and changes nothing, or reads and writes the tables; a transaction that fails restores them.
  \<^verbatim>\<open>RowsAffected\<close> and \<^verbatim>\<open>Scan\<close> do not fail on their own in the SQLite driver: their errors are those
  of the statement.
\<close>

section \<open>Rows\<close>

text \<open>
  \<^verbatim>\<open>hosts\<close>; the struct \<^verbatim>\<open>Host\<close> has the columns up to \<open>h_agent_version\<close> and the code reads only
  those of a \<^verbatim>\<open>Host\<close>.
\<close>

record host =
  h_id :: string
  h_name :: string
  h_status :: string
  h_fp :: string
  h_approved_by :: string
  h_last_seen :: int
  h_address :: string
  h_agent_version :: string
  h_next_fp :: string
  h_arch :: string
  h_approved_at :: "int option"
  h_created :: int

text \<open>\<^verbatim>\<open>enrollment_tokens\<close>.\<close>

record etoken =
  t_id :: string
  t_hash :: string
  t_created_by :: string
  t_created :: int
  t_expires :: int
  t_used_at :: "int option"
  t_used_by :: string

text \<open>\<^verbatim>\<open>deployments\<close>.\<close>

record deployment =
  dp_id :: string
  dp_stack :: string
  dp_host :: string
  dp_action :: string
  dp_trigger :: string
  dp_status :: string
  dp_output :: string
  dp_started :: "int option"
  dp_finished :: "int option"
  dp_created :: int

text \<open>\<^verbatim>\<open>stacks\<close>; a NULL connection is the empty string, as in the struct \<^verbatim>\<open>Stack\<close>.\<close>

record stack =
  st_id :: string
  st_name :: string
  st_source :: string
  st_repo :: string
  st_branch :: string
  st_compose_path :: string
  st_compose :: string
  st_secret :: string
  st_host :: string
  st_trigger :: string
  st_pubkey :: string
  st_ssh_pubkey :: string
  st_connection :: string
  st_webhook_secret :: string
  st_schedule :: string
  st_last_sha :: string
  st_last_polled :: "int option"
  st_subst_keys :: string

text \<open>\<^verbatim>\<open>git_connections\<close>, \<^verbatim>\<open>image_policies\<close>, \<^verbatim>\<open>image_digest_cache\<close> and \<^verbatim>\<open>stack_revisions\<close>.\<close>

record git_connection =
  gc_id :: string
  gc_name :: string
  gc_auth :: string

record image_policy =
  ip_stack :: string
  ip_service :: string
  ip_ref :: string
  ip_policy :: string
  ip_applied :: string

record digest_row =
  dg_ref :: string
  dg_digest :: string
  dg_checked :: "int option"
  dg_error :: string

record stack_revision =
  sr_id :: nat
  sr_stack :: string
  sr_compose :: string
  sr_created :: int

text \<open>
  The tables \<^verbatim>\<open>host_containers\<close>, \<^verbatim>\<open>host_images\<close>, \<^verbatim>\<open>host_volumes\<close> and \<^verbatim>\<open>host_networks\<close>, the last
  snapshot of each host; the last field is the host's name, joined in by the lists.
\<close>

record host_container =
  hc_host :: string
  hc_id :: string
  hc_name :: string
  hc_image :: string
  hc_state :: string
  hc_status :: string
  hc_ports :: string
  hc_created :: string
  hc_stack :: string
  hc_service :: string
  hc_mounts :: string
  hc_networks :: string
  hc_image_id :: string
  hc_host_name :: string

record host_image =
  hi_host :: string
  hi_id :: string
  hi_repository :: string
  hi_tag :: string
  hi_size :: string
  hi_digest :: string
  hi_host_name :: string

record host_volume =
  hv_host :: string
  hv_name :: string
  hv_driver :: string
  hv_labels :: "(string \<times> string) list"
  hv_host_name :: string

record host_network =
  hn_host :: string
  hn_name :: string
  hn_driver :: string
  hn_scope :: string
  hn_host_name :: string

text \<open>Accounts, sessions and the audit trail.\<close>

record user =
  u_name :: string
  u_hash :: string
  u_role :: string
  u_must_change :: bool
  u_oidc_subject :: "string option"
  u_oidc_issuer :: "string option"
  u_created :: int
  u_last_login :: "int option"

record session =
  s_token :: string
  s_user :: string
  s_created :: int
  s_expires :: int

record audit_row =
  a_id :: nat
  a_user :: string
  a_action :: string
  a_target :: string
  a_detail :: string
  a_created :: int

text \<open>Secret connections and the bindings of stacks to them; maps and lists stored as JSON are themselves.\<close>

record secret_connection =
  sc_id :: string
  sc_name :: string
  sc_type :: string
  sc_stack :: string
  sc_parent :: string
  sc_config :: "(string \<times> string) list"
  sc_created :: int

record secret_binding =
  sb_stack :: string
  sb_type :: string
  sb_connection :: string
  sb_prefixes :: "string list"

text \<open>Volume backups.\<close>

record backup_destination =
  bd_id :: string
  bd_name :: string
  bd_type :: string
  bd_config :: "(string \<times> string) list"
  bd_created :: int

record retention_policy =
  rp_keep_last :: int
  rp_keep_daily :: int
  rp_keep_weekly :: int
  rp_keep_monthly :: int

record backup_job =
  bj_id :: string
  bj_name :: string
  bj_host :: string
  bj_destination :: string
  bj_volumes :: "string list"
  bj_stacks :: "string list"
  bj_label_rules :: "string list"
  bj_excluded :: "string list"
  bj_schedule :: string
  bj_mode :: string
  bj_retention :: retention_policy
  bj_enabled :: bool
  bj_created :: int

record volume_result =
  vr_volume :: string
  vr_status :: string
  vr_snapshot :: string
  vr_files_new :: int
  vr_files_changed :: int
  vr_files_unmodified :: int
  vr_data_added :: int
  vr_total_bytes :: int
  vr_message :: string
  vr_retention :: string

record backup_run =
  br_id :: string
  br_job :: string
  br_kind :: string
  br_trigger :: string
  br_actor :: string
  br_status :: string
  br_code :: string
  br_message :: string
  br_results :: "volume_result list"
  br_restored :: string
  br_started :: int
  br_finished :: "int option"

record backup_repo =
  bp_destination :: string
  bp_host :: string
  bp_initialized :: bool
  bp_checked :: int

text \<open>Vulnerability scans.\<close>

record image_scan =
  is_scanner :: string
  is_repository :: string
  is_digest :: string
  is_platform :: string
  is_status :: string
  is_error :: string
  is_notice :: string
  is_scanned :: int
  is_db_built :: string
  is_critical :: int
  is_high :: int
  is_medium :: int
  is_low :: int
  is_unknown :: int
  is_fixable_critical :: int
  is_fixable_high :: int
  is_findings :: string

record vuln_settings =
  vs_enabled :: bool
  vs_scanner :: string
  vs_last_pass :: "int option"
  vs_last_msg :: string

section \<open>The database\<close>

record db =
  d_now :: int
  d_faults :: "string option list"
  d_rand :: "nat \<Rightarrow> string"
  d_drawn :: nat
  d_hosts :: "host list"
  d_tokens :: "etoken list"
  d_deployments :: "deployment list"
  d_stacks :: "stack list"
  d_connections :: "git_connection list"
  d_policies :: "image_policy list"
  d_digests :: "digest_row list"
  d_revisions :: "stack_revision list"
  d_revision_next :: nat
  d_containers :: "host_container list"
  d_images :: "host_image list"
  d_volumes :: "host_volume list"
  d_networks :: "host_network list"
  d_legacy_admin :: "(string \<times> string \<times> bool) option"
  d_users :: "user list"
  d_sessions :: "session list"
  d_audit :: "audit_row list"
  d_audit_next :: nat
  d_retention :: "(string \<times> int) list"
  d_secret_conns :: "secret_connection list"
  d_bindings :: "secret_binding list"
  d_destinations :: "backup_destination list"
  d_jobs :: "backup_job list"
  d_runs :: "backup_run list"
  d_repos :: "backup_repo list"
  d_scans :: "image_scan list"
  d_vuln :: "vuln_settings option"

text \<open>An empty database at time \<open>t\<close>, whose random source gives \<open>rand\<close>.\<close>

definition empty_db :: "int \<Rightarrow> (nat \<Rightarrow> string) \<Rightarrow> db" where
  "empty_db t rand =
     \<lparr>d_now = t, d_faults = [], d_rand = rand, d_drawn = 0, d_hosts = [], d_tokens = [],
      d_deployments = [], d_stacks = [], d_connections = [], d_policies = [], d_digests = [],
      d_revisions = [], d_revision_next = 1, d_containers = [], d_images = [], d_volumes = [],
      d_networks = [], d_legacy_admin = None, d_users = [], d_sessions = [], d_audit = [],
      d_audit_next = 1, d_retention = [], d_secret_conns = [], d_bindings = [],
      d_destinations = [], d_jobs = [], d_runs = [], d_repos = [], d_scans = [], d_vuln = None\<rparr>"

section \<open>Statements\<close>

text \<open>A statement: the driver reports the next failure of \<open>d_faults\<close>, or runs it.\<close>

definition stmt :: "(db \<Rightarrow> 'a result \<times> db) \<Rightarrow> (db, 'a) prog" where
  "stmt f d =
     (case d_faults d of
        [] \<Rightarrow> f d
      | Some t # fs \<Rightarrow> (err_text t, d\<lparr>d_faults := fs\<rparr>)
      | None # fs \<Rightarrow> f (d\<lparr>d_faults := fs\<rparr>))"

text \<open>\<^verbatim>\<open>SELECT\<close>; an \<^verbatim>\<open>UPDATE\<close>, \<^verbatim>\<open>INSERT\<close> or \<^verbatim>\<open>DELETE\<close> that no constraint can refuse, with its \<^verbatim>\<open>RowsAffected\<close>.\<close>

definition select :: "(db \<Rightarrow> 'a) \<Rightarrow> (db, 'a) prog" where
  "select f = stmt (\<lambda>d. (Inr (f d), d))"

definition exec :: "(db \<Rightarrow> 'a \<times> db) \<Rightarrow> (db, 'a) prog" where
  "exec f = stmt (\<lambda>d. let (n, d') = f d in (Inr n, d'))"

text \<open>A statement a constraint refuses when \<open>bad\<close> names its message.\<close>

definition exec_checked :: "(db \<Rightarrow> string option) \<Rightarrow> (db \<Rightarrow> 'a \<times> db) \<Rightarrow> (db, 'a) prog" where
  "exec_checked bad f =
     stmt (\<lambda>d. case bad d of
       Some t \<Rightarrow> (err_text t, d)
     | None \<Rightarrow> (let (n, d') = f d in (Inr n, d')))"

text \<open>\<^verbatim>\<open>UPDATE ... WHERE\<close> and \<^verbatim>\<open>DELETE ... WHERE\<close> on the rows of a table.\<close>

definition update_where :: "('r \<Rightarrow> bool) \<Rightarrow> ('r \<Rightarrow> 'r) \<Rightarrow> 'r list \<Rightarrow> 'r list" where
  "update_where P f rows = map (\<lambda>r. if P r then f r else r) rows"

lemma in_update_where: "x \<in> set (update_where P f rows) \<longleftrightarrow> (\<exists>y\<in>set rows. x = (if P y then f y else y))"
  by (auto simp: update_where_def)

lemma map_update_where:
  "(\<And>r. P r \<Longrightarrow> g (f r) = g r) \<Longrightarrow> map g (update_where P f rows) = map g rows"
  by (simp add: update_where_def)

lemma image_update_where:
  assumes "\<And>r. P r \<Longrightarrow> g (f r) = g r"
  shows "g ` set (update_where P f rows) = g ` set rows"
  using arg_cong [OF map_update_where [of P g f rows, OF assms], of set] by simp

lemma ball_update_where:
  "(\<forall>x\<in>set (update_where P f rows). Q x) \<longleftrightarrow> (\<forall>y\<in>set rows. if P y then Q (f y) else Q y)"
  by (auto simp: update_where_def)

definition delete_where :: "('r \<Rightarrow> bool) \<Rightarrow> 'r list \<Rightarrow> 'r list" where
  "delete_where P rows = filter (\<lambda>r. \<not> P r) rows"

definition count_where :: "('r \<Rightarrow> bool) \<Rightarrow> 'r list \<Rightarrow> nat" where
  "count_where P rows = length (filter P rows)"

lemma count_delete: "count_where P rows + length (delete_where P rows) = length rows"
  by (simp add: count_where_def delete_where_def sum_length_filter_compl)

text \<open>
  \<^verbatim>\<open>tx\<close>: \<^verbatim>\<open>Begin\<close>, the body, \<^verbatim>\<open>Commit\<close>, with \<^verbatim>\<open>defer tx.Rollback()\<close>.  A rollback restores the
  tables; the random source and the failures already reported are not part of them.
\<close>

definition rollback :: "db \<Rightarrow> db \<Rightarrow> db" where
  "rollback d d' = d\<lparr>d_faults := d_faults d', d_drawn := d_drawn d'\<rparr>"

definition tx :: "string \<Rightarrow> string \<Rightarrow> (db, 'a) prog \<Rightarrow> (db, 'a) prog" where
  "tx begin_pre commit_pre body d0 =
     (case stmt (\<lambda>d. (Inr (), d)) d0 of
        (Inl e, d) \<Rightarrow> (Inl (ErrWrap begin_pre e), d)
      | (Inr _, d) \<Rightarrow>
        (case body d of
           (Inl e, d') \<Rightarrow> (Inl e, rollback d d')
         | (Inr x, d') \<Rightarrow>
           (case stmt (\<lambda>d. (Inr (), d)) d' of
              (Inl e, d'') \<Rightarrow> (Inl (ErrWrap commit_pre e), rollback d d'')
            | (Inr _, d'') \<Rightarrow> (Inr x, d''))))"

text \<open>\<^verbatim>\<open>fmt.Errorf("pre: %w", err)\<close> around a statement; a value of the random source.\<close>

definition wrapP :: "string \<Rightarrow> ('s, 'a) prog \<Rightarrow> ('s, 'a) prog" where
  "wrapP pre m = tryP m (\<lambda>e. failP (ErrWrap pre e)) okP"

definition draw :: "(db, string) prog" where
  "draw d = (Inr (d_rand d (d_drawn d)), d\<lparr>d_drawn := d_drawn d + 1\<rparr>)"

section \<open>Rules\<close>

text \<open>
  An invariant of the tables does not look at the failures to come nor at the random source.
\<close>

definition table_inv :: "(db \<Rightarrow> bool) \<Rightarrow> bool" where
  "table_inv I \<longleftrightarrow> (\<forall>d fs n. I d \<longrightarrow> I (d\<lparr>d_faults := fs\<rparr>) \<and> I (d\<lparr>d_drawn := n\<rparr>))"

lemma table_invI:
  "(\<And>d fs. I d \<Longrightarrow> I (d\<lparr>d_faults := fs\<rparr>)) \<Longrightarrow> (\<And>d n. I d \<Longrightarrow> I (d\<lparr>d_drawn := n\<rparr>)) \<Longrightarrow> table_inv I"
  by (simp add: table_inv_def)

lemma table_inv_faults: "table_inv I \<Longrightarrow> I d \<Longrightarrow> I (d\<lparr>d_faults := fs\<rparr>)"
  by (simp add: table_inv_def)

lemma table_inv_drawn: "table_inv I \<Longrightarrow> I d \<Longrightarrow> I (d\<lparr>d_drawn := n\<rparr>)"
  by (simp add: table_inv_def)

lemma table_inv_rollback: "table_inv I \<Longrightarrow> I d \<Longrightarrow> I (rollback d d')"
  unfolding rollback_def by (metis table_inv_def)

lemma keeps_stmt:
  assumes "table_inv I" and "\<And>d. I d \<Longrightarrow> I (snd (f d))"
  shows "keeps I (stmt f)"
  using assms by (auto simp: keeps_def stmt_def table_inv_faults split: list.split option.split)

lemma keeps_select [keeps_intros]: "table_inv I \<Longrightarrow> keeps I (select f)"
  unfolding select_def by (rule keeps_stmt) auto

lemma keeps_exec:
  "table_inv I \<Longrightarrow> (\<And>d. I d \<Longrightarrow> I (snd (f d))) \<Longrightarrow> keeps I (exec f)"
  unfolding exec_def by (rule keeps_stmt) (auto split: prod.split, metis snd_conv)

lemma keeps_exec_checked:
  "table_inv I \<Longrightarrow> (\<And>d. I d \<Longrightarrow> bad d = None \<Longrightarrow> I (snd (f d))) \<Longrightarrow> keeps I (exec_checked bad f)"
  unfolding exec_checked_def
  by (rule keeps_stmt) (auto split: prod.split option.split, metis snd_conv)

lemma keeps_wrapP [keeps_intros]: "keeps I m \<Longrightarrow> keeps I (wrapP pre m)"
  unfolding wrapP_def by (rule keeps_tryP) auto

lemma keeps_draw [keeps_intros]: "table_inv I \<Longrightarrow> keeps I draw"
  by (simp add: keeps_def draw_def table_inv_drawn)

lemma keeps_tx [keeps_intros]:
  assumes "table_inv I" and "keeps I body"
  shows "keeps I (tx b c body)"
proof (rule keepsI)
  fix d0
  assume d0: "I d0"
  have k: "keeps I (stmt (\<lambda>d. (Inr (), d)))" by (rule keeps_stmt) (use assms in auto)
  obtain r d where d: "stmt (\<lambda>d. (Inr (), d)) d0 = (r, d)" by (metis surj_pair)
  have Id: "I d" using keepsE [OF k d0 d] .
  obtain r' d' where d': "body d = (r', d')" by (metis surj_pair)
  have Id': "I d'" using keepsE [OF assms(2) Id d'] .
  obtain r'' d'' where d'': "stmt (\<lambda>d. (Inr (), d)) d' = (r'', d'')" by (metis surj_pair)
  have "I d''" using keepsE [OF k Id' d''] .
  then show "I (snd (tx b c body d0))"
    using d d' d'' Id table_inv_rollback [OF assms(1) Id]
    by (auto simp: tx_def split: sum.split)
qed

text \<open>A transaction that fails leaves the tables as they were.\<close>

definition same_tables :: "db \<Rightarrow> db \<Rightarrow> bool" where
  "same_tables d d' \<longleftrightarrow> d' = d\<lparr>d_faults := d_faults d', d_drawn := d_drawn d'\<rparr>"

lemma same_tables_refl [simp]: "same_tables d d" by (simp add: same_tables_def)

lemma same_tables_faults [simp]: "same_tables d (d\<lparr>d_faults := fs\<rparr>)" by (simp add: same_tables_def)

lemma same_tables_drawn [simp]: "same_tables d (d\<lparr>d_drawn := n\<rparr>)" by (simp add: same_tables_def)

lemma same_tables_rollback: "same_tables d0 d \<Longrightarrow> same_tables d0 (rollback d d')"
  by (cases d0; cases d) (simp add: same_tables_def rollback_def)

lemma stmt_error_same: "stmt (\<lambda>d. (Inr (g d), h d)) d = (Inl e, d') \<Longrightarrow> same_tables d d'"
  by (auto simp: stmt_def split: list.splits option.splits)

lemma tx_error_same:
  assumes "tx b c body d0 = (Inl e, d1)"
  shows "same_tables d0 d1"
proof -
  obtain r d where d: "stmt (\<lambda>d. (Inr (), d)) d0 = (r, d)" by (metis surj_pair)
  have s: "same_tables d0 d"
    using d by (auto simp: stmt_def split: list.splits option.splits)
  show ?thesis
    using assms d s by (auto simp: tx_def same_tables_rollback split: sum.splits prod.splits)
qed

text \<open>
  What a statement does, for stepping through a program: the driver's error, with only the list of
  failures changed, or the effect on the database with one failure less to come.
\<close>

lemma stmt_cases:
  assumes "stmt f d = (r, d')"
  obtains (error) t fs where "r = err_text t" "d' = d\<lparr>d_faults := fs\<rparr>"
  | (run) fs where "(r, d') = f (d\<lparr>d_faults := fs\<rparr>)"
proof (cases "d_faults d")
  case Nil
  then have eq: "d\<lparr>d_faults := []\<rparr> = d" by (cases d) simp
  have "(r, d') = f (d\<lparr>d_faults := []\<rparr>)" unfolding eq using Nil assms by (simp add: stmt_def)
  then show ?thesis by (rule run)
next
  case (Cons x fs)
  show ?thesis
  proof (cases x)
    case None
    with Cons assms have "(r, d') = f (d\<lparr>d_faults := fs\<rparr>)" by (simp add: stmt_def)
    then show ?thesis by (rule run)
  next
    case (Some t)
    with Cons assms show ?thesis by (auto simp: stmt_def intro: error)
  qed
qed

lemma select_cases:
  assumes "select f d = (r, d')" and "\<And>fs. f (d\<lparr>d_faults := fs\<rparr>) = f d"
  obtains (error) t fs where "r = err_text t" "d' = d\<lparr>d_faults := fs\<rparr>"
  | (run) fs where "r = Inr (f d)" "d' = d\<lparr>d_faults := fs\<rparr>"
  using assms unfolding select_def by (auto elim!: stmt_cases)

lemma select_state: "select f d = (r, d') \<Longrightarrow> \<exists>fs. d' = d\<lparr>d_faults := fs\<rparr>"
  unfolding select_def by (erule stmt_cases) auto

lemma exec_cases:
  assumes "exec f d = (r, d')"
  obtains (error) t fs where "r = err_text t" "d' = d\<lparr>d_faults := fs\<rparr>"
  | (run) fs where "r = Inr (fst (f (d\<lparr>d_faults := fs\<rparr>)))" "d' = snd (f (d\<lparr>d_faults := fs\<rparr>))"
  using assms unfolding exec_def
  by (elim stmt_cases) (simp_all add: case_prod_unfold Let_def)

lemma exec_checked_cases:
  assumes "exec_checked bad f d = (r, d')"
  obtains (error) t fs where "r = err_text t" "d' = d\<lparr>d_faults := fs\<rparr>"
  | (run) fs where "bad (d\<lparr>d_faults := fs\<rparr>) = None" "r = Inr (fst (f (d\<lparr>d_faults := fs\<rparr>)))"
      "d' = snd (f (d\<lparr>d_faults := fs\<rparr>))"
  using assms unfolding exec_checked_def
  by (elim stmt_cases) (simp_all add: case_prod_unfold Let_def split: option.splits)

lemma wrapP_Inr [simp]: "wrapP pre m s = (Inr x, s') \<longleftrightarrow> m s = (Inr x, s')"
  by (auto simp: wrapP_def tryP_def split: prod.splits sum.splits)

lemma wrapP_Inl: "wrapP pre m s = (Inl e, s') \<longleftrightarrow> (\<exists>e'. e = ErrWrap pre e' \<and> m s = (Inl e', s'))"
  by (auto simp: wrapP_def tryP_def split: prod.splits sum.splits)

lemma snd_wrapP [simp]: "snd (wrapP pre m s) = snd (m s)"
  by (auto simp: wrapP_def tryP_def split: prod.splits sum.splits)

lemma bindP_cases:
  assumes "bindP m f s = (r, s')"
  obtains (error) e where "m s = (Inl e, s')" "r = Inl e"
  | (run) x s1 where "m s = (Inr x, s1)" "f x s1 = (r, s')"
  using assms by (auto simp: bindP_def tryP_def split: prod.splits sum.splits)

lemma bindP_Inr: "bindP m f s = (Inr y, s') \<longleftrightarrow> (\<exists>x s1. m s = (Inr x, s1) \<and> f x s1 = (Inr y, s'))"
  by (auto simp: bindP_def tryP_def split: prod.splits sum.splits)

text \<open>
  The update of a table whose condition is the row's own state, as a way of letting at most one
  caller through: \<open>fire k a\<close> succeeds only on a live row, and leaves none alive under \<open>k\<close>.
\<close>

definition no_live :: "(db \<Rightarrow> 'r list) \<Rightarrow> ('k \<Rightarrow> db \<Rightarrow> 'r \<Rightarrow> bool) \<Rightarrow> 'k \<Rightarrow> db \<Rightarrow> bool" where
  "no_live rows live k d \<longleftrightarrow> (\<forall>r\<in>set (rows d). \<not> live k d r)"

locale guarded_update =
  fixes rows :: "db \<Rightarrow> 'r list"
    and live :: "'k \<Rightarrow> db \<Rightarrow> 'r \<Rightarrow> bool"
    and fire :: "'k \<Rightarrow> 'a \<Rightarrow> (db, 'b) prog"
  assumes fire_live: "\<And>k a d x d'. fire k a d = (Inr x, d') \<Longrightarrow> \<not> no_live rows live k d"
    and fire_ends: "\<And>k a d x d'. fire k a d = (Inr x, d') \<Longrightarrow> no_live rows live k d'"
begin

text \<open>Once it has succeeded, it does not again, whatever runs in between and does not revive the row.\<close>

lemma fires_once:
  assumes "fire k a d = (Inr x, d1)" and "no_live rows live k d1 \<Longrightarrow> J d1"
    and "\<And>d. J d \<Longrightarrow> no_live rows live k d" and "\<And>m. m \<in> set ms \<Longrightarrow> keeps J m"
    and "fire k b (run_all ms d1) = (r, d2)"
  shows "\<exists>e. r = Inl e"
proof -
  have "J (run_all ms d1)"
    by (rule run_all_keeps) (use assms fire_ends in auto)
  with assms(3,5) fire_live [of k b "run_all ms d1" _ d2] show ?thesis by (cases r) auto
qed

lemma dead_fails:
  assumes "no_live rows live k d" and "fire k a d = (r, d')"
  shows "\<exists>e. r = Inl e"
  using assms fire_live [of k a d _ d'] by (cases r) auto

end

section \<open>Triples of statements\<close>

lemma select_triple:
  assumes "table_inv I" and "\<And>d fs. f (d\<lparr>d_faults := fs\<rparr>) = f d"
  shows "triple I (select f) (\<lambda>r d. I d \<and> (case r of Inl e \<Rightarrow> \<exists>t. e = ErrText t | Inr x \<Rightarrow> x = f d))"
proof (rule tripleI)
  fix d r d'
  assume I: "I d" and "select f d = (r, d')"
  from this(2) show "I d' \<and> (case r of Inl e \<Rightarrow> \<exists>t. e = ErrText t | Inr x \<Rightarrow> x = f d')"
    by (cases rule: select_cases) (use assms I in \<open>simp_all add: table_inv_faults\<close>)
qed

lemma exec_triple:
  assumes "table_inv I" and "\<And>d. I d \<Longrightarrow> Q (Inr (fst (f d))) (snd (f d))"
    and "\<And>d t. I d \<Longrightarrow> Q (err_text t) d"
  shows "triple I (exec f) Q"
proof (rule tripleI)
  fix d r d'
  assume I: "I d" and "exec f d = (r, d')"
  from this(2) show "Q r d'"
    by (cases rule: exec_cases) (use assms I in \<open>simp_all add: table_inv_faults\<close>)
qed

lemma exec_checked_triple:
  assumes "table_inv I" and "\<And>d. I d \<Longrightarrow> bad d = None \<Longrightarrow> Q (Inr (fst (f d))) (snd (f d))"
    and "\<And>d t. I d \<Longrightarrow> Q (err_text t) d"
  shows "triple I (exec_checked bad f) Q"
proof (rule tripleI)
  fix d r d'
  assume I: "I d" and "exec_checked bad f d = (r, d')"
  from this(2) show "Q r d'"
    by (cases rule: exec_checked_cases) (use assms I in \<open>simp_all add: table_inv_faults\<close>)
qed

lemma wrapP_triple:
  assumes "triple P m (\<lambda>r s. case r of Inl e \<Rightarrow> Q (Inl (ErrWrap pre e)) s | Inr x \<Rightarrow> Q (Inr x) s)"
  shows "triple P (wrapP pre m) Q"
  unfolding wrapP_def by (rule triple_tryP [OF assms]) (auto intro: triple_failP triple_okP)

text \<open>A query of one row: \<^verbatim>\<open>sql.ErrNoRows\<close> becomes \<^verbatim>\<open>ErrNotFound\<close>, another error is wrapped.\<close>

definition one_row :: "string \<Rightarrow> (db \<Rightarrow> 'r option) \<Rightarrow> (db, 'r) prog" where
  "one_row pre q =
     bindP (wrapP pre (select q)) (\<lambda>r. case r of None \<Rightarrow> failP ErrNotFound | Some x \<Rightarrow> okP x)"

text \<open>\<^verbatim>\<open>n == 0\<close> after an update is \<^verbatim>\<open>ErrNotFound\<close>.\<close>

definition some_row :: "string \<Rightarrow> (db, nat) prog \<Rightarrow> (db, unit) prog" where
  "some_row pre m = bindP (wrapP pre m) (\<lambda>n. if n = 0 then failP ErrNotFound else okP ())"

lemma keeps_one_row [keeps_intros]: "table_inv I \<Longrightarrow> keeps I (one_row pre q)"
  unfolding one_row_def by (intro keeps_intros)

lemma keeps_some_row [keeps_intros]: "keeps I m \<Longrightarrow> keeps I (some_row pre m)"
  unfolding some_row_def by (intro keeps_intros)

lemma one_row_triple:
  assumes "table_inv I" and "\<And>d fs. q (d\<lparr>d_faults := fs\<rparr>) = q d"
  shows "triple I (one_row pre q) (\<lambda>r d. I d \<and> (case r of Inr x \<Rightarrow> q d = Some x
     | Inl e \<Rightarrow> (e = ErrNotFound \<and> q d = None) \<or> (\<exists>t. e = ErrWrap pre (ErrText t))))"
  unfolding one_row_def
  by (rule triple_bindP [OF wrapP_triple [OF triple_weaken [OF select_triple [OF assms]],
        where Q = "\<lambda>r d. I d \<and> (case r of Inl e \<Rightarrow> \<exists>t. e = ErrWrap pre (ErrText t) | Inr x \<Rightarrow> x = q d)"]])
    (auto intro: triple_failP triple_okP split: option.splits sum.splits)

lemma some_row_triple:
  assumes "triple P m (\<lambda>r s. case r of Inl e \<Rightarrow> Q (Inl (ErrWrap pre e)) s
     | Inr n \<Rightarrow> if n = 0 then Q (Inl ErrNotFound) s else Q (Inr ()) s)"
  shows "triple P (some_row pre m) Q"
  unfolding some_row_def
proof (rule triple_bindP)
  let ?R = "\<lambda>r s. case r of Inl e \<Rightarrow> Q (Inl e) s
    | Inr n \<Rightarrow> if n = 0 then Q (Inl ErrNotFound) s else Q (Inr ()) s"
  show "triple P (wrapP pre m) ?R"
    by (rule wrapP_triple, rule triple_weaken [OF assms]) (auto split: sum.splits)
  show "triple (?R (Inr n)) (if n = 0 then failP ErrNotFound else okP ()) Q" for n
    by (auto intro: triple_failP triple_okP)
qed simp

section \<open>Statements on one table\<close>

text \<open>
  The usual statements, for a table given by its field \<open>rows\<close> and the update of that field:
  \<^verbatim>\<open>UPDATE\<close>, \<^verbatim>\<open>DELETE\<close>, \<^verbatim>\<open>INSERT\<close> and \<^verbatim>\<open>INSERT ... ON CONFLICT DO UPDATE\<close>.
\<close>

definition upd :: "(db \<Rightarrow> 'r list) \<Rightarrow> (('r list \<Rightarrow> 'r list) \<Rightarrow> db \<Rightarrow> db) \<Rightarrow> (db \<Rightarrow> 'r \<Rightarrow> bool)
    \<Rightarrow> (db \<Rightarrow> 'r \<Rightarrow> 'r) \<Rightarrow> (db, nat) prog" where
  "upd rows up P f =
     exec (\<lambda>d. (count_where (P d) (rows d), up (update_where (P d) (f d)) d))"

definition del :: "(db \<Rightarrow> 'r list) \<Rightarrow> (('r list \<Rightarrow> 'r list) \<Rightarrow> db \<Rightarrow> db) \<Rightarrow> (db \<Rightarrow> 'r \<Rightarrow> bool)
    \<Rightarrow> (db, nat) prog" where
  "del rows up P =
     exec (\<lambda>d. (count_where (P d) (rows d), up (delete_where (P d)) d))"

text \<open>\<open>uniques\<close> lists the unique columns as \<^verbatim>\<open>table.column\<close> with the rows that clash.\<close>

definition first_clash :: "(string \<times> ('r \<Rightarrow> bool)) list \<Rightarrow> 'r list \<Rightarrow> string option" where
  "first_clash uniques rows =
     map_option (\<lambda>u. ''constraint failed: UNIQUE constraint failed: '' @ fst u)
       (find (\<lambda>u. list_ex (snd u) rows) uniques)"

definition ins :: "(db \<Rightarrow> 'r list) \<Rightarrow> (('r list \<Rightarrow> 'r list) \<Rightarrow> db \<Rightarrow> db)
    \<Rightarrow> (string \<times> ('r \<Rightarrow> bool)) list \<Rightarrow> (db \<Rightarrow> 'r) \<Rightarrow> (db, unit) prog" where
  "ins rows up uniques r =
     exec_checked (\<lambda>d. first_clash uniques (rows d)) (\<lambda>d. ((), up (\<lambda>rs. rs @ [r d]) d))"

definition ups :: "(db \<Rightarrow> 'r list) \<Rightarrow> (('r list \<Rightarrow> 'r list) \<Rightarrow> db \<Rightarrow> db) \<Rightarrow> ('r \<Rightarrow> bool)
    \<Rightarrow> (db \<Rightarrow> 'r \<Rightarrow> 'r) \<Rightarrow> (db \<Rightarrow> 'r) \<Rightarrow> (db, unit) prog" where
  "ups rows up P f r =
     exec (\<lambda>d. ((), up (\<lambda>rs. if list_ex P rs then update_where P (f d) rs else rs @ [r d]) d))"

text \<open>A statement whose result is dropped, its error wrapped.\<close>

definition unitP :: "string \<Rightarrow> (db, 'a) prog \<Rightarrow> (db, unit) prog" where
  "unitP pre m = bindP (wrapP pre m) (\<lambda>_. okP ())"

lemma keeps_unitP [keeps_intros]: "keeps I m \<Longrightarrow> keeps I (unitP pre m)"
  unfolding unitP_def by (intro keeps_intros)

lemma keeps_upd:
  "table_inv I \<Longrightarrow> (\<And>d. I d \<Longrightarrow> I (up (update_where (P d) (f d)) d)) \<Longrightarrow> keeps I (upd rows up P f)"
  unfolding upd_def by (rule keeps_exec) auto

lemma keeps_del:
  "table_inv I \<Longrightarrow> (\<And>d. I d \<Longrightarrow> I (up (delete_where (P d)) d)) \<Longrightarrow> keeps I (del rows up P)"
  unfolding del_def by (rule keeps_exec) auto

lemma keeps_ins:
  "table_inv I \<Longrightarrow> (\<And>d. I d \<Longrightarrow> first_clash uniques (rows d) = None \<Longrightarrow> I (up (\<lambda>rs. rs @ [r d]) d)) \<Longrightarrow>
     keeps I (ins rows up uniques r)"
  unfolding ins_def by (rule keeps_exec_checked) auto

lemma keeps_ups:
  "table_inv I \<Longrightarrow>
     (\<And>d. I d \<Longrightarrow> I (up (\<lambda>rs. if list_ex P rs then update_where P (f d) rs else rs @ [r d]) d)) \<Longrightarrow>
     keeps I (ups rows up P f r)"
  unfolding ups_def by (rule keeps_exec) auto

lemma first_clash_None: "first_clash uniques rows = None \<longleftrightarrow> (\<forall>u\<in>set uniques. \<forall>r\<in>set rows. \<not> snd u r)"
  unfolding first_clash_def find_None_iff option.map_disc_iff list_ex_iff by blast

lemma upd_cases:
  assumes "upd rows up P f d = (r, d')"
  obtains (error) t fs where "r = err_text t" "d' = d\<lparr>d_faults := fs\<rparr>"
  | (run) fs where "r = Inr (count_where (P (d\<lparr>d_faults := fs\<rparr>)) (rows (d\<lparr>d_faults := fs\<rparr>)))"
      "d' = up (update_where (P (d\<lparr>d_faults := fs\<rparr>)) (f (d\<lparr>d_faults := fs\<rparr>))) (d\<lparr>d_faults := fs\<rparr>)"
  using assms unfolding upd_def by (elim exec_cases) auto

lemma del_cases:
  assumes "del rows up P d = (r, d')"
  obtains (error) t fs where "r = err_text t" "d' = d\<lparr>d_faults := fs\<rparr>"
  | (run) fs where "r = Inr (count_where (P (d\<lparr>d_faults := fs\<rparr>)) (rows (d\<lparr>d_faults := fs\<rparr>)))"
      "d' = up (delete_where (P (d\<lparr>d_faults := fs\<rparr>))) (d\<lparr>d_faults := fs\<rparr>)"
  using assms unfolding del_def by (elim exec_cases) auto

lemma ins_cases:
  assumes "ins rows up uniques r0 d = (r, d')"
  obtains (error) t fs where "r = err_text t" "d' = d\<lparr>d_faults := fs\<rparr>"
  | (run) fs where "r = Inr ()" "first_clash uniques (rows (d\<lparr>d_faults := fs\<rparr>)) = None"
      "d' = up (\<lambda>rs. rs @ [r0 (d\<lparr>d_faults := fs\<rparr>)]) (d\<lparr>d_faults := fs\<rparr>)"
  using assms unfolding ins_def by (elim exec_checked_cases) auto

lemma unitP_Inr: "unitP pre m d = (Inr x, d') \<longleftrightarrow> (\<exists>y. m d = (Inr y, d'))"
  by (auto simp: unitP_def bindP_Inr)

lemma snd_unitP [simp]: "snd (unitP pre m d) = snd (m d)"
  by (simp add: unitP_def snd_bindP_keep)

lemma some_row_Inr: "some_row pre m d = (Inr x, d') \<longleftrightarrow> (\<exists>n. n \<noteq> 0 \<and> m d = (Inr n, d'))"
  by (auto simp: some_row_def bindP_Inr split: if_splits)

lemma tx_Inr:
  "tx b c body d0 = (Inr x, d2) \<Longrightarrow>
     \<exists>fs d1 gs. body (d0\<lparr>d_faults := fs\<rparr>) = (Inr x, d1) \<and> d2 = d1\<lparr>d_faults := gs\<rparr>"
proof -
  have nop: "stmt (\<lambda>d. (Inr (), d)) d = (Inr u, d') \<Longrightarrow> \<exists>fs. d' = d\<lparr>d_faults := fs\<rparr>" for d d' :: db and u
    by (erule stmt_cases) auto
  assume "tx b c body d0 = (Inr x, d2)"
  then obtain u d d1 v where "stmt (\<lambda>d. (Inr (), d)) d0 = (Inr u, d)" "body d = (Inr x, d1)"
    "stmt (\<lambda>d. (Inr (), d)) d1 = (Inr v, d2)"
    by (auto simp: tx_def split: prod.splits sum.splits)
  with nop show ?thesis by metis
qed

section \<open>Without failures\<close>

text \<open>When the driver reports nothing, statements do what they say.\<close>

lemma faultless [simp]:
  "d_faults d = [] \<Longrightarrow> stmt f d = f d"
  by (simp add: stmt_def)

lemma faultless_exec:
  "d_faults d = [] \<Longrightarrow> select g d = (Inr (g d), d)"
  "d_faults d = [] \<Longrightarrow> exec f d = (Inr (fst (f d)), snd (f d))"
  "d_faults d = [] \<Longrightarrow> bad d = None \<Longrightarrow> exec_checked bad f d = (Inr (fst (f d)), snd (f d))"
  "d_faults d = [] \<Longrightarrow> upd rows up P h d = (Inr (count_where (P d) (rows d)), up (update_where (P d) (h d)) d)"
  "d_faults d = [] \<Longrightarrow> del rows up P d = (Inr (count_where (P d) (rows d)), up (delete_where (P d)) d)"
  "d_faults d = [] \<Longrightarrow> first_clash uniques (rows d) = None \<Longrightarrow>
     ins rows up uniques r d = (Inr (), up (\<lambda>rs. rs @ [r d]) d)"
  by (simp_all add: select_def exec_def exec_checked_def upd_def del_def ins_def case_prod_unfold Let_def)

lemma wrap_select: "d_faults d = [] \<Longrightarrow> wrapP pre (select f) d = (Inr (f d), d)"
  by (simp add: wrapP_def tryP_def faultless_exec)

lemma one_row_faultless:
  "d_faults d = [] \<Longrightarrow> one_row pre q d = ((case q d of None \<Rightarrow> Inl ErrNotFound | Some x \<Rightarrow> Inr x), d)"
  by (simp add: one_row_def bindP_def tryP_def wrap_select split: option.split)

lemma faultless_tx:
  "d_faults d = [] \<Longrightarrow> body d = (Inr x, d') \<Longrightarrow> d_faults d' = [] \<Longrightarrow> tx b c body d = (Inr x, d')"
  by (simp add: tx_def)

text \<open>
  An update that sets a unique column of the rows under \<open>P\<close>: it is refused when it touches a row
  that \<open>Q\<close> describes (all of them, or those of a partial index) and another row holds the value.
\<close>

definition upd_unique :: "(db \<Rightarrow> 'r list) \<Rightarrow> (('r list \<Rightarrow> 'r list) \<Rightarrow> db \<Rightarrow> db)
    \<Rightarrow> (string \<times> ('r \<Rightarrow> bool)) list \<Rightarrow> ('r \<Rightarrow> bool) \<Rightarrow> ('r \<Rightarrow> bool) \<Rightarrow> ('r \<Rightarrow> 'r) \<Rightarrow> (db, nat) prog" where
  "upd_unique rows up uniques Q P f =
     exec_checked (\<lambda>d. if list_ex Q (rows d) then first_clash uniques (filter (\<lambda>r. \<not> P r) (rows d)) else None)
       (\<lambda>d. (count_where P (rows d), up (update_where P f) d))"

lemma keeps_upd_unique:
  assumes "table_inv I"
    and "\<And>d. I d \<Longrightarrow> (list_ex Q (rows d) \<Longrightarrow> first_clash uniques (filter (\<lambda>r. \<not> P r) (rows d)) = None)
           \<Longrightarrow> I (up (update_where P f) d)"
  shows "keeps I (upd_unique rows up uniques Q P f)"
  unfolding upd_unique_def by (rule keeps_exec_checked [OF assms(1)]) (use assms(2) in \<open>auto split: if_splits\<close>)

text \<open>A query of one row that answers: the row, and nothing else changes.\<close>

lemma one_row_Inr:
  assumes "one_row pre q d = (Inr x, d')" and "\<And>fs. q (d\<lparr>d_faults := fs\<rparr>) = q d"
  shows "q d = Some x" and "\<exists>fs. d' = d\<lparr>d_faults := fs\<rparr>"
proof -
  from assms(1) have sel: "select q d = (Inr (Some x), d')"
    by (auto simp: one_row_def bindP_Inr split: option.splits)
  then show "q d = Some x" by (cases rule: select_cases) (use assms(2) in auto)
  show "\<exists>fs. d' = d\<lparr>d_faults := fs\<rparr>" by (rule select_state [OF sel])
qed

end
