(* ===== verification/Store_Hosts.thy ===== *)
theory Store_Hosts
  imports Store_Schema
begin

text \<open>
  The hosts and enrollment tokens of \<^verbatim>\<open>src/internal/store/store.go\<close> and \<^verbatim>\<open>enrollment.go\<close>: every
  operation on the tables \<^verbatim>\<open>hosts\<close> and \<^verbatim>\<open>enrollment_tokens\<close>, the invariant that a certificate
  fingerprint identifies at most one host, and who is admitted by what.
\<close>

section \<open>Lookups\<close>

definition host_slug :: "string \<Rightarrow> string" where
  "host_slug name =
     (let s = to_lower (trim_space name);
          s = replace_all '' '' ''-'' s;
          s = filter (\<lambda>c. is_lower c \<or> is_digit c \<or> c = CHR ''-'') s;
          s = rev (dropWhile (\<lambda>c. c = CHR ''-'') (rev (dropWhile (\<lambda>c. c = CHR ''-'') s)))
      in if s = '''' then ''host'' else s)"

definition has_fp :: "string \<Rightarrow> host \<Rightarrow> bool" where
  "has_fp fp h \<longleftrightarrow> h_fp h = fp \<or> (h_next_fp h \<noteq> '''' \<and> h_next_fp h = fp)"

definition get_host_by_fp :: "string \<Rightarrow> (db, host) prog" where
  "get_host_by_fp fp =
     one_row ''get host by fingerprint: '' (\<lambda>d. find (has_fp fp) (d_hosts d))"

definition find_host :: "db \<Rightarrow> string \<Rightarrow> host option" where
  "find_host d i = find (\<lambda>h. h_id h = i) (d_hosts d)"

definition get_host :: "string \<Rightarrow> (db, host) prog" where
  "get_host i = one_row (''get host '' @ quoted i @ '': '') (\<lambda>d. find_host d i)"

definition list_hosts :: "(db, host list) prog" where
  "list_hosts = wrapP ''list hosts: '' (select (\<lambda>d. rev (d_hosts d)))"

definition host_arch :: "string \<Rightarrow> (db, string) prog" where
  "host_arch i =
     one_row (''host arch '' @ quoted i @ '': '') (\<lambda>d. map_option h_arch (find_host d i))"

definition next_fingerprint :: "string \<Rightarrow> (db, string) prog" where
  "next_fingerprint i =
     one_row ''get next fingerprint: '' (\<lambda>d. map_option h_next_fp (find_host d i))"

definition count_pending_hosts :: "(db, nat) prog" where
  "count_pending_hosts =
     wrapP ''count pending hosts: ''
       (select (\<lambda>d. count_where (\<lambda>h. h_status h = ''pending'') (d_hosts d)))"

section \<open>Updates\<close>

definition update_hosts :: "(db \<Rightarrow> host \<Rightarrow> bool) \<Rightarrow> (db \<Rightarrow> host \<Rightarrow> host) \<Rightarrow> db \<Rightarrow> nat \<times> db" where
  "update_hosts P f d =
     (count_where (P d) (d_hosts d), d\<lparr>d_hosts := update_where (P d) (f d) (d_hosts d)\<rparr>)"

definition delete_hosts :: "(db \<Rightarrow> host \<Rightarrow> bool) \<Rightarrow> db \<Rightarrow> nat \<times> db" where
  "delete_hosts P d =
     (count_where (P d) (d_hosts d), d\<lparr>d_hosts := delete_where (P d) (d_hosts d)\<rparr>)"

definition touch_row :: "db \<Rightarrow> host \<Rightarrow> host" where
  "touch_row d h = h\<lparr>h_last_seen := d_now d\<rparr>"

definition insert_host :: "string \<Rightarrow> string \<Rightarrow> string \<Rightarrow> (db, unit) prog" where
  "insert_host i name fp =
     exec_checked
       (\<lambda>d. if list_ex (\<lambda>h. h_id h = i) (d_hosts d)
            then Some ''constraint failed: UNIQUE constraint failed: hosts.id (1555)''
            else if list_ex (\<lambda>h. h_fp h = fp) (d_hosts d)
            then Some ''constraint failed: UNIQUE constraint failed: hosts.cert_fingerprint (2067)''
            else None)
       (\<lambda>d. ((), d\<lparr>d_hosts := d_hosts d @
          [\<lparr>h_id = i, h_name = name, h_status = ''pending'', h_fp = fp, h_approved_by = '''',
            h_last_seen = d_now d, h_address = '''', h_agent_version = '''', h_next_fp = '''',
            h_arch = '''', h_approved_at = None, h_created = d_now d\<rparr>]\<rparr>))"

text \<open>The attempts of \<^verbatim>\<open>UpsertHostByFingerprint\<close>: the slug of the name, then with a random suffix.\<close>

fun insert_attempts :: "string \<Rightarrow> string \<Rightarrow> string \<Rightarrow> nat list \<Rightarrow> (db, host \<times> bool) prog" where
  "insert_attempts base name fp [] =
     failP (ErrText (''insert host: could not allocate a unique id for '' @ quoted name))"
| "insert_attempts base name fp (a # as) =
     bindP (if a > 0 then bindP draw (\<lambda>x. okP (base @ ''-'' @ x)) else okP base) (\<lambda>candidate.
       tryP (insert_host candidate name fp)
         (\<lambda>e. if contains_str (error_text e) ''UNIQUE constraint failed: hosts.id''
              then insert_attempts base name fp as
              else failP (ErrWrap ''insert host: '' e))
         (\<lambda>_. bindP (get_host candidate) (\<lambda>h. okP (h, True))))"

definition upsert_host :: "string \<Rightarrow> string \<Rightarrow> (db, host \<times> bool) prog" where
  "upsert_host name fp =
     tryP (get_host_by_fp fp)
       (\<lambda>e. if \<not> error_is e ErrNotFound then failP e
            else insert_attempts (host_slug name) name fp [0..<5])
       (\<lambda>existing.
          bindP (wrapP ''touch host: '' (exec (update_hosts (\<lambda>_ h. h_id h = h_id existing) touch_row)))
            (\<lambda>_. okP (existing, False)))"

definition set_host_address :: "string \<Rightarrow> string \<Rightarrow> (db, unit) prog" where
  "set_host_address i address =
     some_row (''set host address '' @ quoted i @ '': '')
       (exec (update_hosts (\<lambda>_ h. h_id h = i) (\<lambda>_ h. h\<lparr>h_address := address\<rparr>)))"

definition set_host_agent_version :: "string \<Rightarrow> string \<Rightarrow> (db, unit) prog" where
  "set_host_agent_version i version =
     bindP (wrapP (''set host agent version '' @ quoted i @ '': '')
       (exec (update_hosts (\<lambda>_ h. h_id h = i) (\<lambda>_ h. h\<lparr>h_agent_version := version\<rparr>)))) (\<lambda>_. okP ())"

definition set_host_arch :: "string \<Rightarrow> string \<Rightarrow> (db, unit) prog" where
  "set_host_arch i arch =
     bindP (wrapP (''set host arch '' @ quoted i @ '': '')
       (exec (update_hosts (\<lambda>_ h. h_id h = i) (\<lambda>_ h. h\<lparr>h_arch := arch\<rparr>)))) (\<lambda>_. okP ())"

definition set_host_name :: "string \<Rightarrow> string \<Rightarrow> (db, unit) prog" where
  "set_host_name i name =
     some_row (''set host name '' @ quoted i @ '': '')
       (exec (update_hosts (\<lambda>_ h. h_id h = i) (\<lambda>_ h. h\<lparr>h_name := name\<rparr>)))"

definition approve_host :: "string \<Rightarrow> string \<Rightarrow> (db, unit) prog" where
  "approve_host i by =
     some_row ''approve host: ''
       (exec (update_hosts (\<lambda>_ h. h_id h = i)
          (\<lambda>d h. h\<lparr>h_status := ''connected'', h_approved_by := by, h_approved_at := Some (d_now d)\<rparr>)))"

definition reject_pending_host :: "string \<Rightarrow> (db, unit) prog" where
  "reject_pending_host i =
     some_row ''reject pending host: ''
       (exec (delete_hosts (\<lambda>_ h. h_id h = i \<and> h_status h = ''pending'')))"

definition touch_host :: "string \<Rightarrow> (db, host) prog" where
  "touch_host i =
     bindP (some_row ''touch host: '' (exec (update_hosts (\<lambda>_ h. h_id h = i) touch_row)))
       (\<lambda>_. get_host i)"

text \<open>\<open>ttl\<close> is the duration in whole seconds (\<^verbatim>\<open>seconds\<close> truncates it).\<close>

definition purge_stale_pending :: "int \<Rightarrow> (db, nat) prog" where
  "purge_stale_pending ttl =
     wrapP ''purge stale pending hosts: ''
       (exec (delete_hosts (\<lambda>d h. h_status h = ''pending'' \<and> h_created h < d_now d - ttl)))"

definition set_next_fingerprint :: "string \<Rightarrow> string \<Rightarrow> (db, unit) prog" where
  "set_next_fingerprint i fp =
     bindP (wrapP ''check fingerprint: ''
         (select (\<lambda>d. find (\<lambda>h. h_id h \<noteq> i \<and> (h_fp h = fp \<or> h_next_fp h = fp)) (d_hosts d))))
       (\<lambda>other. if other \<noteq> None then failP ErrFingerprintInUse
         else some_row ''set next fingerprint: ''
           (exec (update_hosts (\<lambda>_ h. h_id h = i \<and> h_fp h \<noteq> fp) (\<lambda>_ h. h\<lparr>h_next_fp := fp\<rparr>))))"

definition promote_fingerprint :: "string \<Rightarrow> string \<Rightarrow> (db, unit) prog" where
  "promote_fingerprint i fp =
     bindP (wrapP ''promote fingerprint: ''
       (exec_checked
         (\<lambda>d. if list_ex (\<lambda>h. h_id h = i \<and> h_next_fp h = fp \<and> fp \<noteq> '''') (d_hosts d)
                \<and> list_ex (\<lambda>h. h_id h \<noteq> i \<and> h_fp h = fp) (d_hosts d)
              then Some ''constraint failed: UNIQUE constraint failed: hosts.cert_fingerprint (2067)''
              else None)
         (update_hosts (\<lambda>_ h. h_id h = i \<and> h_next_fp h = fp \<and> fp \<noteq> '''')
            (\<lambda>_ h. h\<lparr>h_fp := fp, h_next_fp := ''''\<rparr>)))) (\<lambda>_. okP ())"

section \<open>Enrollment tokens\<close>

text \<open>
  \<open>hash\<close> stands for the hex SHA-256 of \<^verbatim>\<open>hashToken\<close>; the two values drawn are the rendered random
  bytes of the token and of its id.
\<close>

definition insert_token :: "string \<Rightarrow> string \<Rightarrow> string \<Rightarrow> int \<Rightarrow> (db, unit) prog" where
  "insert_token i hashed who ttl =
     exec_checked
       (\<lambda>d. if list_ex (\<lambda>t. t_id t = i) (d_tokens d)
            then Some ''constraint failed: UNIQUE constraint failed: enrollment_tokens.id (1555)''
            else if list_ex (\<lambda>t. t_hash t = hashed) (d_tokens d)
            then Some ''constraint failed: UNIQUE constraint failed: enrollment_tokens.token_hash (2067)''
            else None)
       (\<lambda>d. ((), d\<lparr>d_tokens := d_tokens d @
          [\<lparr>t_id = i, t_hash = hashed, t_created_by = who, t_created = d_now d,
            t_expires = d_now d + ttl, t_used_at = None, t_used_by = []\<rparr>]\<rparr>))"

definition create_enrollment_token :: "(string \<Rightarrow> string) \<Rightarrow> string \<Rightarrow> int \<Rightarrow> (db, string) prog" where
  "create_enrollment_token hash who ttl =
     bindP draw (\<lambda>raw.
     let token = ''wet_'' @ raw in
     bindP draw (\<lambda>a. bindP draw (\<lambda>b.
     bindP (wrapP ''create enrollment token: '' (insert_token (a @ b) (hash token) who ttl))
       (\<lambda>_. okP token))))"

definition update_tokens :: "(db \<Rightarrow> etoken \<Rightarrow> bool) \<Rightarrow> (db \<Rightarrow> etoken \<Rightarrow> etoken) \<Rightarrow> db \<Rightarrow> nat \<times> db" where
  "update_tokens P f d =
     (count_where (P d) (d_tokens d), d\<lparr>d_tokens := update_where (P d) (f d) (d_tokens d)\<rparr>)"

definition token_live :: "(string \<Rightarrow> string) \<Rightarrow> string \<Rightarrow> db \<Rightarrow> etoken \<Rightarrow> bool" where
  "token_live hash token d t \<longleftrightarrow>
     t_hash t = hash token \<and> t_used_at t = None \<and> d_now d < t_expires t"

definition consume_enrollment_token :: "(string \<Rightarrow> string) \<Rightarrow> string \<Rightarrow> string \<Rightarrow> (db, unit) prog" where
  "consume_enrollment_token hash token host =
     bindP (wrapP ''consume enrollment token: ''
       (exec (update_tokens (token_live hash token)
          (\<lambda>d t. t\<lparr>t_used_at := Some (d_now d), t_used_by := host\<rparr>))))
       (\<lambda>n. if n = 0 then failP ErrInvalidToken else okP ())"

definition set_enrollment_token_host :: "(string \<Rightarrow> string) \<Rightarrow> string \<Rightarrow> string \<Rightarrow> (db, unit) prog" where
  "set_enrollment_token_host hash token host =
     bindP (exec (update_tokens (\<lambda>_ t. t_hash t = hash token) (\<lambda>_ t. t\<lparr>t_used_by := host\<rparr>))) (\<lambda>_. okP ())"

definition purge_enrollment_tokens :: "(db, nat) prog" where
  "purge_enrollment_tokens =
     wrapP ''purge enrollment tokens: ''
       (exec (\<lambda>d. (count_where (\<lambda>t. t_expires t < d_now d - 7 * 86400) (d_tokens d),
          d\<lparr>d_tokens := delete_where (\<lambda>t. t_expires t < d_now d - 7 * 86400) (d_tokens d)\<rparr>)))"

section \<open>Rules for the programs above\<close>

lemma find_host_faults [simp]: "find_host (d\<lparr>d_faults := fs\<rparr>) i = find_host d i"
  by (simp add: find_host_def)

lemma find_host_Some: "find_host d i = Some h \<Longrightarrow> h \<in> set (d_hosts d) \<and> h_id h = i"
  by (auto simp: find_host_def find_Some_iff)

section \<open>A fingerprint identifies one host\<close>

definition fps :: "host \<Rightarrow> string list" where
  "fps h = h_fp h # (if h_next_fp h = '''' then [] else [h_next_fp h])"

definition hosts_inv :: "db \<Rightarrow> bool" where
  "hosts_inv d \<longleftrightarrow> distinct (map h_id (d_hosts d)) \<and> distinct (concat (map fps (d_hosts d)))"

lemma has_fp_fps: "has_fp fp h \<longleftrightarrow> fp \<in> set (fps h)"
  by (auto simp: has_fp_def fps_def)

lemma table_inv_hosts [simp, intro]: "table_inv hosts_inv"
  by (rule table_invI) (simp_all add: hosts_inv_def)

lemma distinct_concat_filter:
  "distinct (concat (map f xs)) \<Longrightarrow> distinct (concat (map f (filter P xs)))"
  by (induction xs) auto

lemma hosts_inv_delete: "hosts_inv d \<Longrightarrow> hosts_inv (snd (delete_hosts P d))"
  by (simp add: hosts_inv_def delete_hosts_def delete_where_def distinct_map_filter distinct_concat_filter)

lemma hosts_inv_update:
  assumes "hosts_inv d" and "\<And>h. h_id (f d h) = h_id h" and "\<And>h. fps (f d h) = fps h"
  shows "hosts_inv (snd (update_hosts P f d))"
  using assms by (simp add: hosts_inv_def update_hosts_def map_update_where)

text \<open>An update of the row with a given id, when the ids are distinct, changes one row.\<close>

lemma update_one:
  assumes "distinct (map key rows)" and "r \<in> set rows" and "P r" and "\<And>x. P x \<Longrightarrow> key x = key r"
  obtains xs ys where "rows = xs @ r # ys" "update_where P f rows = xs @ f r # ys"
proof -
  from assms(2) obtain xs ys where s: "rows = xs @ r # ys" by (auto dest: split_list)
  have "key r \<notin> key ` (set xs \<union> set ys)" using assms(1) s by auto
  then have "\<not> P x" if "x \<in> set xs \<union> set ys" for x
    using that assms(4) by (metis imageI)
  then have "update_where P f xs = xs" "update_where P f ys = ys"
    by (auto simp: update_where_def intro!: map_idI)
  then have "update_where P f rows = xs @ f r # ys" using s assms(3) by (simp add: update_where_def)
  with s that show ?thesis by blast
qed

lemma update_none: "(\<And>r. r \<in> set rows \<Longrightarrow> \<not> P r) \<Longrightarrow> update_where P f rows = rows"
  by (auto simp: update_where_def intro!: map_idI)

text \<open>An update of one host may give it the fingerprints it had and fresh ones.\<close>

lemma hosts_inv_one:
  assumes "hosts_inv d" and "\<And>h. P h \<Longrightarrow> h_id h = i" and "\<And>h. h_id (f h) = h_id h"
    and "\<And>h. h \<in> set (d_hosts d) \<Longrightarrow> P h \<Longrightarrow> distinct (fps (f h)) \<and> set (fps (f h)) \<subseteq> set (fps h) \<union> F"
    and "\<And>h. h \<in> set (d_hosts d) \<Longrightarrow> h_id h \<noteq> i \<Longrightarrow> set (fps h) \<inter> F = {}"
  shows "hosts_inv (snd (update_hosts (\<lambda>_. P) (\<lambda>_. f) d))"
proof (cases "\<exists>h\<in>set (d_hosts d). P h")
  case False
  then show ?thesis using assms(1) by (simp add: update_hosts_def update_none)
next
  case True
  then obtain h where h: "h \<in> set (d_hosts d)" "P h" by blast
  have ids: "distinct (map h_id (d_hosts d))" using assms(1) by (simp add: hosts_inv_def)
  have same: "h_id x = h_id h" if "P x" for x using that assms(2) h(2) by metis
  obtain xs ys where s: "d_hosts d = xs @ h # ys" "update_where P f (d_hosts d) = xs @ f h # ys"
    using update_one [where key = h_id and P = P and f = f, OF ids h same] by metis
  have "h_id h \<notin> h_id ` (set xs \<union> set ys)" using ids s by auto
  then have "h_id x \<noteq> i" if "x \<in> set xs \<union> set ys" for x
    using that assms(2) [OF h(2)] by (metis imageI)
  then have "set (fps x) \<inter> F = {}" if "x \<in> set xs \<union> set ys" for x
    using that assms(5) s by auto
  then have F: "(\<Union>x\<in>set xs \<union> set ys. set (fps x)) \<inter> F = {}" by blast
  have old: "distinct (concat (map fps (xs @ h # ys)))" using assms(1) s by (simp add: hosts_inv_def)
  then have "set (fps h) \<inter> (\<Union>x\<in>set xs \<union> set ys. set (fps x)) = {}" by auto
  then have dis: "set (fps (f h)) \<inter> (\<Union>x\<in>set xs \<union> set ys. set (fps x)) = {}"
    using F assms(4) [OF h] by blast
  then have "distinct (concat (map fps (xs @ f h # ys)))"
    using old assms(4) [OF h] by (simp add: Int_Un_distrib Int_commute)
  moreover have "map h_id (xs @ f h # ys) = map h_id (d_hosts d)" using s assms(3) by simp
  ultimately show ?thesis using s(2) ids by (simp add: hosts_inv_def update_hosts_def del: map_append)
qed

lemma hosts_inv_set_next:
  assumes "hosts_inv d" and "find (\<lambda>h. h_id h \<noteq> i \<and> (h_fp h = fp \<or> h_next_fp h = fp)) (d_hosts d) = None"
  shows "hosts_inv (snd (update_hosts (\<lambda>_ h. h_id h = i \<and> h_fp h \<noteq> fp) (\<lambda>_ h. h\<lparr>h_next_fp := fp\<rparr>) d))"
  by (rule hosts_inv_one [where F = "{fp}" and i = i])
    (use assms in \<open>auto simp: fps_def find_None_iff\<close>)

lemma hosts_inv_promote:
  assumes "hosts_inv d"
  shows "hosts_inv (snd (update_hosts (\<lambda>_ h. h_id h = i \<and> h_next_fp h = fp \<and> fp \<noteq> '''')
    (\<lambda>_ h. h\<lparr>h_fp := fp, h_next_fp := ''''\<rparr>) d))"
  by (rule hosts_inv_one [where F = "{}" and i = i]) (use assms in \<open>auto simp: fps_def\<close>)

section \<open>Every operation keeps the invariant\<close>

definition free_fp :: "string \<Rightarrow> db \<Rightarrow> bool" where
  "free_fp fp d \<longleftrightarrow> hosts_inv d \<and> (\<forall>h\<in>set (d_hosts d). fp \<notin> set (fps h))"

lemma table_inv_free_fp: "table_inv (free_fp fp)"
  by (rule table_invI) (simp_all add: free_fp_def hosts_inv_def)

lemma insert_host_triple:
  "triple (free_fp fp) (insert_host i name fp)
     (\<lambda>r d. case r of Inl _ \<Rightarrow> free_fp fp d | Inr _ \<Rightarrow> hosts_inv d)"
  unfolding insert_host_def
  by (rule exec_checked_triple [OF table_inv_free_fp])
    (auto simp: free_fp_def hosts_inv_def fps_def list_ex_iff split: if_splits)

lemma insert_attempts_triple:
  "triple (free_fp fp) (insert_attempts base name fp as) (\<lambda>_. hosts_inv)"
proof (induction as)
  case Nil
  show ?case by (auto intro: triple_failP simp: free_fp_def)
next
  case (Cons a as)
  have get: "triple hosts_inv (bindP (get_host c) (\<lambda>h. okP (h, True))) (\<lambda>_. hosts_inv)" for c
    unfolding triple_keeps [symmetric] get_host_def by (intro keeps_intros table_inv_hosts)
  have cand: "triple (free_fp fp) (if a > 0 then bindP draw (\<lambda>x. okP (base @ ''-'' @ x)) else okP base)
      (\<lambda>_. free_fp fp)"
    unfolding triple_keeps [symmetric] by (intro keeps_intros table_inv_free_fp)
  have retry: "triple (free_fp fp) (if contains_str (error_text e) ''UNIQUE constraint failed: hosts.id''
      then insert_attempts base name fp as else failP (ErrWrap ''insert host: '' e)) (\<lambda>_. hosts_inv)" for e
    by (rule triple_if [OF Cons.IH triple_failP]) (simp add: free_fp_def)
  show ?case
    unfolding insert_attempts.simps
  proof (rule triple_bindP [OF cand])
    show "\<And>e s. free_fp fp s \<Longrightarrow> hosts_inv s" by (simp add: free_fp_def)
    show "triple (free_fp fp) (tryP (insert_host x name fp)
        (\<lambda>e. if contains_str (error_text e) ''UNIQUE constraint failed: hosts.id''
              then insert_attempts base name fp as else failP (ErrWrap ''insert host: '' e))
        (\<lambda>_. bindP (get_host x) (\<lambda>h. okP (h, True)))) (\<lambda>_. hosts_inv)" for x
      by (rule triple_tryP [OF insert_host_triple]) (use retry get in simp_all)
  qed
qed

lemma get_host_by_fp_triple:
  "triple hosts_inv (get_host_by_fp fp)
     (\<lambda>r d. case r of Inl e \<Rightarrow> hosts_inv d \<and> (error_is e ErrNotFound \<longrightarrow> free_fp fp d)
            | Inr h \<Rightarrow> hosts_inv d)"
  unfolding get_host_by_fp_def
  by (rule triple_weaken [OF one_row_triple [OF table_inv_hosts]])
    (auto simp: free_fp_def find_None_iff has_fp_fps split: sum.splits)

lemma keeps_hosts_update:
  assumes "\<And>d h. h_id (f d h) = h_id h" and "\<And>d h. fps (f d h) = fps h"
  shows "keeps hosts_inv (exec (update_hosts P f))"
  by (rule keeps_exec) (simp_all add: hosts_inv_update assms)

lemma keeps_hosts_delete: "keeps hosts_inv (exec (delete_hosts P))"
  by (rule keeps_exec) (simp_all add: hosts_inv_delete)

lemma keeps_upsert_host: "keeps hosts_inv (upsert_host name fp)"
  unfolding triple_keeps upsert_host_def
proof (rule triple_tryP [OF get_host_by_fp_triple])
  show "triple (\<lambda>d. case Inl e of Inl e \<Rightarrow> hosts_inv d \<and> (error_is e ErrNotFound \<longrightarrow> free_fp fp d)
            | Inr h \<Rightarrow> hosts_inv d)
     (if \<not> error_is e ErrNotFound then failP e else insert_attempts (host_slug name) name fp [0..<5])
     (\<lambda>_. hosts_inv)" for e
    by (rule triple_if) (auto intro: triple_failP triple_weaken [OF insert_attempts_triple])
next
  have "keeps hosts_inv (bindP (wrapP ''touch host: ''
      (exec (update_hosts (\<lambda>_ h. h_id h = h_id x) touch_row))) (\<lambda>_. okP (x, False)))" for x
    by (intro keeps_intros keeps_hosts_update) (simp_all add: touch_row_def fps_def)
  then show "triple (\<lambda>d. case Inr x of Inl e \<Rightarrow> hosts_inv d \<and> (error_is e ErrNotFound \<longrightarrow> free_fp fp d)
            | Inr h \<Rightarrow> hosts_inv d)
     (bindP (wrapP ''touch host: '' (exec (update_hosts (\<lambda>_ h. h_id h = h_id x) touch_row)))
        (\<lambda>_. okP (x, False))) (\<lambda>_. hosts_inv)" for x
    by (simp add: triple_keeps)
qed

lemma keeps_set_next: "keeps hosts_inv (set_next_fingerprint i fp)"
proof -
  let ?q = "\<lambda>d. find (\<lambda>h. h_id h \<noteq> i \<and> (h_fp h = fp \<or> h_next_fp h = fp)) (d_hosts d)"
  have sel: "triple hosts_inv (wrapP pre (select ?q))
      (\<lambda>r d. hosts_inv d \<and> (case r of Inl _ \<Rightarrow> True | Inr other \<Rightarrow> other = ?q d))" for pre
    by (rule wrapP_triple) (rule triple_weaken [OF select_triple], auto split: sum.splits)
  have "table_inv (\<lambda>d. hosts_inv d \<and> ?q d = None)"
    by (rule table_invI) (simp_all add: hosts_inv_def)
  then have upd: "triple (\<lambda>d. hosts_inv d \<and> ?q d = None)
     (some_row pre (exec (update_hosts (\<lambda>_ h. h_id h = i \<and> h_fp h \<noteq> fp) (\<lambda>_ h. h\<lparr>h_next_fp := fp\<rparr>))))
     (\<lambda>_. hosts_inv)" for pre
    by (intro some_row_triple exec_triple) (auto intro: hosts_inv_set_next)
  show ?thesis
    unfolding triple_keeps set_next_fingerprint_def
    by (rule triple_bindP [OF sel]) (auto intro!: triple_if triple_failP triple_weaken [OF upd])
qed

section \<open>The hosts as a state machine\<close>

text \<open>
  Everything the server does to the table \<^verbatim>\<open>hosts\<close>, and time passing between two of its operations.
\<close>

datatype host_op =
    OpUpsert string string
  | OpAddress string string
  | OpVersion string string
  | OpArch string string
  | OpName string string
  | OpApprove string string
  | OpReject string
  | OpTouch string
  | OpPurge int
  | OpSetNext string string
  | OpPromote string string
  | OpTick nat

fun run_host_op :: "host_op \<Rightarrow> db \<Rightarrow> db" where
  "run_host_op (OpUpsert name fp) d = snd (upsert_host name fp d)"
| "run_host_op (OpAddress i a) d = snd (set_host_address i a d)"
| "run_host_op (OpVersion i v) d = snd (set_host_agent_version i v d)"
| "run_host_op (OpArch i a) d = snd (set_host_arch i a d)"
| "run_host_op (OpName i n) d = snd (set_host_name i n d)"
| "run_host_op (OpApprove i by) d = snd (approve_host i by d)"
| "run_host_op (OpReject i) d = snd (reject_pending_host i d)"
| "run_host_op (OpTouch i) d = snd (touch_host i d)"
| "run_host_op (OpPurge ttl) d = snd (purge_stale_pending ttl d)"
| "run_host_op (OpSetNext i fp) d = snd (set_next_fingerprint i fp d)"
| "run_host_op (OpPromote i fp) d = snd (promote_fingerprint i fp d)"
| "run_host_op (OpTick n) d = d\<lparr>d_now := d_now d + int n\<rparr>"

fun run_host_ops :: "host_op list \<Rightarrow> db \<Rightarrow> db" where
  "run_host_ops [] d = d"
| "run_host_ops (a # ops) d = run_host_ops ops (run_host_op a d)"

lemma keeps_promote: "keeps hosts_inv (promote_fingerprint i fp)"
  unfolding promote_fingerprint_def
  by (intro keeps_intros keeps_exec_checked) (simp_all add: hosts_inv_promote)

lemma run_host_op_inv: "hosts_inv d \<Longrightarrow> hosts_inv (run_host_op a d)"
proof (induction a d rule: run_host_op.induct)
  case (1 name fp d)
  then show ?case using keepsD [OF keeps_upsert_host] by simp
next
  case (2 i a d)
  have "keeps hosts_inv (set_host_address i a)"
    unfolding set_host_address_def by (intro keeps_intros keeps_hosts_update) (simp_all add: fps_def)
  with 2 show ?case by (simp add: keepsD)
next
  case (3 i v d)
  have "keeps hosts_inv (set_host_agent_version i v)"
    unfolding set_host_agent_version_def by (intro keeps_intros keeps_hosts_update) (simp_all add: fps_def)
  with 3 show ?case by (simp add: keepsD)
next
  case (4 i a d)
  have "keeps hosts_inv (set_host_arch i a)"
    unfolding set_host_arch_def by (intro keeps_intros keeps_hosts_update) (simp_all add: fps_def)
  with 4 show ?case by (simp add: keepsD)
next
  case (5 i n d)
  have "keeps hosts_inv (set_host_name i n)"
    unfolding set_host_name_def by (intro keeps_intros keeps_hosts_update) (simp_all add: fps_def)
  with 5 show ?case by (simp add: keepsD)
next
  case (6 i b d)
  have "keeps hosts_inv (approve_host i b)"
    unfolding approve_host_def by (intro keeps_intros keeps_hosts_update) (simp_all add: fps_def)
  with 6 show ?case by (simp add: keepsD)
next
  case (7 i d)
  have "keeps hosts_inv (reject_pending_host i)"
    unfolding reject_pending_host_def by (intro keeps_intros keeps_hosts_delete)
  with 7 show ?case by (simp add: keepsD)
next
  case (8 i d)
  have "keeps hosts_inv (touch_host i)"
    unfolding touch_host_def get_host_def
    by (intro keeps_intros keeps_hosts_update) (simp_all add: fps_def touch_row_def)
  with 8 show ?case by (simp add: keepsD)
next
  case (9 ttl d)
  have "keeps hosts_inv (purge_stale_pending ttl)"
    unfolding purge_stale_pending_def by (intro keeps_intros keeps_hosts_delete)
  with 9 show ?case by (simp add: keepsD)
next
  case (10 i fp d)
  then show ?case using keepsD [OF keeps_set_next] by simp
next
  case (11 i fp d)
  then show ?case using keepsD [OF keeps_promote] by simp
next
  case (12 n d)
  then show ?case by (simp add: hosts_inv_def)
qed

lemma run_host_ops_inv: "hosts_inv d \<Longrightarrow> hosts_inv (run_host_ops ops d)"
  by (induction ops arbitrary: d) (simp_all add: run_host_op_inv)

lemma hosts_inv_one_host:
  "hosts_inv d \<Longrightarrow> length (filter (has_fp fp) (d_hosts d)) \<le> 1"
proof -
  assume "hosts_inv d"
  then have "distinct (concat (map fps (d_hosts d)))" by (simp add: hosts_inv_def)
  then show ?thesis
  proof (induction "d_hosts d" arbitrary: d)
    case Nil
    then show ?case by (simp add: Nil.hyps [symmetric])
  next
    case (Cons h hs)
    have IH: "length (filter (has_fp fp) hs) \<le> 1"
      using Cons.hyps(1) [of "d\<lparr>d_hosts := hs\<rparr>"] Cons.prems Cons.hyps(2) [symmetric] by simp
    have "filter (has_fp fp) hs = []" if "has_fp fp h"
      using that Cons.prems Cons.hyps(2) [symmetric] by (auto simp: has_fp_fps filter_empty_conv)
    with IH show ?case by (simp add: Cons.hyps(2) [symmetric])
  qed
qed

text \<open>
  C6 fingerprint_identifies_host.  Whatever the server does to its hosts, with any failures of the
  database, a certificate fingerprint (the pinned one or the one of a rotation) is accepted for at
  most one host: the lookup of the agent channel is unambiguous.
\<close>

theorem fingerprint_identifies_host:
  "length (filter (has_fp fp) (d_hosts (run_host_ops ops ((empty_db t rand)\<lparr>d_faults := fs\<rparr>)))) \<le> 1"
  by (rule hosts_inv_one_host [OF run_host_ops_inv]) (simp add: hosts_inv_def empty_db_def)

section \<open>Admission\<close>

text \<open>The fingerprints that get an agent past the check of its certificate: those of connected hosts.\<close>

definition authorized :: "db \<Rightarrow> string set" where
  "authorized d = (\<Union>h\<in>{h \<in> set (d_hosts d). h_status h = ''connected''}. set (fps h))"

text \<open>What an operation may admit: an approval the host's own, a rotation the new one.\<close>

fun admits :: "host_op \<Rightarrow> db \<Rightarrow> string set" where
  "admits (OpApprove i by) d = (\<Union>h\<in>{h \<in> set (d_hosts d). h_id h = i}. set (fps h))"
| "admits (OpSetNext i fp) d =
     (if \<exists>h\<in>set (d_hosts d). h_id h = i \<and> h_status h = ''connected'' then {fp} else {})"
| "admits _ d = {}"

lemma table_inv_authorized: "table_inv (\<lambda>d. authorized d \<subseteq> A)"
  by (rule table_invI) (simp_all add: authorized_def)

lemma authorized_faults [simp]: "authorized (d\<lparr>d_faults := fs\<rparr>) = authorized d"
  by (simp add: authorized_def)

lemma authorized_update:
  assumes "\<And>h. P d h \<Longrightarrow> h_status (f d h) = ''connected'' \<Longrightarrow>
    h \<in> set (d_hosts d) \<Longrightarrow> set (fps (f d h)) \<subseteq> authorized d \<union> B"
  shows "authorized (snd (update_hosts P f d)) \<subseteq> authorized d \<union> B"
proof
  fix x
  assume "x \<in> authorized (snd (update_hosts P f d))"
  then obtain h where "h \<in> set (d_hosts d)"
    "h_status (if P d h then f d h else h) = ''connected''" "x \<in> set (fps (if P d h then f d h else h))"
    by (auto simp: authorized_def update_hosts_def update_where_def)
  then show "x \<in> authorized d \<union> B"
    using assms [of h] by (auto simp: authorized_def split: if_splits)
qed

lemma authorized_of: "h \<in> set (d_hosts d) \<Longrightarrow> h_status h = ''connected'' \<Longrightarrow> set (fps h) \<subseteq> authorized d"
  by (auto simp: authorized_def)

lemma keeps_authorized_update:
  assumes "\<And>d h. h_status (f d h) = h_status h" and "\<And>d h. fps (f d h) = fps h"
  shows "keeps (\<lambda>d. authorized d \<subseteq> A) (exec (update_hosts P f))"
proof (rule keeps_exec [OF table_inv_authorized])
  fix d
  assume "authorized d \<subseteq> A"
  moreover have "authorized (snd (update_hosts P f d)) \<subseteq> authorized d \<union> {}"
    by (rule authorized_update) (use assms authorized_of in auto)
  ultimately show "authorized (snd (update_hosts P f d)) \<subseteq> A" by blast
qed

lemma keeps_authorized_delete: "keeps (\<lambda>d. authorized d \<subseteq> A) (exec (delete_hosts P))"
  by (rule keeps_exec [OF table_inv_authorized])
    (auto simp: authorized_def delete_hosts_def delete_where_def)

lemma keeps_authorized_insert: "keeps (\<lambda>d. authorized d \<subseteq> A) (insert_host i name fp)"
  unfolding insert_host_def
  by (rule keeps_exec_checked [OF table_inv_authorized]) (auto simp: authorized_def)

lemma keeps_authorized_attempts: "keeps (\<lambda>d. authorized d \<subseteq> A) (insert_attempts base name fp as)"
  by (induction as) (auto intro!: keeps_intros keeps_authorized_insert table_inv_authorized simp: get_host_def)

lemma keeps_authorized_upsert: "keeps (\<lambda>d. authorized d \<subseteq> A) (upsert_host name fp)"
  unfolding upsert_host_def get_host_by_fp_def
  by (intro keeps_intros keeps_authorized_attempts keeps_authorized_update table_inv_authorized)
    (simp_all add: touch_row_def fps_def)

lemma snd_some_row [simp]: "snd (some_row pre m d) = snd (m d)"
  by (simp add: some_row_def bindP_def tryP_def wrapP_def split: prod.split sum.split)

lemma authorized_exec_update:
  assumes "\<And>d h. P d h \<Longrightarrow> h_status (f d h) = ''connected'' \<Longrightarrow> h \<in> set (d_hosts d) \<Longrightarrow>
    set (fps (f d h)) \<subseteq> authorized d \<union> B d" and "\<And>d fs. B (d\<lparr>d_faults := fs\<rparr>) = B d"
  shows "authorized (snd (exec (update_hosts P f) d)) \<subseteq> authorized d \<union> B d"
proof -
  obtain r d' where e: "exec (update_hosts P f) d = (r, d')" by (metis surj_pair)
  then have "authorized d' \<subseteq> authorized d \<union> B d"
  proof (cases rule: exec_cases)
    case (run fs)
    have "authorized (snd (update_hosts P f (d\<lparr>d_faults := fs\<rparr>))) \<subseteq>
        authorized (d\<lparr>d_faults := fs\<rparr>) \<union> B (d\<lparr>d_faults := fs\<rparr>)"
      by (rule authorized_update) (rule assms(1))
    with run assms(2) show ?thesis by simp
  qed simp
  with e show ?thesis by simp
qed

lemma authorized_approve: "authorized (snd (approve_host i who d)) \<subseteq> authorized d \<union> admits (OpApprove i who) d"
  unfolding approve_host_def snd_some_row
  by (rule authorized_exec_update [where B = "admits (OpApprove i who)"]) (auto simp: fps_def)

lemma authorized_set_next:
  "authorized (snd (set_next_fingerprint i fp d)) \<subseteq> authorized d \<union> admits (OpSetNext i fp) d"
proof -
  let ?q = "\<lambda>d. find (\<lambda>h. h_id h \<noteq> i \<and> (h_fp h = fp \<or> h_next_fp h = fp)) (d_hosts d)"
  let ?u = "exec (update_hosts (\<lambda>_ h. h_id h = i \<and> h_fp h \<noteq> fp) (\<lambda>_ h. h\<lparr>h_next_fp := fp\<rparr>))"
  have upd: "authorized (snd (?u d1)) \<subseteq> authorized d1 \<union> admits (OpSetNext i fp) d1" for d1
  proof (rule authorized_exec_update)
    fix d2 :: db and h :: host
    assume h: "h_id h = i \<and> h_fp h \<noteq> fp" "h_status (h\<lparr>h_next_fp := fp\<rparr>) = ''connected''" "h \<in> set (d_hosts d2)"
    then have "set (fps h) \<subseteq> authorized d2" by (simp add: authorized_of)
    moreover have "set (fps (h\<lparr>h_next_fp := fp\<rparr>)) \<subseteq> insert fp (set (fps h))" by (auto simp: fps_def)
    moreover have "\<exists>x\<in>set (d_hosts d2). h_id x = i \<and> h_status x = ''connected''"
      using h by fastforce
    then have "fp \<in> admits (OpSetNext i fp) d2" by simp
    ultimately show "set (fps (h\<lparr>h_next_fp := fp\<rparr>)) \<subseteq> authorized d2 \<union> admits (OpSetNext i fp) d2"
      by blast
  qed simp
  obtain r d1 where s: "select ?q d = (r, d1)" by (cases "select ?q d")
  then obtain fs where d1: "d1 = d\<lparr>d_faults := fs\<rparr>" using select_state by blast
  have eq: "authorized d1 = authorized d" "admits (OpSetNext i fp) d1 = admits (OpSetNext i fp) d"
    using d1 by simp_all
  have "snd (set_next_fingerprint i fp d) = d1 \<or> snd (set_next_fingerprint i fp d) = snd (?u d1)"
    using s by (cases r) (simp_all add: set_next_fingerprint_def bindP_def tryP_def wrapP_def)
  then show ?thesis
  proof
    assume "snd (set_next_fingerprint i fp d) = d1"
    then show ?thesis using eq by simp
  next
    assume "snd (set_next_fingerprint i fp d) = snd (?u d1)"
    then show ?thesis using upd [of d1] unfolding eq by (simp only:)
  qed
qed

lemma keeps_authorized_promote: "keeps (\<lambda>d. authorized d \<subseteq> A) (promote_fingerprint i fp)"
proof -
  have "authorized (snd (update_hosts (\<lambda>_ h. h_id h = i \<and> h_next_fp h = fp \<and> fp \<noteq> '''')
      (\<lambda>_ h. h\<lparr>h_fp := fp, h_next_fp := ''''\<rparr>) d)) \<subseteq> authorized d \<union> {}" for d
    by (rule authorized_update) (use authorized_of in \<open>fastforce simp: fps_def\<close>)
  then have upd: "authorized d \<subseteq> A \<Longrightarrow> authorized (snd (update_hosts (\<lambda>_ h. h_id h = i \<and> h_next_fp h = fp \<and> fp \<noteq> '''')
      (\<lambda>_ h. h\<lparr>h_fp := fp, h_next_fp := ''''\<rparr>) d)) \<subseteq> A" for d by blast
  show ?thesis
    unfolding promote_fingerprint_def
    by (intro keeps_intros keeps_exec_checked table_inv_authorized upd) assumption
qed

lemma authorized_step: "authorized (run_host_op a d) \<subseteq> authorized d \<union> admits a d"
proof -

  have kept: "keeps (\<lambda>x. authorized x \<subseteq> authorized d) m \<Longrightarrow> authorized (snd (m d)) \<subseteq> authorized d" for m :: "(db, nat) prog"
    using keepsD by fastforce
  have upd: "authorized (snd (exec (update_hosts P f) d)) \<subseteq> authorized d"
    if "\<And>d h. h_status (f d h) = h_status h" "\<And>d h. fps (f d h) = fps h" for P f
    by (rule kept, rule keeps_authorized_update) (use that in auto)
  have del: "authorized (snd (exec (delete_hosts P) d)) \<subseteq> authorized d" for P
    by (rule kept) (rule keeps_authorized_delete)
  show ?thesis
  proof (cases a)
    case (OpUpsert name fp)
    have "keeps (\<lambda>x. authorized x \<subseteq> authorized d) (upsert_host name fp)" by (rule keeps_authorized_upsert)
    then show ?thesis unfolding OpUpsert using keepsD by fastforce
  next
    case (OpAddress i x)
    then show ?thesis by (simp add: set_host_address_def upd fps_def)
  next
    case (OpVersion i v)
    have "keeps (\<lambda>x. authorized x \<subseteq> authorized d) (set_host_agent_version i v)"
      unfolding set_host_agent_version_def by (intro keeps_intros keeps_authorized_update) (simp_all add: fps_def)
    then show ?thesis unfolding OpVersion using keepsD by fastforce
  next
    case (OpArch i x)
    have "keeps (\<lambda>x. authorized x \<subseteq> authorized d) (set_host_arch i y)" for y
      unfolding set_host_arch_def by (intro keeps_intros keeps_authorized_update) (simp_all add: fps_def)
    then show ?thesis unfolding OpArch using keepsD by fastforce
  next
    case (OpName i n)
    then show ?thesis by (simp add: set_host_name_def upd fps_def)
  next
    case (OpApprove i who)
    then show ?thesis using authorized_approve [of i who d] by simp
  next
    case (OpReject i)
    then show ?thesis by (simp add: reject_pending_host_def del)
  next
    case (OpTouch i)
    have "keeps (\<lambda>x. authorized x \<subseteq> authorized d) (touch_host i)"
      unfolding touch_host_def get_host_def
      by (intro keeps_intros keeps_authorized_update table_inv_authorized) (simp_all add: fps_def touch_row_def)
    then show ?thesis unfolding OpTouch using keepsD by fastforce
  next
    case (OpPurge ttl)
    then show ?thesis by (simp add: purge_stale_pending_def del)
  next
    case (OpSetNext i fp)
    then show ?thesis using authorized_set_next [of i fp d] by simp
  next
    case (OpPromote i fp)
    have "keeps (\<lambda>x. authorized x \<subseteq> authorized d) (promote_fingerprint i fp)" by (rule keeps_authorized_promote)
    then show ?thesis unfolding OpPromote using keepsD by fastforce
  next
    case (OpTick n)
    then show ?thesis by (simp add: authorized_def)
  qed
qed

lemma authorized_steps:
  "authorized (run_host_ops ops d) \<subseteq>
     authorized d \<union> (\<Union>k<length ops. admits (ops ! k) (run_host_ops (take k ops) d))"
proof (induction ops arbitrary: d)
  case (Cons a ops)
  let ?A = "\<lambda>k. admits ((a # ops) ! k) (run_host_ops (take k (a # ops)) d)"
  have "authorized (run_host_ops (a # ops) d) \<subseteq> authorized (run_host_op a d)
      \<union> (\<Union>k<length ops. admits (ops ! k) (run_host_ops (take k ops) (run_host_op a d)))"
    using Cons.IH by simp
  also have "\<dots> \<subseteq> (authorized d \<union> ?A 0) \<union> (\<Union>k<length ops. ?A (Suc k))"
    using authorized_step [of a d] by auto
  also have "\<dots> \<subseteq> authorized d \<union> (\<Union>k<length (a # ops). ?A k)" by auto
  finally show ?case .
qed simp

text \<open>
  C7 admission.  An agent's certificate becomes accepted only by an administrator's approval of the
  host that holds it, or by a rotation of a host already connected: no sequence of enrollments,
  heartbeats, renames, rejections or purges admits one.
\<close>

theorem admission:
  assumes "fp \<in> authorized (run_host_ops ops d)" and "fp \<notin> authorized d"
  shows "\<exists>k<length ops. fp \<in> admits (ops ! k) (run_host_ops (take k ops) d)"
  using assms authorized_steps [of ops d] by blast

definition admission_ops :: "host_op list" where
  "admission_ops = [OpUpsert ''nas'' ''f1'', OpTouch ''nas'', OpApprove ''nas'' ''root'']"

theorem admission_witness:
  "\<exists>k<length admission_ops. ''f1'' \<in>
     admits (admission_ops ! k) (run_host_ops (take k admission_ops) (empty_db 0 (\<lambda>_. ''00'')))"
proof (rule admission)
  have "list_ex (\<lambda>h. h_status h = ''connected'' \<and> ''f1'' \<in> set (fps h))
      (d_hosts (run_host_ops admission_ops (empty_db 0 (\<lambda>_. ''00''))))" by code_simp
  then show "''f1'' \<in> authorized (run_host_ops admission_ops (empty_db 0 (\<lambda>_. ''00'')))"
    by (auto simp: authorized_def list_ex_iff)
  show "''f1'' \<notin> authorized (empty_db 0 (\<lambda>_. ''00''))" by (simp add: authorized_def empty_db_def)
qed

section \<open>Rotation of a certificate\<close>

lemma same_fp_same_host:
  assumes "hosts_inv d" and "h \<in> set (d_hosts d)" and "h' \<in> set (d_hosts d)"
    and "fp \<in> set (fps h)" and "fp \<in> set (fps h')"
  shows "h = h'"
proof -
  have len: "length (filter (has_fp fp) (d_hosts d)) \<le> 1" using hosts_inv_one_host [OF assms(1)] .
  have "h \<in> set (filter (has_fp fp) (d_hosts d))" "h' \<in> set (filter (has_fp fp) (d_hosts d))"
    using assms by (simp_all add: has_fp_fps)
  with len show ?thesis by (cases "filter (has_fp fp) (d_hosts d)") auto
qed

lemma find_update_where:
  "(\<And>h. h_id (f h) = h_id h) \<Longrightarrow>
     find (\<lambda>h. h_id h = i) (update_where P f rows) =
     map_option (\<lambda>h. if P h then f h else h) (find (\<lambda>h. h_id h = i) rows)"
  by (induction rows) (auto simp: update_where_def)

lemma set_next_done:
  assumes "set_next_fingerprint i fp d = (Inr (), d1)"
  shows "d_hosts d1 = update_where (\<lambda>h. h_id h = i \<and> h_fp h \<noteq> fp) (\<lambda>h. h\<lparr>h_next_fp := fp\<rparr>) (d_hosts d)"
    and "\<exists>h\<in>set (d_hosts d). h_id h = i \<and> h_fp h \<noteq> fp"
    and "\<forall>h\<in>set (d_hosts d). h_id h \<noteq> i \<longrightarrow> fp \<notin> set (fps h)"
proof -
  let ?q = "\<lambda>d. find (\<lambda>h. h_id h \<noteq> i \<and> (h_fp h = fp \<or> h_next_fp h = fp)) (d_hosts d)"
  let ?u = "update_hosts (\<lambda>_ h. h_id h = i \<and> h_fp h \<noteq> fp) (\<lambda>_ h. h\<lparr>h_next_fp := fp\<rparr>)"
  from assms obtain d0 where s: "select ?q d = (Inr None, d0)"
    and u: "some_row ''set next fingerprint: '' (exec ?u) d0 = (Inr (), d1)"
    by (auto simp: set_next_fingerprint_def bindP_Inr split: if_splits)
  from select_state [OF s] obtain fs where d0: "d0 = d\<lparr>d_faults := fs\<rparr>" ..
  have "?q d = None"
    using s unfolding select_def by (rule stmt_cases) auto
  then show "\<forall>h\<in>set (d_hosts d). h_id h \<noteq> i \<longrightarrow> fp \<notin> set (fps h)"
    by (auto simp: find_None_iff fps_def)
  from u obtain n where n: "exec ?u d0 = (Inr n, d1)" "n \<noteq> 0"
    by (auto simp: some_row_def bindP_Inr split: if_splits)
  from n(1) obtain fs' where e: "n = fst (?u (d0\<lparr>d_faults := fs'\<rparr>))" "d1 = snd (?u (d0\<lparr>d_faults := fs'\<rparr>))"
    by (rule exec_cases) auto
  show "d_hosts d1 = update_where (\<lambda>h. h_id h = i \<and> h_fp h \<noteq> fp) (\<lambda>h. h\<lparr>h_next_fp := fp\<rparr>) (d_hosts d)"
    using e(2) d0 by (simp add: update_hosts_def)
  show "\<exists>h\<in>set (d_hosts d). h_id h = i \<and> h_fp h \<noteq> fp"
    using e(1) n(2) d0 by (auto simp: update_hosts_def count_where_def filter_empty_conv)
qed

lemma promote_done:
  assumes "promote_fingerprint i fp d = (Inr (), d1)"
  shows "d_hosts d1 = update_where (\<lambda>h. h_id h = i \<and> h_next_fp h = fp \<and> fp \<noteq> '''')
    (\<lambda>h. h\<lparr>h_fp := fp, h_next_fp := ''''\<rparr>) (d_hosts d)"
proof -
  from assms obtain n bad where "exec_checked bad (update_hosts (\<lambda>_ h. h_id h = i \<and> h_next_fp h = fp \<and> fp \<noteq> '''')
      (\<lambda>_ h. h\<lparr>h_fp := fp, h_next_fp := ''''\<rparr>)) d = (Inr n, d1)"
    by (auto simp: promote_fingerprint_def bindP_Inr)
  then show ?thesis by (rule exec_checked_cases) (auto simp: update_hosts_def)
qed

text \<open>
  A rotation never locks an agent out and closes the old certificate: once it is
  asked for, the host is accepted under the old fingerprint and the new one; once it is promoted,
  under the new one only, and the old one belongs to nobody.
\<close>

theorem rotation:
  assumes "hosts_inv d" and "find_host d i = Some h" and "fp \<noteq> ''''"
    and "set_next_fingerprint i fp d = (Inr (), d1)" and "promote_fingerprint i fp d1 = (Inr (), d2)"
  shows "map_option fps (find_host d1 i) = Some [h_fp h, fp]
    \<and> map_option fps (find_host d2 i) = Some [fp]
    \<and> find (has_fp (h_fp h)) (d_hosts d2) = None"
proof -
  note d1 = set_next_done [OF assms(4)]
  note d2 = promote_done [OF assms(5)]
  have h: "h \<in> set (d_hosts d)" "h_id h = i" using find_host_Some [OF assms(2)] by auto
  have ids: "distinct (map h_id (d_hosts d))" using assms(1) by (simp add: hosts_inv_def)
  have only: "x = h" if "x \<in> set (d_hosts d)" "h_id x = i" for x
    using that h ids by (metis distinct_map inj_onD)
  from d1(2) only have ne: "h_fp h \<noteq> fp" by blast
  have f1: "find_host d1 i = Some (h\<lparr>h_next_fp := fp\<rparr>)"
    using assms(2) ne h by (simp add: find_host_def d1(1) find_update_where)
  then have f2: "find_host d2 i = Some (h\<lparr>h_fp := fp, h_next_fp := ''''\<rparr>)"
    using assms(3) h by (simp add: find_host_def d2 find_update_where)
  have old: "h_fp h \<notin> set (fps x)" if x: "x \<in> set (d_hosts d2)" for x
  proof -
    from x obtain z where z: "z \<in> set (d_hosts d1)"
      "x = (if h_id z = i \<and> h_next_fp z = fp \<and> fp \<noteq> [] then z\<lparr>h_fp := fp, h_next_fp := []\<rparr> else z)"
      unfolding d2 in_update_where by (rule bexE)
    from z(1) obtain y where y: "y \<in> set (d_hosts d)"
      "z = (if h_id y = i \<and> h_fp y \<noteq> fp then y\<lparr>h_next_fp := fp\<rparr> else y)"
      unfolding d1(1) in_update_where by (rule bexE)
    show ?thesis
    proof (cases "h_id y = i")
      case True
      with y(1) only have "y = h" by blast
      with y(2) z(2) h(2) ne assms(3) show ?thesis by (simp add: fps_def)
    next
      case False
      then have "x = y" "y \<noteq> h" using y z h by auto
      then show ?thesis using same_fp_same_host [OF assms(1) h(1) y(1), of "h_fp h"] by (auto simp: fps_def)
    qed
  qed
  then show ?thesis using f1 f2 assms(3) by (auto simp: fps_def find_None_iff has_fp_fps)
qed

definition one_host_db :: db where
  "one_host_db = run_host_ops admission_ops (empty_db 0 (\<lambda>_. ''00''))"

theorem rotation_witness:
  "\<exists>d1 d2. set_next_fingerprint ''nas'' ''f2'' one_host_db = (Inr (), d1)
    \<and> promote_fingerprint ''nas'' ''f2'' d1 = (Inr (), d2)
    \<and> map_option fps (find_host d2 ''nas'') = Some [''f2''] \<and> find (has_fp ''f1'') (d_hosts d2) = None"
proof -
  have inv: "hosts_inv one_host_db"
    unfolding one_host_db_def by (rule run_host_ops_inv) (simp add: hosts_inv_def empty_db_def)
  have "map_option h_fp (find_host one_host_db ''nas'') = Some ''f1''" by code_simp
  then obtain h where h: "find_host one_host_db ''nas'' = Some h" "h_fp h = ''f1''" by auto
  have "is_ok (fst (set_next_fingerprint ''nas'' ''f2'' one_host_db))" by code_simp
  then obtain d1 where d1: "set_next_fingerprint ''nas'' ''f2'' one_host_db = (Inr (), d1)"
    by (metis is_ok_unit prod.collapse)
  have "is_ok (fst (promote_fingerprint ''nas'' ''f2'' (snd (set_next_fingerprint ''nas'' ''f2'' one_host_db))))"
    by code_simp
  then obtain d2 where d2: "promote_fingerprint ''nas'' ''f2'' d1 = (Inr (), d2)"
    using d1 by (metis is_ok_unit prod.collapse snd_conv)
  show ?thesis using rotation [OF inv h(1) _ d1 d2] d1 d2 h(2) by auto
qed

section \<open>An enrollment token is used once\<close>

lemma exec_tokens_done:
  assumes "exec (update_tokens P f) d = (Inr n, d')" and "\<And>d fs. P (d\<lparr>d_faults := fs\<rparr>) = P d"
    and "\<And>d fs. f (d\<lparr>d_faults := fs\<rparr>) = f d"
  shows "n = count_where (P d) (d_tokens d) \<and> d_tokens d' = update_where (P d) (f d) (d_tokens d)
    \<and> d_now d' = d_now d \<and> d_drawn d' = d_drawn d \<and> d_rand d' = d_rand d"
  using assms(1) by (rule exec_cases) (auto simp: update_tokens_def assms)

lemma consume_done:
  assumes "consume_enrollment_token hash token host d = (Inr x, d')"
  shows "count_where (token_live hash token d) (d_tokens d) \<noteq> 0
    \<and> d_tokens d' = update_where (token_live hash token d)
        (\<lambda>t. t\<lparr>t_used_at := Some (d_now d), t_used_by := host\<rparr>) (d_tokens d)
    \<and> d_now d' = d_now d \<and> d_drawn d' = d_drawn d \<and> d_rand d' = d_rand d"
proof -
  from assms obtain n where "exec (update_tokens (token_live hash token)
      (\<lambda>d t. t\<lparr>t_used_at := Some (d_now d), t_used_by := host\<rparr>)) d = (Inr n, d')" "n \<noteq> 0"
    by (auto simp: consume_enrollment_token_def bindP_Inr split: if_splits)
  note e = this
  have "n \<noteq> 0" "n = count_where (token_live hash token d) (d_tokens d) \<and> d_tokens d' =
      update_where (token_live hash token d) (\<lambda>t. t\<lparr>t_used_at := Some (d_now d), t_used_by := host\<rparr>) (d_tokens d)
    \<and> d_now d' = d_now d \<and> d_drawn d' = d_drawn d \<and> d_rand d' = d_rand d"
    using exec_tokens_done [OF e(1)] e(2) by (simp_all add: token_live_def [abs_def])
  then show ?thesis by simp
qed

interpretation et: guarded_update d_tokens "token_live hash" "consume_enrollment_token hash" for hash
proof unfold_locales
  fix k a d x d'
  assume c: "consume_enrollment_token hash k a d = (Inr x, d')"
  show "\<not> no_live d_tokens (token_live hash) k d"
    using consume_done [OF c] by (auto simp: no_live_def count_where_def filter_empty_conv)
  show "no_live d_tokens (token_live hash) k d'"
    using consume_done [OF c] by (auto simp: no_live_def ball_update_where token_live_def split: if_splits)
qed

text \<open>What happens to the tokens between two enrollments.\<close>

datatype token_op =
    TokConsume string string
  | TokSetHost string string
  | TokPurge
  | TokCreate string int
  | TokDraw
  | TokTick nat

fun token_prog :: "(string \<Rightarrow> string) \<Rightarrow> token_op \<Rightarrow> (db, unit) prog" where
  "token_prog hash (TokConsume t h) = consume_enrollment_token hash t h"
| "token_prog hash (TokSetHost t h) = set_enrollment_token_host hash t h"
| "token_prog hash TokPurge = ignoreP purge_enrollment_tokens"
| "token_prog hash (TokCreate who ttl) = ignoreP (create_enrollment_token hash who ttl)"
| "token_prog hash TokDraw = ignoreP draw"
| "token_prog hash (TokTick n) = modP (\<lambda>d. d\<lparr>d_now := d_now d + int n\<rparr>)"

text \<open>
  The token is spent, and no value the random source is still going to give makes a token with the
  same hash (what a source of 32 random bytes and SHA-256 are used for).
\<close>

definition fresh_source :: "(string \<Rightarrow> string) \<Rightarrow> string \<Rightarrow> db \<Rightarrow> bool" where
  "fresh_source hash token d \<longleftrightarrow> (\<forall>n \<ge> d_drawn d. hash (''wet_'' @ d_rand d n) \<noteq> hash token)"

definition token_spent :: "(string \<Rightarrow> string) \<Rightarrow> string \<Rightarrow> db \<Rightarrow> bool" where
  "token_spent hash token d \<longleftrightarrow>
     no_live d_tokens (token_live hash) token d \<and> fresh_source hash token d"

lemma token_spent_faults: "token_spent hash token (d\<lparr>d_faults := fs\<rparr>) = token_spent hash token d"
  by (simp add: token_spent_def no_live_def token_live_def fresh_source_def)

lemma token_spent_drawn:
  "token_spent hash token d \<Longrightarrow> d_drawn d \<le> n \<Longrightarrow> token_spent hash token (d\<lparr>d_drawn := n\<rparr>)"
  by (simp add: token_spent_def no_live_def token_live_def fresh_source_def)

lemma snd_ignoreP [simp]: "snd (ignoreP m s) = snd (m s)"
  by (simp add: ignoreP_def tryP_def split: prod.split sum.split)

lemma spent_exec:
  assumes "token_spent hash token d" and "\<And>d. token_spent hash token d \<Longrightarrow> token_spent hash token (snd (f d))"
  shows "token_spent hash token (snd (exec f d))"
proof -
  obtain r d' where e: "exec f d = (r, d')" by (cases "exec f d")
  then have "token_spent hash token d'"
    by (rule exec_cases) (use assms token_spent_faults in auto)
  with e show ?thesis by simp
qed

lemma spent_insert:
  assumes "token_spent hash token d" and "hashed \<noteq> hash token"
  shows "token_spent hash token (snd (insert_token i hashed who ttl d))"
proof -
  obtain r d' where e: "insert_token i hashed who ttl d = (r, d')" by (cases "insert_token i hashed who ttl d")
  then have "token_spent hash token d'"
    unfolding insert_token_def
    by (rule exec_checked_cases)
      (use assms in \<open>auto simp: token_spent_def no_live_def token_live_def fresh_source_def\<close>)
  with e show ?thesis by simp
qed

lemma spent_create:
  assumes "token_spent hash token d"
  shows "token_spent hash token (snd (create_enrollment_token hash who ttl d))"
proof -
  let ?r = "\<lambda>n. d_rand d (d_drawn d + n)"
  have "snd (create_enrollment_token hash who ttl d) =
      snd (insert_token (?r 1 @ ?r 2) (hash (''wet_'' @ ?r 0)) who ttl (d\<lparr>d_drawn := d_drawn d + 3\<rparr>))"
    by (simp add: create_enrollment_token_def bindP_def tryP_def wrapP_def draw_def Let_def numeral_3_eq_3
        split: prod.split sum.split)
  moreover have "hash (''wet_'' @ ?r 0) \<noteq> hash token"
    using assms by (simp add: token_spent_def fresh_source_def)
  ultimately show ?thesis using spent_insert token_spent_drawn [OF assms] by simp
qed

lemma token_prog_spent: "keeps (token_spent hash token) (token_prog hash a)"
proof (rule keepsI)
  fix d
  assume spent: "token_spent hash token d"
  show "token_spent hash token (snd (token_prog hash a d))"
  proof (cases a)
    case (TokConsume t h)
    have "token_spent hash token (snd (exec (update_tokens (token_live hash t)
        (\<lambda>d t. t\<lparr>t_used_at := Some (d_now d), t_used_by := h\<rparr>)) d))"
      by (rule spent_exec [OF spent])
        (auto simp: token_spent_def no_live_def token_live_def fresh_source_def update_tokens_def ball_update_where
          split: if_splits)
    then show ?thesis unfolding TokConsume
      by (simp add: consume_enrollment_token_def snd_bindP_keep)
  next
    case (TokSetHost t h)
    have "token_spent hash token (snd (exec (update_tokens (\<lambda>_ x. t_hash x = hash t)
        (\<lambda>_ x. x\<lparr>t_used_by := h\<rparr>)) d))"
      by (rule spent_exec [OF spent])
        (auto simp: token_spent_def no_live_def token_live_def fresh_source_def update_tokens_def ball_update_where
          split: if_splits)
    then show ?thesis unfolding TokSetHost
      by (simp add: set_enrollment_token_host_def snd_bindP_keep)
  next
    case TokPurge
    then show ?thesis
      by (simp add: purge_enrollment_tokens_def, intro spent_exec [OF spent])
        (auto simp: token_spent_def no_live_def token_live_def fresh_source_def delete_where_def)
  next
    case (TokCreate who ttl)
    then show ?thesis using spent_create [OF spent] by simp
  next
    case TokDraw
    then show ?thesis using token_spent_drawn [OF spent] by (simp add: draw_def)
  next
    case (TokTick n)
    then show ?thesis using spent
      by (auto simp: token_spent_def no_live_def token_live_def fresh_source_def)
  qed
qed

text \<open>
  C8 enrollment_token_once.  An enrollment token lets one host in, once: after a successful use every
  later use of it is refused, whatever happens to the tokens and the clock in between.
\<close>

theorem enrollment_token_once:
  assumes "consume_enrollment_token hash token h1 d = (Inr (), d1)" and "fresh_source hash token d1"
    and "consume_enrollment_token hash token h2 (run_all (map (token_prog hash) ops) d1) = (r, d2)"
  shows "\<exists>e. r = Inl e"
  by (rule et.fires_once [where J = "token_spent hash token" and ms = "map (token_prog hash) ops",
        OF assms(1) _ _ _ assms(3)])
    (use assms(2) token_prog_spent in \<open>auto simp: token_spent_def\<close>)

text \<open>A random source that never repeats: its \<open>n\<close>-th value is \<open>n\<close> in decimal, padded differently.\<close>

definition unary_source :: "nat \<Rightarrow> string" where
  "unary_source n = replicate n CHR ''a''"

definition token_db :: db where
  "token_db = snd (create_enrollment_token id ''root'' 3600 (empty_db 0 unary_source))"

theorem enrollment_token_once_witness:
  "fst (consume_enrollment_token id ''wet_'' ''nas'' token_db) = Inr ()
    \<and> (\<exists>e. fst (consume_enrollment_token id ''wet_'' ''evil''
         (run_all (map (token_prog id) [TokPurge, TokCreate ''root'' 60, TokTick 5])
           (snd (consume_enrollment_token id ''wet_'' ''nas'' token_db)))) = Inl e)"
proof -
  have ok: "is_ok (fst (consume_enrollment_token id ''wet_'' ''nas'' token_db))" by code_simp
  then obtain d1 where d1: "consume_enrollment_token id ''wet_'' ''nas'' token_db = (Inr (), d1)"
    by (metis is_ok_unit prod.collapse)
  have "d_drawn token_db = 3" by code_simp
  moreover have "d_rand token_db = unary_source"
    by (simp add: token_db_def create_enrollment_token_def bindP_def tryP_def wrapP_def draw_def Let_def
        insert_token_def exec_checked_def stmt_def empty_db_def)
  ultimately have "fresh_source id ''wet_'' d1"
    using consume_done [OF d1] by (auto simp: fresh_source_def unary_source_def)
  from enrollment_token_once [OF d1 this] d1 show ?thesis by (metis fst_conv prod.collapse snd_conv)
qed

text \<open>
  The purge of stale enrollments deletes the pending hosts older than its limit,
  and nothing else; when the database fails it deletes nothing.
\<close>

theorem purge_exact:
  "case purge_stale_pending ttl d of
     (Inr n, d') \<Rightarrow>
       d_hosts d' = filter (\<lambda>h. \<not> (h_status h = ''pending'' \<and> h_created h < d_now d - ttl)) (d_hosts d)
       \<and> n + length (d_hosts d') = length (d_hosts d)
   | (Inl _, d') \<Rightarrow> d_hosts d' = d_hosts d"
proof (cases "purge_stale_pending ttl d")
  case (Pair r d')
  show ?thesis
  proof (cases r)
    case (Inl e)
    then obtain e' where "exec (delete_hosts (\<lambda>d h. h_status h = ''pending'' \<and> h_created h < d_now d - ttl)) d
        = (Inl e', d')" using Pair by (auto simp: purge_stale_pending_def wrapP_Inl)
    then have "d_hosts d' = d_hosts d" by (rule exec_cases) auto
    with Pair Inl show ?thesis by simp
  next
    case (Inr n)
    then have "exec (delete_hosts (\<lambda>d h. h_status h = ''pending'' \<and> h_created h < d_now d - ttl)) d
        = (Inr n, d')" using Pair by (simp add: purge_stale_pending_def)
    then have "d_hosts d' = delete_where (\<lambda>h. h_status h = ''pending'' \<and> h_created h < d_now d - ttl) (d_hosts d)
      \<and> n = count_where (\<lambda>h. h_status h = ''pending'' \<and> h_created h < d_now d - ttl) (d_hosts d)"
      by (elim exec_cases) (auto simp: delete_hosts_def)
    then show ?thesis
      using Pair Inr count_delete [of "\<lambda>h. h_status h = ''pending'' \<and> h_created h < d_now d - ttl" "d_hosts d"]
      by (simp add: delete_where_def)
  qed
qed

end
