(* ===== verification/Store_Stacks.thy ===== *)
theory Store_Stacks
  imports Store_Schema
begin

text \<open>
  The stacks of \<^verbatim>\<open>src/internal/store/store.go\<close> and what belongs to them: deployments and their
  queue, Git connections, image policies and the digest cache, compose revisions, and the snapshots
  of the hosts (containers, images, volumes, networks).  The queue of a host is first in, first out,
  and a queued deployment is claimed at most once.
\<close>

section \<open>Stacks\<close>

definition create_stack :: "stack \<Rightarrow> (db, unit) prog" where
  "create_stack st =
     unitP ''insert stack: ''
       (ins d_stacks d_stacks_update [(''stacks.id'', \<lambda>s. st_id s = st_id st)]
          (\<lambda>_. st\<lparr>st_last_sha := '''', st_last_polled := None, st_subst_keys := ''''\<rparr>))"

text \<open>The columns \<^verbatim>\<open>ListStacks\<close> does not select are empty in what it returns.\<close>

definition list_stacks :: "(db, stack list) prog" where
  "list_stacks =
     wrapP ''list stacks: '' (select (\<lambda>d. map (\<lambda>s. s\<lparr>st_compose := '''', st_secret := '''',
       st_ssh_pubkey := '''', st_connection := '''', st_webhook_secret := '''', st_last_polled := None,
       st_subst_keys := ''''\<rparr>) (rev (d_stacks d))))"

definition find_stack :: "db \<Rightarrow> string \<Rightarrow> stack option" where
  "find_stack d i = find (\<lambda>s. st_id s = i) (d_stacks d)"

text \<open>A missing stack is an error like any other here: \<^verbatim>\<open>GetStack\<close> does not return \<^verbatim>\<open>ErrNotFound\<close>.\<close>

definition get_stack :: "string \<Rightarrow> (db, stack) prog" where
  "get_stack i =
     wrapP (''get stack '' @ quoted i @ '': '')
       (bindP (select (\<lambda>d. find_stack d i)) (\<lambda>r. case r of
          None \<Rightarrow> failP (ErrText ''sql: no rows in result set'') | Some s \<Rightarrow> okP s))"

definition update_stack :: "string \<Rightarrow> (db \<Rightarrow> stack \<Rightarrow> stack) \<Rightarrow> (db, nat) prog" where
  "update_stack i f = upd d_stacks d_stacks_update (\<lambda>_ s. st_id s = i) f"

definition record_poll :: "string \<Rightarrow> string \<Rightarrow> (db, unit) prog" where
  "record_poll i sha =
     unitP (''record poll for stack '' @ quoted i @ '': '')
       (update_stack i (\<lambda>d s. s\<lparr>st_last_sha := sha, st_last_polled := Some (d_now d)\<rparr>))"

definition set_substituted_env_keys :: "string \<Rightarrow> string list \<Rightarrow> (db, unit) prog" where
  "set_substituted_env_keys i ks =
     unitP (''set substituted env keys for stack '' @ quoted i @ '': '')
       (update_stack i (\<lambda>_ s. s\<lparr>st_subst_keys := join_with '','' ks\<rparr>))"

definition set_poll_schedule :: "string \<Rightarrow> string \<Rightarrow> (db, unit) prog" where
  "set_poll_schedule i schedule =
     unitP (''set poll schedule for stack '' @ quoted i @ '': '')
       (update_stack i (\<lambda>_ s. s\<lparr>st_schedule := schedule\<rparr>))"

definition update_stack_trigger :: "string \<Rightarrow> string \<Rightarrow> string \<Rightarrow> string \<Rightarrow> (db, unit) prog" where
  "update_stack_trigger i trigger schedule secret =
     unitP (''update trigger for stack '' @ quoted i @ '': '')
       (update_stack i (\<lambda>_ s. s\<lparr>st_trigger := trigger, st_schedule := schedule, st_webhook_secret := secret\<rparr>))"

definition rename_stack :: "string \<Rightarrow> string \<Rightarrow> (db, unit) prog" where
  "rename_stack i name =
     unitP (''rename stack '' @ quoted i @ '': '') (update_stack i (\<lambda>_ s. s\<lparr>st_name := name\<rparr>))"

definition update_stack_compose :: "string \<Rightarrow> string \<Rightarrow> (db, unit) prog" where
  "update_stack_compose i compose =
     some_row (''update compose content for '' @ quoted i @ '': '')
       (update_stack i (\<lambda>_ s. s\<lparr>st_compose := compose\<rparr>))"

definition update_stack_secret :: "string \<Rightarrow> string \<Rightarrow> (db, unit) prog" where
  "update_stack_secret i ciphertext =
     some_row (''update secret for '' @ quoted i @ '': '')
       (update_stack i (\<lambda>_ s. s\<lparr>st_secret := ciphertext\<rparr>))"

definition delete_stack :: "string \<Rightarrow> (db, unit) prog" where
  "delete_stack i =
     (let pre = ''delete stack '' @ quoted i in
      tx (pre @ '': '') '''' (
        bindP (unitP (pre @ '': deployments: '') (del d_deployments d_deployments_update (\<lambda>_ x. dp_stack x = i))) (\<lambda>_.
        bindP (unitP (pre @ '': image policies: '') (del d_policies d_policies_update (\<lambda>_ x. ip_stack x = i))) (\<lambda>_.
        bindP (unitP (pre @ '': secret bindings: '') (del d_bindings d_bindings_update (\<lambda>_ x. sb_stack x = i))) (\<lambda>_.
        bindP (unitP (pre @ '': secret connections: '')
          (del d_secret_conns d_secret_conns_update (\<lambda>_ x. sc_stack x = i))) (\<lambda>_.
        some_row (pre @ '': '') (del d_stacks d_stacks_update (\<lambda>_ x. st_id x = i))))))))"

section \<open>Deployments\<close>

definition find_deployment :: "db \<Rightarrow> string \<Rightarrow> deployment option" where
  "find_deployment d i = find (\<lambda>x. dp_id x = i) (d_deployments d)"

definition get_deployment :: "string \<Rightarrow> (db, deployment) prog" where
  "get_deployment i = one_row (''get deployment '' @ quoted i @ '': '') (\<lambda>d. find_deployment d i)"

definition enqueue_deployment :: "string \<Rightarrow> string \<Rightarrow> string \<Rightarrow> string \<Rightarrow> (db, deployment) prog" where
  "enqueue_deployment stack host trigger action =
     bindP draw (\<lambda>i.
     bindP (unitP ''enqueue deployment: ''
       (ins d_deployments d_deployments_update [(''deployments.id'', \<lambda>x. dp_id x = i)]
          (\<lambda>d. \<lparr>dp_id = i, dp_stack = stack, dp_host = host, dp_action = action, dp_trigger = trigger,
             dp_status = ''queued'', dp_output = '''', dp_started = None, dp_finished = None,
             dp_created = d_now d\<rparr>))) (\<lambda>_.
     get_deployment i))"

text \<open>The two statements of \<^verbatim>\<open>ClaimNextDeployment\<close>: the oldest queued row, and its guarded update.\<close>

definition is_queued :: "string \<Rightarrow> deployment \<Rightarrow> bool" where
  "is_queued host x \<longleftrightarrow> dp_host x = host \<and> dp_status x = ''queued''"

definition claim_select :: "string \<Rightarrow> (db, string option) prog" where
  "claim_select host =
     wrapP ''find queued deployment: ''
       (select (\<lambda>d. map_option dp_id (find (is_queued host) (d_deployments d))))"

definition claim_update :: "string \<Rightarrow> (db, nat) prog" where
  "claim_update i =
     wrapP ''claim deployment: ''
       (upd d_deployments d_deployments_update (\<lambda>_ x. dp_id x = i \<and> dp_status x = ''queued'')
          (\<lambda>d x. x\<lparr>dp_status := ''running'', dp_started := Some (d_now d)\<rparr>))"

definition claim_next_deployment :: "string \<Rightarrow> (db, deployment option) prog" where
  "claim_next_deployment host =
     bindP (claim_select host) (\<lambda>found. case found of
       None \<Rightarrow> okP None
     | Some i \<Rightarrow>
       bindP (claim_update i) (\<lambda>n.
         if n = 0 then okP None
         else bindP (get_deployment i) (\<lambda>x. okP (Some x))))"

definition complete_deployment :: "string \<Rightarrow> string \<Rightarrow> string \<Rightarrow> (db, unit) prog" where
  "complete_deployment i status output =
     some_row ''complete deployment: ''
       (upd d_deployments d_deployments_update (\<lambda>_ x. dp_id x = i)
          (\<lambda>d x. x\<lparr>dp_status := status, dp_output := output, dp_finished := Some (d_now d)\<rparr>))"

definition latest_deployment_for_stack :: "string \<Rightarrow> (db, deployment option) prog" where
  "latest_deployment_for_stack stack =
     bindP (wrapP (''latest deployment for stack '' @ quoted stack @ '': '')
       (select (\<lambda>d. map_option dp_id (find (\<lambda>x. dp_stack x = stack) (rev (d_deployments d)))))) (\<lambda>found.
       case found of None \<Rightarrow> okP None
       | Some i \<Rightarrow> bindP (get_deployment i) (\<lambda>x. okP (Some x)))"

record recent_deployment =
  rd_stack :: string
  rd_stack_name :: string
  rd_host_name :: string
  rd_action :: string
  rd_trigger :: string
  rd_status :: string
  rd_created :: int

definition recent_row :: "db \<Rightarrow> deployment \<Rightarrow> recent_deployment option" where
  "recent_row d x =
     map_option (\<lambda>s. \<lparr>rd_stack = dp_stack x, rd_stack_name = st_name s,
         rd_host_name = (case find (\<lambda>h. h_id h = dp_host x) (d_hosts d) of
            None \<Rightarrow> dp_host x | Some h \<Rightarrow> h_name h),
         rd_action = dp_action x, rd_trigger = dp_trigger x, rd_status = dp_status x,
         rd_created = dp_created x\<rparr>) (find_stack d (dp_stack x))"

definition list_recent_deployments :: "nat \<Rightarrow> (db, recent_deployment list) prog" where
  "list_recent_deployments limit =
     wrapP ''list recent deployments: ''
       (select (\<lambda>d. take limit (List.map_filter (recent_row d) (rev (d_deployments d)))))"

definition count_deployments_24h :: "(db, nat) prog" where
  "count_deployments_24h =
     wrapP ''count deployments in last 24h: ''
       (select (\<lambda>d. count_where (\<lambda>x. d_now d - 86400 \<le> dp_created x) (d_deployments d)))"

section \<open>Git connections\<close>

definition create_git_connection :: "string \<Rightarrow> string \<Rightarrow> string \<Rightarrow> (db, unit) prog" where
  "create_git_connection i name auth =
     unitP ''insert git connection: ''
       (ins d_connections d_connections_update [(''git_connections.id'', \<lambda>c. gc_id c = i)]
          (\<lambda>_. \<lparr>gc_id = i, gc_name = name, gc_auth = auth\<rparr>))"

definition get_git_connection :: "string \<Rightarrow> (db, git_connection) prog" where
  "get_git_connection i =
     one_row (''get git connection '' @ quoted i @ '': '') (\<lambda>d. find (\<lambda>c. gc_id c = i) (d_connections d))"

definition rename_git_connection :: "string \<Rightarrow> string \<Rightarrow> (db, unit) prog" where
  "rename_git_connection i name =
     unitP (''rename git connection '' @ quoted i @ '': '')
       (upd d_connections d_connections_update (\<lambda>_ c. gc_id c = i) (\<lambda>_ c. c\<lparr>gc_name := name\<rparr>))"

definition git_connection_in_use :: "string \<Rightarrow> (db, bool) prog" where
  "git_connection_in_use i =
     bindP (wrapP (''check git connection usage '' @ quoted i @ '': '')
       (select (\<lambda>d. count_where (\<lambda>s. st_connection s = i \<and> st_connection s \<noteq> '''') (d_stacks d))))
       (\<lambda>n. okP (n > 0))"

definition delete_git_connection :: "string \<Rightarrow> (db, unit) prog" where
  "delete_git_connection i =
     unitP (''delete git connection '' @ quoted i @ '': '')
       (del d_connections d_connections_update (\<lambda>_ c. gc_id c = i))"

definition list_git_connections :: "(db, git_connection list) prog" where
  "list_git_connections = wrapP ''list git connections: '' (select (\<lambda>d. rev (d_connections d)))"

section \<open>Image policies and the digest cache\<close>

definition policy_key :: "string \<Rightarrow> string \<Rightarrow> image_policy \<Rightarrow> bool" where
  "policy_key stack service p \<longleftrightarrow> ip_stack p = stack \<and> ip_service p = service"

definition upsert_image_policy :: "string \<Rightarrow> string \<Rightarrow> string \<Rightarrow> (db, unit) prog" where
  "upsert_image_policy stack service ref =
     unitP (''upsert image policy '' @ quoted stack @ ''/'' @ quoted service @ '': '')
       (ups d_policies d_policies_update (policy_key stack service)
          (\<lambda>_ p. p\<lparr>ip_ref := ref, ip_applied := (if ip_ref p = ref then ip_applied p else '''')\<rparr>)
          (\<lambda>_. \<lparr>ip_stack = stack, ip_service = service, ip_ref = ref, ip_policy = ''pinned'', ip_applied = ''''\<rparr>))"

definition prune_image_policies :: "string \<Rightarrow> string list \<Rightarrow> (db, unit) prog" where
  "prune_image_policies stack keep =
     bindP (wrapP (''list image policies for prune '' @ quoted stack @ '': '')
       (select (\<lambda>d. filter (\<lambda>svc. svc \<notin> set keep)
          (map ip_service (filter (\<lambda>p. ip_stack p = stack) (d_policies d)))))) (\<lambda>stale.
     forP (\<lambda>svc. unitP (''prune image policy '' @ quoted stack @ ''/'' @ quoted svc @ '': '')
       (del d_policies d_policies_update (\<lambda>_. policy_key stack svc))) stale)"

definition set_image_policy :: "string \<Rightarrow> string \<Rightarrow> string \<Rightarrow> (db, unit) prog" where
  "set_image_policy stack service policy =
     some_row (''set image policy '' @ quoted stack @ ''/'' @ quoted service @ '': '')
       (upd d_policies d_policies_update (\<lambda>_. policy_key stack service) (\<lambda>_ p. p\<lparr>ip_policy := policy\<rparr>))"

definition set_applied_digest :: "string \<Rightarrow> string \<Rightarrow> string \<Rightarrow> (db, unit) prog" where
  "set_applied_digest stack service digest =
     unitP (''set applied digest '' @ quoted stack @ ''/'' @ quoted service @ '': '')
       (upd d_policies d_policies_update (\<lambda>_. policy_key stack service) (\<lambda>_ p. p\<lparr>ip_applied := digest\<rparr>))"

definition list_image_policies :: "(db, image_policy list) prog" where
  "list_image_policies = wrapP ''list image policies: '' (select d_policies)"

definition list_image_policies_for_stack :: "string \<Rightarrow> (db, image_policy list) prog" where
  "list_image_policies_for_stack stack =
     wrapP (''list image policies for stack '' @ quoted stack @ '': '')
       (select (\<lambda>d. sort_key ip_service (filter (\<lambda>p. ip_stack p = stack) (d_policies d))))"

definition get_image_digest_cache :: "string \<Rightarrow> (db, string option) prog" where
  "get_image_digest_cache ref =
     bindP (wrapP (''get image digest cache '' @ quoted ref @ '': '')
       (select (\<lambda>d. find (\<lambda>r. dg_ref r = ref) (d_digests d)))) (\<lambda>found.
       case found of None \<Rightarrow> okP None
       | Some r \<Rightarrow> if dg_digest r = '''' then okP None else okP (Some (dg_digest r)))"

definition set_image_digest_cache :: "string \<Rightarrow> string \<Rightarrow> (db, unit) prog" where
  "set_image_digest_cache ref digest =
     unitP (''set image digest cache '' @ quoted ref @ '': '')
       (ups d_digests d_digests_update (\<lambda>r. dg_ref r = ref)
          (\<lambda>d r. r\<lparr>dg_digest := digest, dg_checked := Some (d_now d), dg_error := ''''\<rparr>)
          (\<lambda>d. \<lparr>dg_ref = ref, dg_digest = digest, dg_checked = Some (d_now d), dg_error = ''''\<rparr>))"

definition set_image_digest_cache_error :: "string \<Rightarrow> string \<Rightarrow> (db, unit) prog" where
  "set_image_digest_cache_error ref msg =
     unitP (''set image digest cache error '' @ quoted ref @ '': '')
       (ups d_digests d_digests_update (\<lambda>r. dg_ref r = ref)
          (\<lambda>d r. r\<lparr>dg_checked := Some (d_now d), dg_error := msg\<rparr>)
          (\<lambda>d. \<lparr>dg_ref = ref, dg_digest = '''', dg_checked = Some (d_now d), dg_error = msg\<rparr>))"

section \<open>Revisions of a local stack\<close>

definition record_stack_revision :: "string \<Rightarrow> string \<Rightarrow> (db, unit) prog" where
  "record_stack_revision stack compose =
     unitP (''record stack revision for '' @ quoted stack @ '': '')
       (exec (\<lambda>d. ((), d\<lparr>d_revisions := d_revisions d @
            [\<lparr>sr_id = d_revision_next d, sr_stack = stack, sr_compose = compose, sr_created = d_now d\<rparr>],
          d_revision_next := d_revision_next d + 1\<rparr>)))"

definition list_stack_revisions :: "string \<Rightarrow> (db, stack_revision list) prog" where
  "list_stack_revisions stack =
     wrapP (''list stack revisions for '' @ quoted stack @ '': '')
       (select (\<lambda>d. rev (sort_key sr_id (filter (\<lambda>r. sr_stack r = stack) (d_revisions d)))))"

definition get_stack_revision :: "string \<Rightarrow> nat \<Rightarrow> (db, stack_revision) prog" where
  "get_stack_revision stack i =
     one_row (''get stack revision '' @ show_int (int i) @ '' for '' @ quoted stack @ '': '')
       (\<lambda>d. find (\<lambda>r. sr_id r = i \<and> sr_stack r = stack) (d_revisions d))"

section \<open>Snapshots of the hosts\<close>

text \<open>
  The four \<^verbatim>\<open>Replace...\<close> functions: the host's rows go, the snapshot's come, in one transaction.
\<close>

definition replace_rows ::
  "string \<Rightarrow> (db \<Rightarrow> 'r list) \<Rightarrow> (('r list \<Rightarrow> 'r list) \<Rightarrow> db \<Rightarrow> db) \<Rightarrow> ('r \<Rightarrow> bool)
     \<Rightarrow> ('r \<Rightarrow> string) \<Rightarrow> ('r \<Rightarrow> (string \<times> ('r \<Rightarrow> bool)) list) \<Rightarrow> 'r list \<Rightarrow> (db, unit) prog" where
  "replace_rows pre rows up mine label uniques new =
     tx (pre @ '': '') '''' (
       bindP (unitP (pre @ '': clear old: '') (del rows up (\<lambda>_. mine))) (\<lambda>_.
       forP (\<lambda>r. unitP (pre @ '': insert '' @ quoted (label r) @ '': '') (ins rows up (uniques r) (\<lambda>_. r))) new))"

definition replace_host_containers :: "string \<Rightarrow> host_container list \<Rightarrow> (db, unit) prog" where
  "replace_host_containers host new =
     replace_rows (''replace host containers '' @ quoted host) d_containers d_containers_update
       (\<lambda>c. hc_host c = host) hc_id
       (\<lambda>c. [(''host_containers.host_id, host_containers.container_id'',
          \<lambda>x. hc_host x = hc_host c \<and> hc_id x = hc_id c)])
       (map (\<lambda>c. c\<lparr>hc_host := host, hc_host_name := ''''\<rparr>) new)"

definition image_key :: "host_image \<Rightarrow> string \<times> string \<times> string" where
  "image_key r = (hi_id r, hi_repository r, hi_tag r)"

definition take_digest :: "host_image \<Rightarrow> host_image \<Rightarrow> host_image" where
  "take_digest r x =
     (if image_key x = image_key r \<and> hi_digest r \<noteq> '''' \<and> (hi_digest x = '''' \<or> hi_digest r < hi_digest x)
      then x\<lparr>hi_digest := hi_digest r\<rparr> else x)"

fun dedupe_images :: "host_image list \<Rightarrow> host_image list \<Rightarrow> host_image list" where
  "dedupe_images [] out = out"
| "dedupe_images (r # rs) out =
     (if image_key r \<in> image_key ` set out then dedupe_images rs (map (take_digest r) out)
      else dedupe_images rs (out @ [r]))"

definition dedupe_host_images :: "host_image list \<Rightarrow> host_image list" where
  "dedupe_host_images rs = dedupe_images rs []"

definition replace_host_images :: "string \<Rightarrow> host_image list \<Rightarrow> (db, unit) prog" where
  "replace_host_images host new =
     replace_rows (''replace host images '' @ quoted host) d_images d_images_update
       (\<lambda>c. hi_host c = host) hi_id
       (\<lambda>c. [(''host_images.host_id, host_images.image_id, host_images.repository, host_images.tag'',
          \<lambda>x. hi_host x = hi_host c \<and> image_key x = image_key c)])
       (map (\<lambda>c. c\<lparr>hi_host := host, hi_host_name := ''''\<rparr>) (dedupe_host_images new))"

definition replace_host_volumes :: "string \<Rightarrow> host_volume list \<Rightarrow> (db, unit) prog" where
  "replace_host_volumes host new =
     replace_rows (''replace host volumes '' @ quoted host) d_volumes d_volumes_update
       (\<lambda>c. hv_host c = host) hv_name
       (\<lambda>c. [(''host_volumes.host_id, host_volumes.name'', \<lambda>x. hv_host x = hv_host c \<and> hv_name x = hv_name c)])
       (map (\<lambda>c. c\<lparr>hv_host := host, hv_host_name := ''''\<rparr>) new)"

definition replace_host_networks :: "string \<Rightarrow> host_network list \<Rightarrow> (db, unit) prog" where
  "replace_host_networks host new =
     replace_rows (''replace host networks '' @ quoted host) d_networks d_networks_update
       (\<lambda>c. hn_host c = host) hn_name
       (\<lambda>c. [(''host_networks.host_id, host_networks.name'', \<lambda>x. hn_host x = hn_host c \<and> hn_name x = hn_name c)])
       (map (\<lambda>c. c\<lparr>hn_host := host, hn_host_name := ''''\<rparr>) new)"

text \<open>\<^verbatim>\<open>JOIN hosts\<close>: a row of a host that is gone is left out.\<close>

definition host_name_of :: "db \<Rightarrow> string \<Rightarrow> string option" where
  "host_name_of d i = map_option h_name (find (\<lambda>h. h_id h = i) (d_hosts d))"

definition joined_containers :: "db \<Rightarrow> host_container list" where
  "joined_containers d =
     List.map_filter (\<lambda>c. map_option (\<lambda>n. c\<lparr>hc_host_name := n\<rparr>) (host_name_of d (hc_host c))) (d_containers d)"

definition list_host_containers :: "(db, host_container list) prog" where
  "list_host_containers =
     wrapP ''list host containers: '' (select (\<lambda>d. sort_key hc_name (joined_containers d)))"

definition list_host_containers_by_stack :: "string \<Rightarrow> (db, host_container list) prog" where
  "list_host_containers_by_stack stack =
     wrapP (''list host containers for stack '' @ quoted stack @ '': '')
       (select (\<lambda>d. sort_key hc_service (sort_key hc_name
          (filter (\<lambda>c. hc_stack c = stack) (joined_containers d)))))"

definition get_host_container :: "string \<Rightarrow> (db, host_container) prog" where
  "get_host_container i =
     one_row (''get host container '' @ quoted i @ '': '')
       (\<lambda>d. find (\<lambda>c. hc_id c = i) (joined_containers d))"

definition list_host_images :: "(db, host_image list) prog" where
  "list_host_images =
     wrapP ''list host images: '' (select (\<lambda>d. sort_key hi_repository (sort_key hi_tag
       (List.map_filter (\<lambda>c. map_option (\<lambda>n. c\<lparr>hi_host_name := n\<rparr>) (host_name_of d (hi_host c))) (d_images d)))))"

definition list_host_volumes :: "(db, host_volume list) prog" where
  "list_host_volumes =
     wrapP ''list host volumes: '' (select (\<lambda>d. sort_key hv_name
       (List.map_filter (\<lambda>c. map_option (\<lambda>n. c\<lparr>hv_host_name := n\<rparr>) (host_name_of d (hv_host c))) (d_volumes d))))"

definition list_host_networks :: "(db, host_network list) prog" where
  "list_host_networks =
     wrapP ''list host networks: '' (select (\<lambda>d. sort_key hn_name
       (List.map_filter (\<lambda>c. map_option (\<lambda>n. c\<lparr>hn_host_name := n\<rparr>) (host_name_of d (hn_host c))) (d_networks d))))"

section \<open>Deleting a stack\<close>

lemma del_done:
  assumes "del rows up P d = (Inr n, d')" and "\<And>d fs. P (d\<lparr>d_faults := fs\<rparr>) = P d"
    and "\<And>d fs. rows (d\<lparr>d_faults := fs\<rparr>) = rows d"
  shows "n = count_where (P d) (rows d) \<and> (\<exists>fs. d' = up (delete_where (P d)) (d\<lparr>d_faults := fs\<rparr>))"
  using assms(1) by (rule del_cases) (use assms(2,3) in auto)

text \<open>
  Deleting a stack is all or nothing: when it succeeds the stack existed
  and nothing of it is left in any of the five tables, every other row staying as it was; when it
  fails, at whichever statement, no table has changed.
\<close>

theorem delete_stack_complete:
  "case delete_stack i d of
     (Inl e, d') \<Rightarrow> same_tables d d'
   | (Inr _, d') \<Rightarrow> (\<exists>s\<in>set (d_stacks d). st_id s = i)
       \<and> d_stacks d' = filter (\<lambda>s. st_id s \<noteq> i) (d_stacks d)
       \<and> d_deployments d' = filter (\<lambda>x. dp_stack x \<noteq> i) (d_deployments d)
       \<and> d_policies d' = filter (\<lambda>p. ip_stack p \<noteq> i) (d_policies d)
       \<and> d_bindings d' = filter (\<lambda>b. sb_stack b \<noteq> i) (d_bindings d)
       \<and> d_secret_conns d' = filter (\<lambda>c. sc_stack c \<noteq> i) (d_secret_conns d)
       \<and> d_hosts d' = d_hosts d \<and> d_users d' = d_users d"
proof (cases "delete_stack i d")
  case (Pair r d')
  show ?thesis
  proof (cases r)
    case (Inl e)
    with Pair tx_error_same show ?thesis by (fastforce simp: delete_stack_def Let_def)
  next
    case (Inr u)
    from Pair Inr obtain fs d5 gs where
      body: "bindP (unitP (''delete stack '' @ quoted i @ '': deployments: '')
          (del d_deployments d_deployments_update (\<lambda>_ x. dp_stack x = i))) (\<lambda>_.
        bindP (unitP (''delete stack '' @ quoted i @ '': image policies: '')
          (del d_policies d_policies_update (\<lambda>_ x. ip_stack x = i))) (\<lambda>_.
        bindP (unitP (''delete stack '' @ quoted i @ '': secret bindings: '')
          (del d_bindings d_bindings_update (\<lambda>_ x. sb_stack x = i))) (\<lambda>_.
        bindP (unitP (''delete stack '' @ quoted i @ '': secret connections: '')
          (del d_secret_conns d_secret_conns_update (\<lambda>_ x. sc_stack x = i))) (\<lambda>_.
        some_row (''delete stack '' @ quoted i @ '': '') (del d_stacks d_stacks_update (\<lambda>_ x. st_id x = i))))))
        (d\<lparr>d_faults := fs\<rparr>) = (Inr u, d5)" and d': "d' = d5\<lparr>d_faults := gs\<rparr>"
      using tx_Inr by (fastforce simp: delete_stack_def Let_def)
    from body obtain n1 d1 n2 d2 n3 d3 n4 d4 n5 where s:
      "del d_deployments d_deployments_update (\<lambda>_ x. dp_stack x = i) (d\<lparr>d_faults := fs\<rparr>) = (Inr n1, d1)"
      "del d_policies d_policies_update (\<lambda>_ x. ip_stack x = i) d1 = (Inr n2, d2)"
      "del d_bindings d_bindings_update (\<lambda>_ x. sb_stack x = i) d2 = (Inr n3, d3)"
      "del d_secret_conns d_secret_conns_update (\<lambda>_ x. sc_stack x = i) d3 = (Inr n4, d4)"
      "del d_stacks d_stacks_update (\<lambda>_ x. st_id x = i) d4 = (Inr n5, d5)" "n5 \<noteq> 0"
      by (auto simp: bindP_Inr unitP_Inr some_row_Inr)
    from del_done [OF s(1)] obtain f1 where
      e1: "d1 = d_deployments_update (delete_where (\<lambda>x. dp_stack x = i)) (d\<lparr>d_faults := f1\<rparr>)" by auto
    from del_done [OF s(2)] obtain f2 where
      e2: "d2 = d_policies_update (delete_where (\<lambda>x. ip_stack x = i)) (d1\<lparr>d_faults := f2\<rparr>)" by auto
    from del_done [OF s(3)] obtain f3 where
      e3: "d3 = d_bindings_update (delete_where (\<lambda>x. sb_stack x = i)) (d2\<lparr>d_faults := f3\<rparr>)" by auto
    from del_done [OF s(4)] obtain f4 where
      e4: "d4 = d_secret_conns_update (delete_where (\<lambda>x. sc_stack x = i)) (d3\<lparr>d_faults := f4\<rparr>)" by auto
    from del_done [OF s(5)] obtain f5 where
      e5: "d5 = d_stacks_update (delete_where (\<lambda>x. st_id x = i)) (d4\<lparr>d_faults := f5\<rparr>)"
      and n5: "n5 = count_where (\<lambda>x. st_id x = i) (d_stacks d4)" by auto
    have "\<exists>s\<in>set (d_stacks d). st_id s = i"
      using n5 s(6) by (auto simp: e4 e3 e2 e1 count_where_def filter_empty_conv)
    with Pair Inr show ?thesis by (simp add: d' e5 e4 e3 e2 e1 delete_where_def)
  qed
qed

section \<open>The queue of a host\<close>

lemma find_split:
  "find P xs = Some x \<Longrightarrow> \<exists>ys zs. xs = ys @ x # zs \<and> P x \<and> (\<forall>y\<in>set ys. \<not> P y)"
proof (induction xs)
  case (Cons a xs)
  show ?case
  proof (cases "P a")
    case True
    with Cons.prems have "a = x" by simp
    with True show ?thesis by (intro exI [of _ "[]"] exI [of _ xs]) simp
  next
    case False
    with Cons obtain ys zs where "xs = ys @ x # zs" "P x" "\<forall>y\<in>set ys. \<not> P y" by auto
    with False show ?thesis by (intro exI [of _ "a # ys"] exI [of _ zs]) simp
  qed
qed simp

lemma claim_select_done:
  assumes "claim_select host d = (Inr r, d')"
  shows "r = map_option dp_id (find (is_queued host) (d_deployments d)) \<and> (\<exists>fs. d' = d\<lparr>d_faults := fs\<rparr>)"
proof -
  from assms have "select (\<lambda>d. map_option dp_id (find (is_queued host) (d_deployments d))) d = (Inr r, d')"
    by (simp add: claim_select_def)
  then show ?thesis by (rule select_cases) auto
qed

lemma claim_update_done:
  assumes "claim_update i d = (Inr n, d')"
  shows "n = count_where (\<lambda>x. dp_id x = i \<and> dp_status x = ''queued'') (d_deployments d) \<and>
    (\<exists>fs. d' = d_deployments_update (update_where (\<lambda>x. dp_id x = i \<and> dp_status x = ''queued'')
       (\<lambda>x. x\<lparr>dp_status := ''running'', dp_started := Some (d_now d)\<rparr>)) (d\<lparr>d_faults := fs\<rparr>))"
proof -
  from assms have "upd d_deployments d_deployments_update (\<lambda>_ x. dp_id x = i \<and> dp_status x = ''queued'')
      (\<lambda>d x. x\<lparr>dp_status := ''running'', dp_started := Some (d_now d)\<rparr>) d = (Inr n, d')"
    by (simp add: claim_update_def)
  then show ?thesis by (rule upd_cases) auto
qed

lemma get_deployment_done:
  assumes "get_deployment i d = (Inr x, d')"
  shows "find_deployment d i = Some x \<and> (\<exists>fs. d' = d\<lparr>d_faults := fs\<rparr>)"
proof -
  from assms have "select (\<lambda>d. find_deployment d i) d = (Inr (Some x), d')"
    by (auto simp: get_deployment_def one_row_def bindP_Inr split: option.splits)
  then show ?thesis by (rule select_cases) (auto simp: find_deployment_def)
qed

text \<open>
  The queue of a host is first in, first out: what a poll gets is the oldest
  deployment queued for the host, now running, and no other row has changed.
\<close>

theorem claim_fifo:
  assumes "distinct (map dp_id (d_deployments d))"
    and "claim_next_deployment host d = (Inr (Some x), d')"
  shows "\<exists>pre y post. d_deployments d = pre @ y # post \<and> is_queued host y
    \<and> (\<forall>z\<in>set pre. \<not> is_queued host z)
    \<and> x = y\<lparr>dp_status := ''running'', dp_started := Some (d_now d)\<rparr>
    \<and> d_deployments d' = pre @ x # post"
proof -
  from assms(2) obtain i d1 n d2 where s: "claim_select host d = (Inr (Some i), d1)"
    "claim_update i d1 = (Inr n, d2)" "get_deployment i d2 = (Inr x, d')"
    by (auto simp: claim_next_deployment_def bindP_Inr split: option.splits if_splits)
  have "map_option dp_id (find (is_queued host) (d_deployments d)) = Some i"
    and d1: "d_deployments d1 = d_deployments d" "d_now d1 = d_now d"
    using claim_select_done [OF s(1)] by auto
  then obtain y where y: "find (is_queued host) (d_deployments d) = Some y" "i = dp_id y" by auto
  from find_split [OF y(1)] obtain pre post where p: "d_deployments d = pre @ y # post" "is_queued host y"
    "\<forall>z\<in>set pre. \<not> is_queued host z" by blast
  let ?P = "\<lambda>x. dp_id x = i \<and> dp_status x = ''queued''"
  let ?f = "\<lambda>x. x\<lparr>dp_status := ''running'', dp_started := Some (d_now d)\<rparr>"
  have "dp_id y \<notin> dp_id ` (set pre \<union> set post)" using assms(1) p(1) by auto
  then have ids: "dp_id z \<noteq> i" if "z \<in> set pre \<union> set post" for z
    using that y(2) by (metis imageI)
  have "?P y" using y(2) p(2) by (simp add: is_queued_def)
  then have "update_where ?P ?f (d_deployments d) = pre @ ?f y # post"
    using ids by (simp add: p(1) update_where_def map_idI)
  then have d2: "d_deployments d2 = pre @ ?f y # post"
    using claim_update_done [OF s(2)] d1 by auto
  have "find_deployment d2 i = Some (?f y)"
  proof -
    have "find (\<lambda>x. dp_id x = i) (xs @ ?f y # ys) = Some (?f y)" if "\<forall>z\<in>set xs. dp_id z \<noteq> i" for xs ys
      using that y(2) by (induction xs) auto
    then show ?thesis using ids by (simp add: find_deployment_def d2)
  qed
  with get_deployment_done [OF s(3)] have "x = ?f y" "d_deployments d' = pre @ ?f y # post" using d2 by auto
  with p show ?thesis by blast
qed

definition queue_db :: db where
  "queue_db = snd (enqueue_deployment ''web'' ''nas'' ''manual'' ''up''
     (snd (enqueue_deployment ''blog'' ''nas'' ''manual'' ''up''
       (empty_db 0 (\<lambda>n. replicate (n + 1) CHR ''a'')))))"

theorem claim_fifo_witness:
  "\<exists>x d' pre y post. claim_next_deployment ''nas'' queue_db = (Inr (Some x), d')
    \<and> d_deployments queue_db = pre @ y # post \<and> is_queued ''nas'' y
    \<and> d_deployments d' = pre @ x # post \<and> dp_stack x = ''blog''"
proof -
  have ids: "distinct (map dp_id (d_deployments queue_db))" by code_simp
  have "case fst (claim_next_deployment ''nas'' queue_db) of
      Inr (Some x) \<Rightarrow> dp_stack x = ''blog'' | _ \<Rightarrow> False" by code_simp
  then obtain x d' where c: "claim_next_deployment ''nas'' queue_db = (Inr (Some x), d')" "dp_stack x = ''blog''"
    by (cases "claim_next_deployment ''nas'' queue_db") (auto split: sum.splits option.splits)
  from claim_fifo [OF ids c(1)] c show ?thesis by blast
qed

section \<open>Concurrent polls\<close>

text \<open>
  Several requests may be polling at once.  Each is idle, has read the id it wants (the \<^verbatim>\<open>SELECT\<close>), or
  has been told by its \<^verbatim>\<open>UPDATE\<close> that the deployment is its own; the two statements of different
  requests interleave with each other, with new deployments and with results.
\<close>

datatype poll_state = Idle | Chose string | Won string

type_synonym polls = "(nat \<Rightarrow> poll_state) \<times> db"

inductive poll_step :: "polls \<Rightarrow> polls \<Rightarrow> bool" where
  choose: "ps p = Idle \<Longrightarrow> claim_select host d = (Inr (Some i), d') \<Longrightarrow> poll_step (ps, d) (ps(p := Chose i), d')"
| idle_poll: "claim_select host d = (r, d') \<Longrightarrow> poll_step (ps, d) (ps, d')"
| win: "ps p = Chose i \<Longrightarrow> claim_update i d = (Inr n, d') \<Longrightarrow> n \<noteq> 0 \<Longrightarrow> poll_step (ps, d) (ps(p := Won i), d')"
| lose: "ps p = Chose i \<Longrightarrow> claim_update i d = (Inr n, d') \<Longrightarrow> n = 0 \<Longrightarrow> poll_step (ps, d) (ps(p := Idle), d')"
| fail: "ps p = Chose i \<Longrightarrow> claim_update i d = (Inl e, d') \<Longrightarrow> poll_step (ps, d) (ps(p := Idle), d')"
| enqueue: "enqueue_deployment stack host trigger action d = (r, d') \<Longrightarrow> poll_step (ps, d) (ps, d')"
| result: "status \<noteq> ''queued'' \<Longrightarrow> complete_deployment i status output d = (r, d') \<Longrightarrow> poll_step (ps, d) (ps, d')"

inductive poll_reach :: "polls \<Rightarrow> polls \<Rightarrow> bool" where
  start: "poll_reach s s"
| next_step: "poll_reach s t \<Longrightarrow> poll_step t u \<Longrightarrow> poll_reach s u"

inductive_cases poll_stepE: "poll_step (ps, d) u"

definition taken :: "string \<Rightarrow> db \<Rightarrow> bool" where
  "taken i d \<longleftrightarrow> i \<in> dp_id ` set (d_deployments d)
     \<and> (\<forall>x\<in>set (d_deployments d). dp_id x = i \<longrightarrow> dp_status x \<noteq> ''queued'')"

definition claims_inv :: "polls \<Rightarrow> bool" where
  "claims_inv s \<longleftrightarrow>
     (\<forall>p i. fst s p = Won i \<longrightarrow> taken i (snd s))
   \<and> (\<forall>p q i. fst s p = Won i \<and> fst s q = Won i \<longrightarrow> p = q)"

lemma taken_faults [simp]: "taken i (d\<lparr>d_faults := fs\<rparr>) = taken i d"
  by (simp add: taken_def)

lemma taken_update:
  assumes "taken i d" and "\<And>x. dp_id (f x) = dp_id x"
    and "\<And>x. P x \<Longrightarrow> dp_status (f x) \<noteq> ''queued'' \<or> dp_status (f x) = dp_status x"
  shows "taken i (d_deployments_update (update_where P f) d)"
  using assms by (auto simp: taken_def ball_update_where image_update_where)

lemma taken_insert:
  assumes "taken i d" and "\<forall>x\<in>set (d_deployments d). dp_id x \<noteq> dp_id r"
  shows "taken i (d_deployments_update (\<lambda>rs. rs @ [r]) d)"
  using assms by (auto simp: taken_def)

lemma table_inv_taken: "table_inv (taken i)"
  by (rule table_invI) (simp_all add: taken_def)

lemma taken_claim:
  assumes "claim_update j d = (Inr n, d')" and "taken i d \<or> (i = j \<and> n \<noteq> 0)"
  shows "taken i d'"
proof -
  let ?P = "\<lambda>x. dp_id x = j \<and> dp_status x = ''queued''"
  let ?f = "\<lambda>x. x\<lparr>dp_status := ''running'', dp_started := Some (d_now d)\<rparr>"
  obtain fs where d': "d' = d_deployments_update (update_where ?P ?f) (d\<lparr>d_faults := fs\<rparr>)"
    and n: "n = count_where ?P (d_deployments d)"
    using claim_update_done [OF assms(1)] by blast
  show ?thesis
  proof (cases "taken i d")
    case True
    then show ?thesis unfolding d' by (intro taken_update) auto
  next
    case False
    with assms(2) have "i = j" "n \<noteq> 0" by auto
    then obtain x where "x \<in> set (d_deployments d)" "?P x"
      using n by (auto simp: count_where_def filter_empty_conv)
    then have "i \<in> dp_id ` set (d_deployments d)" using \<open>i = j\<close> by blast
    then show ?thesis
      using \<open>i = j\<close> by (auto simp: d' taken_def ball_update_where image_update_where)
  qed
qed

lemma taken_not_claimed:
  assumes "claim_update i d = (Inr n, d')" and "taken i d"
  shows "n = 0"
proof -
  have "n = count_where (\<lambda>x. dp_id x = i \<and> dp_status x = ''queued'') (d_deployments d)"
    using claim_update_done [OF assms(1)] by blast
  with assms(2) show ?thesis by (auto simp: taken_def count_where_def filter_empty_conv)
qed

lemma keeps_taken_enqueue: "keeps (taken i) (enqueue_deployment stack host trigger action)"
  unfolding enqueue_deployment_def get_deployment_def
  by (intro keeps_intros keeps_ins table_inv_taken taken_insert) (auto simp: first_clash_None)

lemma keeps_taken_complete:
  "status \<noteq> ''queued'' \<Longrightarrow> keeps (taken i) (complete_deployment j status output)"
  unfolding complete_deployment_def
  by (intro keeps_intros keeps_upd table_inv_taken taken_update) simp_all

lemma claims_inv_same: "claims_inv (ps, d) \<Longrightarrow> (\<And>i. taken i d \<Longrightarrow> taken i d') \<Longrightarrow> claims_inv (ps, d')"
  by (auto simp: claims_inv_def)

lemma claims_inv_release: "claims_inv (ps, d) \<Longrightarrow> (\<And>i. st \<noteq> Won i) \<Longrightarrow> claims_inv (ps(p := st), d)"
  by (auto simp: claims_inv_def)

lemma claims_inv_step:
  assumes "poll_step s t" and "claims_inv s"
  shows "claims_inv t"
  using assms
proof (cases rule: poll_step.cases)
  case (choose ps p host d i d')
  then have "\<exists>fs. d' = d\<lparr>d_faults := fs\<rparr>" using claim_select_done [of host d "Some i" d'] by blast
  with choose assms(2) show ?thesis
    by (auto intro!: claims_inv_release elim!: claims_inv_same)
next
  case (idle_poll host d r d' ps)
  have "\<exists>fs. d' = d\<lparr>d_faults := fs\<rparr>"
    using idle_poll(3) unfolding claim_select_def
    by (cases r) (auto simp: wrapP_Inl dest: select_state)
  with idle_poll assms(2) show ?thesis by (auto elim!: claims_inv_same)
next
  case (win ps p i d n d')
  have "\<not> taken i d" using taken_not_claimed [OF win(4)] win(5) by auto
  then have "ps q \<noteq> Won i" for q using assms(2) win(1) by (auto simp: claims_inv_def)
  then show ?thesis using win assms(2) taken_claim [OF win(4)] by (auto simp: claims_inv_def)
next
  case (lose ps p i d n d')
  then show ?thesis using assms(2) taken_claim [OF lose(4)]
    by (auto intro!: claims_inv_release elim!: claims_inv_same)
next
  case (fail ps p i d e d')
  have "\<exists>fs. d' = d\<lparr>d_faults := fs\<rparr>"
    using fail(4) unfolding claim_update_def by (auto simp: wrapP_Inl elim: upd_cases)
  with fail assms(2) show ?thesis by (auto intro!: claims_inv_release elim!: claims_inv_same)
next
  case (enqueue stack host trigger action d r d' ps)
  then show ?thesis using assms(2) keepsE [OF keeps_taken_enqueue _ enqueue(3)]
    by (auto elim!: claims_inv_same)
next
  case (result status i out d r d' ps)
  then show ?thesis using assms(2) keepsE [OF keeps_taken_complete _ result(4)]
    by (auto elim!: claims_inv_same)
qed

text \<open>
  C9 claim_exclusive.  However the statements of concurrent polls interleave, with each other, with
  new deployments, with results and with failures of the database, a deployment is handed out to at
  most one of them.
\<close>

theorem claim_exclusive:
  assumes "poll_reach (\<lambda>_. Idle, d) (ps, d')" and "ps p = Won i" and "ps q = Won i"
  shows "p = q"
proof -
  have "poll_reach s t \<Longrightarrow> claims_inv s \<Longrightarrow> claims_inv t" for s t
    by (induction rule: poll_reach.induct) (auto dest: claims_inv_step)
  from this [OF assms(1)] have "claims_inv (ps, d')" by (simp add: claims_inv_def)
  with assms(2,3) show ?thesis by (auto simp: claims_inv_def)
qed

theorem claim_exclusive_witness:
  "\<exists>ps d'. poll_reach (\<lambda>_. Idle, queue_db) (ps, d') \<and> {q. ps q = Won ''a''} = {0}"
proof -
  let ?ps1 = "(\<lambda>_::nat. Idle)(0 := Chose ''a'')"
  let ?ps2 = "?ps1(0 := Won ''a'')"
  have "fst (claim_select ''nas'' queue_db) = Inr (Some ''a'')" by code_simp
  then obtain d1 where d1: "claim_select ''nas'' queue_db = (Inr (Some ''a''), d1)" by (metis prod.collapse)
  have "fst (claim_update ''a'' (snd (claim_select ''nas'' queue_db))) = Inr 1" by code_simp
  then obtain d2 where d2: "claim_update ''a'' d1 = (Inr 1, d2)" using d1 by (metis prod.collapse snd_conv)
  have "poll_step (\<lambda>_. Idle, queue_db) (?ps1, d1)" by (rule poll_step.choose [OF _ d1]) simp
  moreover have "poll_step (?ps1, d1) (?ps2, d2)" by (rule poll_step.win [OF _ d2]) simp_all
  ultimately have r: "poll_reach (\<lambda>_. Idle, queue_db) (?ps2, d2)"
    by (meson poll_reach.start poll_reach.next_step)
  have "q = 0" if "?ps2 q = Won ''a''" for q
    using claim_exclusive [OF r that, of 0] by simp
  then have "{q. ?ps2 q = Won ''a''} \<subseteq> {0}" by blast
  moreover have "?ps2 0 = Won ''a''" by simp
  ultimately have "{q. ?ps2 q = Won ''a''} = {0}" by blast
  with r show ?thesis by (intro exI conjI)
qed

section \<open>Snapshots of images\<close>

lemma dedupe_images_keys:
  assumes "distinct (map image_key out)"
  shows "distinct (map image_key (dedupe_images rs out))
    \<and> image_key ` set (dedupe_images rs out) = image_key ` (set out \<union> set rs)"
  using assms
proof (induction rs out rule: dedupe_images.induct)
  case (2 r rs out)
  have key: "image_key (take_digest r x) = image_key x" for x
    by (simp add: take_digest_def image_key_def)
  show ?case
  proof (cases "image_key r \<in> image_key ` set out")
    case True
    have "distinct (map image_key (map (take_digest r) out))"
      "image_key ` set (map (take_digest r) out) = image_key ` set out"
      using 2(3) by (simp_all add: comp_def key image_image)
    with True 2(1) show ?thesis by (simp add: image_Un insert_absorb)
  next
    case False
    with 2 show ?thesis by auto
  qed
qed simp

text \<open>
  The tables of snapshots, given by their field and its update: what a replacement of a host's rows
  does, whether it is stored or not.
\<close>

locale host_table =
  fixes rows :: "db \<Rightarrow> 'r list" and up :: "('r list \<Rightarrow> 'r list) \<Rightarrow> db \<Rightarrow> db"
  assumes rows_up: "\<And>f d. rows (up f d) = f (rows d)"
    and up_id: "\<And>d. up (\<lambda>rs. rs) d = d"
    and up_up: "\<And>f g d. up f (up g d) = up (\<lambda>rs. f (g rs)) d"
    and rows_faults: "\<And>d fs. rows (d\<lparr>d_faults := fs\<rparr>) = rows d"
    and up_faults: "\<And>f d fs. up f (d\<lparr>d_faults := fs\<rparr>) = (up f d)\<lparr>d_faults := fs\<rparr>"
begin

lemma inserted:
  "forP (\<lambda>r. unitP (pre r) (ins rows up (uniques r) (\<lambda>_. r))) new d = (Inr x, d') \<Longrightarrow>
     \<exists>fs. d' = (up (\<lambda>rs. rs @ new) d)\<lparr>d_faults := fs\<rparr>"
proof (induction new arbitrary: d)
  case Nil
  then have "d' = (up (\<lambda>rs. rs @ []) d)\<lparr>d_faults := d_faults d\<rparr>" by (simp add: up_id)
  then show ?case by blast
next
  case (Cons r new)
  then obtain y d1 where i: "ins rows up (uniques r) (\<lambda>_. r) d = (Inr y, d1)"
    and k: "forP (\<lambda>r. unitP (pre r) (ins rows up (uniques r) (\<lambda>_. r))) new d1 = (Inr x, d')"
    by (auto simp: bindP_Inr unitP_Inr)
  from i obtain fs where "d1 = (up (\<lambda>rs. rs @ [r]) d)\<lparr>d_faults := fs\<rparr>"
    by (cases rule: ins_cases) (auto simp: up_faults)
  with Cons.IH [OF k] show ?case by (auto simp: up_up up_faults)
qed

lemma replaced:
  assumes "replace_rows pre rows up mine label uniques new d = (Inr x, d')"
  shows "\<exists>fs. d' = (up (\<lambda>rs. filter (\<lambda>r. \<not> mine r) rs @ new) d)\<lparr>d_faults := fs\<rparr>"
proof -
  obtain fs d1 gs where body: "bindP (unitP (pre @ '': clear old: '') (del rows up (\<lambda>_. mine))) (\<lambda>_.
       forP (\<lambda>r. unitP (pre @ '': insert '' @ quoted (label r) @ '': '') (ins rows up (uniques r) (\<lambda>_. r))) new)
       (d\<lparr>d_faults := fs\<rparr>) = (Inr x, d1)" and d': "d' = d1\<lparr>d_faults := gs\<rparr>"
    using tx_Inr [OF assms [unfolded replace_rows_def]] by blast
  from body obtain y d2 where c: "del rows up (\<lambda>_. mine) (d\<lparr>d_faults := fs\<rparr>) = (Inr y, d2)"
    and k: "forP (\<lambda>r. unitP (pre @ '': insert '' @ quoted (label r) @ '': '') (ins rows up (uniques r) (\<lambda>_. r))) new d2
      = (Inr x, d1)"
    by (auto simp: bindP_Inr unitP_Inr)
  from c obtain hs where "d2 = (up (delete_where mine) d)\<lparr>d_faults := hs\<rparr>"
    by (cases rule: del_cases) (auto simp: up_faults)
  with inserted [OF k] d' show ?thesis by (auto simp: up_up up_faults delete_where_def)
qed

lemma not_replaced:
  assumes "replace_rows pre rows up mine label uniques new d = (Inl e, d')"
  shows "same_tables d d'"
  by (rule tx_error_same [OF assms [unfolded replace_rows_def]])

lemma insert_faultless:
  assumes "d_faults d = []" and "distinct (map key new)" and "\<forall>x\<in>set (rows d). key x \<notin> key ` set new"
    and "\<And>f e. d_faults (up f e) = d_faults e"
  shows "forP (\<lambda>r. unitP (pre r) (ins rows up [(lbl, \<lambda>x. key x = key r)] (\<lambda>_. r))) new d
    = (Inr (), up (\<lambda>rs. rs @ new) d)"
  using assms(1-3)
proof (induction new arbitrary: d)
  case Nil
  then show ?case by (simp add: up_id)
next
  case (Cons r new)
  let ?d = "up (\<lambda>rs. rs @ [r]) d"
  have "ins rows up [(lbl, \<lambda>x. key x = key r)] (\<lambda>_. r) d = (Inr (), ?d)"
    using Cons.prems by (subst faultless_exec) (auto simp: first_clash_None)
  then have "unitP (pre r) (ins rows up [(lbl, \<lambda>x. key x = key r)] (\<lambda>_. r)) d = (Inr (), ?d)"
    by (simp add: unitP_Inr)
  moreover have "forP (\<lambda>r. unitP (pre r) (ins rows up [(lbl, \<lambda>x. key x = key r)] (\<lambda>_. r))) new ?d
      = (Inr (), up (\<lambda>rs. rs @ new) ?d)"
    by (rule Cons.IH) (use Cons.prems assms(4) in \<open>auto simp: rows_up\<close>)
  ultimately show ?case by (simp add: bindP_def tryP_def up_up)
qed

lemma replace_faultless:
  assumes "d_faults d = []" and "distinct (map key new)"
    and "\<And>x. x \<in> set (rows d) \<Longrightarrow> \<not> mine x \<Longrightarrow> key x \<notin> key ` set new"
    and "\<And>f e. d_faults (up f e) = d_faults e"
  shows "replace_rows pre rows up mine label (\<lambda>r. [(lbl, \<lambda>x. key x = key r)]) new d
    = (Inr (), up (\<lambda>rs. filter (\<lambda>r. \<not> mine r) rs @ new) d)"
proof -
  let ?d = "up (delete_where mine) d"
  have "forP (\<lambda>r. unitP (pre @ '': insert '' @ quoted (label r) @ '': '') (ins rows up [(lbl, \<lambda>x. key x = key r)] (\<lambda>_. r))) new ?d
      = (Inr (), up (\<lambda>rs. rs @ new) ?d)"
    by (rule insert_faultless) (use assms in \<open>auto simp: rows_up delete_where_def\<close>)
  then show ?thesis
    unfolding replace_rows_def
    by (intro faultless_tx)
      (simp_all add: assms bindP_def tryP_def unitP_def wrapP_def faultless_exec up_up delete_where_def)
qed

end

interpretation tcont: host_table d_containers d_containers_update
  by unfold_locales simp_all

interpretation timg: host_table d_images d_images_update
  by unfold_locales simp_all

interpretation tvol: host_table d_volumes d_volumes_update
  by unfold_locales simp_all

interpretation tnet: host_table d_networks d_networks_update
  by unfold_locales simp_all

text \<open>
  A host's snapshot of images is never rejected for listing an image
  twice: it replaces the host's previous rows, leaves the other hosts' rows alone, and keeps exactly
  one row for each (image id, repository, tag) of the snapshot.
\<close>

theorem image_snapshot_stored:
  assumes "d_faults d = []"
  shows "\<exists>d' rows. replace_host_images host new d = (Inr (), d')
    \<and> d_images d' = filter (\<lambda>r. hi_host r \<noteq> host) (d_images d) @ rows
    \<and> distinct (map image_key rows) \<and> image_key ` set rows = image_key ` set new
    \<and> hi_host ` set rows \<subseteq> {host}"
proof -
  let ?rows = "map (\<lambda>c. c\<lparr>hi_host := host, hi_host_name := ''''\<rparr>) (dedupe_host_images new)"
  have keys: "map image_key ?rows = map image_key (dedupe_host_images new)"
    by (simp add: image_key_def)
  have "distinct (map image_key (dedupe_host_images new))"
    unfolding dedupe_host_images_def using dedupe_images_keys [of "[]" new] by simp
  then have dist: "distinct (map image_key ?rows)" by (simp only: keys)
  have img: "image_key ` set ?rows = image_key ` set new"
    using arg_cong [OF keys, of set] dedupe_images_keys [of "[]" new]
    by (simp add: dedupe_host_images_def image_image)
  have body: "replace_host_images host new d = (Inr (), d_images_update (\<lambda>rs. filter (\<lambda>c. hi_host c \<noteq> host) rs @ ?rows) d)"
    unfolding replace_host_images_def
    using timg.replace_faultless [OF assms, of "\<lambda>c. (hi_host c, image_key c)" ?rows "\<lambda>c. hi_host c = host"] dist
    by (auto simp: distinct_map inj_on_def image_iff)
  show ?thesis
    by (rule exI, rule exI [of _ ?rows]) (use body dist img in \<open>auto simp: delete_where_def\<close>)
qed

definition sample_image :: "string \<Rightarrow> host_image" where
  "sample_image digest = \<lparr>hi_host = '''', hi_id = ''i1'', hi_repository = ''nginx'', hi_tag = ''latest'',
     hi_size = ''1MB'', hi_digest = digest, hi_host_name = ''''\<rparr>"

theorem image_snapshot_stored_witness:
  "\<exists>d' rows. replace_host_images ''nas'' [sample_image ''b'', sample_image ''a''] (empty_db 0 (\<lambda>_. [])) = (Inr (), d')
    \<and> d_images d' = rows \<and> distinct (map image_key rows)
    \<and> image_key ` set rows = {(''i1'', ''nginx'', ''latest'')}"
proof -
  have "d_faults (empty_db 0 (\<lambda>_. [])) = []" "d_images (empty_db 0 (\<lambda>_. [])) = []"
    by (simp_all add: empty_db_def)
  from image_snapshot_stored [OF this(1), of "''nas''" "[sample_image ''b'', sample_image ''a'']"] this(2)
  show ?thesis by (auto simp: sample_image_def image_key_def)
qed

end
