(* ===== verification/Store_Users.thy ===== *)
theory Store_Users
  imports Store_Schema
begin

text \<open>
  Accounts, sessions and the audit trail of \<^verbatim>\<open>src/internal/store/store.go\<close>.  The bcrypt functions
  are parameters: \<open>gen\<close> hashes a password or fails, \<open>cmp hash password\<close> compares.  There is always
  an administrator left, and a deleted account has no session.
\<close>

section \<open>Accounts\<close>

definition user_exists :: "string \<Rightarrow> string \<times> (user \<Rightarrow> bool)" where
  "user_exists name = (''users.username'', \<lambda>u. u_name u = name)"

definition new_user :: "string \<Rightarrow> string \<Rightarrow> string \<Rightarrow> bool \<Rightarrow> string option \<Rightarrow> string option \<Rightarrow> db \<Rightarrow> user" where
  "new_user name hash role must subject issuer d =
     \<lparr>u_name = name, u_hash = hash, u_role = role, u_must_change = must, u_oidc_subject = subject,
      u_oidc_issuer = issuer, u_created = d_now d, u_last_login = None\<rparr>"

definition insert_user :: "string \<Rightarrow> (db \<Rightarrow> user) \<Rightarrow> (db, unit) prog" where
  "insert_user name u = ins d_users d_users_update [user_exists name] u"

definition ensure_first_user :: "(string \<Rightarrow> string result) \<Rightarrow> string \<Rightarrow> string \<Rightarrow> (db, unit) prog" where
  "ensure_first_user gen name password =
     bindP (wrapP ''count users: '' (select (\<lambda>d. length (d_users d)))) (\<lambda>n.
     if n > 0 then okP ()
     else bindP (wrapP ''check legacy admin user: '' (select d_legacy_admin)) (\<lambda>legacy.
       case legacy of
         Some (lname, lhash, lmust) \<Rightarrow>
           unitP ''migrate legacy admin user: ''
             (insert_user lname (new_user lname lhash ''admin'' lmust None None))
       | None \<Rightarrow>
         bindP (liftP (wrap_res ''hash admin password: '' (gen password))) (\<lambda>hash.
           unitP ''create first user: '' (insert_user name (new_user name hash ''admin'' True None None)))))"

definition find_user :: "db \<Rightarrow> string \<Rightarrow> user option" where
  "find_user d name = find (\<lambda>u. u_name u = name) (d_users d)"

definition verify_user_credentials :: "(string \<Rightarrow> string \<Rightarrow> bool) \<Rightarrow> string \<Rightarrow> string \<Rightarrow> (db, bool) prog" where
  "verify_user_credentials cmp name password =
     bindP (wrapP (''load user '' @ quoted name @ '': '') (select (\<lambda>d. map_option u_hash (find_user d name)))) (\<lambda>h.
       case h of None \<Rightarrow> okP False
       | Some hash \<Rightarrow> if hash = '''' then okP False else okP (cmp hash password))"

definition get_user_by_username :: "string \<Rightarrow> (db, user) prog" where
  "get_user_by_username name = one_row (''get user '' @ quoted name @ '': '') (\<lambda>d. find_user d name)"

definition list_users :: "(db, user list) prog" where
  "list_users = wrapP ''list users: '' (select (\<lambda>d. sort_key u_name (d_users d)))"

definition update_user :: "string \<Rightarrow> (db \<Rightarrow> user \<Rightarrow> user) \<Rightarrow> (db, nat) prog" where
  "update_user name f = upd d_users d_users_update (\<lambda>_ u. u_name u = name) f"

definition touch_user_login :: "string \<Rightarrow> (db, unit) prog" where
  "touch_user_login name =
     unitP (''touch login for '' @ quoted name @ '': '')
       (update_user name (\<lambda>d u. u\<lparr>u_last_login := Some (d_now d)\<rparr>))"

definition get_user_by_oidc :: "string \<Rightarrow> string \<Rightarrow> (db, user option) prog" where
  "get_user_by_oidc issuer subject =
     wrapP ''get user by oidc subject: ''
       (select (\<lambda>d. find (\<lambda>u. u_oidc_issuer u = Some issuer \<and> u_oidc_subject u = Some subject) (d_users d)))"

definition create_oidc_user :: "string \<Rightarrow> string \<Rightarrow> string \<Rightarrow> string \<Rightarrow> (db, unit) prog" where
  "create_oidc_user name issuer subject role =
     (let role = (if role \<noteq> ''admin'' \<and> role \<noteq> ''operator'' then ''operator'' else role) in
      unitP (''create oidc user '' @ quoted name @ '': '')
        (insert_user name (new_user name '''' role False (Some subject) (Some issuer))))"

definition create_user :: "(string \<Rightarrow> string result) \<Rightarrow> string \<Rightarrow> string \<Rightarrow> string \<Rightarrow> (db, unit) prog" where
  "create_user gen name password role =
     (if role \<noteq> ''admin'' \<and> role \<noteq> ''operator'' then failP (ErrText (''invalid role '' @ quoted role))
      else bindP (liftP (wrap_res ''hash password: '' (gen password))) (\<lambda>hash.
        unitP (''create user '' @ quoted name @ '': '')
          (insert_user name (new_user name hash role True None None))))"

definition set_user_password :: "(string \<Rightarrow> string result) \<Rightarrow> string \<Rightarrow> string \<Rightarrow> (db, unit) prog" where
  "set_user_password gen name password =
     bindP (liftP (wrap_res ''hash password: '' (gen password))) (\<lambda>hash.
       some_row (''set password for '' @ quoted name @ '': '')
         (update_user name (\<lambda>_ u. u\<lparr>u_hash := hash, u_must_change := False\<rparr>)))"

definition admin_reset_user_password :: "(string \<Rightarrow> string result) \<Rightarrow> string \<Rightarrow> string \<Rightarrow> (db, unit) prog" where
  "admin_reset_user_password gen name password =
     bindP (liftP (wrap_res ''hash password: '' (gen password))) (\<lambda>hash.
       some_row (''reset password for '' @ quoted name @ '': '')
         (update_user name (\<lambda>_ u. u\<lparr>u_hash := hash, u_must_change := True\<rparr>)))"

text \<open>The check both \<^verbatim>\<open>SetUserRole\<close> and \<^verbatim>\<open>DeleteUser\<close> make inside their transaction.\<close>

definition load_role :: "string \<Rightarrow> (db, string) prog" where
  "load_role name = one_row (''load user '' @ quoted name @ '': '') (\<lambda>d. map_option u_role (find_user d name))"

definition refuse_last_admin :: "bool \<Rightarrow> (db, unit) prog" where
  "refuse_last_admin removes =
     (if removes then
        bindP (wrapP ''count admins: '' (select (\<lambda>d. count_where (\<lambda>u. u_role u = ''admin'') (d_users d)))) (\<lambda>n.
          if n \<le> 1 then failP ErrLastAdmin else okP ())
      else okP ())"

definition set_user_role :: "string \<Rightarrow> string \<Rightarrow> (db, unit) prog" where
  "set_user_role name role =
     (if role \<noteq> ''admin'' \<and> role \<noteq> ''operator'' then failP (ErrText (''invalid role '' @ quoted role))
      else tx (''set role for '' @ quoted name @ '': '') '''' (
        bindP (load_role name) (\<lambda>current.
        bindP (refuse_last_admin (current = ''admin'' \<and> role \<noteq> ''admin'')) (\<lambda>_.
        unitP (''set role for '' @ quoted name @ '': '') (update_user name (\<lambda>_ u. u\<lparr>u_role := role\<rparr>))))))"

definition delete_user :: "string \<Rightarrow> (db, unit) prog" where
  "delete_user name =
     tx (''delete user '' @ quoted name @ '': '') '''' (
       bindP (load_role name) (\<lambda>role.
       bindP (refuse_last_admin (role = ''admin'')) (\<lambda>_.
       bindP (unitP (''delete user '' @ quoted name @ '': '')
         (del d_users d_users_update (\<lambda>_ u. u_name u = name))) (\<lambda>_.
       unitP (''delete sessions for '' @ quoted name @ '': '')
         (del d_sessions d_sessions_update (\<lambda>_ s. s_user s = name))))))"

section \<open>Sessions\<close>

definition session_ttl :: int where
  "session_ttl = 7 * 24 * 3600"

definition create_session :: "string \<Rightarrow> (db, string) prog" where
  "create_session name =
     bindP (unitP ''sweep expired sessions: ''
       (del d_sessions d_sessions_update (\<lambda>d s. s_expires s < d_now d))) (\<lambda>_.
     bindP draw (\<lambda>token.
     bindP (unitP ''create session: ''
       (ins d_sessions d_sessions_update [(''sessions.token'', \<lambda>s. s_token s = token)]
          (\<lambda>d. \<lparr>s_token = token, s_user = name, s_created = d_now d, s_expires = d_now d + session_ttl\<rparr>))) (\<lambda>_.
     okP token)))"

definition get_session_username :: "string \<Rightarrow> (db, string option) prog" where
  "get_session_username token =
     wrapP ''get session: ''
       (select (\<lambda>d. map_option s_user (find (\<lambda>s. s_token s = token \<and> d_now d < s_expires s) (d_sessions d))))"

definition delete_session :: "string \<Rightarrow> (db, unit) prog" where
  "delete_session token =
     unitP ''delete session: '' (del d_sessions d_sessions_update (\<lambda>_ s. s_token s = token))"

section \<open>The audit trail\<close>

definition record_audit :: "string \<Rightarrow> string \<Rightarrow> string \<Rightarrow> string \<Rightarrow> (db, unit) prog" where
  "record_audit name action target detail =
     unitP ''record audit entry: ''
       (exec (\<lambda>d. ((), d\<lparr>d_audit := d_audit d @
            [\<lparr>a_id = d_audit_next d, a_user = name, a_action = action, a_target = target,
              a_detail = detail, a_created = d_now d\<rparr>],
          d_audit_next := d_audit_next d + 1\<rparr>)))"

definition list_audit :: "nat \<Rightarrow> (db, audit_row list) prog" where
  "list_audit limit =
     wrapP ''list audit entries: '' (select (\<lambda>d. take limit (rev (sort_key a_id (d_audit d)))))"

definition set_audit_retention :: "string \<Rightarrow> int \<Rightarrow> (db, unit) prog" where
  "set_audit_retention category days =
     unitP (''set audit retention for '' @ quoted category @ '': '')
       (exec (\<lambda>d. ((), d\<lparr>d_retention := put_assoc category days (d_retention d)\<rparr>)))"

definition get_audit_retention_all :: "(db, (string \<times> int) list) prog" where
  "get_audit_retention_all = wrapP ''list audit retention: '' (select d_retention)"

text \<open>
  SQLite's \<^verbatim>\<open>LIKE\<close>: \<open>%\<close> is any text, \<open>_\<close> any character, letters compare without case.
\<close>

fun sql_like :: "string \<Rightarrow> string \<Rightarrow> bool" where
  "sql_like [] s \<longleftrightarrow> s = []"
| "sql_like (c # p) [] \<longleftrightarrow> c = CHR ''%'' \<and> sql_like p []"
| "sql_like (c # p) (x # s) \<longleftrightarrow>
     (if c = CHR ''%'' then sql_like p (x # s) \<or> sql_like (c # p) s
      else (c = CHR ''_'' \<or> lower_char c = lower_char x) \<and> sql_like p s)"

definition prune_audit_older_than :: "string \<Rightarrow> int \<Rightarrow> (db, nat) prog" where
  "prune_audit_older_than category cutoff =
     wrapP (''prune audit log for '' @ quoted category @ '': '')
       (del d_audit d_audit_update (\<lambda>_ a.
          (a_action a = category \<or> sql_like (category @ ''.%'') (a_action a)) \<and> a_created a < cutoff))"

section \<open>There is always an administrator\<close>

definition admin_inv :: "db \<Rightarrow> bool" where
  "admin_inv d \<longleftrightarrow> distinct (map u_name (d_users d)) \<and> (\<exists>u\<in>set (d_users d). u_role u = ''admin'')"

lemma table_inv_admin [intro]: "table_inv admin_inv"
  by (rule table_invI) (simp_all add: admin_inv_def)

lemma keeps_admin_insert: "keeps admin_inv (insert_user name (new_user name hash role must sub iss))"
  unfolding insert_user_def
  by (rule keeps_ins) (auto simp: admin_inv_def first_clash_None user_exists_def new_user_def)

lemma admin_inv_update:
  assumes "admin_inv d" and "\<And>u. u_name (f u) = u_name u" and "\<And>u. u_role (f u) = u_role u"
  shows "admin_inv (d_users_update (update_where P f) d)"
proof -
  have "map u_name (update_where P f (d_users d)) = map u_name (d_users d)"
    "u_role ` set (update_where P f (d_users d)) = u_role ` set (d_users d)"
    using assms by (simp_all add: map_update_where image_update_where)
  moreover have "admin_inv d \<longleftrightarrow> distinct (map u_name (d_users d)) \<and> ''admin'' \<in> u_role ` set (d_users d)" for d
    by (force simp: admin_inv_def)
  ultimately show ?thesis using assms(1) by simp
qed

lemma keeps_admin_update:
  assumes "\<And>d u. u_name (f d u) = u_name u" and "\<And>d u. u_role (f d u) = u_role u"
  shows "keeps admin_inv (update_user name f)"
  unfolding update_user_def by (rule keeps_upd) (auto intro!: admin_inv_update assms)

text \<open>What the transactions know once the last administrator is out of danger.\<close>

definition spare_admin :: "string \<Rightarrow> db \<Rightarrow> bool" where
  "spare_admin name d \<longleftrightarrow> distinct (map u_name (d_users d))
     \<and> (\<exists>u\<in>set (d_users d). u_role u = ''admin'' \<and> u_name u \<noteq> name)"

lemma table_inv_spare: "table_inv (spare_admin name)"
  by (rule table_invI) (simp_all add: spare_admin_def)

lemma two_admins:
  assumes "distinct (map u_name (d_users d))" and "1 < count_where (\<lambda>u. u_role u = ''admin'') (d_users d)"
  shows "spare_admin name d"
proof -
  let ?A = "filter (\<lambda>u. u_role u = ''admin'') (d_users d)"
  have "1 < length ?A" using assms(2) by (simp add: count_where_def)
  then obtain x y zs where A: "?A = x # y # zs" by (cases ?A; cases "tl ?A") auto
  have "distinct (map u_name ?A)" using assms(1) by (simp add: distinct_map_filter)
  then have "u_name x \<noteq> u_name y" unfolding A by auto
  moreover have "x \<in> set ?A" "y \<in> set ?A" unfolding A by auto
  ultimately show ?thesis using assms(1) by (auto simp: spare_admin_def)
qed

lemma load_role_triple:
  "triple admin_inv (load_role name)
     (\<lambda>r d. admin_inv d \<and> (case r of Inr role \<Rightarrow> map_option u_role (find_user d name) = Some role | Inl _ \<Rightarrow> True))"
  unfolding load_role_def
  by (rule triple_weaken [OF one_row_triple [OF table_inv_admin]]) (auto simp: find_user_def split: sum.splits)

lemma refuse_triple:
  "triple (\<lambda>d. admin_inv d \<and> map_option u_role (find_user d name) = Some role)
     (refuse_last_admin (role = ''admin'' \<and> removes))
     (\<lambda>r d. admin_inv d \<and> (case r of Inr _ \<Rightarrow> \<not> removes \<or> spare_admin name d | Inl _ \<Rightarrow> True))"
proof (cases "role = ''admin'' \<and> removes")
  case True
  let ?I = "\<lambda>d. admin_inv d \<and> map_option u_role (find_user d name) = Some role"
  let ?n = "\<lambda>d. count_where (\<lambda>u. u_role u = ''admin'') (d_users d)"
  have "table_inv ?I"
    by (rule table_invI) (simp_all add: admin_inv_def find_user_def)
  then have sel: "triple ?I (wrapP ''count admins: '' (select ?n))
      (\<lambda>r d. admin_inv d \<and> (case r of Inr n \<Rightarrow> n = ?n d | Inl _ \<Rightarrow> True))"
    by (intro wrapP_triple triple_weaken [OF select_triple]) (auto split: sum.splits)
  have step: "triple (\<lambda>d. admin_inv d \<and> (case Inr n of Inr n \<Rightarrow> n = ?n d | Inl _ \<Rightarrow> True))
      (if n \<le> 1 then failP ErrLastAdmin else okP ())
      (\<lambda>r d. admin_inv d \<and> (case r of Inr _ \<Rightarrow> \<not> removes \<or> spare_admin name d | Inl _ \<Rightarrow> True))" for n :: nat
    by (intro triple_if triple_failP triple_okP) (auto simp: admin_inv_def intro: two_admins)
  show ?thesis
    unfolding refuse_last_admin_def if_P [OF True]
    by (rule triple_bindP [OF sel]) (use step in auto)
next
  case False
  have "spare_admin name d" if d: "admin_inv d" "map_option u_role (find_user d name) = Some role" "role \<noteq> ''admin''" for d
  proof -
    from d(1) obtain u where u: "u \<in> set (d_users d)" "u_role u = ''admin''" by (auto simp: admin_inv_def)
    have "u_name u \<noteq> name"
    proof
      assume "u_name u = name"
      moreover from d(2) obtain v where v: "find_user d name = Some v" "u_role v = role" by auto
      then have "v \<in> set (d_users d)" "u_name v = name" by (auto simp: find_user_def find_Some_iff)
      ultimately have "u = v" using u(1) d(1) by (metis admin_inv_def distinct_map inj_onD)
      with u v d(3) show False by simp
    qed
    with u d(1) show ?thesis by (auto simp: spare_admin_def admin_inv_def)
  qed
  with False show ?thesis
    unfolding refuse_last_admin_def if_not_P [OF False] by (intro triple_okP) auto
qed

lemma spare_after_role:
  assumes "spare_admin name d"
  shows "admin_inv (d_users_update (update_where (\<lambda>u. u_name u = name) (\<lambda>u. u\<lparr>u_role := role\<rparr>)) d)"
proof -
  have "map u_name (update_where (\<lambda>u. u_name u = name) (\<lambda>u. u\<lparr>u_role := role\<rparr>) (d_users d)) = map u_name (d_users d)"
    by (rule map_update_where) simp
  moreover from assms obtain u where "u \<in> set (d_users d)" "u_role u = ''admin''" "u_name u \<noteq> name"
    by (auto simp: spare_admin_def)
  then have "u \<in> set (update_where (\<lambda>u. u_name u = name) (\<lambda>u. u\<lparr>u_role := role\<rparr>) (d_users d))"
    by (auto simp: in_update_where intro!: bexI [of _ u])
  ultimately show ?thesis using assms \<open>u_role u = ''admin''\<close> by (auto simp: admin_inv_def spare_admin_def)
qed

lemma spare_after_delete:
  "spare_admin name d \<Longrightarrow> admin_inv (d_users_update (delete_where (\<lambda>u. u_name u = name)) d)"
  by (auto simp: spare_admin_def admin_inv_def delete_where_def distinct_map_filter)

lemma admin_after_upsert:
  assumes "admin_inv d"
  shows "admin_inv (d_users_update (update_where (\<lambda>u. u_name u = name) (\<lambda>u. u\<lparr>u_role := ''admin''\<rparr>)) d)"
proof -
  from assms obtain u where u: "u \<in> set (d_users d)" "u_role u = ''admin''" by (auto simp: admin_inv_def)
  let ?u = "if u_name u = name then u\<lparr>u_role := ''admin''\<rparr> else u"
  have "?u \<in> set (update_where (\<lambda>u. u_name u = name) (\<lambda>u. u\<lparr>u_role := ''admin''\<rparr>) (d_users d))"
    using u(1) by (auto simp: in_update_where)
  moreover have "u_role ?u = ''admin''" using u(2) by simp
  ultimately have "\<exists>v\<in>set (update_where (\<lambda>u. u_name u = name) (\<lambda>u. u\<lparr>u_role := ''admin''\<rparr>) (d_users d)). u_role v = ''admin''"
    by blast
  then show ?thesis using assms by (simp add: admin_inv_def map_update_where)
qed

lemma keeps_role_change:
  assumes "role = ''admin'' \<or> role = ''operator''"
  shows "keeps admin_inv (set_user_role name role)"
proof -
  let ?w = "\<lambda>u. u_name u = name" and ?f = "\<lambda>u. u\<lparr>u_role := role\<rparr>"
  have upd: "triple (\<lambda>d. admin_inv d \<and> (role \<noteq> ''admin'' \<longrightarrow> spare_admin name d))
      (update_user name (\<lambda>_ u. u\<lparr>u_role := role\<rparr>)) (\<lambda>_. admin_inv)"
    unfolding update_user_def upd_def
  proof (rule exec_triple)
    show "table_inv (\<lambda>d. admin_inv d \<and> (role \<noteq> ''admin'' \<longrightarrow> spare_admin name d))"
      by (rule table_invI) (simp_all add: admin_inv_def spare_admin_def)
    show "admin_inv (snd (count_where ?w (d_users d), d_users_update (update_where ?w ?f) d))"
      if "admin_inv d \<and> (role \<noteq> ''admin'' \<longrightarrow> spare_admin name d)" for d
      using that assms admin_after_upsert spare_after_role by fastforce
  qed simp
  have body: "triple admin_inv (bindP (load_role name) (\<lambda>current.
        bindP (refuse_last_admin (current = ''admin'' \<and> role \<noteq> ''admin'')) (\<lambda>_.
        unitP pre (update_user name (\<lambda>_ u. u\<lparr>u_role := role\<rparr>))))) (\<lambda>_. admin_inv)" for pre
  proof (rule triple_bindP [OF load_role_triple])
    fix current
    show "triple (\<lambda>d. admin_inv d \<and> (case Inr current of Inr r \<Rightarrow> map_option u_role (find_user d name) = Some r | Inl _ \<Rightarrow> True))
        (bindP (refuse_last_admin (current = ''admin'' \<and> role \<noteq> ''admin'')) (\<lambda>_.
          unitP pre (update_user name (\<lambda>_ u. u\<lparr>u_role := role\<rparr>)))) (\<lambda>_. admin_inv)"
      unfolding sum.case
      by (rule triple_bindP [OF refuse_triple])
         (auto simp: unitP_def intro!: triple_bindP [OF wrapP_triple] triple_weaken [OF upd] triple_okP split: sum.splits)
  qed simp
  have ne: "\<not> (role \<noteq> ''admin'' \<and> role \<noteq> ''operator'')" using assms by blast
  show ?thesis
    unfolding set_user_role_def if_not_P [OF ne]
    by (intro keeps_tx table_inv_admin) (simp only: triple_keeps body)
qed

lemma keeps_set_user_role: "keeps admin_inv (set_user_role name role)"
proof (cases "role = ''admin'' \<or> role = ''operator''")
  case True then show ?thesis by (rule keeps_role_change)
next
  case False
  then have ne: "role \<noteq> ''admin'' \<and> role \<noteq> ''operator''" by blast
  show ?thesis unfolding set_user_role_def if_P [OF ne] by (rule keeps_failP)
qed

lemma keeps_delete_user: "keeps admin_inv (delete_user name)"
proof -
  have delu: "triple (spare_admin name) (del d_users d_users_update (\<lambda>_ u. u_name u = name)) (\<lambda>_. admin_inv)"
    unfolding del_def
  proof (rule exec_triple [OF table_inv_spare])
    show "admin_inv d" if "spare_admin name d" for d
      using that by (auto simp: spare_admin_def admin_inv_def)
  qed (simp add: spare_after_delete)
  have dels: "keeps admin_inv (del d_sessions d_sessions_update (\<lambda>_ s. s_user s = name))"
    by (rule keeps_del) (auto simp: admin_inv_def)
  have rest: "triple (\<lambda>d. admin_inv d \<and> spare_admin name d)
      (bindP (unitP a (del d_users d_users_update (\<lambda>_ u. u_name u = name))) (\<lambda>_.
         unitP b (del d_sessions d_sessions_update (\<lambda>_ s. s_user s = name)))) (\<lambda>_. admin_inv)" for a b
  proof (rule triple_bindP)
    show "triple (\<lambda>d. admin_inv d \<and> spare_admin name d)
        (unitP a (del d_users d_users_update (\<lambda>_ u. u_name u = name))) (\<lambda>_. admin_inv)"
      by (auto simp: unitP_def intro!: triple_bindP [OF wrapP_triple] triple_weaken [OF delu] triple_okP split: sum.splits)
    show "triple admin_inv (unitP b (del d_sessions d_sessions_update (\<lambda>_ s. s_user s = name))) (\<lambda>_. admin_inv)"
      using keeps_unitP [OF dels] by (simp only: triple_keeps)
  qed
  have "triple admin_inv (bindP (load_role name) (\<lambda>role. bindP (refuse_last_admin (role = ''admin'')) (\<lambda>_.
      bindP (unitP a (del d_users d_users_update (\<lambda>_ u. u_name u = name))) (\<lambda>_.
         unitP b (del d_sessions d_sessions_update (\<lambda>_ s. s_user s = name)))))) (\<lambda>_. admin_inv)" for a b
  proof (rule triple_bindP [OF load_role_triple])
    fix role
    show "triple (\<lambda>d. admin_inv d \<and> (case Inr role of Inr r \<Rightarrow> map_option u_role (find_user d name) = Some r | Inl _ \<Rightarrow> True))
      (bindP (refuse_last_admin (role = ''admin'')) (\<lambda>_.
        bindP (unitP a (del d_users d_users_update (\<lambda>_ u. u_name u = name))) (\<lambda>_.
         unitP b (del d_sessions d_sessions_update (\<lambda>_ s. s_user s = name))))) (\<lambda>_. admin_inv)"
      unfolding sum.case
      by (rule triple_bindP [OF refuse_triple [where removes = True, unfolded simp_thms]])
         (auto intro: triple_weaken [OF rest])
  qed simp
  then show ?thesis
    unfolding delete_user_def by (intro keeps_tx table_inv_admin) (simp only: triple_keeps)
qed

section \<open>Operations on accounts and sessions\<close>

datatype user_op =
    EnsureFirstUser string string
  | CreateUser string string string
  | CreateOIDCUser string string string string
  | SetUserPassword string string
  | AdminResetUserPassword string string
  | SetUserRole string string
  | DeleteUser string
  | TouchUserLogin string
  | CreateSession string
  | DeleteSession string
  | RecordAudit string string string string
  | PruneAudit string int
  | Elapse nat

fun user_call :: "(string \<Rightarrow> string result) \<Rightarrow> user_op \<Rightarrow> (db, unit) prog" where
  "user_call gen (EnsureFirstUser n p) = ensure_first_user gen n p"
| "user_call gen (CreateUser n p r) = create_user gen n p r"
| "user_call gen (CreateOIDCUser n i s r) = create_oidc_user n i s r"
| "user_call gen (SetUserPassword n p) = set_user_password gen n p"
| "user_call gen (AdminResetUserPassword n p) = admin_reset_user_password gen n p"
| "user_call gen (SetUserRole n r) = set_user_role n r"
| "user_call gen (DeleteUser n) = delete_user n"
| "user_call gen (TouchUserLogin n) = touch_user_login n"
| "user_call gen (CreateSession n) = ignoreP (create_session n)"
| "user_call gen (DeleteSession t) = delete_session t"
| "user_call gen (RecordAudit n a t x) = record_audit n a t x"
| "user_call gen (PruneAudit c t) = ignoreP (prune_audit_older_than c t)"
| "user_call gen (Elapse n) = modP (\<lambda>d. d\<lparr>d_now := d_now d + int n\<rparr>)"

lemma keeps_admin_create_session: "keeps admin_inv (create_session n)"
  unfolding create_session_def
  by (intro keeps_intros keeps_del keeps_ins keeps_draw table_inv_admin) (auto simp: admin_inv_def)

lemma keeps_admin_inv: "keeps admin_inv (user_call gen x)"
proof (cases x)
  case (EnsureFirstUser n p)
  show ?thesis
    unfolding EnsureFirstUser user_call.simps ensure_first_user_def
    by (intro keeps_intros keeps_admin_insert table_inv_admin)
next
  case (CreateOIDCUser n i s r)
  show ?thesis
    unfolding CreateOIDCUser user_call.simps create_oidc_user_def Let_def
    by (intro keeps_intros keeps_admin_insert)
next
  case (CreateUser n p r)
  show ?thesis unfolding CreateUser user_call.simps create_user_def by (intro keeps_intros keeps_admin_insert)
next
  case (SetUserPassword n p)
  show ?thesis
    unfolding SetUserPassword user_call.simps set_user_password_def by (intro keeps_intros keeps_admin_update) simp_all
next
  case (AdminResetUserPassword n p)
  show ?thesis
    unfolding AdminResetUserPassword user_call.simps admin_reset_user_password_def
    by (intro keeps_intros keeps_admin_update) simp_all
next
  case (TouchUserLogin n)
  show ?thesis
    unfolding TouchUserLogin user_call.simps touch_user_login_def by (intro keeps_intros keeps_admin_update) simp_all
next
  case (DeleteSession t)
  show ?thesis
    unfolding DeleteSession user_call.simps delete_session_def
    by (intro keeps_intros keeps_del table_inv_admin) (simp add: admin_inv_def)
next
  case (RecordAudit n a t x)
  show ?thesis
    unfolding RecordAudit user_call.simps record_audit_def
    by (intro keeps_intros keeps_exec table_inv_admin) (simp add: admin_inv_def)
next
  case (PruneAudit c t)
  show ?thesis
    unfolding PruneAudit user_call.simps prune_audit_older_than_def wrapP_def
    by (intro keeps_intros keeps_del table_inv_admin) (simp add: admin_inv_def)
next
  case (Elapse n)
  show ?thesis unfolding Elapse user_call.simps by (rule keeps_modP) (simp add: admin_inv_def)
qed (simp_all add: keeps_set_user_role keeps_delete_user keeps_ignoreP keeps_admin_create_session)

text \<open>The first start: no account yet, and at most one row of the table the accounts replaced.\<close>

lemma first_user_admin:
  assumes "ensure_first_user gen name password d = (Inr (), d')" and "d_users d = [] \<or> admin_inv d"
  shows "admin_inv d'"
proof -
  have ins: "admin_inv e'" if "insert_user n (new_user n h ''admin'' m None None) e = (Inr (), e')" "d_users e = []" for n h m e e'
    using that by (auto simp: insert_user_def ins_def admin_inv_def new_user_def elim!: exec_checked_cases)
  show ?thesis
  proof (cases "admin_inv d")
    case True
    then show ?thesis
      using keepsE [OF keeps_admin_inv [of gen "EnsureFirstUser name password"]] assms(1) by simp
  next
    case False
    with assms(2) have nil: "d_users d = []" by simp
    show ?thesis
      using assms(1) nil unfolding ensure_first_user_def
      by (auto simp: bindP_Inr wrapP_Inr unitP_Inr select_state prog_simps split: option.splits prod.splits
          elim!: select_cases ins)
  qed
qed

text \<open>
  C10 last_admin.  Once the server has started (\<^verbatim>\<open>EnsureFirstUser\<close> succeeded on a database without
  accounts), there is an administrator after any operations on accounts, sessions and the audit
  trail, whatever the database refuses: roles are not taken from, and accounts not deleted of, the
  last one.
\<close>

theorem last_admin:
  assumes "ensure_first_user gen name password d = (Inr (), d')" and "d_users d = []"
  shows "\<exists>u\<in>set (d_users (run_all (map (user_call gen) ops) d')). u_role u = ''admin''"
proof -
  have "admin_inv d'" using first_user_admin assms by blast
  then have "admin_inv (run_all (map (user_call gen) ops) d')"
    by (rule run_all_keeps [rotated]) (auto intro: keeps_admin_inv)
  then show ?thesis by (simp add: admin_inv_def)
qed

lemma last_admin_witness:
  "\<exists>u\<in>set (d_users (run_all (map (user_call (\<lambda>p. Inr (''#'' @ p)))
      [CreateUser ''bob'' ''pw'' ''admin'', DeleteUser ''root'', SetUserRole ''bob'' ''operator''])
      (snd (ensure_first_user (\<lambda>p. Inr (''#'' @ p)) ''root'' ''pw'' (empty_db 0 (\<lambda>_. '''')))))). u_role u = ''admin''"
  by (rule last_admin [OF run_eqI]) code_simp+

lemma delete_user_clears:
  assumes "delete_user name d = (Inr (), d')"
  shows "\<forall>s\<in>set (d_sessions d'). s_user s \<noteq> name"
proof -
  obtain fs d1 gs where body: "bindP (load_role name) (\<lambda>role.
       bindP (refuse_last_admin (role = ''admin'')) (\<lambda>_.
       bindP (unitP (''delete user '' @ quoted name @ '': '')
         (del d_users d_users_update (\<lambda>_ u. u_name u = name))) (\<lambda>_.
       unitP (''delete sessions for '' @ quoted name @ '': '')
         (del d_sessions d_sessions_update (\<lambda>_ s. s_user s = name))))) (d\<lparr>d_faults := fs\<rparr>) = (Inr (), d1)"
    and d': "d' = d1\<lparr>d_faults := gs\<rparr>"
    using tx_Inr [OF assms [unfolded delete_user_def]] by blast
  from body obtain n e where "del d_sessions d_sessions_update (\<lambda>_ s. s_user s = name) e = (Inr n, d1)"
    unfolding bindP_Inr unitP_Inr by blast
  then have "\<forall>s\<in>set (d_sessions d1). s_user s \<noteq> name"
    by (cases rule: del_cases) (auto simp: delete_where_def)
  then show ?thesis by (simp add: d')
qed

lemma locked_out_kept:
  assumes "x \<noteq> CreateSession name"
  shows "keeps (\<lambda>d. \<forall>s\<in>set (d_sessions d). s_user s \<noteq> name) (user_call gen x)"
proof -
  let ?I = "\<lambda>d. \<forall>s\<in>set (d_sessions d). s_user s \<noteq> name"
  have tab: "table_inv ?I" by (rule table_invI) simp_all
  have ins: "keeps ?I (insert_user n u)" for n u
    unfolding insert_user_def by (rule keeps_ins [OF tab]) simp
  have upd: "keeps ?I (update_user n f)" for n f
    unfolding update_user_def by (rule keeps_upd [OF tab]) simp
  have delu: "keeps ?I (del d_users d_users_update P)" for P
    by (rule keeps_del [OF tab]) simp
  have dels: "keeps ?I (del d_sessions d_sessions_update P)" for P
    by (rule keeps_del [OF tab]) (auto simp: delete_where_def)
  have cs: "keeps ?I (create_session n)" if "n \<noteq> name" for n
    unfolding create_session_def using that
    by (intro keeps_intros keeps_draw tab dels keeps_ins) auto
  note rules = keeps_intros tab ins upd delu dels
  show ?thesis
  proof (cases x)
    case (CreateSession n) then show ?thesis using assms by (simp add: cs keeps_ignoreP)
  next
    case (RecordAudit n a t c)
    show ?thesis unfolding RecordAudit user_call.simps record_audit_def by (intro keeps_intros keeps_exec tab) simp
  next
    case (PruneAudit c t)
    show ?thesis unfolding PruneAudit user_call.simps prune_audit_older_than_def wrapP_def
      by (intro keeps_intros keeps_del tab) simp
  next
    case (Elapse n) show ?thesis unfolding Elapse user_call.simps by (rule keeps_modP) simp
  qed (simp_all only: user_call.simps ensure_first_user_def create_user_def create_oidc_user_def Let_def
      set_user_password_def admin_reset_user_password_def set_user_role_def delete_user_def load_role_def
      refuse_last_admin_def touch_user_login_def delete_session_def, (intro rules)+)
qed

text \<open>
  After an account was deleted, no session token resolves to its name,
  through any operations and failures that do not create a session for that name.
\<close>

theorem deleted_user_locked_out:
  assumes "delete_user name d = (Inr (), d1)" and "CreateSession name \<notin> set ops"
  shows "fst (get_session_username token (run_all (map (user_call gen) ops) d1)) \<noteq> Inr (Some name)"
proof -
  let ?I = "\<lambda>d. \<forall>s\<in>set (d_sessions d). s_user s \<noteq> name"
  have fin: "?I (run_all (map (user_call gen) ops) d1)"
    by (rule run_all_keeps [where I = ?I, OF _ delete_user_clears [OF assms(1)]])
       (use assms(2) in \<open>auto intro!: locked_out_kept\<close>)
  have miss: "fst (get_session_username token e) \<noteq> Inr (Some name)" if I: "?I e" for e
  proof
    assume "fst (get_session_username token e) = Inr (Some name)"
    then obtain e' where "get_session_username token e = (Inr (Some name), e')" by (metis prod.collapse)
    then have "select (\<lambda>d. map_option s_user (find (\<lambda>s. s_token s = token \<and> d_now d < s_expires s) (d_sessions d))) e = (Inr (Some name), e')"
      by (simp add: get_session_username_def)
    then show False
      by (cases rule: select_cases) (use I find_in in \<open>fastforce dest!: sym [of "Some name"]\<close>)+
  qed
  show ?thesis by (rule miss [OF fin])
qed

definition users_example :: db where
  "users_example = run_all (map (user_call (\<lambda>p. Inr (''#'' @ p)))
     [EnsureFirstUser ''root'' ''pw'', CreateUser ''bob'' ''pw'' ''operator'', CreateSession ''bob'', CreateSession ''root''])
     (empty_db 0 (\<lambda>n. replicate n CHR ''a''))"

lemma deleted_user_locked_out_witness:
  "fst (get_session_username '''' users_example) = Inr (Some ''bob'')
   \<and> fst (get_session_username '''' (run_all (map (user_call (\<lambda>p. Inr p)) [CreateSession ''root'', DeleteSession ''a''])
        (snd (delete_user ''bob'' users_example)))) \<noteq> Inr (Some ''bob'')"
  by (rule conjI, code_simp, rule deleted_user_locked_out [OF run_eqI]) code_simp+

text \<open>
  A session just created resolves to its user for seven days, and no longer.
\<close>

theorem session_lifetime:
  assumes "create_session name d = (Inr token, d1)"
  shows "fst (get_session_username token (d1\<lparr>d_now := t, d_faults := []\<rparr>))
           = Inr (if t < d_now d + session_ttl then Some name else None)"
proof -
  let ?new = "\<lambda>d. \<lparr>s_token = token, s_user = name, s_created = d_now d, s_expires = d_now d + session_ttl\<rparr>"
  from assms obtain n e1 e2 where sweep: "del d_sessions d_sessions_update (\<lambda>d s. s_expires s < d_now d) d = (Inr n, e1)"
    and draw: "draw e1 = (Inr token, e2)"
    and new: "ins d_sessions d_sessions_update [(''sessions.token'', \<lambda>s. s_token s = token)] ?new e2 = (Inr (), d1)"
    by (auto simp: create_session_def bindP_Inr unitP_Inr)
  from sweep have now1: "d_now e1 = d_now d" by (cases rule: del_cases) simp_all
  from draw have now2: "d_now e2 = d_now e1" by (auto simp: draw_def)
  from new have row: "d_sessions d1 = d_sessions e2 @ [?new d]" and fresh: "\<forall>s\<in>set (d_sessions e2). s_token s \<noteq> token"
    by (cases rule: ins_cases; use now1 now2 in \<open>auto simp: first_clash_None\<close>)+
  have none: "find (\<lambda>s. s_token s = token \<and> t < s_expires s) (d_sessions e2) = None"
    using fresh by (auto simp: find_None_iff)
  then have "find (\<lambda>s. s_token s = token \<and> t < s_expires s) (d_sessions d1)
      = (if t < d_now d + session_ttl then Some (?new d) else None)"
    unfolding row by (simp add: find_append)
  then show ?thesis
    by (simp add: get_session_username_def wrapP_def tryP_def select_def stmt_def)
qed

lemma session_lifetime_witness:
  "fst (get_session_username ''aa'' ((snd (create_session ''root'' users_example))\<lparr>d_now := 604799, d_faults := []\<rparr>))
     = Inr (Some ''root'')"
proof -
  have "fst (create_session ''root'' users_example) = Inr ''aa''" by code_simp
  from session_lifetime [OF run_eqI, OF this, of 604799] show ?thesis
    by (rule trans) code_simp
qed

end
