(* ===== verification/Store_Backups.thy ===== *)
theory Store_Backups
  imports Store_Schema
begin

text \<open>
  Volume backups in the database, \<^verbatim>\<open>src/internal/store/backups.go\<close>: destinations, jobs, runs and what
  was last seen of the repositories.  The outcome of a run is recorded once.
\<close>

section \<open>Destinations\<close>

definition retention_none :: "retention_policy \<Rightarrow> bool" where
  "retention_none r \<longleftrightarrow> rp_keep_last r \<le> 0 \<and> rp_keep_daily r \<le> 0 \<and> rp_keep_weekly r \<le> 0 \<and> rp_keep_monthly r \<le> 0"

definition run_finished :: "backup_run \<Rightarrow> bool" where
  "run_finished r \<longleftrightarrow> br_status r \<noteq> ''running''"

definition create_backup_destination :: "backup_destination \<Rightarrow> (db, unit) prog" where
  "create_backup_destination x =
     unitP ''create backup destination: ''
       (ins d_destinations d_destinations_update
          [(''backup_destinations.id'', \<lambda>r. bd_id r = bd_id x), (''backup_destinations.name'', \<lambda>r. bd_name r = bd_name x)]
          (\<lambda>d. x\<lparr>bd_created := d_now d\<rparr>))"

definition update_backup_destination :: "string \<Rightarrow> string \<Rightarrow> (string \<times> string) list \<Rightarrow> (db, unit) prog" where
  "update_backup_destination i name config =
     some_row ''update backup destination: ''
       (upd_unique d_destinations d_destinations_update [(''backup_destinations.name'', \<lambda>r. bd_name r = name)]
          (\<lambda>r. bd_id r = i) (\<lambda>r. bd_id r = i) (\<lambda>r. r\<lparr>bd_name := name, bd_config := config\<rparr>))"

definition get_backup_destination :: "string \<Rightarrow> (db, backup_destination) prog" where
  "get_backup_destination i =
     one_row ''get backup destination: '' (\<lambda>d. find (\<lambda>r. bd_id r = i) (d_destinations d))"

definition list_backup_destinations :: "(db, backup_destination list) prog" where
  "list_backup_destinations =
     wrapP ''list backup destinations: '' (select (\<lambda>d. sort_key bd_name (d_destinations d)))"

definition list_backup_jobs :: "(db, backup_job list) prog" where
  "list_backup_jobs = wrapP ''list backup jobs: '' (select (\<lambda>d. sort_key bj_name (d_jobs d)))"

definition clear_backup_repo_states :: "string \<Rightarrow> (db, unit) prog" where
  "clear_backup_repo_states dest =
     unitP ''clear repository states: '' (del d_repos d_repos_update (\<lambda>_ r. bp_destination r = dest))"

definition delete_backup_destination :: "string \<Rightarrow> (db, unit) prog" where
  "delete_backup_destination i =
     bindP list_backup_jobs (\<lambda>jobs.
       let users = map bj_name (filter (\<lambda>j. bj_destination j = i) jobs) in
       if users \<noteq> [] then failP (ErrText (''still used by: '' @ join_with '', '' users))
       else bindP (unitP ''delete backup destination: '' (del d_destinations d_destinations_update (\<lambda>_ r. bd_id r = i)))
              (\<lambda>_. clear_backup_repo_states i))"

section \<open>Jobs\<close>

definition create_backup_job :: "backup_job \<Rightarrow> (db, unit) prog" where
  "create_backup_job j =
     unitP ''create backup job: ''
       (ins d_jobs d_jobs_update
          [(''backup_jobs.id'', \<lambda>r. bj_id r = bj_id j), (''backup_jobs.name'', \<lambda>r. bj_name r = bj_name j)]
          (\<lambda>d. j\<lparr>bj_created := d_now d\<rparr>))"

definition update_backup_job :: "backup_job \<Rightarrow> (db, unit) prog" where
  "update_backup_job j =
     some_row ''update backup job: ''
       (upd_unique d_jobs d_jobs_update [(''backup_jobs.name'', \<lambda>r. bj_name r = bj_name j)]
          (\<lambda>r. bj_id r = bj_id j) (\<lambda>r. bj_id r = bj_id j) (\<lambda>r. j\<lparr>bj_created := bj_created r\<rparr>))"

definition get_backup_job :: "string \<Rightarrow> (db, backup_job) prog" where
  "get_backup_job i = one_row ''get backup job: '' (\<lambda>d. find (\<lambda>r. bj_id r = i) (d_jobs d))"

definition delete_backup_job :: "string \<Rightarrow> (db, unit) prog" where
  "delete_backup_job i =
     bindP (unitP ''delete backup runs: '' (del d_runs d_runs_update (\<lambda>_ r. br_job r = i))) (\<lambda>_.
       unitP ''delete backup job: '' (del d_jobs d_jobs_update (\<lambda>_ r. bj_id r = i)))"

section \<open>Runs\<close>

definition create_backup_run :: "backup_run \<Rightarrow> (db, unit) prog" where
  "create_backup_run x =
     unitP ''create backup run: ''
       (ins d_runs d_runs_update [(''backup_runs.id'', \<lambda>r. br_id r = br_id x)]
          (\<lambda>d. x\<lparr>br_results := [], br_started := d_now d, br_finished := None\<rparr>))"

definition running :: "string \<Rightarrow> backup_run \<Rightarrow> bool" where
  "running i r \<longleftrightarrow> br_id r = i \<and> br_status r = ''running''"

definition finish_backup_run ::
    "string \<Rightarrow> string \<Rightarrow> string \<Rightarrow> string \<Rightarrow> string \<Rightarrow> volume_result list \<Rightarrow> (db, bool) prog" where
  "finish_backup_run i status code message restored results =
     bindP (wrapP ''finish backup run: ''
       (upd d_runs d_runs_update (\<lambda>_ r. running i r)
          (\<lambda>d r. r\<lparr>br_status := status, br_code := code, br_message := message, br_restored := restored,
                  br_results := results, br_finished := Some (d_now d)\<rparr>)))
       (\<lambda>n. okP (n > 0))"

definition get_backup_run :: "string \<Rightarrow> (db, backup_run) prog" where
  "get_backup_run i = one_row ''get backup run: '' (\<lambda>d. find (\<lambda>r. br_id r = i) (d_runs d))"

definition list_backup_runs :: "string \<Rightarrow> nat \<Rightarrow> (db, backup_run list) prog" where
  "list_backup_runs job limit =
     wrapP ''list backup runs: ''
       (select (\<lambda>d. take limit (rev (sort_key br_started (filter (\<lambda>r. job = '''' \<or> br_job r = job) (d_runs d))))))"

definition running_backup_runs :: "(db, backup_run list) prog" where
  "running_backup_runs =
     wrapP ''list running backup runs: '' (select (\<lambda>d. filter (\<lambda>r. br_status r = ''running'') (d_runs d)))"

definition fail_stale_backup_runs :: "int \<Rightarrow> string \<Rightarrow> (db, nat) prog" where
  "fail_stale_backup_runs cutoff message =
     wrapP ''fail stale backup runs: ''
       (upd d_runs d_runs_update (\<lambda>_ r. br_status r = ''running'' \<and> br_started r < cutoff)
          (\<lambda>d r. r\<lparr>br_status := ''error'', br_code := ''LOST'', br_message := message, br_finished := Some (d_now d)\<rparr>))"

section \<open>Repositories\<close>

definition set_backup_repo_state :: "string \<Rightarrow> string \<Rightarrow> bool \<Rightarrow> (db, unit) prog" where
  "set_backup_repo_state dest hst ini =
     unitP ''record repository state: ''
       (ups d_repos d_repos_update (\<lambda>r. bp_destination r = dest \<and> bp_host r = hst)
          (\<lambda>d r. r\<lparr>bp_initialized := ini, bp_checked := d_now d\<rparr>)
          (\<lambda>d. \<lparr>bp_destination = dest, bp_host = hst, bp_initialized = ini, bp_checked = d_now d\<rparr>))"

text \<open>\<open>None\<close> when nothing is known of the repository.\<close>

definition backup_repo_state :: "string \<Rightarrow> string \<Rightarrow> (db, (bool \<times> int) option) prog" where
  "backup_repo_state dest hst =
     wrapP ''get repository state: ''
       (select (\<lambda>d. map_option (\<lambda>r. (bp_initialized r, bp_checked r))
          (find (\<lambda>r. bp_destination r = dest \<and> bp_host r = hst) (d_repos d))))"

section \<open>An outcome is recorded once\<close>

text \<open>A report that is recorded, for the run \<open>i\<close>; the code ignores a report that is not.\<close>

definition recorded :: "string \<Rightarrow> string \<times> string \<times> string \<times> string \<times> volume_result list \<Rightarrow> (db, unit) prog" where
  "recorded i a = (case a of (status, code, message, restored, results) \<Rightarrow>
     bindP (finish_backup_run i status code message restored results)
       (\<lambda>ok. if ok then okP () else failP ErrNotFound))"

definition final_status :: "string \<Rightarrow> bool" where
  "final_status s \<longleftrightarrow> s \<in> {''success'', ''warning'', ''error''}"

lemma finish_cases:
  assumes "finish_backup_run i status code message restored results d = (r, d')"
  obtains (error) e where "r = Inl e" "d_runs d' = d_runs d"
  | (run) t where "r = Inr (0 < count_where (running i) (d_runs d))"
      "d_runs d' = update_where (running i)
         (\<lambda>r. r\<lparr>br_status := status, br_code := code, br_message := message, br_restored := restored,
               br_results := results, br_finished := Some t\<rparr>) (d_runs d)"
proof -
  let ?u = "upd d_runs d_runs_update (\<lambda>_ r. running i r)
          (\<lambda>d r. r\<lparr>br_status := status, br_code := code, br_message := message, br_restored := restored,
                  br_results := results, br_finished := Some (d_now d)\<rparr>)"
  obtain r1 d1 where u: "?u d = (r1, d1)" by (cases "?u d")
  show ?thesis
  proof (cases rule: upd_cases [OF u])
    case (1 t fs)
    then show ?thesis
      using error u assms by (auto simp: finish_backup_run_def bindP_def tryP_def wrapP_def)
  next
    case (2 fs)
    then show ?thesis
      using run u assms by (auto simp: finish_backup_run_def bindP_def tryP_def wrapP_def)
  qed
qed

lemma finish_ends:
  assumes "finish_backup_run i status code message restored results d = (Inr True, d')"
    and "status \<noteq> ''running''"
  shows "\<exists>r\<in>set (d_runs d). running i r" and "\<forall>r\<in>set (d_runs d'). \<not> running i r"
  using assms(1)
  by (cases rule: finish_cases; use assms(2) in \<open>auto simp: count_where_def filter_empty_conv ball_update_where\<close>;
      auto simp: running_def)+

text \<open>
  The reports the code passes on have a final status: the interface of the guarded updates, for
  those.
\<close>

fun final_report :: "string \<times> string \<times> string \<times> string \<times> volume_result list \<Rightarrow> bool" where
  "final_report (status, _) = final_status status"

definition report_run :: "string \<Rightarrow> string \<times> string \<times> string \<times> string \<times> volume_result list \<Rightarrow> (db, unit) prog" where
  "report_run i a = (if final_report a then recorded i a else failP ErrNotFound)"

interpretation br: guarded_update d_runs "\<lambda>i _. running i" report_run
proof
  fix i d d' and x :: unit and a :: "string \<times> string \<times> string \<times> string \<times> volume_result list"
  obtain s c m t rs where a: "a = (s, c, m, t, rs)" by (cases a)
  assume "report_run i a d = (Inr x, d')"
  then have f: "finish_backup_run i s c m t rs d = (Inr True, d')" and s: "s \<noteq> ''running''"
    by (auto simp: a report_run_def recorded_def bindP_Inr final_status_def split: if_splits)
  show "\<not> no_live d_runs (\<lambda>i _. running i) i d"
    using finish_ends(1) [OF f s] by (auto simp: no_live_def)
  show "no_live d_runs (\<lambda>i _. running i) i d'"
    using finish_ends(2) [OF f s] by (auto simp: no_live_def)
qed

datatype backup_op =
    CreateRun backup_run
  | FinishRun string string string string string "volume_result list"
  | FailStaleRuns int string
  | DeleteJob string
  | SetRepoState string string bool
  | DeleteDestination string

fun backup_call :: "backup_op \<Rightarrow> (db, unit) prog" where
  "backup_call (CreateRun x) = create_backup_run x"
| "backup_call (FinishRun i s c m t rs) = ignoreP (finish_backup_run i s c m t rs)"
| "backup_call (FailStaleRuns cutoff m) = ignoreP (fail_stale_backup_runs cutoff m)"
| "backup_call (DeleteJob i) = delete_backup_job i"
| "backup_call (SetRepoState a b c) = set_backup_repo_state a b c"
| "backup_call (DeleteDestination i) = delete_backup_destination i"

text \<open>A finished run: what is recorded of it is in \<open>R\<close>, and it does not run.\<close>

definition settled :: "string \<Rightarrow> backup_run set \<Rightarrow> db \<Rightarrow> bool" where
  "settled i R d \<longleftrightarrow> (\<forall>r\<in>set (d_runs d). br_id r = i \<longrightarrow> r \<in> R \<and> br_status r \<noteq> ''running'')"

lemma table_inv_settled: "table_inv (settled i R)"
  by (rule table_invI) (simp_all add: settled_def)

lemma settled_update:
  assumes "settled i R d" and "\<And>r. P r \<Longrightarrow> br_status r = ''running''" and "\<And>r. br_id (f r) = br_id r"
  shows "settled i R (d_runs_update (update_where P f) d)"
  unfolding settled_def
proof (intro ballI impI)
  fix r
  assume "r \<in> set (d_runs (d_runs_update (update_where P f) d))" and i: "br_id r = i"
  then obtain q where q: "q \<in> set (d_runs d)" "r = (if P q then f q else q)" by (auto simp: in_update_where)
  then have "br_id q = i" using i assms(3) by (cases "P q") auto
  with q(1) assms(1) have old: "q \<in> R \<and> br_status q \<noteq> ''running''" by (simp add: settled_def)
  then have "\<not> P q" using assms(2) by blast
  with q(2) old show "r \<in> R \<and> br_status r \<noteq> ''running''" by simp
qed

lemma keeps_settled:
  assumes "\<And>x. op = CreateRun x \<Longrightarrow> br_id x \<noteq> i"
  shows "keeps (settled i R) (backup_call op)"
proof (cases op)
  case (CreateRun x)
  then have ne: "br_id x \<noteq> i" by (rule assms)
  show ?thesis unfolding CreateRun backup_call.simps create_backup_run_def
    by (intro keeps_intros keeps_ins table_inv_settled) (use ne in \<open>auto simp: settled_def\<close>)
next
  case (FinishRun j s c m t rs)
  show ?thesis unfolding FinishRun backup_call.simps finish_backup_run_def wrapP_def
    by (intro keeps_intros keeps_upd table_inv_settled settled_update) (auto simp: running_def)
next
  case (FailStaleRuns cutoff m)
  show ?thesis unfolding FailStaleRuns backup_call.simps fail_stale_backup_runs_def wrapP_def
    by (intro keeps_intros keeps_upd table_inv_settled settled_update) auto
next
  case (DeleteJob j)
  show ?thesis unfolding DeleteJob backup_call.simps delete_backup_job_def
    by (intro keeps_intros keeps_del table_inv_settled) (auto simp: settled_def delete_where_def)
next
  case (SetRepoState a b c)
  show ?thesis unfolding SetRepoState backup_call.simps set_backup_repo_state_def ups_def
    by (intro keeps_intros keeps_exec table_inv_settled) (simp add: settled_def)
next
  case (DeleteDestination j)
  show ?thesis
    unfolding DeleteDestination backup_call.simps delete_backup_destination_def list_backup_jobs_def
      clear_backup_repo_states_def Let_def wrapP_def
    by (intro keeps_intros keeps_del table_inv_settled) (auto simp: settled_def)
qed

text \<open>
  C11 run_outcome_once.  Once the outcome of a run was recorded, no later report of it is recorded,
  and what is stored of the run stays as it was, through any operations and failures that do not
  create a run with its id.
\<close>

theorem run_outcome_once:
  assumes "finish_backup_run i status code message restored results d = (Inr True, d1)"
    and "final_status status" and "final_status status2"
    and "\<And>x. CreateRun x \<in> set ops \<Longrightarrow> br_id x \<noteq> i"
  shows "fst (finish_backup_run i status2 code2 message2 restored2 results2 (run_all (map backup_call ops) d1)) \<noteq> Inr True
      \<and> (\<forall>r\<in>set (d_runs (run_all (map backup_call ops) d1)). br_id r = i \<longrightarrow> r \<in> set (d_runs d1))"
proof (rule conjI)
  let ?J = "settled i (set (d_runs d1))"
  let ?e = "run_all (map backup_call ops) d1"
  have fire: "report_run i (status, code, message, restored, results) d = (Inr (), d1)"
    using assms(1,2) by (auto simp: report_run_def recorded_def bindP_Inr)
  have start: "?J d1" if "no_live d_runs (\<lambda>i _. running i) i d1"
    using that by (auto simp: settled_def no_live_def running_def)
  have keep: "keeps ?J m" if "m \<in> set (map backup_call ops)" for m
    using that assms(4) by (auto intro!: keeps_settled)
  have J: "?J ?e"
    by (rule run_all_keeps [OF keep start]) (use br.fire_ends [OF fire] in auto)
  then show "\<forall>r\<in>set (d_runs ?e). br_id r = i \<longrightarrow> r \<in> set (d_runs d1)" by (simp add: settled_def)
  show "fst (finish_backup_run i status2 code2 message2 restored2 results2 ?e) \<noteq> Inr True"
  proof
    assume "fst (finish_backup_run i status2 code2 message2 restored2 results2 ?e) = Inr True"
    then obtain e' where "finish_backup_run i status2 code2 message2 restored2 results2 ?e = (Inr True, e')"
      by (metis prod.collapse)
    then have "report_run i (status2, code2, message2, restored2, results2) ?e = (Inr (), e')"
      using assms(3) by (auto simp: report_run_def recorded_def bindP_Inr)
    moreover have "no_live d_runs (\<lambda>i _. running i) i d" if "?J d" for d
      using that by (auto simp: settled_def no_live_def running_def)
    ultimately show False using br.fires_once [OF fire start _ keep] by blast
  qed
qed

definition sample_run :: backup_run where
  "sample_run = \<lparr>br_id = ''r1'', br_job = ''j1'', br_kind = ''backup'', br_trigger = ''manual'', br_actor = ''root'',
     br_status = ''running'', br_code = '''', br_message = '''', br_results = [], br_restored = '''',
     br_started = 0, br_finished = None\<rparr>"

definition runs_example :: db where
  "runs_example = snd (create_backup_run sample_run (empty_db 5 (\<lambda>_. '''')))"

lemma run_outcome_once_witness:
  "fst (finish_backup_run ''r1'' ''error'' '''' '''' '''' []
     (run_all (map backup_call [FailStaleRuns 100 '''', CreateRun (sample_run\<lparr>br_id := ''r2''\<rparr>)])
       (snd (finish_backup_run ''r1'' ''success'' '''' '''' '''' [] runs_example)))) \<noteq> Inr True"
proof -
  have "fst (finish_backup_run ''r1'' ''success'' '''' '''' '''' [] runs_example) = Inr True" by code_simp
  from run_outcome_once [OF run_eqI, OF this] show ?thesis
    by (rule conjunct1) (auto simp: final_status_def sample_run_def)
qed

end
