(* ===== verification/Store_Secrets.thy ===== *)
theory Store_Secrets
  imports Store_Schema
begin

text \<open>
  Secret connections and the bindings of stacks to them, \<^verbatim>\<open>src/internal/store/secretconn.go\<close>.  A
  stack has at most one binding per provider type.
\<close>

section \<open>Connections\<close>

definition create_secret_connection :: "secret_connection \<Rightarrow> (db, unit) prog" where
  "create_secret_connection c =
     unitP ''create secret connection: ''
       (ins d_secret_conns d_secret_conns_update
          ((''secret_connections.id'', \<lambda>r. sc_id r = sc_id c) #
           (if sc_stack c = '''' then [(''secret_connections.name'', \<lambda>r. sc_stack r = '''' \<and> sc_name r = sc_name c)] else []))
          (\<lambda>d. c\<lparr>sc_created := d_now d\<rparr>))"

definition update_secret_connection :: "string \<Rightarrow> string \<Rightarrow> (string \<times> string) list \<Rightarrow> (db, unit) prog" where
  "update_secret_connection i name config =
     some_row (''update secret connection '' @ quoted i @ '': '')
       (upd_unique d_secret_conns d_secret_conns_update
          [(''secret_connections.name'', \<lambda>r. sc_stack r = '''' \<and> sc_name r = name)]
          (\<lambda>r. sc_id r = i \<and> sc_stack r = '''') (\<lambda>r. sc_id r = i) (\<lambda>r. r\<lparr>sc_name := name, sc_config := config\<rparr>))"

definition find_connection :: "db \<Rightarrow> string \<Rightarrow> secret_connection option" where
  "find_connection d i = find (\<lambda>r. sc_id r = i) (d_secret_conns d)"

definition get_secret_connection :: "string \<Rightarrow> (db, secret_connection) prog" where
  "get_secret_connection i = one_row (''get secret connection '' @ quoted i @ '': '') (\<lambda>d. find_connection d i)"

definition query_connections :: "(secret_connection \<Rightarrow> bool) \<Rightarrow> (db, secret_connection list) prog" where
  "query_connections P =
     wrapP ''list secret connections: '' (select (\<lambda>d. filter P (d_secret_conns d)))"

definition list_global_secret_connections :: "(db, secret_connection list) prog" where
  "list_global_secret_connections =
     bindP (query_connections (\<lambda>c. sc_stack c = '''')) (\<lambda>cs. okP (sort_key sc_name cs))"

definition secret_connection_children :: "string \<Rightarrow> (db, secret_connection list) prog" where
  "secret_connection_children parent =
     bindP (query_connections (\<lambda>c. sc_parent c = parent)) (\<lambda>cs. okP (sort_key sc_stack cs))"

definition secret_connections_for_stack :: "string \<Rightarrow> (db, secret_connection list) prog" where
  "secret_connections_for_stack st = query_connections (\<lambda>c. sc_stack c = st)"

definition delete_secret_connection :: "string \<Rightarrow> (db, unit) prog" where
  "delete_secret_connection i =
     unitP (''delete secret connection '' @ quoted i @ '': '')
       (del d_secret_conns d_secret_conns_update (\<lambda>_ c. sc_id c = i))"

text \<open>
  The bindings that use a global connection, joined with the connection they name: the stacks that
  share it, and those with a connection of their own under it.
\<close>

definition parent_of :: "db \<Rightarrow> string \<Rightarrow> string option" where
  "parent_of d i = map_option sc_parent (find_connection d i)"

definition secret_connection_users :: "string \<Rightarrow> (db, string list \<times> string list) prog" where
  "secret_connection_users g =
     bindP (wrapP ''secret connection users: ''
       (select (\<lambda>d. map (\<lambda>b. (sb_stack b, sb_connection b = g))
          (sort_key sb_stack (filter (\<lambda>b. sb_connection b = g \<or> parent_of d (sb_connection b) = Some g) (d_bindings d))))))
       (\<lambda>rows. okP (map fst (filter snd rows), map fst (filter (\<lambda>r. \<not> snd r) rows)))"

section \<open>Bindings\<close>

definition binding_key :: "string \<Rightarrow> string \<Rightarrow> secret_binding \<Rightarrow> bool" where
  "binding_key st t b \<longleftrightarrow> sb_stack b = st \<and> sb_type b = t"

definition set_secret_binding :: "secret_binding \<Rightarrow> (db, unit) prog" where
  "set_secret_binding b =
     unitP ''set secret binding: ''
       (ups d_bindings d_bindings_update (binding_key (sb_stack b) (sb_type b))
          (\<lambda>_ r. r\<lparr>sb_connection := sb_connection b, sb_prefixes := sb_prefixes b\<rparr>) (\<lambda>_. b))"

definition get_secret_binding :: "string \<Rightarrow> string \<Rightarrow> (db, secret_binding) prog" where
  "get_secret_binding st t = one_row ''get secret binding: '' (\<lambda>d. find (binding_key st t) (d_bindings d))"

definition list_secret_bindings :: "string \<Rightarrow> (db, secret_binding list) prog" where
  "list_secret_bindings st =
     wrapP ''list secret bindings: ''
       (select (\<lambda>d. sort_key sb_type (filter (\<lambda>b. sb_stack b = st) (d_bindings d))))"

definition delete_secret_binding :: "string \<Rightarrow> string \<Rightarrow> (db, unit) prog" where
  "delete_secret_binding st t =
     unitP ''delete secret binding: '' (del d_bindings d_bindings_update (\<lambda>_ b. binding_key st t b))"

section \<open>Laws\<close>

text \<open>What the rest of the server relies on: after a write, the binding read is the one written.\<close>

lemma find_after_upsert:
  assumes "\<And>r. P r \<Longrightarrow> P (f r)"
    and "P r0" and "\<And>r. P r \<Longrightarrow> f r = r0"
  shows "find P (if list_ex P rows then update_where P f rows else rows @ [r0]) = Some r0"
proof (cases "list_ex P rows")
  case True
  then have "find P (update_where P f rows) = Some r0"
    using assms by (induction rows) (auto simp: update_where_def)
  with True show ?thesis by simp
next
  case False
  then have "find P rows = None" by (auto simp: find_None_iff list_ex_iff)
  with False assms(2) show ?thesis by (simp add: find_append)
qed

lemma binding_after_set:
  assumes "set_secret_binding b d = (Inr (), d')"
  shows "find (binding_key (sb_stack b) (sb_type b)) (d_bindings d') = Some b"
proof -
  let ?P = "binding_key (sb_stack b) (sb_type b)"
  let ?f = "\<lambda>r. r\<lparr>sb_connection := sb_connection b, sb_prefixes := sb_prefixes b\<rparr>"
  from assms obtain fs where d': "d_bindings d' = (if list_ex ?P (d_bindings d) then update_where ?P ?f (d_bindings d) else d_bindings d @ [b])"
    by (auto simp: set_secret_binding_def unitP_Inr ups_def elim!: exec_cases)
  show ?thesis
    unfolding d' by (rule find_after_upsert) (auto simp: binding_key_def)
qed

text \<open>A connection's users are exactly the stacks whose binding leads to it.\<close>

lemma connection_users:
  assumes "secret_connection_users g d = (Inr (shared, own), d')"
  shows "set shared = {sb_stack b | b. b \<in> set (d_bindings d) \<and> sb_connection b = g}"
    and "set own = {sb_stack b | b. b \<in> set (d_bindings d) \<and> sb_connection b \<noteq> g \<and> parent_of d (sb_connection b) = Some g}"
proof -
  let ?q = "\<lambda>d. map (\<lambda>b. (sb_stack b, sb_connection b = g))
          (sort_key sb_stack (filter (\<lambda>b. sb_connection b = g \<or> parent_of d (sb_connection b) = Some g) (d_bindings d)))"
  from assms obtain rows where sel: "select ?q d = (Inr rows, d')"
    and split: "shared = map fst (filter snd rows)" "own = map fst (filter (\<lambda>r. \<not> snd r) rows)"
    by (auto simp: secret_connection_users_def bindP_Inr)
  from sel have rows: "rows = ?q d"
    by (cases rule: select_cases) (auto simp: parent_of_def find_connection_def)
  show "set shared = {sb_stack b | b. b \<in> set (d_bindings d) \<and> sb_connection b = g}"
    unfolding split rows by (auto simp: filter_map comp_def)
  show "set own = {sb_stack b | b. b \<in> set (d_bindings d) \<and> sb_connection b \<noteq> g \<and> parent_of d (sb_connection b) = Some g}"
    unfolding split rows by (auto simp: filter_map comp_def)
qed

end
