(* ===== verification/Store_Scans.thy ===== *)
theory Store_Scans
  imports Store_Schema
begin

text \<open>
  Vulnerability scans and their settings, \<^verbatim>\<open>src/internal/store/imagescan.go\<close>: one scan per scanner,
  digest and platform.  The findings are JSON the table does not look into.
\<close>

definition scan_key :: "image_scan \<Rightarrow> string \<times> string \<times> string" where
  "scan_key s = (is_scanner s, is_digest s, is_platform s)"

definition upsert_image_scan :: "image_scan \<Rightarrow> (db, unit) prog" where
  "upsert_image_scan sc =
     (let sc = (if is_findings sc = '''' then sc\<lparr>is_findings := ''[]''\<rparr> else sc) in
      unitP (''upsert image scan '' @ quoted (is_digest sc) @ '': '')
        (ups d_scans d_scans_update (\<lambda>r. scan_key r = scan_key sc)
           (\<lambda>d _. sc\<lparr>is_scanned := d_now d\<rparr>) (\<lambda>d. sc\<lparr>is_scanned := d_now d\<rparr>)))"

definition get_image_scan :: "string \<Rightarrow> string \<Rightarrow> string \<Rightarrow> (db, image_scan option) prog" where
  "get_image_scan scanner digest platform =
     wrapP (''get image scan '' @ quoted digest @ '': '')
       (select (\<lambda>d. find (\<lambda>r. scan_key r = (scanner, digest, platform)) (d_scans d)))"

text \<open>The list leaves the findings out.\<close>

definition list_image_scans :: "string \<Rightarrow> (db, image_scan list) prog" where
  "list_image_scans scanner =
     wrapP ''list image scans: ''
       (select (\<lambda>d. map (\<lambda>r. r\<lparr>is_findings := ''''\<rparr>) (filter (\<lambda>r. is_scanner r = scanner) (d_scans d))))"

definition delete_scan :: "string \<times> string \<times> string \<Rightarrow> (db, unit) prog" where
  "delete_scan k = unitP ''prune image scans: '' (del d_scans d_scans_update (\<lambda>_ r. scan_key r = k))"

definition prune_image_scans :: "(string \<times> string \<times> string) list \<Rightarrow> (db, nat) prog" where
  "prune_image_scans keep =
     bindP (wrapP ''prune image scans: '' (select (\<lambda>d. map scan_key (d_scans d)))) (\<lambda>ks.
       let stale = filter (\<lambda>k. k \<notin> set keep) ks in
       bindP (forP delete_scan stale) (\<lambda>_. okP (length stale)))"

definition delete_image_scans :: "string \<Rightarrow> (db, unit) prog" where
  "delete_image_scans scanner =
     unitP ''delete image scans: '' (del d_scans d_scans_update (\<lambda>_ r. scanner = '''' \<or> is_scanner r = scanner))"

section \<open>Settings\<close>

definition no_vuln_settings :: vuln_settings where
  "no_vuln_settings = \<lparr>vs_enabled = False, vs_scanner = '''', vs_last_pass = None, vs_last_msg = ''''\<rparr>"

definition get_vuln_settings :: "(db, vuln_settings) prog" where
  "get_vuln_settings =
     wrapP ''get vuln settings: ''
       (select (\<lambda>d. case d_vuln d of None \<Rightarrow> no_vuln_settings | Some v \<Rightarrow> v))"

text \<open>Both writes insert the row with the other columns at their defaults, or change theirs only.\<close>

definition update_vuln :: "(db \<Rightarrow> vuln_settings \<Rightarrow> vuln_settings) \<Rightarrow> (db, unit) prog" where
  "update_vuln f =
     exec (\<lambda>d. ((), d\<lparr>d_vuln := Some (f d (case d_vuln d of None \<Rightarrow> no_vuln_settings | Some v \<Rightarrow> v))\<rparr>))"

definition set_vuln_settings_choice :: "bool \<Rightarrow> string \<Rightarrow> (db, unit) prog" where
  "set_vuln_settings_choice enabled scanner =
     unitP ''set vuln settings: '' (update_vuln (\<lambda>_ v. v\<lparr>vs_enabled := enabled, vs_scanner := scanner\<rparr>))"

definition set_vuln_last_pass :: "string \<Rightarrow> (db, unit) prog" where
  "set_vuln_last_pass msg =
     unitP ''set vuln last pass: '' (update_vuln (\<lambda>d v. v\<lparr>vs_last_pass := Some (d_now d), vs_last_msg := msg\<rparr>))"

section \<open>Pruning\<close>

lemma delete_scan_Inr:
  "delete_scan k d = (Inr u, d') \<Longrightarrow> d_scans d' = delete_where (\<lambda>r. scan_key r = k) (d_scans d)"
  by (auto simp: delete_scan_def unitP_Inr elim!: del_cases)

lemma delete_scans_Inr:
  "forP delete_scan ks d = (Inr u, d') \<Longrightarrow> d_scans d' = filter (\<lambda>r. scan_key r \<notin> set ks) (d_scans d)"
proof (induction ks arbitrary: d)
  case (Cons k ks)
  from Cons.prems obtain d1 where "delete_scan k d = (Inr (), d1)" "forP delete_scan ks d1 = (Inr u, d')"
    by (auto simp: bindP_Inr)
  then show ?case
    using Cons.IH delete_scan_Inr [of k d "()" d1] by (auto simp: delete_where_def intro: filter_cong)
qed simp

text \<open>A delete never touches a scan to keep, so that not even a failure halfway loses one.\<close>

lemma forP_keeps_in:
  assumes "\<And>x. x \<in> set xs \<Longrightarrow> keeps I (f x)"
  shows "keeps I (forP f xs)"
  using assms by (induction xs) (auto intro: keeps_bindP)

text \<open>
  Pruning leaves the scans to keep, in order, and counts the others; when the
  database fails on the way it reports it, and every scan to keep is still there.
\<close>

theorem prune_scans_exact:
  "case prune_image_scans keep d of
     (Inr n, d') \<Rightarrow> d_scans d' = filter (\<lambda>r. scan_key r \<in> set keep) (d_scans d)
                    \<and> n = count_where (\<lambda>r. scan_key r \<notin> set keep) (d_scans d)
   | (Inl e, d') \<Rightarrow> filter (\<lambda>r. scan_key r \<in> set keep) (d_scans d') = filter (\<lambda>r. scan_key r \<in> set keep) (d_scans d)"
proof -
  let ?kept = "\<lambda>d. filter (\<lambda>r. scan_key r \<in> set keep) (d_scans d)"
  let ?q = "\<lambda>d. map scan_key (d_scans d)"
  let ?I = "\<lambda>e. ?kept e = ?kept d"
  obtain r0 d0 where sel: "select ?q d = (r0, d0)" by (cases "select ?q d")
  from sel consider (error) t where "r0 = err_text t" "d_scans d0 = d_scans d"
    | (run) "r0 = Inr (?q d)" "d_scans d0 = d_scans d"
    by (cases rule: select_cases) auto
  then show ?thesis
  proof cases
    case (error t)
    then show ?thesis using sel by (simp add: prune_image_scans_def bindP_def tryP_def wrapP_def)
  next
    case run
    let ?stale = "filter (\<lambda>k. k \<notin> set keep) (?q d)"
    obtain r1 d1 where del: "forP delete_scan ?stale d0 = (r1, d1)" by (cases "forP delete_scan ?stale d0")
    have tab: "table_inv ?I" by (rule table_invI) simp_all
    have "keeps ?I (forP delete_scan ?stale)"
    proof (rule forP_keeps_in)
      fix k assume "k \<in> set ?stale"
      then have "(\<lambda>r. scan_key r \<noteq> k \<and> scan_key r \<in> set keep) = (\<lambda>r. scan_key r \<in> set keep)" by auto
      then show "keeps ?I (delete_scan k)"
        unfolding delete_scan_def by (intro keeps_intros keeps_del tab) (simp add: delete_where_def)
    qed
    moreover have "?I d0" using run by simp
    ultimately have I: "?I d1" using del by (rule keepsE)
    have exact: "d_scans d1 = ?kept d" if "r1 = Inr u" for u
    proof -
      have "d_scans d1 = filter (\<lambda>r. scan_key r \<notin> set ?stale) (d_scans d0)"
        using delete_scans_Inr del that by blast
      also have "\<dots> = ?kept d" using run by (auto intro: filter_cong)
      finally show ?thesis .
    qed
    have len: "length ?stale = count_where (\<lambda>r. scan_key r \<notin> set keep) (d_scans d)"
      by (simp add: count_where_def filter_map comp_def)
    show ?thesis
      using sel run del I exact len
      by (cases r1) (simp_all add: prune_image_scans_def bindP_def tryP_def wrapP_def Let_def)
  qed
qed

end
