(* ===== verification/Versions.thy ===== *)
theory Versions
  imports Go_Base
begin

text \<open>
  Comparing releases, \<^verbatim>\<open>src/versioncheck.go\<close>, and the agents that are too old for a feature
  (\<^verbatim>\<open>src/stack_secrets.go\<close>, \<^verbatim>\<open>src/backup_protocol.go\<close>).  The order of the code is the order of a
  type of versions.
\<close>

section \<open>Versions\<close>

text \<open>\<^verbatim>\<open>strings.SplitN(v, ".", 3)\<close> and \<^verbatim>\<open>Atoi\<close> of each part.\<close>

datatype semver = Semver int int int

fun split_n :: "nat \<Rightarrow> char \<Rightarrow> string \<Rightarrow> string list" where
  "split_n 0 c s = []"
| "split_n (Suc 0) c s = [s]"
| "split_n (Suc (Suc n)) c s =
     (case cut_at [c] s of None \<Rightarrow> [s] | Some (a, b) \<Rightarrow> a # split_n (Suc n) c b)"

definition parse_semver :: "string \<Rightarrow> semver option" where
  "parse_semver v =
     (case split_n 3 CHR ''.'' v of
        [a, b, c] \<Rightarrow>
          (case (atoi a, atoi b, atoi c) of
             (Some x, Some y, Some z) \<Rightarrow> Some (Semver x y z)
           | _ \<Rightarrow> None)
      | _ \<Rightarrow> None)"

text \<open>The loop over the three parts.\<close>

fun parts_less :: "(int \<times> int) list \<Rightarrow> bool" where
  "parts_less [] = False"
| "parts_less ((x, y) # ps) = (if x \<noteq> y then x < y else parts_less ps)"

fun semver_parts :: "semver \<Rightarrow> int list" where
  "semver_parts (Semver x y z) = [x, y, z]"

definition semver_less :: "string \<Rightarrow> string \<Rightarrow> bool" where
  "semver_less a b =
     (case (parse_semver a, parse_semver b) of
        (Some x, Some y) \<Rightarrow> parts_less (zip (semver_parts x) (semver_parts y))
      | _ \<Rightarrow> False)"

section \<open>The newest release\<close>

text \<open>The loop of \<^verbatim>\<open>latestGitHubTag\<close> over the names of the tags.\<close>

fun best_tag :: "string \<Rightarrow> string list \<Rightarrow> string" where
  "best_tag best [] = best"
| "best_tag best (t # ts) =
     (let v = trim_prefix t ''v'' in
      if parse_semver v = None then best_tag best ts
      else best_tag (if best = '''' \<or> semver_less best v then v else best) ts)"

definition latest_github_tag :: "string \<Rightarrow> string list result \<Rightarrow> string result" where
  "latest_github_tag repo tags =
     bind_res tags (\<lambda>ts.
       let best = best_tag '''' ts in
       if best = '''' then err_text (''no semver tag found for '' @ repo) else Inr best)"

record latest_versions =
  lv_server :: string
  lv_agent :: string

definition set_latest :: "string \<Rightarrow> string \<Rightarrow> latest_versions \<Rightarrow> latest_versions" where
  "set_latest server agent v =
     (let v = (if server \<noteq> '''' then v\<lparr>lv_server := server\<rparr> else v) in
      if agent \<noteq> '''' then v\<lparr>lv_agent := agent\<rparr> else v)"

text \<open>\<open>fetch\<close> stands for the request of the tags; an error leaves the empty string.\<close>

definition check_latest_versions :: "(string \<Rightarrow> string list result) \<Rightarrow> latest_versions \<Rightarrow> latest_versions" where
  "check_latest_versions fetch =
     (let tag = (\<lambda>repo. case latest_github_tag repo (fetch repo) of Inl _ \<Rightarrow> '''' | Inr v \<Rightarrow> v) in
      set_latest (tag ''forgelab-me/wharf-server'') (tag ''forgelab-me/wharf-agent''))"

section \<open>Agents too old\<close>

definition min_agent_for_secret_refs :: string where
  "min_agent_for_secret_refs = ''0.5.0''"

definition min_agent_for_backups :: string where
  "min_agent_for_backups = ''0.9.1''"

definition agent_too_old_for_secret_refs :: "string \<Rightarrow> bool" where
  "agent_too_old_for_secret_refs v \<longleftrightarrow> v = '''' \<or> semver_less v min_agent_for_secret_refs"

definition agent_cannot_back_up :: "string \<Rightarrow> bool" where
  "agent_cannot_back_up v \<longleftrightarrow> v = '''' \<or> semver_less v min_agent_for_backups"

definition agent_too_old_message :: "string \<Rightarrow> string" where
  "agent_too_old_message v =
     ''this stack uses secret providers, which need agent '' @ min_agent_for_secret_refs @
     '' or later (this host runs '' @ (if v = '''' then ''an unknown version'' else v) @
     ''): update the agent, then deploy again''"

definition agent_too_old_for_backups :: "string \<Rightarrow> string" where
  "agent_too_old_for_backups v =
     ''volume backups need agent '' @ min_agent_for_backups @ '' or later (this host runs '' @
     (if v = '''' then ''an unknown version'' else v) @ ''): update the agent first''"

section \<open>The order\<close>

instantiation semver :: linorder
begin

fun less_semver :: "semver \<Rightarrow> semver \<Rightarrow> bool" where
  "less_semver (Semver a b c) (Semver x y z) \<longleftrightarrow> a < x \<or> a = x \<and> (b < y \<or> b = y \<and> c < z)"

definition less_eq_semver :: "semver \<Rightarrow> semver \<Rightarrow> bool" where
  "less_eq_semver u v \<longleftrightarrow> u < v \<or> u = v"

instance
proof
  fix u v w :: semver
  show "u < v \<longleftrightarrow> u \<le> v \<and> \<not> v \<le> u" by (cases u; cases v) (auto simp: less_eq_semver_def)
  show "u \<le> u" by (simp add: less_eq_semver_def)
  show "u \<le> v \<Longrightarrow> v \<le> w \<Longrightarrow> u \<le> w" by (cases u; cases v; cases w) (auto simp: less_eq_semver_def)
  show "u \<le> v \<Longrightarrow> v \<le> u \<Longrightarrow> u = v" by (cases u; cases v) (auto simp: less_eq_semver_def)
  show "u \<le> v \<or> v \<le> u" by (cases u; cases v) (auto simp: less_eq_semver_def)
qed

end

lemma parts_less_semver: "parts_less (zip (semver_parts u) (semver_parts v)) \<longleftrightarrow> u < v"
  by (cases u; cases v) auto

lemma semver_less_iff:
  "semver_less a b \<longleftrightarrow> (\<exists>x y. parse_semver a = Some x \<and> parse_semver b = Some y \<and> x < y)"
  by (auto simp: semver_less_def parts_less_semver split: option.split)

lemma semver_not_less_trans:
  assumes "parse_semver c \<noteq> None" and "parse_semver b \<noteq> None"
    and "\<not> semver_less c b" and "\<not> semver_less b a"
  shows "\<not> semver_less c a"
proof
  from assms(1,2) obtain z y where z: "parse_semver c = Some z" and y: "parse_semver b = Some y" by blast
  assume "semver_less c a"
  then obtain x where x: "parse_semver a = Some x" "z < x" using z by (auto simp: semver_less_iff)
  have "y \<le> z" using assms(3) z y by (force simp: semver_less_iff)
  moreover have "x \<le> y" using assms(4) x(1) y by (force simp: semver_less_iff)
  ultimately show False using x(2) by simp
qed

text \<open>What the loop keeps: the best so far is one of the tags seen, or still empty, and none is newer.\<close>

lemma parse_semver_Nil: "parse_semver '''' = None"
  by code_simp

lemma best_tag_spec:
  assumes "b = '''' \<or> parse_semver b \<noteq> None"
  shows "(best_tag b ts = '''' \<longleftrightarrow> b = '''' \<and> (\<forall>t\<in>set ts. parse_semver (trim_prefix t ''v'') = None))
     \<and> (best_tag b ts = b \<or> best_tag b ts \<in> (\<lambda>t. trim_prefix t ''v'') ` set ts)
     \<and> (best_tag b ts = '''' \<or> parse_semver (best_tag b ts) \<noteq> None)
     \<and> \<not> semver_less (best_tag b ts) b
     \<and> (\<forall>t\<in>set ts. \<not> semver_less (best_tag b ts) (trim_prefix t ''v''))"
  using assms
proof (induction ts arbitrary: b)
  case Nil
  then show ?case by (auto simp: semver_less_iff)
next
  case (Cons t ts)
  let ?v = "trim_prefix t ''v''"
  show ?case
  proof (cases "parse_semver ?v")
    case None
    then show ?thesis using Cons.IH [OF Cons.prems] by (auto simp: semver_less_iff)
  next
    case (Some x)
    define c where "c = (if b = '''' \<or> semver_less b ?v then ?v else b)"
    have cases: "c = b \<or> c = ?v" by (simp add: c_def)
    have pv: "parse_semver ?v \<noteq> None" using Some by simp
    then have ne: "?v \<noteq> ''''" using parse_semver_Nil by metis
    have pc: "parse_semver c \<noteq> None" using Cons.prems pv by (auto simp: c_def)
    then have nc: "c \<noteq> ''''" using parse_semver_Nil by metis
    have step: "best_tag b (t # ts) = best_tag c ts" by (simp add: Some Let_def c_def)
    have irr: "\<not> semver_less a a" for a by (auto simp: semver_less_iff)
    have asym: "semver_less a d \<Longrightarrow> \<not> semver_less d a" for a d by (auto simp: semver_less_iff)
    have nil: "\<not> semver_less a ''''" for a using parse_semver_Nil by (simp add: semver_less_iff)
    have le: "\<not> semver_less c b \<and> \<not> semver_less c ?v"
      using irr asym nil by (auto simp: c_def)
    let ?r = "best_tag c ts"
    note IH = Cons.IH [OF disjI2 [OF pc]]
    have nr: "?r \<noteq> ''''" using IH nc by blast
    have pr: "parse_semver ?r \<noteq> None" using IH nr by blast
    have below: "\<not> semver_less ?r a" if "\<not> semver_less c a" for a
      using semver_not_less_trans [OF pr pc _ that] IH by blast
    have r1: "?r = b \<or> ?r \<in> (\<lambda>t. trim_prefix t ''v'') ` set (t # ts)" using IH cases by auto
    show ?thesis
      unfolding step
    proof (intro conjI)
      show "?r = '''' \<longleftrightarrow> b = '''' \<and> (\<forall>t\<in>set (t # ts). parse_semver (trim_prefix t ''v'') = None)"
        using nr pv by simp
      show "\<forall>t\<in>set (t # ts). \<not> semver_less ?r (trim_prefix t ''v'')" using below le IH by simp
      show "?r = '''' \<or> parse_semver ?r \<noteq> None" using pr ..
      show "\<not> semver_less ?r b" using below le by blast
    qed (rule r1)
  qed
qed

text \<open>
  When a newest release is found, it is one of the published tags, it is a
  release (three numbers), and no published tag is newer; none is found exactly when no tag is a
  release.
\<close>

theorem latest_tag_newest:
  "case latest_github_tag repo (Inr tags) of
     Inr best \<Rightarrow> best \<in> (\<lambda>t. trim_prefix t ''v'') ` set tags \<and> parse_semver best \<noteq> None
                  \<and> (\<forall>t\<in>set tags. \<not> semver_less best (trim_prefix t ''v''))
   | Inl _ \<Rightarrow> \<forall>t\<in>set tags. parse_semver (trim_prefix t ''v'') = None"
proof -
  have "(best_tag '''' tags = '''' \<longleftrightarrow> (\<forall>t\<in>set tags. parse_semver (trim_prefix t ''v'') = None))
      \<and> (best_tag '''' tags = '''' \<or> best_tag '''' tags \<in> (\<lambda>t. trim_prefix t ''v'') ` set tags)
      \<and> (best_tag '''' tags = '''' \<or> parse_semver (best_tag '''' tags) \<noteq> None)
      \<and> (\<forall>t\<in>set tags. \<not> semver_less (best_tag '''' tags) (trim_prefix t ''v''))"
    using best_tag_spec [of "''''" tags] by blast
  then show ?thesis by (auto simp: latest_github_tag_def Let_def)
qed

lemma latest_tag_newest_witness:
  "\<exists>best. latest_github_tag ''r'' (Inr [''v0.9.0'', ''latest'', ''v0.10.0'']) = Inr best
     \<and> best \<in> (\<lambda>t. trim_prefix t ''v'') ` set [''v0.9.0'', ''latest'', ''v0.10.0''] \<and> \<not> semver_less best ''0.9.0''"
proof -
  have "is_ok (latest_github_tag ''r'' (Inr [''v0.9.0'', ''latest'', ''v0.10.0'']))" by code_simp
  then obtain best where b: "latest_github_tag ''r'' (Inr [''v0.9.0'', ''latest'', ''v0.10.0'']) = Inr best"
    unfolding is_ok_iff by blast
  have t: "trim_prefix ''v0.9.0'' ''v'' = ''0.9.0''" by code_simp
  have "best \<in> (\<lambda>t. trim_prefix t ''v'') ` set [''v0.9.0'', ''latest'', ''v0.10.0''] \<and> parse_semver best \<noteq> None
      \<and> (\<forall>t\<in>set [''v0.9.0'', ''latest'', ''v0.10.0'']. \<not> semver_less best (trim_prefix t ''v''))"
    using latest_tag_newest [where repo = "''r''" and tags = "[''v0.9.0'', ''latest'', ''v0.10.0'']"] unfolding b sum.case .
  moreover from this have "\<not> semver_less best (trim_prefix ''v0.9.0'' ''v'')" by (meson list.set_intros)
  ultimately show ?thesis using b unfolding t by blast
qed

end
