(* ===== verification/Web.thy ===== *)
theory Web
  imports Store_Schema
begin

text \<open>
  Requests, answers and the redirects of \<^verbatim>\<open>src/redirect.go\<close>, with what the code uses of \<^verbatim>\<open>net/http\<close>
  and \<^verbatim>\<open>net/url\<close>: \<^verbatim>\<open>http.Redirect\<close> cleans the path of its target, \<^verbatim>\<open>url.QueryEscape\<close> escapes a
  message.  A redirect stays on the site when the path has no backslash; with one it may not, since
  the cleaning comes after the check.
\<close>

section \<open>Requests and answers\<close>

text \<open>\<open>rq_form\<close> is what \<^verbatim>\<open>ParseForm\<close> gives, or its error; \<open>rq_cookie\<close> the session cookie.\<close>

record request =
  rq_method :: string
  rq_path :: string
  rq_content_type :: string
  rq_cookie :: "string option"
  rq_form :: "(string \<times> string) list result"

definition form_value :: "request \<Rightarrow> string \<Rightarrow> string" where
  "form_value rq k =
     (case rq_form rq of Inl _ \<Rightarrow> '''' | Inr f \<Rightarrow> (case map_of f k of None \<Rightarrow> '''' | Some v \<Rightarrow> v))"

text \<open>
  \<^verbatim>\<open>http.Error\<close>, a 303, a rendered page with its error, a JSON body, an empty one, the bytes of a
  file; the page's other data are what the templates show and are left out.
\<close>

datatype answer =
    HttpError nat string
  | SeeOther string
  | Page string string
  | JsonBody nat string
  | NoBody nat
  | RawBody string

text \<open>The answer and what becomes of the session cookie: untouched, set, or cleared (\<open>Some ''''\<close>).\<close>

record reply =
  rp_answer :: answer
  rp_cookie :: "string option"

definition answer :: "answer \<Rightarrow> ('s, reply) prog" where
  "answer a = okP \<lparr>rp_answer = a, rp_cookie = None\<rparr>"

definition answer_cookie :: "answer \<Rightarrow> string \<Rightarrow> ('s, reply) prog" where
  "answer_cookie a c = okP \<lparr>rp_answer = a, rp_cookie = Some c\<rparr>"

definition http_error :: "nat \<Rightarrow> string \<Rightarrow> ('s, reply) prog" where
  "http_error code t = answer (HttpError code t)"

section \<open>Redirect targets\<close>

definition local_path :: "string \<Rightarrow> string" where
  "local_path p =
     (if \<not> prefix ''/'' p \<or> prefix ''//'' p \<or> prefix [CHR ''/'', CHR 0x5C] p
         \<or> contains_any p [CHR 0x0D, CHR 0x0A] then ''/'' else p)"

definition append_query :: "string \<Rightarrow> string \<Rightarrow> string" where
  "append_query p query =
     (let p = local_path p; sep = (if contains_str p ''?'' then ''&'' else ''?'') in p @ sep @ query)"

definition upper_hex :: "nat \<Rightarrow> char" where
  "upper_hex n = ''0123456789ABCDEF'' ! (n mod 16)"

definition query_escape_char :: "char \<Rightarrow> string" where
  "query_escape_char c =
     (if is_alnum c \<or> c \<in> set ''-_.~'' then [c]
      else if c = CHR '' '' then ''+''
      else [CHR ''%'', upper_hex (of_char c div 16), upper_hex (of_char c)])"

definition query_escape :: "string \<Rightarrow> string" where
  "query_escape s = concat (map query_escape_char s)"

definition redirect_with_error :: "string \<Rightarrow> string \<Rightarrow> ('s, reply) prog" where
  "redirect_with_error p message = answer (SeeOther (append_query p (''error='' @ query_escape message)))"

definition redirect_with_saved :: "string \<Rightarrow> ('s, reply) prog" where
  "redirect_with_saved p = answer (SeeOther (append_query p ''saved=1''))"

definition append_saved_message :: "string \<Rightarrow> string \<Rightarrow> string" where
  "append_saved_message p message = append_query p (''saved=1&saved_msg='' @ query_escape message)"

definition redirect_with_saved_message :: "string \<Rightarrow> string \<Rightarrow> ('s, reply) prog" where
  "redirect_with_saved_message p message = answer (SeeOther (append_saved_message p message))"

section \<open>The Location header\<close>

text \<open>
  \<^verbatim>\<open>path.Clean\<close> of a rooted path: the elements between slashes, without the empty ones and \<open>.\<close>, a
  \<open>..\<close> taking back the one before it.
\<close>

fun clean_elems :: "string list \<Rightarrow> string list \<Rightarrow> string list" where
  "clean_elems out [] = rev out"
| "clean_elems out (w # ws) =
     (if w = [] \<or> w = ''.'' then clean_elems out ws
      else if w = ''..'' then clean_elems (tl out) ws
      else clean_elems (w # out) ws)"

definition clean_rooted :: "string \<Rightarrow> string" where
  "clean_rooted p = CHR ''/'' # join_with ''/'' (clean_elems [] (split_on CHR ''/'' p))"

text \<open>\<^verbatim>\<open>url.Parse\<close> accepts a rooted target without control characters and with well-formed escapes.\<close>

definition is_hex :: "char \<Rightarrow> bool" where
  "is_hex c \<longleftrightarrow> is_digit c \<or> c \<in> set ''abcdefABCDEF''"

fun escapes_ok :: "string \<Rightarrow> bool" where
  "escapes_ok [] = True"
| "escapes_ok (c # s) =
     (if c = CHR ''%'' then (case s of a # b # r \<Rightarrow> is_hex a \<and> is_hex b | _ \<Rightarrow> False) \<and> escapes_ok s
      else escapes_ok s)"

definition url_parses :: "string \<Rightarrow> bool" where
  "url_parses u \<longleftrightarrow>
     (\<forall>c\<in>set u. \<not> (of_char c < (0x20 :: nat)) \<and> c \<noteq> CHR 0x7F) \<and>
     escapes_ok (takeWhile (\<lambda>c. c \<noteq> CHR ''?'' \<and> c \<noteq> CHR ''#'') u) \<and>
     escapes_ok (dropWhile (\<lambda>c. c \<noteq> CHR ''#'') u)"

definition hex_escape_non_ascii :: "string \<Rightarrow> string" where
  "hex_escape_non_ascii s =
     concat (map (\<lambda>c. if of_char c < (0x80 :: nat) then [c]
        else [CHR ''%'', hex_digit (of_char c div 16), hex_digit (of_char c)]) s)"

text \<open>
  \<^verbatim>\<open>http.Redirect\<close> for a target that starts with a slash: the path is cleaned, its trailing slash
  kept, the query left alone.
\<close>

definition location :: "string \<Rightarrow> string" where
  "location u =
     hex_escape_non_ascii
       (if url_parses u then
          (let p = takeWhile (\<lambda>c. c \<noteq> CHR ''?'') u; query = dropWhile (\<lambda>c. c \<noteq> CHR ''?'') u;
               q = clean_rooted p in
           (if suffix ''/'' p \<and> \<not> suffix ''/'' q then q @ ''/'' else q) @ query)
        else u)"

section \<open>A redirect stays on the site\<close>

text \<open>What browsers read as a path of this site: one slash, and neither a slash nor a backslash after it.\<close>

definition on_site :: "string \<Rightarrow> bool" where
  "on_site u \<longleftrightarrow> (\<exists>r. u = CHR ''/'' # r \<and> (r = [] \<or> (hd r \<noteq> CHR ''/'' \<and> hd r \<noteq> CHR 0x5C)))"

lemma local_path_on_site: "on_site (local_path p)"
proof (cases "\<not> prefix ''/'' p \<or> prefix ''//'' p \<or> prefix [CHR ''/'', CHR 0x5C] p \<or> contains_any p [CHR 0x0D, CHR 0x0A]")
  case True
  then have "local_path p = ''/''" unfolding local_path_def by (rule if_P)
  then show ?thesis by (simp add: on_site_def)
next
  case False
  then have "local_path p = p" unfolding local_path_def by (rule if_not_P)
  moreover from False obtain r where "p = CHR ''/'' # r" by (cases p) auto
  ultimately show ?thesis using False by (cases r) (auto simp: on_site_def)
qed

lemma clean_elems_in: "w \<in> set (clean_elems out ws) \<Longrightarrow> w \<in> set out \<or> (w \<in> set ws \<and> w \<noteq> [])"
proof (induction out ws rule: clean_elems.induct)
  case (2 out w ws)
  then show ?case by (cases out) (auto split: if_splits)
qed simp

lemma hd_join: "ws \<noteq> [] \<Longrightarrow> hd ws \<noteq> [] \<Longrightarrow> hd (join_with sep ws) = hd (hd ws)"
  by (cases ws rule: remdups_adj.cases) auto

lemma clean_rooted_on_site:
  assumes "CHR 0x5C \<notin> set p"
  shows "on_site (clean_rooted p)"
proof (cases "clean_elems [] (split_on CHR ''/'' p)")
  case Nil
  then show ?thesis by (simp add: clean_rooted_def on_site_def)
next
  case (Cons w ws)
  then have w: "w \<in> set (split_on CHR ''/'' p)" "w \<noteq> []"
    using clean_elems_in [of w "[]" "split_on CHR ''/'' p"] by auto
  then have "CHR ''/'' \<notin> set w" "CHR 0x5C \<notin> set w"
    using split_parts_no_sep set_split_chars assms by blast+
  with w(2) have "hd w \<noteq> CHR ''/''" "hd w \<noteq> CHR 0x5C" by (cases w; force)+
  then show ?thesis
    using Cons w(2) by (simp add: clean_rooted_def on_site_def hd_join)
qed

lemma on_site_append: "on_site u \<Longrightarrow> v = [] \<or> (hd v \<noteq> CHR ''/'' \<and> hd v \<noteq> CHR 0x5C) \<Longrightarrow> on_site (u @ v)"
  by (auto simp: on_site_def hd_append)

lemma on_site_escape:
  assumes "on_site u"
  shows "on_site (hex_escape_non_ascii u)"
proof -
  let ?f = "\<lambda>c. if of_char c < (0x80 :: nat) then [c]
        else [CHR ''%'', hex_digit (of_char c div 16), hex_digit (of_char c)]"
  have e: "hex_escape_non_ascii (c # s) = ?f c @ hex_escape_non_ascii s" for c s
    by (simp add: hex_escape_non_ascii_def)
  from assms obtain r where u: "u = CHR ''/'' # r" "r = [] \<or> (hd r \<noteq> CHR ''/'' \<and> hd r \<noteq> CHR 0x5C)"
    by (auto simp: on_site_def)
  have "hex_escape_non_ascii u = CHR ''/'' # hex_escape_non_ascii r" by (simp add: u(1) e)
  then show ?thesis
    using u(2) by (cases r) (auto simp: on_site_def e hex_escape_non_ascii_def)
qed

lemma location_on_site:
  assumes "on_site u" and "CHR 0x5C \<notin> set (takeWhile (\<lambda>c. c \<noteq> CHR ''?'') u)"
  shows "on_site (location u)"
proof (cases "url_parses u")
  case True
  let ?p = "takeWhile (\<lambda>c. c \<noteq> CHR ''?'') u" and ?q = "dropWhile (\<lambda>c. c \<noteq> CHR ''?'') u"
  have "?q = [] \<or> hd ?q = CHR ''?''" using hd_dropWhile [of "\<lambda>c. c \<noteq> CHR ''?''" u] by auto
  then have q: "?q = [] \<or> (hd ?q \<noteq> CHR ''/'' \<and> hd ?q \<noteq> CHR 0x5C)" by auto
  have c: "on_site (clean_rooted ?p)" by (rule clean_rooted_on_site [OF assms(2)])
  have "on_site (clean_rooted ?p @ ''/'')" if "\<not> suffix ''/'' (clean_rooted ?p)"
    using c that by (cases "clean_rooted ?p") (auto simp: on_site_def hd_append)
  then have "on_site (if suffix ''/'' ?p \<and> \<not> suffix ''/'' (clean_rooted ?p) then clean_rooted ?p @ ''/'' else clean_rooted ?p)"
    using c by simp
  from on_site_escape [OF on_site_append [OF this q]] show ?thesis
    unfolding location_def Let_def if_P [OF True] .
next
  case False
  then show ?thesis using assms(1) by (simp add: location_def on_site_escape)
qed

lemma set_local_path: "set (local_path p) \<subseteq> insert CHR ''/'' (set p)"
  by (auto simp: local_path_def)

lemma append_query_path:
  "set (takeWhile (\<lambda>c. c \<noteq> CHR ''?'') (append_query p query)) \<subseteq> insert CHR ''/'' (set p)"
proof -
  let ?p = "local_path p"
  have "takeWhile (\<lambda>c. c \<noteq> CHR ''?'') (append_query p query) = takeWhile (\<lambda>c. c \<noteq> CHR ''?'') ?p"
  proof (cases "CHR ''?'' \<in> set ?p")
    case True
    then show ?thesis by (simp add: append_query_def Let_def takeWhile_append1)
  next
    case False
    then have "\<not> contains_str ?p ''?''" by (auto simp: contains_iff)
    then show ?thesis by (simp add: append_query_def Let_def takeWhile_tail)
  qed
  then show ?thesis using set_local_path [of p] by (auto dest: set_takeWhileD)
qed

lemma append_query_on_site: "on_site (append_query p query)"
  using local_path_on_site [of p] unfolding append_query_def Let_def
  by (auto intro!: on_site_append)

text \<open>
  Whatever path and query a handler redirects to, the \<^verbatim>\<open>Location\<close> the
  browser gets is a path of this site, provided the path has no backslash.
\<close>

theorem redirect_stays_local:
  assumes "CHR 0x5C \<notin> set p"
  shows "on_site (location (append_query p query))"
  by (rule location_on_site [OF append_query_on_site]) (use append_query_path [of p query] assms in auto)

lemma redirect_stays_local_witness:
  "on_site (location (append_query ''//evil.example/x'' ''error=1''))"
  by (rule redirect_stays_local) code_simp

text \<open>
  The check of \<^verbatim>\<open>localPath\<close> looks at the path before \<^verbatim>\<open>http.Redirect\<close> cleans it: a \<open>..\<close> before a
  backslash passes the check and leaves a target browsers read as another host.
\<close>

lemma backslash_after_cleaning:
  "local_path (''/hosts/../'' @ [CHR 0x5C] @ ''evil.example'') = ''/hosts/../'' @ [CHR 0x5C] @ ''evil.example''"
  "location (append_query (''/hosts/../'' @ [CHR 0x5C] @ ''evil.example'') ''saved=1'')
     = ''/'' @ [CHR 0x5C] @ ''evil.example?saved=1''"
  by code_simp+

text \<open>
  What \<^verbatim>\<open>QueryEscape\<close> leaves of a message starts no other parameter and no fragment.
\<close>

lemma upper_hex_alnum: "is_alnum (upper_hex n)"
proof -
  have "upper_hex n \<in> set ''0123456789ABCDEF''"
    unfolding upper_hex_def by (rule nth_mem) simp
  moreover have "\<forall>c\<in>set ''0123456789ABCDEF''. is_alnum c" by code_simp
  ultimately show ?thesis by blast
qed

lemma query_escape_chars: "c \<in> set (query_escape s) \<Longrightarrow> is_alnum c \<or> c \<in> set ''-_.~+%''"
  unfolding query_escape_def query_escape_char_def by (auto simp: upper_hex_alnum split: if_splits)

end

