(* ===== verification/Auth.thy ===== *)
theory Auth
  imports Web Store_Users "HOL-Library.Word"
begin

text \<open>
  Sessions, roles, form tokens and the throttling of failed logins, \<^verbatim>\<open>src/auth.go\<close> and
  \<^verbatim>\<open>src/users.go\<close>.  HMAC under the process's random key is a parameter \<open>mac\<close>, as are bcrypt's
  functions; the clock is \<open>d_now\<close> in seconds, the limiter's in nanoseconds.
\<close>

section \<open>Access to the pages\<close>

text \<open>A dash, in UTF-8.\<close>

definition em_dash :: string where
  "em_dash = [CHR 0xE2, CHR 0x80, CHR 0x94]"

text \<open>What \<^verbatim>\<open>requireAuth\<close> puts into the context: the user's name and role.\<close>

record web_context =
  cx_user :: string
  cx_role :: string

definition is_admin :: "web_context option \<Rightarrow> bool" where
  "is_admin c \<longleftrightarrow> (case c of None \<Rightarrow> False | Some x \<Rightarrow> cx_role x = ''admin'')"

type_synonym 's handler = "web_context option \<Rightarrow> request \<Rightarrow> ('s, reply) prog"

definition require_admin :: "'s handler \<Rightarrow> 's handler" where
  "require_admin nxt c rq = (if is_admin c then nxt c rq else http_error 403 ''admin role required'')"

definition public_path :: "string \<Rightarrow> bool" where
  "public_path p \<longleftrightarrow> p = ''/login'' \<or> prefix ''/static/'' p \<or> prefix ''/hooks/'' p
     \<or> p = ''/auth/oidc/login'' \<or> p = ''/auth/oidc/callback'' \<or> p = ''/healthz''"

definition csrf_token_for :: "(string \<Rightarrow> string) \<Rightarrow> string \<Rightarrow> string" where
  "csrf_token_for mac session_value = mac session_value"

definition verify_csrf :: "(string \<Rightarrow> string) \<Rightarrow> string \<Rightarrow> string \<Rightarrow> bool" where
  "verify_csrf mac session_value token \<longleftrightarrow> token \<noteq> '''' \<and> csrf_token_for mac session_value = token"

definition require_auth :: "(string \<Rightarrow> string) \<Rightarrow> db handler \<Rightarrow> request \<Rightarrow> (db, reply) prog" where
  "require_auth mac nxt rq =
     (if public_path (rq_path rq) then nxt None rq
      else case rq_cookie rq of
        None \<Rightarrow> answer (SeeOther ''/login'')
      | Some cookie \<Rightarrow>
        tryP (get_session_username cookie) (\<lambda>e. http_error 500 (error_text e)) (\<lambda>u.
          case u of
            None \<Rightarrow> answer_cookie (SeeOther ''/login'') ''''
          | Some username \<Rightarrow>
            tryP (get_user_by_username username) (\<lambda>_. answer_cookie (SeeOther ''/login'') '''') (\<lambda>user.
              if rq_path rq \<noteq> ''/change-password'' \<and> rq_path rq \<noteq> ''/logout'' \<and> u_must_change user
              then answer (SeeOther ''/change-password'')
              else if rq_method rq = ''POST'' \<and> \<not> prefix ''multipart/form-data'' (rq_content_type rq)
              then (case rq_form rq of
                  Inl _ \<Rightarrow> redirect_with_error ''/'' ''could not read form data''
                | Inr _ \<Rightarrow>
                  if \<not> verify_csrf mac cookie (form_value rq ''csrf_token'')
                  then redirect_with_error ''/''
                    (''Your session or this form is stale '' @ em_dash @ '' please reload the page and try again.'')
                  else nxt (Some \<lparr>cx_user = username, cx_role = u_role user\<rparr>) rq)
              else nxt (Some \<lparr>cx_user = username, cx_role = u_role user\<rparr>) rq)))"

section \<open>Throttling failed logins\<close>

text \<open>\<^verbatim>\<open>time.Duration\<close> is a 64-bit count of nanoseconds; \<open>None\<close> is the zero time.\<close>

record login_attempts =
  la_failures :: nat
  la_locked_until :: "int option"
  la_last_seen :: int

type_synonym limiter = "(string \<times> login_attempts) list"

definition login_free_attempts :: nat where
  "login_free_attempts = 5"

definition login_lockout_base :: "64 word" where
  "login_lockout_base = 5000000000"

definition login_lockout_cap :: "64 word" where
  "login_lockout_cap = 300000000000"

definition login_attempts_stale :: int where
  "login_attempts_stale = 3600000000000"

definition limiter_check :: "int \<Rightarrow> string \<Rightarrow> limiter \<Rightarrow> int option" where
  "limiter_check now username l =
     (case map_of l username of
        None \<Rightarrow> None
      | Some a \<Rightarrow>
        (case la_locked_until a of
           None \<Rightarrow> None
         | Some t \<Rightarrow> if t - now > 0 then Some (t - now) else None))"

text \<open>The backoff after \<open>n\<close> failures: shifted and multiplied as \<^verbatim>\<open>int64\<close>.\<close>

definition backoff :: "nat \<Rightarrow> int" where
  "backoff n =
     (let b = login_lockout_base * push_bit (n - login_free_attempts - 1) (1 :: 64 word) in
      if sint b > sint login_lockout_cap then sint login_lockout_cap else sint b)"

definition sweep_attempts :: "int \<Rightarrow> limiter \<Rightarrow> limiter" where
  "sweep_attempts now l = filter (\<lambda>p. \<not> now - la_last_seen (snd p) > login_attempts_stale) l"

definition record_failure :: "int \<Rightarrow> string \<Rightarrow> limiter \<Rightarrow> limiter" where
  "record_failure now username l =
     (let l = sweep_attempts now l;
          a = (case map_of l username of
                 None \<Rightarrow> \<lparr>la_failures = 0, la_locked_until = None, la_last_seen = 0\<rparr> | Some a \<Rightarrow> a);
          a = a\<lparr>la_failures := la_failures a + 1, la_last_seen := now\<rparr>;
          a = (if la_failures a > login_free_attempts
               then a\<lparr>la_locked_until := Some (now + backoff (la_failures a))\<rparr> else a) in
      put_assoc username a l)"

definition limiter_clear :: "string \<Rightarrow> limiter \<Rightarrow> limiter" where
  "limiter_clear username l = del_assoc username l"

section \<open>Signing in and out\<close>

record auth_state =
  as_db :: db
  as_limiter :: limiter

abbreviation on_db :: "(db, 'a) prog \<Rightarrow> (auth_state, 'a) prog" where
  "on_db \<equiv> zoomP as_db (\<lambda>d s. s\<lparr>as_db := d\<rparr>)"

definition audit :: "web_context option \<Rightarrow> string \<Rightarrow> string \<Rightarrow> string \<Rightarrow> (db, unit) prog" where
  "audit c action target detail =
     ignoreP (record_audit (case c of None \<Rightarrow> '''' | Some x \<Rightarrow> cx_user x) action target detail)"

definition audit_system :: "string \<Rightarrow> string \<Rightarrow> string \<Rightarrow> string \<Rightarrow> (db, unit) prog" where
  "audit_system actor action target detail = ignoreP (record_audit actor action target detail)"

text \<open>
  \<open>disabled\<close> is whether an OIDC configuration turns local sign-in off, \<open>show\<close> how \<^verbatim>\<open>time.Duration\<close>
  prints a rounded wait.
\<close>

definition login_handler :: "(string \<Rightarrow> string \<Rightarrow> bool) \<Rightarrow> (int \<Rightarrow> string) \<Rightarrow> bool \<Rightarrow> int \<Rightarrow> request \<Rightarrow> (auth_state, reply) prog" where
  "login_handler cmp show disabled now rq =
     (if disabled then answer (Page ''login.html'' (''Local sign-in is disabled '' @ em_dash @ '' use SSO.''))
      else
        let username = trim_space (form_value rq ''username''); password = form_value rq ''password'' in
        bindP (getP (\<lambda>s. limiter_check now username (as_limiter s))) (\<lambda>locked.
          case locked of
            Some retry_after \<Rightarrow>
              answer (Page ''login.html'' (''Too many failed attempts. Try again in '' @ show retry_after @ ''.''))
          | None \<Rightarrow>
            tryP (on_db (verify_user_credentials cmp username password)) (\<lambda>e. http_error 500 (error_text e)) (\<lambda>ok.
              if \<not> ok then
                bindP (modP (\<lambda>s. s\<lparr>as_limiter := record_failure now username (as_limiter s)\<rparr>)) (\<lambda>_.
                  answer (Page ''login.html'' ''Invalid username or password.''))
              else
                bindP (modP (\<lambda>s. s\<lparr>as_limiter := limiter_clear username (as_limiter s)\<rparr>)) (\<lambda>_.
                tryP (on_db (touch_user_login username)) (\<lambda>e. http_error 500 (error_text e)) (\<lambda>_.
                tryP (on_db (create_session username)) (\<lambda>e. http_error 500 (error_text e)) (\<lambda>token.
                bindP (on_db (audit_system username ''auth.login'' username ''local'')) (\<lambda>_.
                  answer_cookie (SeeOther ''/'') token)))))))"

definition logout_handler :: "request \<Rightarrow> (db, reply) prog" where
  "logout_handler rq =
     (case rq_cookie rq of
        None \<Rightarrow> answer_cookie (SeeOther ''/login'') ''''
      | Some cookie \<Rightarrow>
        bindP (tryP (get_session_username cookie) (\<lambda>_. okP ()) (\<lambda>u.
            case u of None \<Rightarrow> okP () | Some username \<Rightarrow> audit_system username ''auth.logout'' username '''')) (\<lambda>_.
        tryP (delete_session cookie) (\<lambda>e. http_error 500 (error_text e)) (\<lambda>_.
          answer_cookie (SeeOther ''/login'') '''')))"

definition change_password_handler :: "(string \<Rightarrow> string result) \<Rightarrow> (string \<Rightarrow> string \<Rightarrow> bool) \<Rightarrow> db handler" where
  "change_password_handler gen cmp c rq =
     (let username = (case c of None \<Rightarrow> '''' | Some x \<Rightarrow> cx_user x);
          new_password = form_value rq ''new_password'' in
      tryP (verify_user_credentials cmp username (form_value rq ''current_password'')) (\<lambda>e. http_error 500 (error_text e)) (\<lambda>ok.
        if \<not> ok then answer (Page ''change_password.html'' ''Current password is incorrect.'')
        else if length new_password < 8
        then answer (Page ''change_password.html'' ''New password must be at least 8 characters.'')
        else if new_password \<noteq> form_value rq ''confirm_password''
        then answer (Page ''change_password.html'' ''New password and confirmation don't match.'')
        else tryP (set_user_password gen username new_password) (\<lambda>e. http_error 500 (error_text e)) (\<lambda>_.
               answer (SeeOther ''/''))))"

section \<open>Managing accounts\<close>

definition users_handler :: "db handler" where
  "users_handler c rq =
     tryP list_users (\<lambda>e. http_error 500 (error_text e)) (\<lambda>_. answer (Page ''users.html'' ''''))"

definition create_user_handler :: "(string \<Rightarrow> string result) \<Rightarrow> db handler" where
  "create_user_handler gen c rq =
     (let username = trim_space (form_value rq ''username''); password = form_value rq ''password'';
          role = form_value rq ''role'' in
      if username = '''' \<or> password = '''' then http_error 400 ''username and password are required''
      else if length password < 8 then http_error 400 ''password must be at least 8 characters''
      else if role \<noteq> ''admin'' \<and> role \<noteq> ''operator'' then http_error 400 ''invalid role''
      else tryP (create_user gen username password role)
        (\<lambda>e. http_error 409 (''could not create user (username already taken?): '' @ error_text e))
        (\<lambda>_. bindP (audit c ''user.create'' username role) (\<lambda>_.
          redirect_with_saved_message ''/users'' ''User created'')))"

text \<open>The name in the path is an argument of the handlers below.\<close>

definition set_user_role_handler :: "string \<Rightarrow> db handler" where
  "set_user_role_handler username c rq =
     (let role = form_value rq ''role'' in
      if role \<noteq> ''admin'' \<and> role \<noteq> ''operator'' then http_error 400 ''invalid role''
      else tryP (set_user_role username role) (\<lambda>e. http_error 409 (error_text e))
        (\<lambda>_. bindP (audit c ''user.role_change'' username role) (\<lambda>_.
          redirect_with_saved_message ''/users'' ''Role updated'')))"

definition delete_user_handler :: "string \<Rightarrow> db handler" where
  "delete_user_handler username c rq =
     tryP (delete_user username) (\<lambda>e. http_error 409 (error_text e))
       (\<lambda>_. bindP (audit c ''user.delete'' username '''') (\<lambda>_.
          redirect_with_saved_message ''/users'' ''User deleted''))"

text \<open>The new password is drawn, and only this page shows it.\<close>

definition reset_user_password_handler :: "(string \<Rightarrow> string result) \<Rightarrow> string \<Rightarrow> db handler" where
  "reset_user_password_handler gen username c rq =
     bindP (tryP (get_user_by_username username) (\<lambda>_. okP False)
         (\<lambda>u. okP (case u_oidc_issuer u of None \<Rightarrow> False | Some i \<Rightarrow> i \<noteq> ''''))) (\<lambda>sso.
       if sso then redirect_with_error ''/users''
         (''this account signs in via SSO '' @ em_dash @ '' there's no local password to reset'')
       else bindP draw (\<lambda>new_password.
         tryP (admin_reset_user_password gen username new_password) (\<lambda>e. http_error 500 (error_text e))
           (\<lambda>_. bindP (audit c ''user.reset_password'' username '''') (\<lambda>_.
              answer (Page ''user_password_reset.html'' '''')))))"

section \<open>The login limiter\<close>

text \<open>
  Up to 36 failures the shift and the product fit 63 bits: the backoff is the one meant, five
  seconds doubled at each failure after the sixth and capped at five minutes.
\<close>

lemma backoff_small:
  assumes "6 \<le> n" "n \<le> 36"
  shows "backoff n = min (5000000000 * 2 ^ (n - 6)) 300000000000"
proof -
  have "\<forall>k\<in>set [0..<31]. backoff (k + 6) = min (5000000000 * 2 ^ k) 300000000000"
    by code_simp
  moreover have "n - 6 \<in> set [0..<31]" using assms by auto
  ultimately have "backoff (n - 6 + 6) = min (5000000000 * 2 ^ (n - 6)) 300000000000" by blast
  then show ?thesis using assms by simp
qed

lemma backoff_37: "backoff 37 < 0"
  by code_simp

text \<open>The product is a multiple of \<open>2 ^ 64\<close> from the 61st failure on: there is no lock any more.\<close>

lemma backoff_large:
  assumes "61 \<le> n"
  shows "backoff n = 0"
proof -
  obtain k where n: "n = 61 + k" using assms le_Suc_ex by blast
  have "login_lockout_base * push_bit (n - login_free_attempts - 1) (1 :: 64 word)
      = push_bit k (login_lockout_base * push_bit 55 1)"
    by (simp add: n login_free_attempts_def push_bit_eq_mult power_add algebra_simps)
  also have "login_lockout_base * push_bit 55 (1 :: 64 word) = 0" by code_simp
  finally show ?thesis by (simp add: backoff_def Let_def login_lockout_cap_def)
qed

text \<open>An entry that is not stale, with \<open>n\<close> failures.\<close>

definition has_failed :: "nat \<Rightarrow> int \<Rightarrow> string \<Rightarrow> limiter \<Rightarrow> bool" where
  "has_failed n now u l \<longleftrightarrow>
     (case map_of l u of None \<Rightarrow> n = 0
      | Some a \<Rightarrow> la_failures a = n \<and> now - la_last_seen a \<le> login_attempts_stale)"

lemma map_of_sweep:
  "distinct (map fst l) \<Longrightarrow> map_of (sweep_attempts now l) u =
     (case map_of l u of None \<Rightarrow> None
      | Some a \<Rightarrow> if now - la_last_seen a > login_attempts_stale then None else Some a)"
  by (induction l) (auto simp: sweep_attempts_def map_of_eq_None_iff image_iff split: option.splits)

lemma after_failure:
  assumes "distinct (map fst l)" and "has_failed n now u l"
  shows "\<exists>a. map_of (record_failure now u l) u = Some a \<and> la_failures a = n + 1 \<and> la_last_seen a = now
           \<and> (n + 1 > login_free_attempts \<longrightarrow> la_locked_until a = Some (now + backoff (n + 1)))"
  using assms(2)
  by (auto simp: record_failure_def Let_def map_of_sweep [OF assms(1)] has_failed_def split: option.splits)

text \<open>
  C13 lockout_exact.  From the sixth consecutive failure to the 36th, an account is locked for exactly
  five seconds times two to the number of failures beyond the sixth, at most five minutes.
\<close>

theorem lockout_exact:
  assumes "distinct (map fst l)" and "has_failed n now u l" and "5 \<le> n" "n < 36"
  shows "limiter_check t u (record_failure now u l) =
           (let remaining = now + min (5000000000 * 2 ^ (n - 5)) 300000000000 - t in
            if remaining > 0 then Some remaining else None)"
proof -
  obtain a where a: "map_of (record_failure now u l) u = Some a" "la_locked_until a = Some (now + backoff (n + 1))"
    using after_failure [OF assms(1,2)] assms(3) by (auto simp: login_free_attempts_def)
  have "backoff (n + 1) = min (5000000000 * 2 ^ (n - 5)) 300000000000"
    using backoff_small [of "n + 1"] assms(3,4) by (simp add: Suc_diff_le)
  then show ?thesis by (simp add: limiter_check_def a Let_def)
qed

definition failing :: "nat \<Rightarrow> limiter" where
  "failing n = [(''root'', \<lparr>la_failures = n, la_locked_until = None, la_last_seen = 0\<rparr>)]"

lemma lockout_exact_witness:
  "limiter_check 1 ''root'' (record_failure 0 ''root'' (failing 7)) = Some 19999999999"
  by (rule trans [OF lockout_exact [of "failing 7" 7]])
     (simp_all add: failing_def has_failed_def login_attempts_stale_def)

text \<open>
  From the 61st consecutive failure on an account is never locked: the
  duration overflows 64 bits and is zero, so guessing is no longer throttled.
\<close>

theorem lockout_overflow:
  assumes "distinct (map fst l)" and "has_failed n now u l" and "60 \<le> n" and "now \<le> t"
  shows "limiter_check t u (record_failure now u l) = None"
proof -
  obtain a where a: "map_of (record_failure now u l) u = Some a" "la_locked_until a = Some (now + backoff (n + 1))"
    using after_failure [OF assms(1,2)] assms(3) by (auto simp: login_free_attempts_def)
  then show ?thesis using backoff_large [of "n + 1"] assms(3,4) by (simp add: limiter_check_def)
qed

lemma lockout_overflow_witness:
  "limiter_check 0 ''root'' (record_failure 0 ''root'' (failing 60)) = None"
  by (rule lockout_overflow [of "failing 60" 60])
     (simp_all add: failing_def has_failed_def login_attempts_stale_def)

section \<open>Who reaches a handler\<close>

definition live_session :: "db \<Rightarrow> string \<Rightarrow> string \<Rightarrow> bool" where
  "live_session d cookie name \<longleftrightarrow>
     (\<exists>s\<in>set (d_sessions d). s_token s = cookie \<and> d_now d < s_expires s \<and> s_user s = name)"

text \<open>What a request must carry besides its session.\<close>

definition request_accepted :: "(string \<Rightarrow> string) \<Rightarrow> request \<Rightarrow> string \<Rightarrow> user \<Rightarrow> bool" where
  "request_accepted mac rq cookie u \<longleftrightarrow>
     (u_must_change u \<longrightarrow> rq_path rq = ''/change-password'' \<or> rq_path rq = ''/logout'') \<and>
     (rq_method rq = ''POST'' \<and> \<not> prefix ''multipart/form-data'' (rq_content_type rq) \<longrightarrow>
        is_ok (rq_form rq) \<and> verify_csrf mac cookie (form_value rq ''csrf_token''))"

lemma get_session_Some:
  assumes "get_session_username cookie d = (Inr (Some name), d')"
  shows "live_session d cookie name" "\<exists>fs. d' = d\<lparr>d_faults := fs\<rparr>"
proof -
  from assms have sel: "select (\<lambda>d. map_option s_user (find (\<lambda>s. s_token s = cookie \<and> d_now d < s_expires s) (d_sessions d))) d = (Inr (Some name), d')"
    by (simp add: get_session_username_def)
  then show "live_session d cookie name"
    by (cases rule: select_cases) (auto simp: live_session_def dest!: find_in sym [of "Some name"])
  show "\<exists>fs. d' = d\<lparr>d_faults := fs\<rparr>" by (rule select_state [OF sel])
qed

lemma get_user_Inr:
  assumes "get_user_by_username name d = (Inr u, d')"
  shows "find_user d name = Some u" "\<exists>fs. d' = d\<lparr>d_faults := fs\<rparr>"
proof -
  from assms have sel: "select (\<lambda>d. find_user d name) d = (Inr (Some u), d')"
    by (auto simp: get_user_by_username_def one_row_def bindP_Inr split: option.splits)
  then show "find_user d name = Some u"
    by (cases rule: select_cases) (auto simp: find_user_def)
  show "\<exists>fs. d' = d\<lparr>d_faults := fs\<rparr>" by (rule select_state [OF sel])
qed

text \<open>The body of \<^verbatim>\<open>requireAuth\<close> once the user is known.\<close>

lemma require_auth_user:
  assumes "\<not> public_path (rq_path rq)" and "rq_cookie rq = Some cookie"
    and "get_session_username cookie d = (Inr (Some name), d1)"
    and "get_user_by_username name d1 = (Inr u, d2)"
  shows "request_accepted mac rq cookie u \<Longrightarrow>
           require_auth mac nxt rq d = nxt (Some \<lparr>cx_user = name, cx_role = u_role u\<rparr>) rq d2"
    and "\<not> request_accepted mac rq cookie u \<Longrightarrow> require_auth mac nxt rq d = require_auth mac nxt' rq d"
  using assms
  by (auto simp: require_auth_def request_accepted_def tryP_def is_ok_def split: sum.splits)

lemma handler_reached:
  assumes "\<not> public_path (rq_path rq)" and "require_auth mac nxt1 rq d \<noteq> require_auth mac nxt2 rq d"
  shows "\<exists>cookie u fs. rq_cookie rq = Some cookie \<and> live_session d cookie (u_name u) \<and> find_user d (u_name u) = Some u
      \<and> request_accepted mac rq cookie u
      \<and> (\<forall>nxt. require_auth mac nxt rq d = nxt (Some \<lparr>cx_user = u_name u, cx_role = u_role u\<rparr>) rq (d\<lparr>d_faults := fs\<rparr>))"
proof -
  obtain cookie where c: "rq_cookie rq = Some cookie"
    using assms by (cases "rq_cookie rq") (auto simp: require_auth_def)
  obtain r1 d1 where g: "get_session_username cookie d = (r1, d1)" by (cases "get_session_username cookie d")
  obtain name where name: "r1 = Inr (Some name)"
    using assms c g by (cases r1) (auto simp: require_auth_def tryP_def split: option.splits)
  obtain r2 d2 where h: "get_user_by_username name d1 = (r2, d2)" by (cases "get_user_by_username name d1")
  obtain u where u: "r2 = Inr u"
    using assms c g name h by (cases r2) (auto simp: require_auth_def tryP_def)
  note cx = require_auth_user [OF assms(1) c g [unfolded name] h [unfolded u]]
  have acc: "request_accepted mac rq cookie u" using cx(2) assms(2) by blast
  obtain fs where fs: "d1 = d\<lparr>d_faults := fs\<rparr>" using get_session_Some(2) g name by blast
  have user: "find_user d name = Some u" using get_user_Inr(1) [OF h [unfolded u]] fs by (simp add: find_user_def)
  then have n: "u_name u = name" by (auto simp: find_user_def dest: find_in)
  obtain gs where "d2 = d\<lparr>d_faults := gs\<rparr>" using get_user_Inr(2) [OF h [unfolded u]] fs by auto
  with cx(1) [OF acc] n user c acc get_session_Some(1) [OF g [unfolded name]] show ?thesis by blast
qed

text \<open>
  C12 auth_required.  Outside the public paths, what is behind \<^verbatim>\<open>requireAuth\<close> can only matter when the
  cookie is the token of a live session of an existing account, the account need not change its
  password first, and a form carries the session's token; it is then called with that account's
  name and its present role.
\<close>

theorem auth_required:
  assumes "\<not> public_path (rq_path rq)" and "require_auth mac nxt1 rq d \<noteq> require_auth mac nxt2 rq d"
  shows "\<exists>cookie u fs. rq_cookie rq = Some cookie \<and> live_session d cookie (u_name u) \<and> find_user d (u_name u) = Some u
      \<and> request_accepted mac rq cookie u
      \<and> (\<forall>nxt. require_auth mac nxt rq d = nxt (Some \<lparr>cx_user = u_name u, cx_role = u_role u\<rparr>) rq (d\<lparr>d_faults := fs\<rparr>))"
  by (rule handler_reached [OF assms])

definition post_request :: "string \<Rightarrow> string \<Rightarrow> string \<Rightarrow> request" where
  "post_request p cookie token =
     \<lparr>rq_method = ''POST'', rq_path = p, rq_content_type = ''application/x-www-form-urlencoded'',
      rq_cookie = Some cookie, rq_form = Inr [(''csrf_token'', token)]\<rparr>"

definition signed_in :: db where
  "signed_in = snd (create_session ''root'' ((empty_db 0 (\<lambda>_. ''tok''))\<lparr>d_users :=
     [\<lparr>u_name = ''root'', u_hash = '''', u_role = ''admin'', u_must_change = False, u_oidc_subject = None,
       u_oidc_issuer = None, u_created = 0, u_last_login = None\<rparr>]\<rparr>))"

lemma auth_required_witness:
  "\<exists>cookie u fs. rq_cookie (post_request ''/users'' ''tok'' ''tok!'') = Some cookie
      \<and> live_session signed_in cookie (u_name u) \<and> find_user signed_in (u_name u) = Some u
      \<and> request_accepted (\<lambda>s. s @ ''!'') (post_request ''/users'' ''tok'' ''tok!'') cookie u
      \<and> (\<forall>nxt. require_auth (\<lambda>s. s @ ''!'') nxt (post_request ''/users'' ''tok'' ''tok!'') signed_in
            = nxt (Some \<lparr>cx_user = u_name u, cx_role = u_role u\<rparr>) (post_request ''/users'' ''tok'' ''tok!'') (signed_in\<lparr>d_faults := fs\<rparr>))"
proof (rule auth_required)
  show "\<not> public_path (rq_path (post_request ''/users'' ''tok'' ''tok!''))" by code_simp
  have "fst (require_auth (\<lambda>s. s @ ''!'') (\<lambda>_ _. http_error 200 '''') (post_request ''/users'' ''tok'' ''tok!'') signed_in)
      \<noteq> fst (require_auth (\<lambda>s. s @ ''!'') (\<lambda>_ _. http_error 201 '''') (post_request ''/users'' ''tok'' ''tok!'') signed_in)"
    by code_simp
  then show "require_auth (\<lambda>s. s @ ''!'') (\<lambda>_ _. http_error 200 '''') (post_request ''/users'' ''tok'' ''tok!'') signed_in
      \<noteq> require_auth (\<lambda>s. s @ ''!'') (\<lambda>_ _. http_error 201 '''') (post_request ''/users'' ''tok'' ''tok!'') signed_in"
    by metis
qed

text \<open>
  What is behind \<^verbatim>\<open>requireAdmin\<close> can only matter for the session of an account whose
  role, at the time of the request, is administrator.
\<close>

theorem admin_only:
  assumes "\<not> public_path (rq_path rq)"
    and "require_auth mac (require_admin nxt1) rq d \<noteq> require_auth mac (require_admin nxt2) rq d"
  shows "\<exists>cookie u. rq_cookie rq = Some cookie \<and> live_session d cookie (u_name u)
           \<and> find_user d (u_name u) = Some u \<and> u_role u = ''admin''"
proof -
  from handler_reached [OF assms] obtain cookie u fs where r: "rq_cookie rq = Some cookie" "live_session d cookie (u_name u)"
      "find_user d (u_name u) = Some u"
    and all: "\<And>nxt. require_auth mac nxt rq d = nxt (Some \<lparr>cx_user = u_name u, cx_role = u_role u\<rparr>) rq (d\<lparr>d_faults := fs\<rparr>)"
    by blast
  have "u_role u = ''admin''"
    using assms(2) unfolding all by (rule contrapos_np) (simp add: require_admin_def is_admin_def)
  with r show ?thesis by blast
qed

lemma admin_only_witness:
  "\<exists>cookie u. rq_cookie (post_request ''/users'' ''tok'' ''tok!'') = Some cookie \<and> live_session signed_in cookie (u_name u)
           \<and> find_user signed_in (u_name u) = Some u \<and> u_role u = ''admin''"
proof (rule admin_only)
  show "\<not> public_path (rq_path (post_request ''/users'' ''tok'' ''tok!''))" by code_simp
  have "fst (require_auth (\<lambda>s. s @ ''!'') (require_admin (\<lambda>_ _. http_error 200 '''')) (post_request ''/users'' ''tok'' ''tok!'') signed_in)
      \<noteq> fst (require_auth (\<lambda>s. s @ ''!'') (require_admin (\<lambda>_ _. http_error 201 '''')) (post_request ''/users'' ''tok'' ''tok!'') signed_in)"
    by code_simp
  then show "require_auth (\<lambda>s. s @ ''!'') (require_admin (\<lambda>_ _. http_error 200 '''')) (post_request ''/users'' ''tok'' ''tok!'') signed_in
      \<noteq> require_auth (\<lambda>s. s @ ''!'') (require_admin (\<lambda>_ _. http_error 201 '''')) (post_request ''/users'' ''tok'' ''tok!'') signed_in"
    by metis
qed

end
