(* ===== verification/Secret_Connections.thy ===== *)
theory Secret_Connections
  imports Path_Rules Store_Secrets
begin

text \<open>
  How a stack's connection is found and completed, \<^verbatim>\<open>src/secret_connections.go\<close>.  The credentials of
  a connection live in the custodian of keys: \<open>creds\<close> looks them up.  \<open>digest\<close> is that of
  \<open>new_effective\<close>.
\<close>

definition effective_for_stack ::
  "(string \<Rightarrow> (string \<times> string) list \<Rightarrow> (string \<times> string) list \<Rightarrow> string)
     \<Rightarrow> (string \<Rightarrow> (string \<times> string) list result) \<Rightarrow> secret_connection \<Rightarrow> string \<Rightarrow> string list
     \<Rightarrow> (db, effective) prog" where
  "effective_for_stack digest creds conn stack prefs =
     bindP
       (if sc_parent conn \<noteq> '''' then
          tryP (get_secret_connection (sc_parent conn))
            (\<lambda>e. failP (ErrWrap (''load the connection '' @ quoted (sc_name conn) @ '' inherits from: '') e))
            (\<lambda>parent. okP (sc_config parent, ''this stack's own credentials on '' @ quoted (sc_name parent)))
        else if sc_stack conn \<noteq> '''' then okP (sc_config conn, ''this stack's own connection'')
        else okP (sc_config conn, ''connection '' @ quoted (sc_name conn)))
       (\<lambda>(config, source).
          bindP (liftP (creds (sc_id conn))) (\<lambda>cs.
          if cs = [] then failP (ErrText (''connection '' @ quoted (sc_name conn) @
              '' has no credentials: give this stack its own''))
          else liftP (apply_path_rules (new_effective digest (sc_type conn) config cs prefs source) stack)))"

definition effective_for ::
  "(string \<Rightarrow> (string \<times> string) list \<Rightarrow> (string \<times> string) list \<Rightarrow> string)
     \<Rightarrow> (string \<Rightarrow> (string \<times> string) list result) \<Rightarrow> secret_connection \<Rightarrow> string list
     \<Rightarrow> (db, effective) prog" where
  "effective_for digest creds conn prefs = effective_for_stack digest creds conn '''' prefs"

definition stack_binding ::
  "(string \<Rightarrow> (string \<times> string) list \<Rightarrow> (string \<times> string) list \<Rightarrow> string)
     \<Rightarrow> (string \<Rightarrow> (string \<times> string) list result) \<Rightarrow> string \<Rightarrow> string \<Rightarrow> (db, effective) prog" where
  "stack_binding digest creds stack scheme =
     tryP (get_secret_binding stack scheme)
       (\<lambda>e. if error_is e ErrNotFound then failP (ErrNoBinding scheme) else failP e)
       (\<lambda>b. tryP (get_secret_connection (sb_connection b))
          (\<lambda>e. failP (ErrWrap (''load this stack's '' @ scheme @ '' connection: '') e))
          (\<lambda>conn. effective_for_stack digest creds conn stack (sb_prefixes b)))"

section \<open>What a stack's connection is made of\<close>

lemma get_secret_connection_Inr:
  assumes "get_secret_connection i d = (Inr c, d')"
  shows "find_connection d i = Some c" and "\<exists>fs. d' = d\<lparr>d_faults := fs\<rparr>"
  using one_row_Inr [OF assms [unfolded get_secret_connection_def]] by (simp_all add: find_connection_def)

lemma get_secret_binding_Inr:
  assumes "get_secret_binding st t d = (Inr b, d')"
  shows "find (binding_key st t) (d_bindings d) = Some b" and "\<exists>fs. d' = d\<lparr>d_faults := fs\<rparr>"
  using one_row_Inr [OF assms [unfolded get_secret_binding_def]] by simp_all

text \<open>The connection whose settings apply: the parent's when there is one.\<close>

definition settings_of :: "db \<Rightarrow> secret_connection \<Rightarrow> (string \<times> string) list option" where
  "settings_of d conn =
     (if sc_parent conn \<noteq> '''' then map_option sc_config (find_connection d (sc_parent conn))
      else Some (sc_config conn))"

lemma effective_for_stack_Inr:
  assumes "effective_for_stack digest creds conn stack prefs d = (Inr eff, d')"
  shows "ef_type eff = sc_type conn \<and> settings_of d conn = Some (ef_config eff)
     \<and> creds (sc_id conn) = Inr (ef_credentials eff) \<and> ef_credentials eff \<noteq> [] \<and> ef_prefixes eff = prefs
     \<and> (\<exists>rules. parse_rules (get_str (ef_config eff) path_rules_key) = Inr rules
           \<and> ef_rules eff = expand_rules rules stack \<and> (ef_has_rules eff \<longleftrightarrow> rules \<noteq> []))"
proof -
  let ?src = "if sc_parent conn \<noteq> '''' then
          tryP (get_secret_connection (sc_parent conn))
            (\<lambda>e. failP (ErrWrap (''load the connection '' @ quoted (sc_name conn) @ '' inherits from: '') e))
            (\<lambda>parent. okP (sc_config parent, ''this stack's own credentials on '' @ quoted (sc_name parent)))
        else if sc_stack conn \<noteq> '''' then okP (sc_config conn, ''this stack's own connection'')
        else okP (sc_config conn, ''connection '' @ quoted (sc_name conn))"
  from assms obtain config source d1 cs where src: "?src d = (Inr (config, source), d1)"
    and cs: "creds (sc_id conn) = Inr cs" "cs \<noteq> []"
    and app: "apply_path_rules (new_effective digest (sc_type conn) config cs prefs source) stack = Inr eff"
    unfolding effective_for_stack_def by (auto simp: bindP_Inr split: if_splits)
  have "settings_of d conn = Some config"
  proof (cases "sc_parent conn = ''''")
    case True
    with src show ?thesis by (auto simp: settings_of_def split: if_splits)
  next
    case False
    with src obtain parent d2 where "get_secret_connection (sc_parent conn) d = (Inr parent, d2)" "config = sc_config parent"
      by (auto simp: tryP_def split: prod.splits sum.splits)
    with False get_secret_connection_Inr(1) show ?thesis by (auto simp: settings_of_def)
  qed
  then show ?thesis
    using cs app by (auto simp: apply_path_rules_def new_effective_def result_simps)
qed

text \<open>
  The connection a stack's references are read with is the one the stack is
  bound to for that provider: its type, its own credentials (never those of the connection it
  inherits from), the settings of its parent when it has one, the prefixes of the binding, and the
  path rules of those settings expanded for this very stack.
\<close>

theorem stack_connection:
  assumes "stack_binding digest creds stack scheme d = (Inr eff, d')"
  shows "\<exists>b conn rules. find (binding_key stack scheme) (d_bindings d) = Some b
     \<and> find_connection d (sb_connection b) = Some conn
     \<and> ef_type eff = sc_type conn \<and> settings_of d conn = Some (ef_config eff)
     \<and> creds (sc_id conn) = Inr (ef_credentials eff) \<and> ef_prefixes eff = sb_prefixes b
     \<and> parse_rules (get_str (ef_config eff) path_rules_key) = Inr rules
     \<and> ef_rules eff = expand_rules rules stack"
proof -
  from assms obtain b d1 conn d2 where b: "get_secret_binding stack scheme d = (Inr b, d1)"
    and conn: "get_secret_connection (sb_connection b) d1 = (Inr conn, d2)"
    and eff: "effective_for_stack digest creds conn stack (sb_prefixes b) d2 = (Inr eff, d')"
    unfolding stack_binding_def by (auto simp: tryP_def split: prod.splits sum.splits if_splits)
  obtain fs where d1: "d1 = d\<lparr>d_faults := fs\<rparr>" using get_secret_binding_Inr(2) [OF b] by blast
  obtain gs where d2: "d2 = d\<lparr>d_faults := gs\<rparr>" using get_secret_connection_Inr(2) [OF conn] d1 by auto
  have s: "settings_of d2 conn = settings_of d conn" by (simp add: d2 settings_of_def find_connection_def)
  have "find_connection d (sb_connection b) = Some conn"
    using get_secret_connection_Inr(1) [OF conn] by (simp add: d1 find_connection_def)
  with get_secret_binding_Inr(1) [OF b] effective_for_stack_Inr [OF eff] s show ?thesis by auto
qed

definition bound_db :: db where
  "bound_db = (empty_db 0 (\<lambda>_. ''''))\<lparr>
     d_secret_conns :=
       [\<lparr>sc_id = ''g'', sc_name = ''bao'', sc_type = ''vault'', sc_stack = '''', sc_parent = '''',
         sc_config = [(''address'', ''https://bao'')], sc_created = 0\<rparr>,
        \<lparr>sc_id = ''l'', sc_name = ''blog'', sc_type = ''vault'', sc_stack = ''blog'', sc_parent = ''g'',
         sc_config = [], sc_created = 0\<rparr>],
     d_bindings := [\<lparr>sb_stack = ''blog'', sb_type = ''vault'', sb_connection = ''l'', sb_prefixes = [''kv/blog'']\<rparr>]\<rparr>"

lemma stack_connection_witness:
  "let eff = projr (fst (stack_binding (\<lambda>_ _ _. '''') (\<lambda>i. Inr [(''token'', i)]) ''blog'' ''vault'' bound_db)) in
   \<exists>b conn rules. find (binding_key ''blog'' ''vault'') (d_bindings bound_db) = Some b
     \<and> find_connection bound_db (sb_connection b) = Some conn
     \<and> ef_type eff = sc_type conn \<and> settings_of bound_db conn = Some (ef_config eff)
     \<and> (Inr [(''token'', sc_id conn)] :: (string \<times> string) list result) = Inr (ef_credentials eff) \<and> ef_prefixes eff = sb_prefixes b
     \<and> parse_rules (get_str (ef_config eff) path_rules_key) = Inr rules
     \<and> ef_rules eff = expand_rules rules ''blog''"
proof -
  let ?run = "stack_binding (\<lambda>_ _ _. '''') (\<lambda>i. Inr [(''token'', i)]) ''blog'' ''vault'' bound_db"
  have "is_ok (fst ?run)" by code_simp
  then obtain eff where eff: "fst ?run = Inr eff" by (auto simp: is_ok_iff)
  from stack_connection [OF run_eqI, OF eff] show ?thesis by (simp add: eff Let_def)
qed

end
