(* ===== verification/Agent_Channel.thy ===== *)
theory Agent_Channel
  imports Store_Hosts Store_Users Web Auth Versions
begin

text \<open>
  Enrollment and the authentication of agents, \<^verbatim>\<open>src/agent_protocol.go\<close>.  \<open>fpr\<close> is the fingerprint of
  a certificate (\<^verbatim>\<open>identity.Fingerprint\<close>), \<open>hash\<close> that of an enrollment token; a body that does not
  decode is an error value.  An approved agent is one whose certificate belongs to a connected host.
\<close>

section \<open>Requests and answers\<close>

record agent_request =
  ar_cert :: "string option"
  ar_authorization :: string

record command_response =
  cr_deployment :: string
  cr_stack :: string
  cr_source :: string
  cr_action :: string
  cr_compose :: string
  cr_env :: "(string \<times> string) list"
  cr_repo :: string
  cr_branch :: string
  cr_compose_path :: string
  cr_auth_kind :: string
  cr_ssh_key :: string
  cr_http_user :: string
  cr_http_password :: string
  cr_registry_auths :: "(string \<times> string \<times> string) list"

text \<open>\<^verbatim>\<open>http.Error\<close>, an empty answer, and the JSON bodies of the handlers.\<close>

datatype agent_answer =
    AgError nat string
  | AgNoContent
  | AgEnroll nat string string
  | AgCommand command_response
  | AgPlaintext string
  | AgEnv "(string \<times> string) list" "string list"

text \<open>The database, when each refusal was last audited, and the background jobs started.\<close>

record agent_state =
  ag_db :: db
  ag_refusals :: "(string \<times> int) list"
  ag_started :: "(string \<times> string) list"

abbreviation with_db :: "(db, 'a) prog \<Rightarrow> (agent_state, 'a) prog" where
  "with_db \<equiv> zoomP ag_db (\<lambda>d s. s\<lparr>ag_db := d\<rparr>)"

definition ag_error :: "nat \<Rightarrow> string \<Rightarrow> (agent_state, agent_answer) prog" where
  "ag_error code t = okP (AgError code t)"

definition ag_fail :: "nat \<Rightarrow> gerr \<Rightarrow> (agent_state, agent_answer) prog" where
  "ag_fail code e = ag_error code (error_text e)"

section \<open>Who is calling\<close>

definition caller_fingerprint :: "(string \<Rightarrow> string) \<Rightarrow> agent_request \<Rightarrow> string result" where
  "caller_fingerprint fpr rq =
     (case ar_cert rq of None \<Rightarrow> err_text ''no client certificate presented'' | Some raw \<Rightarrow> Inr (fpr raw))"

definition verify_caller :: "(string \<Rightarrow> string) \<Rightarrow> agent_request \<Rightarrow> string \<Rightarrow> (db, unit) prog" where
  "verify_caller fpr rq host_id =
     bindP (liftP (caller_fingerprint fpr rq)) (\<lambda>fp.
     bindP (get_host host_id) (\<lambda>h.
       if h_fp h = fp then okP ()
       else
         let mismatch = failP (ErrText (''certificate does not match host '' @ quoted host_id)) in
         tryP (next_fingerprint host_id) (\<lambda>_. mismatch) (\<lambda>nxt.
           if nxt \<noteq> '''' \<and> nxt = fp then promote_fingerprint host_id fp else mismatch)))"

definition agent_auth :: "(string \<Rightarrow> string) \<Rightarrow> (agent_state, agent_answer) prog \<Rightarrow> agent_request
    \<Rightarrow> (agent_state, agent_answer) prog" where
  "agent_auth fpr nxt rq =
     (case caller_fingerprint fpr rq of
        Inl e \<Rightarrow> ag_fail 400 e
      | Inr fp \<Rightarrow>
        tryP (with_db (get_host_by_fp fp))
          (\<lambda>e. if error_is e ErrNotFound then ag_error 403 ''unknown caller'' else ag_fail 500 e)
          (\<lambda>h. if h_status h \<noteq> ''connected'' then ag_error 403 ''host is not approved''
               else if h_fp h \<noteq> fp
               then tryP (with_db (promote_fingerprint (h_id h) fp)) (ag_fail 500) (\<lambda>_. nxt)
               else nxt))"

section \<open>Enrollment\<close>

text \<open>Limits read from the environment.\<close>

definition max_pending :: "string \<Rightarrow> int" where
  "max_pending v =
     (if v \<noteq> '''' then (case atoi v of Some n \<Rightarrow> if n \<ge> 0 then n else 50 | None \<Rightarrow> 50) else 50)"

definition require_enrollment_token :: "string \<Rightarrow> bool" where
  "require_enrollment_token v \<longleftrightarrow> v \<in> {''1'', ''t'', ''T'', ''TRUE'', ''true'', ''True''}"

definition bearer_token :: "agent_request \<Rightarrow> string" where
  "bearer_token rq =
     (let h = ar_authorization rq in
      if length h > 7 \<and> to_lower (take 7 h) = ''bearer '' then trim_space (drop 7 h) else '''')"

definition audit_enroll_refused :: "string \<Rightarrow> string \<Rightarrow> (agent_state, unit) prog" where
  "audit_enroll_refused reason fp =
     bindP (getP (\<lambda>s. (d_now (ag_db s), map_of (ag_refusals s) reason))) (\<lambda>(now, last).
       if (case last of None \<Rightarrow> False | Some t \<Rightarrow> now - t < 5 * 60) then okP ()
       else bindP (modP (\<lambda>s. s\<lparr>ag_refusals := put_assoc reason now (ag_refusals s)\<rparr>)) (\<lambda>_.
              with_db (audit_system ''agent'' ''host.enroll_refused'' fp reason)))"

text \<open>
  The checks for a certificate that is not known; \<open>True\<close> when a token was used.  A refusal is the
  answer on the left.
\<close>

definition admit_new :: "(string \<Rightarrow> string) \<Rightarrow> string \<Rightarrow> string \<Rightarrow> string \<Rightarrow> string \<Rightarrow> (agent_state, agent_answer + bool) prog" where
  "admit_new hash env_max env_require token fp =
     (if token \<noteq> '''' then
        tryP (with_db (consume_enrollment_token hash token ''''))
          (\<lambda>_. bindP (audit_enroll_refused ''invalid, expired or already used enrollment token'' fp) (\<lambda>_.
                 okP (Inl (AgError 401 ''invalid or expired enrollment token''))))
          (\<lambda>_. okP (Inr True))
      else if require_enrollment_token env_require then
        bindP (audit_enroll_refused ''enrollment token required, none presented'' fp) (\<lambda>_.
          okP (Inl (AgError 401 ''an enrollment token is required'')))
      else if max_pending env_max > 0 then
        tryP (with_db count_pending_hosts) (\<lambda>e. okP (Inl (AgError 500 (error_text e)))) (\<lambda>n.
          if int n \<ge> max_pending env_max
          then bindP (audit_enroll_refused ''too many pending enrollments'' fp) (\<lambda>_.
                 okP (Inl (AgError 429 ''too many pending enrollments'')))
          else okP (Inr False))
      else okP (Inr False))"

text \<open>The row, and the approval a token stands in for.\<close>

definition enroll_host :: "(string \<Rightarrow> string) \<Rightarrow> string \<Rightarrow> bool \<Rightarrow> string \<Rightarrow> string \<Rightarrow> (agent_state, agent_answer) prog" where
  "enroll_host hash token token_used hostname fp =
     tryP (with_db (upsert_host hostname fp)) (ag_fail 500) (\<lambda>(h, created).
       if token_used \<and> created then
         tryP (with_db (approve_host (h_id h) ''enrollment-token'')) (ag_fail 500) (\<lambda>_.
         bindP (with_db (ignoreP (set_enrollment_token_host hash token (h_id h)))) (\<lambda>_.
         bindP (with_db (audit_system ''enrollment-token'' ''host.approve'' (h_id h)
             (''approved by a single-use enrollment token, certificate '' @ fp))) (\<lambda>_.
         okP (AgEnroll 201 (h_id h) ''connected''))))
       else okP (AgEnroll (if created then 201 else 200) (h_id h) (h_status h)))"

definition enroll_create_handler :: "(string \<Rightarrow> string) \<Rightarrow> (string \<Rightarrow> string) \<Rightarrow> string \<Rightarrow> string
    \<Rightarrow> string result \<Rightarrow> agent_request \<Rightarrow> (agent_state, agent_answer) prog" where
  "enroll_create_handler fpr hash env_max env_require body rq =
     (case caller_fingerprint fpr rq of
        Inl e \<Rightarrow> ag_fail 400 e
      | Inr fp \<Rightarrow>
        (case body of
           Inl e \<Rightarrow> ag_error 400 (''invalid JSON body: '' @ error_text e)
         | Inr name \<Rightarrow>
           let hostname = (let h = trim_space name in if h = '''' then ''agent'' else h);
               token = bearer_token rq in
           tryP (with_db (get_host_by_fp fp))
             (\<lambda>e. if error_is e ErrNotFound then
                    bindP (admit_new hash env_max env_require token fp) (\<lambda>adm.
                      case adm of Inl a \<Rightarrow> okP a | Inr used \<Rightarrow> enroll_host hash token used hostname fp)
                  else ag_fail 500 e)
             (\<lambda>_. enroll_host hash token False hostname fp)))"

definition enroll_status_handler :: "(string \<Rightarrow> string) \<Rightarrow> string \<Rightarrow> agent_request \<Rightarrow> (agent_state, agent_answer) prog" where
  "enroll_status_handler fpr i rq =
     tryP (with_db (get_host i))
       (\<lambda>e. if error_is e ErrNotFound then ag_error 404 ''unknown enrollment id'' else ag_fail 500 e)
       (\<lambda>_. tryP (with_db (verify_caller fpr rq i)) (ag_fail 403)
         (\<lambda>_. tryP (with_db (touch_host i)) (ag_fail 500)
           (\<lambda>h. okP (AgEnroll 200 (h_id h) (h_status h)))))"

text \<open>
  \<open>new_fp\<close> is the outcome of decoding the body (a first error) and checking its certificate (a
  second one, \<^verbatim>\<open>ValidateClientCertPEM\<close>).
\<close>

definition rotate_handler :: "(string \<Rightarrow> string) \<Rightarrow> string result result \<Rightarrow> agent_request \<Rightarrow> (agent_state, agent_answer) prog" where
  "rotate_handler fpr new_fp rq =
     (case caller_fingerprint fpr rq of
        Inl e \<Rightarrow> ag_fail 400 e
      | Inr fp \<Rightarrow>
        tryP (with_db (get_host_by_fp fp)) (\<lambda>_. ag_error 403 ''unknown caller'') (\<lambda>h.
          case new_fp of
            Inl e \<Rightarrow> ag_error 400 (''invalid JSON body: '' @ error_text e)
          | Inr (Inl e) \<Rightarrow> ag_fail 400 e
          | Inr (Inr nfp) \<Rightarrow>
            tryP (with_db (set_next_fingerprint (h_id h) nfp))
              (\<lambda>e. if error_is e ErrFingerprintInUse then ag_fail 409 e
                   else if error_is e ErrNotFound
                   then ag_error 400 ''the new certificate must differ from the current one''
                   else ag_fail 500 e)
              (\<lambda>_. bindP (with_db (audit_system (''agent:'' @ h_id h) ''host.rotate_cert'' (h_id h)
                        (''announced next certificate '' @ nfp))) (\<lambda>_. okP AgNoContent))))"

text \<open>One pass of \<^verbatim>\<open>purgeLoop\<close>; \<open>ttl\<close> is in seconds and \<open>shown\<close> how the duration prints.\<close>

definition purge_pass :: "int \<Rightarrow> string \<Rightarrow> (db, unit) prog" where
  "purge_pass ttl shown =
     bindP
       (if ttl > 0 then
          tryP (purge_stale_pending ttl) (\<lambda>_. okP ()) (\<lambda>n.
            if n > 0 then audit_system ''system'' ''host.purge_pending'' ''''
                (show_int (int n) @ '' pending host(s) removed after '' @ shown @ '' without approval'')
            else okP ())
        else okP ())
       (\<lambda>_. ignoreP purge_enrollment_tokens)"

section \<open>Only approved agents are served\<close>

lemma get_host_by_fp_Inr:
  assumes "get_host_by_fp fp d = (Inr h, d')"
  shows "find (has_fp fp) (d_hosts d) = Some h" and "\<exists>fs. d' = d\<lparr>d_faults := fs\<rparr>"
  using one_row_Inr [OF assms [unfolded get_host_by_fp_def]] by simp_all

lemma promoted_row:
  assumes "promote_fingerprint (h_id h) fp d = (Inr (), d')" and "h \<in> set (d_hosts d)"
    and "has_fp fp h" and "h_fp h \<noteq> fp"
  shows "\<exists>h'\<in>set (d_hosts d'). h_id h' = h_id h \<and> h_fp h' = fp \<and> h_status h' = h_status h"
proof -
  have "h_next_fp h = fp" "fp \<noteq> ''''" using assms(3,4) by (auto simp: has_fp_def)
  then have "h\<lparr>h_fp := fp, h_next_fp := ''''\<rparr> \<in> set (d_hosts d')"
    unfolding promote_done [OF assms(1)] in_update_where using assms(2) by (intro bexI [of _ h]) auto
  then show ?thesis by (intro bexI [of _ "h\<lparr>h_fp := fp, h_next_fp := ''''\<rparr>"]) simp_all
qed

text \<open>
  C15 agent_admitted.  What is behind \<^verbatim>\<open>agentAuth\<close> can only matter for a certificate that belongs to a
  host an administrator let in (\<open>connected\<close>), as its current certificate or the next one; it runs on a
  database where that certificate is the host's current one.
\<close>

theorem agent_admitted:
  assumes "agent_auth fpr nxt1 rq s \<noteq> agent_auth fpr nxt2 rq s"
  shows "\<exists>raw h s'. ar_cert rq = Some raw \<and> h \<in> set (d_hosts (ag_db s)) \<and> h_status h = ''connected''
     \<and> has_fp (fpr raw) h \<and> (\<forall>nxt. agent_auth fpr nxt rq s = nxt s')
     \<and> (\<exists>h'\<in>set (d_hosts (ag_db s')). h_id h' = h_id h \<and> h_status h' = ''connected'' \<and> h_fp h' = fpr raw)"
proof -
  obtain raw where raw: "ar_cert rq = Some raw"
    using assms by (cases "ar_cert rq") (auto simp: agent_auth_def caller_fingerprint_def)
  let ?get = "with_db (get_host_by_fp (fpr raw))"
  obtain r1 s1 where g: "?get s = (r1, s1)" by (cases "?get s")
  obtain h where h: "r1 = Inr h"
    using assms g raw by (cases r1) (auto simp: agent_auth_def caller_fingerprint_def tryP_def)
  from g h obtain d1 where d1: "get_host_by_fp (fpr raw) (ag_db s) = (Inr h, d1)" "s1 = s\<lparr>ag_db := d1\<rparr>"
    by (auto simp: zoomP_run)
  from get_host_by_fp_Inr [OF d1(1)] obtain fs where row: "h \<in> set (d_hosts (ag_db s))" "has_fp (fpr raw) h"
    and d1': "d1 = (ag_db s)\<lparr>d_faults := fs\<rparr>" by (auto dest: find_in)
  have conn: "h_status h = ''connected''"
  proof (rule ccontr)
    assume "h_status h \<noteq> ''connected''"
    then have "agent_auth fpr nxt rq s = ag_error 403 ''host is not approved'' s1" for nxt
      using g h raw by (simp add: agent_auth_def caller_fingerprint_def tryP_def)
    with assms show False by simp
  qed
  show ?thesis
  proof (cases "h_fp h = fpr raw")
    case True
    have "agent_auth fpr nxt rq s = nxt s1" for nxt
      using g h raw conn True by (simp add: agent_auth_def caller_fingerprint_def tryP_def)
    then show ?thesis using raw row conn True d1(2) d1' by (intro exI conjI) auto
  next
    case False
    let ?pro = "with_db (promote_fingerprint (h_id h) (fpr raw))"
    obtain r2 s2 where p: "?pro s1 = (r2, s2)" by (cases "?pro s1")
    obtain u where u: "r2 = Inr u"
      using assms g h raw conn False p by (cases r2) (auto simp: agent_auth_def caller_fingerprint_def tryP_def)
    then obtain d2 where d2: "promote_fingerprint (h_id h) (fpr raw) d1 = (Inr (), d2)" "s2 = s1\<lparr>ag_db := d2\<rparr>"
      using p d1(2) by (auto simp: zoomP_run)
    have "\<exists>h'\<in>set (d_hosts d2). h_id h' = h_id h \<and> h_fp h' = fpr raw \<and> h_status h' = h_status h"
      by (rule promoted_row [OF d2(1)]) (use row d1' False in auto)
    moreover have "agent_auth fpr nxt rq s = nxt s2" for nxt
      using g h raw conn False p u by (simp add: agent_auth_def caller_fingerprint_def tryP_def)
    ultimately show ?thesis using raw row conn d2(2) by (intro exI conjI) auto
  qed
qed

definition channel_example :: agent_state where
  "channel_example = \<lparr>ag_db = one_host_db, ag_refusals = [], ag_started = []\<rparr>"

lemma agent_admitted_witness:
  "\<exists>raw h s'. ar_cert \<lparr>ar_cert = Some (h_fp (hd (d_hosts one_host_db))), ar_authorization = ''''\<rparr> = Some raw
     \<and> h \<in> set (d_hosts (ag_db channel_example)) \<and> h_status h = ''connected'' \<and> has_fp (id raw) h
     \<and> (\<forall>nxt. agent_auth id nxt \<lparr>ar_cert = Some (h_fp (hd (d_hosts one_host_db))), ar_authorization = ''''\<rparr> channel_example = nxt s')
     \<and> (\<exists>h'\<in>set (d_hosts (ag_db s')). h_id h' = h_id h \<and> h_status h' = ''connected'' \<and> h_fp h' = id raw)"
proof (rule agent_admitted)
  let ?rq = "\<lparr>ar_cert = Some (h_fp (hd (d_hosts one_host_db))), ar_authorization = ''''\<rparr>"
  have "fst (agent_auth id (ag_error 200 '''') ?rq channel_example) \<noteq> fst (agent_auth id (ag_error 201 '''') ?rq channel_example)"
    by code_simp
  then show "agent_auth id (ag_error 200 '''') ?rq channel_example \<noteq> agent_auth id (ag_error 201 '''') ?rq channel_example"
    by metis
qed

section \<open>Who gets in\<close>

lemma insert_host_Inr:
  assumes "insert_host i name fp d = (Inr u, d')"
  shows "find_host d' i = Some \<lparr>h_id = i, h_name = name, h_status = ''pending'', h_fp = fp, h_approved_by = '''',
            h_last_seen = d_now d, h_address = '''', h_agent_version = '''', h_next_fp = '''',
            h_arch = '''', h_approved_at = None, h_created = d_now d\<rparr>"
proof -
  from assms obtain fs where fresh: "\<not> list_ex (\<lambda>h. h_id h = i) (d_hosts d)"
    and d': "d_hosts d' = d_hosts d @ [\<lparr>h_id = i, h_name = name, h_status = ''pending'', h_fp = fp, h_approved_by = '''',
            h_last_seen = d_now d, h_address = '''', h_agent_version = '''', h_next_fp = '''',
            h_arch = '''', h_approved_at = None, h_created = d_now d\<rparr>]"
    unfolding insert_host_def by (auto elim!: exec_checked_cases split: if_splits)
  have "find (\<lambda>h. h_id h = i) (d_hosts d) = None" using fresh by (auto simp: find_None_iff list_ex_iff)
  then show ?thesis by (simp add: find_host_def d' find_append)
qed

lemma get_host_Inr:
  assumes "get_host i d = (Inr h, d')"
  shows "find_host d i = Some h" and "\<exists>fs. d' = d\<lparr>d_faults := fs\<rparr>"
  using one_row_Inr [OF assms [unfolded get_host_def]] by simp_all

lemma insert_attempts_Inr:
  "insert_attempts base name fp as d = (Inr (h, created), d') \<Longrightarrow> created \<and> h_status h = ''pending'' \<and> h_fp h = fp"
proof (induction as arbitrary: d)
  case (Cons a as)
  from Cons.prems obtain c d1 where
    run: "tryP (insert_host c name fp)
         (\<lambda>e. if contains_str (error_text e) ''UNIQUE constraint failed: hosts.id''
              then insert_attempts base name fp as else failP (ErrWrap ''insert host: '' e))
         (\<lambda>_. bindP (get_host c) (\<lambda>h. okP (h, True))) d1 = (Inr (h, created), d')"
    by (auto simp: bindP_Inr)
  then show ?case
    unfolding tryP_run
  proof (elim disjE exE conjE)
    fix e d2
    assume "(if contains_str (error_text e) ''UNIQUE constraint failed: hosts.id''
              then insert_attempts base name fp as else failP (ErrWrap ''insert host: '' e)) d2 = (Inr (h, created), d')"
    then have "insert_attempts base name fp as d2 = (Inr (h, created), d')" by (simp split: if_splits)
    then show ?thesis by (rule Cons.IH)
  next
    fix u d2
    assume "insert_host c name fp d1 = (Inr u, d2)" "bindP (get_host c) (\<lambda>h. okP (h, True)) d2 = (Inr (h, created), d')"
    then obtain d3 where ins: "insert_host c name fp d1 = (Inr u, d2)" and get: "get_host c d2 = (Inr h, d3)" and created
      by (auto simp: bindP_Inr)
    then show ?thesis using insert_host_Inr [OF ins] get_host_Inr(1) [OF get] by auto
  qed
qed simp

lemma upsert_new:
  assumes "upsert_host name fp d = (Inr (h, created), d')" and "find (has_fp fp) (d_hosts d) = None"
  shows "created \<and> h_status h = ''pending''"
  using assms(1) unfolding upsert_host_def tryP_run
proof (elim disjE exE conjE)
  fix e d1
  assume "(if \<not> error_is e ErrNotFound then failP e else insert_attempts (host_slug name) name fp [0..<5]) d1 = (Inr (h, created), d')"
  then show ?thesis by (auto split: if_splits dest!: insert_attempts_Inr)
next
  fix x d1
  assume "get_host_by_fp fp d = (Inr x, d1)"
  then show ?thesis using get_host_by_fp_Inr(1) assms(2) by fastforce
qed

lemma enroll_host_new:
  assumes "enroll_host hash token used hostname fp s = (Inr (AgEnroll code i st), s')"
    and "find (has_fp fp) (d_hosts (ag_db s)) = None"
  shows "st = (if used then ''connected'' else ''pending'')"
proof -
  let ?rest = "\<lambda>(h, created).
       if used \<and> created then
         tryP (with_db (approve_host (h_id h) ''enrollment-token'')) (ag_fail 500) (\<lambda>_.
         bindP (with_db (ignoreP (set_enrollment_token_host hash token (h_id h)))) (\<lambda>_.
         bindP (with_db (audit_system ''enrollment-token'' ''host.approve'' (h_id h)
             (''approved by a single-use enrollment token, certificate '' @ fp))) (\<lambda>_.
         okP (AgEnroll 201 (h_id h) ''connected''))))
       else okP (AgEnroll (if created then 201 else 200) (h_id h) (h_status h))"
  from assms(1) obtain h created s1 where up: "with_db (upsert_host hostname fp) s = (Inr (h, created), s1)"
    and rest: "?rest (h, created) s1 = (Inr (AgEnroll code i st), s')"
    unfolding enroll_host_def tryP_run by (auto simp: ag_fail_def ag_error_def)
  have new: "created \<and> h_status h = ''pending''"
    using up upsert_new [OF _ assms(2)] by (auto simp: zoomP_run)
  show ?thesis
  proof (cases used)
    case True
    with new rest show ?thesis by (auto simp: tryP_run bindP_Inr ag_fail_def ag_error_def)
  next
    case False
    with new rest show ?thesis by auto
  qed
qed

lemma count_pending_Inr:
  assumes "count_pending_hosts d = (Inr n, d')"
  shows "n = count_where (\<lambda>h. h_status h = ''pending'') (d_hosts d)" and "\<exists>fs. d' = d\<lparr>d_faults := fs\<rparr>"
proof -
  from assms have sel: "select (\<lambda>d. count_where (\<lambda>h. h_status h = ''pending'') (d_hosts d)) d = (Inr n, d')"
    by (simp add: count_pending_hosts_def)
  then show "n = count_where (\<lambda>h. h_status h = ''pending'') (d_hosts d)" by (cases rule: select_cases) auto
  show "\<exists>fs. d' = d\<lparr>d_faults := fs\<rparr>" by (rule select_state [OF sel])
qed

lemma consume_hosts:
  assumes "consume_enrollment_token hash token host d = (Inr x, d')"
  shows "d_hosts d' = d_hosts d"
proof -
  from assms obtain n where "exec (update_tokens (token_live hash token)
      (\<lambda>d t. t\<lparr>t_used_at := Some (d_now d), t_used_by := host\<rparr>)) d = (Inr n, d')"
    by (auto simp: consume_enrollment_token_def bindP_Inr split: if_splits)
  then show ?thesis by (rule exec_cases) (auto simp: update_tokens_def)
qed

text \<open>What letting a new certificate through took.\<close>

definition entitled :: "(string \<Rightarrow> string) \<Rightarrow> string \<Rightarrow> string \<Rightarrow> string \<Rightarrow> db \<Rightarrow> bool \<Rightarrow> bool" where
  "entitled hash env_max env_require token d used \<longleftrightarrow>
     (if used then token \<noteq> '''' \<and> (\<exists>t\<in>set (d_tokens d). token_live hash token d t)
      else token = '''' \<and> \<not> require_enrollment_token env_require \<and>
        (max_pending env_max > 0 \<longrightarrow> int (count_where (\<lambda>h. h_status h = ''pending'') (d_hosts d)) < max_pending env_max))"

lemma admit_new_Inr:
  assumes "admit_new hash env_max env_require token fp s = (Inr (Inr used), s')"
  shows "entitled hash env_max env_require token (ag_db s) used \<and> d_hosts (ag_db s') = d_hosts (ag_db s)"
proof (cases "token = ''''")
  case False
  with assms obtain x d1 where used: "used" and c: "consume_enrollment_token hash token '''' (ag_db s) = (Inr x, d1)"
    and s': "s' = s\<lparr>ag_db := d1\<rparr>"
    unfolding admit_new_def by (auto simp: tryP_run bindP_Inr zoomP_run)
  have "\<exists>t\<in>set (d_tokens (ag_db s)). token_live hash token (ag_db s) t"
    using consume_done [OF c] by (auto simp: count_where_def filter_empty_conv)
  with False used consume_hosts [OF c] s' show ?thesis by (simp add: entitled_def)
next
  case nt: True
  have nr: "\<not> require_enrollment_token env_require"
    using assms nt by (auto simp: admit_new_def bindP_Inr)
  show ?thesis
  proof (cases "max_pending env_max > 0")
    case False
    with assms nt nr show ?thesis by (auto simp: admit_new_def entitled_def)
  next
    case True
    let ?k = "\<lambda>n :: nat. if int n \<ge> max_pending env_max
          then bindP (audit_enroll_refused ''too many pending enrollments'' fp) (\<lambda>_.
                 okP (Inl (AgError 429 ''too many pending enrollments'')))
          else okP (Inr False)"
    have "tryP (with_db count_pending_hosts) (\<lambda>e. okP (Inl (AgError 500 (error_text e)))) ?k s = (Inr (Inr used), s')"
      using assms nt nr True by (simp add: admit_new_def)
    then obtain n s1 where n: "with_db count_pending_hosts s = (Inr n, s1)" and k: "?k n s1 = (Inr (Inr used), s')"
      unfolding tryP_run by auto
    from n obtain d1 where d1: "count_pending_hosts (ag_db s) = (Inr n, d1)" "s1 = s\<lparr>ag_db := d1\<rparr>"
      by (auto simp: zoomP_run)
    have "\<not> int n \<ge> max_pending env_max" "\<not> used" "s' = s1"
      using k by (auto simp: bindP_Inr split: if_splits)
    with nt nr d1(2) count_pending_Inr [OF d1(1)] show ?thesis by (auto simp: entitled_def)
  qed
qed

text \<open>
  A certificate that no host has gets a row only with a live enrollment token,
  and is then approved, or without a token where none is required and the pending hosts are fewer
  than the cap, and then it waits for an administrator.
\<close>

theorem enrollment_gate:
  assumes "ar_cert rq = Some raw" and "find (has_fp (fpr raw)) (d_hosts (ag_db s)) = None"
    and "enroll_create_handler fpr hash env_max env_require body rq s = (Inr (AgEnroll code i st), s')"
  shows "(st = ''connected'' \<and> entitled hash env_max env_require (bearer_token rq) (ag_db s) True)
       \<or> (st = ''pending'' \<and> entitled hash env_max env_require (bearer_token rq) (ag_db s) False)"
proof -
  let ?fp = "fpr raw"
  obtain name where b: "body = Inr name"
    using assms(1,3) by (cases body) (auto simp: enroll_create_handler_def caller_fingerprint_def ag_error_def)
  define hostname where "hostname = (let h = trim_space name in if h = '''' then ''agent'' else h)"
  let ?miss = "\<lambda>e. if error_is e ErrNotFound then
      bindP (admit_new hash env_max env_require (bearer_token rq) ?fp) (\<lambda>adm.
        case adm of Inl a \<Rightarrow> okP a | Inr used \<Rightarrow> enroll_host hash (bearer_token rq) used hostname ?fp)
      else ag_fail 500 e"
  have "tryP (with_db (get_host_by_fp ?fp)) ?miss (\<lambda>_. enroll_host hash (bearer_token rq) False hostname ?fp) s
      = (Inr (AgEnroll code i st), s')"
    using assms(1,3) b unfolding enroll_create_handler_def caller_fingerprint_def hostname_def Let_def
    by (simp split del: if_split)
  then consider (miss) e s1 where "with_db (get_host_by_fp ?fp) s = (Inl e, s1)" "?miss e s1 = (Inr (AgEnroll code i st), s')"
    | (known) h s1 where "with_db (get_host_by_fp ?fp) s = (Inr h, s1)"
    unfolding tryP_run by blast
  then show ?thesis
  proof cases
    case known
    then show ?thesis using get_host_by_fp_Inr(1) assms(2) by (fastforce simp: zoomP_run)
  next
    case miss
    have same: "d_hosts (ag_db s1) = d_hosts (ag_db s) \<and> d_tokens (ag_db s1) = d_tokens (ag_db s) \<and> d_now (ag_db s1) = d_now (ag_db s)"
      using miss(1) by (auto simp: zoomP_run get_host_by_fp_def one_row_def bindP_def tryP_def wrapP_def split: prod.splits sum.splits option.splits dest!: select_state)
    from miss(2) obtain adm s2 where a: "admit_new hash env_max env_require (bearer_token rq) ?fp s1 = (Inr adm, s2)"
      and k: "(case adm of Inl a \<Rightarrow> okP a | Inr used \<Rightarrow> enroll_host hash (bearer_token rq) used hostname ?fp) s2 = (Inr (AgEnroll code i st), s')"
      by (auto simp: bindP_Inr ag_fail_def ag_error_def split: if_splits)
    have adm: "\<exists>used. adm = Inr used"
    proof (cases adm)
      case (Inl x)
      then have "x = AgEnroll code i st" using k by simp
      with a Inl show ?thesis
        by (auto simp: admit_new_def tryP_run bindP_Inr split: if_splits)
    qed simp
    then obtain used where u: "adm = Inr used" by blast
    note e = admit_new_Inr [OF a [unfolded u]]
    have "st = (if used then ''connected'' else ''pending'')"
      by (rule enroll_host_new [of hash "bearer_token rq" used hostname ?fp s2 code i st s']) (use k u e same assms(2) in auto)
    moreover have "entitled hash env_max env_require (bearer_token rq) (ag_db s) used"
      using e same by (auto simp: entitled_def token_live_def)
    ultimately show ?thesis by (cases used) auto
  qed
qed

lemma enrollment_gate_witness:
  "let rq = \<lparr>ar_cert = Some ''new'', ar_authorization = ''bearer wet_''\<rparr>;
       s = \<lparr>ag_db = token_db, ag_refusals = [], ag_started = []\<rparr> in
   entitled id '''' ''true'' (bearer_token rq) (ag_db s) True"
proof -
  let ?rq = "\<lparr>ar_cert = Some ''new'', ar_authorization = ''bearer wet_''\<rparr>"
  let ?s = "\<lparr>ag_db = token_db, ag_refusals = [], ag_started = []\<rparr>"
  have run: "fst (enroll_create_handler id id '''' ''true'' (Inr ''nas'') ?rq ?s) = Inr (AgEnroll 201 ''nas'' ''connected'')"
    by code_simp
  have unknown: "find (has_fp (id ''new'')) (d_hosts (ag_db ?s)) = None" by code_simp
  have c: "ar_cert ?rq = Some ''new''" by simp
  from enrollment_gate [OF c unknown run_eqI [OF run]] show ?thesis by (simp add: Let_def)
qed

end
