(* ===== verification/Agent_Commands.thy ===== *)
theory Agent_Commands
  imports Agent_Channel Store_Stacks Secret_Connections Secret_Resolve
begin

text \<open>
  What an approved agent asks for: its next deployment with what it needs to run it
  (\<^verbatim>\<open>commandsHandler\<close>), the outcome it reports, and the decryption and resolution of secrets,
  \<^verbatim>\<open>src/agent_protocol.go\<close> and \<^verbatim>\<open>src/agent_resolve.go\<close>.  The custodian of keys (\<^verbatim>\<open>internal/keys\<close>) is
  the record \<open>keyring\<close> of its lookups; notifications are an outgoing web hook and leave no state here.
\<close>

section \<open>Credentials\<close>

record keyring =
  kr_registries :: "(string \<times> string \<times> string) list result"
  kr_ssh :: "string \<Rightarrow> string result"
  kr_conn_ssh :: "string \<Rightarrow> string result"
  kr_conn_http :: "string \<Rightarrow> (string \<times> string) result"
  kr_decrypt :: "string \<Rightarrow> string \<Rightarrow> string result"
  kr_secret_creds :: "string \<Rightarrow> (string \<times> string) list result"

record git_auth =
  ga_kind :: string
  ga_ssh :: string
  ga_user :: string
  ga_password :: string

definition resolve_git_auth :: "keyring \<Rightarrow> stack \<Rightarrow> (db, git_auth) prog" where
  "resolve_git_auth kr st =
     (if st_connection st = '''' then
        bindP (liftP (kr_ssh kr (st_id st))) (\<lambda>priv.
          okP \<lparr>ga_kind = ''ssh_key'', ga_ssh = priv, ga_user = '''', ga_password = ''''\<rparr>)
      else
        bindP (wrapP ''load git connection: '' (get_git_connection (st_connection st))) (\<lambda>conn.
          if gc_auth conn = ''http_password'' then
            bindP (liftP (kr_conn_http kr (gc_id conn))) (\<lambda>(user, pass).
              okP \<lparr>ga_kind = ''http_password'', ga_ssh = '''', ga_user = user, ga_password = pass\<rparr>)
          else
            bindP (liftP (kr_conn_ssh kr (gc_id conn))) (\<lambda>priv.
              okP \<lparr>ga_kind = ''ssh_key'', ga_ssh = priv, ga_user = '''', ga_password = ''''\<rparr>)))"

fun parse_env_loop :: "string list \<Rightarrow> (string \<times> string) list \<Rightarrow> (string \<times> string) list" where
  "parse_env_loop [] env = env"
| "parse_env_loop (l # ls) env =
     (let line = trim_space l in
      if line = '''' \<or> prefix ''#'' line then parse_env_loop ls env
      else (case cut_at ''='' line of
          None \<Rightarrow> parse_env_loop ls env
        | Some (k, v) \<Rightarrow> parse_env_loop ls (put_assoc (trim_space k) (trim_space v) env)))"

definition parse_env_lines :: "string \<Rightarrow> (string \<times> string) list" where
  "parse_env_lines s = parse_env_loop (split_on CHR 0x0A s) []"

section \<open>The next deployment\<close>

text \<open>A deployment that cannot be handed over is recorded as failed, and the answer says why.\<close>

definition give_up :: "nat \<Rightarrow> string \<Rightarrow> string \<Rightarrow> string \<Rightarrow> (agent_state, agent_answer) prog" where
  "give_up code dep recorded shown =
     bindP (with_db (ignoreP (complete_deployment dep ''failed'' recorded))) (\<lambda>_. ag_error code shown)"

definition bare_response :: "deployment \<Rightarrow> stack \<Rightarrow> command_response" where
  "bare_response dep st =
     \<lparr>cr_deployment = dp_id dep, cr_stack = st_id st, cr_source = st_source st, cr_action = dp_action dep,
      cr_compose = '''', cr_env = [], cr_repo = '''', cr_branch = '''', cr_compose_path = '''',
      cr_auth_kind = '''', cr_ssh_key = '''', cr_http_user = '''', cr_http_password = '''',
      cr_registry_auths = []\<rparr>"

definition git_command :: "keyring \<Rightarrow> host \<Rightarrow> deployment \<Rightarrow> stack \<Rightarrow> command_response \<Rightarrow> (agent_state, agent_answer) prog" where
  "git_command kr h dep st resp =
     (let resp = resp\<lparr>cr_repo := st_repo st, cr_branch := st_branch st, cr_compose_path := st_compose_path st\<rparr> in
      if dp_action dep = ''down'' then okP (AgCommand resp)
      else
        bindP (tryP (with_db (list_secret_bindings (st_id st))) (\<lambda>_. okP []) okP) (\<lambda>bindings.
          if bindings \<noteq> [] \<and> agent_too_old_for_secret_refs (h_agent_version h)
          then give_up 409 (dp_id dep) (agent_too_old_message (h_agent_version h)) (agent_too_old_message (h_agent_version h))
          else
            tryP (with_db (resolve_git_auth kr st))
              (\<lambda>e. give_up 500 (dp_id dep) (''could not load git credential: '' @ error_text e) (error_text e))
              (\<lambda>g. okP (AgCommand (resp\<lparr>cr_auth_kind := ga_kind g, cr_ssh_key := ga_ssh g,
                                        cr_http_user := ga_user g, cr_http_password := ga_password g\<rparr>)))))"

definition local_command :: "keyring \<Rightarrow> deployment \<Rightarrow> stack \<Rightarrow> command_response \<Rightarrow> (agent_state, agent_answer) prog" where
  "local_command kr dep st resp =
     (let resp = resp\<lparr>cr_compose := st_compose st\<rparr> in
      if dp_action dep = ''down'' then okP (AgCommand resp)
      else if st_secret st = '''' then okP (AgCommand resp)
      else (case kr_decrypt kr (st_id st) (st_secret st) of
          Inl e \<Rightarrow> give_up 500 (dp_id dep) (''could not decrypt secrets: '' @ error_text e) (error_text e)
        | Inr plaintext \<Rightarrow> okP (AgCommand (resp\<lparr>cr_env := parse_env_lines plaintext\<rparr>))))"

text \<open>The command for a deployment of the stack \<open>st\<close>: registry credentials ride along except on a teardown.\<close>

definition command_for :: "keyring \<Rightarrow> host \<Rightarrow> deployment \<Rightarrow> stack \<Rightarrow> (agent_state, agent_answer) prog" where
  "command_for kr h dep st =
     (let resp = bare_response dep st;
          next_step = (\<lambda>resp. if st_source st = ''git'' then git_command kr h dep st resp
                              else local_command kr dep st resp) in
      if dp_action dep = ''down'' then next_step resp
      else (case kr_registries kr of
          Inl e \<Rightarrow> give_up 500 (dp_id dep) (''could not load registry credentials: '' @ error_text e) (error_text e)
        | Inr auths \<Rightarrow> next_step (resp\<lparr>cr_registry_auths := auths\<rparr>)))"

definition hand_over :: "keyring \<Rightarrow> host \<Rightarrow> deployment option \<Rightarrow> (agent_state, agent_answer) prog" where
  "hand_over kr h claimed =
     (case claimed of
        None \<Rightarrow> okP AgNoContent
      | Some dep \<Rightarrow>
        tryP (with_db (get_stack (dp_stack dep)))
          (\<lambda>e. give_up 500 (dp_id dep) (''stack no longer exists: '' @ error_text e) (error_text e))
          (command_for kr h dep))"

definition commands_handler :: "(string \<Rightarrow> string) \<Rightarrow> keyring \<Rightarrow> agent_request \<Rightarrow> (agent_state, agent_answer) prog" where
  "commands_handler fpr kr rq =
     (case caller_fingerprint fpr rq of
        Inl e \<Rightarrow> ag_fail 400 e
      | Inr fp \<Rightarrow>
        tryP (with_db (get_host_by_fp fp)) (\<lambda>_. ag_error 403 ''unknown caller'') (\<lambda>h.
        tryP (with_db (claim_next_deployment (h_id h))) (ag_fail 500) (hand_over kr h)))"

section \<open>Outcomes\<close>

text \<open>The body of a result, decoded; \<open>subst\<close> finds the variables a compose file substitutes.\<close>

record result_body =
  rb_status :: string
  rb_output :: string
  rb_compose :: string

definition deployment_result_handler :: "(string \<Rightarrow> string) \<Rightarrow> (string \<Rightarrow> string list result) \<Rightarrow> string
    \<Rightarrow> result_body result \<Rightarrow> agent_request \<Rightarrow> (agent_state, agent_answer) prog" where
  "deployment_result_handler fpr subst i body rq =
     tryP (with_db (get_deployment i))
       (\<lambda>e. if error_is e ErrNotFound then ag_error 404 ''unknown deployment id'' else ag_fail 500 e)
       (\<lambda>dep.
          tryP (with_db (verify_caller fpr rq (dp_host dep))) (ag_fail 403) (\<lambda>_.
            case body of
              Inl e \<Rightarrow> ag_error 400 (''invalid JSON body: '' @ error_text e)
            | Inr b \<Rightarrow>
              tryP (with_db (complete_deployment i (rb_status b) (rb_output b))) (ag_fail 500) (\<lambda>_.
              bindP
                (if rb_status b = ''succeeded'' \<and> rb_compose b \<noteq> '''' then
                   bindP (modP (\<lambda>s. s\<lparr>ag_started := ag_started s @ [(dp_stack dep, rb_compose b)]\<rparr>)) (\<lambda>_.
                     case subst (rb_compose b) of
                       Inl _ \<Rightarrow> okP ()
                     | Inr ks \<Rightarrow> with_db (ignoreP (set_substituted_env_keys (dp_stack dep) ks)))
                 else okP ())
                (\<lambda>_. okP AgNoContent))))"

section \<open>Secrets\<close>

text \<open>A body with its deployment and its base64 field, decoded or not.\<close>

definition decrypt_handler :: "(string \<Rightarrow> string) \<Rightarrow> keyring \<Rightarrow> (string \<times> string result) result \<Rightarrow> agent_request
    \<Rightarrow> (agent_state, agent_answer) prog" where
  "decrypt_handler fpr kr body rq =
     (case body of
        Inl e \<Rightarrow> ag_error 400 (''invalid JSON body: '' @ error_text e)
      | Inr (i, ciphertext) \<Rightarrow>
        tryP (with_db (get_deployment i))
          (\<lambda>e. if error_is e ErrNotFound then ag_error 404 ''unknown deployment id'' else ag_fail 500 e)
          (\<lambda>dep.
             tryP (with_db (verify_caller fpr rq (dp_host dep))) (ag_fail 403) (\<lambda>_.
               case ciphertext of
                 Inl e \<Rightarrow> ag_error 400 (''invalid base64 ciphertext: '' @ error_text e)
               | Inr c \<Rightarrow>
                 (case kr_decrypt kr (dp_stack dep) c of
                    Inl e \<Rightarrow> ag_error 500 (''decrypt failed: '' @ error_text e)
                  | Inr plaintext \<Rightarrow> okP (AgPlaintext plaintext)))))"

definition decrypt_env_file :: "keyring \<Rightarrow> string \<Rightarrow> string \<Rightarrow> (string \<times> string) list result" where
  "decrypt_env_file kr stack ciphertext = bind_res (kr_decrypt kr stack ciphertext) (\<lambda>p. Inr (parse_env_lines p))"

definition audit_resolve :: "deployment \<Rightarrow> string \<Rightarrow> string list \<Rightarrow> string list \<Rightarrow> (db, unit) prog" where
  "audit_resolve dep action ks sources =
     ignoreP (record_audit ''agent'' action (dp_stack dep)
       (''deployment '' @ dp_id dep @ '': '' @ join_with '', '' ks @
        (if sources \<noteq> [] then '' ('' @ join_with ''; '' sources @ '')'' else '''')))"

definition entry_keys :: "entry list \<Rightarrow> string list" where
  "entry_keys es = sort (map e_key es)"

definition failed_keys :: "failure list \<Rightarrow> string list" where
  "failed_keys fs = sort (map f_key fs)"

definition max_enc_file_size :: nat where
  "max_enc_file_size = 1048576"

record resolve_body =
  vb_deployment :: string
  vb_refs :: "string result"
  vb_enc :: "string result"

definition new_job :: "(string \<Rightarrow> (string \<times> string) list \<Rightarrow> (string \<times> string) list \<Rightarrow> string) \<Rightarrow> keyring \<Rightarrow> string \<Rightarrow> string \<Rightarrow> db \<Rightarrow> job" where
  "new_job digest kr stack enc d =
     \<lparr>j_stack = stack, j_enc_file = enc, j_decrypt = Some (decrypt_env_file kr),
      j_binding = Some (\<lambda>scheme. fst (stack_binding digest (kr_secret_creds kr) stack scheme d)),
      j_enc = None, j_effective = [], j_memo = []\<rparr>"

definition resolve_handler :: "(string \<Rightarrow> string) \<Rightarrow> (string \<Rightarrow> (string \<times> string) list \<Rightarrow> (string \<times> string) list \<Rightarrow> string)
    \<Rightarrow> (string \<Rightarrow> int option + (yaml_value \<times> yaml_value) list) \<Rightarrow> resolver \<Rightarrow> keyring \<Rightarrow> resolve_body result \<Rightarrow> agent_request
    \<Rightarrow> (agent_state, agent_answer) prog" where
  "resolve_handler fpr digest unmarshal rv kr body rq =
     (case body of
        Inl e \<Rightarrow> ag_error 400 (''invalid JSON body: '' @ error_text e)
      | Inr b \<Rightarrow>
        tryP (with_db (get_deployment (vb_deployment b)))
          (\<lambda>e. if error_is e ErrNotFound then ag_error 404 ''unknown deployment id'' else ag_fail 500 e)
          (\<lambda>dep.
             tryP (with_db (verify_caller fpr rq (dp_host dep))) (ag_fail 403) (\<lambda>_.
               if dp_status dep \<noteq> ''running'' then ag_error 409 ''deployment is not running''
               else (case vb_refs b of
                   Inl e \<Rightarrow> ag_error 400 (''invalid base64 refs file: '' @ error_text e)
                 | Inr refs \<Rightarrow>
                   (case vb_enc b of
                      Inl _ \<Rightarrow> ag_error 400 ''invalid or oversized secrets.enc.yaml''
                    | Inr enc \<Rightarrow>
                      if length enc > max_enc_file_size then ag_error 400 ''invalid or oversized secrets.enc.yaml''
                      else (case parse_file unmarshal refs of
                          Inl e \<Rightarrow> ag_fail 400 e
                        | Inr es \<Rightarrow>
                          bindP (getP ag_db) (\<lambda>d.
                            case fst (resolve rv es (new_job digest kr (dp_stack dep) enc d)) of
                              Inl fs \<Rightarrow>
                                bindP (with_db (audit_resolve dep ''secrets.resolve_failed'' (failed_keys fs) [])) (\<lambda>_.
                                  ag_error 422 (resolve_error_text fs))
                            | Inr res \<Rightarrow>
                                bindP (with_db (audit_resolve dep ''secrets.resolve'' (entry_keys es) (res_sources res))) (\<lambda>_.
                                  okP (AgEnv (res_env res) (res_notes res))))))))))"

section \<open>An agent acts for its own host\<close>

lemma verify_caller_Inr:
  assumes "verify_caller fpr rq i d = (Inr u, d')"
  shows "\<exists>raw h. ar_cert rq = Some raw \<and> find_host d i = Some h \<and> has_fp (fpr raw) h"
    and "\<exists>hs fs. d' = d\<lparr>d_faults := fs, d_hosts := hs\<rparr>"
proof -
  let ?mm = "failP (ErrText (''certificate does not match host '' @ quoted i)) :: (db, unit) prog"
  from assms obtain raw h d1 where raw: "ar_cert rq = Some raw" and h: "get_host i d = (Inr h, d1)"
    and k: "(if h_fp h = fpr raw then okP () else tryP (next_fingerprint i) (\<lambda>_. ?mm)
        (\<lambda>nxt. if nxt \<noteq> '''' \<and> nxt = fpr raw then promote_fingerprint i (fpr raw) else ?mm)) d1 = (Inr u, d')"
    unfolding verify_caller_def caller_fingerprint_def Let_def
    by (cases "ar_cert rq") (auto simp: bindP_Inr)
  from get_host_Inr [OF h] obtain fs where fh: "find_host d i = Some h" and d1: "d1 = d\<lparr>d_faults := fs\<rparr>" by blast
  have "has_fp (fpr raw) h \<and> (\<exists>hs fs. d' = d\<lparr>d_faults := fs, d_hosts := hs\<rparr>)"
  proof (cases "h_fp h = fpr raw")
    case True
    with k d1 have "has_fp (fpr raw) h" "d' = d\<lparr>d_faults := fs, d_hosts := d_hosts d\<rparr>" by (auto simp: has_fp_def)
    then show ?thesis by blast
  next
    case False
    with k obtain nxt d2 where n: "next_fingerprint i d1 = (Inr nxt, d2)" "nxt \<noteq> ''''" "nxt = fpr raw"
      and p: "promote_fingerprint i (fpr raw) d2 = (Inr u, d')"
      by (auto simp: tryP_run split: if_splits)
    have q: "map_option h_next_fp (find_host d1 i) = Some nxt" and "\<exists>gs. d2 = d1\<lparr>d_faults := gs\<rparr>"
      using one_row_Inr [OF n(1) [unfolded next_fingerprint_def]] by simp_all
    then obtain gs where d2: "d2 = d\<lparr>d_faults := gs\<rparr>" using d1 by auto
    from q fh d1 n(2,3) have "has_fp (fpr raw) h" by (auto simp: has_fp_def)
    moreover from p obtain m bad where "exec_checked bad (update_hosts (\<lambda>_ h. h_id h = i \<and> h_next_fp h = fpr raw \<and> fpr raw \<noteq> '''')
            (\<lambda>_ h. h\<lparr>h_fp := fpr raw, h_next_fp := ''''\<rparr>)) d2 = (Inr m, d')"
      by (auto simp: promote_fingerprint_def bindP_Inr)
    then have "\<exists>hs fs. d' = d2\<lparr>d_faults := fs, d_hosts := hs\<rparr>"
      by (rule exec_checked_cases) (auto simp: update_hosts_def intro!: exI)
    ultimately show ?thesis using d2 by auto
  qed
  with raw fh show "\<exists>raw h. ar_cert rq = Some raw \<and> find_host d i = Some h \<and> has_fp (fpr raw) h"
    and "\<exists>hs fs. d' = d\<lparr>d_faults := fs, d_hosts := hs\<rparr>" by auto
qed

text \<open>The caller's certificate belongs to the host of the deployment \<open>i\<close>, which is \<open>dep\<close>.\<close>

definition own_deployment :: "(string \<Rightarrow> string) \<Rightarrow> agent_request \<Rightarrow> string \<Rightarrow> db \<Rightarrow> deployment \<Rightarrow> bool" where
  "own_deployment fpr rq i d dep \<longleftrightarrow>
     find_deployment d i = Some dep \<and>
     (\<exists>raw h. ar_cert rq = Some raw \<and> find_host d (dp_host dep) = Some h \<and> has_fp (fpr raw) h)"

text \<open>The two checks the three handlers begin with.\<close>

lemma own_deployment_checked:
  assumes "with_db (get_deployment i) s = (Inr dep, s1)" and "with_db (verify_caller fpr rq (dp_host dep)) s1 = (Inr u, s2)"
  shows "own_deployment fpr rq i (ag_db s) dep"
    and "\<exists>hs fs. ag_db s2 = (ag_db s)\<lparr>d_faults := fs, d_hosts := hs\<rparr>"
proof -
  from assms obtain d1 d2 where g: "get_deployment i (ag_db s) = (Inr dep, d1)" "s1 = s\<lparr>ag_db := d1\<rparr>"
    and v: "verify_caller fpr rq (dp_host dep) d1 = (Inr u, d2)" and s2: "ag_db s2 = d2"
    by (auto simp: zoomP_run)
  from get_deployment_done [OF g(1)] obtain fs where d1: "find_deployment (ag_db s) i = Some dep" "d1 = (ag_db s)\<lparr>d_faults := fs\<rparr>"
    by blast
  with verify_caller_Inr(1) [OF v] show "own_deployment fpr rq i (ag_db s) dep" by (auto simp: own_deployment_def)
  from verify_caller_Inr(2) [OF v] s2 d1(2) show "\<exists>hs fs. ag_db s2 = (ag_db s)\<lparr>d_faults := fs, d_hosts := hs\<rparr>" by auto
qed

lemma not_plain [simp]: "ag_fail c e s \<noteq> (Inr (AgPlaintext p), s')" "ag_error c t s \<noteq> (Inr (AgPlaintext p), s')"
  "ag_fail c e s \<noteq> (Inr (AgEnv env notes), s')" "ag_error c t s \<noteq> (Inr (AgEnv env notes), s')"
  "ag_fail c e s \<noteq> (Inr (AgCommand r), s')" "ag_error c t s \<noteq> (Inr (AgCommand r), s')"
  "ag_fail c e s \<noteq> (Inr AgNoContent, s')" "ag_error c t s \<noteq> (Inr AgNoContent, s')"
  by (simp_all add: ag_fail_def ag_error_def)

text \<open>
  C16 decrypt_own_only.  A plaintext is only given to the host a deployment is for, and is what was
  sent, decrypted with the key of that deployment's stack and of no other.
\<close>

theorem decrypt_own_only:
  assumes "decrypt_handler fpr kr (Inr (i, ciphertext)) rq s = (Inr (AgPlaintext p), s')"
  shows "\<exists>dep c. own_deployment fpr rq i (ag_db s) dep \<and> ciphertext = Inr c \<and> kr_decrypt kr (dp_stack dep) c = Inr p"
proof -
  from assms obtain dep s1 u s2 where g: "with_db (get_deployment i) s = (Inr dep, s1)"
    and v: "with_db (verify_caller fpr rq (dp_host dep)) s1 = (Inr u, s2)"
    and k: "(case ciphertext of
                 Inl e \<Rightarrow> ag_error 400 (''invalid base64 ciphertext: '' @ error_text e)
               | Inr c \<Rightarrow> (case kr_decrypt kr (dp_stack dep) c of
                    Inl e \<Rightarrow> ag_error 500 (''decrypt failed: '' @ error_text e)
                  | Inr plaintext \<Rightarrow> okP (AgPlaintext plaintext))) s2 = (Inr (AgPlaintext p), s')"
    unfolding decrypt_handler_def sum.case prod.case tryP_run by (auto split: if_splits)
  from k have "\<exists>c. ciphertext = Inr c \<and> kr_decrypt kr (dp_stack dep) c = Inr p"
    by (auto split: sum.splits)
  with own_deployment_checked(1) [OF g v] show ?thesis by blast
qed

text \<open>A database with one approved host, a stack and a deployment of it.\<close>

definition blog_stack :: stack where
  "blog_stack = \<lparr>st_id = ''blog'', st_name = ''Blog'', st_source = ''local'', st_repo = '''', st_branch = '''',
     st_compose_path = '''', st_compose = ''services: {}'', st_secret = ''K=v'', st_host = ''nas'', st_trigger = ''manual'',
     st_pubkey = '''', st_ssh_pubkey = '''', st_connection = '''', st_webhook_secret = '''', st_schedule = '''',
     st_last_sha = '''', st_last_polled = None, st_subst_keys = ''''\<rparr>"

definition blog_deployment :: "string \<Rightarrow> string \<Rightarrow> deployment" where
  "blog_deployment action status =
     \<lparr>dp_id = ''d1'', dp_stack = ''blog'', dp_host = h_id (hd (d_hosts one_host_db)), dp_action = action,
      dp_trigger = ''manual'', dp_status = status, dp_output = '''', dp_started = None, dp_finished = None, dp_created = 0\<rparr>"

definition agent_example :: "string \<Rightarrow> string \<Rightarrow> agent_state" where
  "agent_example action status =
     \<lparr>ag_db = one_host_db\<lparr>d_stacks := [blog_stack], d_deployments := [blog_deployment action status]\<rparr>,
      ag_refusals = [], ag_started = []\<rparr>"

definition plain_keys :: keyring where
  "plain_keys = \<lparr>kr_registries = Inr [(''ghcr.io'', ''u'', ''p'')], kr_ssh = Inr, kr_conn_ssh = Inr,
     kr_conn_http = (\<lambda>i. Inr (i, i)), kr_decrypt = (\<lambda>_ c. Inr c), kr_secret_creds = (\<lambda>_. Inr [])\<rparr>"

definition own_request :: agent_request where
  "own_request = \<lparr>ar_cert = Some (h_fp (hd (d_hosts one_host_db))), ar_authorization = ''''\<rparr>"

lemma decrypt_own_only_witness:
  "\<exists>dep c. own_deployment id own_request ''d1'' (ag_db (agent_example ''up'' ''running'')) dep
     \<and> (Inr ''K=v'' :: string result) = Inr c \<and> kr_decrypt plain_keys (dp_stack dep) c = Inr ''K=v''"
proof -
  have "fst (decrypt_handler id plain_keys (Inr (''d1'', Inr ''K=v'')) own_request (agent_example ''up'' ''running''))
      = Inr (AgPlaintext ''K=v'')" by code_simp
  from decrypt_own_only [OF run_eqI, OF this] show ?thesis .
qed

text \<open>
  C17 resolve_own_only.  Resolved secrets are only given to the host of a running deployment, and are
  the resolution of the references sent, as that deployment's stack and through its own bindings.
\<close>

theorem resolve_own_only:
  assumes "resolve_handler fpr digest unmarshal rv kr (Inr b) rq s = (Inr (AgEnv env notes), s')"
  shows "\<exists>dep refs es enc d hs fs res. own_deployment fpr rq (vb_deployment b) (ag_db s) dep \<and> dp_status dep = ''running''
     \<and> vb_refs b = Inr refs \<and> parse_file unmarshal refs = Inr es \<and> vb_enc b = Inr enc
     \<and> d = (ag_db s)\<lparr>d_faults := fs, d_hosts := hs\<rparr>
     \<and> fst (resolve rv es (new_job digest kr (dp_stack dep) enc d)) = Inr res \<and> res_env res = env"
proof -
  from assms obtain dep s1 u s2 where g: "with_db (get_deployment (vb_deployment b)) s = (Inr dep, s1)"
    and v: "with_db (verify_caller fpr rq (dp_host dep)) s1 = (Inr u, s2)"
    and k: "(if dp_status dep \<noteq> ''running'' then ag_error 409 ''deployment is not running''
               else (case vb_refs b of
                   Inl e \<Rightarrow> ag_error 400 (''invalid base64 refs file: '' @ error_text e)
                 | Inr refs \<Rightarrow>
                   (case vb_enc b of
                      Inl _ \<Rightarrow> ag_error 400 ''invalid or oversized secrets.enc.yaml''
                    | Inr enc \<Rightarrow>
                      if length enc > max_enc_file_size then ag_error 400 ''invalid or oversized secrets.enc.yaml''
                      else (case parse_file unmarshal refs of
                          Inl e \<Rightarrow> ag_fail 400 e
                        | Inr es \<Rightarrow>
                          bindP (getP ag_db) (\<lambda>d.
                            case fst (resolve rv es (new_job digest kr (dp_stack dep) enc d)) of
                              Inl fs \<Rightarrow>
                                bindP (with_db (audit_resolve dep ''secrets.resolve_failed'' (failed_keys fs) [])) (\<lambda>_.
                                  ag_error 422 (resolve_error_text fs))
                            | Inr res \<Rightarrow>
                                bindP (with_db (audit_resolve dep ''secrets.resolve'' (entry_keys es) (res_sources res))) (\<lambda>_.
                                  okP (AgEnv (res_env res) (res_notes res)))))))) s2 = (Inr (AgEnv env notes), s')"
    unfolding resolve_handler_def sum.case tryP_run by (auto split: if_splits)
  from k have run: "dp_status dep = ''running''" by (cases "dp_status dep = ''running''") auto
  from k run obtain refs where refs: "vb_refs b = Inr refs" by (cases "vb_refs b") auto
  from k run refs obtain enc where enc: "vb_enc b = Inr enc" by (cases "vb_enc b") auto
  from k run refs enc obtain es where es: "parse_file unmarshal refs = Inr es"
    by (cases "parse_file unmarshal refs") (auto split: if_splits)
  from k run refs enc es obtain res where
    "fst (resolve rv es (new_job digest kr (dp_stack dep) enc (ag_db s2))) = Inr res" "res_env res = env"
    by (auto simp: bindP_Inr split: if_splits sum.splits)
  moreover from own_deployment_checked(2) [OF g v] obtain hs fs where "ag_db s2 = (ag_db s)\<lparr>d_faults := fs, d_hosts := hs\<rparr>"
    by blast
  ultimately show ?thesis using own_deployment_checked(1) [OF g v] run refs enc es by blast
qed

definition sops_line :: "string \<Rightarrow> int option + (yaml_value \<times> yaml_value) list" where
  "sops_line _ = Inr [(YString ''K'', YString ''ref+sops://secrets.enc.yaml#/K'')]"

definition sops_entry :: entry where
  "sops_entry = \<lparr>e_key = ''K'', e_ref = \<lparr>r_scheme = ''sops'', r_path = ''secrets.enc.yaml'', r_field = ''K''\<rparr>\<rparr>"

lemma sops_line_parsed: "parse_file sops_line ''x'' = Inr [sops_entry]"
proof -
  have "parse_items [(YString ''K'', YString ''ref+sops://secrets.enc.yaml#/K'')] 0 [] [] [] = ([], [sops_entry])"
    by code_simp
  then show ?thesis by (simp add: parse_file_def sops_line_def max_refs_file_size_def)
qed

lemma resolve_own_only_witness:
  "\<exists>dep refs es enc d hs fs res. own_deployment id own_request ''d1'' (ag_db (agent_example ''up'' ''running'')) dep
     \<and> dp_status dep = ''running'' \<and> (Inr ''x'' :: string result) = Inr refs
     \<and> parse_file sops_line refs = Inr es \<and> (Inr ''K=v'' :: string result) = Inr enc
     \<and> d = (ag_db (agent_example ''up'' ''running''))\<lparr>d_faults := fs, d_hosts := hs\<rparr>
     \<and> fst (resolve [(''sops'', sops_provider)] es (new_job (\<lambda>_ _ _. '''') plain_keys (dp_stack dep) enc d)) = Inr res
     \<and> res_env res = [(''K'', ''v'')]"
proof -
  let ?s = "agent_example ''up'' ''running''" and ?dep = "blog_deployment ''up'' ''running''"
  let ?g = "with_db (get_deployment ''d1'') ?s"
  let ?v = "with_db (verify_caller id own_request (dp_host ?dep)) (snd ?g)"
  let ?r = "resolve [(''sops'', sops_provider)] [sops_entry] (new_job (\<lambda>_ _ _. '''') plain_keys ''blog'' ''K=v'' (ag_db (snd ?v)))"
  have g: "?g = (Inr ?dep, snd ?g)" by (rule run_eqI) code_simp
  have v: "?v = (Inr (), snd ?v)" by (rule run_eqI) code_simp
  have r: "fst ?r = Inr \<lparr>res_env = [(''K'', ''v'')], res_notes = [], res_sources = []\<rparr>" by code_simp
  let ?a = "with_db (audit_resolve ?dep ''secrets.resolve'' [''K''] []) (snd ?v)"
  have a: "?a = (Inr (), snd ?a)" by (rule run_eqI) code_simp
  let ?b = "\<lparr>vb_deployment = ''d1'', vb_refs = Inr ''x'', vb_enc = Inr ''K=v''\<rparr> :: resolve_body"
  have "resolve_handler id (\<lambda>_ _ _. '''') sops_line [(''sops'', sops_provider)] plain_keys (Inr ?b) own_request ?s
      = (Inr (AgEnv [(''K'', ''v'')] []), snd ?a)"
    unfolding resolve_handler_def sum.case tryP_run
    by (rule disjI2, intro exI conjI, simp only: resolve_body.simps, rule g, rule disjI2, intro exI conjI, rule v)
       (use r a in \<open>simp add: sops_line_parsed max_enc_file_size_def bindP_Inr entry_keys_def sops_entry_def blog_deployment_def\<close>)
  from resolve_own_only [OF this] show ?thesis by simp
qed

section \<open>What a command carries\<close>

lemma give_up_not_command [simp]: "give_up c i a b s \<noteq> (Inr (AgCommand r), s')"
  by (auto simp: give_up_def bindP_def tryP_def split: prod.splits sum.splits)

lemma git_command_ids:
  assumes "git_command kr h dep st resp s = (Inr (AgCommand r), s')"
  shows "cr_deployment r = cr_deployment resp \<and> cr_action r = cr_action resp
     \<and> (dp_action dep = ''down'' \<longrightarrow> cr_env r = cr_env resp \<and> cr_ssh_key r = cr_ssh_key resp
          \<and> cr_http_user r = cr_http_user resp \<and> cr_http_password r = cr_http_password resp
          \<and> cr_registry_auths r = cr_registry_auths resp)"
proof (cases "dp_action dep = ''down''")
  case True
  with assms show ?thesis by (auto simp: git_command_def Let_def)
next
  case False
  with assms show ?thesis by (auto simp: git_command_def Let_def bindP_Inr tryP_run split: if_splits)
qed

lemma local_command_ids:
  assumes "local_command kr dep st resp s = (Inr (AgCommand r), s')"
  shows "cr_deployment r = cr_deployment resp \<and> cr_action r = cr_action resp
     \<and> (dp_action dep = ''down'' \<longrightarrow> cr_env r = cr_env resp \<and> cr_ssh_key r = cr_ssh_key resp
          \<and> cr_http_user r = cr_http_user resp \<and> cr_http_password r = cr_http_password resp
          \<and> cr_registry_auths r = cr_registry_auths resp)"
  using assms by (auto simp: local_command_def Let_def split: if_splits sum.splits)

lemma command_for_ids:
  assumes "command_for kr h dep st s = (Inr (AgCommand r), s')"
  shows "cr_deployment r = dp_id dep \<and> cr_action r = dp_action dep
     \<and> (dp_action dep = ''down'' \<longrightarrow> cr_env r = [] \<and> cr_ssh_key r = '''' \<and> cr_http_user r = ''''
          \<and> cr_http_password r = '''' \<and> cr_registry_auths r = [])"
proof -
  let ?next = "\<lambda>resp. if st_source st = ''git'' then git_command kr h dep st resp else local_command kr dep st resp"
  have step: "cr_deployment r = cr_deployment resp \<and> cr_action r = cr_action resp
     \<and> (dp_action dep = ''down'' \<longrightarrow> cr_env r = cr_env resp \<and> cr_ssh_key r = cr_ssh_key resp
          \<and> cr_http_user r = cr_http_user resp \<and> cr_http_password r = cr_http_password resp
          \<and> cr_registry_auths r = cr_registry_auths resp)" if "?next resp s = (Inr (AgCommand r), s')" for resp
    using that git_command_ids local_command_ids by (cases "st_source st = ''git''") auto
  show ?thesis
  proof (cases "dp_action dep = ''down''")
    case True
    with assms have "?next (bare_response dep st) s = (Inr (AgCommand r), s')"
      by (simp add: command_for_def Let_def split del: if_split)
    from step [OF this] show ?thesis by (simp add: bare_response_def)
  next
    case False
    with assms obtain a where "?next ((bare_response dep st)\<lparr>cr_registry_auths := a\<rparr>) s = (Inr (AgCommand r), s')"
      by (cases "kr_registries kr") (simp_all add: command_for_def Let_def split del: if_split)
    from step [OF this] False show ?thesis by (simp add: bare_response_def)
  qed
qed

text \<open>The run of the handler that ends with a command.\<close>

lemma commands_run:
  assumes "commands_handler fpr kr rq s = (Inr (AgCommand r), s')"
  shows "\<exists>raw h s1 dep s2. ar_cert rq = Some raw \<and> with_db (get_host_by_fp (fpr raw)) s = (Inr h, s1)
     \<and> with_db (claim_next_deployment (h_id h)) s1 = (Inr (Some dep), s2)
     \<and> cr_deployment r = dp_id dep \<and> cr_action r = dp_action dep
     \<and> (dp_action dep = ''down'' \<longrightarrow> cr_env r = [] \<and> cr_ssh_key r = '''' \<and> cr_http_user r = ''''
          \<and> cr_http_password r = '''' \<and> cr_registry_auths r = [])"
proof -
  obtain raw where raw: "ar_cert rq = Some raw"
    using assms by (cases "ar_cert rq") (auto simp: commands_handler_def caller_fingerprint_def)
  from assms raw obtain h s1 where h: "with_db (get_host_by_fp (fpr raw)) s = (Inr h, s1)"
    and k: "tryP (with_db (claim_next_deployment (h_id h))) (ag_fail 500) (hand_over kr h) s1 = (Inr (AgCommand r), s')"
    unfolding commands_handler_def caller_fingerprint_def
    by (auto simp: tryP_run [of "with_db (get_host_by_fp (fpr raw))"])
  from k obtain claimed s2 where d: "with_db (claim_next_deployment (h_id h)) s1 = (Inr claimed, s2)"
    and k2: "hand_over kr h claimed s2 = (Inr (AgCommand r), s')"
    unfolding tryP_run by auto
  from k2 obtain dep where c: "claimed = Some dep" by (cases claimed) (auto simp: hand_over_def)
  note d = d [unfolded c]
  from k2 c obtain st s3 where "command_for kr h dep st s3 = (Inr (AgCommand r), s')"
    by (auto simp: hand_over_def tryP_run)
  from command_for_ids [OF this] raw h d show ?thesis by blast
qed

text \<open>
  The command to take a stack down carries no environment, no key, no
  password and no registry credential.
\<close>

theorem teardown_no_secrets:
  assumes "commands_handler fpr kr rq s = (Inr (AgCommand r), s')" and "cr_action r = ''down''"
  shows "cr_env r = [] \<and> cr_ssh_key r = '''' \<and> cr_http_user r = '''' \<and> cr_http_password r = '''' \<and> cr_registry_auths r = []"
  using commands_run [OF assms(1)] assms(2) by auto

lemma teardown_no_secrets_witness:
  "case fst (commands_handler id plain_keys own_request (agent_example ''down'' ''queued'')) of
     Inr (AgCommand r) \<Rightarrow> cr_stack r = ''blog'' \<and> cr_env r = [] \<and> cr_ssh_key r = '''' \<and> cr_http_user r = ''''
       \<and> cr_http_password r = '''' \<and> cr_registry_auths r = []
   | _ \<Rightarrow> False"
proof -
  let ?run = "commands_handler id plain_keys own_request (agent_example ''down'' ''queued'')"
  have "(case fst ?run of Inr (AgCommand r) \<Rightarrow> cr_stack r = ''blog'' \<and> cr_action r = ''down'' | _ \<Rightarrow> False)" by code_simp
  then obtain r where r: "fst ?run = Inr (AgCommand r)" and a: "cr_stack r = ''blog''" "cr_action r = ''down''"
    by (auto split: sum.splits agent_answer.splits)
  from teardown_no_secrets [OF run_eqI, OF r a(2)] r a(1) show ?thesis by simp
qed

text \<open>
  The deployment an agent is handed was queued for the host its certificate
  belongs to.
\<close>

theorem command_own_host:
  assumes "commands_handler fpr kr rq s = (Inr (AgCommand r), s')"
  shows "\<exists>raw h dep. ar_cert rq = Some raw \<and> h \<in> set (d_hosts (ag_db s)) \<and> has_fp (fpr raw) h
     \<and> dep \<in> set (d_deployments (ag_db s)) \<and> is_queued (h_id h) dep \<and> dp_id dep = cr_deployment r"
proof -
  from commands_run [OF assms] obtain raw h s1 dep s2 where raw: "ar_cert rq = Some raw"
    and h: "with_db (get_host_by_fp (fpr raw)) s = (Inr h, s1)"
    and d: "with_db (claim_next_deployment (h_id h)) s1 = (Inr (Some dep), s2)" and i: "cr_deployment r = dp_id dep"
    by blast
  from h obtain d1 where g: "get_host_by_fp (fpr raw) (ag_db s) = (Inr h, d1)" "s1 = s\<lparr>ag_db := d1\<rparr>" by (auto simp: zoomP_run)
  from get_host_by_fp_Inr [OF g(1)] obtain fs where row: "h \<in> set (d_hosts (ag_db s))" "has_fp (fpr raw) h"
    and d1: "d1 = (ag_db s)\<lparr>d_faults := fs\<rparr>" by (auto dest: find_in)
  from d obtain d2 where "claim_next_deployment (h_id h) d1 = (Inr (Some dep), d2)" using g(2) by (auto simp: zoomP_run)
  then obtain j d3 n d4 d5 where sel: "claim_select (h_id h) d1 = (Inr (Some j), d3)"
    and get: "get_deployment j d4 = (Inr dep, d5)"
    unfolding claim_next_deployment_def by (auto simp: bindP_Inr split: option.splits if_splits)
  from claim_select_done [OF sel] obtain y where y: "find (is_queued (h_id h)) (d_deployments d1) = Some y" "dp_id y = j"
    by (cases "find (is_queued (h_id h)) (d_deployments d1)") auto
  from get_deployment_done [OF get] have "dp_id dep = j" by (auto simp: find_deployment_def dest: find_in)
  with y raw row d1 i find_in [OF y(1)] show ?thesis by (auto intro!: exI [of _ y])
qed

lemma command_own_host_witness:
  "\<exists>raw h dep. ar_cert own_request = Some raw \<and> h \<in> set (d_hosts (ag_db (agent_example ''up'' ''queued''))) \<and> has_fp (id raw) h
     \<and> dep \<in> set (d_deployments (ag_db (agent_example ''up'' ''queued''))) \<and> is_queued (h_id h) dep \<and> dp_id dep = ''d1''"
proof -
  let ?run = "commands_handler id plain_keys own_request (agent_example ''up'' ''queued'')"
  have "(case fst ?run of Inr (AgCommand r) \<Rightarrow> cr_deployment r = ''d1'' | _ \<Rightarrow> False)" by code_simp
  then obtain r where r: "fst ?run = Inr (AgCommand r)" and i: "cr_deployment r = ''d1''"
    by (auto split: sum.splits agent_answer.splits)
  from command_own_host [OF run_eqI, OF r] i show ?thesis by simp
qed

end
