(* ===== verification/Tunnel.thy ===== *)
theory Tunnel
  imports Store_Stacks Versions
begin

text \<open>
  The persistent tunnel of an agent, \<^verbatim>\<open>src/tunnel.go\<close> and \<^verbatim>\<open>src/backup_protocol.go\<close>: its messages, the
  registry of connections, and the calls that wait for a reply while one reader delivers them.  A
  call and the reader interleave; a step is what the code does under one lock or in one channel
  operation.
\<close>

section \<open>Messages\<close>

record container_report =
  cp_id :: string
  cp_name :: string
  cp_image :: string
  cp_state :: string
  cp_status :: string
  cp_ports :: string
  cp_created :: string
  cp_stack :: string
  cp_service :: string
  cp_mounts :: "string list"
  cp_networks :: "string list"
  cp_image_id :: string

record image_report =
  ip_id :: string
  ip_repository :: string
  ip_tag :: string
  ip_size :: string
  ip_digest :: string

record volume_report =
  vp_name :: string
  vp_driver :: string
  vp_labels :: "(string \<times> string) list"

record network_report =
  np_name :: string
  np_driver :: string
  np_scope :: string

text \<open>\<^verbatim>\<open>agentRetention\<close> has the fields of a job's retention.\<close>

record agent_backup_destination =
  ad_server :: string
  ad_share :: string
  ad_subdir :: string
  ad_version :: string
  ad_username :: string
  ad_password :: string
  ad_domain :: string
  ad_repo_dir :: string
  ad_repo_password :: string

record agent_backup_request =
  aq_run :: string
  aq_dest :: agent_backup_destination
  aq_host_tag :: string
  aq_volumes :: "string list"
  aq_mode :: string
  aq_retention :: retention_policy
  aq_snapshot :: string
  aq_volume :: string
  aq_new_volume :: string

record tunnel_message =
  tm_type :: string
  tm_containers :: "container_report list"
  tm_images :: "image_report list"
  tm_volumes :: "volume_report list"
  tm_networks :: "network_report list"
  tm_arch :: string
  tm_version :: string
  tm_request :: string
  tm_action :: string
  tm_container :: string
  tm_tail :: string
  tm_container_ids :: "string list"
  tm_volume :: string
  tm_path :: string
  tm_new_path :: string
  tm_data :: string
  tm_backup :: "agent_backup_request option"
  tm_ok :: bool
  tm_output :: string

definition empty_message :: tunnel_message where
  "empty_message = \<lparr>tm_type = '''', tm_containers = [], tm_images = [], tm_volumes = [], tm_networks = [],
     tm_arch = '''', tm_version = '''', tm_request = '''', tm_action = '''', tm_container = '''', tm_tail = '''',
     tm_container_ids = [], tm_volume = '''', tm_path = '''', tm_new_path = '''', tm_data = '''', tm_backup = None,
     tm_ok = False, tm_output = ''''\<rparr>"

text \<open>The commands, and the envelope \<^verbatim>\<open>sendWithin\<close> puts around them.\<close>

definition container_command :: "string \<Rightarrow> string \<Rightarrow> tunnel_message" where
  "container_command action cid = empty_message\<lparr>tm_action := action, tm_container := cid\<rparr>"

definition logs_command :: "string \<Rightarrow> string \<Rightarrow> tunnel_message" where
  "logs_command cid tail = empty_message\<lparr>tm_action := ''logs'', tm_container := cid, tm_tail := tail\<rparr>"

definition volume_command :: "string \<Rightarrow> string \<Rightarrow> string \<Rightarrow> string \<Rightarrow> string \<Rightarrow> tunnel_message" where
  "volume_command action vol path new_path dat =
     empty_message\<lparr>tm_action := action, tm_volume := vol, tm_path := path, tm_new_path := new_path, tm_data := dat\<rparr>"

definition backup_message :: "string \<Rightarrow> agent_backup_request \<Rightarrow> tunnel_message" where
  "backup_message action req = empty_message\<lparr>tm_action := action, tm_backup := Some req\<rparr>"

definition envelope :: "string \<Rightarrow> tunnel_message \<Rightarrow> tunnel_message" where
  "envelope i msg = msg\<lparr>tm_type := ''command'', tm_request := i\<rparr>"

text \<open>The replies to the backup actions; three bytes are the ellipsis.\<close>

definition ellipsis :: string where
  "ellipsis = [CHR 0xE2, CHR 0x80, CHR 0xA6]"

definition clean_agent_message :: "string \<Rightarrow> string" where
  "clean_agent_message s = (if length s > 600 then take 600 s @ ellipsis else s)"

definition backup_command :: "tunnel_message result \<Rightarrow> string result" where
  "backup_command reply =
     bind_res reply (\<lambda>m. if \<not> tm_ok m then err_text (clean_agent_message (tm_output m)) else Inr (tm_output m))"

definition start_backup_action :: "tunnel_message result \<Rightarrow> unit result" where
  "start_backup_action reply =
     bind_res reply (\<lambda>m. if \<not> tm_ok m then err_text (clean_agent_message (tm_output m)) else Inr ())"

section \<open>The registry of connections\<close>

text \<open>A connection is known by a number, as the code compares pointers.\<close>

type_synonym registry = "(string \<times> nat) list"

definition registry_set :: "string \<Rightarrow> nat \<Rightarrow> registry \<Rightarrow> registry" where
  "registry_set host c r = put_assoc host c r"

definition registry_remove :: "string \<Rightarrow> nat \<Rightarrow> registry \<Rightarrow> registry" where
  "registry_remove host c r = (if map_of r host = Some c then del_assoc host r else r)"

definition registry_get :: "string \<Rightarrow> registry \<Rightarrow> nat option" where
  "registry_get host r = map_of r host"

text \<open>The life of the handlers: one opens a connection, and takes it away when its loop ends.\<close>

datatype tunnel_event = Opened string nat | Closed string nat

fun registry_after :: "tunnel_event list \<Rightarrow> registry \<Rightarrow> registry" where
  "registry_after [] r = r"
| "registry_after (Opened h c # es) r = registry_after es (registry_set h c r)"
| "registry_after (Closed h c # es) r = registry_after es (registry_remove h c r)"

lemma registry_after_append: "registry_after (es @ fs) r = registry_after fs (registry_after es r)"
  by (induction es r rule: registry_after.induct) simp_all

text \<open>The abstract account: the newest connection of the host, as long as it is open.\<close>

definition newest_open :: "string \<Rightarrow> tunnel_event list \<Rightarrow> nat \<Rightarrow> bool" where
  "newest_open host es c \<longleftrightarrow>
     (\<exists>pre post. es = pre @ Opened host c # post \<and> Closed host c \<notin> set post \<and> (\<forall>k. Opened host k \<notin> set post))"

lemma newest_open_Nil [simp]: "\<not> newest_open host [] c"
  by (simp add: newest_open_def)

lemma newest_open_snoc:
  "newest_open host (es @ [e]) c \<longleftrightarrow>
     e = Opened host c \<or> (newest_open host es c \<and> e \<noteq> Closed host c \<and> (\<forall>k. e \<noteq> Opened host k))"
proof
  assume "newest_open host (es @ [e]) c"
  then obtain pre post where p: "es @ [e] = pre @ Opened host c # post" "Closed host c \<notin> set post"
    "\<forall>k. Opened host k \<notin> set post" by (auto simp: newest_open_def)
  show "e = Opened host c \<or> (newest_open host es c \<and> e \<noteq> Closed host c \<and> (\<forall>k. e \<noteq> Opened host k))"
  proof (cases post rule: rev_cases)
    case Nil
    with p(1) show ?thesis by simp
  next
    case (snoc ps x)
    with p(1) have "es = pre @ Opened host c # ps" "e = x" by auto
    with snoc p(2,3) show ?thesis by (auto simp: newest_open_def)
  qed
next
  assume "e = Opened host c \<or> (newest_open host es c \<and> e \<noteq> Closed host c \<and> (\<forall>k. e \<noteq> Opened host k))"
  then show "newest_open host (es @ [e]) c"
  proof
    assume "newest_open host es c \<and> e \<noteq> Closed host c \<and> (\<forall>k. e \<noteq> Opened host k)"
    then obtain pre post where "es = pre @ Opened host c # post" "Closed host c \<notin> set post"
      "\<forall>k. Opened host k \<notin> set post" "e \<noteq> Closed host c" "\<forall>k. e \<noteq> Opened host k" by (auto simp: newest_open_def)
    then show ?thesis
      unfolding newest_open_def by (intro exI [of _ pre] exI [of _ "post @ [e]"]) auto
  next
    assume "e = Opened host c"
    then show ?thesis unfolding newest_open_def by (intro exI [of _ es] exI [of _ "[]"]) auto
  qed
qed

text \<open>
  C18 newest_connection.  The registry gives for a host its newest connection, as long as that one is
  open, and nothing otherwise: an old handler that ends late does not take a newer connection away.
\<close>

theorem newest_connection:
  "registry_get host (registry_after es []) = Some c \<longleftrightarrow> newest_open host es c"
proof (induction es arbitrary: c rule: rev_induct)
  case Nil
  then show ?case by (simp add: registry_get_def)
next
  case (snoc e es)
  show ?case
  proof (cases e)
    case (Opened h k)
    then show ?thesis using snoc [of c]
      by (auto simp: registry_after_append registry_set_def registry_get_def newest_open_snoc)
  next
    case (Closed h k)
    then show ?thesis using snoc [of c] snoc [of k]
      by (auto simp: registry_after_append registry_remove_def registry_get_def newest_open_snoc)
  qed
qed

section \<open>Calls and replies\<close>

text \<open>
  A call gets a random id and a channel with room for one message (the channel of call \<open>n\<close> is \<open>n\<close>),
  registers it under its id, writes the command, waits for the reply, the time limit or its caller's
  context, and takes its id away when it returns.  The reader looks a reply's id up, and puts the
  message into the channel it finds there, which blocks while the channel is full.
\<close>

datatype call_state =
    NotStarted
  | Writing string
  | Waiting string
  | Leaving string "tunnel_message result"
  | Returned string "tunnel_message result"

datatype reader = Reading | Pushing nat tunnel_message | Ended

record tunnel_conn =
  tc_pending :: "(string \<times> nat) list"
  tc_chans :: "nat \<Rightarrow> tunnel_message option"
  tc_calls :: "nat \<Rightarrow> call_state"
  tc_reader :: reader
  tc_read :: "tunnel_message list"

definition new_conn :: tunnel_conn where
  "new_conn = \<lparr>tc_pending = [], tc_chans = (\<lambda>_. None), tc_calls = (\<lambda>_. NotStarted), tc_reader = Reading, tc_read = []\<rparr>"

text \<open>The critical sections.\<close>

definition set_call :: "nat \<Rightarrow> call_state \<Rightarrow> tunnel_conn \<Rightarrow> tunnel_conn" where
  "set_call n st w = w\<lparr>tc_calls := (tc_calls w)(n := st)\<rparr>"

definition set_chan :: "nat \<Rightarrow> tunnel_message option \<Rightarrow> tunnel_conn \<Rightarrow> tunnel_conn" where
  "set_chan n m w = w\<lparr>tc_chans := (tc_chans w)(n := m)\<rparr>"

definition register_call :: "string \<Rightarrow> nat \<Rightarrow> tunnel_conn \<Rightarrow> tunnel_conn" where
  "register_call i n w = w\<lparr>tc_pending := put_assoc i n (tc_pending w)\<rparr>"

definition unregister_call :: "string \<Rightarrow> tunnel_conn \<Rightarrow> tunnel_conn" where
  "unregister_call i w = w\<lparr>tc_pending := del_assoc i (tc_pending w)\<rparr>"

text \<open>The reader after a message: a state push and an unknown type leave the calls alone.\<close>

definition after_read :: "tunnel_message \<Rightarrow> tunnel_conn \<Rightarrow> tunnel_conn" where
  "after_read m w =
     (let w = w\<lparr>tc_read := tc_read w @ [m]\<rparr> in
      if tm_type m = ''command_result'' then
        (case map_of (tc_pending w) (tm_request m) of None \<Rightarrow> w | Some n \<Rightarrow> w\<lparr>tc_reader := Pushing n m\<rparr>)
      else w)"

definition timed_out :: gerr where
  "timed_out = ErrText ''timed out waiting for agent response''"

inductive tunnel_step :: "tunnel_conn \<Rightarrow> tunnel_conn \<Rightarrow> bool" where
  no_id: "tc_calls w n = NotStarted \<Longrightarrow>
      tunnel_step w (set_call n (Returned '''' (Inl (ErrWrap ''generate request id: '' e))) w)"
| start: "tc_calls w n = NotStarted \<Longrightarrow> tunnel_step w (register_call i n (set_call n (Writing i) w))"
| write_failed: "tc_calls w n = Writing i \<Longrightarrow>
      tunnel_step w (set_call n (Leaving i (Inl (ErrWrap ''send command: '' e))) w)"
| written: "tc_calls w n = Writing i \<Longrightarrow> tunnel_step w (set_call n (Waiting i) w)"
| received: "tc_calls w n = Waiting i \<Longrightarrow> tc_chans w n = Some m \<Longrightarrow>
      tunnel_step w (set_chan n None (set_call n (Leaving i (Inr m)) w))"
| timeout: "tc_calls w n = Waiting i \<Longrightarrow> tunnel_step w (set_call n (Leaving i (Inl timed_out)) w)"
| cancelled: "tc_calls w n = Waiting i \<Longrightarrow> tunnel_step w (set_call n (Leaving i (Inl e)) w)"
| leave: "tc_calls w n = Leaving i r \<Longrightarrow> tunnel_step w (unregister_call i (set_call n (Returned i r) w))"
| read: "tc_reader w = Reading \<Longrightarrow> tunnel_step w (after_read m w)"
| push: "tc_reader w = Pushing n m \<Longrightarrow> tc_chans w n = None \<Longrightarrow>
      tunnel_step w (set_chan n (Some m) (w\<lparr>tc_reader := Reading\<rparr>))"
| closed: "tc_reader w = Reading \<Longrightarrow> tunnel_step w (w\<lparr>tc_reader := Ended\<rparr>)"

inductive tunnel_reach :: "tunnel_conn \<Rightarrow> tunnel_conn \<Rightarrow> bool" where
  here: "tunnel_reach w w"
| further: "tunnel_reach w v \<Longrightarrow> tunnel_step v u \<Longrightarrow> tunnel_reach w u"

lemma tunnel_invariant:
  assumes "tunnel_reach w v" and "I w" and "\<And>v u. tunnel_step v u \<Longrightarrow> I v \<Longrightarrow> I u"
  shows "I v"
  using assms(1,2) by (induction rule: tunnel_reach.induct) (auto intro: assms(3))

lemmas conn_updates = set_call_def set_chan_def register_call_def unregister_call_def after_read_def Let_def

text \<open>The id a call registered.\<close>

fun call_id :: "call_state \<Rightarrow> string option" where
  "call_id NotStarted = None"
| "call_id (Writing i) = Some i"
| "call_id (Waiting i) = Some i"
| "call_id (Leaving i r) = Some i"
| "call_id (Returned i r) = Some i"

text \<open>What a call has been given so far.\<close>

fun call_result :: "call_state \<Rightarrow> tunnel_message option" where
  "call_result (Leaving i (Inr m)) = Some m"
| "call_result (Returned i (Inr m)) = Some m"
| "call_result st = None"

definition reply_for :: "tunnel_conn \<Rightarrow> nat \<Rightarrow> tunnel_message \<Rightarrow> bool" where
  "reply_for w n m \<longleftrightarrow> call_id (tc_calls w n) = Some (tm_request m) \<and> tm_type m = ''command_result''
     \<and> m \<in> set (tc_read w)"

definition replies_inv :: "tunnel_conn \<Rightarrow> bool" where
  "replies_inv w \<longleftrightarrow>
     (\<forall>i n. map_of (tc_pending w) i = Some n \<longrightarrow> call_id (tc_calls w n) = Some i)
     \<and> (\<forall>n m. tc_reader w = Pushing n m \<longrightarrow> reply_for w n m)
     \<and> (\<forall>n m. tc_chans w n = Some m \<longrightarrow> reply_for w n m)
     \<and> (\<forall>n m. call_result (tc_calls w n) = Some m \<longrightarrow> reply_for w n m)"

text \<open>Each critical section keeps it.\<close>

lemma replies_set_call:
  assumes "replies_inv w" and "call_id (tc_calls w n) = None \<or> call_id st = call_id (tc_calls w n)"
    and "\<And>m. call_result st = Some m \<Longrightarrow> reply_for w n m"
  shows "replies_inv (set_call n st w)"
proof -
  have keep: "reply_for (set_call n st w) k m" if "reply_for w k m" for k m
    using that assms(2) by (auto simp: reply_for_def set_call_def)
  show ?thesis
    unfolding replies_inv_def
  proof (intro conjI allI impI)
    show "call_id (tc_calls (set_call n st w) k) = Some i" if "map_of (tc_pending (set_call n st w)) i = Some k" for i k
      using that assms(1,2) by (fastforce simp: replies_inv_def set_call_def)
    show "reply_for (set_call n st w) k m" if "call_result (tc_calls (set_call n st w) k) = Some m" for k m
      using that assms(1,3) by (cases "k = n") (auto simp: replies_inv_def set_call_def intro!: keep [unfolded set_call_def])
  qed (use assms(1) in \<open>auto simp: replies_inv_def set_call_def intro!: keep [unfolded set_call_def]\<close>)
qed

lemma replies_set_chan:
  "replies_inv w \<Longrightarrow> (\<And>x. m = Some x \<Longrightarrow> reply_for w n x) \<Longrightarrow> replies_inv (set_chan n m w)"
  by (auto simp: replies_inv_def set_chan_def reply_for_def split: if_splits)

lemma replies_pending:
  "replies_inv w \<Longrightarrow> call_id (tc_calls w n) = Some i \<Longrightarrow> replies_inv (register_call i n w)"
  "replies_inv w \<Longrightarrow> replies_inv (unregister_call i w)"
  by (auto simp: replies_inv_def register_call_def unregister_call_def reply_for_def split: if_splits)

lemma replies_after_read: "replies_inv w \<Longrightarrow> tc_reader w = Reading \<Longrightarrow> replies_inv (after_read m w)"
  by (auto simp: replies_inv_def after_read_def Let_def reply_for_def split: option.split)

lemma replies_inv_step: "tunnel_step v u \<Longrightarrow> replies_inv v \<Longrightarrow> replies_inv u"
proof (induction rule: tunnel_step.induct)
  case (start w n i)
  then show ?case by (intro replies_pending(1) replies_set_call) (auto simp: set_call_def)
next
  case (received w n i m)
  then have "reply_for w n m" by (simp add: replies_inv_def)
  with received show ?case by (intro replies_set_chan replies_set_call) auto
next
  case (leave w n i r)
  have "reply_for w n m" if "call_result (Returned i r) = Some m" for m
    using that leave by (cases r) (auto simp: replies_inv_def)
  with leave show ?case by (intro replies_pending(2) replies_set_call) auto
next
  case (push w n m)
  have "replies_inv (w\<lparr>tc_reader := Reading\<rparr>)" "reply_for (w\<lparr>tc_reader := Reading\<rparr>) n m"
    using push by (auto simp: replies_inv_def reply_for_def)
  then show ?case by (intro replies_set_chan) auto
next
  case (closed w)
  then show ?case by (auto simp: replies_inv_def reply_for_def)
qed (auto intro!: replies_set_call replies_after_read)

lemma replies_inv_reach: "tunnel_reach new_conn w \<Longrightarrow> replies_inv w"
proof (rule tunnel_invariant [where I = replies_inv])
  show "replies_inv new_conn" by (simp add: replies_inv_def new_conn_def)
qed (auto intro: replies_inv_step)

text \<open>
  C19 reply_matches_call.  A call only ever returns a reply the agent sent on this connection under the
  id of that very call, however calls, replies, time limits and ends of calls interleave.
\<close>

theorem reply_matches_call:
  assumes "tunnel_reach new_conn w" and "tc_calls w n = Returned i (Inr m)"
  shows "tm_request m = i \<and> tm_type m = ''command_result'' \<and> m \<in> set (tc_read w)"
proof -
  have "call_result (tc_calls w n) = Some m" using assms(2) by simp
  then have "reply_for w n m" using replies_inv_reach [OF assms(1)] by (auto simp: replies_inv_def)
  then show ?thesis using assms(2) by (simp add: reply_for_def)
qed

text \<open>A reply to the first call, delivered.\<close>

definition reply_of :: "string \<Rightarrow> tunnel_message" where
  "reply_of i = empty_message\<lparr>tm_type := ''command_result'', tm_request := i, tm_ok := True\<rparr>"

lemma reach_pushing: "\<exists>w. tunnel_reach new_conn w \<and> tc_calls w 0 = Waiting ''r'' \<and> tc_chans w 0 = Some (reply_of ''r'')
    \<and> tc_reader w = Reading \<and> tc_read w = [reply_of ''r''] \<and> map_of (tc_pending w) ''r'' = Some 0"
proof -
  let ?w1 = "register_call ''r'' 0 (set_call 0 (Writing ''r'') new_conn)"
  let ?w2 = "set_call 0 (Waiting ''r'') ?w1"
  let ?w3 = "after_read (reply_of ''r'') ?w2"
  let ?w4 = "set_chan 0 (Some (reply_of ''r'')) (?w3\<lparr>tc_reader := Reading\<rparr>)"
  note steps = new_conn_def conn_updates reply_of_def
  have "tunnel_step new_conn ?w1" by (rule tunnel_step.start) (simp add: steps)
  moreover have "tunnel_step ?w1 ?w2" by (rule tunnel_step.written) (simp add: steps)
  moreover have "tunnel_step ?w2 ?w3" by (rule tunnel_step.read) (simp add: steps)
  moreover have "tunnel_step ?w3 ?w4" by (rule tunnel_step.push) (simp_all add: steps)
  ultimately have "tunnel_reach new_conn ?w4" by (meson tunnel_reach.intros)
  then show ?thesis by (intro exI [of _ ?w4]) (simp add: steps)
qed

lemma reply_matches_call_witness:
  "\<exists>w m. tunnel_reach new_conn w \<and> tc_calls w 0 = Returned ''r'' (Inr m) \<and> tm_request m = ''r'' \<and> m \<in> set (tc_read w)"
proof -
  from reach_pushing obtain w where w: "tunnel_reach new_conn w" "tc_calls w 0 = Waiting ''r''"
    "tc_chans w 0 = Some (reply_of ''r'')" by blast
  let ?v = "set_chan 0 None (set_call 0 (Leaving ''r'' (Inr (reply_of ''r''))) w)"
  let ?u = "unregister_call ''r'' (set_call 0 (Returned ''r'' (Inr (reply_of ''r''))) ?v)"
  have "tunnel_step w ?v" by (rule tunnel_step.received [OF w(2,3)])
  moreover have "tunnel_step ?v ?u" by (rule tunnel_step.leave) (simp add: conn_updates)
  ultimately have r: "tunnel_reach new_conn ?u" using w(1) by (meson tunnel_reach.further)
  have c: "tc_calls ?u 0 = Returned ''r'' (Inr (reply_of ''r''))" by (simp add: conn_updates)
  from reply_matches_call [OF r c] r c show ?thesis by blast
qed

text \<open>How many replies the agent sent under an id.\<close>

definition replies_to :: "string \<Rightarrow> tunnel_conn \<Rightarrow> nat" where
  "replies_to i w = count_where (\<lambda>m. tm_type m = ''command_result'' \<and> tm_request m = i) (tc_read w)"

text \<open>While an id has been answered at most once, its channel has room when the reader comes.\<close>

definition room_inv :: "tunnel_conn \<Rightarrow> bool" where
  "room_inv w \<longleftrightarrow> replies_inv w \<and>
     (\<forall>n m. tc_reader w = Pushing n m \<longrightarrow> replies_to (tm_request m) w \<le> 1 \<longrightarrow> tc_chans w n = None)"

lemma replies_to_pos: "reply_for w n m \<Longrightarrow> 0 < replies_to (tm_request m) w"
  by (auto simp: reply_for_def replies_to_def count_where_def filter_empty_conv)

lemma replies_to_same: "tc_read v = tc_read w \<Longrightarrow> replies_to i v = replies_to i w"
  by (simp add: replies_to_def)

lemma room_inv_step: "tunnel_step v u \<Longrightarrow> room_inv v \<Longrightarrow> room_inv u"
proof -
  assume st: "tunnel_step v u" and inv: "room_inv v"
  from inv have r: "replies_inv v" and ro: "\<And>n m. tc_reader v = Pushing n m \<Longrightarrow> replies_to (tm_request m) v \<le> 1 \<Longrightarrow> tc_chans v n = None"
    by (auto simp: room_inv_def)
  have "replies_inv u" by (rule replies_inv_step [OF st r])
  moreover have "tc_chans u n = None" if p: "tc_reader u = Pushing n m" and c: "replies_to (tm_request m) u \<le> 1" for n m
    using st
  proof cases
    case (read x)
    with p have x: "tm_type x = ''command_result''" "x = m" "map_of (tc_pending v) (tm_request m) = Some n"
      by (auto simp: after_read_def Let_def split: option.splits if_splits)
    then have "replies_to (tm_request m) v = 0"
      using c read by (simp add: replies_to_def count_where_def after_read_def Let_def)
    moreover have "call_id (tc_calls v n) = Some (tm_request m)" using r x(3) by (simp add: replies_inv_def)
    moreover have "0 < replies_to (tm_request a) v \<and> call_id (tc_calls v n) = Some (tm_request a)"
      if "tc_chans v n = Some a" for a
      using r that replies_to_pos [of v n a] by (simp add: replies_inv_def) (simp add: reply_for_def)
    ultimately have "tc_chans v n = None" by (cases "tc_chans v n") fastforce+
    with read x show ?thesis by (simp add: after_read_def Let_def)
  qed (use p c ro in \<open>auto simp: conn_updates replies_to_def\<close>)
  ultimately show ?thesis by (auto simp: room_inv_def)
qed

lemma room_inv_reach: "tunnel_reach new_conn w \<Longrightarrow> room_inv w"
proof (rule tunnel_invariant [where I = room_inv])
  show "room_inv new_conn" by (simp add: room_inv_def replies_inv_def new_conn_def)
qed (auto intro: room_inv_step)

text \<open>
  C20 reader_not_blocked.  The reader is not blocked on the reply it delivers, as long as the agent
  answers each request at most once: the reply goes into the channel, and the reader goes on, whether
  the call still waits or gave up.
\<close>

theorem reader_not_blocked:
  assumes "tunnel_reach new_conn w" and "tc_reader w = Pushing n m" and "replies_to (tm_request m) w \<le> 1"
  shows "\<exists>v. tunnel_step w v \<and> tc_reader v = Reading \<and> tc_chans v n = Some m"
proof -
  have "tc_chans w n = None" using room_inv_reach [OF assms(1)] assms(2,3) by (auto simp: room_inv_def)
  from tunnel_step.push [OF assms(2) this] show ?thesis
    by (intro exI conjI) (auto simp: set_chan_def)
qed

lemma reader_not_blocked_witness:
  "\<exists>w v. tunnel_reach new_conn w \<and> tc_reader w = Pushing 0 (reply_of ''r'') \<and> tunnel_step w v \<and> tc_reader v = Reading"
proof -
  let ?w1 = "register_call ''r'' 0 (set_call 0 (Writing ''r'') new_conn)"
  let ?w2 = "set_call 0 (Waiting ''r'') ?w1"
  let ?w3 = "after_read (reply_of ''r'') ?w2"
  note steps = new_conn_def conn_updates reply_of_def
  have "tunnel_step new_conn ?w1" by (rule tunnel_step.start) (simp add: steps)
  moreover have "tunnel_step ?w1 ?w2" by (rule tunnel_step.written) (simp add: steps)
  moreover have "tunnel_step ?w2 ?w3" by (rule tunnel_step.read) (simp add: steps)
  ultimately have r: "tunnel_reach new_conn ?w3" by (meson tunnel_reach.intros)
  have p: "tc_reader ?w3 = Pushing 0 (reply_of ''r'')" by (simp add: steps)
  have "replies_to (tm_request (reply_of ''r'')) ?w3 \<le> 1" by (simp add: replies_to_def count_where_def steps)
  from reader_not_blocked [OF r p this] r p show ?thesis by blast
qed

text \<open>
  Without that the reader can be stuck for good: a call that gave up still
  has its id for a moment, and an agent that answers it twice just then fills the channel nobody reads
  any more; nothing that can happen afterwards frees the reader.
\<close>

theorem duplicate_reply_blocks:
  "\<exists>w n m. tunnel_reach new_conn w \<and> {v. tunnel_reach w v} \<subseteq> {v. tc_reader v = Pushing n m}"
proof -
  from reach_pushing obtain w where w: "tunnel_reach new_conn w" "tc_calls w 0 = Waiting ''r''"
    "tc_chans w 0 = Some (reply_of ''r'')" "tc_reader w = Reading" "map_of (tc_pending w) ''r'' = Some 0" by blast
  let ?v = "set_call 0 (Leaving ''r'' (Inl timed_out)) w"
  let ?u = "after_read (reply_of ''r'') ?v"
  have "tunnel_step w ?v" by (rule tunnel_step.timeout [OF w(2)])
  moreover have "tunnel_step ?v ?u" by (rule tunnel_step.read) (simp add: set_call_def w(4))
  ultimately have reach: "tunnel_reach new_conn ?u" using w(1) by (meson tunnel_reach.further)
  let ?I = "\<lambda>x. tc_reader x = Pushing 0 (reply_of ''r'') \<and> tc_chans x 0 \<noteq> None
      \<and> (\<exists>r. tc_calls x 0 = Leaving ''r'' r \<or> tc_calls x 0 = Returned ''r'' r)"
  have start: "?I ?u" using w by (simp add: conn_updates reply_of_def)
  have "?I y" if "tunnel_step x y" "?I x" for x y
    using that by (cases rule: tunnel_step.cases) (auto simp: conn_updates intro!: gr0I)
  then have "?I x" if "tunnel_reach ?u x" for x
    using tunnel_invariant [of ?u x ?I] that start by blast
  with reach show ?thesis by blast
qed

end
