(* ===== verification/Tunnel_State.thy ===== *)
theory Tunnel_State
  imports Tunnel Agent_Channel "HOL-Library.Countable"
begin

text \<open>
  What a tunnel stores, \<^verbatim>\<open>src/tunnel.go\<close>: the state an agent pushes, written to the database table by
  table, the cache of what was last written, the retry on a busy database, and the handler of the
  tunnel.  \<open>state_digest\<close> is the hash of the JSON of a table's rows.  The wait between two attempts is
  not modelled.
\<close>

section \<open>Writing\<close>

definition is_busy :: "gerr \<Rightarrow> bool" where
  "is_busy e \<longleftrightarrow> contains_str (error_text e) ''SQLITE_BUSY'' \<or> contains_str (error_text e) ''database is locked''"

text \<open>The attempts left, and the error of the last one.\<close>

fun retry_loop :: "nat \<Rightarrow> gerr option \<Rightarrow> (db, unit) prog \<Rightarrow> (db, unit) prog" where
  "retry_loop 0 err m = (case err of None \<Rightarrow> okP () | Some e \<Rightarrow> failP e)"
| "retry_loop (Suc n) err m = tryP m (\<lambda>e. if \<not> is_busy e then failP e else retry_loop n (Some e) m) okP"

definition retry_on_busy :: "(db, unit) prog \<Rightarrow> (db, unit) prog" where
  "retry_on_busy m = retry_loop 4 None m"

record state_digest =
  sg_containers :: "host_container list \<Rightarrow> string"
  sg_images :: "host_image list \<Rightarrow> string"
  sg_volumes :: "host_volume list \<Rightarrow> string"
  sg_networks :: "host_network list \<Rightarrow> string"

record push_state =
  pu_db :: db
  pu_cache :: "(string \<times> string) list"

abbreviation with_pdb :: "(db, 'a) prog \<Rightarrow> (push_state, 'a) prog" where
  "with_pdb \<equiv> zoomP pu_db (\<lambda>d s. s\<lparr>pu_db := d\<rparr>)"

definition host_containers :: "string \<Rightarrow> tunnel_message \<Rightarrow> host_container list" where
  "host_containers host msg = map (\<lambda>c.
     \<lparr>hc_host = host, hc_id = cp_id c, hc_name = cp_name c, hc_image = cp_image c, hc_state = cp_state c,
      hc_status = cp_status c, hc_ports = cp_ports c, hc_created = cp_created c, hc_stack = cp_stack c,
      hc_service = cp_service c, hc_mounts = join_with '','' (cp_mounts c),
      hc_networks = join_with '','' (cp_networks c), hc_image_id = cp_image_id c, hc_host_name = ''''\<rparr>) (tm_containers msg)"

definition host_images :: "string \<Rightarrow> tunnel_message \<Rightarrow> host_image list" where
  "host_images host msg = map (\<lambda>i.
     \<lparr>hi_host = host, hi_id = ip_id i, hi_repository = ip_repository i, hi_tag = ip_tag i,
      hi_size = ip_size i, hi_digest = ip_digest i, hi_host_name = ''''\<rparr>) (tm_images msg)"

definition host_volumes :: "string \<Rightarrow> tunnel_message \<Rightarrow> host_volume list" where
  "host_volumes host msg = map (\<lambda>v.
     \<lparr>hv_host = host, hv_name = vp_name v, hv_driver = vp_driver v, hv_labels = vp_labels v,
      hv_host_name = ''''\<rparr>) (tm_volumes msg)"

definition host_networks :: "string \<Rightarrow> tunnel_message \<Rightarrow> host_network list" where
  "host_networks host msg = map (\<lambda>n.
     \<lparr>hn_host = host, hn_name = np_name n, hn_driver = np_driver n, hn_scope = np_scope n,
      hn_host_name = ''''\<rparr>) (tm_networks msg)"

definition replace_table :: "string \<Rightarrow> string \<Rightarrow> (db, unit) prog \<Rightarrow> (push_state, unit) prog" where
  "replace_table table hash write =
     bindP (getP pu_cache) (\<lambda>cache.
       if get_str cache table = hash then okP ()
       else tryP (with_pdb (retry_on_busy write))
         (\<lambda>_. modP (\<lambda>s. s\<lparr>pu_cache := del_assoc table (pu_cache s)\<rparr>))
         (\<lambda>_. modP (\<lambda>s. s\<lparr>pu_cache := put_assoc table hash (pu_cache s)\<rparr>)))"

text \<open>A write of a host's facts, skipped for an empty value; whether it did not fail.\<close>

definition store_fact :: "string \<Rightarrow> (db, unit) prog \<Rightarrow> (push_state, bool) prog" where
  "store_fact value write =
     (if value \<noteq> '''' then tryP (with_pdb (retry_on_busy write)) (\<lambda>_. okP False) (\<lambda>_. okP True) else okP True)"

definition store_facts :: "string \<Rightarrow> tunnel_message \<Rightarrow> (push_state, unit) prog" where
  "store_facts host msg =
     (let facts = tm_version msg @ ''|'' @ tm_arch msg in
      bindP (getP pu_cache) (\<lambda>cache.
        if get_str cache ''facts'' = facts then okP ()
        else
          bindP (store_fact (tm_version msg) (set_host_agent_version host (tm_version msg))) (\<lambda>a.
          bindP (store_fact (tm_arch msg) (set_host_arch host (tm_arch msg))) (\<lambda>b.
            if a \<and> b then modP (\<lambda>s. s\<lparr>pu_cache := put_assoc ''facts'' facts (pu_cache s)\<rparr>) else okP ()))))"

definition apply_state :: "state_digest \<Rightarrow> string \<Rightarrow> tunnel_message \<Rightarrow> (push_state, unit) prog" where
  "apply_state dg host msg =
     (let cs = host_containers host msg; is = host_images host msg;
          vs = host_volumes host msg; ns = host_networks host msg in
      bindP (replace_table ''containers'' (sg_containers dg cs) (replace_host_containers host cs)) (\<lambda>_.
      bindP (replace_table ''images'' (sg_images dg is) (replace_host_images host is)) (\<lambda>_.
      bindP (replace_table ''volumes'' (sg_volumes dg vs) (replace_host_volumes host vs)) (\<lambda>_.
      bindP (replace_table ''networks'' (sg_networks dg ns) (replace_host_networks host ns)) (\<lambda>_.
      store_facts host msg)))))"

section \<open>The handler\<close>

text \<open>
  Who may open a tunnel, and the loop over what is read: a state is stored, a reply goes to the calls
  (\<open>after_read\<close>), anything else is logged.  \<open>accept\<close> is the upgrade to a WebSocket; the loop ends with
  the first read that fails, here the end of the list.
\<close>

definition open_tunnel :: "(string \<Rightarrow> string) \<Rightarrow> agent_request \<Rightarrow> (agent_state, agent_answer + host) prog" where
  "open_tunnel fpr rq =
     (case caller_fingerprint fpr rq of
        Inl e \<Rightarrow> bindP (ag_fail 400 e) (\<lambda>a. okP (Inl a))
      | Inr fp \<Rightarrow> tryP (with_db (get_host_by_fp fp)) (\<lambda>_. bindP (ag_error 403 ''unknown caller'') (\<lambda>a. okP (Inl a)))
          (\<lambda>h. okP (Inr h)))"

fun push_all :: "state_digest \<Rightarrow> string \<Rightarrow> tunnel_message list \<Rightarrow> (push_state, unit) prog" where
  "push_all dg host [] = okP ()"
| "push_all dg host (m # ms) =
     bindP (if tm_type m = ''state'' then apply_state dg host m else okP ()) (\<lambda>_. push_all dg host ms)"

definition tunnel_loop :: "state_digest \<Rightarrow> string \<Rightarrow> tunnel_message list \<Rightarrow> db \<Rightarrow> push_state" where
  "tunnel_loop dg host msgs d = snd (push_all dg host msgs \<lparr>pu_db = d, pu_cache = []\<rparr>)"

section \<open>What the database shows of a host\<close>

definition shown_containers :: "string \<Rightarrow> db \<Rightarrow> host_container list" where
  "shown_containers host d = filter (\<lambda>r. hc_host r = host) (d_containers d)"

definition shown_images :: "string \<Rightarrow> db \<Rightarrow> host_image list" where
  "shown_images host d = filter (\<lambda>r. hi_host r = host) (d_images d)"

text \<open>Labels are a map: their order does not matter.\<close>

definition volume_view :: "host_volume \<Rightarrow> string \<times> string \<times> (string \<Rightarrow> string option)" where
  "volume_view v = (hv_name v, hv_driver v, map_of (hv_labels v))"

definition shown_volumes :: "string \<Rightarrow> db \<Rightarrow> (string \<times> string \<times> (string \<Rightarrow> string option)) list" where
  "shown_volumes host d = map volume_view (filter (\<lambda>r. hv_host r = host) (d_volumes d))"

definition shown_networks :: "string \<Rightarrow> db \<Rightarrow> host_network list" where
  "shown_networks host d = filter (\<lambda>r. hn_host r = host) (d_networks d)"

text \<open>A program that stores \<open>y\<close> where \<open>vw\<close> looks, or changes nothing there; one that never does.\<close>

definition stores :: "(db \<Rightarrow> 'v) \<Rightarrow> 'v \<Rightarrow> (db, unit) prog \<Rightarrow> bool" where
  "stores vw y m \<longleftrightarrow> (\<forall>d. vw (snd (m d)) = (if is_ok (fst (m d)) then y else vw d))"

definition leaves :: "(db \<Rightarrow> 'v) \<Rightarrow> (db, unit) prog \<Rightarrow> bool" where
  "leaves vw m \<longleftrightarrow> (\<forall>d. vw (snd (m d)) = vw d)"

lemma stores_run: "stores vw y m \<Longrightarrow> m d = (r, d1) \<Longrightarrow> vw d1 = (if is_ok r then y else vw d)"
  unfolding stores_def by (metis fst_conv snd_conv)

lemma stores_loop: "stores vw y m \<Longrightarrow> stores vw y (retry_loop (Suc n) err m)"
proof (induction n arbitrary: err)
  case 0
  have "vw (snd (retry_loop (Suc 0) err m d)) = (if is_ok (fst (retry_loop (Suc 0) err m d)) then y else vw d)" for d
  proof (cases "m d")
    case (Pair r d1)
    with stores_run [OF 0 Pair] show ?thesis by (cases r) (auto simp: tryP_def)
  qed
  then show ?case by (simp add: stores_def)
next
  case (Suc n)
  have "vw (snd (retry_loop (Suc (Suc n)) err m d)) =
      (if is_ok (fst (retry_loop (Suc (Suc n)) err m d)) then y else vw d)" for d
  proof (cases "m d")
    case (Pair r d1)
    with stores_run [OF Suc.prems Pair] show ?thesis using Suc.IH [OF Suc.prems, of "Some (projl r)"]
      by (cases r) (auto simp: tryP_def stores_def)
  qed
  then show ?case by (simp add: stores_def)
qed

lemma leaves_loop: "leaves vw m \<Longrightarrow> leaves vw (retry_loop n err m)"
proof (induction n arbitrary: err)
  case (Suc n)
  have "vw (snd (retry_loop (Suc n) err m d)) = vw d" for d
  proof (cases "m d")
    case (Pair r d1)
    have "vw d1 = vw d" using Suc.prems Pair by (metis leaves_def snd_conv)
    then show ?thesis using Pair Suc.IH [OF Suc.prems, of "Some (projl r)"]
      by (cases r) (auto simp: tryP_def leaves_def)
  qed
  then show ?case by (simp add: leaves_def)
qed (auto simp: leaves_def split: option.splits)

lemma stores_retry: "stores vw y m \<Longrightarrow> stores vw y (retry_on_busy m)"
  unfolding retry_on_busy_def using stores_loop [of vw y m 3] by (simp add: numeral_eq_Suc)

lemma leaves_retry: "leaves vw m \<Longrightarrow> leaves vw (retry_on_busy m)"
  unfolding retry_on_busy_def by (rule leaves_loop)

text \<open>The cache entry of a table is truthful, or the table is exactly \<open>y\<close>, unless it is forgotten.\<close>

definition table_ok :: "string \<Rightarrow> ('x \<Rightarrow> string) \<Rightarrow> ('x \<Rightarrow> 'v) \<Rightarrow> (db \<Rightarrow> 'v) \<Rightarrow> push_state \<Rightarrow> bool" where
  "table_ok t dg st vw s \<longleftrightarrow> get_str (pu_cache s) t = ''''
     \<or> (\<exists>x. get_str (pu_cache s) t = dg x \<and> vw (pu_db s) = st x)"

definition table_exact :: "string \<Rightarrow> (db \<Rightarrow> 'v) \<Rightarrow> 'v \<Rightarrow> push_state \<Rightarrow> bool" where
  "table_exact t vw y s \<longleftrightarrow> get_str (pu_cache s) t = '''' \<or> vw (pu_db s) = y"

lemma get_str_cache [simp]:
  "get_str (put_assoc k v m) x = (if x = k then v else get_str m x)"
  "get_str (del_assoc k m) x = (if x = k then '''' else get_str m x)"
  by (simp_all add: get_str_def)

lemma replace_table_run:
  "replace_table t h w s = (Inr (), snd (replace_table t h w s))"
  "snd (replace_table t h w s) = (if get_str (pu_cache s) t = h then s else
     (let r = retry_on_busy w (pu_db s) in
      s\<lparr>pu_db := snd r, pu_cache := (if is_ok (fst r) then put_assoc t h (pu_cache s) else del_assoc t (pu_cache s))\<rparr>))"
  by (auto simp: replace_table_def bindP_def tryP_def zoomP_def Let_def split: prod.splits sum.splits)

lemma replace_own:
  assumes "stores vw (st x) w" and "\<And>a. dg a = dg x \<Longrightarrow> st a = st x" and "table_ok t dg st vw s"
  shows "table_ok t dg st vw (snd (replace_table t (dg x) w s))"
    and "table_exact t vw (st x) (snd (replace_table t (dg x) w s))"
proof -
  have w: "vw (snd (retry_on_busy w (pu_db s))) = (if is_ok (fst (retry_on_busy w (pu_db s))) then st x else vw (pu_db s))"
    using stores_retry [OF assms(1)] by (simp add: stores_def)
  show "table_ok t dg st vw (snd (replace_table t (dg x) w s))"
    using assms(3) w by (auto simp: replace_table_run(2) table_ok_def Let_def)
  have "get_str (pu_cache s) t = '''' \<or> vw (pu_db s) = st x" if "get_str (pu_cache s) t = dg x"
    using assms(3) assms(2) that unfolding table_ok_def by metis
  then show "table_exact t vw (st x) (snd (replace_table t (dg x) w s))"
    using w by (auto simp: replace_table_run(2) table_exact_def Let_def)
qed

lemma replace_other:
  assumes "leaves vw w" and "k \<noteq> t"
  shows "table_ok k dg st vw s \<Longrightarrow> table_ok k dg st vw (snd (replace_table t h w s))"
    and "table_exact k vw y s \<Longrightarrow> table_exact k vw y (snd (replace_table t h w s))"
  using leaves_retry [OF assms(1)] assms(2)
  by (auto simp: replace_table_run(2) table_ok_def table_exact_def leaves_def Let_def)

section \<open>The writes of a push\<close>

lemma stores_replace:
  assumes "host_table rows up" and "\<And>d fs. vw (d\<lparr>d_faults := fs\<rparr>) = vw d"
    and "\<And>d d'. same_tables d d' \<Longrightarrow> vw d' = vw d"
    and "\<And>d. vw (up (\<lambda>rs. filter (\<lambda>r. \<not> mine r) rs @ new) d) = y"
  shows "stores vw y (replace_rows pre rows up mine label uniques new)"
  unfolding stores_def
proof
  fix d
  let ?m = "replace_rows pre rows up mine label uniques new"
  obtain r d' where m: "?m d = (r, d')" by (cases "?m d")
  show "vw (snd (?m d)) = (if is_ok (fst (?m d)) then y else vw d)"
  proof (cases r)
    case (Inl e)
    with m host_table.not_replaced [OF assms(1), of pre mine label uniques new d e d'] assms(3) show ?thesis by simp
  next
    case (Inr u)
    with m host_table.replaced [OF assms(1), of pre mine label uniques new d u d'] assms(2,4) show ?thesis by auto
  qed
qed

lemma leaves_replace:
  assumes "host_table rows up" and "\<And>d d'. same_tables d d' \<Longrightarrow> vw d' = vw d"
    and "\<And>f d. vw (up f d) = vw d" and "\<And>d fs. vw (d\<lparr>d_faults := fs\<rparr>) = vw d"
  shows "leaves vw (replace_rows pre rows up mine label uniques new)"
  unfolding leaves_def
proof
  fix d
  let ?m = "replace_rows pre rows up mine label uniques new"
  obtain r d' where m: "?m d = (r, d')" by (cases "?m d")
  show "vw (snd (?m d)) = vw d"
  proof (cases r)
    case (Inl e)
    with m host_table.not_replaced [OF assms(1), of pre mine label uniques new d e d'] assms(2) show ?thesis by simp
  next
    case (Inr u)
    with m host_table.replaced [OF assms(1), of pre mine label uniques new d u d'] assms(3,4) show ?thesis by auto
  qed
qed

text \<open>What is looked at depends on the tables of snapshots only.\<close>

lemmas shown_defs = shown_containers_def shown_images_def shown_volumes_def shown_networks_def

lemma shown_same:
  assumes "same_tables d d'"
  shows "shown_containers host d' = shown_containers host d" "shown_images host d' = shown_images host d"
    "shown_volumes host d' = shown_volumes host d" "shown_networks host d' = shown_networks host d"
proof -
  obtain fs n where "d' = d\<lparr>d_faults := fs, d_drawn := n\<rparr>" using assms unfolding same_tables_def by blast
  then show "shown_containers host d' = shown_containers host d" "shown_images host d' = shown_images host d"
    "shown_volumes host d' = shown_volumes host d" "shown_networks host d' = shown_networks host d"
    by (simp_all add: shown_defs)
qed

lemmas host_tables = tcont.host_table_axioms timg.host_table_axioms tvol.host_table_axioms tnet.host_table_axioms

lemma filter_mine: "(\<And>r. r \<in> set new \<Longrightarrow> P r) \<Longrightarrow> filter P (filter (\<lambda>r. \<not> P r) rs @ new) = new"
  by (simp add: filter_empty_conv)

definition stored_images :: "string \<Rightarrow> host_image list \<Rightarrow> host_image list" where
  "stored_images host rs = map (\<lambda>r. r\<lparr>hi_host := host, hi_host_name := ''''\<rparr>) (dedupe_host_images rs)"

lemma stores_tables:
  "stores (shown_containers host) (map (\<lambda>c. c\<lparr>hc_host := host, hc_host_name := ''''\<rparr>) cs) (replace_host_containers host cs)"
  "stores (shown_images host) (stored_images host is) (replace_host_images host is)"
  "stores (shown_volumes host) (map volume_view vs) (replace_host_volumes host vs)"
  "stores (shown_networks host) (map (\<lambda>n. n\<lparr>hn_host := host, hn_host_name := ''''\<rparr>) ns) (replace_host_networks host ns)"
  unfolding replace_host_containers_def replace_host_images_def replace_host_volumes_def replace_host_networks_def
  by (rule stores_replace [OF host_tables(1)] stores_replace [OF host_tables(2)] stores_replace [OF host_tables(3)]
        stores_replace [OF host_tables(4)];
      ((rule shown_same, assumption) | (auto simp: shown_defs filter_mine stored_images_def volume_view_def comp_def)))+

lemma leaves_tables:
  "leaves (shown_images host) (replace_host_containers host cs)" "leaves (shown_volumes host) (replace_host_containers host cs)"
  "leaves (shown_networks host) (replace_host_containers host cs)"
  "leaves (shown_containers host) (replace_host_images host is)" "leaves (shown_volumes host) (replace_host_images host is)"
  "leaves (shown_networks host) (replace_host_images host is)"
  "leaves (shown_containers host) (replace_host_volumes host vs)" "leaves (shown_images host) (replace_host_volumes host vs)"
  "leaves (shown_networks host) (replace_host_volumes host vs)"
  "leaves (shown_containers host) (replace_host_networks host ns)" "leaves (shown_images host) (replace_host_networks host ns)"
  "leaves (shown_volumes host) (replace_host_networks host ns)"
  unfolding replace_host_containers_def replace_host_images_def replace_host_volumes_def replace_host_networks_def
  by (rule leaves_replace [OF host_tables(1)] leaves_replace [OF host_tables(2)] leaves_replace [OF host_tables(3)]
        leaves_replace [OF host_tables(4)];
      ((rule shown_same, assumption) | simp add: shown_defs))+

lemma leaves_host_update:
  assumes "\<And>d fs. vw (d\<lparr>d_faults := fs\<rparr>) = vw d" and "\<And>d n. vw (d\<lparr>d_drawn := n\<rparr>) = vw d"
    and "\<And>d hs. vw (d\<lparr>d_hosts := hs\<rparr>) = vw d"
  shows "leaves vw (set_host_agent_version host v)" "leaves vw (set_host_arch host v)"
proof -
  have k: "keeps (\<lambda>d. vw d = c) (exec (update_hosts P f))" for c P f
    by (rule keeps_exec) (auto simp: table_inv_def assms update_hosts_def)
  have "keeps (\<lambda>d. vw d = c) (set_host_agent_version host v)" for c
    unfolding set_host_agent_version_def by (intro keeps_intros k)
  moreover have "keeps (\<lambda>d. vw d = c) (set_host_arch host v)" for c
    unfolding set_host_arch_def by (intro keeps_intros k)
  ultimately show "leaves vw (set_host_agent_version host v)" "leaves vw (set_host_arch host v)"
    by (auto simp: leaves_def keeps_def)
qed

lemma store_fact_run:
  assumes "leaves vw w"
  shows "\<exists>b s'. store_fact v w s = (Inr b, s') \<and> pu_cache s' = pu_cache s \<and> vw (pu_db s') = vw (pu_db s)"
  using leaves_retry [OF assms]
  by (cases "retry_on_busy w (pu_db s)"; cases "fst (retry_on_busy w (pu_db s))")
     (auto simp: store_fact_def tryP_def zoomP_def leaves_def split: prod.splits sum.splits dest: spec [of _ "pu_db s"])

lemma store_facts_run:
  assumes "leaves vw (set_host_agent_version host (tm_version msg))" and "leaves vw (set_host_arch host (tm_arch msg))"
    and "k \<noteq> ''facts''"
  shows "fst (store_facts host msg s) = Inr () \<and> get_str (pu_cache (snd (store_facts host msg s))) k = get_str (pu_cache s) k
    \<and> vw (pu_db (snd (store_facts host msg s))) = vw (pu_db s)"
proof -
  obtain a s1 where 1: "store_fact (tm_version msg) (set_host_agent_version host (tm_version msg)) s = (Inr a, s1)"
    "pu_cache s1 = pu_cache s" "vw (pu_db s1) = vw (pu_db s)" using store_fact_run [OF assms(1)] by blast
  obtain b s2 where 2: "store_fact (tm_arch msg) (set_host_arch host (tm_arch msg)) s1 = (Inr b, s2)"
    "pu_cache s2 = pu_cache s1" "vw (pu_db s2) = vw (pu_db s1)" using store_fact_run [OF assms(2)] by blast
  show ?thesis
    using 1 2 assms(3) by (simp add: store_facts_def Let_def bindP_def tryP_def)
qed

text \<open>A hash that tells different rows apart; the order of labels does not count.\<close>

definition faithful_digest :: "state_digest \<Rightarrow> bool" where
  "faithful_digest dg \<longleftrightarrow> inj (sg_containers dg) \<and> inj (sg_images dg) \<and> inj (sg_networks dg)
     \<and> (\<forall>vs ws. sg_volumes dg vs = sg_volumes dg ws \<longrightarrow> map volume_view vs = map volume_view ws)"

text \<open>The four tables and what a push is to leave in them.\<close>

definition cache_ok :: "state_digest \<Rightarrow> string \<Rightarrow> push_state \<Rightarrow> bool" where
  "cache_ok dg host s \<longleftrightarrow>
     table_ok ''containers'' (sg_containers dg) (map (\<lambda>c. c\<lparr>hc_host := host, hc_host_name := ''''\<rparr>)) (shown_containers host) s
   \<and> table_ok ''images'' (sg_images dg) (stored_images host) (shown_images host) s
   \<and> table_ok ''volumes'' (sg_volumes dg) (map volume_view) (shown_volumes host) s
   \<and> table_ok ''networks'' (sg_networks dg) (map (\<lambda>n. n\<lparr>hn_host := host, hn_host_name := ''''\<rparr>)) (shown_networks host) s"

definition push_shown :: "string \<Rightarrow> tunnel_message \<Rightarrow> push_state \<Rightarrow> bool" where
  "push_shown host msg s \<longleftrightarrow>
     table_exact ''containers'' (shown_containers host) (host_containers host msg) s
   \<and> table_exact ''images'' (shown_images host) (stored_images host (host_images host msg)) s
   \<and> table_exact ''volumes'' (shown_volumes host) (map volume_view (host_volumes host msg)) s
   \<and> table_exact ''networks'' (shown_networks host) (host_networks host msg) s"

lemma rows_of_host:
  "map (\<lambda>c. c\<lparr>hc_host := host, hc_host_name := ''''\<rparr>) (host_containers host msg) = host_containers host msg"
  "map (\<lambda>n. n\<lparr>hn_host := host, hn_host_name := ''''\<rparr>) (host_networks host msg) = host_networks host msg"
  by (simp_all add: host_containers_def host_networks_def)

lemma bind_replace: "bindP (replace_table t h w) f s = f () (snd (replace_table t h w s))"
  unfolding bindP_def tryP_def by (subst replace_table_run(1)) simp

lemma apply_state_run:
  "snd (apply_state dg host msg s) = snd (store_facts host msg
     (snd (replace_table ''networks'' (sg_networks dg (host_networks host msg)) (replace_host_networks host (host_networks host msg))
     (snd (replace_table ''volumes'' (sg_volumes dg (host_volumes host msg)) (replace_host_volumes host (host_volumes host msg))
     (snd (replace_table ''images'' (sg_images dg (host_images host msg)) (replace_host_images host (host_images host msg))
     (snd (replace_table ''containers'' (sg_containers dg (host_containers host msg)) (replace_host_containers host (host_containers host msg)) s)))))))))"
  by (simp only: apply_state_def Let_def bind_replace)

lemma apply_state_exact:
  assumes dg: "faithful_digest dg" and ok: "cache_ok dg host s"
  shows "cache_ok dg host (snd (apply_state dg host msg s)) \<and> push_shown host msg (snd (apply_state dg host msg s))"
proof -
  have lv: "leaves (shown_containers host) w \<and> leaves (shown_images host) w \<and> leaves (shown_volumes host) w \<and> leaves (shown_networks host) w"
    if "w = set_host_agent_version host v \<or> w = set_host_arch host v" for w v
    using that by (elim disjE; hypsubst; intro conjI leaves_host_update; simp add: shown_defs)
  have facts: "table_ok k d st vw (snd (store_facts host msg s))" if "table_ok k d st vw s" "k \<noteq> ''facts''"
    "leaves vw (set_host_agent_version host (tm_version msg))" "leaves vw (set_host_arch host (tm_arch msg))"
    for k and d :: "'x \<Rightarrow> string" and st :: "'x \<Rightarrow> 'v" and vw s
    using that store_facts_run [OF that(3,4,2)] by (simp add: table_ok_def)
  have factx: "table_exact k vw y (snd (store_facts host msg s))" if "table_exact k vw y s" "k \<noteq> ''facts''"
    "leaves vw (set_host_agent_version host (tm_version msg))" "leaves vw (set_host_arch host (tm_arch msg))"
    for k and vw :: "db \<Rightarrow> 'v" and y s
    using that store_facts_run [OF that(3,4,2)] by (simp add: table_exact_def)
  note inj = dg [unfolded faithful_digest_def inj_def]
  have vol: "\<And>a b. sg_volumes dg a = sg_volumes dg b \<Longrightarrow> map volume_view a = map volume_view b" using inj by blast
  note other = replace_other [OF leaves_tables(1)] replace_other [OF leaves_tables(2)] replace_other [OF leaves_tables(3)]
    replace_other [OF leaves_tables(4)] replace_other [OF leaves_tables(5)] replace_other [OF leaves_tables(6)]
    replace_other [OF leaves_tables(7)] replace_other [OF leaves_tables(8)] replace_other [OF leaves_tables(9)]
    replace_other [OF leaves_tables(10)] replace_other [OF leaves_tables(11)] replace_other [OF leaves_tables(12)]
  let ?cs = "host_containers host msg" and ?is = "host_images host msg"
    and ?vs = "host_volumes host msg" and ?ns = "host_networks host msg"
  define s1 where "s1 = snd (replace_table ''containers'' (sg_containers dg ?cs) (replace_host_containers host ?cs) s)"
  define s2 where "s2 = snd (replace_table ''images'' (sg_images dg ?is) (replace_host_images host ?is) s1)"
  define s3 where "s3 = snd (replace_table ''volumes'' (sg_volumes dg ?vs) (replace_host_volumes host ?vs) s2)"
  define s4 where "s4 = snd (replace_table ''networks'' (sg_networks dg ?ns) (replace_host_networks host ?ns) s3)"
  have e1: "table_ok ''containers'' (sg_containers dg) (map (\<lambda>c. c\<lparr>hc_host := host, hc_host_name := ''''\<rparr>)) (shown_containers host) s1"
    "table_exact ''containers'' (shown_containers host) (map (\<lambda>c. c\<lparr>hc_host := host, hc_host_name := ''''\<rparr>) ?cs) s1"
    unfolding s1_def by (rule replace_own [where st = "map (\<lambda>c. c\<lparr>hc_host := host, hc_host_name := ''''\<rparr>)" and dg = "sg_containers dg" and x = ?cs, OF stores_tables(1)]; use ok inj in \<open>simp add: cache_ok_def\<close>; metis)+
  have k1: "cache_ok dg host s1"
    using ok e1(1) unfolding cache_ok_def s1_def by (simp add: other)
  have e2: "table_ok ''images'' (sg_images dg) (stored_images host) (shown_images host) s2"
    "table_exact ''images'' (shown_images host) (stored_images host ?is) s2"
    unfolding s2_def by (rule replace_own [where st = "stored_images host" and dg = "sg_images dg" and x = ?is, OF stores_tables(2)]; use k1 inj in \<open>simp add: cache_ok_def\<close>; metis)+
  have k2: "cache_ok dg host s2" "table_exact ''containers'' (shown_containers host) ?cs s2"
    using k1 e1(2) e2(1) unfolding cache_ok_def s2_def by (simp_all add: other rows_of_host)
  have e3: "table_ok ''volumes'' (sg_volumes dg) (map volume_view) (shown_volumes host) s3"
    "table_exact ''volumes'' (shown_volumes host) (map volume_view ?vs) s3"
    unfolding s3_def
    by (rule replace_own [where st = "map volume_view" and dg = "sg_volumes dg" and x = ?vs, OF stores_tables(3) vol];
        use k2(1) in \<open>simp add: cache_ok_def\<close>)+
  have k3: "cache_ok dg host s3" "table_exact ''containers'' (shown_containers host) ?cs s3"
    "table_exact ''images'' (shown_images host) (stored_images host ?is) s3"
    using k2 e2(2) e3(1) unfolding cache_ok_def s3_def by (simp_all add: other)
  have e4: "table_ok ''networks'' (sg_networks dg) (map (\<lambda>n. n\<lparr>hn_host := host, hn_host_name := ''''\<rparr>)) (shown_networks host) s4"
    "table_exact ''networks'' (shown_networks host) (map (\<lambda>n. n\<lparr>hn_host := host, hn_host_name := ''''\<rparr>) ?ns) s4"
    unfolding s4_def by (rule replace_own [where st = "map (\<lambda>n. n\<lparr>hn_host := host, hn_host_name := ''''\<rparr>)" and dg = "sg_networks dg" and x = ?ns, OF stores_tables(4)]; use k3 inj in \<open>simp add: cache_ok_def\<close>; metis)+
  have k4: "cache_ok dg host s4" "push_shown host msg s4"
    using k3 e3(2) e4 unfolding cache_ok_def push_shown_def s4_def by (simp_all add: other rows_of_host)
  have "snd (apply_state dg host msg s) = snd (store_facts host msg s4)"
    unfolding apply_state_run s4_def s3_def s2_def s1_def ..
  moreover have "leaves (shown_containers host) w" "leaves (shown_images host) w" "leaves (shown_volumes host) w"
    "leaves (shown_networks host) w"
    if "w = set_host_agent_version host (tm_version msg) \<or> w = set_host_arch host (tm_arch msg)" for w
    using lv that by blast+
  ultimately show ?thesis using k4 unfolding cache_ok_def push_shown_def by (simp add: facts factx)
qed

lemma cache_ok_fresh: "cache_ok dg host \<lparr>pu_db = d, pu_cache = []\<rparr>"
  by (simp add: cache_ok_def table_ok_def get_str_def)

lemma apply_state_Inr: "fst (apply_state dg host msg s) = Inr ()"
proof -
  have "fst (store_facts host msg s) = Inr ()" for s
    using store_facts_run [of "\<lambda>_. ()" host msg "''images''" s] by (simp add: leaves_def)
  then show ?thesis by (simp only: apply_state_def Let_def bind_replace)
qed

lemma push_all_append: "snd (push_all dg host (ms @ ns) s) = snd (push_all dg host ns (snd (push_all dg host ms s)))"
proof (induction ms arbitrary: s)
  case (Cons m ms)
  then show ?case using apply_state_Inr [of dg host m s]
    by (cases "apply_state dg host m s") (auto simp: bindP_def tryP_def)
qed simp

lemma push_one: "tm_type m = ''state'' \<Longrightarrow> snd (push_all dg host [m] s) = snd (apply_state dg host m s)"
  by (cases "apply_state dg host m s") (auto simp: bindP_def tryP_def split: sum.split)

lemma cache_ok_pushes: "faithful_digest dg \<Longrightarrow> cache_ok dg host s \<Longrightarrow> cache_ok dg host (snd (push_all dg host ms s))"
proof (induction ms arbitrary: s)
  case (Cons m ms)
  then show ?case using apply_state_Inr [of dg host m s] apply_state_exact [of dg host s m]
    by (cases "apply_state dg host m s") (auto simp: bindP_def tryP_def)
qed simp

text \<open>
  C21 pushed_state_shown.  After any sequence of messages on a tunnel, whatever the database refused
  on the way, every table shows exactly what the last state push reported of the host, except a table
  whose write failed: that one is no longer in the cache, so that the next push writes it again.
\<close>

theorem pushed_state_shown:
  assumes "faithful_digest dg" and "tm_type m = ''state''"
  shows "push_shown host m (tunnel_loop dg host (ms @ [m]) d)"
proof -
  have "cache_ok dg host (snd (push_all dg host ms \<lparr>pu_db = d, pu_cache = []\<rparr>))"
    by (rule cache_ok_pushes [OF assms(1) cache_ok_fresh])
  from apply_state_exact [OF assms(1) this, of m] show ?thesis
    unfolding tunnel_loop_def push_all_append push_one [OF assms(2)] by blast
qed

text \<open>A hash that tells all rows apart: the number of the fields, in unary.\<close>

definition unary :: "'x::countable \<Rightarrow> string" where
  "unary x = replicate (Suc (to_nat x)) CHR ''1''"

lemma unary_inj: "unary x = unary y \<longleftrightarrow> x = y"
  by (metis unary_def length_replicate Suc_inject to_nat_split)

lemma unary_map_inj: "inj (map f) \<Longrightarrow> inj (\<lambda>rs. unary (map f rs))"
  unfolding inj_def unary_inj .

definition unary_digest :: state_digest where
  "unary_digest = \<lparr>
     sg_containers = (\<lambda>rs. unary (map (\<lambda>r. [hc_host r, hc_id r, hc_name r, hc_image r, hc_state r, hc_status r, hc_ports r,
       hc_created r, hc_stack r, hc_service r, hc_mounts r, hc_networks r, hc_image_id r, hc_host_name r]) rs)),
     sg_images = (\<lambda>rs. unary (map (\<lambda>r. [hi_host r, hi_id r, hi_repository r, hi_tag r, hi_size r, hi_digest r, hi_host_name r]) rs)),
     sg_volumes = (\<lambda>rs. unary (map (\<lambda>r. (hv_name r, hv_driver r, hv_labels r)) rs)),
     sg_networks = (\<lambda>rs. unary (map (\<lambda>r. [hn_host r, hn_name r, hn_driver r, hn_scope r, hn_host_name r]) rs))\<rparr>"

lemma map_volume_view: "map volume_view vs = map (\<lambda>(n, d, l). (n, d, map_of l)) (map (\<lambda>r. (hv_name r, hv_driver r, hv_labels r)) vs)"
  by (simp add: volume_view_def)

lemma unary_digest_faithful: "faithful_digest unary_digest"
proof -
  have "inj (map (\<lambda>r::host_container. [hc_host r, hc_id r, hc_name r, hc_image r, hc_state r, hc_status r, hc_ports r,
       hc_created r, hc_stack r, hc_service r, hc_mounts r, hc_networks r, hc_image_id r, hc_host_name r]))"
    by (rule inj_mapI) (auto simp: inj_def)
  moreover have "inj (map (\<lambda>r::host_image. [hi_host r, hi_id r, hi_repository r, hi_tag r, hi_size r, hi_digest r, hi_host_name r]))"
    by (rule inj_mapI) (auto simp: inj_def)
  moreover have "inj (map (\<lambda>r::host_network. [hn_host r, hn_name r, hn_driver r, hn_scope r, hn_host_name r]))"
    by (rule inj_mapI) (auto simp: inj_def)
  moreover have "map volume_view vs = map volume_view ws"
    if "map (\<lambda>r. (hv_name r, hv_driver r, hv_labels r)) vs = map (\<lambda>r. (hv_name r, hv_driver r, hv_labels r)) ws" for vs ws
    unfolding map_volume_view that ..
  ultimately show ?thesis
    unfolding faithful_digest_def unary_digest_def state_digest.simps unary_inj
    by (intro conjI allI impI unary_map_inj)
qed

definition sample_push :: tunnel_message where
  "sample_push = empty_message\<lparr>tm_type := ''state'', tm_version := ''0.9.1'',
     tm_volumes := [\<lparr>vp_name = ''data'', vp_driver = ''local'', vp_labels = []\<rparr>]\<rparr>"

lemma pushed_state_shown_witness:
  "faithful_digest unary_digest \<and> push_shown ''nas'' sample_push (tunnel_loop unary_digest ''nas'' ([] @ [sample_push]) one_host_db)"
  by (intro conjI unary_digest_faithful pushed_state_shown) (simp add: sample_push_def)

end
