(* ===== verification/Backup_Selection.thy ===== *)
theory Backup_Selection
  imports Store_Backups Store_Stacks
begin

text \<open>
  Which volumes a backup job covers, \<^verbatim>\<open>src/volume_backup_select.go\<close>: the union of the volumes ticked,
  those of some stacks and those with some labels, less the volumes it leaves out.
\<close>

section \<open>What a host has\<close>

definition compose_project_label :: string where
  "compose_project_label = ''com.docker.compose.project''"

definition label_key_re :: "string \<Rightarrow> bool" where
  "label_key_re s \<longleftrightarrow> length s \<le> 128 \<and> head_tail_re is_alnum (\<lambda>c. is_alnum c \<or> c \<in> set ''._/-'') s"

definition project_name_re :: "string \<Rightarrow> bool" where
  "project_name_re s \<longleftrightarrow> length s \<le> 128 \<and> head_tail_re is_alnum (\<lambda>c. is_alnum c \<or> c \<in> set ''_.-'') s"

definition safe_volume_name :: "string \<Rightarrow> bool" where
  "safe_volume_name s \<longleftrightarrow> head_tail_re is_alnum (\<lambda>c. is_alnum c \<or> c \<in> set ''_.-'') s"

definition max_label_rules :: nat where
  "max_label_rules = 20"

record volume_choice =
  vc_name :: string
  vc_project :: string
  vc_labels :: "(string \<times> string) list"

definition is_anonymous_volume :: "string \<Rightarrow> bool" where
  "is_anonymous_volume name \<longleftrightarrow>
     length name = 64 \<and> list_all (\<lambda>c. is_digit c \<or> c \<in> set ''abcdef'') name"

text \<open>A host has one volume of a name, so that the sort is stable.\<close>

definition host_volume_choices :: "host_volume list \<Rightarrow> string \<Rightarrow> volume_choice list" where
  "host_volume_choices vols host =
     sort_key vc_name
       (map (\<lambda>v. \<lparr>vc_name = hv_name v, vc_project = get_str (hv_labels v) compose_project_label, vc_labels = hv_labels v\<rparr>)
         (filter (\<lambda>v. \<not> (hv_host v \<noteq> host \<or> hv_driver v \<noteq> ''local'' \<or> is_anonymous_volume (hv_name v)
            \<or> prefix ''wharf-bk-'' (hv_name v))) vols))"

section \<open>What a job selects\<close>

text \<open>\<^verbatim>\<open>strings.Cut(rule, "=")\<close>.\<close>

definition label_rule_matches :: "string \<Rightarrow> (string \<times> string) list \<Rightarrow> bool" where
  "label_rule_matches rule labels =
     (case cut_at ''='' rule of
        None \<Rightarrow> map_of labels rule \<noteq> None
      | Some (key, v) \<Rightarrow> map_of labels key = Some v)"

record selected_volume =
  sv_name :: string
  sv_why :: "string list"

record selection =
  sl_volumes :: "selected_volume list"
  sl_excluded :: "string list"

definition selection_names :: "selection \<Rightarrow> string list" where
  "selection_names s = map sv_name (sl_volumes s)"

definition selected_why :: "backup_job \<Rightarrow> volume_choice \<Rightarrow> string list" where
  "selected_why job c =
     (if vc_name c \<in> set (bj_volumes job) then [''ticked''] else []) @
     (if vc_project c \<noteq> '''' \<and> vc_project c \<in> set (bj_stacks job) then [''stack '' @ vc_project c] else []) @
     map (\<lambda>rule. ''label '' @ rule) (filter (\<lambda>rule. label_rule_matches rule (vc_labels c)) (bj_label_rules job))"

text \<open>The loop over what the host has.\<close>

fun select_choices :: "backup_job \<Rightarrow> volume_choice list \<Rightarrow> selection \<Rightarrow> selection" where
  "select_choices job [] sel = sel"
| "select_choices job (c # cs) sel =
     (let why = selected_why job c in
      select_choices job cs
        (if why = [] then sel
         else if vc_name c \<in> set (bj_excluded job) then sel\<lparr>sl_excluded := sl_excluded sel @ [vc_name c]\<rparr>
         else sel\<lparr>sl_volumes := sl_volumes sel @ [\<lparr>sv_name = vc_name c, sv_why = why\<rparr>]\<rparr>))"

text \<open>A ticked volume the host no longer reports stays in the selection.\<close>

definition resolve_selection :: "backup_job \<Rightarrow> volume_choice list \<Rightarrow> selection" where
  "resolve_selection job choices =
     (let sel = select_choices job choices \<lparr>sl_volumes = [], sl_excluded = []\<rparr>;
          gone = filter (\<lambda>v. v \<notin> set (map vc_name choices) \<and> v \<notin> set (bj_excluded job)) (bj_volumes job) in
      sel\<lparr>sl_volumes := sort_key sv_name (sl_volumes sel @ map (\<lambda>v. \<lparr>sv_name = v, sv_why = [''ticked'']\<rparr>) gone)\<rparr>)"

definition resolve_job_volumes :: "backup_job \<Rightarrow> (db, selection) prog" where
  "resolve_job_volumes job =
     bindP (tryP list_host_volumes (\<lambda>_. okP []) okP) (\<lambda>vols.
       okP (resolve_selection job (host_volume_choices vols (bj_host job))))"

definition restorable_volumes :: "backup_job \<Rightarrow> (db, string list) prog" where
  "restorable_volumes job =
     bindP (resolve_job_volumes job) (\<lambda>sel.
     bindP (tryP (list_backup_runs (bj_id job) 300) (\<lambda>_. okP []) okP) (\<lambda>runs.
       let backed_up = map vr_volume (filter (\<lambda>r. vr_snapshot r \<noteq> '''' \<and> safe_volume_name (vr_volume r))
             (concat (map br_results (filter (\<lambda>r. br_kind r = ''backup'') runs)))) in
       okP (sort (remdups (selection_names sel @ bj_volumes job @ backed_up)))))"

section \<open>Label rules\<close>

fun parse_label_lines :: "string list \<Rightarrow> string list \<Rightarrow> string list result" where
  "parse_label_lines [] rules = Inr rules"
| "parse_label_lines (l # ls) rules =
     (let rule = trim_space l in
      if rule = '''' \<or> rule \<in> set rules then parse_label_lines ls rules
      else
        (let (key, v) = (case cut_at ''='' rule of None \<Rightarrow> (rule, '''') | Some kv \<Rightarrow> kv) in
         if \<not> label_key_re key
         then err_text (quoted key @ '' is not a label name: use letters, digits, . _ - and /'')
         else if length v > 256 \<or> contains_any v [CHR 0x0D, CHR 0x00]
         then err_text (''the value of '' @ quoted key @ '' is not valid'')
         else parse_label_lines ls (rules @ [rule])))"

definition parse_label_rules :: "string \<Rightarrow> string list result" where
  "parse_label_rules text =
     bind_res (parse_label_lines (split_on CHR 0x0A text) []) (\<lambda>rules.
       if length rules > max_label_rules then err_text ''at most 20 label rules'' else Inr rules)"

definition empty_selection_message :: "backup_job \<Rightarrow> string" where
  "empty_selection_message job =
     (let parts = (if bj_stacks job \<noteq> [] then [''stacks '' @ join_with '', '' (bj_stacks job)] else []) @
                  (if bj_label_rules job \<noteq> [] then [''labels '' @ join_with '', '' (bj_label_rules job)] else []) @
                  (if bj_volumes job \<noteq> [] then [''ticked volumes''] else []);
          what = (if parts \<noteq> [] then ''this job ('' @ join_with ''; '' parts @ '')'' else ''this job'') in
      if bj_excluded job \<noteq> []
      then what @ '' selects no volume right now, with '' @ show_int (int (length (bj_excluded job))) @ '' left out: nothing was started''
      else what @ '' selects no volume right now: nothing was started'')"

section \<open>The selection is exact\<close>

definition chosen :: "backup_job \<Rightarrow> volume_choice \<Rightarrow> bool" where
  "chosen job c \<longleftrightarrow> vc_name c \<in> set (bj_volumes job) \<or> (vc_project c \<noteq> '''' \<and> vc_project c \<in> set (bj_stacks job))
     \<or> list_ex (\<lambda>rule. label_rule_matches rule (vc_labels c)) (bj_label_rules job)"

lemma selected_why_iff: "selected_why job c \<noteq> [] \<longleftrightarrow> chosen job c"
  by (auto simp: selected_why_def chosen_def filter_empty_conv list_ex_iff)

lemma select_choices_result:
  "sl_volumes (select_choices job cs sel) = sl_volumes sel @
     map (\<lambda>c. \<lparr>sv_name = vc_name c, sv_why = selected_why job c\<rparr>)
       (filter (\<lambda>c. chosen job c \<and> vc_name c \<notin> set (bj_excluded job)) cs)"
  "sl_excluded (select_choices job cs sel) = sl_excluded sel @
     map vc_name (filter (\<lambda>c. chosen job c \<and> vc_name c \<in> set (bj_excluded job)) cs)"
  by (induction cs arbitrary: sel) (auto simp: Let_def simp flip: selected_why_iff)

lemma selection_names_set:
  "set (selection_names (resolve_selection job choices)) =
     {v. v \<notin> set (bj_excluded job) \<and> (v \<in> set (bj_volumes job) \<or> (\<exists>c\<in>set choices. vc_name c = v \<and> chosen job c))}"
proof -
  have "set (selection_names (resolve_selection job choices)) =
      vc_name ` {c \<in> set choices. chosen job c \<and> vc_name c \<notin> set (bj_excluded job)} \<union>
      {v \<in> set (bj_volumes job). v \<notin> vc_name ` set choices \<and> v \<notin> set (bj_excluded job)}"
    by (simp add: selection_names_def resolve_selection_def Let_def select_choices_result image_Un image_image)
  then show ?thesis by (auto simp: chosen_def)
qed

text \<open>
  The volumes a job covers are exactly those ticked, of one of its stacks or with
  one of its labels, less those it leaves out, in order; what it leaves out is listed only when
  something selected it.
\<close>

theorem selection_exact:
  "set (selection_names (resolve_selection job choices)) =
     {v. v \<notin> set (bj_excluded job) \<and> (v \<in> set (bj_volumes job) \<or>
        (\<exists>c\<in>set choices. vc_name c = v \<and> (vc_project c \<noteq> '''' \<and> vc_project c \<in> set (bj_stacks job)
           \<or> (\<exists>rule\<in>set (bj_label_rules job). label_rule_matches rule (vc_labels c)))))}
   \<and> sorted (selection_names (resolve_selection job choices))
   \<and> set (sl_excluded (resolve_selection job choices)) = {vc_name c |c. c \<in> set choices \<and> vc_name c \<in> set (bj_excluded job) \<and> chosen job c}"
proof (intro conjI)
  show "sorted (selection_names (resolve_selection job choices))"
    by (simp add: selection_names_def resolve_selection_def Let_def)
  show "set (sl_excluded (resolve_selection job choices)) = {vc_name c |c. c \<in> set choices \<and> vc_name c \<in> set (bj_excluded job) \<and> chosen job c}"
    by (auto simp: resolve_selection_def Let_def select_choices_result)
qed (unfold selection_names_set, auto simp: chosen_def list_ex_iff)

end
