(* ===== verification/Scheduler.thy ===== *)
theory Scheduler
  imports Go_Base
begin

text \<open>
  The entries of the cron scheduler that belong to one registry: a job is known under its id with the
  number of its entry, so that registering it again replaces the entry.  Both the schedules of volume
  backups and those of polled stacks are kept this way; the locale states what a registry promises
  its callers.  A number is never used twice.
\<close>

section \<open>Entries\<close>

text \<open>\<open>cs_cron\<close> is what the scheduler fires, \<open>cs_known\<close> the registry's map from a job to its entry.\<close>

record scheduler =
  cs_cron :: "(nat \<times> string) list"
  cs_known :: "(string \<times> nat) list"
  cs_next :: nat

definition no_schedules :: scheduler where
  "no_schedules = \<lparr>cs_cron = [], cs_known = [], cs_next = 0\<rparr>"

text \<open>\<^verbatim>\<open>cron.AddFunc\<close> of an accepted schedule, and its number noted.\<close>

definition cron_add :: "string \<Rightarrow> scheduler \<Rightarrow> scheduler" where
  "cron_add i s =
     s\<lparr>cs_cron := (cs_next s, i) # cs_cron s, cs_known := put_assoc i (cs_next s) (cs_known s), cs_next := cs_next s + 1\<rparr>"

text \<open>\<^verbatim>\<open>cron.Remove\<close> of the entry a job is known under, if any.\<close>

definition cron_remove :: "string \<Rightarrow> scheduler \<Rightarrow> scheduler" where
  "cron_remove i s =
     (case map_of (cs_known s) i of None \<Rightarrow> s | Some n \<Rightarrow> s\<lparr>cs_cron := del_assoc n (cs_cron s)\<rparr>)"

definition forget :: "string \<Rightarrow> scheduler \<Rightarrow> scheduler" where
  "forget i s = (cron_remove i s)\<lparr>cs_known := del_assoc i (cs_known s)\<rparr>"

definition entries_of :: "string \<Rightarrow> scheduler \<Rightarrow> nat list" where
  "entries_of i s = map fst (filter (\<lambda>p. snd p = i) (cs_cron s))"

section \<open>Every entry is known\<close>

definition schedule_inv :: "scheduler \<Rightarrow> bool" where
  "schedule_inv s \<longleftrightarrow> distinct (map fst (cs_cron s))
     \<and> (\<forall>p\<in>set (cs_cron s). fst p < cs_next s \<and> map_of (cs_known s) (snd p) = Some (fst p))"

lemma schedule_inv_empty: "cs_cron s = [] \<Longrightarrow> schedule_inv s"
  by (simp add: schedule_inv_def)

lemma set_del_assoc: "set (del_assoc k m) = {p \<in> set m. fst p \<noteq> k}"
  by (auto simp: del_assoc_def)

lemma inv_remove: "schedule_inv s \<Longrightarrow> schedule_inv (cron_remove i s)"
  by (auto simp: schedule_inv_def cron_remove_def set_del_assoc distinct_del_assoc split: option.split)

lemma removed: "schedule_inv s \<Longrightarrow> i \<notin> snd ` set (cs_cron (cron_remove i s))"
  by (auto simp: schedule_inv_def cron_remove_def set_del_assoc split: option.split)

lemma cron_forget [simp]: "cs_cron (forget i s) = cs_cron (cron_remove i s)"
  by (simp add: forget_def)

lemma inv_forget: "schedule_inv s \<Longrightarrow> schedule_inv (forget i s)"
proof -
  assume I: "schedule_inv s"
  have "cs_known (cron_remove i s) = cs_known s" "cs_next (forget i s) = cs_next s" "cs_next (cron_remove i s) = cs_next s"
    by (auto simp: forget_def cron_remove_def split: option.split)
  with inv_remove [OF I, of i] removed [OF I, of i] show ?thesis
    by (auto simp: schedule_inv_def forget_def image_iff)
qed

lemma inv_add: "schedule_inv s \<Longrightarrow> i \<notin> snd ` set (cs_cron s) \<Longrightarrow> schedule_inv (cron_add i s)"
  by (auto simp: schedule_inv_def cron_add_def image_iff)

text \<open>Replacing an entry, whether the registry forgets the old number or only overwrites it.\<close>

lemma inv_replace:
  assumes "schedule_inv s"
  shows "schedule_inv (cron_add i (forget i s))" and "schedule_inv (cron_add i (cron_remove i s))"
  using removed [OF assms, of i] by (auto intro!: inv_add inv_forget inv_remove assms)

lemma entries_gone: "i \<notin> snd ` set (cs_cron s) \<Longrightarrow> entries_of i s = []"
  by (force simp: entries_of_def filter_empty_conv)

lemma entries_add: "length (entries_of i (cron_add i s)) = Suc (length (entries_of i s))"
  by (simp add: entries_of_def cron_add_def)

lemma one_entry_each:
  assumes "schedule_inv s"
  shows "distinct (map snd (cs_cron s))"
proof -
  have known: "map_of (cs_known s) (snd p) = Some (fst p)" if "p \<in> set (cs_cron s)" for p
    using assms that by (auto simp: schedule_inv_def)
  have "inj_on snd (set (cs_cron s))" by (rule inj_onI) (metis known option.inject prod_eqI)
  moreover have "distinct (cs_cron s)" using assms by (simp add: schedule_inv_def distinct_map)
  ultimately show ?thesis by (simp add: distinct_map)
qed

section \<open>What a registry promises\<close>

datatype 'j schedule_op = Register 'j | Unregister string

fun apply_schedule_op :: "('j \<Rightarrow> (scheduler, unit) prog) \<Rightarrow> (string \<Rightarrow> scheduler \<Rightarrow> scheduler) \<Rightarrow> 'j schedule_op
    \<Rightarrow> scheduler \<Rightarrow> scheduler" where
  "apply_schedule_op register unregister (Register j) s = snd (register j s)"
| "apply_schedule_op register unregister (Unregister i) s = unregister i s"

locale schedule_registry =
  fixes register :: "'j \<Rightarrow> (scheduler, unit) prog"
    and unregister :: "string \<Rightarrow> scheduler \<Rightarrow> scheduler"
    and job_of :: "'j \<Rightarrow> string"
    and accepted :: "'j \<Rightarrow> bool"
  assumes keeps_register: "keeps schedule_inv (register j)"
    and keeps_unregister: "schedule_inv s \<Longrightarrow> schedule_inv (unregister i s)"
    and registered: "schedule_inv s \<Longrightarrow> length (entries_of (job_of j) (snd (register j s))) = (if accepted j then 1 else 0)"
    and unregistered: "schedule_inv s \<Longrightarrow> entries_of i (unregister i s) = []"
begin

abbreviation call :: "'j schedule_op \<Rightarrow> scheduler \<Rightarrow> scheduler" where
  "call \<equiv> apply_schedule_op register unregister"

lemma inv_call: "schedule_inv s \<Longrightarrow> schedule_inv (call x s)"
  by (cases x) (auto intro: keeps_unregister keepsD [OF keeps_register])

lemma inv_calls: "schedule_inv s \<Longrightarrow> schedule_inv (fold call xs s)"
  by (induction xs arbitrary: s) (auto intro: inv_call)

lemma never_twice: "schedule_inv s \<Longrightarrow> distinct (map snd (cs_cron (fold call xs s)))"
  by (rule one_entry_each [OF inv_calls])

lemma last_call_wins:
  assumes "schedule_inv s"
  shows "length (entries_of (job_of j) (call (Register j) (fold call xs s))) = (if accepted j then 1 else 0)"
    and "entries_of i (call (Unregister i) (fold call xs s)) = []"
  using registered unregistered inv_calls [OF assms] by simp_all

end

end
