(* ===== verification/Backup_Runs.thy ===== *)
theory Backup_Runs
  imports Backup_Selection Tunnel Agent_Channel Scheduler
begin

text \<open>
  Starting a run of a backup job, scheduling it and receiving its report,
  \<^verbatim>\<open>src/volume_backup_runs.go\<close>.  The mutex makes a start one step.  The custodian of credentials, the
  agents and the parser of schedules are the fields of \<open>backup_env\<close>; what was sent to the agents and
  the entries of the scheduler are part of the state.  Notifications are an outgoing web hook.
\<close>

section \<open>State\<close>

record backup_env =
  be_creds :: "string \<Rightarrow> (string \<times> string) list result"
  be_connected :: "string \<Rightarrow> bool"
  be_start :: "string \<Rightarrow> string \<Rightarrow> agent_backup_request \<Rightarrow> tunnel_message result"
  be_schedule :: "string \<Rightarrow> unit result"

record backup_state =
  bk_db :: db
  bk_sent :: "(string \<times> string \<times> agent_backup_request) list"
  bk_sched :: scheduler

abbreviation with_bdb :: "(db, 'a) prog \<Rightarrow> (backup_state, 'a) prog" where
  "with_bdb \<equiv> zoomP bk_db (\<lambda>d s. s\<lparr>bk_db := d\<rparr>)"

definition backup_cred_id :: "string \<Rightarrow> string" where
  "backup_cred_id dest = ''backup-dest-'' @ dest"

definition backup_run_give_up :: int where
  "backup_run_give_up = 13 * 60 * 60"

section \<open>What an agent is told\<close>

definition backup_request_for :: "backup_destination \<Rightarrow> (string \<times> string) list \<Rightarrow> string \<Rightarrow> agent_backup_request result" where
  "backup_request_for dest creds host =
     (let cfg = get_str (bd_config dest) in
      if get_str creds ''smb_password'' = '''' \<or> get_str creds ''repo_password'' = ''''
      then err_text ''this destination has no password stored: edit it and set one''
      else Inr
        \<lparr>aq_run = '''',
         aq_dest = \<lparr>ad_server = cfg ''server'', ad_share = cfg ''share'', ad_subdir = cfg ''subdir'',
           ad_version = cfg ''version'', ad_username = cfg ''username'', ad_password = get_str creds ''smb_password'',
           ad_domain = cfg ''domain'', ad_repo_dir = host, ad_repo_password = get_str creds ''repo_password''\<rparr>,
         aq_host_tag = ''wharf-'' @ host, aq_volumes = [], aq_mode = '''',
         aq_retention = \<lparr>rp_keep_last = 0, rp_keep_daily = 0, rp_keep_weekly = 0, rp_keep_monthly = 0\<rparr>,
         aq_snapshot = '''', aq_volume = '''', aq_new_volume = ''''\<rparr>)"

definition request_for_host :: "backup_env \<Rightarrow> string \<Rightarrow> string \<Rightarrow> (db, agent_backup_request) prog" where
  "request_for_host env dest host =
     tryP (get_backup_destination dest) (\<lambda>_. failP (ErrText ''that destination no longer exists'')) (\<lambda>d.
     bindP (liftP (be_creds env (backup_cred_id dest))) (\<lambda>creds.
     liftP (backup_request_for d creds host)))"

text \<open>\<^verbatim>\<open>ready\<close>, \<^verbatim>\<open>missing\<close> or \<^verbatim>\<open>unknown\<close>, and when it was learned.\<close>

definition repo_state :: "string \<Rightarrow> string \<Rightarrow> (db, string \<times> int option) prog" where
  "repo_state dest host =
     tryP (backup_repo_state dest host) (\<lambda>_. okP (''unknown'', None)) (\<lambda>r.
       case r of None \<Rightarrow> okP (''unknown'', None)
       | Some (initialized, at) \<Rightarrow> okP (if initialized then ''ready'' else ''missing'', Some at))"

definition note_repo :: "string \<Rightarrow> string \<Rightarrow> bool \<Rightarrow> (db, unit) prog" where
  "note_repo dest host initialized = ignoreP (set_backup_repo_state dest host initialized)"

definition connected_agent :: "backup_env \<Rightarrow> string \<Rightarrow> (db, unit) prog" where
  "connected_agent env host =
     tryP (get_host host) (\<lambda>_. failP (ErrText ''that host no longer exists'')) (\<lambda>h.
       if agent_cannot_back_up (h_agent_version h) then failP (ErrText (agent_too_old_for_backups (h_agent_version h)))
       else if \<not> be_connected env host
       then failP (ErrText (''the host '' @ quoted (h_name h) @ '' is not connected right now''))
       else okP ())"

section \<open>Starting a run\<close>

text \<open>The volume another run on the same host is already using, among \<open>volumes\<close>.\<close>

fun overlaps_loop :: "backup_job \<Rightarrow> string list \<Rightarrow> backup_run list \<Rightarrow> (db, string option) prog" where
  "overlaps_loop job volumes [] = okP None"
| "overlaps_loop job volumes (r # rs) =
     tryP (get_backup_job (br_job r)) (\<lambda>_. overlaps_loop job volumes rs) (\<lambda>other.
       if bj_host other \<noteq> bj_host job then overlaps_loop job volumes rs
       else bindP (resolve_job_volumes other) (\<lambda>sel.
         case find (\<lambda>v. v \<in> set (selection_names sel)) volumes of
           Some v \<Rightarrow> okP (Some v)
         | None \<Rightarrow> overlaps_loop job volumes rs))"

definition overlaps_running :: "backup_job \<Rightarrow> string list \<Rightarrow> (db, string option) prog" where
  "overlaps_running job volumes = bindP running_backup_runs (overlaps_loop job volumes)"

text \<open>
  The outcome of a start: the run, unless none was made, and the error.  \<open>refused\<close> records a run that
  does not start, as running and then finished.
\<close>

type_synonym start_outcome = "backup_run option \<times> gerr option"

definition refused :: "backup_run \<Rightarrow> string \<Rightarrow> gerr \<Rightarrow> (backup_state, start_outcome) prog" where
  "refused run code e =
     tryP (with_bdb (create_backup_run run)) (\<lambda>_. okP (Some run, Some e)) (\<lambda>_.
     bindP (with_bdb (ignoreP (finish_backup_run (br_id run) ''error'' code (error_text e) '''' []))) (\<lambda>_.
     okP (Some (run\<lparr>br_status := ''error'', br_code := code, br_message := error_text e\<rparr>), Some e)))"

text \<open>The request is complete: the run is recorded, and handed to the agent.\<close>

definition hand_to_agent :: "backup_env \<Rightarrow> backup_job \<Rightarrow> backup_run \<Rightarrow> string \<Rightarrow> agent_backup_request
    \<Rightarrow> (backup_state, start_outcome) prog" where
  "hand_to_agent env job run action req =
     tryP (with_bdb (create_backup_run run)) (\<lambda>e. okP (None, Some e)) (\<lambda>_.
     bindP (modP (\<lambda>s. s\<lparr>bk_sent := bk_sent s @ [(bj_host job, action, req)]\<rparr>)) (\<lambda>_.
       case start_backup_action (be_start env (bj_host job) action req) of
         Inl e \<Rightarrow>
           bindP (with_bdb (ignoreP (finish_backup_run (br_id run) ''error'' ''AGENT'' (error_text e) '''' []))) (\<lambda>_.
           okP (Some (run\<lparr>br_status := ''error'', br_code := ''AGENT'', br_message := error_text e\<rparr>), Some e))
       | Inr _ \<Rightarrow> okP (Some run, None)))"

text \<open>What is checked once the volumes are known to be free.\<close>

definition start_checked :: "backup_env \<Rightarrow> backup_job \<Rightarrow> backup_run \<Rightarrow> string list \<Rightarrow> string \<Rightarrow> string
    \<Rightarrow> (backup_state, start_outcome) prog" where
  "start_checked env job run volumes snapshot volume =
     tryP (with_bdb (get_backup_destination (bj_destination job)))
       (\<lambda>_. refused run ''VALIDATION'' (ErrText ''the destination of this job no longer exists'')) (\<lambda>dest.
     (case be_creds env (backup_cred_id (bd_id dest)) of
        Inl e \<Rightarrow> refused run ''INTERNAL'' e
      | Inr creds \<Rightarrow>
        (case backup_request_for dest creds (bj_host job) of
           Inl e \<Rightarrow> refused run ''VALIDATION'' e
         | Inr req \<Rightarrow>
           bindP (with_bdb (repo_state (bj_destination job) (bj_host job))) (\<lambda>(state, _).
             if state = ''missing''
             then refused run ''REPO_NOT_INITIALIZED'' (ErrText (''this host has no repository on the destination yet, so no ''
                    @ br_kind run @ '' was started: initialize it from the job's page first''))
             else tryP (with_bdb (connected_agent env (bj_host job))) (refused run ''HOST'') (\<lambda>_.
               if br_kind run = ''restore''
               then hand_to_agent env job run ''backup_restore''
                 (req\<lparr>aq_run := br_id run, aq_snapshot := snapshot, aq_volume := volume, aq_new_volume := br_restored run\<rparr>)
               else hand_to_agent env job run ''backup_run''
                 (req\<lparr>aq_run := br_id run, aq_volumes := volumes, aq_mode := bj_mode job, aq_retention := bj_retention job\<rparr>))))))"

definition start_volume_action :: "backup_env \<Rightarrow> backup_job \<Rightarrow> string \<Rightarrow> string \<Rightarrow> string \<Rightarrow> string \<Rightarrow> string \<Rightarrow> string
    \<Rightarrow> (backup_state, start_outcome) prog" where
  "start_volume_action env job kind trigger actor snapshot volume new_volume =
     bindP (with_bdb draw) (\<lambda>i.
       let run = \<lparr>br_id = i, br_job = bj_id job, br_kind = kind, br_trigger = trigger, br_actor = actor,
             br_status = ''running'', br_code = '''', br_message = '''', br_results = [], br_restored = new_volume,
             br_started = 0, br_finished = None\<rparr> in
       bindP (with_bdb (resolve_job_volumes job)) (\<lambda>sel.
         if kind \<noteq> ''restore'' \<and> selection_names sel = []
         then refused run ''VALIDATION'' (ErrText (empty_selection_message job))
         else
           (let volumes = (if kind = ''restore'' then [volume] else selection_names sel) in
            tryP (with_bdb (overlaps_running job volumes)) (\<lambda>e. okP (None, Some e)) (\<lambda>v.
              case v of
                Some name \<Rightarrow> if name \<noteq> '''' then refused run ''CONCURRENCY'' (ErrText (''a backup or restore of the volume ''
                    @ quoted name @ '' is already running on this host''))
                  else start_checked env job run volumes snapshot volume
              | None \<Rightarrow> start_checked env job run volumes snapshot volume))))"

definition start_volume_backup :: "backup_env \<Rightarrow> backup_job \<Rightarrow> string \<Rightarrow> string \<Rightarrow> (backup_state, start_outcome) prog" where
  "start_volume_backup env job trigger actor = start_volume_action env job ''backup'' trigger actor '''' '''' ''''"

definition start_volume_restore :: "backup_env \<Rightarrow> backup_job \<Rightarrow> string \<Rightarrow> string \<Rightarrow> string \<Rightarrow> string
    \<Rightarrow> (backup_state, start_outcome) prog" where
  "start_volume_restore env job snapshot volume new_volume actor =
     start_volume_action env job ''restore'' ''manual'' actor snapshot volume new_volume"

section \<open>The report of a run\<close>

record run_report =
  rr_kind :: string
  rr_status :: string
  rr_code :: string
  rr_message :: string
  rr_restored :: string
  rr_volumes :: "volume_result list"

definition clip :: "string \<Rightarrow> nat \<Rightarrow> string" where
  "clip s n = (if length s \<le> n then s else take n s @ ellipsis)"

definition volume_backup_report_handler :: "(string \<Rightarrow> string) \<Rightarrow> string \<Rightarrow> run_report result \<Rightarrow> agent_request
    \<Rightarrow> (agent_state, agent_answer) prog" where
  "volume_backup_report_handler fpr i body rq =
     tryP (with_db (get_backup_run i))
       (\<lambda>e. if error_is e ErrNotFound then ag_error 404 ''unknown run'' else ag_fail 500 e) (\<lambda>run.
     tryP (with_db (get_backup_job (br_job run))) (\<lambda>_. ag_error 404 ''unknown job'') (\<lambda>job.
     tryP (with_db (verify_caller fpr rq (bj_host job))) (ag_fail 403) (\<lambda>_.
       case body of
         Inl e \<Rightarrow> ag_error 400 (''invalid JSON body: '' @ error_text e)
       | Inr rep \<Rightarrow>
         if rr_status rep \<notin> {''success'', ''warning'', ''error''} then ag_error 400 ''unknown status''
         else
           (let results = map (\<lambda>v. v\<lparr>vr_message := clip (vr_message v) 1000, vr_retention := clip (vr_retention v) 300\<rparr>)
                  (rr_volumes rep);
                restored = (if rr_restored rep \<noteq> '''' then rr_restored rep else br_restored run) in
            tryP (with_db (finish_backup_run (br_id run) (rr_status rep) (clip (rr_code rep) 40) (clip (rr_message rep) 2000)
                    restored results)) (ag_fail 500) (\<lambda>changed.
            bindP
              (if changed \<and> rr_code rep = ''REPO_NOT_INITIALIZED''
               then with_db (note_repo (bj_destination job) (bj_host job) False)
               else if changed \<and> (rr_status rep = ''success'' \<or> rr_status rep = ''warning'')
               then with_db (note_repo (bj_destination job) (bj_host job) True)
               else okP ())
              (\<lambda>_. okP AgNoContent))))))"

section \<open>Schedules\<close>

definition unregister_volume_backup :: "string \<Rightarrow> scheduler \<Rightarrow> scheduler" where
  "unregister_volume_backup i s = forget i s"

definition register_volume_backup :: "(string \<Rightarrow> unit result) \<Rightarrow> backup_job \<Rightarrow> (scheduler, unit) prog" where
  "register_volume_backup cron job =
     bindP (modP (unregister_volume_backup (bj_id job))) (\<lambda>_.
       if \<not> bj_enabled job \<or> bj_schedule job = '''' then okP ()
       else (case cron (bj_schedule job) of
           Inl e \<Rightarrow> failP (ErrWrap (''register the schedule '' @ quoted (bj_schedule job) @ '' of backup job ''
                     @ quoted (bj_name job) @ '': '') e)
         | Inr _ \<Rightarrow> modP (cron_add (bj_id job))))"

abbreviation with_sched :: "(scheduler, 'a) prog \<Rightarrow> (backup_state, 'a) prog" where
  "with_sched \<equiv> zoomP bk_sched (\<lambda>c s. s\<lparr>bk_sched := c\<rparr>)"

definition run_scheduled_volume_backup :: "backup_env \<Rightarrow> string \<Rightarrow> (backup_state, unit) prog" where
  "run_scheduled_volume_backup env i =
     tryP (with_bdb (get_backup_job i)) (\<lambda>_. okP ()) (\<lambda>job.
       if \<not> bj_enabled job then okP ()
       else bindP (start_volume_backup env job ''schedule'' ''backup-schedule'') (\<lambda>(run, e).
         case e of
           Some _ \<Rightarrow> okP ()
         | None \<Rightarrow> with_bdb (audit_system ''backup-schedule'' ''volume_backup.run'' (bj_name job)
             (''run '' @ (case run of None \<Rightarrow> '''' | Some r \<Rightarrow> br_id r)))))"

definition give_up_on_lost_runs :: "(db, unit) prog" where
  "give_up_on_lost_runs =
     bindP (getP d_now) (\<lambda>now.
       ignoreP (fail_stale_backup_runs (now - backup_run_give_up)
         ''the agent never reported how this run ended (it may have crashed, or lost contact for good)''))"

definition register_volume_backups :: "backup_env \<Rightarrow> (backup_state, unit) prog" where
  "register_volume_backups env =
     bindP (with_bdb list_backup_jobs) (\<lambda>jobs.
     bindP (forP (\<lambda>j. ignoreP (with_sched (register_volume_backup (be_schedule env) j))) jobs) (\<lambda>_.
     bindP (with_bdb give_up_on_lost_runs) (\<lambda>_.
     liftP (be_schedule env ''17 * * * *''))))"

interpretation backup_schedules: schedule_registry "register_volume_backup cron" unregister_volume_backup bj_id
    "\<lambda>job. bj_enabled job \<and> bj_schedule job \<noteq> '''' \<and> is_ok (cron (bj_schedule job))" for cron
proof
  show "keeps schedule_inv (register_volume_backup cron j)" for j
    using inv_replace(1)
    by (auto simp: keeps_def register_volume_backup_def unregister_volume_backup_def bindP_def tryP_def
        inv_forget split: sum.split)
  show "length (entries_of (bj_id j) (snd (register_volume_backup cron j s)))
      = (if bj_enabled j \<and> bj_schedule j \<noteq> '''' \<and> is_ok (cron (bj_schedule j)) then 1 else 0)"
    if "schedule_inv s" for j s
    using entries_gone [of "bj_id j" "forget (bj_id j) s"] removed [OF that, of "bj_id j"]
    by (cases "cron (bj_schedule j)")
      (auto simp: register_volume_backup_def unregister_volume_backup_def bindP_def tryP_def entries_add)
  show "entries_of i (unregister_volume_backup i s) = []" if "schedule_inv s" for i s
    using entries_gone [of i "forget i s"] removed [OF that, of i] by (simp add: unregister_volume_backup_def)
qed (simp add: unregister_volume_backup_def inv_forget)

text \<open>What can happen to the schedules while the server runs: they are changed, or fire.\<close>

datatype schedule_event = Changed "backup_job schedule_op" | Fired string

fun schedule_after :: "backup_env \<Rightarrow> schedule_event \<Rightarrow> backup_state \<Rightarrow> backup_state" where
  "schedule_after env (Changed x) s =
     s\<lparr>bk_sched := apply_schedule_op (register_volume_backup (be_schedule env)) unregister_volume_backup x (bk_sched s)\<rparr>"
| "schedule_after env (Fired i) s = snd (run_scheduled_volume_backup env i s)"

text \<open>Starting a run does not touch the schedules.\<close>

lemma keeps_schedule_db: "keeps (\<lambda>s. bk_sched s = c) (with_bdb m)"
  by (auto simp: keeps_def zoomP_def split: prod.splits)

lemma keeps_schedule_refused: "keeps (\<lambda>s. bk_sched s = c) (refused run code e)"
  unfolding refused_def by (intro keeps_intros keeps_schedule_db)

lemma keeps_schedule_hand: "keeps (\<lambda>s. bk_sched s = c) (hand_to_agent env job run action req)"
  unfolding hand_to_agent_def
  by (intro keeps_intros keeps_schedule_db keeps_modP) auto

lemma keeps_schedule_checked: "keeps (\<lambda>s. bk_sched s = c) (start_checked env job run volumes snapshot volume)"
  unfolding start_checked_def
  by (intro keeps_intros keeps_schedule_db keeps_schedule_refused keeps_schedule_hand)

lemma keeps_schedule_start:
  "keeps (\<lambda>s. bk_sched s = c) (start_volume_action env job kind trigger actor snapshot volume new)"
  unfolding start_volume_action_def Let_def
  by (intro keeps_intros keeps_schedule_db keeps_schedule_refused keeps_schedule_checked)

lemma fire_schedule: "bk_sched (snd (run_scheduled_volume_backup env i s)) = bk_sched s"
proof -
  have "keeps (\<lambda>t. bk_sched t = bk_sched s) (run_scheduled_volume_backup env i)"
    unfolding run_scheduled_volume_backup_def start_volume_backup_def
    by (intro keeps_intros keeps_schedule_db keeps_schedule_start)
  from keepsD [OF this] show ?thesis by simp
qed

lemma schedule_inv_events:
  "schedule_inv (bk_sched s) \<Longrightarrow> schedule_inv (bk_sched (fold (schedule_after env) xs s))"
proof (induction xs arbitrary: s)
  case (Cons x xs)
  then show ?case by (cases x) (auto simp: fire_schedule backup_schedules.inv_call)
qed simp

text \<open>
  Whatever is registered, unregistered and fired, a job has at most one
  entry in the scheduler; once registered it has exactly one if it is enabled with a schedule the
  scheduler accepts, and none otherwise.
\<close>

theorem one_schedule_per_job:
  assumes "cs_cron (bk_sched s) = []"
  shows "distinct (map snd (cs_cron (bk_sched (fold (schedule_after env) xs s))))
    \<and> length (entries_of (bj_id job) (bk_sched (schedule_after env (Changed (Register job)) (fold (schedule_after env) xs s))))
       = (if bj_enabled job \<and> bj_schedule job \<noteq> '''' \<and> is_ok (be_schedule env (bj_schedule job)) then 1 else 0)"
  using schedule_inv_events [OF schedule_inv_empty [OF assms]]
  by (auto simp: one_entry_each backup_schedules.registered)

section \<open>Starts without database failures\<close>

definition listed_volumes :: "db \<Rightarrow> host_volume list" where
  "listed_volumes d = sort_key hv_name
     (List.map_filter (\<lambda>c. map_option (\<lambda>n. c\<lparr>hv_host_name := n\<rparr>) (host_name_of d (hv_host c))) (d_volumes d))"

text \<open>What a job covers in a database.\<close>

definition covered :: "db \<Rightarrow> backup_job \<Rightarrow> string list" where
  "covered d job = selection_names (resolve_selection job (host_volume_choices (listed_volumes d) (bj_host job)))"

definition find_job :: "db \<Rightarrow> string \<Rightarrow> backup_job option" where
  "find_job d i = find (\<lambda>r. bj_id r = i) (d_jobs d)"

lemma reads:
  assumes "d_faults d = []"
  shows "resolve_job_volumes job d = (Inr (resolve_selection job (host_volume_choices (listed_volumes d) (bj_host job))), d)"
    and "running_backup_runs d = (Inr (filter (\<lambda>r. br_status r = ''running'') (d_runs d)), d)"
    and "get_backup_job i d = ((case find_job d i of None \<Rightarrow> Inl ErrNotFound | Some j \<Rightarrow> Inr j), d)"
    and "get_backup_destination i d = ((case find (\<lambda>r. bd_id r = i) (d_destinations d) of None \<Rightarrow> Inl ErrNotFound | Some x \<Rightarrow> Inr x), d)"
    and "snd (repo_state dest host d) = d" and "snd (connected_agent env host d) = d"
proof -
  show "resolve_job_volumes job d = (Inr (resolve_selection job (host_volume_choices (listed_volumes d) (bj_host job))), d)"
    using assms by (simp add: resolve_job_volumes_def list_host_volumes_def listed_volumes_def bindP_def tryP_def wrap_select)
  show "running_backup_runs d = (Inr (filter (\<lambda>r. br_status r = ''running'') (d_runs d)), d)"
    using assms by (simp add: running_backup_runs_def wrap_select)
  show "get_backup_job i d = ((case find_job d i of None \<Rightarrow> Inl ErrNotFound | Some j \<Rightarrow> Inr j), d)"
    using assms by (simp add: get_backup_job_def one_row_faultless find_job_def)
  show "get_backup_destination i d = ((case find (\<lambda>r. bd_id r = i) (d_destinations d) of None \<Rightarrow> Inl ErrNotFound | Some x \<Rightarrow> Inr x), d)"
    using assms by (simp add: get_backup_destination_def one_row_faultless)
  show "snd (repo_state dest host d) = d"
    using assms by (simp add: repo_state_def backup_repo_state_def tryP_def wrap_select split: option.split)
  show "snd (connected_agent env host d) = d"
    using assms by (simp add: connected_agent_def get_host_def tryP_def one_row_faultless split: option.split)
qed

text \<open>A read of the database, in the state of the backups.\<close>

lemma try_read: "m (bk_db s) = (r, bk_db s) \<Longrightarrow>
    tryP (with_bdb m) h f s = (case r of Inl e \<Rightarrow> h e s | Inr x \<Rightarrow> f x s)"
  by (simp add: tryP_def zoomP_def split: sum.split)

lemma bind_read: "m (bk_db s) = (r, bk_db s) \<Longrightarrow>
    bindP (with_bdb m) f s = (case r of Inl e \<Rightarrow> (Inl e, s) | Inr x \<Rightarrow> f x s)"
  by (simp add: bindP_def try_read failP_simp split: sum.split)

lemma overlaps_loop_faultless:
  assumes "d_faults d = []"
  shows "\<exists>v. overlaps_loop job vs rs d = (Inr v, d) \<and> (\<forall>w. v = Some w \<longrightarrow> w \<in> set vs) \<and> (v = None \<longrightarrow>
     (\<forall>r\<in>set rs. \<forall>other. find_job d (br_job r) = Some other \<longrightarrow> bj_host other = bj_host job \<longrightarrow>
        set (covered d other) \<inter> set vs = {}))"
proof (induction rs)
  case (Cons r rs)
  then obtain v where v: "overlaps_loop job vs rs d = (Inr v, d)" and mem: "\<forall>w. v = Some w \<longrightarrow> w \<in> set vs"
    and none: "v = None \<Longrightarrow> \<forall>r\<in>set rs. \<forall>other. find_job d (br_job r) = Some other \<longrightarrow> bj_host other = bj_host job \<longrightarrow>
        set (covered d other) \<inter> set vs = {}" by blast
  show ?case
  proof (cases "find_job d (br_job r)")
    case None
    then show ?thesis using v mem none assms by (auto simp: tryP_def reads)
  next
    case (Some other)
    show ?thesis
    proof (cases "find (\<lambda>v. v \<in> set (covered d other)) vs")
      case None
      then have "set (covered d other) \<inter> set vs = {}" by (auto simp: find_None_iff)
      then show ?thesis
        using v mem none assms Some None by (cases "bj_host other = bj_host job") (auto simp: tryP_def bindP_def reads covered_def)
    next
      case (Some w)
      then have "w \<in> set vs" by (auto dest: find_in)
      with Some show ?thesis
        using v mem none assms \<open>find_job d (br_job r) = Some other\<close>
        by (cases "bj_host other = bj_host job") (auto simp: tryP_def bindP_def reads covered_def)
    qed
  qed
qed simp

lemma overlaps_faultless:
  assumes "d_faults d = []"
  shows "\<exists>v. overlaps_running job vs d = (Inr v, d) \<and> (\<forall>w. v = Some w \<longrightarrow> w \<in> set vs) \<and> (v = None \<longrightarrow>
     (\<forall>r\<in>set (d_runs d). \<forall>other. br_status r = ''running'' \<longrightarrow> find_job d (br_job r) = Some other \<longrightarrow> bj_host other = bj_host job \<longrightarrow>
        set (covered d other) \<inter> set vs = {}))"
  using overlaps_loop_faultless [OF assms, of job vs "filter (\<lambda>r. br_status r = ''running'') (d_runs d)"] assms
  by (auto simp: overlaps_running_def bindP_def tryP_def reads)

text \<open>What a start leaves in the history: one row, running or ended with the reason.\<close>

definition start_recorded :: "db \<Rightarrow> backup_run \<Rightarrow> start_outcome \<Rightarrow> db \<Rightarrow> bool" where
  "start_recorded d run out d' \<longleftrightarrow> d_faults d' = [] \<and>
     (\<exists>row. d_runs d' = d_runs d @ [row] \<and> br_id row = br_id run \<and> br_job row = br_job run \<and> br_kind row = br_kind run
        \<and> map_option br_id (fst out) = Some (br_id run)
        \<and> (case snd out of
             None \<Rightarrow> br_status row = ''running'' \<and> br_finished row = None
           | Some e \<Rightarrow> br_status row = ''error'' \<and> br_message row = error_text e \<and> br_finished row = Some (d_now d)))"

definition fresh_run :: "db \<Rightarrow> backup_run \<Rightarrow> bool" where
  "fresh_run d run \<longleftrightarrow> d_faults d = [] \<and> (\<forall>r\<in>set (d_runs d). br_id r \<noteq> br_id run) \<and> br_status run = ''running''"

lemma create_fresh:
  "fresh_run d run \<Longrightarrow> create_backup_run run d
     = (Inr (), d\<lparr>d_runs := d_runs d @ [run\<lparr>br_results := [], br_started := d_now d, br_finished := None\<rparr>]\<rparr>)"
  by (simp add: create_backup_run_def unitP_def bindP_def wrapP_def tryP_def fresh_run_def faultless_exec first_clash_None)

lemma finish_fresh:
  assumes "fresh_run d run"
  shows "snd (finish_backup_run (br_id run) ''error'' code msg '''' [] (snd (create_backup_run run d))) =
     d\<lparr>d_runs := d_runs d @ [run\<lparr>br_status := ''error'', br_code := code, br_message := msg, br_results := [],
        br_restored := '''', br_started := d_now d, br_finished := Some (d_now d)\<rparr>]\<rparr>"
proof -
  have "update_where (running (br_id run)) f (d_runs d) = d_runs d" for f
    using assms by (auto simp: update_where_def running_def fresh_run_def intro!: map_idI)
  then show ?thesis
    using assms
    by (simp add: create_fresh finish_backup_run_def bindP_def wrapP_def tryP_def faultless_exec fresh_run_def
        update_where_def running_def)
qed

lemma refused_recorded:
  assumes "fresh_run (bk_db s) run" and "refused run code e s = (r, s')"
  shows "\<exists>out. r = Inr out \<and> start_recorded (bk_db s) run out (bk_db s')"
proof -
  have "refused run code e s = (Inr (Some (run\<lparr>br_status := ''error'', br_code := code, br_message := error_text e\<rparr>), Some e),
      s\<lparr>bk_db := snd (finish_backup_run (br_id run) ''error'' code (error_text e) '''' [] (snd (create_backup_run run (bk_db s))))\<rparr>)"
    using assms(1) by (simp add: refused_def tryP_def bindP_def zoomP_def create_fresh snd_ignoreP ignoreP_def split: prod.splits sum.splits)
  with assms show ?thesis by (auto simp: finish_fresh start_recorded_def fresh_run_def)
qed

lemma hand_recorded:
  assumes "fresh_run (bk_db s) run" and "hand_to_agent env job run action req s = (r, s')"
  shows "\<exists>out. r = Inr out \<and> start_recorded (bk_db s) run out (bk_db s')"
proof (cases "start_backup_action (be_start env (bj_host job) action req)")
  case (Inl e)
  have "hand_to_agent env job run action req s = (Inr (Some (run\<lparr>br_status := ''error'', br_code := ''AGENT'', br_message := error_text e\<rparr>), Some e),
      s\<lparr>bk_db := snd (finish_backup_run (br_id run) ''error'' ''AGENT'' (error_text e) '''' [] (snd (create_backup_run run (bk_db s)))),
        bk_sent := bk_sent s @ [(bj_host job, action, req)]\<rparr>)"
    using assms(1) Inl
    by (simp add: hand_to_agent_def tryP_def bindP_def zoomP_def create_fresh ignoreP_def split: prod.splits sum.splits)
  with assms show ?thesis by (auto simp: finish_fresh start_recorded_def fresh_run_def)
next
  case (Inr u)
  then have "hand_to_agent env job run action req s = (Inr (Some run, None),
      s\<lparr>bk_db := snd (create_backup_run run (bk_db s)), bk_sent := bk_sent s @ [(bj_host job, action, req)]\<rparr>)"
    using assms(1) by (simp add: hand_to_agent_def tryP_def bindP_def zoomP_def create_fresh)
  with assms show ?thesis by (auto simp: create_fresh start_recorded_def fresh_run_def)
qed

lemma checked_recorded:
  assumes "fresh_run (bk_db s) run" and "start_checked env job run volumes snapshot volume s = (r, s')"
  shows "\<exists>out. r = Inr out \<and> start_recorded (bk_db s) run out (bk_db s')"
proof -
  have f: "d_faults (bk_db s) = []" using assms(1) by (simp add: fresh_run_def)
  obtain st where st: "repo_state (bj_destination job) (bj_host job) (bk_db s) = (st, bk_db s)"
    using reads(5) [OF f] by (metis prod.collapse)
  obtain c where c: "connected_agent env (bj_host job) (bk_db s) = (c, bk_db s)"
    using reads(6) [OF f] by (metis prod.collapse)
  obtain dd where dd: "get_backup_destination (bj_destination job) (bk_db s) = (dd, bk_db s)"
    using reads(4) [OF f] by blast
  have st_ok: "\<exists>a b. st = Inr (a, b)"
    using f st by (auto simp: repo_state_def backup_repo_state_def tryP_def wrap_select split: option.splits if_splits)
  show ?thesis
    using assms(2) f st_ok
    by (auto simp: start_checked_def try_read [where m = "get_backup_destination (bj_destination job)", OF dd] try_read [where m = "connected_agent env (bj_host job)", OF c] bind_read [where m = "repo_state (bj_destination job) (bj_host job)", OF st] split: option.splits sum.splits if_splits
        dest: refused_recorded [OF assms(1)] hand_recorded [OF assms(1)])
qed

lemma start_shape:
  assumes "d_faults (bk_db s) = []"
  shows "\<exists>run v. br_id run = d_rand (bk_db s) (d_drawn (bk_db s)) \<and> br_job run = bj_id job \<and> br_kind run = kind
     \<and> br_status run = ''running'' \<and> br_restored run = new_volume
     \<and> (let s1 = s\<lparr>bk_db := (bk_db s)\<lparr>d_drawn := Suc (d_drawn (bk_db s))\<rparr>\<rparr>;
            volumes = (if kind = ''restore'' then [volume] else covered (bk_db s) job) in
        overlaps_running job volumes (bk_db s1) = (Inr v, bk_db s1) \<and>
        start_volume_action env job kind trigger actor snapshot volume new_volume s =
          (if kind \<noteq> ''restore'' \<and> covered (bk_db s) job = []
           then refused run ''VALIDATION'' (ErrText (empty_selection_message job)) s1
           else if v = None \<or> v = Some '''' then start_checked env job run volumes snapshot volume s1
           else refused run ''CONCURRENCY'' (ErrText (''a backup or restore of the volume ''
                    @ quoted (the v) @ '' is already running on this host'')) s1))"
proof -
  let ?i = "d_rand (bk_db s) (d_drawn (bk_db s))"
  let ?s1 = "s\<lparr>bk_db := (bk_db s)\<lparr>d_drawn := Suc (d_drawn (bk_db s))\<rparr>\<rparr>"
  let ?run = "\<lparr>br_id = ?i, br_job = bj_id job, br_kind = kind, br_trigger = trigger, br_actor = actor,
             br_status = ''running'', br_code = '''', br_message = '''', br_results = [], br_restored = new_volume,
             br_started = 0, br_finished = None\<rparr>"
  let ?vs = "if kind = ''restore'' then [volume] else covered (bk_db s) job"
  have f: "d_faults (bk_db ?s1) = []" using assms by simp
  have cov: "covered (bk_db ?s1) job = covered (bk_db s) job"
    by (simp add: covered_def listed_volumes_def host_name_of_def)
  obtain sel where sel: "resolve_job_volumes job (bk_db ?s1) = (Inr sel, bk_db ?s1)" "selection_names sel = covered (bk_db s) job"
    using reads(1) [OF f, of job] cov by (auto simp: covered_def)
  obtain v where v: "overlaps_running job ?vs (bk_db ?s1) = (Inr v, bk_db ?s1)"
    using overlaps_faultless [OF f] by blast
  have "start_volume_action env job kind trigger actor snapshot volume new_volume s =
      (if kind \<noteq> ''restore'' \<and> covered (bk_db s) job = []
       then refused ?run ''VALIDATION'' (ErrText (empty_selection_message job)) ?s1
       else if v = None \<or> v = Some '''' then start_checked env job ?run ?vs snapshot volume ?s1
       else refused ?run ''CONCURRENCY'' (ErrText (''a backup or restore of the volume ''
                    @ quoted (the v) @ '' is already running on this host'')) ?s1)"
  proof (cases "kind = ''restore''")
    case True
    with v have v': "overlaps_running job [volume] (bk_db ?s1) = (Inr v, bk_db ?s1)" by simp
    show ?thesis
      using True unfolding start_volume_action_def
      by (simp add: bindP_def [of "with_bdb draw"] tryP_def [of "with_bdb draw"] zoomP_def [of _ _ draw] draw_def Let_def
          bind_read [where m = "resolve_job_volumes job" and s = ?s1, OF sel(1)]
          try_read [where m = "overlaps_running job [volume]" and s = ?s1, OF v'] split: option.split)
  next
    case False
    with v have v': "overlaps_running job (covered (bk_db s) job) (bk_db ?s1) = (Inr v, bk_db ?s1)" by simp
    show ?thesis
      using False unfolding start_volume_action_def
      by (simp add: bindP_def [of "with_bdb draw"] tryP_def [of "with_bdb draw"] zoomP_def [of _ _ draw] draw_def Let_def
          bind_read [where m = "resolve_job_volumes job" and s = ?s1, OF sel(1)] sel(2)
          try_read [where m = "overlaps_running job (covered (bk_db s) job)" and s = ?s1, OF v'] split: option.split)
  qed
  then show ?thesis using v by (intro exI [of _ ?run] exI [of _ v]) (simp add: Let_def)
qed

text \<open>
  C22 every_start_recorded.  As long as the database works and draws a new id, every start of a backup or
  restore leaves exactly one new run in the history: running when it was handed to the agent, and ended
  with the reason when it was refused.
\<close>

theorem every_start_recorded:
  assumes "d_faults (bk_db s) = []" and "d_rand (bk_db s) (d_drawn (bk_db s)) \<notin> br_id ` set (d_runs (bk_db s))"
    and "start_volume_action env job kind trigger actor snapshot volume new_volume s = (r, s')"
  shows "\<exists>run out. r = Inr out \<and> br_job run = bj_id job \<and> br_kind run = kind \<and> start_recorded (bk_db s) run out (bk_db s')"
proof -
  let ?s1 = "s\<lparr>bk_db := (bk_db s)\<lparr>d_drawn := Suc (d_drawn (bk_db s))\<rparr>\<rparr>"
  obtain run v where run: "br_id run = d_rand (bk_db s) (d_drawn (bk_db s))" "br_job run = bj_id job" "br_kind run = kind"
    "br_status run = ''running''"
    and go: "(if kind \<noteq> ''restore'' \<and> covered (bk_db s) job = []
           then refused run ''VALIDATION'' (ErrText (empty_selection_message job)) ?s1
           else if v = None \<or> v = Some '''' then start_checked env job run (if kind = ''restore'' then [volume] else covered (bk_db s) job) snapshot volume ?s1
           else refused run ''CONCURRENCY'' (ErrText (''a backup or restore of the volume ''
                    @ quoted (the v) @ '' is already running on this host'')) ?s1) = (r, s')"
    using start_shape [OF assms(1), of job kind new_volume volume env trigger actor snapshot] assms(3)
    unfolding Let_def by metis
  have fresh: "fresh_run (bk_db ?s1) run" using assms(1,2) run by (force simp: fresh_run_def)
  have "\<exists>out. r = Inr out \<and> start_recorded (bk_db ?s1) run out (bk_db s')"
    using go by (auto split: if_splits dest: refused_recorded [OF fresh] checked_recorded [OF fresh])
  moreover have "start_recorded (bk_db ?s1) run out d' \<Longrightarrow> start_recorded (bk_db s) run out d'" for out d'
    by (auto simp: start_recorded_def split: option.splits)
  ultimately show ?thesis using run by blast
qed

lemma hand_accepted:
  assumes "hand_to_agent env job run action req s = (Inr (o', None), s')"
  shows "bk_sent s' = bk_sent s @ [(bj_host job, action, req)]"
  using assms
  by (auto simp: hand_to_agent_def tryP_run bindP_Inr zoomP_run split: sum.splits)

lemma refused_not_accepted: "refused run code e s \<noteq> (Inr (o', None), s')"
  by (auto simp: refused_def tryP_run bindP_Inr)

lemma checked_accepted:
  assumes "start_checked env job run volumes snapshot volume s = (Inr (o', None), s')" and "br_kind run \<noteq> ''restore''"
    and "d_faults (bk_db s) = []"
  shows "\<exists>req. bk_sent s' = bk_sent s @ [(bj_host job, ''backup_run'', req)] \<and> aq_volumes req = volumes \<and> aq_run req = br_id run"
proof -
  obtain st where st: "repo_state (bj_destination job) (bj_host job) (bk_db s) = (st, bk_db s)"
    using reads(5) [OF assms(3)] by (metis prod.collapse)
  obtain c where c: "connected_agent env (bj_host job) (bk_db s) = (c, bk_db s)"
    using reads(6) [OF assms(3)] by (metis prod.collapse)
  obtain dd where dd: "get_backup_destination (bj_destination job) (bk_db s) = (dd, bk_db s)"
    using reads(4) [OF assms(3)] by blast
  have "\<exists>req. hand_to_agent env job run ''backup_run'' req s = (Inr (o', None), s') \<and> aq_volumes req = volumes \<and> aq_run req = br_id run"
    using assms
    by (auto simp: start_checked_def try_read [where m = "get_backup_destination (bj_destination job)", OF dd] try_read [where m = "connected_agent env (bj_host job)", OF c] bind_read [where m = "repo_state (bj_destination job) (bj_host job)", OF st] refused_not_accepted
        split: option.splits sum.splits if_splits prod.splits intro!: exI)
  then show ?thesis using hand_accepted by blast
qed

text \<open>
  C23 start_exclusive.  As long as the database answers and the covered volumes have names, a backup that
  starts takes exactly the volumes its job covers now, at least one, and none of them is covered by a job
  of the same host with a run in progress.  A read that fails is passed over (\<open>overlap_missed\<close>).
\<close>

theorem start_exclusive:
  assumes "d_faults (bk_db s) = []" and "'''' \<notin> set (covered (bk_db s) job)"
    and "start_volume_backup env job trigger actor s = (Inr (out, None), s')"
  shows "(\<exists>req. bk_sent s' = bk_sent s @ [(bj_host job, ''backup_run'', req)] \<and> aq_volumes req = covered (bk_db s) job)
     \<and> covered (bk_db s) job \<noteq> []
     \<and> (\<forall>r\<in>set (d_runs (bk_db s)). \<forall>other. br_status r = ''running'' \<longrightarrow> find_job (bk_db s) (br_job r) = Some other \<longrightarrow>
          bj_host other = bj_host job \<longrightarrow> set (covered (bk_db s) other) \<inter> set (covered (bk_db s) job) = {})"
proof -
  let ?s1 = "s\<lparr>bk_db := (bk_db s)\<lparr>d_drawn := Suc (d_drawn (bk_db s))\<rparr>\<rparr>" and ?vs = "covered (bk_db s) job"
  have f: "d_faults (bk_db ?s1) = []" using assms(1) by simp
  obtain run v where run: "br_kind run = ''backup''" and v: "overlaps_running job ?vs (bk_db ?s1) = (Inr v, bk_db ?s1)"
    and go: "(if ?vs = [] then refused run ''VALIDATION'' (ErrText (empty_selection_message job)) ?s1
       else if v = None \<or> v = Some '''' then start_checked env job run ?vs '''' '''' ?s1
       else refused run ''CONCURRENCY'' (ErrText (''a backup or restore of the volume ''
                    @ quoted (the v) @ '' is already running on this host'')) ?s1) = (Inr (out, None), s')"
    using start_shape [OF assms(1), of job "''backup''" "''''" "''''" env trigger actor "''''"] assms(3)
    unfolding Let_def start_volume_backup_def by auto
  have nonempty: "?vs \<noteq> []" and "v = None \<or> v = Some ''''"
    and chk: "start_checked env job run ?vs '''' '''' ?s1 = (Inr (out, None), s')"
    using go by (auto simp: refused_not_accepted split: if_splits)
  moreover have "v \<noteq> Some ''''" using overlaps_faultless [OF f, of job ?vs] v assms(2) by auto
  ultimately have "v = None" by blast
  then have free: "\<forall>r\<in>set (d_runs (bk_db ?s1)). \<forall>other. br_status r = ''running'' \<longrightarrow> find_job (bk_db ?s1) (br_job r) = Some other \<longrightarrow>
      bj_host other = bj_host job \<longrightarrow> set (covered (bk_db ?s1) other) \<inter> set ?vs = {}"
    using overlaps_faultless [OF f, of job ?vs] v by auto
  have "covered (bk_db ?s1) other = covered (bk_db s) other" "find_job (bk_db ?s1) i = find_job (bk_db s) i" for other i
    by (simp_all add: covered_def listed_volumes_def host_name_of_def find_job_def)
  with free checked_accepted [OF chk _ f] run nonempty show ?thesis by auto
qed

section \<open>A host with one volume and one job\<close>

definition example_job :: backup_job where
  "example_job = \<lparr>bj_id = ''j1'', bj_name = ''nightly'', bj_host = ''h1'', bj_destination = ''d1'', bj_volumes = [''data''],
     bj_stacks = [], bj_label_rules = [], bj_excluded = [], bj_schedule = ''@daily'', bj_mode = ''stop'',
     bj_retention = \<lparr>rp_keep_last = 7, rp_keep_daily = 0, rp_keep_weekly = 0, rp_keep_monthly = 0\<rparr>,
     bj_enabled = True, bj_created = 0\<rparr>"

definition example_env :: backup_env where
  "example_env = \<lparr>be_creds = (\<lambda>_. Inr [(''smb_password'', ''p''), (''repo_password'', ''q'')]), be_connected = (\<lambda>_. True),
     be_start = (\<lambda>_ _ _. Inr (empty_message\<lparr>tm_ok := True\<rparr>)), be_schedule = (\<lambda>_. Inr ())\<rparr>"

definition example_db :: db where
  "example_db = (empty_db 5 (\<lambda>_. ''r1''))
     \<lparr>d_hosts := [\<lparr>h_id = ''h1'', h_name = ''web'', h_status = ''approved'', h_fp = ''f'', h_approved_by = '''', h_last_seen = 0,
        h_address = '''', h_agent_version = ''v9.0.0'', h_next_fp = '''', h_arch = '''', h_approved_at = None, h_created = 0\<rparr>],
      d_destinations := [\<lparr>bd_id = ''d1'', bd_name = ''nas'', bd_type = ''smb'', bd_config = [], bd_created = 0\<rparr>],
      d_jobs := [example_job]\<rparr>"

definition example_state :: backup_state where
  "example_state = \<lparr>bk_db = example_db, bk_sent = [], bk_sched = no_schedules\<rparr>"

lemma one_schedule_per_job_witness:
  "length (entries_of ''j1'' (bk_sched (schedule_after example_env (Changed (Register example_job))
     (fold (schedule_after example_env) [Changed (Register example_job), Fired ''j1'', Changed (Unregister ''j2'')] example_state)))) = 1"
  using one_schedule_per_job [where s = example_state and job = example_job and env = example_env
      and xs = "[Changed (Register example_job), Fired ''j1'', Changed (Unregister ''j2'')]"]
  by (simp add: example_state_def no_schedules_def example_job_def example_env_def is_ok_def)

lemma every_start_recorded_witness:
  "\<exists>run out s'. start_volume_action example_env example_job ''restore'' ''manual'' ''root'' ''abc'' ''data'' ''data2'' example_state
      = (Inr out, s') \<and> br_kind run = ''restore'' \<and> start_recorded example_db run out (bk_db s')"
proof -
  obtain r s' where start: "start_volume_action example_env example_job ''restore'' ''manual'' ''root'' ''abc'' ''data'' ''data2'' example_state = (r, s')"
    by (metis surj_pair)
  from every_start_recorded [OF _ _ start] start show ?thesis
    by (auto simp: example_state_def example_db_def empty_db_def)
qed

lemma start_exclusive_witness:
  "\<exists>out s' req. start_volume_backup example_env example_job ''manual'' ''root'' example_state = (Inr (out, None), s')
     \<and> bk_sent s' = [(''h1'', ''backup_run'', req)] \<and> aq_volumes req = [''data'']"
proof -
  have ok: "case start_volume_backup example_env example_job ''manual'' ''root'' example_state of
      (Inr (out, None), _) \<Rightarrow> True | _ \<Rightarrow> False"
    by code_simp
  then obtain out s' where start: "start_volume_backup example_env example_job ''manual'' ''root'' example_state = (Inr (out, None), s')"
    by (auto split: prod.splits sum.splits option.splits)
  have c: "covered (bk_db example_state) example_job = [''data'']" by code_simp
  from start_exclusive [OF _ _ start] start c show ?thesis
    by (auto simp: example_state_def example_db_def empty_db_def example_job_def)
qed

section \<open>An overlap that goes unseen\<close>

text \<open>
  A second job of the host, with a run in progress.  Its read fails, so the run is skipped and the
  backup starts on the volume in use; with a database that answers, it is refused.
\<close>

definition second_job :: backup_job where
  "second_job = example_job\<lparr>bj_id := ''j2'', bj_name := ''hourly''\<rparr>"

definition busy_host :: "string option list \<Rightarrow> backup_state" where
  "busy_host fs = example_state\<lparr>bk_db := example_db\<lparr>d_faults := fs, d_jobs := [example_job, second_job],
     d_runs := [\<lparr>br_id = ''r0'', br_job = ''j2'', br_kind = ''backup'', br_trigger = ''manual'', br_actor = ''root'',
       br_status = ''running'', br_code = '''', br_message = '''', br_results = [], br_restored = '''', br_started = 4,
       br_finished = None\<rparr>]\<rparr>\<rparr>"

definition requests_sent :: "string option list \<Rightarrow> (string \<times> string) list" where
  "requests_sent fs = map (\<lambda>(h, a, _). (h, a))
     (bk_sent (snd (start_volume_backup example_env example_job ''manual'' ''root'' (busy_host fs))))"

lemma overlap_missed:
  "requests_sent [None, None, Some ''database is locked''] = [(''h1'', ''backup_run'')] \<and> requests_sent [] = []"
  by code_simp

end
