(* ===== verification/Custodian.thy ===== *)
theory Custodian
  imports Store_Schema
begin

text \<open>
  The custodian of keys and credentials, \<^verbatim>\<open>src/internal/keys/keys.go\<close> and \<^verbatim>\<open>secretcreds.go\<close>: its own
  database, with a table per kind of secret.  Generating keys, age and SSH parsing are the fields of
  \<open>crypto\<close>; every statement may fail as in the main database.
\<close>

section \<open>Tables\<close>

record key_row =
  ky_id :: string
  ky_public :: string
  ky_private :: string
  ky_source :: string
  ky_created :: int

record http_row =
  hr_id :: string
  hr_user :: string
  hr_password :: string
  hr_created :: int

record registry_row =
  rg_host :: string
  rg_name :: string
  rg_type :: string
  rg_user :: string
  rg_password :: string
  rg_created :: int

record oidc_config =
  oc_issuer :: string
  oc_client :: string
  oc_secret :: string
  oc_name :: string
  oc_admin_group :: string
  oc_operator_group :: string
  oc_disable_local :: bool

record notification_target =
  nt_kind :: string
  nt_url :: string

record custodian =
  k_now :: int
  k_faults :: "string option list"
  k_drawn :: nat
  k_age :: "key_row list"
  k_ssh :: "key_row list"
  k_conn_ssh :: "key_row list"
  k_conn_http :: "http_row list"
  k_registries :: "registry_row list"
  k_oidc :: "oidc_config option"
  k_notify :: "notification_target option"
  k_creds :: "(string \<times> (string \<times> string) list) list"

definition empty_custodian :: custodian where
  "empty_custodian = \<lparr>k_now = 0, k_faults = [], k_drawn = 0, k_age = [], k_ssh = [], k_conn_ssh = [], k_conn_http = [],
     k_registries = [], k_oidc = None, k_notify = None, k_creds = []\<rparr>"

text \<open>
  The n-th key pair generated (public and private half), or the error; the public half of a private
  key in PEM; encryption to a public key, with the n-th random source; decryption with a private key of
  a plain age file, armored or not, and of a SOPS document.
\<close>

record crypto =
  cy_age_key :: "nat \<Rightarrow> (string \<times> string) result"
  cy_rsa_key :: "nat \<Rightarrow> (string \<times> string) result"
  cy_ssh_public :: "string \<Rightarrow> string result"
  cy_encrypt :: "nat \<Rightarrow> string \<Rightarrow> string \<Rightarrow> string result"
  cy_identity :: "string \<Rightarrow> unit result"
  cy_decrypt :: "string \<Rightarrow> string \<Rightarrow> string result"
  cy_is_sops :: "string \<Rightarrow> bool"
  cy_sops :: "string \<Rightarrow> string \<Rightarrow> string result"

section \<open>Statements\<close>

definition kstmt :: "(custodian \<Rightarrow> 'a result \<times> custodian) \<Rightarrow> (custodian, 'a) prog" where
  "kstmt f c =
     (case k_faults c of
        [] \<Rightarrow> f c
      | Some t # fs \<Rightarrow> (err_text t, c\<lparr>k_faults := fs\<rparr>)
      | None # fs \<Rightarrow> f (c\<lparr>k_faults := fs\<rparr>))"

definition kexec :: "(custodian \<Rightarrow> custodian) \<Rightarrow> (custodian, unit) prog" where
  "kexec f = kstmt (\<lambda>c. (Inr (), f c))"

definition kquery :: "(custodian \<Rightarrow> 'a) \<Rightarrow> (custodian, 'a) prog" where
  "kquery f = kstmt (\<lambda>c. (Inr (f c), c))"

text \<open>\<^verbatim>\<open>QueryRow(...).Scan\<close>: no row is an error; an \<^verbatim>\<open>INSERT\<close> refused by the primary key.\<close>

definition krow :: "string \<Rightarrow> (custodian \<Rightarrow> 'a option) \<Rightarrow> (custodian, 'a) prog" where
  "krow pre f =
     wrapP pre (bindP (kquery f) (\<lambda>r. case r of None \<Rightarrow> failP (ErrText ''sql: no rows in result set'') | Some x \<Rightarrow> okP x))"

definition kinsert :: "string \<Rightarrow> (custodian \<Rightarrow> bool) \<Rightarrow> (custodian \<Rightarrow> custodian) \<Rightarrow> (custodian, unit) prog" where
  "kinsert column clash f =
     kstmt (\<lambda>c. if clash c then (err_text (''constraint failed: UNIQUE constraint failed: '' @ column), c) else (Inr (), f c))"

text \<open>\<^verbatim>\<open>INSERT ... ON CONFLICT DO UPDATE\<close> of every column, for a table with one row per key.\<close>

definition put_row :: "('r \<Rightarrow> string) \<Rightarrow> 'r \<Rightarrow> 'r list \<Rightarrow> 'r list" where
  "put_row key r rows =
     (if list_ex (\<lambda>x. key x = key r) rows then map (\<lambda>x. if key x = key r then r else x) rows else rows @ [r])"

definition kdraw :: "(custodian, nat) prog" where
  "kdraw c = (Inr (k_drawn c), c\<lparr>k_drawn := k_drawn c + 1\<rparr>)"

definition find_key :: "string \<Rightarrow> key_row list \<Rightarrow> key_row option" where
  "find_key i rows = find (\<lambda>r. ky_id r = i) rows"

section \<open>The keys of a stack\<close>

definition generate_keypair :: "crypto \<Rightarrow> string \<Rightarrow> (custodian, string) prog" where
  "generate_keypair cy stack =
     bindP kdraw (\<lambda>n.
     bindP (wrapP ''generate age identity: '' (liftP (cy_age_key cy n))) (\<lambda>(pub, priv).
     bindP (wrapP ''store generated key: '' (kinsert ''age_keys.stack_id'' (\<lambda>c. find_key stack (k_age c) \<noteq> None)
       (\<lambda>c. c\<lparr>k_age := k_age c @ [\<lparr>ky_id = stack, ky_public = pub, ky_private = priv, ky_source = ''generated'',
          ky_created = k_now c\<rparr>]\<rparr>))) (\<lambda>_.
     okP pub)))"

definition public_key :: "string \<Rightarrow> (custodian, string) prog" where
  "public_key stack = krow ''lookup public key: '' (\<lambda>c. map_option ky_public (find_key stack (k_age c)))"

text \<open>The errors of parsing the recipient and of the writer are those of \<open>cy_encrypt\<close>.\<close>

definition encrypt :: "crypto \<Rightarrow> string \<Rightarrow> string \<Rightarrow> (custodian, string) prog" where
  "encrypt cy stack plaintext =
     bindP (public_key stack) (\<lambda>pub.
     bindP kdraw (\<lambda>n. liftP (cy_encrypt cy n pub plaintext)))"

definition looks_crlf_mangled :: "string \<Rightarrow> bool" where
  "looks_crlf_mangled ciphertext \<longleftrightarrow> CHR 0x0D \<in> set (take 256 ciphertext)"

definition crlf_advice :: string where
  "crlf_advice = ''decrypt: ciphertext has Windows-style line endings (CRLF), which corrupts age's binary format -- '' @
     ''mark this file as binary (e.g. a .gitattributes line like '' @ quoted ''secrets.enc.yaml -text'' @
     '') and re-encrypt/re-commit it; original error: ''"

definition decrypt_with :: "crypto \<Rightarrow> string \<Rightarrow> string \<Rightarrow> string result" where
  "decrypt_with cy priv ciphertext =
     bind_res (wrap_res ''parse private key: '' (cy_identity cy priv)) (\<lambda>_.
       if cy_is_sops cy ciphertext then cy_sops cy priv ciphertext
       else case cy_decrypt cy priv ciphertext of
           Inl e \<Rightarrow> Inl (ErrWrap (if looks_crlf_mangled ciphertext then crlf_advice else ''decrypt: '') e)
         | Inr p \<Rightarrow> Inr p)"

definition decrypt :: "crypto \<Rightarrow> string \<Rightarrow> string \<Rightarrow> (custodian, string) prog" where
  "decrypt cy stack ciphertext =
     bindP (krow ''lookup private key: '' (\<lambda>c. map_option ky_private (find_key stack (k_age c)))) (\<lambda>priv.
       liftP (decrypt_with cy priv ciphertext))"

definition delete_stack_keys :: "string \<Rightarrow> (custodian, unit) prog" where
  "delete_stack_keys stack =
     bindP (wrapP (''delete age key for stack '' @ quoted stack @ '': '')
       (kexec (\<lambda>c. c\<lparr>k_age := delete_where (\<lambda>r. ky_id r = stack) (k_age c)\<rparr>))) (\<lambda>_.
     wrapP (''delete ssh key for stack '' @ quoted stack @ '': '')
       (kexec (\<lambda>c. c\<lparr>k_ssh := delete_where (\<lambda>r. ky_id r = stack) (k_ssh c)\<rparr>)))"

definition generate_ssh_keypair :: "crypto \<Rightarrow> string \<Rightarrow> (custodian, string) prog" where
  "generate_ssh_keypair cy stack =
     bindP kdraw (\<lambda>n.
     bindP (wrapP ''generate rsa key: '' (liftP (cy_rsa_key cy n))) (\<lambda>(pub, priv).
     bindP (wrapP ''store generated ssh key: '' (kinsert ''ssh_keys.stack_id'' (\<lambda>c. find_key stack (k_ssh c) \<noteq> None)
       (\<lambda>c. c\<lparr>k_ssh := k_ssh c @ [\<lparr>ky_id = stack, ky_public = pub, ky_private = priv, ky_source = ''generated'',
          ky_created = k_now c\<rparr>]\<rparr>))) (\<lambda>_.
     okP pub)))"

definition ssh_private_key :: "string \<Rightarrow> (custodian, string) prog" where
  "ssh_private_key stack = krow ''lookup ssh private key: '' (\<lambda>c. map_option ky_private (find_key stack (k_ssh c)))"

section \<open>The keys of a shared connection\<close>

definition put_connection_key :: "string \<Rightarrow> string \<Rightarrow> string \<Rightarrow> string \<Rightarrow> (custodian, unit) prog" where
  "put_connection_key conn pub priv source =
     kexec (\<lambda>c. c\<lparr>k_conn_ssh := put_row ky_id \<lparr>ky_id = conn, ky_public = pub, ky_private = priv, ky_source = source,
       ky_created = k_now c\<rparr> (k_conn_ssh c)\<rparr>)"

definition generate_connection_ssh_keypair :: "crypto \<Rightarrow> string \<Rightarrow> (custodian, string) prog" where
  "generate_connection_ssh_keypair cy conn =
     bindP kdraw (\<lambda>n.
     bindP (wrapP ''generate rsa key: '' (liftP (cy_rsa_key cy n))) (\<lambda>(pub, priv).
     bindP (wrapP ''store generated connection ssh key: '' (put_connection_key conn pub priv ''generated'')) (\<lambda>_.
     okP pub)))"

definition import_connection_ssh_key :: "crypto \<Rightarrow> string \<Rightarrow> string \<Rightarrow> (custodian, string) prog" where
  "import_connection_ssh_key cy conn pem =
     bindP (wrapP ''parse private key: '' (liftP (cy_ssh_public cy pem))) (\<lambda>pub.
     bindP (wrapP ''store imported connection ssh key: '' (put_connection_key conn pub pem ''imported'')) (\<lambda>_.
     okP pub))"

definition import_connection_http_credential :: "string \<Rightarrow> string \<Rightarrow> string \<Rightarrow> (custodian, unit) prog" where
  "import_connection_http_credential conn user password =
     wrapP ''store connection http credential: ''
       (kexec (\<lambda>c. c\<lparr>k_conn_http := put_row hr_id
          \<lparr>hr_id = conn, hr_user = user, hr_password = password, hr_created = k_now c\<rparr> (k_conn_http c)\<rparr>))"

definition connection_ssh_public_key :: "string \<Rightarrow> (custodian, string) prog" where
  "connection_ssh_public_key conn =
     krow ''lookup connection public key: '' (\<lambda>c. map_option ky_public (find_key conn (k_conn_ssh c)))"

definition connection_ssh_private_key :: "string \<Rightarrow> (custodian, string) prog" where
  "connection_ssh_private_key conn =
     krow ''lookup connection ssh private key: '' (\<lambda>c. map_option ky_private (find_key conn (k_conn_ssh c)))"

definition connection_http_credential :: "string \<Rightarrow> (custodian, string \<times> string) prog" where
  "connection_http_credential conn =
     krow ''lookup connection http credential: ''
       (\<lambda>c. map_option (\<lambda>r. (hr_user r, hr_password r)) (find (\<lambda>r. hr_id r = conn) (k_conn_http c)))"

definition delete_connection_keys :: "string \<Rightarrow> (custodian, unit) prog" where
  "delete_connection_keys conn =
     bindP (wrapP (''delete ssh key for connection '' @ quoted conn @ '': '')
       (kexec (\<lambda>c. c\<lparr>k_conn_ssh := delete_where (\<lambda>r. ky_id r = conn) (k_conn_ssh c)\<rparr>))) (\<lambda>_.
     wrapP (''delete http credential for connection '' @ quoted conn @ '': '')
       (kexec (\<lambda>c. c\<lparr>k_conn_http := delete_where (\<lambda>r. hr_id r = conn) (k_conn_http c)\<rparr>)))"

definition count_imported_keys :: "(custodian, nat) prog" where
  "count_imported_keys =
     wrapP ''count imported keys: '' (kquery (\<lambda>c.
       count_where (\<lambda>r. ky_source r = ''imported'') (k_age c) + count_where (\<lambda>r. ky_source r = ''imported'') (k_ssh c)
       + count_where (\<lambda>r. ky_source r = ''imported'') (k_conn_ssh c)))"

section \<open>Credentials of registries\<close>

definition set_registry_credential :: "string \<Rightarrow> string \<Rightarrow> string \<Rightarrow> string \<Rightarrow> string \<Rightarrow> (custodian, unit) prog" where
  "set_registry_credential name host reg_type user password =
     wrapP (''set registry credential for '' @ quoted host @ '': '')
       (kexec (\<lambda>c. c\<lparr>k_registries := put_row rg_host
          \<lparr>rg_host = host, rg_name = name, rg_type = reg_type, rg_user = user, rg_password = password,
           rg_created = k_now c\<rparr> (k_registries c)\<rparr>))"

definition registry_credential :: "string \<Rightarrow> (custodian, (string \<times> string) option) prog" where
  "registry_credential host =
     wrapP (''lookup registry credential for '' @ quoted host @ '': '')
       (kquery (\<lambda>c. map_option (\<lambda>r. (rg_user r, rg_password r)) (find (\<lambda>r. rg_host r = host) (k_registries c))))"

text \<open>Name, host, type and user, by name and host; the password is not read.\<close>

definition list_registries :: "(custodian, (string \<times> string \<times> string \<times> string) list) prog" where
  "list_registries =
     wrapP ''list registry credentials: ''
       (kquery (\<lambda>c. map (\<lambda>r. (rg_name r, rg_host r, rg_type r, rg_user r))
          (sort_key rg_name (sort_key rg_host (k_registries c)))))"

definition all_registry_credentials :: "(custodian, (string \<times> string \<times> string) list) prog" where
  "all_registry_credentials =
     wrapP ''list all registry credentials: ''
       (kquery (\<lambda>c. map (\<lambda>r. (rg_host r, rg_user r, rg_password r)) (k_registries c)))"

definition delete_registry_credential :: "string \<Rightarrow> (custodian, unit) prog" where
  "delete_registry_credential host =
     wrapP (''delete registry credential for '' @ quoted host @ '': '')
       (kexec (\<lambda>c. c\<lparr>k_registries := delete_where (\<lambda>r. rg_host r = host) (k_registries c)\<rparr>))"

section \<open>Single sign-on and notifications\<close>

definition set_oidc_config :: "oidc_config \<Rightarrow> (custodian, unit) prog" where
  "set_oidc_config cfg =
     wrapP ''set oidc config: ''
       (kexec (\<lambda>c. c\<lparr>k_oidc := Some (cfg\<lparr>oc_name := if oc_name cfg = '''' then ''SSO'' else oc_name cfg\<rparr>)\<rparr>))"

definition get_oidc_config :: "(custodian, oidc_config option) prog" where
  "get_oidc_config = wrapP ''get oidc config: '' (kquery k_oidc)"

definition delete_oidc_config :: "(custodian, unit) prog" where
  "delete_oidc_config = wrapP ''delete oidc config: '' (kexec (\<lambda>c. c\<lparr>k_oidc := None\<rparr>))"

definition set_notification_target :: "string \<Rightarrow> string \<Rightarrow> (custodian, unit) prog" where
  "set_notification_target kind url =
     wrapP ''set notification target: '' (kexec (\<lambda>c. c\<lparr>k_notify := Some \<lparr>nt_kind = kind, nt_url = url\<rparr>\<rparr>))"

definition get_notification_target :: "(custodian, notification_target option) prog" where
  "get_notification_target = wrapP ''get notification target: '' (kquery k_notify)"

definition delete_notification_target :: "(custodian, unit) prog" where
  "delete_notification_target = wrapP ''delete notification target: '' (kexec (\<lambda>c. c\<lparr>k_notify := None\<rparr>))"

section \<open>Credentials of secret connections\<close>

text \<open>The JSON column is kept decoded.\<close>

definition delete_secret_credentials :: "string \<Rightarrow> (custodian, unit) prog" where
  "delete_secret_credentials conn =
     wrapP ''delete secret connection credentials: '' (kexec (\<lambda>c. c\<lparr>k_creds := del_assoc conn (k_creds c)\<rparr>))"

definition set_secret_credentials :: "string \<Rightarrow> (string \<times> string) list \<Rightarrow> (custodian, unit) prog" where
  "set_secret_credentials conn creds =
     (if creds = [] then delete_secret_credentials conn
      else wrapP ''store secret connection credentials: '' (kexec (\<lambda>c. c\<lparr>k_creds := put_assoc conn creds (k_creds c)\<rparr>)))"

definition secret_credentials :: "string \<Rightarrow> (custodian, (string \<times> string) list) prog" where
  "secret_credentials conn =
     wrapP ''load secret connection credentials: ''
       (kquery (\<lambda>c. case map_of (k_creds c) conn of None \<Rightarrow> [] | Some m \<Rightarrow> m))"

definition secret_credential_fields :: "string \<Rightarrow> (custodian, string list) prog" where
  "secret_credential_fields conn =
     bindP (secret_credentials conn) (\<lambda>creds. okP (sort (map fst (filter (\<lambda>p. snd p \<noteq> '''') creds))))"

end
