(* ===== verification/App.thy ===== *)
theory App
  imports Auth Custodian Scheduler Agent_Commands
begin

text \<open>
  What the pages work on: the main database, the custodian and the schedules of the polled stacks, with
  the answers most handlers give.  The custodian gives the agent channel the lookups of \<open>keyring\<close>.
\<close>

section \<open>State\<close>

record app_state =
  ap_db :: db
  ap_keys :: custodian
  ap_polls :: scheduler

abbreviation on_store :: "(db, 'a) prog \<Rightarrow> (app_state, 'a) prog" where
  "on_store \<equiv> zoomP ap_db (\<lambda>d s. s\<lparr>ap_db := d\<rparr>)"

abbreviation on_keys :: "(custodian, 'a) prog \<Rightarrow> (app_state, 'a) prog" where
  "on_keys \<equiv> zoomP ap_keys (\<lambda>c s. s\<lparr>ap_keys := c\<rparr>)"

abbreviation on_polls :: "(scheduler, 'a) prog \<Rightarrow> (app_state, 'a) prog" where
  "on_polls \<equiv> zoomP ap_polls (\<lambda>c s. s\<lparr>ap_polls := c\<rparr>)"

section \<open>Answers\<close>

definition not_found :: "('s, reply) prog" where
  "not_found = http_error 404 ''404 page not found''"

definition http_fail :: "nat \<Rightarrow> gerr \<Rightarrow> ('s, reply) prog" where
  "http_fail code e = http_error code (error_text e)"

definition page :: "string \<Rightarrow> ('s, reply) prog" where
  "page template = answer (Page template '''')"

text \<open>\<^verbatim>\<open>a.audit(r, ...)\<close> and then a redirect.\<close>

definition audited :: "web_context option \<Rightarrow> string \<Rightarrow> string \<Rightarrow> string \<Rightarrow> (app_state, reply) prog \<Rightarrow> (app_state, reply) prog" where
  "audited c action target detail nxt = bindP (on_store (audit c action target detail)) (\<lambda>_. nxt)"

section \<open>Ids from names\<close>

definition slug_char :: "char \<Rightarrow> bool" where
  "slug_char c \<longleftrightarrow> is_lower c \<or> is_digit c \<or> c = CHR ''-''"

definition trim_char :: "char \<Rightarrow> string \<Rightarrow> string" where
  "trim_char c s = rev (dropWhile (\<lambda>x. x = c) (rev (dropWhile (\<lambda>x. x = c) s)))"

definition slugify :: "string \<Rightarrow> string" where
  "slugify name =
     trim_char CHR ''-'' (filter slug_char (replace_all '' '' ''-'' (to_lower (trim_space name))))"

section \<open>The custodian as the keyring of the agent channel\<close>

definition keyring_of :: "crypto \<Rightarrow> custodian \<Rightarrow> keyring" where
  "keyring_of cy k =
     \<lparr>kr_registries = fst (all_registry_credentials k),
      kr_ssh = (\<lambda>stack. fst (ssh_private_key stack k)),
      kr_conn_ssh = (\<lambda>conn. fst (connection_ssh_private_key conn k)),
      kr_conn_http = (\<lambda>conn. fst (connection_http_credential conn k)),
      kr_decrypt = (\<lambda>stack c. fst (decrypt cy stack c k)),
      kr_secret_creds = (\<lambda>conn. fst (secret_credentials conn k))\<rparr>"

end
