(* ===== verification/Polling.thy ===== *)
theory Polling
  imports App
begin

text \<open>
  The polling of Git branches, \<^verbatim>\<open>src/poller.go\<close>: the schedules of the polled stacks and what a poll
  does.  \<open>git\<close> is what \<^verbatim>\<open>git ls-remote\<close> prints for a credential, a repository and a branch, with the
  temporary key file it is given; \<open>cron\<close> accepts a schedule or not.
\<close>

section \<open>Schedules\<close>

definition register_polling :: "(string \<Rightarrow> unit result) \<Rightarrow> stack \<Rightarrow> (scheduler, unit) prog" where
  "register_polling cron st =
     bindP (modP (cron_remove (st_id st))) (\<lambda>_.
       case cron (st_schedule st) of
         Inl e \<Rightarrow> failP (ErrWrap (''register polling schedule '' @ quoted (st_schedule st) @ '' for stack ''
                   @ quoted (st_id st) @ '': '') e)
       | Inr _ \<Rightarrow> modP (cron_add (st_id st)))"

definition unregister_polling :: "string \<Rightarrow> scheduler \<Rightarrow> scheduler" where
  "unregister_polling i s = forget i s"

interpretation polls: schedule_registry "register_polling cron" unregister_polling st_id "\<lambda>st. is_ok (cron (st_schedule st))" for cron
proof
  show "keeps schedule_inv (register_polling cron j)" for j
    using inv_replace(2) inv_remove by (auto simp: keeps_def register_polling_def bindP_def tryP_def split: sum.split)
  show "length (entries_of (st_id j) (snd (register_polling cron j s))) = (if is_ok (cron (st_schedule j)) then 1 else 0)"
    if "schedule_inv s" for j s
    using entries_gone [of "st_id j" "cron_remove (st_id j) s"] removed [OF that, of "st_id j"]
    by (cases "cron (st_schedule j)") (auto simp: register_polling_def bindP_def tryP_def entries_add)
  show "entries_of i (unregister_polling i s) = []" if "schedule_inv s" for i s
    using entries_gone [of i "forget i s"] removed [OF that, of i] by (simp add: unregister_polling_def)
qed (simp add: unregister_polling_def inv_forget)

lemma keeps_case_list [keeps_intros]:
  "keeps I m \<Longrightarrow> (\<And>x xs. keeps I (f x xs)) \<Longrightarrow> keeps I (case v of [] \<Rightarrow> m | x # xs \<Rightarrow> f x xs)"
  by (cases v) simp_all

section \<open>A poll\<close>

text \<open>The first field of what Git prints, which is ASCII up to it.\<close>

definition ls_remote_sha :: "keyring \<Rightarrow> (git_auth \<Rightarrow> string \<Rightarrow> string \<Rightarrow> string result) \<Rightarrow> stack \<Rightarrow> (db, string) prog" where
  "ls_remote_sha kr git st =
     bindP (wrapP ''resolve credential: '' (resolve_git_auth kr st)) (\<lambda>g.
     bindP (liftP (git g (st_repo st) (st_branch st))) (\<lambda>out.
       case fields_by (\<lambda>c. [c] \<in> set space_seqs) out of
         [] \<Rightarrow> failP (ErrText (''branch '' @ quoted (st_branch st) @ '' not found at '' @ st_repo st))
       | sha # _ \<Rightarrow> okP sha))"

definition queue_polled_deploy :: "stack \<Rightarrow> string \<Rightarrow> (db, unit) prog" where
  "queue_polled_deploy st sha =
     tryP (enqueue_deployment (st_id st) (st_host st) ''polling'' ''up'') (\<lambda>_. okP ()) (\<lambda>_.
       audit_system ''polling'' ''stack.deploy_polling'' (st_name st) (''commit '' @ take 7 sha))"

definition poll_stack :: "keyring \<Rightarrow> (git_auth \<Rightarrow> string \<Rightarrow> string \<Rightarrow> string result) \<Rightarrow> string \<Rightarrow> (db, unit) prog" where
  "poll_stack kr git i =
     tryP (get_stack i) (\<lambda>_. okP ()) (\<lambda>st.
     tryP (ls_remote_sha kr git st) (\<lambda>_. okP ()) (\<lambda>sha.
       let first_poll = (st_last_sha st = ''''); changed = (sha \<noteq> st_last_sha st) in
       tryP (record_poll (st_id st) sha) (\<lambda>_. okP ()) (\<lambda>_.
         if \<not> changed \<or> first_poll then okP () else queue_polled_deploy st sha)))"

end
