(* ===== verification/Stack_Pages.thy ===== *)
theory Stack_Pages
  imports Polling
begin

text \<open>
  The pages and actions of stacks, \<^verbatim>\<open>src/stacks.go\<close>: creation, editing with its history, triggers, the
  web hook, deployment, teardown and deletion.  The id in the path is an argument; \<open>hmac\<close> is the
  hexadecimal HMAC-SHA256 of a body under a secret.
\<close>

section \<open>Forms\<close>

definition stack_page :: "string \<Rightarrow> string" where
  "stack_page i = ''/stacks/'' @ i"

definition new_stack_form_handler :: "app_state handler" where
  "new_stack_form_handler c rq =
     tryP (on_store list_hosts) (http_fail 500) (\<lambda>_.
     tryP (on_store list_git_connections) (http_fail 500) (\<lambda>_. page ''stack_form.html''))"

text \<open>A handler that loads the stack first, a missing one being a 404.\<close>

definition with_stack :: "string \<Rightarrow> (stack \<Rightarrow> (app_state, reply) prog) \<Rightarrow> (app_state, reply) prog" where
  "with_stack i f = tryP (on_store (get_stack i)) (\<lambda>_. not_found) f"

definition edit_stack_form_handler :: "string \<Rightarrow> app_state handler" where
  "edit_stack_form_handler i c rq =
     with_stack i (\<lambda>st.
       if st_source st \<noteq> ''local''
       then http_error 400 (''only local stacks can be edited here '' @ em_dash @ '' a Git stack's compose file lives in its repo'')
       else page ''stack_edit.html'')"

section \<open>Editing\<close>

text \<open>The old content becomes a revision before it is overwritten.\<close>

definition replace_compose :: "string \<Rightarrow> stack \<Rightarrow> string \<Rightarrow> (app_state, reply) prog \<Rightarrow> (app_state, reply) prog" where
  "replace_compose i st compose nxt =
     tryP (on_store (record_stack_revision i (st_compose st))) (http_fail 500) (\<lambda>_.
     tryP (on_store (update_stack_compose i compose)) (http_fail 500) (\<lambda>_. nxt))"

definition update_stack_handler :: "string \<Rightarrow> app_state handler" where
  "update_stack_handler i c rq =
     with_stack i (\<lambda>st.
       if st_source st \<noteq> ''local'' then http_error 400 ''only local stacks can be edited here''
       else replace_compose i st (form_value rq ''compose_content'')
         (audited c ''stack.compose_update'' (st_name st) ''''
           (redirect_with_saved_message (stack_page i) ''Compose file saved'')))"

definition restore_stack_revision_handler :: "string \<Rightarrow> string \<Rightarrow> app_state handler" where
  "restore_stack_revision_handler i revision c rq =
     (case atoi revision of
        None \<Rightarrow> http_error 400 ''invalid revision id''
      | Some n \<Rightarrow>
        with_stack i (\<lambda>st.
          if st_source st \<noteq> ''local'' then http_error 400 ''only local stacks have revision history''
          else tryP (on_store (get_stack_revision i (nat n))) (\<lambda>_. not_found) (\<lambda>rev.
            replace_compose i st (sr_compose rev)
              (audited c ''stack.revision_restore'' (st_name st) (''revision '' @ show_int n)
                (redirect_with_saved_message (stack_page i) ''Revision restored'')))))"

text \<open>Values go in encrypted, and none comes out.\<close>

definition update_stack_secret_handler :: "crypto \<Rightarrow> string \<Rightarrow> app_state handler" where
  "update_stack_secret_handler cy i c rq =
     with_stack i (\<lambda>st.
       if st_source st \<noteq> ''local'' then http_error 400 ''only local stacks can have secrets managed here''
       else if form_value rq ''action'' = ''clear''
       then tryP (on_store (update_stack_secret i '''')) (http_fail 500) (\<lambda>_.
         audited c ''stack.secrets_clear'' (st_name st) '''' (redirect_with_saved (stack_page i)))
       else (let secrets = form_value rq ''secrets'' in
         if trim_space secrets = ''''
         then http_error 400 (''no secrets entered '' @ em_dash @ '' use '' @ quoted ''Remove all secrets'' @ '' if that's what you meant'')
         else tryP (on_keys (encrypt cy i secrets))
           (\<lambda>e. http_error 500 (''could not encrypt secrets: '' @ error_text e)) (\<lambda>ciphertext.
           tryP (on_store (update_stack_secret i ciphertext)) (http_fail 500) (\<lambda>_.
             audited c ''stack.secrets_update'' (st_name st) '''' (redirect_with_saved (stack_page i))))))"

definition rename_stack_handler :: "string \<Rightarrow> app_state handler" where
  "rename_stack_handler i c rq =
     (let name = trim_space (form_value rq ''name'') in
      if name = '''' then redirect_with_error (stack_page i) ''name can't be empty''
      else tryP (on_store (rename_stack i name)) (\<lambda>e. redirect_with_error (stack_page i) (error_text e)) (\<lambda>_.
        audited c ''stack.rename'' i name (redirect_with_saved (stack_page i))))"

section \<open>Creation\<close>

text \<open>The fields of the form that need no key.\<close>

definition form_stack :: "request \<Rightarrow> string \<Rightarrow> string \<Rightarrow> string \<Rightarrow> string \<Rightarrow> string \<Rightarrow> stack" where
  "form_stack rq i name source trigger schedule =
     \<lparr>st_id = i, st_name = name, st_source = source, st_repo = form_value rq ''repo'',
      st_branch = form_value rq ''branch'', st_compose_path = form_value rq ''compose_path'',
      st_compose = (if source = ''local'' then form_value rq ''compose_content'' else ''''), st_secret = '''',
      st_host = form_value rq ''host'', st_trigger = trigger, st_pubkey = '''', st_ssh_pubkey = '''',
      st_connection = '''', st_webhook_secret = '''', st_schedule = schedule, st_last_sha = '''',
      st_last_polled = None, st_subst_keys = ''''\<rparr>"

text \<open>
  What the stack authenticates with, or its encrypted secrets: \<open>Inl\<close> is the answer of a failure.
\<close>

definition stack_credentials :: "crypto \<Rightarrow> request \<Rightarrow> stack \<Rightarrow> (app_state, reply + stack) prog" where
  "stack_credentials cy rq st =
     (if st_source st = ''local'' then
        (let secrets = form_value rq ''secrets'' in
         if secrets = '''' then okP (Inr st)
         else tryP (on_keys (encrypt cy (st_id st) secrets))
           (\<lambda>e. bindP (http_error 500 (''could not encrypt secrets: '' @ error_text e)) (\<lambda>a. okP (Inl a)))
           (\<lambda>ciphertext. okP (Inr (st\<lparr>st_secret := ciphertext\<rparr>))))
      else if form_value rq ''git_connection_id'' \<noteq> '''' then
        tryP (on_store (get_git_connection (form_value rq ''git_connection_id'')))
          (\<lambda>e. bindP (http_error 400 (''unknown git connection: '' @ error_text e)) (\<lambda>a. okP (Inl a)))
          (\<lambda>_. okP (Inr (st\<lparr>st_connection := form_value rq ''git_connection_id''\<rparr>)))
      else
        tryP (on_keys (generate_ssh_keypair cy (st_id st)))
          (\<lambda>e. bindP (http_error 500 (''could not generate deploy key: '' @ error_text e)) (\<lambda>a. okP (Inl a)))
          (\<lambda>pub. okP (Inr (st\<lparr>st_ssh_pubkey := pub\<rparr>))))"

text \<open>The last steps: the row, the schedule, the audit entry.\<close>

definition store_stack :: "(string \<Rightarrow> unit result) \<Rightarrow> web_context option \<Rightarrow> stack \<Rightarrow> (app_state, reply) prog" where
  "store_stack cron c st =
     tryP (on_store (create_stack st))
       (\<lambda>e. http_error 409 (''could not create stack (name already taken?): '' @ error_text e)) (\<lambda>_.
     bindP (if st_trigger st = ''polling'' then ignoreP (on_polls (register_polling cron st)) else okP ()) (\<lambda>_.
       audited c ''stack.create'' (st_name st) (st_source st @ '' stack, trigger '' @ st_trigger st)
         (answer (SeeOther (stack_page (st_id st))))))"

definition create_stack_handler :: "crypto \<Rightarrow> (string \<Rightarrow> unit result) \<Rightarrow> app_state handler" where
  "create_stack_handler cy cron c rq =
     (case rq_form rq of
        Inl e \<Rightarrow> http_error 400 (''invalid form: '' @ error_text e)
      | Inr _ \<Rightarrow>
        let name = trim_space (form_value rq ''name''); i = slugify name;
            source = (if form_value rq ''source'' = ''local'' then ''local'' else ''git'');
            t = form_value rq ''trigger'';
            trigger = (if t \<noteq> ''webhook'' \<and> t \<noteq> ''polling'' then ''manual'' else t);
            schedule = (if trigger = ''polling'' then trim_space (form_value rq ''poll_schedule'') else '''') in
        if i = '''' then http_error 400 ''missing or invalid stack name''
        else (case (if trigger = ''polling'' then cron schedule else Inr ()) of
            Inl e \<Rightarrow> http_error 400 (''invalid cron schedule: '' @ error_text e)
          | Inr _ \<Rightarrow>
            let st = form_stack rq i name source trigger schedule in
            bindP (if source = ''git'' then on_store draw else okP '''') (\<lambda>secret.
            tryP (on_keys (generate_keypair cy i)) (\<lambda>e. http_error 500 (''could not generate key: '' @ error_text e)) (\<lambda>pub.
            bindP (stack_credentials cy rq (st\<lparr>st_webhook_secret := secret, st_pubkey := pub\<rparr>)) (\<lambda>r.
              case r of Inl a \<Rightarrow> okP a | Inr st \<Rightarrow> store_stack cron c st)))))"

section \<open>Triggers\<close>

definition set_poll_schedule_handler :: "(string \<Rightarrow> unit result) \<Rightarrow> string \<Rightarrow> app_state handler" where
  "set_poll_schedule_handler cron i c rq =
     with_stack i (\<lambda>st.
       if st_trigger st \<noteq> ''polling'' then http_error 400 ''this stack is not in polling mode''
       else (let schedule = trim_space (form_value rq ''poll_schedule'') in
         case cron schedule of
           Inl e \<Rightarrow> http_error 400 (''invalid cron schedule: '' @ error_text e)
         | Inr _ \<Rightarrow>
           tryP (on_store (set_poll_schedule i schedule)) (http_fail 500) (\<lambda>_.
           tryP (on_polls (register_polling cron (st\<lparr>st_schedule := schedule\<rparr>)))
             (\<lambda>e. http_error 500 (''schedule saved but could not be applied: '' @ error_text e)) (\<lambda>_.
             audited c ''stack.poll_schedule_change'' (st_name st) schedule (redirect_with_saved (stack_page i))))))"

definition default_poll_schedule :: string where
  "default_poll_schedule = ''*/15 * * * *''"

text \<open>What is kept of the former mode, and generated when there is nothing to keep.\<close>

definition kept_secret :: "string \<Rightarrow> string \<Rightarrow> (app_state, string) prog" where
  "kept_secret trigger secret = (if trigger = ''webhook'' \<and> secret = '''' then on_store draw else okP secret)"

definition set_stack_trigger_handler :: "(string \<Rightarrow> unit result) \<Rightarrow> string \<Rightarrow> app_state handler" where
  "set_stack_trigger_handler cron i c rq =
     with_stack i (\<lambda>st.
       let trigger = form_value rq ''trigger'' in
       if st_source st \<noteq> ''git''
       then redirect_with_error (stack_page i) ''only Git stacks can use a webhook or polling trigger''
       else if trigger \<noteq> ''manual'' \<and> trigger \<noteq> ''webhook'' \<and> trigger \<noteq> ''polling''
       then redirect_with_error (stack_page i) ''invalid trigger''
       else
         (let schedule = (if trigger = ''polling'' \<and> st_schedule st = '''' then default_poll_schedule else st_schedule st) in
          bindP (kept_secret trigger (st_webhook_secret st)) (\<lambda>secret.
          tryP (on_store (update_stack_trigger i trigger schedule secret)) (http_fail 500) (\<lambda>_.
            let done = audited c ''stack.trigger_change'' (st_name st) trigger (redirect_with_saved (stack_page i)) in
            if trigger = ''polling''
            then tryP (on_polls (register_polling cron (st\<lparr>st_trigger := trigger, st_schedule := schedule\<rparr>)))
              (\<lambda>e. http_error 500 (''trigger saved but could not be scheduled: '' @ error_text e)) (\<lambda>_. done)
            else bindP (on_polls (modP (unregister_polling i))) (\<lambda>_. done)))))"

definition force_poll_handler :: "crypto \<Rightarrow> (git_auth \<Rightarrow> string \<Rightarrow> string \<Rightarrow> string result) \<Rightarrow> string \<Rightarrow> app_state handler" where
  "force_poll_handler cy git i c rq =
     with_stack i (\<lambda>st.
       if st_trigger st \<noteq> ''polling'' then http_error 400 ''this stack is not in polling mode''
       else bindP (getP ap_keys) (\<lambda>k.
         bindP (on_store (poll_stack (keyring_of cy k) git i)) (\<lambda>_.
         audited c ''stack.poll_now'' (st_name st) '''' (redirect_with_saved_message (stack_page i) ''Poll triggered''))))"

section \<open>The web hook\<close>

text \<open>The three headers a sender may authenticate with, empty when absent, and the body or its error.\<close>

record hook_request =
  hk_hub :: string
  hk_gitlab :: string
  hk_secret :: string
  hk_body :: "string result"

definition verify_webhook_auth :: "(string \<Rightarrow> string \<Rightarrow> string) \<Rightarrow> hook_request \<Rightarrow> string \<Rightarrow> string \<Rightarrow> bool" where
  "verify_webhook_auth hmac hk body secret \<longleftrightarrow>
     (if hk_hub hk \<noteq> '''' then hk_hub hk = ''sha256='' @ hmac secret body
      else if hk_gitlab hk \<noteq> '''' then hk_gitlab hk = secret
      else if hk_secret hk \<noteq> '''' then hk_secret hk = secret
      else False)"

definition hooks_handler :: "(string \<Rightarrow> string \<Rightarrow> string) \<Rightarrow> string \<Rightarrow> hook_request \<Rightarrow> (app_state, reply) prog" where
  "hooks_handler hmac i hk =
     with_stack i (\<lambda>st.
       if st_trigger st \<noteq> ''webhook'' \<or> st_webhook_secret st = ''''
       then http_error 404 ''webhook not enabled for this stack''
       else (case hk_body hk of
           Inl e \<Rightarrow> http_error 400 (''could not read body: '' @ error_text e)
         | Inr body \<Rightarrow>
           if \<not> verify_webhook_auth hmac hk body (st_webhook_secret st) then http_error 401 ''invalid or missing signature''
           else if st_host st = '''' then http_error 400 ''this stack has no target host assigned''
           else tryP (on_store (enqueue_deployment (st_id st) (st_host st) ''webhook'' ''up'')) (http_fail 500) (\<lambda>_.
             bindP (on_store (audit_system ''webhook'' ''stack.deploy_webhook'' (st_name st) '''')) (\<lambda>_.
               answer (NoBody 204)))))"

section \<open>Deployment, teardown, deletion\<close>

definition deploy_stack_handler :: "string \<Rightarrow> app_state handler" where
  "deploy_stack_handler i c rq =
     with_stack i (\<lambda>st.
       if st_host st = '''' then http_error 400 ''this stack has no target host assigned''
       else tryP (on_store (enqueue_deployment (st_id st) (st_host st) ''manual'' ''up'')) (http_fail 500) (\<lambda>_.
         audited c ''stack.deploy'' (st_name st) '''' (redirect_with_saved_message (stack_page i) ''Deployment queued'')))"

definition undeploy_stack_handler :: "string \<Rightarrow> app_state handler" where
  "undeploy_stack_handler i c rq =
     with_stack i (\<lambda>st.
       if st_host st = '''' then redirect_with_error (stack_page i) ''this stack has no target host assigned''
       else tryP (on_store (enqueue_deployment (st_id st) (st_host st) ''manual'' ''down'')) (http_fail 500) (\<lambda>_.
         audited c ''stack.undeploy'' (st_name st) '''' (redirect_with_saved_message (stack_page i) ''Undeploy queued'')))"

text \<open>Why a stack is not deleted now, from its latest deployment.\<close>

definition delete_refusal :: "deployment option \<Rightarrow> string option" where
  "delete_refusal latest =
     (case latest of
        None \<Rightarrow> None
      | Some dep \<Rightarrow>
        if dp_status dep = ''queued'' \<or> dp_status dep = ''running''
        then Some (''a deployment is in progress for this stack '' @ em_dash @ '' wait for it to finish before deleting'')
        else if dp_action dep = ''up'' \<and> dp_status dep = ''succeeded''
        then Some ''undeploy this stack before deleting it''
        else None)"

definition delete_stack_handler :: "string \<Rightarrow> app_state handler" where
  "delete_stack_handler i c rq =
     with_stack i (\<lambda>st.
     bindP (tryP (on_store (latest_deployment_for_stack i)) (\<lambda>_. okP None) okP) (\<lambda>latest.
       case delete_refusal latest of
         Some t \<Rightarrow> redirect_with_error (stack_page i) t
       | None \<Rightarrow>
         tryP (on_keys (delete_stack_keys i)) (http_fail 500) (\<lambda>_.
         bindP (tryP (on_store (secret_connections_for_stack i)) (\<lambda>_. okP []) okP) (\<lambda>local.
         tryP (on_keys (forP (\<lambda>x. delete_secret_credentials (sc_id x)) local)) (http_fail 500) (\<lambda>_.
         tryP (on_store (delete_stack i)) (http_fail 500) (\<lambda>_.
           audited c ''stack.delete'' (st_name st) '''' (redirect_with_saved_message ''/stacks'' ''Stack deleted'')))))))"

section \<open>No compose file is lost\<close>

text \<open>A content a stack has or had: the present one, or that of a revision.\<close>

definition content_kept :: "string \<Rightarrow> string \<Rightarrow> db \<Rightarrow> bool" where
  "content_kept i x d \<longleftrightarrow> distinct (map st_id (d_stacks d)) \<and>
     ((\<exists>s\<in>set (d_stacks d). st_id s = i \<and> st_compose s = x) \<or> (\<exists>r\<in>set (d_revisions d). sr_stack r = i \<and> sr_compose r = x))"

lemma table_content [simp, intro]: "table_inv (content_kept i x)"
  by (rule table_invI) (simp_all add: content_kept_def)

lemma content_same: "d_stacks d' = d_stacks d \<Longrightarrow> d_revisions d' = d_revisions d \<Longrightarrow> content_kept i x d' = content_kept i x d"
  by (simp add: content_kept_def)


lemma keeps_content_store [keeps_intros]:
  "keeps (content_kept i x) (record_audit u a t e)"
  "keeps (content_kept i x) (enqueue_deployment j h tr ac)"
  "keeps (content_kept i x) (get_stack j)"
  "keeps (content_kept i x) (latest_deployment_for_stack j)"
  "keeps (content_kept i x) (get_git_connection j)"
  "keeps (content_kept i x) (get_stack_revision j n)"
  "keeps (content_kept i x) (secret_connections_for_stack j)"
  by (unfold record_audit_def enqueue_deployment_def get_stack_def latest_deployment_for_stack_def get_deployment_def
      get_git_connection_def get_stack_revision_def secret_connections_for_stack_def query_connections_def prune_image_policies_def;
      intro keeps_intros keeps_ins keeps_exec; auto simp: content_kept_def)+

lemma keeps_content_update:
  assumes "\<And>d s. st_id (f d s) = st_id s" and "\<And>d s. st_compose (f d s) = st_compose s"
  shows "keeps (content_kept i x) (update_stack j f)"
  unfolding update_stack_def
proof (rule keeps_upd)
  fix d
  let ?rows = "update_where (\<lambda>s. st_id s = j) (f d) (d_stacks d)"
  assume kept: "content_kept i x d"
  have "map (\<lambda>s. (st_id s, st_compose s)) ?rows = map (\<lambda>s. (st_id s, st_compose s)) (d_stacks d)"
    by (rule map_update_where) (simp add: assms)
  from arg_cong [OF this, of "\<lambda>ps. (i, x) \<in> set ps"] have
    "(\<exists>s\<in>set ?rows. st_id s = i \<and> st_compose s = x) \<longleftrightarrow> (\<exists>s\<in>set (d_stacks d). st_id s = i \<and> st_compose s = x)"
    by auto
  moreover have "map st_id ?rows = map st_id (d_stacks d)" by (rule map_update_where) (rule assms)
  ultimately show "content_kept i x (d_stacks_update (update_where (\<lambda>s. st_id s = j) (f d)) d)"
    using kept by (simp add: content_kept_def)
qed simp

lemma keeps_content_updates [keeps_intros]:
  "keeps (content_kept i x) (record_poll j sha)"
  "keeps (content_kept i x) (set_poll_schedule j schedule)"
  "keeps (content_kept i x) (update_stack_trigger j tr schedule secret)"
  "keeps (content_kept i x) (rename_stack j name)"
  "keeps (content_kept i x) (update_stack_secret j cipher)"
  by (unfold record_poll_def set_poll_schedule_def update_stack_trigger_def rename_stack_def update_stack_secret_def;
      intro keeps_intros keeps_content_update; simp)+

lemma keeps_content_create [keeps_intros]: "keeps (content_kept i x) (create_stack st)"
  unfolding create_stack_def
  by (intro keeps_intros keeps_ins) (auto simp: content_kept_def first_clash_None)

lemma keeps_content_delete: "j \<noteq> i \<Longrightarrow> keeps (content_kept i x) (delete_stack j)"
  unfolding delete_stack_def Let_def
  by (intro keeps_intros keeps_del)
     (auto simp: content_kept_def delete_where_def distinct_map_filter)

lemma untouched_row: "s \<in> set rows \<Longrightarrow> \<not> P s \<Longrightarrow> s \<in> set (update_where P f rows)"
  by (force simp: in_update_where)

lemma keeps_content_compose: "j \<noteq> i \<Longrightarrow> keeps (content_kept i x) (update_stack_compose j y)"
  unfolding update_stack_compose_def update_stack_def
  by (intro keeps_intros keeps_upd)
     (auto simp: content_kept_def map_update_where intro!: bexI [OF _ untouched_row])

lemma keeps_content_revision [keeps_intros]: "keeps (content_kept i x) (record_stack_revision j y)"
  unfolding record_stack_revision_def
  by (intro keeps_intros keeps_exec) (auto simp: content_kept_def)

text \<open>Once it is in the history, nothing done to the row takes a content away.\<close>

definition in_history :: "string \<Rightarrow> string \<Rightarrow> db \<Rightarrow> bool" where
  "in_history i x d \<longleftrightarrow> distinct (map st_id (d_stacks d)) \<and> (\<exists>r\<in>set (d_revisions d). sr_stack r = i \<and> sr_compose r = x)"

lemma table_history [simp, intro]: "table_inv (in_history i x)"
  by (rule table_invI) (simp_all add: in_history_def)

lemma history_kept: "in_history i x d \<Longrightarrow> content_kept i x d"
  by (simp add: in_history_def content_kept_def)

lemma keeps_history [keeps_intros]:
  "keeps (in_history i x) (record_audit u a t e)"
  "keeps (in_history i x) (update_stack_compose j y)"
  by (unfold record_audit_def update_stack_compose_def update_stack_def;
      intro keeps_intros keeps_exec keeps_upd; auto simp: in_history_def map_update_where)+

lemma get_stack_Inr:
  assumes "get_stack i d = (Inr st, d')"
  shows "find_stack d' i = Some st"
proof -
  from assms have "select (\<lambda>d. find_stack d i) d = (Inr (Some st), d')"
    by (auto simp: get_stack_def bindP_Inr split: option.splits)
  then show ?thesis by (cases rule: select_cases) (auto simp: find_stack_def)
qed

lemma recorded_history:
  assumes "content_kept i x d" and "find_stack d i = Some st" and "record_stack_revision i (st_compose st) d = (Inr u, d')"
  shows "in_history i x d'"
proof -
  have u: "s = st" if "s \<in> set (d_stacks d)" "st_id s = i" for s
    using that assms(1) find_in [of "\<lambda>s. st_id s = i" "d_stacks d" st] assms(2)
    by (auto simp: content_kept_def find_stack_def distinct_map dest: inj_onD)
  from assms(3) show ?thesis
    unfolding record_stack_revision_def unitP_Inr
    by (elim exE exec_cases) (use assms(1) u in \<open>auto simp: in_history_def content_kept_def\<close>)
qed

section \<open>Histories\<close>

record stack_env =
  se_crypto :: crypto
  se_cron :: "string \<Rightarrow> unit result"
  se_git :: "git_auth \<Rightarrow> string \<Rightarrow> string \<Rightarrow> string result"
  se_hmac :: "string \<Rightarrow> string \<Rightarrow> string"

datatype stack_action =
    NewStack
  | EditCompose string
  | RestoreRevision string string
  | ChangeSecrets string
  | RenameStack string
  | ChangeSchedule string
  | ChangeTrigger string
  | PollNow string
  | DeployStack string
  | UndeployStack string
  | DeleteStack string

fun stack_action_handler :: "stack_env \<Rightarrow> stack_action \<Rightarrow> app_state handler" where
  "stack_action_handler env NewStack = create_stack_handler (se_crypto env) (se_cron env)"
| "stack_action_handler env (EditCompose i) = update_stack_handler i"
| "stack_action_handler env (RestoreRevision i r) = restore_stack_revision_handler i r"
| "stack_action_handler env (ChangeSecrets i) = update_stack_secret_handler (se_crypto env) i"
| "stack_action_handler env (RenameStack i) = rename_stack_handler i"
| "stack_action_handler env (ChangeSchedule i) = set_poll_schedule_handler (se_cron env) i"
| "stack_action_handler env (ChangeTrigger i) = set_stack_trigger_handler (se_cron env) i"
| "stack_action_handler env (PollNow i) = force_poll_handler (se_crypto env) (se_git env) i"
| "stack_action_handler env (DeployStack i) = deploy_stack_handler i"
| "stack_action_handler env (UndeployStack i) = undeploy_stack_handler i"
| "stack_action_handler env (DeleteStack i) = delete_stack_handler i"

text \<open>A form sent by a user, a call of the web hook, and the schedule of a stack firing.\<close>

datatype stack_event =
    Form stack_action "web_context option" request
  | Hook string hook_request
  | PollTick string

fun stack_step :: "stack_env \<Rightarrow> stack_event \<Rightarrow> app_state \<Rightarrow> app_state" where
  "stack_step env (Form a c rq) s = snd (stack_action_handler env a c rq s)"
| "stack_step env (Hook i hk) s = snd (hooks_handler (se_hmac env) i hk s)"
| "stack_step env (PollTick i) s =
     (if entries_of i (ap_polls s) = [] then s
      else snd (on_store (poll_stack (keyring_of (se_crypto env) (ap_keys s)) (se_git env) i) s))"

text \<open>What a handler keeps of the database.\<close>

lemma keeps_on_store [keeps_intros]: "keeps I m \<Longrightarrow> keeps (\<lambda>s. I (ap_db s)) (on_store m)"
  by (rule keeps_zoomP) auto

lemma keeps_on_keys [keeps_intros]: "keeps (\<lambda>s. I (ap_db s)) (on_keys m)"
  by (auto simp: keeps_def zoomP_def split: prod.split)

lemma keeps_on_polls [keeps_intros]: "keeps (\<lambda>s. I (ap_db s)) (on_polls m)"
  by (auto simp: keeps_def zoomP_def split: prod.split)

lemmas answer_defs = not_found_def http_fail_def page_def http_error_def answer_def answer_cookie_def
  redirect_with_error_def redirect_with_saved_def redirect_with_saved_message_def

lemma keeps_answers [keeps_intros]:
  "keeps I not_found" "keeps I (http_fail code e)" "keeps I (http_error code t)" "keeps I (page t)" "keeps I (answer a)"
  "keeps I (redirect_with_error p t)" "keeps I (redirect_with_saved p)" "keeps I (redirect_with_saved_message p t)"
  by (auto simp: answer_defs)

lemma keeps_audited [keeps_intros]:
  "(\<And>u a t e. keeps I (record_audit u a t e)) \<Longrightarrow> keeps (\<lambda>s. I (ap_db s)) nxt \<Longrightarrow>
     keeps (\<lambda>s. I (ap_db s)) (audited c act target detail nxt)"
  unfolding audited_def audit_def by (intro keeps_intros)

lemma keeps_with_stack [keeps_intros]:
  "keeps I (get_stack i) \<Longrightarrow> (\<And>st. keeps (\<lambda>s. I (ap_db s)) (f st)) \<Longrightarrow> keeps (\<lambda>s. I (ap_db s)) (with_stack i f)"
  unfolding with_stack_def by (intro keeps_intros)

text \<open>The stack a handler loaded is in the database when the rest of it runs.\<close>

definition holding :: "string \<Rightarrow> string \<Rightarrow> string \<Rightarrow> stack \<Rightarrow> app_state \<Rightarrow> bool" where
  "holding i x j st s \<longleftrightarrow> content_kept i x (ap_db s) \<and> find_stack (ap_db s) j = Some st"

lemma keeps_holding:
  assumes "(\<And>d. snd (m d) = d\<lparr>d_faults := d_faults (snd (m d))\<rparr>)"
  shows "keeps (holding i x j st) (on_store m)"
proof (rule keepsI)
  fix s :: app_state
  assume "holding i x j st s"
  moreover have "\<exists>fs. ap_db (snd (on_store m s)) = (ap_db s)\<lparr>d_faults := fs\<rparr>"
    using assms [of "ap_db s"] by (auto simp: zoomP_def split: prod.split)
  ultimately show "holding i x j st (snd (on_store m s))"
    by (auto simp: holding_def content_kept_def find_stack_def)
qed

lemma with_stack_kept:
  assumes "\<And>st. triple (holding i x j st) (f st) (\<lambda>_ s. content_kept i x (ap_db s))"
  shows "keeps (\<lambda>s. content_kept i x (ap_db s)) (with_stack j f)"
  unfolding triple_keeps with_stack_def
proof (rule triple_tryP)
  show "triple (\<lambda>s. content_kept i x (ap_db s)) (on_store (get_stack j))
      (\<lambda>r s. case r of Inl e \<Rightarrow> content_kept i x (ap_db s) | Inr st \<Rightarrow> holding i x j st s)"
  proof (rule tripleI)
    fix s r s'
    assume kept: "content_kept i x (ap_db s)" and run: "on_store (get_stack j) s = (r, s')"
    have "content_kept i x (ap_db s')" using keepsE [OF keeps_on_store [OF keeps_content_store(3)] kept run] .
    then show "case r of Inl e \<Rightarrow> content_kept i x (ap_db s') | Inr st \<Rightarrow> holding i x j st s'"
      using run get_stack_Inr by (auto simp: zoomP_run holding_def split: sum.split)
  qed
qed (use assms in \<open>auto simp: triple_def answer_defs\<close>)

lemma replace_kept:
  assumes "keeps (\<lambda>s. content_kept i x (ap_db s)) nxt" and "keeps (\<lambda>s. in_history i x (ap_db s)) nxt"
  shows "triple (holding i x j st) (replace_compose j st y nxt) (\<lambda>_ s. content_kept i x (ap_db s))"
proof (cases "j = i")
  case False
  have "keeps (\<lambda>s. content_kept i x (ap_db s)) (replace_compose j st y nxt)"
    unfolding replace_compose_def by (intro keeps_intros keeps_content_compose False assms(1))
  then show ?thesis unfolding triple_keeps by (rule triple_weaken) (simp_all add: holding_def)
next
  case True
  have rest: "keeps (\<lambda>s. in_history i x (ap_db s)) (tryP (on_store (update_stack_compose j y)) (http_fail 500) (\<lambda>_. nxt))"
    by (intro keeps_intros assms(2))
  show ?thesis unfolding replace_compose_def
  proof (rule triple_tryP)
    show "triple (holding i x j st) (on_store (record_stack_revision j (st_compose st)))
        (\<lambda>r s. case r of Inl e \<Rightarrow> content_kept i x (ap_db s) | Inr _ \<Rightarrow> in_history i x (ap_db s))"
    proof (rule tripleI)
      fix s r s'
      assume h: "holding i x j st s" and run: "on_store (record_stack_revision j (st_compose st)) s = (r, s')"
      have "content_kept i x (ap_db s')"
        using keepsE [OF keeps_on_store [OF keeps_content_revision] _ run] h by (simp add: holding_def)
      then show "case r of Inl e \<Rightarrow> content_kept i x (ap_db s') | Inr _ \<Rightarrow> in_history i x (ap_db s')"
        using run h True recorded_history [of i x "ap_db s" st] by (auto simp: zoomP_run holding_def split: sum.split)
    qed
    show "triple (\<lambda>s. case Inr u of Inl e \<Rightarrow> content_kept i x (ap_db s) | Inr _ \<Rightarrow> in_history i x (ap_db s))
        (tryP (on_store (update_stack_compose j y)) (http_fail 500) (\<lambda>_. nxt)) (\<lambda>_ s. content_kept i x (ap_db s))" for u
      using rest unfolding triple_keeps by (rule triple_weaken) (simp_all add: history_kept)
  qed (auto simp: triple_def answer_defs)
qed

lemma keeps_content_edits [keeps_intros]:
  "keeps (\<lambda>s. content_kept i x (ap_db s)) (update_stack_handler j c rq)"
  "keeps (\<lambda>s. content_kept i x (ap_db s)) (restore_stack_revision_handler j r c rq)"
proof -
  have bad: "triple (holding i x j st) (http_error n t) (\<lambda>_ s. content_kept i x (ap_db s))" for st n t
    by (simp add: triple_def answer_defs holding_def)
  show "keeps (\<lambda>s. content_kept i x (ap_db s)) (update_stack_handler j c rq)"
    unfolding update_stack_handler_def by (intro with_stack_kept triple_if bad replace_kept keeps_audited keeps_intros)
  have read: "triple (holding i x j st) (on_store (get_stack_revision j n)) (\<lambda>_. holding i x j st)" for st n
    unfolding triple_keeps [symmetric]
    by (intro keeps_holding)
       (auto simp: get_stack_revision_def one_row_def bindP_def tryP_def wrapP_def split: prod.split sum.split option.split dest!: select_state)
  show "keeps (\<lambda>s. content_kept i x (ap_db s)) (restore_stack_revision_handler j r c rq)"
    unfolding restore_stack_revision_handler_def
    by (intro keeps_case_option keeps_answers with_stack_kept triple_if bad triple_tryP [OF read] replace_kept keeps_audited keeps_intros)
       (simp add: triple_def answer_defs holding_def)
qed

lemma keeps_content_poll [keeps_intros]: "keeps (content_kept i x) (poll_stack kr git j)"
  unfolding poll_stack_def queue_polled_deploy_def ls_remote_sha_def resolve_git_auth_def audit_system_def Let_def
  by (intro keeps_intros)

lemma keeps_content_draw [keeps_intros]: "keeps (content_kept i x) draw"
  by (rule keeps_draw) simp

lemma keeps_content_handlers [keeps_intros]:
  "keeps (\<lambda>s. content_kept i x (ap_db s)) (create_stack_handler cy cron c rq)"
  "keeps (\<lambda>s. content_kept i x (ap_db s)) (update_stack_secret_handler cy j c rq)"
  "keeps (\<lambda>s. content_kept i x (ap_db s)) (rename_stack_handler j c rq)"
  "keeps (\<lambda>s. content_kept i x (ap_db s)) (set_poll_schedule_handler cron j c rq)"
  "keeps (\<lambda>s. content_kept i x (ap_db s)) (set_stack_trigger_handler cron j c rq)"
  "keeps (\<lambda>s. content_kept i x (ap_db s)) (force_poll_handler cy git j c rq)"
  "keeps (\<lambda>s. content_kept i x (ap_db s)) (deploy_stack_handler j c rq)"
  "keeps (\<lambda>s. content_kept i x (ap_db s)) (undeploy_stack_handler j c rq)"
  "keeps (\<lambda>s. content_kept i x (ap_db s)) (hooks_handler hmac j hk)"
  by (unfold create_stack_handler_def stack_credentials_def store_stack_def update_stack_secret_handler_def
      rename_stack_handler_def set_poll_schedule_handler_def set_stack_trigger_handler_def force_poll_handler_def
      deploy_stack_handler_def undeploy_stack_handler_def hooks_handler_def audit_system_def kept_secret_def Let_def;
      intro keeps_intros)+

lemma keeps_content_delete_handler:
  "j \<noteq> i \<Longrightarrow> keeps (\<lambda>s. content_kept i x (ap_db s)) (delete_stack_handler j c rq)"
  unfolding delete_stack_handler_def by (intro keeps_intros keeps_content_delete)

lemma keeps_content_actions:
  "a \<noteq> DeleteStack i \<Longrightarrow> keeps (\<lambda>s. content_kept i x (ap_db s)) (stack_action_handler env a c rq)"
  by (cases a; simp) (intro keeps_intros keeps_content_delete_handler; simp)+

text \<open>
  C24 no_content_lost.  Whatever is done to the stacks, by forms, web hooks and polls, with whatever
  failures of the database, every content the compose file of a stack had is its present one or that
  of a revision, until the stack is deleted.
\<close>

theorem no_content_lost:
  assumes "content_kept i x (ap_db s)" and "\<forall>e\<in>set events. \<forall>c rq. e \<noteq> Form (DeleteStack i) c rq"
  shows "content_kept i x (ap_db (fold (stack_step env) events s))"
  using assms
proof (induction events arbitrary: s)
  case (Cons e events)
  have "content_kept i x (ap_db (stack_step env e s))"
  proof (cases e)
    case (Form a c rq)
    with Cons.prems have "a \<noteq> DeleteStack i" by auto
    from keepsD [OF keeps_content_actions [OF this] Cons.prems(1)] Form show ?thesis by simp
  next
    case (Hook j hk)
    from keepsD [OF keeps_content_handlers(9) Cons.prems(1)] Hook show ?thesis by simp
  next
    case (PollTick j)
    from keepsD [OF keeps_on_store [OF keeps_content_poll] Cons.prems(1)] PollTick Cons.prems(1) show ?thesis by simp
  qed
  with Cons show ?case by simp
qed simp

text \<open>A content that is replaced, and stays as a revision.\<close>

definition plain_crypto :: crypto where
  "plain_crypto = \<lparr>cy_age_key = (\<lambda>n. Inr (''age'', ''AGE'')), cy_rsa_key = (\<lambda>n. Inr (''rsa'', ''RSA'')),
     cy_ssh_public = Inr, cy_encrypt = (\<lambda>n pub m. Inr m), cy_identity = (\<lambda>_. Inr ()), cy_decrypt = (\<lambda>_ m. Inr m),
     cy_is_sops = (\<lambda>_. False), cy_sops = (\<lambda>_ m. Inr m)\<rparr>"

definition plain_env :: stack_env where
  "plain_env = \<lparr>se_crypto = plain_crypto, se_cron = (\<lambda>_. Inr ()), se_git = (\<lambda>_ _ _. Inr ''abc''), se_hmac = (\<lambda>_ _. ''00'')\<rparr>"

definition fresh_app :: app_state where
  "fresh_app = \<lparr>ap_db = empty_db 0 (\<lambda>_. ''r''), ap_keys = empty_custodian, ap_polls = no_schedules\<rparr>"

definition form :: "(string \<times> string) list \<Rightarrow> request" where
  "form kvs = \<lparr>rq_method = ''POST'', rq_path = '''', rq_content_type = '''', rq_cookie = None, rq_form = Inr kvs\<rparr>"

definition local_stack_app :: app_state where
  "local_stack_app = stack_step plain_env
     (Form NewStack None (form [(''name'', ''blog''), (''source'', ''local''), (''compose_content'', ''v1'')])) fresh_app"

lemma no_content_lost_witness:
  "content_kept ''blog'' ''v1'' (ap_db (fold (stack_step plain_env)
     [Form (EditCompose ''blog'') None (form [(''compose_content'', ''v2'')]), PollTick ''blog''] local_stack_app))"
proof -
  have "content_kept ''blog'' ''v1'' (ap_db local_stack_app)" by code_simp
  then show ?thesis by (rule no_content_lost) simp
qed

end
