(* ===== verification/Stack_Rules.thy ===== *)
theory Stack_Rules
  imports Stack_Pages
begin

text \<open>
  What the actions of \<open>Stack_Pages\<close> guarantee: who can start a deployment through the web hook, when a
  stack can be deleted and what goes with it, what a poll deploys; and two things they do not
  guarantee, a name that a failed creation leaves unusable and a schedule that outlives its stack.
\<close>

section \<open>The web hook\<close>

lemma enqueue_effect:
  assumes "enqueue_deployment st h tr ac d = (r, d')"
  shows "d_deployments d' = d_deployments d \<or> (\<exists>dep. d_deployments d' = d_deployments d @ [dep] \<and> dp_stack dep = st
     \<and> dp_host dep = h \<and> dp_action dep = ac \<and> dp_trigger dep = tr \<and> dp_status dep = ''queued'')"
proof -
  have keep: "d_deployments (snd (get_deployment j x)) = d_deployments x" for j x
    by (auto simp: get_deployment_def one_row_def bindP_def tryP_def wrapP_def split: prod.split sum.split option.split
        dest!: select_state)
  obtain q d1 where i: "ins d_deployments d_deployments_update
      [(''deployments.id'', \<lambda>x. dp_id x = d_rand d (d_drawn d))]
      (\<lambda>d'. \<lparr>dp_id = d_rand d (d_drawn d), dp_stack = st, dp_host = h, dp_action = ac, dp_trigger = tr,
         dp_status = ''queued'', dp_output = '''', dp_started = None, dp_finished = None, dp_created = d_now d'\<rparr>)
      (d\<lparr>d_drawn := Suc (d_drawn d)\<rparr>) = (q, d1)" by (metis surj_pair)
  have "d_deployments d' = d_deployments d1"
    using assms i keep [of "d_rand d (d_drawn d)" d1]
    by (auto simp: enqueue_deployment_def bindP_def tryP_def draw_def unitP_def wrapP_def split: sum.splits)
  with i show ?thesis by (cases rule: ins_cases) auto
qed

lemma get_stack_state: "get_stack i d = (r, d') \<Longrightarrow> \<exists>fs. d' = d\<lparr>d_faults := fs\<rparr>"
  by (auto simp: get_stack_def bindP_def tryP_def wrapP_def split: prod.splits sum.splits option.splits dest!: select_state)

lemma audit_deployments: "record_audit u a t e d = (r, d') \<Longrightarrow> d_deployments d' = d_deployments d"
proof -
  assume run: "record_audit u a t e d = (r, d')"
  have "table_inv (\<lambda>x. d_deployments x = d_deployments d)" by (simp add: table_inv_def)
  then have "keeps (\<lambda>x. d_deployments x = d_deployments d) (record_audit u a t e)"
    unfolding record_audit_def by (intro keeps_intros keeps_exec) auto
  from keepsE [OF this _ run] show ?thesis by simp
qed

text \<open>
  C25 webhook_authenticated.  A call of the web hook of a stack either leaves the queue as it is, or the
  stack is in webhook mode with a secret, the call carries that secret or signs its body with it, and
  one deployment of that stack on its host is queued.
\<close>

theorem webhook_authenticated:
  "d_deployments (ap_db (snd (hooks_handler hmac i hk s))) = d_deployments (ap_db s) \<or>
   (\<exists>st body dep. find_stack (ap_db s) i = Some st \<and> st_trigger st = ''webhook'' \<and> st_webhook_secret st \<noteq> ''''
      \<and> hk_body hk = Inr body
      \<and> (hk_hub hk = ''sha256='' @ hmac (st_webhook_secret st) body \<or> hk_gitlab hk = st_webhook_secret st
          \<or> hk_secret hk = st_webhook_secret st)
      \<and> d_deployments (ap_db (snd (hooks_handler hmac i hk s))) = d_deployments (ap_db s) @ [dep]
      \<and> dp_stack dep = i \<and> dp_host dep = st_host st \<and> dp_host dep \<noteq> '''' \<and> dp_action dep = ''up'' \<and> dp_status dep = ''queued'')"
proof (cases "on_store (get_stack i) s")
  case (Pair r s1)
  then obtain fs where s1: "ap_db s1 = (ap_db s)\<lparr>d_faults := fs\<rparr>"
    using get_stack_state by (fastforce simp: zoomP_run)
  show ?thesis
  proof (cases r)
    case (Inl e)
    then show ?thesis using Pair s1 by (simp add: hooks_handler_def with_stack_def tryP_def answer_defs)
  next
    case (Inr st)
    then have "find_stack (ap_db s1) i = Some st" using Pair get_stack_Inr by (auto simp: zoomP_run)
    then have st: "find_stack (ap_db s) i = Some st" "st_id st = i"
      using find_in [of "\<lambda>s. st_id s = i"] by (auto simp: s1 find_stack_def)
    show ?thesis
    proof (cases "st_trigger st = ''webhook'' \<and> st_webhook_secret st \<noteq> '''' \<and> st_host st \<noteq> ''''
        \<and> (\<exists>body. hk_body hk = Inr body \<and> verify_webhook_auth hmac hk body (st_webhook_secret st))")
      case False
      then have "ap_db (snd (hooks_handler hmac i hk s)) = ap_db s1"
        using Pair Inr by (auto simp: hooks_handler_def with_stack_def tryP_def answer_defs split: sum.split)
      then show ?thesis by (simp add: s1)
    next
      case True
      then obtain body where go: "st_trigger st = ''webhook''" "st_webhook_secret st \<noteq> ''''" "st_host st \<noteq> ''''"
        "hk_body hk = Inr body" "verify_webhook_auth hmac hk body (st_webhook_secret st)" by blast
      obtain q d2 where q: "enqueue_deployment (st_id st) (st_host st) ''webhook'' ''up'' (ap_db s1) = (q, d2)" by (metis surj_pair)
      have "d_deployments (ap_db (snd (hooks_handler hmac i hk s))) = d_deployments d2"
        using Pair Inr go q
        by (cases q) (auto simp: hooks_handler_def with_stack_def tryP_def bindP_def zoomP_def audit_system_def ignoreP_def
            answer_defs split: sum.split prod.split dest: audit_deployments)
      moreover have "hk_hub hk = ''sha256='' @ hmac (st_webhook_secret st) body \<or> hk_gitlab hk = st_webhook_secret st
          \<or> hk_secret hk = st_webhook_secret st"
        using go(5) by (simp add: verify_webhook_auth_def split: if_splits)
      ultimately show ?thesis using enqueue_effect [OF q] st go by (auto simp: s1)
    qed
  qed
qed

section \<open>A name left unusable\<close>

text \<open>There is no stack of the name, but a key is stored for it.\<close>

definition no_stack :: "string \<Rightarrow> db \<Rightarrow> bool" where
  "no_stack i d \<longleftrightarrow> find_stack d i = None"

definition has_key :: "string \<Rightarrow> custodian \<Rightarrow> bool" where
  "has_key i k \<longleftrightarrow> find_key i (k_age k) \<noteq> None"

lemma table_no_stack [simp, intro]: "table_inv (no_stack i)"
  by (rule table_invI) (simp_all add: no_stack_def find_stack_def)

lemma no_stack_ids: "no_stack i d \<longleftrightarrow> i \<notin> set (map st_id (d_stacks d))"
  by (auto simp: no_stack_def find_stack_def find_None_iff)

lemma keeps_no_stack_update:
  "(\<And>d s. st_id (f d s) = st_id s) \<Longrightarrow> keeps (no_stack i) (update_stack j f)"
  unfolding update_stack_def
  by (rule keeps_upd) (simp_all add: no_stack_ids map_update_where del: set_map)

lemma keeps_no_stack [keeps_intros]:
  "keeps (no_stack i) (record_audit u a t e)"
  "keeps (no_stack i) (enqueue_deployment j h tr ac)"
  "keeps (no_stack i) (get_stack j)"
  "keeps (no_stack i) (latest_deployment_for_stack j)"
  "keeps (no_stack i) (get_git_connection j)"
  "keeps (no_stack i) (get_stack_revision j n)"
  "keeps (no_stack i) (secret_connections_for_stack j)"
  "keeps (no_stack i) (record_stack_revision j y)"
  by (unfold record_audit_def enqueue_deployment_def get_stack_def latest_deployment_for_stack_def get_deployment_def
      get_git_connection_def get_stack_revision_def secret_connections_for_stack_def query_connections_def record_stack_revision_def;
      intro keeps_intros keeps_ins keeps_exec; auto simp: no_stack_def find_stack_def)+

lemma keeps_no_stack_draw [keeps_intros]: "keeps (no_stack i) draw"
  by (rule keeps_draw) simp

lemma keeps_no_stack_updates [keeps_intros]:
  "keeps (no_stack i) (record_poll j sha)"
  "keeps (no_stack i) (set_poll_schedule j schedule)"
  "keeps (no_stack i) (update_stack_trigger j tr schedule secret)"
  "keeps (no_stack i) (rename_stack j name)"
  "keeps (no_stack i) (update_stack_secret j cipher)"
  "keeps (no_stack i) (update_stack_compose j y)"
  by (unfold record_poll_def set_poll_schedule_def update_stack_trigger_def rename_stack_def update_stack_secret_def
      update_stack_compose_def; intro keeps_intros keeps_no_stack_update; simp)+

lemma keeps_no_stack_delete [keeps_intros]: "keeps (no_stack i) (delete_stack j)"
  unfolding delete_stack_def Let_def
  by (intro keeps_intros keeps_del) (auto simp: no_stack_ids delete_where_def)

lemma keeps_no_stack_create: "st_id st \<noteq> i \<Longrightarrow> keeps (no_stack i) (create_stack st)"
  unfolding create_stack_def by (intro keeps_intros keeps_ins) (auto simp: no_stack_ids)

text \<open>The custodian: only the deletion of the stack takes its key away.\<close>

lemma keeps_kstmt:
  "(\<And>c fs. I c \<Longrightarrow> I (c\<lparr>k_faults := fs\<rparr>)) \<Longrightarrow> (\<And>c. I c \<Longrightarrow> I (snd (f c))) \<Longrightarrow> keeps I (kstmt f)"
  by (auto simp: keeps_def kstmt_def split: list.split option.split)

lemma find_key_append: "find_key i (rows @ [r]) = (case find_key i rows of None \<Rightarrow> if ky_id r = i then Some r else None | Some x \<Rightarrow> Some x)"
  by (simp add: find_key_def find_append split: option.split)

lemma keeps_has_key [keeps_intros]:
  "keeps (has_key i) (generate_keypair cy j)"
  "keeps (has_key i) (generate_ssh_keypair cy j)"
  "keeps (has_key i) (encrypt cy j m)"
  "keeps (has_key i) (delete_secret_credentials j)"
  by (unfold generate_keypair_def generate_ssh_keypair_def encrypt_def public_key_def delete_secret_credentials_def
      krow_def kquery_def kinsert_def kexec_def;
      intro keeps_intros keeps_kstmt; auto simp: has_key_def kdraw_def keeps_def find_key_append split: option.splits)+

lemma keeps_has_key_delete: "j \<noteq> i \<Longrightarrow> keeps (has_key i) (delete_stack_keys j)"
  unfolding delete_stack_keys_def kexec_def
  by (intro keeps_intros keeps_kstmt)
     (auto simp: has_key_def find_key_def delete_where_def find_None_iff)

lemma keeps_keys_on [keeps_intros]:
  "keeps (\<lambda>s. J (ap_keys s)) (on_store m)"
  "keeps (\<lambda>s. J (ap_keys s)) (on_polls p)"
  "keeps J k \<Longrightarrow> keeps (\<lambda>s. J (ap_keys s)) (on_keys k)"
  by (auto simp: keeps_def zoomP_def split: prod.split)

definition burned :: "string \<Rightarrow> app_state \<Rightarrow> bool" where
  "burned i s \<longleftrightarrow> no_stack i (ap_db s) \<and> has_key i (ap_keys s)"

lemma keeps_burned:
  assumes "keeps (\<lambda>s. no_stack i (ap_db s)) m" and "keeps (\<lambda>s. has_key i (ap_keys s)) m"
  shows "keeps (burned i) m"
  using assms by (simp add: keeps_def burned_def)

lemma keeps_with_stack_keys [keeps_intros]:
  "(\<And>st. keeps (\<lambda>s. J (ap_keys s)) (f st)) \<Longrightarrow> keeps (\<lambda>s. J (ap_keys s)) (with_stack i f)"
  unfolding with_stack_def by (intro keeps_intros)

lemma keeps_audited_keys [keeps_intros]:
  "keeps (\<lambda>s. J (ap_keys s)) nxt \<Longrightarrow> keeps (\<lambda>s. J (ap_keys s)) (audited c act target detail nxt)"
  unfolding audited_def by (intro keeps_intros)

lemma keeps_no_stack_poll [keeps_intros]: "keeps (no_stack i) (poll_stack kr git j)"
  unfolding poll_stack_def queue_polled_deploy_def ls_remote_sha_def resolve_git_auth_def audit_system_def Let_def
  by (intro keeps_intros)

lemma keeps_no_stack_handlers:
  "keeps (\<lambda>s. no_stack i (ap_db s)) (update_stack_handler j c rq)"
  "keeps (\<lambda>s. no_stack i (ap_db s)) (restore_stack_revision_handler j n c rq)"
  "keeps (\<lambda>s. no_stack i (ap_db s)) (update_stack_secret_handler cy j c rq)"
  "keeps (\<lambda>s. no_stack i (ap_db s)) (rename_stack_handler j c rq)"
  "keeps (\<lambda>s. no_stack i (ap_db s)) (set_poll_schedule_handler cron j c rq)"
  "keeps (\<lambda>s. no_stack i (ap_db s)) (set_stack_trigger_handler cron j c rq)"
  "keeps (\<lambda>s. no_stack i (ap_db s)) (force_poll_handler cy git j c rq)"
  "keeps (\<lambda>s. no_stack i (ap_db s)) (deploy_stack_handler j c rq)"
  "keeps (\<lambda>s. no_stack i (ap_db s)) (undeploy_stack_handler j c rq)"
  "keeps (\<lambda>s. no_stack i (ap_db s)) (hooks_handler hmac j hk)"
  by (unfold update_stack_handler_def restore_stack_revision_handler_def replace_compose_def update_stack_secret_handler_def
      rename_stack_handler_def set_poll_schedule_handler_def set_stack_trigger_handler_def force_poll_handler_def
      deploy_stack_handler_def undeploy_stack_handler_def hooks_handler_def audit_system_def kept_secret_def Let_def;
      intro keeps_intros)+

text \<open>A predicate on the custodian that encryption keeps is kept by all handlers that touch no key.\<close>

lemma keeps_key_handlers:
  assumes "\<And>cy j m. keeps J (encrypt cy j m)"
  shows "keeps (\<lambda>s. J (ap_keys s)) (update_stack_handler j c rq)"
  and "keeps (\<lambda>s. J (ap_keys s)) (restore_stack_revision_handler j n c rq)"
  and "keeps (\<lambda>s. J (ap_keys s)) (update_stack_secret_handler cy j c rq)"
  and "keeps (\<lambda>s. J (ap_keys s)) (rename_stack_handler j c rq)"
  and "keeps (\<lambda>s. J (ap_keys s)) (set_poll_schedule_handler cron j c rq)"
  and "keeps (\<lambda>s. J (ap_keys s)) (set_stack_trigger_handler cron j c rq)"
  and "keeps (\<lambda>s. J (ap_keys s)) (force_poll_handler cy git j c rq)"
  and "keeps (\<lambda>s. J (ap_keys s)) (deploy_stack_handler j c rq)"
  and "keeps (\<lambda>s. J (ap_keys s)) (undeploy_stack_handler j c rq)"
  and "keeps (\<lambda>s. J (ap_keys s)) (hooks_handler hmac j hk)"
  by (unfold update_stack_handler_def restore_stack_revision_handler_def replace_compose_def update_stack_secret_handler_def
      rename_stack_handler_def set_poll_schedule_handler_def set_stack_trigger_handler_def force_poll_handler_def
      deploy_stack_handler_def undeploy_stack_handler_def hooks_handler_def audit_system_def kept_secret_def Let_def;
      intro keeps_with_stack_keys keeps_audited_keys keeps_keys_on keeps_tryP keeps_bindP keeps_if keeps_case_option keeps_case_sum
        keeps_ignoreP keeps_answers keeps_okP keeps_getP assms)+

lemma generate_taken:
  assumes "has_key i k" and "generate_keypair cy i k = (r, k')"
  shows "\<exists>e. r = Inl e"
proof (rule ccontr)
  assume "\<nexists>e. r = Inl e"
  then obtain pub where "r = Inr pub" by (cases r) auto
  then obtain c u c' f where "kinsert ''age_keys.stack_id'' (\<lambda>c. find_key i (k_age c) \<noteq> None) f c = (Inr u, c')"
    and "k_age c = k_age k"
    using assms(2) by (auto simp: generate_keypair_def bindP_Inr kdraw_def liftP_def split: sum.splits)
  then show False
    using assms(1) by (cases "k_faults c"; cases "hd (k_faults c)") (auto simp: kinsert_def kstmt_def has_key_def)
qed

lemma creds_id: "stack_credentials cy rq st s = (Inr (Inr st'), s') \<Longrightarrow> st_id st' = st_id st"
  by (auto simp: stack_credentials_def tryP_run bindP_Inr Let_def answer_defs split: if_splits)

lemma creation_burned:
  "keeps (burned i) (tryP (on_keys (generate_keypair cy (st_id st))) h (\<lambda>pub.
     bindP (stack_credentials cy rq (st\<lparr>st_webhook_secret := secret, st_pubkey := pub\<rparr>)) (\<lambda>r.
       case r of Inl a \<Rightarrow> okP a | Inr st \<Rightarrow> store_stack cron c st)))" if h: "\<And>e. keeps (burned i) (h e)"
proof (cases "st_id st = i")
  case True
  show ?thesis
  proof (rule keepsI)
    fix s
    assume b: "burned i s"
    obtain r s1 where run: "on_keys (generate_keypair cy (st_id st)) s = (r, s1)" by (metis surj_pair)
    then obtain e where e: "r = Inl e" using b True generate_taken by (fastforce simp: burned_def zoomP_run)
    have "keeps (burned i) (on_keys (generate_keypair cy (st_id st)))" by (intro keeps_burned keeps_intros)
    from keepsD [OF h keepsE [OF this b run]] run e
    show "burned i (snd (tryP (on_keys (generate_keypair cy (st_id st))) h (\<lambda>pub.
        bindP (stack_credentials cy rq (st\<lparr>st_webhook_secret := secret, st_pubkey := pub\<rparr>)) (\<lambda>r.
          case r of Inl a \<Rightarrow> okP a | Inr st \<Rightarrow> store_stack cron c st)) s))"
      by (simp add: tryP_def)
  qed
next
  case False
  have store: "keeps (burned i) (store_stack cron c st')" if "st_id st' \<noteq> i" for st'
    unfolding store_stack_def by (intro keeps_burned keeps_intros keeps_no_stack_create that)
  have creds: "keeps (burned i) (stack_credentials cy rq st')" for st'
    unfolding stack_credentials_def Let_def by (intro keeps_burned keeps_intros)
  have rest: "keeps (burned i) (bindP (stack_credentials cy rq st') (\<lambda>r. case r of Inl a \<Rightarrow> okP a | Inr st \<Rightarrow> store_stack cron c st))"
    if "st_id st' \<noteq> i" for st'
  proof (rule keepsI)
    fix s
    assume b: "burned i s"
    obtain r s1 where run: "stack_credentials cy rq st' s = (r, s1)" by (metis surj_pair)
    have b1: "burned i s1" by (rule keepsE [OF creds b run])
    show "burned i (snd (bindP (stack_credentials cy rq st') (\<lambda>r. case r of Inl a \<Rightarrow> okP a | Inr st \<Rightarrow> store_stack cron c st) s))"
    proof (cases r)
      case (Inl e)
      then show ?thesis using run b1 by (simp add: bindP_def tryP_def)
    next
      case (Inr x)
      show ?thesis
      proof (cases x)
        case (Inl a)
        then show ?thesis using run b1 Inr by (simp add: bindP_def tryP_def okP_def)
      next
        case (Inr st2)
        then have "st_id st2 \<noteq> i" using run that \<open>r = Inr x\<close> creds_id [of cy rq st' s st2 s1] by simp
        from keepsD [OF store [OF this] b1] show ?thesis using run Inr \<open>r = Inr x\<close> by (simp add: bindP_def tryP_def)
      qed
    qed
  qed
  show ?thesis
  proof (rule keeps_tryP [OF _ h rest])
    show "keeps (burned i) (on_keys (generate_keypair cy (st_id st)))" by (intro keeps_burned keeps_intros)
  qed (use False in simp)
qed

lemma keeps_burned_create: "keeps (burned i) (create_stack_handler cy cron c rq)"
proof -
  have err: "keeps (burned i) (http_error n t)" for n t by (intro keeps_intros)
  have drawn: "keeps (burned i) (if b then on_store draw else okP x)" for b x by (intro keeps_burned keeps_intros)
  have rest: "keeps (burned i) (tryP (on_keys (generate_keypair cy j)) (\<lambda>e. http_error 500 (f e)) (\<lambda>pub.
     bindP (stack_credentials cy rq ((form_stack rq j name source trigger schedule)\<lparr>st_webhook_secret := secret, st_pubkey := pub\<rparr>))
       (\<lambda>r. case r of Inl a \<Rightarrow> okP a | Inr st \<Rightarrow> store_stack cron c st)))" for j name source trigger schedule secret f
    using creation_burned [where st = "form_stack rq j name source trigger schedule", OF err] by (simp add: form_stack_def)
  show ?thesis
    unfolding create_stack_handler_def Let_def by (intro keeps_case_sum err keeps_if keeps_bindP drawn rest)
qed

lemma keeps_burned_delete: "keeps (burned i) (delete_stack_handler j c rq)"
proof (rule keepsI)
  fix s
  assume b: "burned i s"
  have got: "keeps (burned i) (on_store (get_stack j))" by (intro keeps_burned keeps_intros)
  show "burned i (snd (delete_stack_handler j c rq s))"
  proof (cases "j = i")
    case True
    obtain r s1 where run: "on_store (get_stack j) s = (r, s1)" by (metis surj_pair)
    have "burned i s1" by (rule keepsE [OF got b run])
    moreover have "\<exists>e. r = Inl e"
      using run b True get_stack_Inr keepsE [OF got b run]
      by (cases r) (auto simp: zoomP_run burned_def no_stack_def)
    ultimately show ?thesis using run by (auto simp: delete_stack_handler_def with_stack_def tryP_def answer_defs)
  next
    case False
    have "keeps (burned i) (delete_stack_handler j c rq)"
      unfolding delete_stack_handler_def
      by (rule keeps_burned) (intro keeps_intros keeps_has_key_delete False)+
    from keepsD [OF this b] show ?thesis .
  qed
qed

lemma keeps_burned_step: "burned i s \<Longrightarrow> burned i (stack_step env e s)"
proof (cases e)
  case (Form a c rq)
  assume b: "burned i s"
  have "keeps (burned i) (stack_action_handler env a c rq)"
    by (cases a) (simp_all add: keeps_burned_create keeps_burned_delete keeps_burned keeps_no_stack_handlers keeps_key_handlers keeps_has_key)
  from keepsD [OF this b] show ?thesis by (simp add: Form)
next
  case (Hook j hk)
  assume b: "burned i s"
  from keepsD [OF keeps_burned [OF keeps_no_stack_handlers(10) keeps_key_handlers(10) [OF keeps_has_key(3)]] b] show ?thesis by (simp add: Hook)
next
  case (PollTick j)
  assume b: "burned i s"
  have "keeps (burned i) (on_store (poll_stack kr git j))" for kr git
    by (intro keeps_burned keeps_intros)
  from keepsD [OF this b] b show ?thesis by (simp add: PollTick)
qed

lemma unknown_connection:
  assumes "find (\<lambda>c. gc_id c = g) (d_connections d) = None"
  shows "\<exists>e fs. get_git_connection g d = (Inl e, d\<lparr>d_faults := fs\<rparr>)"
proof -
  obtain r d' where run: "get_git_connection g d = (r, d')" by (metis surj_pair)
  have "\<exists>fs. d' = d\<lparr>d_faults := fs\<rparr>"
    using run by (auto simp: get_git_connection_def one_row_def bindP_def tryP_def wrapP_def split: prod.splits sum.splits option.splits
        dest!: select_state)
  moreover have "\<exists>e. r = Inl e"
    using run one_row_Inr(1) [of _ "\<lambda>d. find (\<lambda>c. gc_id c = g) (d_connections d)" d] assms
    by (cases r) (auto simp: get_git_connection_def)
  ultimately show ?thesis using run by auto
qed

lemma generated:
  assumes "find_key i (k_age k) = None" and "k_faults k = []" and "cy_age_key cy (k_drawn k) = Inr (pub, priv)"
  shows "\<exists>k'. generate_keypair cy i k = (Inr pub, k') \<and> has_key i k'"
  using assms
  by (auto simp: generate_keypair_def bindP_def tryP_def kdraw_def liftP_def kinsert_def kstmt_def wrapP_def has_key_def find_key_append)

text \<open>
  A stack that is created with a Git connection that does not exist is
  refused, but its key stays: whatever anyone does afterwards, no stack of that name can be created.
\<close>

theorem failed_create_burns_name:
  assumes "find_stack (ap_db s) i = None" and "find_key i (k_age (ap_keys s)) = None"
    and "rq_form rq = Inr kvs" and "slugify (trim_space (form_value rq ''name'')) = i" and "i \<noteq> ''''"
    and "form_value rq ''source'' = ''git''" and "form_value rq ''trigger'' = ''manual''"
    and "form_value rq ''git_connection_id'' = g" and "g \<noteq> ''''"
    and "find (\<lambda>x. gc_id x = g) (d_connections (ap_db s)) = None"
    and "k_faults (ap_keys s) = []" and "cy_age_key (se_crypto env) (k_drawn (ap_keys s)) = Inr (pub, priv)"
  shows "find_stack (ap_db (fold (stack_step env) (Form NewStack c rq # es) s)) i = None"
proof -
  let ?s1 = "s\<lparr>ap_db := (ap_db s)\<lparr>d_drawn := Suc (d_drawn (ap_db s))\<rparr>\<rparr>"
  obtain k' where k: "generate_keypair (se_crypto env) i (ap_keys s) = (Inr pub, k')" "has_key i k'"
    using generated [OF assms(2,11,12)] by blast
  obtain e fs where e: "get_git_connection g (ap_db ?s1) = (Inl e, (ap_db ?s1)\<lparr>d_faults := fs\<rparr>)"
    using unknown_connection [of g "ap_db ?s1"] assms(10) by auto
  have "burned i (stack_step env (Form NewStack c rq) s)"
    using assms(1,3-9) k e
    by (simp add: create_stack_handler_def Let_def bindP_def tryP_def zoomP_def draw_def stack_credentials_def form_stack_def
        answer_defs burned_def no_stack_def find_stack_def)
  moreover have "burned i (fold (stack_step env) es t)" if "burned i t" for t
    using that by (induction es arbitrary: t) (simp_all add: keeps_burned_step)
  ultimately show ?thesis by (simp add: burned_def no_stack_def)
qed

lemma failed_create_burns_name_witness:
  "find_stack (ap_db (fold (stack_step plain_env)
     [Form NewStack None (form [(''name'', ''Blog''), (''source'', ''git''), (''trigger'', ''manual''), (''git_connection_id'', ''c1'')]),
      Form NewStack None (form [(''name'', ''blog''), (''source'', ''local'')])] fresh_app)) ''blog'' = None"
  by (rule failed_create_burns_name [where g = "''c1''" and pub = "''age''" and priv = "''AGE''"
      and kvs = "[(''name'', ''Blog''), (''source'', ''git''), (''trigger'', ''manual''), (''git_connection_id'', ''c1'')]"]) code_simp+

section \<open>Deletion\<close>

text \<open>The stack is there, or no key of it is.\<close>

definition keys_while_stack :: "string \<Rightarrow> app_state \<Rightarrow> bool" where
  "keys_while_stack i s \<longleftrightarrow> find_stack (ap_db s) i \<noteq> None
     \<or> (find_key i (k_age (ap_keys s)) = None \<and> find_key i (k_ssh (ap_keys s)) = None)"

definition no_keys :: "string \<Rightarrow> custodian \<Rightarrow> bool" where
  "no_keys i k \<longleftrightarrow> find_key i (k_age k) = None \<and> find_key i (k_ssh k) = None"

lemma keys_deleted:
  "delete_stack_keys i k = (Inr u, k') \<Longrightarrow> no_keys i k'"
  "delete_stack_keys i k = (r, k') \<Longrightarrow> no_keys i k \<Longrightarrow> no_keys i k'"
  by (auto simp: delete_stack_keys_def bindP_def tryP_def wrapP_def kexec_def kstmt_def no_keys_def find_key_def delete_where_def
      find_None_iff split: prod.splits sum.splits list.splits option.splits)

lemma keeps_no_keys [keeps_intros]: "keeps (no_keys i) (delete_secret_credentials j)"
  unfolding delete_secret_credentials_def kexec_def by (intro keeps_intros keeps_kstmt) (auto simp: no_keys_def)

definition stack_there :: "string \<Rightarrow> db \<Rightarrow> bool" where
  "stack_there i d \<longleftrightarrow> find_stack d i \<noteq> None"

lemma table_present [simp, intro]: "table_inv (stack_there i)"
  by (rule table_invI) (simp_all add: stack_there_def find_stack_def)

lemma keeps_present [keeps_intros]:
  "keeps (stack_there i) (get_stack j)"
  "keeps (stack_there i) (latest_deployment_for_stack j)"
  by (unfold get_stack_def latest_deployment_for_stack_def get_deployment_def; intro keeps_intros; simp)+

lemma keeps_keys_while:
  assumes "keeps (\<lambda>s. no_keys i (ap_keys s)) m" and "keeps (\<lambda>s. stack_there i (ap_db s)) m"
  shows "keeps (keys_while_stack i) m"
  unfolding keeps_def keys_while_stack_def
  using keepsD [OF assms(1)] keepsD [OF assms(2)] unfolding no_keys_def stack_there_def by blast

lemma get_stack_faultless:
  "d_faults d = [] \<Longrightarrow> find_stack d i = Some st \<Longrightarrow> get_stack i d = (Inr st, d)"
  by (simp add: get_stack_def wrapP_def tryP_def bindP_def faultless_exec)

lemma find_unique: "distinct (map key xs) \<Longrightarrow> x \<in> set xs \<Longrightarrow> find (\<lambda>y. key y = key x) xs = Some x"
  by (induction xs) (auto simp: image_iff)

lemma deletion_tail:
  assumes "keeps (\<lambda>s. no_keys i (ap_keys s)) rest"
  shows "keeps (keys_while_stack i) (tryP (on_keys (delete_stack_keys i)) (http_fail 500) (\<lambda>_. rest))"
proof (rule keepsI)
  fix s
  assume b: "keys_while_stack i s"
  obtain r k' where run: "delete_stack_keys i (ap_keys s) = (r, k')" by (metis surj_pair)
  show "keys_while_stack i (snd (tryP (on_keys (delete_stack_keys i)) (http_fail 500) (\<lambda>_. rest) s))"
  proof (cases r)
    case (Inl e)
    then show ?thesis using run b keys_deleted(2) [OF run]
      by (auto simp: tryP_def zoomP_def answer_defs keys_while_stack_def no_keys_def)
  next
    case (Inr u)
    then have "no_keys i k'" using run keys_deleted(1) by simp
    from keepsD [OF assms, of "s\<lparr>ap_keys := k'\<rparr>"] this Inr run show ?thesis
      by (simp add: tryP_def zoomP_def keys_while_stack_def no_keys_def)
  qed
qed

lemma keeps_keys_while_delete: "keeps (keys_while_stack i) (delete_stack_handler i c rq)"
proof -
  have "keeps (\<lambda>s. no_keys i (ap_keys s)) (bindP (tryP (on_store (secret_connections_for_stack i)) (\<lambda>_. okP []) okP) (\<lambda>local.
      tryP (on_keys (forP (\<lambda>x. delete_secret_credentials (sc_id x)) local)) (http_fail 500) (\<lambda>_.
      tryP (on_store (delete_stack i)) (http_fail 500) (\<lambda>_.
        audited c ''stack.delete'' (st_name st) '''' (redirect_with_saved_message ''/stacks'' ''Stack deleted'')))))" for st
    by (intro keeps_intros)
  note tail = deletion_tail [OF this]
  have "keeps (keys_while_stack i) (on_store (get_stack i))"
    and "keeps (keys_while_stack i) (on_store (latest_deployment_for_stack i))"
    by (rule keeps_keys_while; intro keeps_intros)+
  then show ?thesis
    unfolding delete_stack_handler_def with_stack_def
    by (intro tail keeps_tryP keeps_bindP keeps_case_option keeps_answers keeps_okP)
qed

definition latest_deployment :: "string \<Rightarrow> db \<Rightarrow> deployment option" where
  "latest_deployment i d = find (\<lambda>x. dp_stack x = i) (rev (d_deployments d))"

lemma latest_read:
  assumes "d_faults d = []" and "distinct (map dp_id (d_deployments d))"
  shows "latest_deployment_for_stack i d = (Inr (latest_deployment i d), d)"
proof (cases "latest_deployment i d")
  case None
  then show ?thesis using assms(1) by (simp add: latest_deployment_for_stack_def latest_deployment_def bindP_def tryP_def wrap_select)
next
  case (Some dep)
  then have "dep \<in> set (d_deployments d)"
    using find_in [of "\<lambda>x. dp_stack x = i"] by (fastforce simp: latest_deployment_def)
  then have "find_deployment d (dp_id dep) = Some dep"
    by (simp add: find_deployment_def find_unique assms(2))
  with Some show ?thesis using assms(1)
    by (simp add: latest_deployment_for_stack_def latest_deployment_def bindP_def tryP_def wrap_select get_deployment_def one_row_faultless)
qed

text \<open>The two reads of a deletion change no table, and what the second answers, when it answers.\<close>

lemma get_stack_reads:
  assumes "get_stack i d = (r, d')"
  shows "d_deployments d' = d_deployments d \<and> d_stacks d' = d_stacks d"
  using assms
  by (auto simp: get_stack_def bindP_def tryP_def wrapP_def select_def stmt_def one_row_def
      split: prod.splits sum.splits list.splits option.splits)

lemma latest_reads:
  assumes "latest_deployment_for_stack i d = (r, d')"
  shows "d_deployments d' = d_deployments d \<and> d_stacks d' = d_stacks d"
  using assms
  by (auto simp: latest_deployment_for_stack_def get_deployment_def bindP_def tryP_def wrapP_def select_def stmt_def one_row_def
      split: prod.splits sum.splits list.splits option.splits)

lemma latest_answer:
  assumes "latest_deployment_for_stack i d = (Inr r, d')" and "distinct (map dp_id (d_deployments d))"
  shows "r = latest_deployment i d"
proof (cases "latest_deployment i d")
  case None
  then show ?thesis using assms(1)
    by (auto simp: latest_deployment_for_stack_def latest_deployment_def bindP_def tryP_def wrapP_def select_def stmt_def
        split: prod.splits sum.splits list.splits option.splits)
next
  case (Some dep)
  then have "dep \<in> set (d_deployments d)"
    using find_in [of "\<lambda>x. dp_stack x = i"] by (fastforce simp: latest_deployment_def)
  then have "find_deployment d (dp_id dep) = Some dep"
    by (simp add: find_deployment_def find_unique assms(2))
  moreover have "find_deployment (d\<lparr>d_faults := fs\<rparr>) j = find_deployment d j" for fs j by (simp add: find_deployment_def)
  ultimately show ?thesis using assms(1) Some
    by (auto simp: latest_deployment_for_stack_def latest_deployment_def bindP_def tryP_def wrapP_def select_def stmt_def
        get_deployment_def one_row_def split: prod.splits sum.splits list.splits option.splits)
qed

text \<open>
  C26 deletion_safe.  When the deletion of a stack removes it, its keys are gone, whatever fails; and its
  latest deployment was neither pending nor running nor a successful start, unless the very read of that
  deployment failed, whose error the handler ignores.
\<close>

theorem deletion_safe:
  assumes "find_stack (ap_db s) i \<noteq> None" and "distinct (map dp_id (d_deployments (ap_db s)))"
    and "find_stack (ap_db (snd (delete_stack_handler i c rq s))) i = None"
  shows "no_keys i (ap_keys (snd (delete_stack_handler i c rq s)))
    \<and> (latest_deployment i (ap_db s) = Some dep \<and> is_ok (fst (latest_deployment_for_stack i (snd (get_stack i (ap_db s))))) \<longrightarrow>
       dp_status dep \<notin> {''queued'', ''running''} \<and> (dp_action dep = ''up'' \<longrightarrow> dp_status dep \<noteq> ''succeeded''))"
proof (rule conjI)
  have "keys_while_stack i s" using assms(1) by (simp add: keys_while_stack_def)
  from keepsD [OF keeps_keys_while_delete this, of c rq] assms(3)
  show "no_keys i (ap_keys (snd (delete_stack_handler i c rq s)))"
    by (simp add: keys_while_stack_def no_keys_def)
  let ?d = "snd (get_stack i (ap_db s))"
  have "delete_refusal (Some dep) = None"
    if dep: "latest_deployment i (ap_db s) = Some dep" and ok: "is_ok (fst (latest_deployment_for_stack i ?d))"
  proof (rule ccontr)
    assume no: "delete_refusal (Some dep) \<noteq> None"
    obtain r d1 where g: "get_stack i (ap_db s) = (r, d1)" by (metis surj_pair)
    obtain l d' where l: "latest_deployment_for_stack i d1 = (Inr l, d')"
      using ok g by (cases "latest_deployment_for_stack i d1") (auto simp: is_ok_def split: sum.splits)
    have same: "d_deployments d1 = d_deployments (ap_db s)" "find_stack d1 i = find_stack (ap_db s) i"
        "find_stack d' i = find_stack d1 i"
      using get_stack_reads [OF g] latest_reads [OF l] by (simp_all add: find_stack_def)
    have "l = Some dep" using latest_answer [OF l] assms(2) dep same by (simp add: latest_deployment_def)
    with no g l have "find_stack (ap_db (snd (delete_stack_handler i c rq s))) i = find_stack (ap_db s) i"
      using same
      by (cases r) (auto simp: delete_stack_handler_def with_stack_def tryP_def bindP_def zoomP_def answer_defs)
    with assms(1,3) show False by simp
  qed
  then show "latest_deployment i (ap_db s) = Some dep \<and> is_ok (fst (latest_deployment_for_stack i ?d)) \<longrightarrow>
      dp_status dep \<notin> {''queued'', ''running''} \<and> (dp_action dep = ''up'' \<longrightarrow> dp_status dep \<noteq> ''succeeded'')"
    by (auto simp: delete_refusal_def split: if_splits)
qed

definition undeployed_app :: app_state where
  "undeployed_app = local_stack_app\<lparr>ap_db := (ap_db local_stack_app)\<lparr>d_deployments :=
     [\<lparr>dp_id = ''d1'', dp_stack = ''blog'', dp_host = ''h1'', dp_action = ''down'', dp_trigger = ''manual'',
       dp_status = ''succeeded'', dp_output = '''', dp_started = None, dp_finished = None, dp_created = 0\<rparr>]\<rparr>\<rparr>"

lemma deletion_safe_witness:
  "find_key ''blog'' (k_age (ap_keys undeployed_app)) \<noteq> None \<and>
   find_key ''blog'' (k_age (ap_keys (snd (delete_stack_handler ''blog'' None (form []) undeployed_app)))) = None \<and>
   dp_status (the (latest_deployment ''blog'' (ap_db undeployed_app))) \<notin> {''queued'', ''running''}"
proof -
  let ?dep = "the (latest_deployment ''blog'' (ap_db undeployed_app))"
  have pre: "find_stack (ap_db undeployed_app) ''blog'' \<noteq> None" "distinct (map dp_id (d_deployments (ap_db undeployed_app)))"
    "find_stack (ap_db (snd (delete_stack_handler ''blog'' None (form []) undeployed_app))) ''blog'' = None"
    "is_ok (fst (latest_deployment_for_stack ''blog'' (snd (get_stack ''blog'' (ap_db undeployed_app)))))"
    "latest_deployment ''blog'' (ap_db undeployed_app) = Some ?dep"
    by code_simp+
  have "find_key ''blog'' (k_age (ap_keys undeployed_app)) \<noteq> None" by code_simp
  with deletion_safe [OF pre(1-3), of ?dep] pre(4,5) show ?thesis by (auto simp: no_keys_def)
qed

text \<open>A stack that runs is deleted when the read of its latest deployment fails.\<close>

definition running_app :: app_state where
  "running_app = undeployed_app\<lparr>ap_db := (ap_db undeployed_app)\<lparr>d_faults := [None, Some ''database is locked''],
     d_deployments := map (\<lambda>x. x\<lparr>dp_action := ''up'', dp_status := ''running''\<rparr>) (d_deployments (ap_db undeployed_app))\<rparr>\<rparr>"

lemma running_deleted_on_error:
  "map dp_status (d_deployments (ap_db running_app)) = [''running''] \<and> find_stack (ap_db running_app) ''blog'' \<noteq> None
   \<and> find_stack (ap_db (snd (delete_stack_handler ''blog'' None (form []) running_app))) ''blog'' = None"
  by code_simp

section \<open>A poll\<close>

lemma ls_remote_reads:
  assumes "d_faults d = []" and "d_faults d' = []" and "d_connections d' = d_connections d"
    and "st_id st' = st_id st" and "st_connection st' = st_connection st" and "st_repo st' = st_repo st"
    and "st_branch st' = st_branch st"
    and "ls_remote_sha kr git st d = (Inr sha, d)"
  shows "ls_remote_sha kr git st' d' = (Inr sha, d')"
proof -
  have auth: "\<exists>r. resolve_git_auth kr st d = (r, d) \<and> resolve_git_auth kr st' d' = (r, d')"
    using assms(1-7)
    by (auto simp: resolve_git_auth_def get_git_connection_def bindP_def tryP_def wrapP_def liftP_def one_row_faultless
        split: sum.split option.split prod.split)
  then obtain r where r: "resolve_git_auth kr st d = (r, d)" "resolve_git_auth kr st' d' = (r, d')" by blast
  show ?thesis using r assms(4-8)
    by (auto simp: ls_remote_sha_def bindP_def tryP_def wrapP_def liftP_def split: sum.splits list.splits)
qed

lemma ls_remote_faultless: "d_faults d = [] \<Longrightarrow> snd (ls_remote_sha kr git st d) = d"
proof -
  assume f: "d_faults d = []"
  have "\<exists>r. resolve_git_auth kr st d = (r, d)"
    using f by (auto simp: resolve_git_auth_def get_git_connection_def bindP_def tryP_def wrapP_def liftP_def one_row_faultless
        split: sum.split option.split prod.split)
  then obtain r where r: "resolve_git_auth kr st d = (r, d)" by blast
  show ?thesis
    by (cases r) (simp_all add: r ls_remote_sha_def bindP_def tryP_def wrapP_def liftP_def split: sum.split list.split)
qed

lemma find_stack_update:
  "(\<And>s. st_id (f s) = st_id s) \<Longrightarrow> find (\<lambda>s. st_id s = i) (update_where (\<lambda>s. st_id s = i) f rows)
     = map_option f (find (\<lambda>s. st_id s = i) rows)"
  by (induction rows) (auto simp: update_where_def)

definition polled_deployment :: "stack \<Rightarrow> db \<Rightarrow> deployment" where
  "polled_deployment st d =
     \<lparr>dp_id = d_rand d (d_drawn d), dp_stack = st_id st, dp_host = st_host st, dp_action = ''up'', dp_trigger = ''polling'',
      dp_status = ''queued'', dp_output = '''', dp_started = None, dp_finished = None, dp_created = d_now d\<rparr>"

lemma poll_run:
  assumes f: "d_faults d = []" and st: "find_stack d i = Some st" and sha: "ls_remote_sha kr git st d = (Inr sha, d)"
    and fresh: "d_rand d (d_drawn d) \<notin> dp_id ` set (d_deployments d)"
    and run: "poll_stack kr git i d = (r, d')"
  shows "find_stack d' i = Some (st\<lparr>st_last_sha := sha, st_last_polled := Some (d_now d)\<rparr>)"
    and "d_deployments d' = d_deployments d @ (if sha = st_last_sha st \<or> st_last_sha st = '''' then [] else [polled_deployment st d])"
    and "d_faults d' = []" and "d_rand d' = d_rand d" and "d_connections d' = d_connections d"
    and "d_drawn d' = (if sha = st_last_sha st \<or> st_last_sha st = '''' then d_drawn d else Suc (d_drawn d))"
proof -
  let ?d1 = "d_stacks_update (update_where (\<lambda>s. st_id s = i) (\<lambda>s. s\<lparr>st_last_sha := sha, st_last_polled := Some (d_now d)\<rparr>)) d"
  have id: "st_id st = i" using st find_in [of "\<lambda>s. st_id s = i"] by (fastforce simp: find_stack_def)
  have rec: "record_poll i sha d = (Inr (), ?d1)"
    using f by (simp add: record_poll_def update_stack_def unitP_def wrapP_def bindP_def tryP_def faultless_exec)
  have found: "find_stack ?d1 i = Some (st\<lparr>st_last_sha := sha, st_last_polled := Some (d_now d)\<rparr>)"
    using st by (simp add: find_stack_def find_stack_update)
  have main: "find_stack d' i = Some (st\<lparr>st_last_sha := sha, st_last_polled := Some (d_now d)\<rparr>)
      \<and> d_deployments d' = d_deployments d @ (if sha = st_last_sha st \<or> st_last_sha st = '''' then [] else [polled_deployment st d])
      \<and> d_faults d' = [] \<and> d_rand d' = d_rand d \<and> d_connections d' = d_connections d
      \<and> d_drawn d' = (if sha = st_last_sha st \<or> st_last_sha st = '''' then d_drawn d else Suc (d_drawn d))"
    proof (cases "sha = st_last_sha st \<or> st_last_sha st = ''''")
      case True
      then have "d' = ?d1" using run f st sha id rec
        by (auto simp: poll_stack_def tryP_def get_stack_faultless Let_def)
      then show ?thesis using True found f by auto
    next
      case False
      have clash: "first_clash [(''deployments.id'', \<lambda>x. dp_id x = d_rand d (d_drawn d))] (d_deployments d) = None"
        using fresh by (auto simp: first_clash_None image_iff)
      have none: "find (\<lambda>x. dp_id x = d_rand d (d_drawn d)) (d_deployments d) = None"
        using fresh by (auto simp: find_None_iff image_iff)
      have "d' = snd (queue_polled_deploy st sha ?d1)" using run f st sha id rec False
        by (simp add: poll_stack_def tryP_def get_stack_faultless Let_def)
      also have "\<dots> = snd (audit_system ''polling'' ''stack.deploy_polling'' (st_name st) (''commit '' @ take 7 sha)
          (d_deployments_update (\<lambda>rs. rs @ [polled_deployment st d]) (?d1\<lparr>d_drawn := Suc (d_drawn d)\<rparr>)))"
        using f clash none
        by (simp add: queue_polled_deploy_def enqueue_deployment_def bindP_def tryP_def draw_def unitP_def wrapP_def faultless_exec
            get_deployment_def find_deployment_def one_row_faultless polled_deployment_def find_append)
      finally show ?thesis using False found f
        by (auto simp: audit_system_def ignoreP_def record_audit_def unitP_def wrapP_def bindP_def tryP_def faultless_exec find_stack_def)
    qed
  then show "find_stack d' i = Some (st\<lparr>st_last_sha := sha, st_last_polled := Some (d_now d)\<rparr>)"
      and "d_deployments d' = d_deployments d @ (if sha = st_last_sha st \<or> st_last_sha st = '''' then [] else [polled_deployment st d])"
      and "d_faults d' = []" and "d_rand d' = d_rand d" and "d_connections d' = d_connections d"
      and "d_drawn d' = (if sha = st_last_sha st \<or> st_last_sha st = '''' then d_drawn d else Suc (d_drawn d))"
      by blast+
qed

text \<open>The heads at which a deployment is due, from the last known one on; the first head seen is the baseline.\<close>

fun changes :: "string \<Rightarrow> string list \<Rightarrow> string list" where
  "changes known [] = []"
| "changes known (sha # shas) = (if sha = known \<or> known = '''' then [] else [sha]) @ changes sha shas"

definition polled_entry :: "deployment \<Rightarrow> string \<times> string \<times> string \<times> string \<times> string" where
  "polled_entry dep = (dp_stack dep, dp_host dep, dp_action dep, dp_trigger dep, dp_status dep)"

text \<open>
  C27 polls_deploy_each_change.  A sequence of polls of a stack queues one deployment of it for each
  change of the branch's head, and none for the first head ever seen, while the database answers and
  its random ids do not repeat.
\<close>

theorem polls_deploy_each_change:
  assumes "d_faults d = []" and "find_stack d i = Some st" and "inj (d_rand d)"
    and "\<forall>dep\<in>set (d_deployments d). \<exists>n<d_drawn d. dp_id dep = d_rand d n"
    and "list_all2 (\<lambda>git sha. ls_remote_sha kr git st d = (Inr sha, d)) gits shas"
  shows "\<exists>new. d_deployments (fold (\<lambda>git d. snd (poll_stack kr git i d)) gits d) = d_deployments d @ new
     \<and> map polled_entry new = map (\<lambda>_. (i, st_host st, ''up'', ''polling'', ''queued'')) (changes (st_last_sha st) shas)"
  using assms
proof (induction gits arbitrary: d st shas)
  case (Cons git gits)
  then obtain sha rest where shas: "shas = sha # rest" "ls_remote_sha kr git st d = (Inr sha, d)"
    "list_all2 (\<lambda>git sha. ls_remote_sha kr git st d = (Inr sha, d)) gits rest" by (auto simp: list_all2_Cons1)
  obtain r d1 where run: "poll_stack kr git i d = (r, d1)" by (metis surj_pair)
  have id: "st_id st = i" using Cons.prems(2) find_in [of "\<lambda>s. st_id s = i"] by (fastforce simp: find_stack_def)
  have fresh: "d_rand d (d_drawn d) \<notin> dp_id ` set (d_deployments d)"
    using Cons.prems(3,4) by (fastforce dest: injD)
  note p = poll_run [OF Cons.prems(1,2) shas(2) fresh run]
  let ?st = "st\<lparr>st_last_sha := sha, st_last_polled := Some (d_now d)\<rparr>"
  have heads: "list_all2 (\<lambda>git sha. ls_remote_sha kr git ?st d1 = (Inr sha, d1)) gits rest"
    using shas(3) by (rule list_all2_mono) (rule ls_remote_reads [OF Cons.prems(1) p(3,5)]; simp)
  have ids: "\<forall>dep\<in>set (d_deployments d1). \<exists>n<d_drawn d1. dp_id dep = d_rand d1 n"
    using Cons.prems(4) by (auto simp: p polled_deployment_def intro: less_SucI)
  have "\<exists>new. d_deployments (fold (\<lambda>git d. snd (poll_stack kr git i d)) gits d1) = d_deployments d1 @ new
     \<and> map polled_entry new = map (\<lambda>_. (i, st_host ?st, ''up'', ''polling'', ''queued'')) (changes (st_last_sha ?st) rest)"
    using Cons.prems(3) by (intro Cons.IH p(1,3) heads ids) (simp add: p)
  moreover have "polled_entry (polled_deployment st d) = (i, st_host st, ''up'', ''polling'', ''queued'')"
    by (simp add: polled_entry_def polled_deployment_def id)
  ultimately show ?case using run by (auto simp: shas(1) p(2))
qed simp

definition polled_db :: db where
  "polled_db = (empty_db 0 (\<lambda>n. replicate n CHR ''x''))\<lparr>d_stacks :=
     [\<lparr>st_id = ''blog'', st_name = ''Blog'', st_source = ''git'', st_repo = ''r'', st_branch = ''main'', st_compose_path = '''',
       st_compose = '''', st_secret = '''', st_host = ''h1'', st_trigger = ''polling'', st_pubkey = '''', st_ssh_pubkey = '''',
       st_connection = '''', st_webhook_secret = '''', st_schedule = '''', st_last_sha = '''', st_last_polled = None, st_subst_keys = ''''\<rparr>]\<rparr>"

definition open_keyring :: keyring where
  "open_keyring = \<lparr>kr_registries = Inr [], kr_ssh = Inr, kr_conn_ssh = Inr, kr_conn_http = (\<lambda>_. Inr ('''', '''')),
     kr_decrypt = (\<lambda>_. Inr), kr_secret_creds = (\<lambda>_. Inr [])\<rparr>"

lemma polls_deploy_each_change_witness:
  "\<exists>new. d_deployments (fold (\<lambda>git d. snd (poll_stack open_keyring git ''blog'' d))
     [\<lambda>_ _ _. Inr ''a1 refs/heads/main'', \<lambda>_ _ _. Inr ''a1 refs/heads/main'', \<lambda>_ _ _. Inr ''b2 refs/heads/main''] polled_db) = new
     \<and> map polled_entry new = [(''blog'', ''h1'', ''up'', ''polling'', ''queued'')]"
proof -
  have "\<exists>new. d_deployments (fold (\<lambda>git d. snd (poll_stack open_keyring git ''blog'' d))
     [\<lambda>_ _ _. Inr ''a1 refs/heads/main'', \<lambda>_ _ _. Inr ''a1 refs/heads/main'', \<lambda>_ _ _. Inr ''b2 refs/heads/main''] polled_db)
       = d_deployments polled_db @ new
     \<and> map polled_entry new = map (\<lambda>_. (''blog'', st_host (hd (d_stacks polled_db)), ''up'', ''polling'', ''queued''))
         (changes (st_last_sha (hd (d_stacks polled_db))) [''a1'', ''a1'', ''b2''])"
  proof (rule polls_deploy_each_change)
    show "inj (d_rand polled_db)" by (auto simp: inj_def polled_db_def empty_db_def dest: arg_cong [of _ _ length])
    show "d_faults polled_db = []" "find_stack polled_db ''blog'' = Some (hd (d_stacks polled_db))"
      "\<forall>dep\<in>set (d_deployments polled_db). \<exists>n<d_drawn polled_db. dp_id dep = d_rand polled_db n"
      by (simp_all add: polled_db_def empty_db_def find_stack_def)
    have "ls_remote_sha open_keyring (\<lambda>_ _ _. Inr ''a1 refs/heads/main'') (hd (d_stacks polled_db)) polled_db = (Inr ''a1'', polled_db)"
      by (simp add: ls_remote_sha_def resolve_git_auth_def polled_db_def open_keyring_def bindP_def tryP_def wrapP_def liftP_def) code_simp
    moreover have "ls_remote_sha open_keyring (\<lambda>_ _ _. Inr ''b2 refs/heads/main'') (hd (d_stacks polled_db)) polled_db = (Inr ''b2'', polled_db)"
      by (simp add: ls_remote_sha_def resolve_git_auth_def polled_db_def open_keyring_def bindP_def tryP_def wrapP_def liftP_def) code_simp
    ultimately show "list_all2 (\<lambda>git sha. ls_remote_sha open_keyring git (hd (d_stacks polled_db)) polled_db = (Inr sha, polled_db))
        [\<lambda>_ _ _. Inr ''a1 refs/heads/main'', \<lambda>_ _ _. Inr ''a1 refs/heads/main'', \<lambda>_ _ _. Inr ''b2 refs/heads/main'']
        [''a1'', ''a1'', ''b2'']" by simp
  qed
  then show ?thesis by (simp add: polled_db_def empty_db_def)
qed

section \<open>A schedule that outlives its stack\<close>

lemma keeps_polls:
  "keeps (\<lambda>t. ap_polls t = p) (on_store m)" "keeps (\<lambda>t. ap_polls t = p) (on_keys k)"
  by (auto simp: keeps_def zoomP_def split: prod.split)

lemma deletion_leaves_schedule: "ap_polls (snd (delete_stack_handler i c rq s)) = ap_polls s"
proof -
  have "keeps (\<lambda>t. ap_polls t = ap_polls s) (delete_stack_handler i c rq)"
    unfolding delete_stack_handler_def with_stack_def audited_def
    by (intro keeps_tryP keeps_bindP keeps_case_option keeps_answers keeps_okP keeps_polls)
  from keepsD [OF this, of s] show ?thesis by simp
qed

text \<open>
  The schedule of a polled stack outlives its deletion: while the
  scheduler is as the deletion left it, a stack created later under the same name is deployed when its
  branch moves, although it asks for manual deployment.
\<close>

theorem deleted_schedule_deploys:
  assumes "entries_of i (ap_polls s) \<noteq> []" and "ap_polls t = ap_polls (snd (delete_stack_handler i c rq s))"
    and "find_stack (ap_db t) i = Some st" and "st_trigger st = ''manual''" and "st_last_sha st \<noteq> ''''"
    and "d_faults (ap_db t) = []" and "d_rand (ap_db t) (d_drawn (ap_db t)) \<notin> dp_id ` set (d_deployments (ap_db t))"
    and "ls_remote_sha (keyring_of (se_crypto env) (ap_keys t)) (se_git env) st (ap_db t) = (Inr sha, ap_db t)"
    and "sha \<noteq> st_last_sha st"
  shows "d_deployments (ap_db (stack_step env (PollTick i) t)) = d_deployments (ap_db t) @ [polled_deployment st (ap_db t)]"
proof -
  obtain r d' where run: "poll_stack (keyring_of (se_crypto env) (ap_keys t)) (se_git env) i (ap_db t) = (r, d')"
    by (metis surj_pair)
  have "entries_of i (ap_polls t) \<noteq> []" using assms(1,2) deletion_leaves_schedule by simp
  then show ?thesis using run poll_run(2) [OF assms(6,3,8,7) run] assms(5,9) by (simp add: zoomP_def)
qed

text \<open>The deleted stack was polled; the new one was polled once by hand of the old schedule.\<close>

definition polled_app :: app_state where
  "polled_app = stack_step plain_env (Form NewStack None (form [(''name'', ''blog''), (''source'', ''git''),
     (''trigger'', ''polling''), (''poll_schedule'', ''@daily'')])) fresh_app"

definition recreated_app :: app_state where
  "recreated_app = fold (stack_step plain_env)
     [Form (DeleteStack ''blog'') None (form []),
      Form NewStack None (form [(''name'', ''blog''), (''source'', ''git''), (''host'', ''h1'')]),
      PollTick ''blog''] polled_app"

definition moved_env :: stack_env where
  "moved_env = plain_env\<lparr>se_git := (\<lambda>_ _ _. Inr ''def'')\<rparr>"

lemma deleted_schedule_deploys_witness:
  "st_trigger (hd (d_stacks (ap_db recreated_app))) = ''manual'' \<and> d_deployments (ap_db recreated_app) = [] \<and>
   d_deployments (ap_db (stack_step moved_env (PollTick ''blog'') recreated_app))
     = [polled_deployment (hd (d_stacks (ap_db recreated_app))) (ap_db recreated_app)]"
proof -
  have no_faults: "d_faults (ap_db recreated_app) = []" by code_simp
  have none: "d_deployments (ap_db recreated_app) = []" by code_simp
  have man: "st_trigger (hd (d_stacks (ap_db recreated_app))) = ''manual''" by code_simp
  let ?ls = "ls_remote_sha (keyring_of (se_crypto moved_env) (ap_keys recreated_app)) (se_git moved_env)
      (hd (d_stacks (ap_db recreated_app))) (ap_db recreated_app)"
  have "fst ?ls = Inr ''def''" by code_simp
  with ls_remote_faultless [OF no_faults] have run: "?ls = (Inr ''def'', ap_db recreated_app)" by (intro prod_eqI) simp_all
  have "d_deployments (ap_db (stack_step moved_env (PollTick ''blog'') recreated_app))
      = d_deployments (ap_db recreated_app) @ [polled_deployment (hd (d_stacks (ap_db recreated_app))) (ap_db recreated_app)]"
    by (rule deleted_schedule_deploys [where s = polled_app and c = None and rq = "form []" and sha = "''def''"])
       (rule run man no_faults | simp add: none | code_simp)+
  with none man show ?thesis by simp
qed

lemma find_other_deleted: "j \<noteq> i \<Longrightarrow> find (\<lambda>r. key r = i) (filter (\<lambda>r. key r \<noteq> j) rows) = find (\<lambda>r. key r = i) rows"
  by (induction rows) auto

section \<open>Encrypted values stay readable\<close>

definition key_is :: "string \<Rightarrow> key_row \<Rightarrow> custodian \<Rightarrow> bool" where
  "key_is i row k \<longleftrightarrow> find_key i (k_age k) = Some row"

lemma keeps_key_is [keeps_intros]:
  "keeps (key_is i row) (generate_keypair cy j)"
  "keeps (key_is i row) (generate_ssh_keypair cy j)"
  "keeps (key_is i row) (encrypt cy j m)"
  "keeps (key_is i row) (delete_secret_credentials j)"
  by (unfold generate_keypair_def generate_ssh_keypair_def encrypt_def public_key_def delete_secret_credentials_def
      krow_def kquery_def kinsert_def kexec_def;
      intro keeps_intros keeps_kstmt; auto simp: key_is_def kdraw_def keeps_def find_key_append split: option.splits)+

lemma keeps_key_is_delete: "j \<noteq> i \<Longrightarrow> keeps (key_is i row) (delete_stack_keys j)"
  unfolding delete_stack_keys_def kexec_def
  by (intro keeps_intros keeps_kstmt) (auto simp: key_is_def find_key_def delete_where_def find_other_deleted)

lemma keeps_key_is_event:
  assumes "\<forall>c rq. e \<noteq> Form (DeleteStack i) c rq"
  shows "key_is i row (ap_keys s) \<Longrightarrow> key_is i row (ap_keys (stack_step env e s))"
proof (cases e)
  case (Form a c rq)
  assume k: "key_is i row (ap_keys s)"
  have new: "keeps (\<lambda>s. key_is i row (ap_keys s)) (create_stack_handler cy cron c rq)" for cy cron
    unfolding create_stack_handler_def store_stack_def stack_credentials_def Let_def by (intro keeps_intros)
  have gone: "keeps (\<lambda>s. key_is i row (ap_keys s)) (delete_stack_handler j c rq)" if "j \<noteq> i" for j
    unfolding delete_stack_handler_def by (intro keeps_intros keeps_key_is_delete that)
  have "keeps (\<lambda>s. key_is i row (ap_keys s)) (stack_action_handler env a c rq)"
    using assms by (cases a) (simp_all add: Form new gone keeps_key_handlers keeps_key_is)
  from keepsD [OF this k] show ?thesis by (simp add: Form)
next
  case (Hook j hk)
  assume k: "key_is i row (ap_keys s)"
  from keepsD [OF keeps_key_handlers(10) [OF keeps_key_is(3)] k] show ?thesis by (simp add: Hook)
qed (simp add: zoomP_def split: prod.split)

lemma encrypt_Inr:
  assumes "encrypt cy i m k = (Inr c, k')" and "find_key i (k_age k) = Some row"
  shows "\<exists>n. cy_encrypt cy n (ky_public row) m = Inr c" and "key_is i row k'"
proof -
  obtain pub k1 where pub: "public_key i k = (Inr pub, k1)" and n: "cy_encrypt cy (k_drawn k1) pub m = Inr c"
    and k': "k_age k' = k_age k1"
    using assms(1) by (auto simp: encrypt_def bindP_Inr kdraw_def liftP_def split: sum.splits)
  have "pub = ky_public row \<and> k_age k1 = k_age k"
    using pub assms(2) by (cases "k_faults k"; cases "hd (k_faults k)")
      (auto simp: public_key_def krow_def kquery_def kstmt_def bindP_Inr)
  then show "\<exists>n. cy_encrypt cy n (ky_public row) m = Inr c" and "key_is i row k'"
    using n k' assms(2) by (auto simp: key_is_def)
qed

text \<open>
  C28 secrets_stay_readable.  A value encrypted for a stack is decrypted to itself by the custodian after
  any history of forms, web hooks and polls that does not delete the stack.  The hypotheses on
  \<open>cy\<close> state what the age library documents: what is encrypted to a generated recipient is decrypted
  with its identity, and is no SOPS document.
\<close>

theorem secrets_stay_readable:
  assumes "\<And>n pub priv n' v x. cy_age_key cy n = Inr (pub, priv) \<Longrightarrow> cy_encrypt cy n' pub v = Inr x \<Longrightarrow>
      cy_identity cy priv = Inr () \<and> \<not> cy_is_sops cy x \<and> cy_decrypt cy priv x = Inr v"
    and "find_key i (k_age k) = Some row" and "cy_age_key cy n = Inr (ky_public row, ky_private row)"
    and "encrypt cy i m k = (Inr c, ap_keys s)"
    and "\<forall>e\<in>set es. \<forall>w rq. e \<noteq> Form (DeleteStack i) w rq"
    and "k_faults (ap_keys (fold (stack_step env) es s)) = []"
  shows "fst (decrypt cy i c (ap_keys (fold (stack_step env) es s))) = Inr m"
proof -
  from encrypt_Inr [OF assms(4,2)] obtain n' where n': "cy_encrypt cy n' (ky_public row) m = Inr c"
    and "key_is i row (ap_keys s)" by blast
  then have "key_is i row (ap_keys (fold (stack_step env) es s))" using assms(5)
    by (induction es arbitrary: s) (simp_all add: keeps_key_is_event)
  with assms(1) [OF assms(3) n'] assms(6) show ?thesis
    by (simp add: decrypt_def decrypt_with_def krow_def kquery_def kstmt_def bindP_def tryP_def wrapP_def key_is_def liftP_def)
qed

lemma secrets_stay_readable_witness:
  "fst (decrypt plain_crypto ''blog'' ''K=v'' (ap_keys (fold (stack_step plain_env)
     [Form (RenameStack ''blog'') None (form [(''name'', ''B'')]), PollTick ''blog''] local_stack_app))) = Inr ''K=v''"
proof (rule secrets_stay_readable [where n = 0 and cy = plain_crypto and m = "''K=v''"
      and k = "(ap_keys local_stack_app)\<lparr>k_drawn := 0\<rparr>"
      and row = "\<lparr>ky_id = ''blog'', ky_public = ''age'', ky_private = ''AGE'', ky_source = ''generated'', ky_created = 0\<rparr>"])
  show "encrypt plain_crypto ''blog'' ''K=v'' ((ap_keys local_stack_app)\<lparr>k_drawn := 0\<rparr>) = (Inr ''K=v'', ap_keys local_stack_app)"
    by code_simp
qed (simp_all add: plain_crypto_def, code_simp+)

end
