(* ===== verification/Go_Paths.thy ===== *)
theory Go_Paths
  imports Web
begin

text \<open>
  The functions of \<^verbatim>\<open>path\<close>, \<^verbatim>\<open>encoding/base64\<close> and \<^verbatim>\<open>unicode/utf8\<close> that the pages of volumes use, and
  \<^verbatim>\<open>humanSize\<close> of \<^verbatim>\<open>src/images.go\<close>: sizes with a unit, whose loop ends below the seventh unit.
\<close>

section \<open>Paths\<close>

text \<open>\<^verbatim>\<open>path.Clean\<close> of a path that is not rooted keeps the leading \<open>..\<close>.\<close>

fun clean_relative :: "string list \<Rightarrow> string list \<Rightarrow> string list" where
  "clean_relative out [] = rev out"
| "clean_relative out (w # ws) =
     (if w = [] \<or> w = ''.'' then clean_relative out ws
      else if w = ''..'' then
        (if out = [] \<or> hd out = ''..'' then clean_relative (''..'' # out) ws else clean_relative (tl out) ws)
      else clean_relative (w # out) ws)"

definition path_clean :: "string \<Rightarrow> string" where
  "path_clean p =
     (if prefix ''/'' p then clean_rooted p
      else (case clean_relative [] (split_on CHR ''/'' p) of [] \<Rightarrow> ''.'' | ws \<Rightarrow> join_with ''/'' ws))"

text \<open>What follows the last slash, and what comes before it with the slash.\<close>

definition last_part :: "string \<Rightarrow> string" where
  "last_part p = rev (takeWhile (\<lambda>c. c \<noteq> CHR ''/'') (rev p))"

definition dir_part :: "string \<Rightarrow> string" where
  "dir_part p = rev (dropWhile (\<lambda>c. c \<noteq> CHR ''/'') (rev p))"

definition path_dir :: "string \<Rightarrow> string" where
  "path_dir p = path_clean (dir_part p)"

definition path_join :: "string \<Rightarrow> string \<Rightarrow> string" where
  "path_join a b =
     (if a = '''' \<and> b = '''' then '''' else path_clean (if a = '''' then b else a @ ''/'' @ b))"

definition path_base :: "string \<Rightarrow> string" where
  "path_base p =
     (if p = '''' then ''.''
      else (let q = rev (dropWhile (\<lambda>c. c = CHR ''/'') (rev p)) in if q = '''' then ''/'' else last_part q))"

section \<open>Base64\<close>

definition base64_char :: "nat \<Rightarrow> char" where
  "base64_char n = ''ABCDEFGHIJKLMNOPQRSTUVWXYZabcdefghijklmnopqrstuvwxyz0123456789+/'' ! n"

definition base64_val :: "char \<Rightarrow> nat option" where
  "base64_val c =
     (if is_upper c then Some (of_char c - 65) else if is_lower c then Some (of_char c - 71)
      else if is_digit c then Some (of_char c + 4) else if c = CHR ''+'' then Some 62
      else if c = CHR ''/'' then Some 63 else None)"

text \<open>\<^verbatim>\<open>StdEncoding\<close>: three bytes are four characters, the last group padded.\<close>

fun base64_encode :: "string \<Rightarrow> string" where
  "base64_encode (a # b # c # s) =
     (let x = of_char a; y = of_char b; z = of_char c :: nat in
      [base64_char (x div 4), base64_char (x mod 4 * 16 + y div 16), base64_char (y mod 16 * 4 + z div 64), base64_char (z mod 64)]
        @ base64_encode s)"
| "base64_encode [a, b] =
     (let x = of_char a; y = of_char b :: nat in
      [base64_char (x div 4), base64_char (x mod 4 * 16 + y div 16), base64_char (y mod 16 * 4), CHR ''=''])"
| "base64_encode [a] =
     (let x = of_char a :: nat in [base64_char (x div 4), base64_char (x mod 4 * 16), CHR ''='', CHR ''=''])"
| "base64_encode [] = []"

definition quad_bytes :: "nat \<Rightarrow> nat \<Rightarrow> nat \<Rightarrow> nat \<Rightarrow> string" where
  "quad_bytes p q r t =
     [char_of (p * 4 + q div 16), char_of (q mod 16 * 16 + r div 4), char_of (r mod 4 * 64 + t)]"

text \<open>The bits that padding leaves over are not looked at, as the encoding is not the strict one.\<close>

fun base64_groups :: "string \<Rightarrow> string option" where
  "base64_groups [] = Some []"
| "base64_groups (a # b # c # d # s) =
     (case (base64_val a, base64_val b) of
        (Some p, Some q) \<Rightarrow>
          (case base64_val c of
             Some r \<Rightarrow>
               (case base64_val d of
                  Some t \<Rightarrow> map_option (\<lambda>x. quad_bytes p q r t @ x) (base64_groups s)
                | None \<Rightarrow> if d = CHR ''='' \<and> s = [] then Some (take 2 (quad_bytes p q r 0)) else None)
           | None \<Rightarrow> if c = CHR ''='' \<and> d = CHR ''='' \<and> s = [] then Some (take 1 (quad_bytes p q 0 0)) else None)
      | _ \<Rightarrow> None)"
| "base64_groups s = None"

text \<open>Line ends are skipped anywhere.\<close>

definition base64_decode :: "string \<Rightarrow> string option" where
  "base64_decode s = base64_groups (filter (\<lambda>c. c \<noteq> CHR 0x0A \<and> c \<noteq> CHR 0x0D) s)"

section \<open>UTF-8\<close>

definition byte_in :: "nat \<Rightarrow> nat \<Rightarrow> char \<Rightarrow> bool" where
  "byte_in lo hi c \<longleftrightarrow> lo \<le> of_char c \<and> of_char c \<le> hi"

text \<open>The range of the second byte, and how many bytes follow it, by the first one.\<close>

definition utf8_lead :: "char \<Rightarrow> (nat \<times> nat \<times> nat) option" where
  "utf8_lead c =
     (if byte_in 0xC2 0xDF c then Some (0x80, 0xBF, 0)
      else if c = CHR 0xE0 then Some (0xA0, 0xBF, 1)
      else if c = CHR 0xED then Some (0x80, 0x9F, 1)
      else if byte_in 0xE1 0xEF c then Some (0x80, 0xBF, 1)
      else if c = CHR 0xF0 then Some (0x90, 0xBF, 2)
      else if c = CHR 0xF4 then Some (0x80, 0x8F, 2)
      else if byte_in 0xF1 0xF3 c then Some (0x80, 0xBF, 2)
      else None)"

function utf8_valid :: "string \<Rightarrow> bool" where
  "utf8_valid s =
     (case s of
        [] \<Rightarrow> True
      | c # r \<Rightarrow>
        if byte_in 0 0x7F c then utf8_valid r
        else (case utf8_lead c of
            None \<Rightarrow> False
          | Some (lo, hi, n) \<Rightarrow>
            r \<noteq> [] \<and> byte_in lo hi (hd r) \<and> n \<le> length (tl r) \<and> list_all (byte_in 0x80 0xBF) (take n (tl r))
              \<and> utf8_valid (drop n (tl r))))"
  by pat_completeness auto
termination
  by (relation "measure length") auto

declare utf8_valid.simps [simp del]

section \<open>Sizes\<close>

text \<open>
  The loop of \<^verbatim>\<open>humanSize\<close> over \<open>n\<close>, with the unit and its index; it runs on the non-negative
  \<^verbatim>\<open>int64\<close> \<open>n\<close>, and the unit is one while it stays below \<open>2 ^ 63\<close>.
\<close>

function size_unit :: "nat \<Rightarrow> nat \<Rightarrow> nat \<Rightarrow> nat \<times> nat" where
  "size_unit n unit exponent = (if 1024 \<le> n then size_unit (n div 1024) (unit * 1024) (exponent + 1) else (unit, exponent))"
  by pat_completeness auto
termination
  by (relation "measure (\<lambda>(n, unit, exponent). n)") auto

declare size_unit.simps [simp del]

text \<open>A quotient to the nearest integer, a tie to the even one.\<close>

definition round_even :: "nat \<Rightarrow> nat \<Rightarrow> nat" where
  "round_even a b =
     (let q = a div b; r = a mod b in if 2 * r > b \<or> (2 * r = b \<and> odd q) then q + 1 else q)"

text \<open>\<^verbatim>\<open>float64\<close> of an integer below \<open>2 ^ 63\<close>: 53 bits, rounded.\<close>

definition to_float64 :: "nat \<Rightarrow> nat" where
  "to_float64 n =
     (case find (\<lambda>k. n < 2 ^ (53 + k)) [0..<11] of None \<Rightarrow> n | Some k \<Rightarrow> round_even n (2 ^ k) * 2 ^ k)"

text \<open>The quotient by a power of two is exact, and printed with two decimals.\<close>

definition human_size :: "int \<Rightarrow> string" where
  "human_size bytes =
     (if bytes < 1024 then show_int bytes @ '' B''
      else (case size_unit (nat (bytes div 1024)) 1024 0 of (unit, exponent) \<Rightarrow>
        (let h = round_even (to_float64 (nat bytes) * 100) unit in
         digits_of (h div 100) @ ''.'' @ [char_of (48 + h mod 100 div 10), char_of (48 + h mod 10)] @ '' ''
           @ [''KMGTPE'' ! exponent] @ ''iB'')))"

section \<open>Lemmas\<close>

text \<open>The segments a rooted path is made of when it is clean.\<close>

definition plain_segment :: "string \<Rightarrow> bool" where
  "plain_segment w \<longleftrightarrow> w \<noteq> '''' \<and> w \<noteq> ''.'' \<and> w \<noteq> ''..'' \<and> CHR ''/'' \<notin> set w"

lemma clean_elems_plain:
  "(\<And>w. w \<in> set out \<union> set ws \<Longrightarrow> CHR ''/'' \<notin> set w) \<Longrightarrow> (\<And>w. w \<in> set out \<Longrightarrow> plain_segment w) \<Longrightarrow>
     w \<in> set (clean_elems out ws) \<Longrightarrow> plain_segment w"
proof (induction out ws rule: clean_elems.induct)
  case (2 out v ws)
  have "set (tl out) \<subseteq> set out" by (cases out) auto
  with 2 show ?case by (auto simp: plain_segment_def subset_iff split: if_splits)
qed simp

lemma clean_rooted_segments:
  "\<exists>ws. clean_rooted p = CHR ''/'' # join_with ''/'' ws \<and> list_all plain_segment ws"
  using clean_elems_plain [of "[]" "split_on CHR ''/'' p"] split_parts_no_sep
  by (auto simp: clean_rooted_def list_all_iff)

text \<open>What is encoded is decoded.\<close>

lemma base64_val_char: "n < 64 \<Longrightarrow> base64_val (base64_char n) = Some n"
proof -
  have "\<forall>n\<in>set [0..<64]. base64_val (base64_char n) = Some n" by code_simp
  then show "n < 64 \<Longrightarrow> base64_val (base64_char n) = Some n" by simp
qed

lemma base64_char_cases: "n < 64 \<Longrightarrow> base64_char n \<noteq> CHR 0x0A \<and> base64_char n \<noteq> CHR 0x0D \<and> base64_char n \<noteq> CHR ''=''"
proof -
  have "\<forall>n\<in>set [0..<64]. base64_char n \<noteq> CHR 0x0A \<and> base64_char n \<noteq> CHR 0x0D \<and> base64_char n \<noteq> CHR ''=''" by code_simp
  then show "n < 64 \<Longrightarrow> base64_char n \<noteq> CHR 0x0A \<and> base64_char n \<noteq> CHR 0x0D \<and> base64_char n \<noteq> CHR ''=''" by simp
qed

lemma byte_less: "(of_char c :: nat) < 256"
  by (rule nat_of_char_less_256)

lemma sextets [simp]:
  fixes a b c :: char
  shows "of_char a div 4 < (64 :: nat)" and "of_char a mod 4 * 16 + of_char b div 16 < (64 :: nat)"
    and "of_char b mod 16 * 4 + of_char c div 64 < (64 :: nat)" and "of_char a mod 4 * 16 < (64 :: nat)"
    and "of_char b mod 16 * 4 < (64 :: nat)"
proof -
  have *: "of_char a mod 4 \<le> (3 :: nat)" "of_char b div 16 \<le> (15 :: nat)" "of_char b mod 16 \<le> (15 :: nat)"
    "of_char c div 64 \<le> (3 :: nat)"
    using byte_less [of b] byte_less [of c] by (simp_all add: less_Suc_eq_le [symmetric] div_less_iff_less_mult)
  show "of_char a div 4 < (64 :: nat)" using byte_less [of a] by (simp add: div_less_iff_less_mult)
  show "of_char a mod 4 * 16 + of_char b div 16 < (64 :: nat)" "of_char b mod 16 * 4 + of_char c div 64 < (64 :: nat)"
    "of_char a mod 4 * 16 < (64 :: nat)" "of_char b mod 16 * 4 < (64 :: nat)" using * by linarith+
qed

lemma base64_plain:
  "filter (\<lambda>c. c \<noteq> CHR 0x0A \<and> c \<noteq> CHR 0x0D) (base64_encode s) = base64_encode s"
  by (induction s rule: base64_encode.induct) (simp_all add: Let_def base64_char_cases)

lemma quad_encoded:
  assumes "y < 256" and "z < (256 :: nat)"
  shows "x div 4 * 4 + (x mod 4 * 16 + y div 16) div 16 = x"
    and "(x mod 4 * 16 + y div 16) mod 16 * 16 + (y mod 16 * 4 + z div 64) div 4 = y"
    and "(y mod 16 * 4 + z div 64) mod 4 * 64 + z mod 64 = z"
proof -
  have lt: "y div 16 < 16" "z div 64 < 4" using assms by (simp_all add: div_less_iff_less_mult)
  have "(x mod 4 * 16 + y div 16) div 16 = x mod 4" "(x mod 4 * 16 + y div 16) mod 16 = y div 16"
    "(y mod 16 * 4 + z div 64) div 4 = y mod 16" "(y mod 16 * 4 + z div 64) mod 4 = z div 64"
    using lt by (simp_all add: div_add1_eq)
  then show "x div 4 * 4 + (x mod 4 * 16 + y div 16) div 16 = x"
    and "(x mod 4 * 16 + y div 16) mod 16 * 16 + (y mod 16 * 4 + z div 64) div 4 = y"
    and "(y mod 16 * 4 + z div 64) mod 4 * 64 + z mod 64 = z" by simp_all
qed

lemma quad_of_bytes:
  "quad_bytes (of_char a div 4) (of_char a mod 4 * 16 + of_char b div 16) (of_char b mod 16 * 4 + of_char c div 64) (of_char c mod 64)
     = [a, b, c]"
  using quad_encoded [OF byte_less [of b] byte_less [of c]] by (simp add: quad_bytes_def)

lemma base64_groups_encode: "base64_groups (base64_encode s) = Some s"
proof (induction s rule: base64_encode.induct)
  case (1 a b c s)
  then show ?case
    by (simp add: Let_def base64_val_char quad_of_bytes)
next
  case (2 a b)
  have "base64_val CHR ''='' = None" by code_simp
  then show ?case
    using quad_of_bytes [of a b "CHR 0x00"] by (simp add: Let_def base64_val_char)
next
  case (3 a)
  have "base64_val CHR ''='' = None" by code_simp
  then show ?case
    using quad_of_bytes [of a "CHR 0x00" "CHR 0x00"] by (simp add: Let_def base64_val_char)
qed simp

lemma base64_round_trip: "base64_decode (base64_encode s) = Some s"
  by (simp add: base64_decode_def base64_plain base64_groups_encode)

text \<open>The loop of sizes.\<close>

lemma size_unit_run: "1024 ^ k \<le> n \<Longrightarrow> n < 1024 ^ (k + 1) \<Longrightarrow> size_unit n unit e = (unit * 1024 ^ k, e + k)"
proof (induction k arbitrary: n unit e)
  case 0
  then show ?case by (subst size_unit.simps) simp
next
  case (Suc k)
  have "(1024 :: nat) ^ 1 \<le> 1024 ^ Suc k" by (rule power_increasing) simp_all
  then have "1024 \<le> n" using Suc.prems(1) by (simp only: power_one_right)
  moreover have "1024 ^ k \<le> n div 1024" using Suc.prems(1) by (simp add: less_eq_div_iff_mult_less_eq mult.commute)
  moreover have "n div 1024 < 1024 ^ (k + 1)" using Suc.prems(2) by (simp add: div_less_iff_less_mult mult.commute)
  ultimately show ?case using Suc.IH [of "n div 1024" "unit * 1024" "e + 1"] by (subst size_unit.simps) simp
qed

lemma power_between: "1 \<le> n \<Longrightarrow> \<exists>k. 1024 ^ k \<le> n \<and> n < (1024 :: nat) ^ (k + 1)"
proof (induction n rule: less_induct)
  case (less n)
  show ?case
  proof (cases "n < 1024")
    case True
    then show ?thesis using less.prems by (intro exI [of _ 0]) simp
  next
    case False
    then have "1 \<le> n div 1024" by (simp add: less_eq_div_iff_mult_less_eq)
    then obtain k where "1024 ^ k \<le> n div 1024" "n div 1024 < 1024 ^ (k + 1)"
      using less.IH [of "n div 1024"] False by auto
    then show ?thesis
      by (intro exI [of _ "Suc k"]) (simp add: less_eq_div_iff_mult_less_eq div_less_iff_less_mult mult.commute)
  qed
qed

text \<open>
  C34 size_unit_total.  Printing a 64-bit size never fails: the loop of \<^verbatim>\<open>humanSize\<close> ends with an index
  inside the six units, at the unit the size has between 1 and 1024 of, which does not overflow.
\<close>

theorem size_unit_total:
  assumes "1024 \<le> bytes" and "bytes < 2 ^ 63"
  shows "\<exists>unit e. size_unit (nat (bytes div 1024)) 1024 0 = (unit, e) \<and> e < length ''KMGTPE''
     \<and> int unit \<le> bytes \<and> bytes < 1024 * int unit \<and> int unit < 2 ^ 63"
proof -
  let ?n = "nat (bytes div 1024)"
  have "1 \<le> bytes div 1024" using assms(1) by (simp add: less_eq_div_iff_mult_less_eq)
  then have "1 \<le> ?n" by simp
  from power_between [OF this] obtain k where k: "1024 ^ k \<le> ?n" "?n < 1024 ^ (k + 1)" by blast
  have "?n < 2 ^ 53" using assms(2) by (simp add: nat_less_iff div_less_iff_less_mult)
  with k(1) have "(1024::nat) ^ k < 2 ^ 53" by (rule le_less_trans)
  then have "(2::nat) ^ (10 * k) < 2 ^ 53" by (simp add: power_mult)
  then have "10 * k < 53" by (simp only: power_strict_increasing_iff)
  then have k5: "k \<le> 5" by simp
  have "int (1024 ^ k) \<le> bytes div 1024" using k(1) assms(1) by (simp add: le_nat_iff)
  then have lo: "int (1024 * 1024 ^ k) \<le> bytes" by (simp add: less_eq_div_iff_mult_less_eq)
  have "bytes div 1024 < int (1024 ^ (k + 1))" using k(2) assms(1) by (simp add: nat_less_iff)
  then have hi: "bytes < 1024 * int (1024 * 1024 ^ k)" by (simp add: div_less_iff_less_mult)
  show ?thesis
    using size_unit_run [OF k, of 1024 0] k5 lo hi assms(2) by (intro exI [of _ "1024 * 1024 ^ k"] exI [of _ k]) simp
qed

lemma size_unit_total_witness:
  "\<exists>unit e. size_unit (nat ((2 ^ 63 - 1) div 1024)) 1024 0 = (unit, e) \<and> e < length ''KMGTPE''
     \<and> int unit \<le> 2 ^ 63 - 1 \<and> 2 ^ 63 - 1 < 1024 * int unit \<and> int unit < 2 ^ 63"
  by (rule size_unit_total) simp_all

end
