(* ===== verification/Agent_Calls.thy ===== *)
theory Agent_Calls
  imports App Tunnel
begin

text \<open>
  Pages that ask an agent for something over its tunnel: which agents are connected and what they
  answer are the environment's, the database and the commands sent so far the state.  The log of
  commands is what the theorems speak of; \<^verbatim>\<open>sendWithin\<close> and its replies are in \<open>Tunnel\<close>.
\<close>

section \<open>Calls\<close>

text \<open>The n-th command of the history is answered by the n-th reply, or by an error of the call.\<close>

record agents_env =
  ae_live :: "string \<Rightarrow> bool"
  ae_reply :: "nat \<Rightarrow> string \<Rightarrow> tunnel_message \<Rightarrow> tunnel_message result"

record ops_state =
  os_db :: db
  os_sent :: "(string \<times> tunnel_message) list"

abbreviation with_odb :: "(db, 'a) prog \<Rightarrow> (ops_state, 'a) prog" where
  "with_odb \<equiv> zoomP os_db (\<lambda>d s. s\<lparr>os_db := d\<rparr>)"

definition call_agent :: "agents_env \<Rightarrow> string \<Rightarrow> tunnel_message \<Rightarrow> (ops_state, tunnel_message) prog" where
  "call_agent env host m s = (ae_reply env (length (os_sent s)) host m, s\<lparr>os_sent := os_sent s @ [(host, m)]\<rparr>)"

text \<open>\<^verbatim>\<open>err != nil || !result.OK\<close>, with the message \<^verbatim>\<open>errString\<close> picks for the two cases.\<close>

definition err_string :: "gerr + string \<Rightarrow> string" where
  "err_string r = (case r of Inl e \<Rightarrow> error_text e | Inr out \<Rightarrow> trim_space out)"

definition agent_output :: "agents_env \<Rightarrow> string \<Rightarrow> tunnel_message \<Rightarrow> (string \<Rightarrow> (ops_state, 'a) prog)
    \<Rightarrow> (string \<Rightarrow> (ops_state, 'a) prog) \<Rightarrow> (ops_state, 'a) prog" where
  "agent_output env host m bad ok =
     tryP (call_agent env host m) (\<lambda>e. bad (err_string (Inl e))) (\<lambda>r.
       if \<not> tm_ok r then bad (err_string (Inr (tm_output r))) else ok (tm_output r))"

definition audited_op :: "web_context option \<Rightarrow> string \<Rightarrow> string \<Rightarrow> string \<Rightarrow> (ops_state, 'a) prog \<Rightarrow> (ops_state, 'a) prog" where
  "audited_op c action target detail nxt = bindP (with_odb (audit c action target detail)) (\<lambda>_. nxt)"

section \<open>What is sent\<close>

text \<open>
  Since the log \<open>sent\<close> only commands with \<open>P\<close> were added, and the part \<open>v\<close> of the database is the one
  \<open>P\<close> was read from.
\<close>

definition only_sends :: "(db \<Rightarrow> 'v) \<Rightarrow> 'v \<Rightarrow> (string \<Rightarrow> tunnel_message \<Rightarrow> bool) \<Rightarrow> (string \<times> tunnel_message) list \<Rightarrow> ops_state \<Rightarrow> bool" where
  "only_sends v V P sent s \<longleftrightarrow>
     v (os_db s) = V \<and> (\<exists>new. os_sent s = sent @ new \<and> (\<forall>(h, m)\<in>set new. P h m))"

lemma keeps_call_agent: "P host m \<Longrightarrow> keeps (only_sends v V P sent) (call_agent env host m)"
  by (auto simp: keeps_def only_sends_def call_agent_def)

lemma keeps_with_odb [keeps_intros]: "keeps (\<lambda>d. v d = V) m \<Longrightarrow> keeps (only_sends v V P sent) (with_odb m)"
  by (auto simp: keeps_def only_sends_def zoomP_def split: prod.split)

lemma keeps_agent_output:
  assumes "P host m" and "\<And>t. keeps (only_sends v V P sent) (bad t)" and "\<And>t. keeps (only_sends v V P sent) (ok t)"
  shows "keeps (only_sends v V P sent) (agent_output env host m bad ok)"
  unfolding agent_output_def by (intro keeps_intros keeps_call_agent assms)

lemma keeps_reply [keeps_intros]:
  "keeps I (answer a)" "keeps I (http_error n t)" "keeps I not_found" "keeps I (http_fail n e)" "keeps I (page t)"
  "keeps I (redirect_with_error p t)" "keeps I (redirect_with_saved p)" "keeps I (redirect_with_saved_message p t)"
  by (simp_all add: keeps_def answer_def http_error_def not_found_def http_fail_def page_def redirect_with_error_def
      redirect_with_saved_def redirect_with_saved_message_def)

lemma keeps_audit_db: "table_inv (\<lambda>d. v d = V) \<Longrightarrow>
    (\<And>d rows n. v (d\<lparr>d_audit := rows, d_audit_next := n\<rparr>) = v d) \<Longrightarrow> keeps (\<lambda>d. v d = V) (audit c a t e)"
  unfolding audit_def record_audit_def by (intro keeps_intros keeps_exec) auto

lemma keeps_audited_op:
  assumes "table_inv (\<lambda>d. v d = V)" and "\<And>d rows n. v (d\<lparr>d_audit := rows, d_audit_next := n\<rparr>) = v d"
    and "keeps (only_sends v V P sent) nxt"
  shows "keeps (only_sends v V P sent) (audited_op c a t e nxt)"
  unfolding audited_op_def by (intro keeps_intros keeps_audit_db assms)

end
