(* ===== verification/Volume_Browse.thy ===== *)
theory Volume_Browse
  imports Agent_Calls Go_Paths Versions
begin

text \<open>
  The volume browser, \<^verbatim>\<open>src/volumebrowse.go\<close>: listing, renaming, deleting, uploading, editing and
  downloading inside a volume, each a command to the agent of the host.  Whatever a request says, the
  volume named is one the host has reported and the paths stay below the mount of the helper.
\<close>

section \<open>Paths and listings\<close>

definition max_volume_edit_size :: nat where
  "max_volume_edit_size = 512 * 1024"

definition max_volume_upload_size :: nat where
  "max_volume_upload_size = 10 * 1024 * 1024"

definition volume_container_path :: "string \<Rightarrow> string" where
  "volume_container_path rel =
     (let clean = path_clean (''/'' @ rel) in if clean = ''/'' then ''/vol'' else ''/vol'' @ clean)"

record volume_entry =
  ve_name :: string
  ve_dir :: bool
  ve_size :: string
  ve_modified :: string
  ve_rel :: string
  ve_parent :: string

text \<open>\<^verbatim>\<open>strconv.ParseInt\<close> without its error: zero for what is no number, the nearest bound out of range.\<close>

definition parse_int :: "string \<Rightarrow> int" where
  "parse_int s =
     (case atoi s of
        Some i \<Rightarrow> i
      | None \<Rightarrow>
        (let ds = (case s of [] \<Rightarrow> [] | c # cs \<Rightarrow> if c = CHR ''-'' \<or> c = CHR ''+'' then cs else s) in
         if ds = [] \<or> \<not> list_all is_digit ds then 0 else if prefix ''-'' s then - (2 ^ 63) else 2 ^ 63 - 1))"

text \<open>A line of the agent: type, size, time and name between tabs; \<open>stamp\<close> prints a time.\<close>

definition parse_entry :: "(int \<Rightarrow> string) \<Rightarrow> string \<Rightarrow> string \<Rightarrow> volume_entry option" where
  "parse_entry stamp dir line =
     (case split_n 4 CHR 0x09 line of
        [kind, bytes, time, name] \<Rightarrow>
          Some \<lparr>ve_name = name, ve_dir = (kind = ''d''),
            ve_size = (if kind = ''d'' then em_dash else human_size (parse_int bytes)),
            ve_modified = (if parse_int time > 0 then stamp (parse_int time) else em_dash),
            ve_rel = path_join dir name, ve_parent = dir\<rparr>
      | _ \<Rightarrow> None)"

definition parse_volume_listing :: "(int \<Rightarrow> string) \<Rightarrow> string \<Rightarrow> string \<Rightarrow> volume_entry list" where
  "parse_volume_listing stamp output dir =
     (let trimmed = rev (dropWhile (\<lambda>c. c = CHR 0x0A) (rev output));
          entries = List.map_filter (parse_entry stamp dir) (filter (\<lambda>l. l \<noteq> '''') (split_on CHR 0x0A trimmed)) in
      sort_key ve_name (filter ve_dir entries) @ sort_key ve_name (filter (\<lambda>e. \<not> ve_dir e) entries))"

section \<open>Handlers\<close>

text \<open>The gate in front of every handler.\<close>

definition volume_exists :: "string \<Rightarrow> string \<Rightarrow> (ops_state, bool) prog" where
  "volume_exists host name =
     tryP (with_odb list_host_volumes) (\<lambda>_. okP False) (\<lambda>vs.
       okP (list_ex (\<lambda>v. hv_host v = host \<and> hv_name v = name) vs))"

definition volume_gate :: "string \<Rightarrow> string \<Rightarrow> (ops_state, reply) prog \<Rightarrow> (ops_state, reply) prog" where
  "volume_gate host name nxt = bindP (volume_exists host name) (\<lambda>known. if \<not> known then not_found else nxt)"

definition browse_url :: "string \<Rightarrow> string \<Rightarrow> string" where
  "browse_url host name = ''/volumes/'' @ host @ ''/'' @ name @ ''/browse''"

definition back_to :: "string \<Rightarrow> string \<Rightarrow> string \<Rightarrow> string" where
  "back_to host name dir = browse_url host name @ ''?path='' @ query_escape dir"

definition not_connected :: string where
  "not_connected = ''this host is not currently connected''"

text \<open>\<open>query\<close> is the \<^verbatim>\<open>path\<close> of the URL's query.\<close>

definition volume_browse_handler :: "agents_env \<Rightarrow> string \<Rightarrow> string \<Rightarrow> string \<Rightarrow> ops_state handler" where
  "volume_browse_handler env host name query c rq =
     volume_gate host name (
       let clean = path_clean (''/'' @ query); rel = (if clean = ''/'' then '''' else trim_prefix clean ''/'') in
       if \<not> ae_live env host then redirect_with_error ''/volumes'' not_connected
       else tryP (call_agent env host (volume_command ''volume_list'' name (volume_container_path rel) '''' ''''))
         (\<lambda>e. redirect_with_error ''/volumes'' (''could not list volume: '' @ error_text e)) (\<lambda>r.
           if \<not> tm_ok r
           then redirect_with_error (browse_url host name) (''could not list this directory: '' @ trim_space (tm_output r))
           else page ''volume_browse.html''))"

definition volume_rename_handler :: "agents_env \<Rightarrow> string \<Rightarrow> string \<Rightarrow> ops_state handler" where
  "volume_rename_handler env host name c rq =
     volume_gate host name (
       let rel = form_value rq ''path''; new_name = trim_space (form_value rq ''new_name'');
           back = back_to host name (path_dir (''/'' @ rel)) in
       if new_name = '''' \<or> contains_any new_name [CHR ''/'', CHR 0x5C] then redirect_with_error back ''invalid new name''
       else if \<not> ae_live env host then redirect_with_error back not_connected
       else (let new_rel = path_join (path_dir rel) new_name in
         agent_output env host
           (volume_command ''volume_rename'' name (volume_container_path rel) (volume_container_path new_rel) '''')
           (\<lambda>msg. redirect_with_error back (''rename failed: '' @ msg)) (\<lambda>_.
           audited_op c ''volume.file_rename'' name (rel @ '' -> '' @ new_rel)
             (answer (SeeOther (append_saved_message back ''Renamed''))))))"

definition volume_delete_handler :: "agents_env \<Rightarrow> string \<Rightarrow> string \<Rightarrow> ops_state handler" where
  "volume_delete_handler env host name c rq =
     volume_gate host name (
       let rel = form_value rq ''path''; back = back_to host name (path_dir (''/'' @ rel)) in
       if rel = '''' then redirect_with_error back ''can't delete the volume's root''
       else if \<not> ae_live env host then redirect_with_error back not_connected
       else agent_output env host (volume_command ''volume_delete'' name (volume_container_path rel) '''' '''')
           (\<lambda>msg. redirect_with_error back (''delete failed: '' @ msg)) (\<lambda>_.
           audited_op c ''volume.file_delete'' name rel
             (answer (SeeOther (append_saved_message back ''Deleted'')))))"

text \<open>A multipart body: its fields, or the error of the bounded parse, and the file: its name, and its content or the error of reading it.\<close>

record upload =
  up_fields :: "(string \<times> string) list result"
  up_file :: "(string \<times> string result) option"

definition stale_form :: string where
  "stale_form = ''Your session or this form is stale '' @ em_dash @ '' please reload the page and try again.''"

definition volume_upload_handler :: "(string \<Rightarrow> string) \<Rightarrow> agents_env \<Rightarrow> string \<Rightarrow> string \<Rightarrow> string \<Rightarrow> upload \<Rightarrow> ops_state handler" where
  "volume_upload_handler hash env host name query up c rq =
     volume_gate host name (
       let back = back_to host name query in
       case up_fields up of
         Inl _ \<Rightarrow> redirect_with_error back ''upload too large or invalid (max 10 MiB)''
       | Inr fs \<Rightarrow>
         if \<not> (case rq_cookie rq of None \<Rightarrow> False | Some cookie \<Rightarrow> verify_csrf hash cookie (get_str fs ''csrf_token''))
         then redirect_with_error back stale_form
         else (case up_file up of
             None \<Rightarrow> redirect_with_error back ''no file selected''
           | Some (filename, Inl e) \<Rightarrow> redirect_with_error back (''could not read upload: '' @ error_text e)
           | Some (filename, Inr content) \<Rightarrow>
             if length content > max_volume_upload_size then redirect_with_error back ''file too large (max 10 MiB)''
             else if \<not> ae_live env host then redirect_with_error back not_connected
             else (let dest = path_join query filename in
               agent_output env host
                 (volume_command ''volume_write'' name (volume_container_path dest) '''' (base64_encode content))
                 (\<lambda>msg. redirect_with_error back (''upload failed: '' @ msg)) (\<lambda>_.
                 audited_op c ''volume.file_upload'' name dest
                   (answer (SeeOther (append_saved_message back ''Uploaded'')))))))"

text \<open>What the edit page shows is the content, the one thing of its data kept here.\<close>

definition volume_edit_handler :: "agents_env \<Rightarrow> string \<Rightarrow> string \<Rightarrow> string \<Rightarrow> ops_state handler" where
  "volume_edit_handler env host name query c rq =
     volume_gate host name (
       let back = back_to host name (path_dir (''/'' @ query)) in
       if \<not> ae_live env host then redirect_with_error back not_connected
       else agent_output env host (volume_command ''volume_read'' name (volume_container_path query) '''' '''')
           (\<lambda>msg. redirect_with_error back (''could not read file: '' @ msg)) (\<lambda>out.
           case base64_decode (trim_space out) of
             None \<Rightarrow> redirect_with_error back ''could not decode file content''
           | Some content \<Rightarrow>
             if length content > max_volume_edit_size
             then redirect_with_error back (''file too large to edit here ('' @ human_size (int (length content)) @ '', max ''
                @ human_size (int max_volume_edit_size) @ '')'')
             else if \<not> utf8_valid content \<or> CHR 0x00 \<in> set content
             then redirect_with_error back (''this doesn't look like a text file '' @ em_dash @ '' editing isn't offered for it'')
             else answer (Page ''volume_edit.html'' content)))"

definition volume_save_handler :: "agents_env \<Rightarrow> string \<Rightarrow> string \<Rightarrow> ops_state handler" where
  "volume_save_handler env host name c rq =
     volume_gate host name (
       let rel = form_value rq ''path''; content = form_value rq ''content'';
           back = back_to host name (path_dir (''/'' @ rel)) in
       if length content > max_volume_edit_size then redirect_with_error back ''content too large to save here''
       else if \<not> ae_live env host then redirect_with_error back not_connected
       else agent_output env host
           (volume_command ''volume_write'' name (volume_container_path rel) '''' (base64_encode content))
           (\<lambda>msg. redirect_with_error back (''save failed: '' @ msg)) (\<lambda>_.
           audited_op c ''volume.file_save'' name rel
             (answer (SeeOther (append_saved_message back ''Saved'')))))"

definition volume_download_handler :: "agents_env \<Rightarrow> string \<Rightarrow> string \<Rightarrow> string \<Rightarrow> ops_state handler" where
  "volume_download_handler env host name query c rq =
     volume_gate host name (
       if \<not> ae_live env host then http_error 503 not_connected
       else agent_output env host (volume_command ''volume_read'' name (volume_container_path query) '''' '''')
           (\<lambda>msg. http_error 500 (''could not read file: '' @ msg)) (\<lambda>out.
           case base64_decode (trim_space out) of
             None \<Rightarrow> http_error 500 ''could not decode file content''
           | Some content \<Rightarrow> answer (RawBody content)))"

section \<open>Nothing outside the volume\<close>

datatype browse_action =
    Browse string
  | RenameEntry
  | DeleteEntry
  | UploadTo string upload
  | EditFile string
  | SaveFile
  | DownloadFile string

fun browse_handler :: "(string \<Rightarrow> string) \<Rightarrow> agents_env \<Rightarrow> browse_action \<Rightarrow> string \<Rightarrow> string \<Rightarrow> ops_state handler" where
  "browse_handler hash env (Browse q) host name = volume_browse_handler env host name q"
| "browse_handler hash env RenameEntry host name = volume_rename_handler env host name"
| "browse_handler hash env DeleteEntry host name = volume_delete_handler env host name"
| "browse_handler hash env (UploadTo q up) host name = volume_upload_handler hash env host name q up"
| "browse_handler hash env (EditFile q) host name = volume_edit_handler env host name q"
| "browse_handler hash env SaveFile host name = volume_save_handler env host name"
| "browse_handler hash env (DownloadFile q) host name = volume_download_handler env host name q"

text \<open>The mount of the helper, or segments below it that name entries.\<close>

definition in_volume :: "string \<Rightarrow> bool" where
  "in_volume p \<longleftrightarrow> p = ''/vol'' \<or> (\<exists>ws. ws \<noteq> [] \<and> list_all plain_segment ws \<and> p = ''/vol/'' @ join_with ''/'' ws)"

definition known_volume :: "host_volume list \<Rightarrow> string \<Rightarrow> string \<Rightarrow> bool" where
  "known_volume vs host name \<longleftrightarrow> list_ex (\<lambda>v. hv_host v = host \<and> hv_name v = name) vs"

lemma container_path_in_volume: "in_volume (volume_container_path rel)"
proof -
  obtain ws where ws: "path_clean (''/'' @ rel) = CHR ''/'' # join_with ''/'' ws" "list_all plain_segment ws"
    using clean_rooted_segments [of "''/'' @ rel"] by (auto simp: path_clean_def)
  show ?thesis
  proof (cases "ws = []")
    case True
    then show ?thesis using ws by (simp add: volume_container_path_def in_volume_def)
  next
    case False
    then have "hd ws \<noteq> []" "hd (hd ws) \<noteq> CHR ''/''"
      using ws(2) by (cases ws; cases "hd ws"; auto simp: plain_segment_def)+
    then have "join_with ''/'' ws \<noteq> []" using False by (cases ws rule: remdups_adj.cases) auto
    then show ?thesis using ws False by (auto simp: volume_container_path_def in_volume_def Let_def)
  qed
qed

definition confined :: "host_volume list \<Rightarrow> agents_env \<Rightarrow> string \<Rightarrow> string \<Rightarrow> string \<Rightarrow> tunnel_message \<Rightarrow> bool" where
  "confined vs env host name h m \<longleftrightarrow> h = host \<and> ae_live env h \<and> tm_volume m = name \<and> known_volume vs host name
     \<and> in_volume (tm_path m) \<and> (tm_new_path m = '''' \<or> in_volume (tm_new_path m))"

lemma confined_command:
  "ae_live env host \<Longrightarrow> known_volume vs host name \<Longrightarrow>
     confined vs env host name host (volume_command a name (volume_container_path p) '''' d)"
  "ae_live env host \<Longrightarrow> known_volume vs host name \<Longrightarrow>
     confined vs env host name host (volume_command a name (volume_container_path p) (volume_container_path q) d)"
  by (simp_all add: confined_def volume_command_def container_path_in_volume)

lemma table_volumes [simp, intro]: "table_inv (\<lambda>d. d_volumes d = V)"
  by (rule table_invI) simp_all

lemma gate_confined:
  assumes "known_volume V host name \<Longrightarrow> keeps (only_sends d_volumes V P sent) nxt"
  shows "keeps (only_sends d_volumes V P sent) (volume_gate host name nxt)"
proof (rule keepsI)
  fix s
  assume I: "only_sends d_volumes V P sent s"
  have ks: "keeps (only_sends d_volumes V P sent) (volume_exists host name)"
    unfolding volume_exists_def list_host_volumes_def by (intro keeps_intros) simp
  obtain r s1 where run: "volume_exists host name s = (r, s1)" by (metis surj_pair)
  have I1: "only_sends d_volumes V P sent s1" by (rule keepsE [OF ks I run])
  show "only_sends d_volumes V P sent (snd (volume_gate host name nxt s))"
  proof (cases "r = Inr True")
    case True
    then obtain vs d1 where vs: "list_host_volumes (os_db s) = (Inr vs, d1)"
      and ex: "list_ex (\<lambda>v. hv_host v = host \<and> hv_name v = name) vs"
      using run by (auto simp: volume_exists_def tryP_run zoomP_run)
    have "set (map (\<lambda>v. (hv_host v, hv_name v)) vs) \<subseteq> set (map (\<lambda>v. (hv_host v, hv_name v)) (d_volumes (os_db s)))"
      using vs unfolding list_host_volumes_def wrapP_Inr
      by (elim select_cases) (auto simp: List.map_filter_def host_name_of_def)
    moreover have "d_volumes (os_db s) = V" using I by (simp add: only_sends_def)
    ultimately have "known_volume V host name" using ex by (force simp: known_volume_def list_ex_iff)
    from keepsD [OF assms [OF this] I1] show ?thesis using run True by (simp add: volume_gate_def bindP_def tryP_def)
  next
    case False
    then show ?thesis using run I1
      by (cases r) (auto simp: volume_gate_def bindP_def tryP_def not_found_def http_error_def answer_def)
  qed
qed

lemma keeps_volume_audit:
  "keeps (only_sends d_volumes V P sent) nxt \<Longrightarrow> keeps (only_sends d_volumes V P sent) (audited_op c a t e nxt)"
  by (rule keeps_audited_op) simp_all

lemma handlers_confined:
  "keeps (only_sends d_volumes V (confined V env host name) sent) (browse_handler hash env a host name c rq)"
proof -
  note rules = gate_confined keeps_if keeps_reply keeps_tryP keeps_case_sum keeps_case_option keeps_case_prod
    keeps_agent_output keeps_call_agent keeps_volume_audit confined_command
  show ?thesis
    by (cases a)
       (simp_all only: browse_handler.simps volume_browse_handler_def volume_rename_handler_def volume_delete_handler_def
          volume_upload_handler_def volume_edit_handler_def volume_save_handler_def volume_download_handler_def Let_def;
        intro rules; simp)+
qed

text \<open>
  C29 volume_commands_confined.  Whatever a request to the volume browser says, the commands it sends go
  to the connected agent of the host named, for a volume that host has reported, and their paths are
  the mount of the helper or plain segments below it.
\<close>

theorem volume_commands_confined:
  "\<exists>new. os_sent (snd (browse_handler hash env a host name c rq s)) = os_sent s @ new
     \<and> list_all (\<lambda>(h, m). h = host \<and> ae_live env h \<and> tm_volume m = name \<and> known_volume (d_volumes (os_db s)) host name
          \<and> in_volume (tm_path m) \<and> (tm_new_path m = '''' \<or> in_volume (tm_new_path m))) new"
proof -
  have "only_sends d_volumes (d_volumes (os_db s)) (confined (d_volumes (os_db s)) env host name) (os_sent s) s"
    by (simp add: only_sends_def)
  from keepsD [OF handlers_confined this, of hash a c rq] show ?thesis
    by (auto simp: only_sends_def list_all_iff confined_def)
qed

section \<open>What is saved is what is edited next\<close>

definition base64_alphabet :: string where
  "base64_alphabet = ''ABCDEFGHIJKLMNOPQRSTUVWXYZabcdefghijklmnopqrstuvwxyz0123456789+/=''"

lemma base64_char_in: "n < 64 \<Longrightarrow> base64_char n \<in> set base64_alphabet"
proof -
  have "\<forall>n\<in>set [0..<64]. base64_char n \<in> set base64_alphabet" by code_simp
  then show "n < 64 \<Longrightarrow> base64_char n \<in> set base64_alphabet" by simp
qed

lemma base64_chars: "set (base64_encode s) \<subseteq> set base64_alphabet"
proof -
  have eq: "CHR ''='' \<in> set base64_alphabet" by code_simp
  show ?thesis by (induction s rule: base64_encode.induct) (simp_all add: Let_def base64_char_in eq)
qed

lemma strip_none:
  assumes "\<forall>w\<in>set ws. w \<noteq> [] \<and> hd w \<notin> B" and "set s \<subseteq> B"
  shows "strip_fuel n ws s = s"
proof (cases n)
  case (Suc m)
  have "\<not> prefix w s" if "w \<in> set ws" for w
    using assms that by (cases w) (auto simp: prefix_def subset_iff)
  then have "find (\<lambda>w. prefix w s) ws = None" by (simp add: find_None_iff)
  then show ?thesis by (simp add: Suc)
qed simp

lemma trim_base64: "trim_space (base64_encode s) = base64_encode s"
proof -
  have "\<forall>w\<in>set space_seqs. w \<noteq> [] \<and> hd w \<notin> set base64_alphabet" by code_simp
  from strip_none [OF this base64_chars] have left: "trim_left (base64_encode s) = base64_encode s" by (simp add: trim_left_def)
  have "\<forall>w\<in>set (map rev space_seqs). w \<noteq> [] \<and> hd w \<notin> set base64_alphabet" by code_simp
  moreover have "set (rev (base64_encode s)) \<subseteq> set base64_alphabet" using base64_chars by simp
  ultimately have "strip_fuel n (map rev space_seqs) (rev (base64_encode s)) = rev (base64_encode s)" for n
    by (rule strip_none)
  then show ?thesis by (simp add: trim_space_def left trim_right_def)
qed

text \<open>
  When an agent answers a read with what the last save sent it, the edit page
  shows exactly the text that was saved.
\<close>

theorem saved_file_edits_back:
  assumes "os_sent (snd (volume_save_handler env host name c rq s)) = os_sent s @ [(host, w)]"
    and "ae_live env host" and "d_faults (os_db t) = []"
    and "list_ex (\<lambda>v. hv_host v = host \<and> hv_name v = name) (projr (fst (list_host_volumes (os_db t))))"
    and "ae_reply env (length (os_sent t)) host (volume_command ''volume_read'' name (tm_path w) '''' '''') = Inr r"
    and "tm_ok r" and "tm_output r = tm_data w"
    and "utf8_valid (form_value rq ''content'')" and "CHR 0x00 \<notin> set (form_value rq ''content'')"
  shows "fst (volume_edit_handler env host name (form_value rq ''path'') c' rq' t)
     = Inr \<lparr>rp_answer = Page ''volume_edit.html'' (form_value rq ''content''), rp_cookie = None\<rparr>"
proof -
  let ?path = "volume_container_path (form_value rq ''path'')" and ?content = "form_value rq ''content''"
  have sent0: "os_sent (snd (volume_exists host name s)) = os_sent s" for s
    by (auto simp: volume_exists_def tryP_def zoomP_def split: prod.split sum.split)
  have w: "w = volume_command ''volume_write'' name ?path '''' (base64_encode ?content) \<and> \<not> length ?content > max_volume_edit_size"
  proof -
    obtain k s1 where run: "volume_exists host name s = (k, s1)" by (metis surj_pair)
    then have s1: "os_sent s1 = os_sent s" using sent0 [of s] by simp
    have aud: "os_sent (snd (audited_op c a x e (answer y) u)) = os_sent u" for a x e y u
      by (auto simp: audited_op_def bindP_def tryP_def zoomP_def answer_def audit_def ignoreP_def split: prod.split sum.split)
    show ?thesis
      using assms(1,2) run s1
      by (auto simp: volume_save_handler_def volume_gate_def bindP_def tryP_def Let_def agent_output_def call_agent_def
          not_found_def http_error_def answer_def redirect_with_error_def aud [unfolded answer_def] split: sum.splits if_splits)
  qed
  have gate: "volume_exists host name t = (Inr True, t)"
    using assms(3,4) by (simp add: volume_exists_def tryP_def zoomP_def list_host_volumes_def wrap_select)
  show ?thesis
    using assms(2,5-9) w gate
    by (auto simp: volume_edit_handler_def volume_gate_def bindP_def tryP_def Let_def agent_output_def call_agent_def
        volume_command_def trim_base64 base64_round_trip answer_def)
qed

text \<open>One host with one volume, and an agent that answers with a fixed file.\<close>

definition volume_ops :: ops_state where
  "volume_ops = \<lparr>os_db = (empty_db 0 (\<lambda>_. ''r''))\<lparr>
     d_hosts := [\<lparr>h_id = ''h1'', h_name = ''web'', h_status = ''connected'', h_fp = ''f'', h_approved_by = '''', h_last_seen = 0,
       h_address = '''', h_agent_version = '''', h_next_fp = '''', h_arch = '''', h_approved_at = None, h_created = 0\<rparr>],
     d_volumes := [\<lparr>hv_host = ''h1'', hv_name = ''data'', hv_driver = ''local'', hv_labels = [], hv_host_name = ''''\<rparr>]\<rparr>,
     os_sent = []\<rparr>"

definition file_agent :: agents_env where
  "file_agent = \<lparr>ae_live = (\<lambda>h. h = ''h1''),
     ae_reply = (\<lambda>n h m. Inr (empty_message\<lparr>tm_ok := True, tm_output := ''aGVsbG8gdw==''\<rparr>))\<rparr>"

definition browse_form :: "(string \<times> string) list \<Rightarrow> request" where
  "browse_form kvs = \<lparr>rq_method = ''POST'', rq_path = '''', rq_content_type = '''', rq_cookie = None, rq_form = Inr kvs\<rparr>"

lemma save_sends:
  assumes "volume_exists host name s = (Inr True, s)" and "ae_live env host"
    and "length (form_value rq ''content'') \<le> max_volume_edit_size"
  shows "os_sent (snd (volume_save_handler env host name c rq s)) = os_sent s
     @ [(host, volume_command ''volume_write'' name (volume_container_path (form_value rq ''path'')) ''''
          (base64_encode (form_value rq ''content'')))]"
  using assms
  by (auto simp: volume_save_handler_def volume_gate_def bindP_def tryP_def Let_def agent_output_def call_agent_def
      redirect_with_error_def answer_def audited_op_def zoomP_def audit_def ignoreP_def split: sum.split prod.split)

lemma volume_ops_gate: "volume_exists ''h1'' ''data'' volume_ops = (Inr True, volume_ops)"
  by (simp add: volume_exists_def tryP_def zoomP_def list_host_volumes_def wrap_select volume_ops_def empty_db_def host_name_of_def
      List.map_filter_def)

lemma saved_file_edits_back_witness:
  "os_sent (snd (volume_save_handler file_agent ''h1'' ''data'' None (browse_form [(''path'', ''/a/b''), (''content'', ''hello w'')])
     volume_ops)) = [(''h1'', volume_command ''volume_write'' ''data'' ''/vol/a/b'' '''' ''aGVsbG8gdw=='')] \<and>
   fst (volume_edit_handler file_agent ''h1'' ''data'' ''/a/b'' None (browse_form []) volume_ops)
     = Inr \<lparr>rp_answer = Page ''volume_edit.html'' ''hello w'', rp_cookie = None\<rparr>"
proof -
  let ?rq = "browse_form [(''path'', ''/a/b''), (''content'', ''hello w'')]"
  let ?w = "volume_command ''volume_write'' ''data'' ''/vol/a/b'' '''' ''aGVsbG8gdw==''"
  let ?r = "empty_message\<lparr>tm_ok := True, tm_output := ''aGVsbG8gdw==''\<rparr>"
  have v: "form_value ?rq ''path'' = ''/a/b''" "form_value ?rq ''content'' = ''hello w''"
    "volume_container_path ''/a/b'' = ''/vol/a/b''" "base64_encode ''hello w'' = ''aGVsbG8gdw==''" by code_simp+
  have live: "ae_live file_agent ''h1''" by (simp add: file_agent_def)
  have sent: "os_sent (snd (volume_save_handler file_agent ''h1'' ''data'' None ?rq volume_ops)) = os_sent volume_ops @ [(''h1'', ?w)]"
    using save_sends [OF volume_ops_gate live, of ?rq None] by (simp add: v max_volume_edit_size_def del: base64_encode.simps)
  moreover have "utf8_valid (form_value ?rq ''content'')" unfolding v by (simp add: utf8_valid.simps byte_in_def)
  moreover have "list_ex (\<lambda>v. hv_host v = ''h1'' \<and> hv_name v = ''data'') (projr (fst (list_host_volumes (os_db volume_ops))))"
    by code_simp
  moreover have "d_faults (os_db volume_ops) = []" by code_simp
  moreover have "CHR 0x00 \<notin> set (form_value ?rq ''content'')" unfolding v by code_simp
  moreover have "ae_reply file_agent (length (os_sent volume_ops)) ''h1'' (volume_command ''volume_read'' ''data'' (tm_path ?w) '''' '''') = Inr ?r"
    by (simp add: file_agent_def)
  ultimately have "fst (volume_edit_handler file_agent ''h1'' ''data'' (form_value ?rq ''path'') None (browse_form []) volume_ops)
      = Inr \<lparr>rp_answer = Page ''volume_edit.html'' (form_value ?rq ''content''), rp_cookie = None\<rparr>"
    using live by (intro saved_file_edits_back [where w = ?w and r = ?r]) (simp_all add: volume_command_def)
  with sent show ?thesis by (simp add: v volume_ops_def)
qed

text \<open>
  The guard of the volume's root only stops the empty path: a path that cleans
  to the root is sent to the agent as the deletion of the mount.
\<close>

theorem delete_reaches_root:
  assumes "form_value rq ''path'' \<in> {''/'', ''.'', ''..'', ''a/..''}"
    and "ae_live env host" and "d_faults (os_db s) = []"
    and "list_ex (\<lambda>v. hv_host v = host \<and> hv_name v = name) (projr (fst (list_host_volumes (os_db s))))"
  shows "os_sent (snd (volume_delete_handler env host name c rq s))
     = os_sent s @ [(host, volume_command ''volume_delete'' name ''/vol'' '''' '''')]"
proof -
  have gate: "volume_exists host name s = (Inr True, s)"
    using assms(3,4) by (simp add: volume_exists_def tryP_def zoomP_def list_host_volumes_def wrap_select)
  have "volume_container_path ''/'' = ''/vol''" "volume_container_path ''.'' = ''/vol''" "volume_container_path ''..'' = ''/vol''"
    "volume_container_path ''a/..'' = ''/vol''" by code_simp+
  then have p: "volume_container_path (form_value rq ''path'') = ''/vol''" "form_value rq ''path'' \<noteq> ''''" using assms(1) by auto
  have aud: "os_sent (snd (audited_op c a x e (answer y) u)) = os_sent u" for a x e y u
    by (auto simp: audited_op_def bindP_def tryP_def zoomP_def answer_def audit_def ignoreP_def split: prod.split sum.split)
  show ?thesis
    using assms(2) gate p
    by (auto simp: volume_delete_handler_def volume_gate_def bindP_def tryP_def Let_def agent_output_def call_agent_def
        redirect_with_error_def answer_def aud [unfolded answer_def] split: sum.split)
qed

lemma delete_reaches_root_witness:
  "os_sent (snd (volume_delete_handler file_agent ''h1'' ''data'' None (browse_form [(''path'', ''/'')]) volume_ops))
     = [(''h1'', volume_command ''volume_delete'' ''data'' ''/vol'' '''' '''')]"
proof -
  have "os_sent (snd (volume_delete_handler file_agent ''h1'' ''data'' None (browse_form [(''path'', ''/'')]) volume_ops))
     = os_sent volume_ops @ [(''h1'', volume_command ''volume_delete'' ''data'' ''/vol'' '''' '''')]"
    by (rule delete_reaches_root) code_simp+
  then show ?thesis by (simp add: volume_ops_def)
qed

end
