(* ===== verification/Scan_Targets.thy ===== *)
theory Scan_Targets
  imports Go_Base
begin

text \<open>
  What a scanner is given and what it reports, \<^verbatim>\<open>src/internal/scanner/scanner.go\<close>: the checks of a target,
  whose parts end up in the command line of a subprocess, and the counts per vulnerability.
\<close>

section \<open>Targets\<close>

record scan_target =
  tg_registry :: string
  tg_repository :: string
  tg_digest :: string
  tg_platform :: string

definition lower_alnum :: "char \<Rightarrow> bool" where
  "lower_alnum c \<longleftrightarrow> is_lower c \<or> is_digit c"

text \<open>\<^verbatim>\<open>^[A-Za-z0-9]([A-Za-z0-9.-]*[A-Za-z0-9])?(:[0-9]{1,5})?$\<close>\<close>

definition registry_name :: "string \<Rightarrow> bool" where
  "registry_name s \<longleftrightarrow> s \<noteq> '''' \<and> list_all (\<lambda>c. is_alnum c \<or> c = CHR ''.'' \<or> c = CHR ''-'') s \<and> is_alnum (hd s) \<and> is_alnum (last s)"

definition registry_re :: "string \<Rightarrow> bool" where
  "registry_re s =
     (case cut_at '':'' s of
        None \<Rightarrow> registry_name s
      | Some (a, p) \<Rightarrow> registry_name a \<and> p \<noteq> '''' \<and> length p \<le> 5 \<and> list_all is_digit p)"

text \<open>\<^verbatim>\<open>[a-z0-9]+([._-][a-z0-9]+)*\<close> between slashes: no piece between two separators is empty.\<close>

definition repository_part :: "string \<Rightarrow> bool" where
  "repository_part s \<longleftrightarrow>
     list_all (\<lambda>w. w \<noteq> '''' \<and> list_all lower_alnum w)
       (split_on CHR ''.'' (map (\<lambda>c. if c = CHR ''_'' \<or> c = CHR ''-'' then CHR ''.'' else c) s))"

definition repository_re :: "string \<Rightarrow> bool" where
  "repository_re s \<longleftrightarrow> list_all repository_part (split_on CHR ''/'' s)"

definition lower_hex :: "char \<Rightarrow> bool" where
  "lower_hex c \<longleftrightarrow> is_digit c \<or> (CHR ''a'' \<le> c \<and> c \<le> CHR ''f'')"

definition digest_re :: "string \<Rightarrow> bool" where
  "digest_re s = (case cut_prefix s ''sha256:'' of None \<Rightarrow> False | Some h \<Rightarrow> length h = 64 \<and> list_all lower_hex h)"

definition platform_re :: "string \<Rightarrow> bool" where
  "platform_re s =
     (case split_on CHR ''/'' s of
        a # bs \<Rightarrow> a \<noteq> '''' \<and> list_all is_lower a \<and> (length bs = 1 \<or> length bs = 2)
          \<and> list_all (\<lambda>b. b \<noteq> '''' \<and> list_all lower_alnum b) bs
      | _ \<Rightarrow> False)"

definition validate_target :: "scan_target \<Rightarrow> unit result" where
  "validate_target t =
     (if \<not> registry_re (tg_registry t) then err_text (''invalid registry '' @ quoted (tg_registry t))
      else if \<not> repository_re (tg_repository t) then err_text (''invalid repository '' @ quoted (tg_repository t))
      else if \<not> digest_re (tg_digest t) then err_text (''invalid digest '' @ quoted (tg_digest t))
      else if \<not> platform_re (tg_platform t) then err_text (''invalid platform '' @ quoted (tg_platform t))
      else Inr ())"

definition target_ref :: "scan_target \<Rightarrow> string" where
  "target_ref t = tg_registry t @ ''/'' @ tg_repository t @ ''@'' @ tg_digest t"

section \<open>Findings\<close>

record finding =
  fi_id :: string
  fi_severity :: string
  fi_package :: string
  fi_installed :: string
  fi_fixed_in :: string
  fi_title :: string

record scan_report =
  rt_findings :: "finding list"
  rt_built :: string
  rt_notice :: string

record counts =
  co_critical :: int
  co_high :: int
  co_medium :: int
  co_low :: int
  co_unknown :: int
  co_fixable_critical :: int
  co_fixable_high :: int

text \<open>Per id, the severity of the first finding and whether one has a fix.\<close>

fun by_id :: "finding list \<Rightarrow> (string \<times> string \<times> bool) list \<Rightarrow> (string \<times> string \<times> bool) list" where
  "by_id [] m = m"
| "by_id (f # fs) m =
     (let (sev, fixable) = (case map_of m (fi_id f) of None \<Rightarrow> (fi_severity f, False) | Some x \<Rightarrow> x) in
      by_id fs (put_assoc (fi_id f) (sev, fixable \<or> fi_fixed_in f \<noteq> '''') m))"

definition count_one :: "string \<times> string \<times> bool \<Rightarrow> counts \<Rightarrow> counts" where
  "count_one x c =
     (case x of (_, sev, fixable) \<Rightarrow>
        if sev = ''critical'' then c\<lparr>co_critical := co_critical c + 1, co_fixable_critical := co_fixable_critical c + (if fixable then 1 else 0)\<rparr>
        else if sev = ''high'' then c\<lparr>co_high := co_high c + 1, co_fixable_high := co_fixable_high c + (if fixable then 1 else 0)\<rparr>
        else if sev = ''medium'' then c\<lparr>co_medium := co_medium c + 1\<rparr>
        else if sev = ''low'' then c\<lparr>co_low := co_low c + 1\<rparr>
        else c\<lparr>co_unknown := co_unknown c + 1\<rparr>)"

definition summarize :: "finding list \<Rightarrow> counts" where
  "summarize fs = fold count_one (by_id fs [])
     \<lparr>co_critical = 0, co_high = 0, co_medium = 0, co_low = 0, co_unknown = 0, co_fixable_critical = 0, co_fixable_high = 0\<rparr>"

definition normalize_severity :: "string \<Rightarrow> string" where
  "normalize_severity s =
     (let t = to_lower (trim_space s) in
      if t = ''critical'' then ''critical'' else if t = ''high'' then ''high'' else if t = ''medium'' then ''medium''
      else if t = ''low'' \<or> t = ''negligible'' then ''low'' else ''unknown'')"

section \<open>Arguments of a subprocess\<close>

text \<open>A word that no program takes for an option and no shell for two.\<close>

definition plain_argument :: "string \<Rightarrow> bool" where
  "plain_argument s \<longleftrightarrow> s \<noteq> '''' \<and> is_alnum (hd s) \<and> list_all (\<lambda>c. is_alnum c \<or> c \<in> set ''.-_/:@'') s"

lemma alnum_lower: "lower_alnum c \<Longrightarrow> is_alnum c"
  by (auto simp: lower_alnum_def is_alnum_def is_alpha_def)

lemma alnum_hex: "lower_hex c \<Longrightarrow> is_alnum c"
  using order_trans [of c "CHR ''f''" "CHR ''z''"] by (auto simp: lower_hex_def is_alnum_def is_alpha_def is_lower_def)

lemma split_on_chars: "c \<in> set s \<Longrightarrow> c = sep \<or> (\<exists>w\<in>set (split_on sep s). c \<in> set w)"
  by (induction sep s rule: split_on.induct) (auto split: list.splits if_splits)

lemma split_on_hd: "s \<noteq> [] \<Longrightarrow> hd (split_on sep s) \<noteq> [] \<Longrightarrow> hd s = hd (hd (split_on sep s))"
  by (induction sep s rule: split_on.induct) (auto split: list.splits if_splits)

lemma plain_chars:
  "is_alnum c \<Longrightarrow> is_alnum c \<or> c \<in> set ''.-_/:@''" by simp

lemma registry_plain:
  assumes "registry_re s"
  shows "plain_argument s"
proof (cases "cut_at '':'' s")
  case None
  then show ?thesis using assms by (auto simp: registry_re_def registry_name_def plain_argument_def list_all_iff)
next
  case (Some ap)
  then obtain a p where ap: "cut_at '':'' s = Some (a, p)" by (cases ap) simp
  then have s: "s = a @ '':'' @ p" by (rule cut_at_Some)
  have "registry_name a" "list_all is_digit p" using assms ap by (simp_all add: registry_re_def)
  then show ?thesis unfolding s
    by (auto simp: registry_name_def plain_argument_def list_all_iff is_alnum_def)
qed

lemma pieces_plain:
  assumes "list_all (\<lambda>w. w \<noteq> '''' \<and> list_all (\<lambda>c. is_alnum c \<or> c \<in> set ''.-_/:@'') w \<and> is_alnum (hd w)) (split_on sep s)"
    and "sep \<in> set ''.-_/:@''"
  shows "plain_argument s"
proof -
  obtain w ws where split: "split_on sep s = w # ws" by (cases "split_on sep s") simp_all
  have "s \<noteq> ''''" using assms(1) by auto
  moreover have "hd s = hd w" using split_on_hd [OF \<open>s \<noteq> ''''\<close>, of sep] assms(1) split by auto
  moreover have "is_alnum c \<or> c \<in> set ''.-_/:@''" if "c \<in> set s" for c
    using split_on_chars [OF that, of sep] assms by (fastforce simp: list_all_iff)
  ultimately show ?thesis using assms(1) split by (auto simp: plain_argument_def list_all_iff)
qed

lemma repository_part_plain:
  assumes "repository_part s"
  shows "s \<noteq> '''' \<and> list_all (\<lambda>c. is_alnum c \<or> c \<in> set ''.-_/:@'') s \<and> is_alnum (hd s)"
proof -
  let ?t = "map (\<lambda>c. if c = CHR ''_'' \<or> c = CHR ''-'' then CHR ''.'' else c) s"
  obtain w ws where split: "split_on CHR ''.'' ?t = w # ws" by (cases "split_on CHR ''.'' ?t") simp_all
  have pieces: "\<And>w. w \<in> set (split_on CHR ''.'' ?t) \<Longrightarrow> w \<noteq> [] \<and> list_all lower_alnum w"
    using assms by (auto simp: repository_part_def list_all_iff)
  have ne: "s \<noteq> []" using pieces [of "[]"] by auto
  have "hd ?t = hd w" using split_on_hd [of ?t "CHR ''.''"] ne split pieces [of w] by simp
  then have "is_alnum (hd ?t)" using pieces [of w] split by (cases w) (auto intro: alnum_lower)
  then have "is_alnum (hd s)" using ne by (cases s) (auto simp: is_alnum_def is_alpha_def is_lower_def is_upper_def is_digit_def split: if_splits)
  moreover have "is_alnum c \<or> c \<in> set ''.-_/:@''" if "c \<in> set s" for c
  proof (cases "c = CHR ''_'' \<or> c = CHR ''-'' \<or> c = CHR ''.''")
    case False
    with that have "c \<in> set ?t" by force
    from split_on_chars [OF this, of "CHR ''.''"] False pieces show ?thesis by (auto simp: list_all_iff intro: alnum_lower)
  qed auto
  ultimately show ?thesis using ne by (simp add: list_all_iff)
qed

lemma repository_plain: "repository_re s \<Longrightarrow> plain_argument s"
proof (rule pieces_plain [where sep = "CHR ''/''"])
  assume "repository_re s"
  then have "\<forall>w\<in>set (split_on CHR ''/'' s). repository_part w" by (simp add: repository_re_def list_all_iff)
  then show "list_all (\<lambda>w. w \<noteq> '''' \<and> list_all (\<lambda>c. is_alnum c \<or> c \<in> set ''.-_/:@'') w \<and> is_alnum (hd w)) (split_on CHR ''/'' s)"
    unfolding list_all_iff [of _ "split_on CHR ''/'' s"] using repository_part_plain by blast
qed simp

lemma platform_plain: "platform_re s \<Longrightarrow> plain_argument s"
proof (rule pieces_plain [where sep = "CHR ''/''"])
  assume "platform_re s"
  then have "\<forall>w\<in>set (split_on CHR ''/'' s). w \<noteq> '''' \<and> list_all lower_alnum w"
    by (auto simp: platform_re_def list_all_iff lower_alnum_def split: list.splits)
  moreover have "list_all lower_alnum w \<Longrightarrow> w \<noteq> '''' \<Longrightarrow> list_all (\<lambda>c. is_alnum c \<or> c \<in> set ''.-_/:@'') w \<and> is_alnum (hd w)" for w
    by (cases w) (auto simp: list_all_iff intro: alnum_lower)
  ultimately show "list_all (\<lambda>w. w \<noteq> '''' \<and> list_all (\<lambda>c. is_alnum c \<or> c \<in> set ''.-_/:@'') w \<and> is_alnum (hd w)) (split_on CHR ''/'' s)"
    unfolding list_all_iff [of _ "split_on CHR ''/'' s"] by blast
qed simp

lemma digest_plain:
  assumes "digest_re s"
  shows "plain_argument s"
proof -
  obtain h where h: "cut_prefix s ''sha256:'' = Some h" "list_all lower_hex h"
    using assms by (auto simp: digest_re_def split: option.splits)
  then have s: "s = ''sha256:'' @ h" by (auto simp: cut_prefix_def prefix_def split: if_splits)
  have "plain_argument ''sha256:''" by code_simp
  moreover have "list_all (\<lambda>c. is_alnum c \<or> c \<in> set ''.-_/:@'') h" using h(2) by (auto simp: list_all_iff intro: alnum_hex)
  ultimately show ?thesis unfolding s plain_argument_def by (simp only: list_all_append) simp
qed

lemma plain_append: "plain_argument a \<Longrightarrow> c \<in> set ''.-_/:@'' \<Longrightarrow> plain_argument b \<Longrightarrow> plain_argument (a @ [c] @ b)"
  by (auto simp: plain_argument_def)

lemma valid_plain:
  assumes "validate_target t = Inr ()"
  shows "plain_argument (target_ref t)" and "plain_argument (tg_platform t)"
proof -
  have ok: "registry_re (tg_registry t)" "repository_re (tg_repository t)" "digest_re (tg_digest t)" "platform_re (tg_platform t)"
    using assms by (auto simp: validate_target_def split: if_splits)
  show "plain_argument (target_ref t)"
    using plain_append [OF plain_append [OF registry_plain [OF ok(1)] _ repository_plain [OF ok(2)], of "CHR ''/''"] _ digest_plain [OF ok(3)], of "CHR ''@''"]
    by (simp add: target_ref_def)
  show "plain_argument (tg_platform t)" using ok(4) by (rule platform_plain)
qed

section \<open>The counts\<close>

definition total :: "counts \<Rightarrow> int" where
  "total c = co_critical c + co_high c + co_medium c + co_low c + co_unknown c"

lemma by_id_keys: "distinct (map fst m) \<Longrightarrow> distinct (map fst (by_id fs m)) \<and> fst ` set (by_id fs m) = fst ` set m \<union> fi_id ` set fs"
proof (induction fs arbitrary: m)
  case (Cons f fs)
  obtain sev fixable where x: "(case map_of m (fi_id f) of None \<Rightarrow> (fi_severity f, False) | Some x \<Rightarrow> x) = (sev, fixable)"
    by (metis surj_pair)
  let ?m = "put_assoc (fi_id f) (sev, fixable \<or> fi_fixed_in f \<noteq> '''') m"
  have "dom (map_of ?m) = insert (fi_id f) (dom (map_of m))" by simp
  then have "fst ` set ?m = insert (fi_id f) (fst ` set m)" by (simp only: dom_map_of_conv_image_fst)
  then show ?case using Cons.IH [of ?m] distinct_put_assoc [OF Cons.prems] x by (auto simp: Let_def)
qed simp

lemma count_total: "total (fold count_one xs c) = total c + int (length xs)"
proof (induction xs arbitrary: c)
  case (Cons x xs)
  have "total (count_one x c) = total c + 1" by (cases x) (simp add: count_one_def total_def)
  with Cons.IH show ?case by simp
qed simp

text \<open>
  The counts of a report add up to the number of distinct vulnerabilities,
  however many packages each one affects.
\<close>

theorem counts_per_vulnerability: "total (summarize fs) = int (card (fi_id ` set fs))"
proof -
  have keys: "distinct (map fst (by_id fs []))" "fst ` set (by_id fs []) = fi_id ` set fs" using by_id_keys [of "[]" fs] by simp_all
  have "card (fi_id ` set fs) = length (by_id fs [])"
    using distinct_card [OF keys(1)] keys(2) by simp
  then show ?thesis unfolding summarize_def by (subst count_total) (simp add: total_def)
qed

end
