(* ===== verification/Image_Updates.thy ===== *)
theory Image_Updates
  imports App Go_Paths
begin

text \<open>
  Images that move: references and their canonical form (\<^verbatim>\<open>src/internal/registry/registry.go\<close>), what a
  deployment leaves of the policies of its stack (\<^verbatim>\<open>src/imagepolicies.go\<close>) and the periodic check that
  redeploys (\<^verbatim>\<open>src/imagepoller.go\<close>).  The registry is a function from a reference and credentials to a
  digest, YAML a function from a compose file to its services.
\<close>

section \<open>References\<close>

record image_ref =
  rf_host :: string
  rf_repo :: string
  rf_tag :: string

definition canonical :: "image_ref \<Rightarrow> string" where
  "canonical r = rf_host r @ ''/'' @ rf_repo r @ '':'' @ rf_tag r"

text \<open>The text before and after the last occurrence of a byte that occurs.\<close>

definition cut_last :: "char \<Rightarrow> string \<Rightarrow> string \<times> string" where
  "cut_last c s = (rev (tl (dropWhile (\<lambda>x. x \<noteq> c) (rev s))), rev (takeWhile (\<lambda>x. x \<noteq> c) (rev s)))"

definition name_and_tag :: "string \<Rightarrow> string \<times> string" where
  "name_and_tag img =
     (if CHR ''/'' \<in> set img then
        (if CHR '':'' \<in> set (last_part img)
         then (case cut_last CHR '':'' (last_part img) of (a, b) \<Rightarrow> (dir_part img @ a, b))
         else (img, ''latest''))
      else if CHR '':'' \<in> set img then cut_last CHR '':'' img else (img, ''latest''))"

definition host_like :: "string \<Rightarrow> bool" where
  "host_like s \<longleftrightarrow> contains_any s ''.:'' \<or> s = ''localhost''"

text \<open>\<open>None\<close> for a reference pinned by digest.\<close>

definition parse_image_ref :: "string \<Rightarrow> image_ref option" where
  "parse_image_ref text =
     (let img = trim_space text in
      if contains_str img ''@sha256:'' then None
      else (case name_and_tag img of (name, tag) \<Rightarrow>
        (case cut_at ''/'' name of
           None \<Rightarrow> Some \<lparr>rf_host = ''docker.io'', rf_repo = ''library/'' @ name, rf_tag = tag\<rparr>
         | Some (a, b) \<Rightarrow>
           if \<not> host_like a then Some \<lparr>rf_host = ''docker.io'', rf_repo = name, rf_tag = tag\<rparr>
           else Some \<lparr>rf_host = a, rf_repo = b, rf_tag = tag\<rparr>)))"

definition registry_host_for :: "string \<Rightarrow> string" where
  "registry_host_for host = (if host = ''docker.io'' then ''registry-1.docker.io'' else host)"

section \<open>Policies after a deployment\<close>

text \<open>The environment: the services of a compose file with their images, and the registries.\<close>

record image_env =
  ie_services :: "string \<Rightarrow> (string \<times> string) list result"
  ie_digest :: "image_ref \<Rightarrow> string \<Rightarrow> string \<Rightarrow> string result"

definition parse_compose_images :: "image_env \<Rightarrow> string \<Rightarrow> (string \<times> string) list result" where
  "parse_compose_images env compose =
     bind_res (ie_services env compose) (\<lambda>svcs. Inr (filter (\<lambda>(n, img). img \<noteq> '''') svcs))"

definition is_digest_pinned :: "string \<Rightarrow> bool" where
  "is_digest_pinned img \<longleftrightarrow> contains_str img ''@sha256:''"

text \<open>A credential that cannot be read is as good as none.\<close>

definition credential_for :: "string \<Rightarrow> (app_state, string \<times> string) prog" where
  "credential_for host =
     tryP (on_keys (registry_credential host)) (\<lambda>_. okP ('''', '''')) (\<lambda>c.
       okP (case c of None \<Rightarrow> ('''', '''') | Some up \<Rightarrow> up))"

text \<open>The digest of a reference, asked for once per canonical form; the cache keeps it or the error.\<close>

definition check_digest :: "image_env \<Rightarrow> image_ref \<Rightarrow> (app_state, string option) prog" where
  "check_digest env ref =
     bindP (credential_for (rf_host ref)) (\<lambda>(user, password).
       case ie_digest env ref user password of
         Inl e \<Rightarrow> bindP (ignoreP (on_store (set_image_digest_cache_error (canonical ref) (error_text e)))) (\<lambda>_. okP None)
       | Inr d \<Rightarrow> bindP (ignoreP (on_store (set_image_digest_cache (canonical ref) d))) (\<lambda>_. okP (Some d)))"

fun resync_loop :: "image_env \<Rightarrow> string \<Rightarrow> image_policy list \<Rightarrow> (string \<times> string) list \<Rightarrow> (app_state, unit) prog" where
  "resync_loop env stack [] seen = okP ()"
| "resync_loop env stack (p # ps) seen =
     (case parse_image_ref (ip_ref p) of
        None \<Rightarrow> resync_loop env stack ps seen
      | Some ref \<Rightarrow>
        (case map_of seen (canonical ref) of
           Some d \<Rightarrow> bindP (ignoreP (on_store (set_applied_digest stack (ip_service p) d))) (\<lambda>_. resync_loop env stack ps seen)
         | None \<Rightarrow> bindP (check_digest env ref) (\<lambda>r.
             case r of
               None \<Rightarrow> resync_loop env stack ps seen
             | Some d \<Rightarrow> bindP (ignoreP (on_store (set_applied_digest stack (ip_service p) d))) (\<lambda>_.
                 resync_loop env stack ps ((canonical ref, d) # seen)))))"

definition sync_image_policies :: "image_env \<Rightarrow> string \<Rightarrow> string \<Rightarrow> (app_state, unit) prog" where
  "sync_image_policies env stack compose =
     (case parse_compose_images env compose of
        Inl _ \<Rightarrow> okP ()
      | Inr images \<Rightarrow>
        bindP (forP (\<lambda>(service, img). if is_digest_pinned img then okP ()
            else ignoreP (on_store (upsert_image_policy stack service img))) images) (\<lambda>_.
        bindP (ignoreP (on_store (prune_image_policies stack (map fst images)))) (\<lambda>_.
        tryP (on_store (list_image_policies_for_stack stack)) (\<lambda>_. okP ()) (\<lambda>ps. resync_loop env stack ps []))))"

section \<open>The pages of a stack's images\<close>

definition set_image_policy_handler :: "string \<Rightarrow> string \<Rightarrow> app_state handler" where
  "set_image_policy_handler i service c rq =
     (let policy = form_value rq ''policy'' in
      if policy \<noteq> ''pinned'' \<and> policy \<noteq> ''auto'' \<and> policy \<noteq> ''propose'' then http_error 400 ''invalid policy''
      else tryP (on_store (set_image_policy i service policy)) (http_fail 500) (\<lambda>_.
        audited c ''stack.image_policy_change'' i (service @ '' -> '' @ policy) (redirect_with_saved (''/stacks/'' @ i))))"

text \<open>A deployment that is already under way will use the new image.\<close>

definition in_progress :: "string \<Rightarrow> (app_state, bool) prog" where
  "in_progress stack =
     tryP (on_store (latest_deployment_for_stack stack)) (\<lambda>_. okP False) (\<lambda>latest.
       okP (case latest of None \<Rightarrow> False | Some dep \<Rightarrow> dp_status dep = ''queued'' \<or> dp_status dep = ''running''))"

definition apply_image_update_handler :: "string \<Rightarrow> string \<Rightarrow> app_state handler" where
  "apply_image_update_handler i service c rq =
     tryP (on_store (get_stack i)) (\<lambda>_. not_found) (\<lambda>st.
       if st_host st = '''' then http_error 400 ''this stack has no target host assigned''
       else bindP (in_progress i) (\<lambda>busy.
         if busy then answer (SeeOther (''/stacks/'' @ i))
         else tryP (on_store (enqueue_deployment (st_id st) (st_host st) ''image-update'' ''up'')) (http_fail 500) (\<lambda>_.
           audited c ''stack.image_update_apply'' (st_name st) service
             (redirect_with_saved_message (''/stacks/'' @ i) ''Update queued''))))"

definition short_digest :: "string \<Rightarrow> string" where
  "short_digest d = take 12 (case cut_at '':'' d of None \<Rightarrow> d | Some (_, b) \<Rightarrow> b)"

text \<open>A row of the stack's page: the policy, the latest digest when the cache has one, and whether it is an update.\<close>

definition policy_row :: "image_policy \<Rightarrow> (db, image_policy \<times> string option \<times> bool) prog" where
  "policy_row p =
     (let canon = (case parse_image_ref (ip_ref p) of None \<Rightarrow> ''/:'' | Some ref \<Rightarrow> canonical ref) in
      tryP (get_image_digest_cache canon) (\<lambda>_. okP (p, None, False)) (\<lambda>d.
        okP (case d of None \<Rightarrow> (p, None, False) | Some digest \<Rightarrow> (p, Some digest, digest \<noteq> ip_applied p))))"

section \<open>The periodic check\<close>

fun check_policies :: "image_env \<Rightarrow> image_policy list \<Rightarrow> (string \<times> string) list \<Rightarrow> (app_state, (string \<times> string) list) prog" where
  "check_policies env [] digests = okP digests"
| "check_policies env (p # ps) digests =
     (if ip_policy p = ''pinned'' then check_policies env ps digests
      else (case parse_image_ref (ip_ref p) of
          None \<Rightarrow> check_policies env ps digests
        | Some ref \<Rightarrow>
          if map_of digests (canonical ref) \<noteq> None then check_policies env ps digests
          else bindP (check_digest env ref) (\<lambda>r.
            case r of None \<Rightarrow> check_policies env ps digests
            | Some d \<Rightarrow> check_policies env ps ((canonical ref, d) # digests))))"

definition should_apply_now :: "image_policy \<Rightarrow> bool" where
  "should_apply_now p \<longleftrightarrow> ip_policy p = ''auto''"

definition arrow :: string where
  "arrow = [CHR 0xE2, CHR 0x86, CHR 0x92]"

definition enqueue_image_update :: "image_policy \<Rightarrow> string \<Rightarrow> (app_state, unit) prog" where
  "enqueue_image_update p digest =
     bindP (in_progress (ip_stack p)) (\<lambda>busy.
       if busy then okP ()
       else tryP (on_store (get_stack (ip_stack p))) (\<lambda>_. okP ()) (\<lambda>st.
         if st_host st = '''' then okP ()
         else tryP (on_store (enqueue_deployment (st_id st) (st_host st) ''image-update'' ''up'')) (\<lambda>_. okP ()) (\<lambda>_.
           on_store (audit_system ''auto-update'' ''stack.image_update_auto'' (st_name st)
             (ip_service p @ '': '' @ ip_ref p @ '' '' @ arrow @ '' sha256:'' @ take 12 (trim_prefix digest ''sha256:''))))))"

text \<open>Whether the check acts on a policy, from the digests it found.\<close>

definition due :: "(string \<times> string) list \<Rightarrow> image_policy \<Rightarrow> string option" where
  "due digests p =
     (if ip_policy p = ''pinned'' then None
      else (case parse_image_ref (ip_ref p) of
          None \<Rightarrow> None
        | Some ref \<Rightarrow>
          (case map_of digests (canonical ref) of
             None \<Rightarrow> None
           | Some d \<Rightarrow> if d = '''' \<or> d = ip_applied p \<or> ip_policy p \<noteq> ''auto'' \<or> \<not> should_apply_now p then None else Some d)))"

definition act_on :: "(string \<times> string) list \<Rightarrow> image_policy \<Rightarrow> (app_state, unit) prog" where
  "act_on digests p = (case due digests p of None \<Rightarrow> okP () | Some d \<Rightarrow> enqueue_image_update p d)"

definition poll_images :: "image_env \<Rightarrow> (app_state, unit) prog" where
  "poll_images env =
     tryP (on_store list_image_policies) (\<lambda>_. okP ()) (\<lambda>ps.
     bindP (check_policies env ps []) (\<lambda>digests. forP (act_on digests) ps))"

end
