(* ===== verification/Vuln_Scans.thy ===== *)
theory Vuln_Scans
  imports Scan_Targets Image_Updates Store_Scans
begin

text \<open>
  Vulnerability scanning, \<^verbatim>\<open>src/vulnscan.go\<close> and \<^verbatim>\<open>src/vulnscan_ui.go\<close>: one background job at a time, what is
  scanned, the pass that scans what has no current result, the badges and the settings.  The scanners,
  the disk and the printing of gigabytes are the environment's.  A background job is a step of its own,
  between its start and its end others may run.
\<close>

section \<open>State\<close>

record scanner_def =
  sn_name :: string
  sn_label :: string
  sn_version :: string
  sn_dirs :: "string list"

text \<open>
  \<open>sv_built\<close> is the date of the database before and after its update (none is empty), \<open>sv_free\<close> the free
  bytes if known, \<open>sv_arch\<close> the architecture of the server.
\<close>

record scan_env =
  sv_scanners :: "scanner_def list"
  sv_arch :: string
  sv_cache :: "unit result"
  sv_installed :: "string \<Rightarrow> bool"
  sv_install :: "string \<Rightarrow> unit result"
  sv_update :: "string \<Rightarrow> unit result"
  sv_built :: "bool \<Rightarrow> string \<Rightarrow> string"
  sv_scan :: "string \<Rightarrow> scan_target \<Rightarrow> (string \<times> string) option \<Rightarrow> scan_report result"
  sv_free :: "int option"
  sv_gb :: "int \<Rightarrow> string"
  sv_cache_dir :: string
  sv_json :: "finding list \<Rightarrow> string"
  sv_parse :: "string \<Rightarrow> finding list"
  sv_remove :: "string \<Rightarrow> unit result"

datatype scan_job = EnableJob | PassJob bool

record scan_state =
  vu_app :: app_state
  vu_job :: "scan_job option"
  vu_phase :: string
  vu_err :: string

abbreviation on_scan_app :: "(app_state, 'a) prog \<Rightarrow> (scan_state, 'a) prog" where
  "on_scan_app \<equiv> zoomP vu_app (\<lambda>a s. s\<lparr>vu_app := a\<rparr>)"

abbreviation on_scan_db :: "(db, 'a) prog \<Rightarrow> (scan_state, 'a) prog" where
  "on_scan_db m \<equiv> on_scan_app (on_store m)"

definition by_name :: "scan_env \<Rightarrow> string \<Rightarrow> scanner_def option" where
  "by_name env name = find (\<lambda>s. sn_name s = name) (sv_scanners env)"

definition set_phase :: "string \<Rightarrow> (scan_state, unit) prog" where
  "set_phase p = modP (\<lambda>s. s\<lparr>vu_phase := p\<rparr>)"

text \<open>\<^verbatim>\<open>start\<close>, up to the goroutine it starts.\<close>

definition start_job :: "string \<Rightarrow> scan_job \<Rightarrow> (scan_state, bool) prog" where
  "start_job name job =
     bindP (getP vu_job) (\<lambda>running.
       if running \<noteq> None then okP False
       else bindP (modP (\<lambda>s. s\<lparr>vu_job := Some job, vu_phase := name, vu_err := ''''\<rparr>)) (\<lambda>_. okP True))"

definition active_scanner :: "scan_env \<Rightarrow> (db, scanner_def option) prog" where
  "active_scanner env =
     tryP get_vuln_settings (\<lambda>_. okP None) (\<lambda>st. okP (if vs_enabled st then by_name env (vs_scanner st) else None))"

section \<open>What is scanned\<close>

definition platform_for :: "string \<Rightarrow> string \<Rightarrow> string" where
  "platform_for server arch =
     (if arch = '''' then ''linux/'' @ server else if arch = ''arm'' then ''linux/arm/v7'' else ''linux/'' @ arch)"

text \<open>The platforms asked for so far are kept: an error reads as no architecture.\<close>

definition platform_of :: "scan_env \<Rightarrow> string \<Rightarrow> (string \<times> string) list \<Rightarrow> (db, string \<times> (string \<times> string) list) prog" where
  "platform_of env host memo =
     (case map_of memo host of
        Some p \<Rightarrow> okP (p, memo)
      | None \<Rightarrow> bindP (tryP (host_arch host) (\<lambda>_. okP '''') okP) (\<lambda>arch.
          let p = platform_for (sv_arch env) arch in okP (p, put_assoc host p memo)))"

definition target_of :: "image_ref \<Rightarrow> string \<Rightarrow> string \<Rightarrow> scan_target" where
  "target_of ref digest platform =
     \<lparr>tg_registry = rf_host ref, tg_repository = rf_repo ref, tg_digest = digest, tg_platform = platform\<rparr>"

text \<open>\<open>seen\<close> are the keys \<^verbatim>\<open>digest|platform\<close>; the list is built newest first.\<close>

definition add_target :: "scan_target \<Rightarrow> scan_target list \<Rightarrow> scan_target list" where
  "add_target t out =
     (if validate_target t \<noteq> Inr ()
         \<or> tg_digest t @ ''|'' @ tg_platform t \<in> set (map (\<lambda>x. tg_digest x @ ''|'' @ tg_platform x) out)
      then out else t # out)"

fun policy_targets :: "scan_env \<Rightarrow> (string \<times> string) list \<Rightarrow> image_policy list \<Rightarrow> (string \<times> string) list \<Rightarrow> scan_target list
    \<Rightarrow> (db, (string \<times> string) list \<times> scan_target list) prog" where
  "policy_targets env stack_host [] memo out = okP (memo, out)"
| "policy_targets env stack_host (p # ps) memo out =
     (case parse_image_ref (ip_ref p) of
        None \<Rightarrow> policy_targets env stack_host ps memo out
      | Some ref \<Rightarrow>
        bindP (platform_of env (get_str stack_host (ip_stack p)) memo) (\<lambda>(platform, memo').
          let out1 = (if ip_applied p \<noteq> '''' then add_target (target_of ref (ip_applied p) platform) out else out) in
          bindP (tryP (get_image_digest_cache (canonical ref)) (\<lambda>_. okP None) okP) (\<lambda>latest.
            policy_targets env stack_host ps memo'
              (case latest of None \<Rightarrow> out1
               | Some d \<Rightarrow> if d \<noteq> '''' then add_target (target_of ref d platform) out1 else out1))))"

fun image_targets :: "scan_env \<Rightarrow> string list \<Rightarrow> host_image list \<Rightarrow> (string \<times> string) list \<Rightarrow> scan_target list
    \<Rightarrow> (db, scan_target list) prog" where
  "image_targets env in_use [] memo out = okP out"
| "image_targets env in_use (i # is) memo out =
     (if hi_digest i = '''' \<or> hi_repository i = ''<none>'' \<or> hi_host i @ ''|'' @ hi_id i \<notin> set in_use
      then image_targets env in_use is memo out
      else (case parse_image_ref (hi_repository i @ '':'' @ hi_tag i) of
          None \<Rightarrow> image_targets env in_use is memo out
        | Some ref \<Rightarrow> bindP (platform_of env (hi_host i) memo) (\<lambda>(platform, memo').
            image_targets env in_use is memo' (add_target (target_of ref (hi_digest i) platform) out))))"

definition scan_targets :: "scan_env \<Rightarrow> (db, scan_target list) prog" where
  "scan_targets env =
     bindP list_stacks (\<lambda>stacks. bindP list_image_policies (\<lambda>ps.
     bindP (policy_targets env (rev (map (\<lambda>s. (st_id s, st_host s)) stacks)) ps [] []) (\<lambda>(memo, out).
     bindP list_host_images (\<lambda>is. bindP list_host_containers (\<lambda>cs.
     bindP (image_targets env (map (\<lambda>c. hc_host c @ ''|'' @ hc_image_id c) (filter (\<lambda>c. hc_image_id c \<noteq> '''') cs)) is memo out) (\<lambda>ts.
       okP (rev ts)))))))"

section \<open>A pass\<close>

definition db_size_estimate :: "string \<Rightarrow> int" where
  "db_size_estimate name = (if name = ''trivy'' then 1500000000 else if name = ''grype'' then 3000000000 else 0)"

definition max_stored_findings :: nat where
  "max_stored_findings = 1000"

text \<open>Installation and database, before anything is scanned: the date of the database.\<close>

definition prepare_scanner :: "scan_env \<Rightarrow> scanner_def \<Rightarrow> bool \<Rightarrow> (scan_state, string) prog" where
  "prepare_scanner env sc update_db =
     bindP (liftP (sv_cache env)) (\<lambda>_.
     bindP (if sv_installed env (sn_name sc) then okP ()
        else bindP (set_phase (''installing '' @ sn_label sc)) (\<lambda>_. liftP (sv_install env (sn_name sc)))) (\<lambda>_.
       let built = sv_built env False (sn_name sc) in
       if update_db \<or> built = '''' then
         bindP (set_phase (''updating the '' @ sn_label sc @ '' database'')) (\<lambda>_.
         bindP (liftP (sv_update env (sn_name sc))) (\<lambda>_. okP (sv_built env True (sn_name sc))))
       else okP built))"

definition failed_scan :: "scanner_def \<Rightarrow> scan_target \<Rightarrow> string \<Rightarrow> image_scan" where
  "failed_scan sc t e =
     \<lparr>is_scanner = sn_name sc, is_repository = tg_registry t @ ''/'' @ tg_repository t, is_digest = tg_digest t,
      is_platform = tg_platform t, is_status = ''error'', is_error = e, is_notice = '''', is_scanned = 0, is_db_built = '''',
      is_critical = 0, is_high = 0, is_medium = 0, is_low = 0, is_unknown = 0, is_fixable_critical = 0, is_fixable_high = 0,
      is_findings = ''''\<rparr>"

definition done_scan :: "scan_env \<Rightarrow> scanner_def \<Rightarrow> scan_target \<Rightarrow> scan_report \<Rightarrow> image_scan" where
  "done_scan env sc t r =
     (let n = summarize (rt_findings r) in
      \<lparr>is_scanner = sn_name sc, is_repository = tg_registry t @ ''/'' @ tg_repository t, is_digest = tg_digest t,
       is_platform = tg_platform t, is_status = ''ok'', is_error = '''', is_notice = rt_notice r, is_scanned = 0,
       is_db_built = rt_built r, is_critical = co_critical n, is_high = co_high n, is_medium = co_medium n, is_low = co_low n,
       is_unknown = co_unknown n, is_fixable_critical = co_fixable_critical n, is_fixable_high = co_fixable_high n,
       is_findings = sv_json env (take max_stored_findings (rt_findings r))\<rparr>)"

datatype scan_outcome = Scanned | Current | Failed

definition scan_one :: "scan_env \<Rightarrow> scanner_def \<Rightarrow> string \<Rightarrow> scan_target \<Rightarrow> (scan_state, scan_outcome) prog" where
  "scan_one env sc built t =
     bindP (tryP (on_scan_db (get_image_scan (sn_name sc) (tg_digest t) (tg_platform t))) (\<lambda>_. okP None) okP) (\<lambda>prev.
     let had_ok = (case prev of None \<Rightarrow> False | Some p \<Rightarrow> is_status p = ''ok'') in
     if had_ok \<and> built \<le> is_db_built (the prev) then okP Current
     else bindP (tryP (on_scan_app (on_keys (registry_credential (tg_registry t)))) (\<lambda>_. okP None) okP) (\<lambda>auth.
       case sv_scan env (sn_name sc) t auth of
         Inl e \<Rightarrow>
           bindP (if had_ok then okP () else ignoreP (on_scan_db (upsert_image_scan (failed_scan sc t (error_text e))))) (\<lambda>_. okP Failed)
       | Inr r \<Rightarrow> bindP (on_scan_db (upsert_image_scan (done_scan env sc t r))) (\<lambda>_. okP Scanned)))"

fun scan_all :: "scan_env \<Rightarrow> scanner_def \<Rightarrow> string \<Rightarrow> nat \<Rightarrow> nat \<Rightarrow> scan_target list \<Rightarrow> (scan_state, scan_outcome list) prog" where
  "scan_all env sc built n i [] = okP []"
| "scan_all env sc built n i (t # ts) =
     bindP (set_phase (''scanning '' @ show_int (int (i + 1)) @ ''/'' @ show_int (int n))) (\<lambda>_.
     bindP (scan_one env sc built t) (\<lambda>o'. bindP (scan_all env sc built n (i + 1) ts) (\<lambda>os. okP (o' # os))))"

definition pass_message :: "scan_outcome list \<Rightarrow> string" where
  "pass_message os =
     (let n = (\<lambda>x. show_int (int (length (filter (\<lambda>o'. o' = x) os)))) in
      show_int (int (length os)) @ '' image(s): '' @ n Scanned @ '' scanned, '' @ n Current @ '' already current, '' @ n Failed @ '' failed'')"

definition scan_pass :: "scan_env \<Rightarrow> bool \<Rightarrow> (scan_state, string) prog" where
  "scan_pass env update_db =
     bindP (on_scan_db (active_scanner env)) (\<lambda>active.
       case active of
         None \<Rightarrow> failP (ErrText ''vulnerability scanning is not enabled'')
       | Some sc \<Rightarrow>
         bindP (prepare_scanner env sc update_db) (\<lambda>built.
         bindP (on_scan_db (scan_targets env)) (\<lambda>ts.
         bindP (scan_all env sc built (length ts) 0 ts) (\<lambda>os.
         bindP (ignoreP (on_scan_db (prune_image_scans (map (\<lambda>t. (sn_name sc, tg_digest t, tg_platform t)) ts)))) (\<lambda>_.
         bindP (ignoreP (on_scan_db (set_vuln_last_pass (pass_message os)))) (\<lambda>_.
           okP (pass_message os)))))))"

definition enable_job :: "scan_env \<Rightarrow> (scan_state, unit) prog" where
  "enable_job env =
     bindP (on_scan_db (active_scanner env)) (\<lambda>active.
       case active of
         None \<Rightarrow> failP (ErrText ''vulnerability scanning is not enabled'')
       | Some sc \<Rightarrow>
         let need = db_size_estimate (sn_name sc) * 3 div 2 in
         case sv_free env of
           Some free \<Rightarrow>
             if sv_built env False (sn_name sc) = '''' \<and> free < need
             then failP (ErrText (sn_label sc @ '' needs about '' @ sv_gb env need @ '' GB free in '' @ sv_cache_dir env
               @ '' for its database, '' @ sv_gb env free @ '' GB available''))
             else bindP (scan_pass env True) (\<lambda>_. okP ())
         | None \<Rightarrow> bindP (scan_pass env True) (\<lambda>_. okP ()))"

text \<open>The background job that was started, to its end.\<close>

definition run_job :: "scan_env \<Rightarrow> (scan_state, unit) prog" where
  "run_job env =
     bindP (getP vu_job) (\<lambda>job.
       case job of
         None \<Rightarrow> okP ()
       | Some j \<Rightarrow>
         tryP (case j of EnableJob \<Rightarrow> enable_job env | PassJob update_db \<Rightarrow> bindP (scan_pass env update_db) (\<lambda>_. okP ()))
           (\<lambda>e. modP (\<lambda>s. s\<lparr>vu_job := None, vu_phase := '''', vu_err := error_text e\<rparr>))
           (\<lambda>_. modP (\<lambda>s. s\<lparr>vu_job := None, vu_phase := ''''\<rparr>)))"

fun remove_dirs :: "scan_env \<Rightarrow> string list \<Rightarrow> unit result" where
  "remove_dirs env [] = Inr ()"
| "remove_dirs env (dir # dirs) =
     (case sv_remove env dir of
        Inl e \<Rightarrow> Inl (ErrWrap (''delete '' @ path_base dir @ '': '') e)
      | Inr _ \<Rightarrow> remove_dirs env dirs)"

definition purge_scans :: "scan_env \<Rightarrow> (scan_state, unit) prog" where
  "purge_scans env =
     bindP (liftP (remove_dirs env (concat (map sn_dirs (sv_scanners env))))) (\<lambda>_. on_scan_db (delete_image_scans ''''))"

text \<open>What the schedule runs.\<close>

definition scheduled_scan :: "scan_env \<Rightarrow> (scan_state, unit) prog" where
  "scheduled_scan env =
     bindP (on_scan_db (active_scanner env)) (\<lambda>active.
       if active = None then okP () else ignoreP (start_job ''scheduled scan'' (PassJob True)))"

section \<open>Badges\<close>

record scan_badge =
  sb_level :: string
  sb_label :: string
  sb_tooltip :: string
  sb_link :: string

definition middle_dot :: string where
  "middle_dot = [CHR 0xC2, CHR 0xB7]"

definition counted :: "int \<Rightarrow> string \<Rightarrow> string list" where
  "counted n name = (if n > 0 then [show_int n @ '' '' @ name] else [])"

definition badge_tooltip :: "(int \<Rightarrow> string) \<Rightarrow> image_scan \<Rightarrow> string \<Rightarrow> string" where
  "badge_tooltip stamp sc label =
     ''Critical '' @ show_int (is_critical sc) @ '' ('' @ show_int (is_fixable_critical sc) @ '' fixable) '' @ middle_dot
     @ '' High '' @ show_int (is_high sc) @ '' ('' @ show_int (is_fixable_high sc) @ '' fixable) '' @ middle_dot
     @ '' Medium '' @ show_int (is_medium sc) @ '' '' @ middle_dot @ '' Low '' @ show_int (is_low sc) @ '' '' @ middle_dot
     @ '' Unknown '' @ show_int (is_unknown sc) @ '' '' @ em_dash @ '' '' @ label @ '', scanned '' @ stamp (is_scanned sc)
     @ (if is_db_built sc \<noteq> '''' then '', database built '' @ is_db_built sc else '''')"

text \<open>\<open>stamp\<close> prints a time of the database.\<close>

definition badge_from_scan :: "(int \<Rightarrow> string) \<Rightarrow> image_scan \<Rightarrow> string \<Rightarrow> scan_badge" where
  "badge_from_scan stamp sc label =
     (let link = ''/scans/'' @ is_digest sc @ ''?platform='' @ is_platform sc;
          rest = is_medium sc + is_low sc + is_unknown sc;
          worst = counted (is_critical sc) ''critical'' @ counted (is_high sc) ''high'';
          parts = (if worst = [] then counted (is_medium sc) ''medium'' @ counted (is_low sc) ''low'' @ counted (is_unknown sc) ''unknown''
                   else worst) in
      if is_status sc \<noteq> ''ok'' then \<lparr>sb_level = ''none'', sb_label = ''scan failed'', sb_tooltip = is_error sc, sb_link = ''''\<rparr>
      else if is_critical sc + is_high sc + rest = 0 \<and> is_notice sc \<noteq> '''' then
        \<lparr>sb_level = ''none'', sb_label = ''nothing detected'', sb_tooltip = is_notice sc, sb_link = link\<rparr>
      else
        \<lparr>sb_level = (if is_critical sc > 0 then ''critical'' else if is_high sc > 0 then ''high'' else if rest > 0 then ''medium'' else ''clean''),
         sb_label = (if parts = [] then ''clean'' else join_with ('' '' @ middle_dot @ '' '') parts),
         sb_tooltip = badge_tooltip stamp sc label, sb_link = link\<rparr>)"

record scan_index =
  si_label :: string
  si_scans :: "(string \<times> image_scan) list"
  si_digest_of :: "(string \<times> string) list"
  si_in_use :: "string list"
  si_platform_of :: "(string \<times> string) list"
  si_old_agent :: "string list"

definition min_agent_for_image_digests :: string where
  "min_agent_for_image_digests = ''0.6.0''"

text \<open>The maps with the later entry first; a list that cannot be read is empty.\<close>

definition or_empty :: "(db, 'a list) prog \<Rightarrow> (db, 'a list) prog" where
  "or_empty m = tryP m (\<lambda>_. okP []) okP"

fun host_platforms :: "scan_env \<Rightarrow> host list \<Rightarrow> (db, (string \<times> string) list) prog" where
  "host_platforms env [] = okP []"
| "host_platforms env (h # hs) =
     bindP (tryP (host_arch (h_id h)) (\<lambda>_. okP '''') okP) (\<lambda>arch.
     bindP (host_platforms env hs) (\<lambda>rest. okP (rest @ [(h_id h, platform_for (sv_arch env) arch)])))"

definition new_scan_index :: "scan_env \<Rightarrow> (db, scan_index option) prog" where
  "new_scan_index env =
     bindP (active_scanner env) (\<lambda>active.
       case active of None \<Rightarrow> okP None
       | Some sc \<Rightarrow>
         bindP (or_empty (list_image_scans (sn_name sc))) (\<lambda>scans.
         bindP (or_empty list_host_images) (\<lambda>is.
         bindP (or_empty list_host_containers) (\<lambda>cs.
         bindP (or_empty list_hosts) (\<lambda>hosts.
         bindP (host_platforms env hosts) (\<lambda>platforms.
           okP (Some \<lparr>si_label = sn_label sc,
             si_scans = rev (map (\<lambda>s. (is_digest s @ ''|'' @ is_platform s, s)) scans),
             si_digest_of = rev (map (\<lambda>i. (hi_host i @ ''|'' @ hi_id i, hi_digest i)) (filter (\<lambda>i. hi_digest i \<noteq> '''') is)),
             si_in_use = map (\<lambda>c. hc_host c @ ''|'' @ hc_image_id c) (filter (\<lambda>c. hc_image_id c \<noteq> '''') cs),
             si_platform_of = platforms,
             si_old_agent = map h_id (filter (\<lambda>h. h_agent_version h = '''' \<or> semver_less (h_agent_version h) min_agent_for_image_digests) hosts)\<rparr>)))))))"

definition scan_lookup :: "scan_env \<Rightarrow> (int \<Rightarrow> string) \<Rightarrow> scan_index \<Rightarrow> string \<Rightarrow> string \<Rightarrow> scan_badge" where
  "scan_lookup env stamp ix digest host =
     (let p = get_str (si_platform_of ix) host; platform = (if p = '''' then platform_for (sv_arch env) '''' else p) in
      case map_of (si_scans ix) (digest @ ''|'' @ platform) of
        Some sc \<Rightarrow> badge_from_scan stamp sc (si_label ix)
      | None \<Rightarrow> \<lparr>sb_level = ''none'', sb_label = ''not scanned yet'', sb_tooltip = ''Queued for the next scan pass.'', sb_link = ''''\<rparr>)"

definition badge_for_digest :: "scan_env \<Rightarrow> (int \<Rightarrow> string) \<Rightarrow> scan_index option \<Rightarrow> string \<Rightarrow> string \<Rightarrow> scan_badge option" where
  "badge_for_digest env stamp ix digest host =
     (case ix of None \<Rightarrow> None | Some x \<Rightarrow> if digest = '''' then None else Some (scan_lookup env stamp x digest host))"

definition badge_for_image :: "scan_env \<Rightarrow> (int \<Rightarrow> string) \<Rightarrow> scan_index option \<Rightarrow> string \<Rightarrow> string \<Rightarrow> scan_badge option" where
  "badge_for_image env stamp ix host img =
     (case ix of None \<Rightarrow> None
      | Some x \<Rightarrow>
        if img = '''' then None
        else (let key = host @ ''|'' @ img; digest = get_str (si_digest_of x) key in
          if digest = '''' then
            (if host \<in> set (si_old_agent x) then
               Some \<lparr>sb_level = ''none'', sb_label = ''update agent'', sb_tooltip = ''This host''@ [CHR 0x27] @ ''s agent predates '' @ min_agent_for_image_digests
                 @ '' and does not report image digests.'', sb_link = ''''\<rparr>
             else if key \<in> set (si_in_use x) then
               Some \<lparr>sb_level = ''none'', sb_label = ''local image'',
                 sb_tooltip = ''Built or loaded locally: there is no registry digest to scan.'', sb_link = ''''\<rparr>
             else None)
          else if key \<notin> set (si_in_use x) then
            map_option (\<lambda>sc. badge_from_scan stamp sc (si_label x)) (map_of (si_scans x) (digest @ ''|'' @ get_str (si_platform_of x) host))
          else Some (scan_lookup env stamp x digest host)))"

section \<open>The settings and the findings\<close>

definition scan_back :: string where
  "scan_back = ''/settings/vulnerability-scanning''"

definition scan_busy :: string where
  "scan_busy = ''another scanning task is running: try again when it has finished''"

definition scan_audited :: "web_context option \<Rightarrow> string \<Rightarrow> string \<Rightarrow> (scan_state, reply) prog \<Rightarrow> (scan_state, reply) prog" where
  "scan_audited c action name nxt = bindP (on_scan_db (audit c action name '''')) (\<lambda>_. nxt)"

definition save_vuln_handler :: "scan_env \<Rightarrow> scan_state handler" where
  "save_vuln_handler env c rq =
     (case by_name env (form_value rq ''scanner'') of
        None \<Rightarrow> redirect_with_error scan_back ''choose Trivy or Grype''
      | Some sc \<Rightarrow>
        let enabled = (form_value rq ''enabled'' \<noteq> '''') in
        bindP (on_scan_db (tryP get_vuln_settings (\<lambda>_. okP no_vuln_settings) okP)) (\<lambda>prev.
          case (if enabled then sv_cache env else Inr ()) of
            Inl e \<Rightarrow> redirect_with_error scan_back (error_text e)
          | Inr _ \<Rightarrow>
            tryP (on_scan_db (set_vuln_settings_choice enabled (sn_name sc))) (http_fail 500) (\<lambda>_.
            bindP (if vs_scanner prev \<noteq> '''' \<and> vs_scanner prev \<noteq> sn_name sc
               then ignoreP (on_scan_db (delete_image_scans (vs_scanner prev))) else okP ()) (\<lambda>_.
              if \<not> enabled then scan_audited c ''scan.disable'' (sn_name sc)
                (redirect_with_saved_message scan_back ''Vulnerability scanning turned off'')
              else scan_audited c ''scan.enable'' (sn_name sc)
                (bindP (start_job (''starting '' @ sn_label sc) EnableJob) (\<lambda>started.
                   if \<not> started then redirect_with_error scan_back scan_busy
                   else redirect_with_saved_message scan_back (sn_label sc @ '' is being set up'')))))))"

definition scan_task :: "web_context option \<Rightarrow> string \<Rightarrow> scan_job \<Rightarrow> string \<Rightarrow> string \<Rightarrow> string \<Rightarrow> (scan_state, reply) prog" where
  "scan_task c phase job msg action name =
     bindP (start_job phase job) (\<lambda>started.
       if \<not> started then redirect_with_error scan_back scan_busy
       else scan_audited c action name (redirect_with_saved_message scan_back msg))"

definition vuln_action_handler :: "scan_env \<Rightarrow> string \<Rightarrow> scan_state handler" where
  "vuln_action_handler env action c rq =
     bindP (on_scan_db (active_scanner env)) (\<lambda>active.
       case active of
         None \<Rightarrow> redirect_with_error scan_back ''turn vulnerability scanning on first''
       | Some sc \<Rightarrow>
         if action = ''scan'' then scan_task c ''scanning'' (PassJob False) ''Scan started'' ''scan.run'' (sn_name sc)
         else if action = ''update-db''
         then scan_task c (''updating the '' @ sn_label sc @ '' database'') (PassJob True) ''Database update started'' ''scan.update_db'' (sn_name sc)
         else redirect_with_error scan_back scan_busy)"

definition purge_vuln_handler :: "scan_env \<Rightarrow> scan_state handler" where
  "purge_vuln_handler env c rq =
     bindP (getP vu_job) (\<lambda>running.
       if running \<noteq> None then redirect_with_error scan_back ''a scanning task is running: try again when it has finished''
       else bindP (on_scan_db (tryP get_vuln_settings (\<lambda>_. okP no_vuln_settings) okP)) (\<lambda>prev.
         tryP (on_scan_db (set_vuln_settings_choice False (vs_scanner prev))) (http_fail 500) (\<lambda>_.
         tryP (purge_scans env) (\<lambda>e. redirect_with_error scan_back (error_text e)) (\<lambda>_.
           scan_audited c ''scan.purge'' (vs_scanner prev) (redirect_with_saved_message scan_back ''Scanner data deleted'')))))"

definition advisory_url :: "string \<Rightarrow> string" where
  "advisory_url i =
     (if prefix ''CVE-'' i then ''https://nvd.nist.gov/vuln/detail/'' @ i
      else if prefix ''GHSA-'' i then ''https://github.com/advisories/'' @ i else '''')"

definition shown_findings :: "scan_env \<Rightarrow> bool \<Rightarrow> string \<Rightarrow> image_scan \<Rightarrow> (finding \<times> string) list" where
  "shown_findings env only_fixable severity sc =
     map (\<lambda>f. (f, advisory_url (fi_id f)))
       (filter (\<lambda>f. (only_fixable \<longrightarrow> fi_fixed_in f \<noteq> '''') \<and> (severity \<noteq> '''' \<longrightarrow> fi_severity f = severity)) (sv_parse env (is_findings sc)))"

definition scan_detail_handler :: "scan_env \<Rightarrow> string \<Rightarrow> string \<Rightarrow> scan_state handler" where
  "scan_detail_handler env digest platform c rq =
     bindP (on_scan_db (active_scanner env)) (\<lambda>active.
       case active of
         None \<Rightarrow> not_found
       | Some sc \<Rightarrow> tryP (on_scan_db (get_image_scan (sn_name sc) digest platform)) (http_fail 500) (\<lambda>found.
           if found = None then not_found else page ''scan_detail.html''))"

section \<open>The images of a stack's page\<close>

record policy_view =
  pv_policy :: image_policy
  pv_latest :: string
  pv_applied_short :: string
  pv_latest_short :: string
  pv_update :: bool
  pv_applied_scan :: "scan_badge option"
  pv_latest_scan :: "scan_badge option"

fun policy_views :: "scan_env \<Rightarrow> (int \<Rightarrow> string) \<Rightarrow> scan_index option \<Rightarrow> string \<Rightarrow> image_policy list \<Rightarrow> (db, policy_view list) prog" where
  "policy_views env stamp ix host [] = okP []"
| "policy_views env stamp ix host (p # ps) =
     bindP (policy_row p) (\<lambda>(_, latest, update).
     bindP (policy_views env stamp ix host ps) (\<lambda>rest.
       okP (\<lparr>pv_policy = p, pv_latest = (case latest of None \<Rightarrow> '''' | Some d \<Rightarrow> d), pv_applied_short = short_digest (ip_applied p),
         pv_latest_short = (case latest of None \<Rightarrow> '''' | Some d \<Rightarrow> short_digest d), pv_update = update,
         pv_applied_scan = badge_for_digest env stamp ix (ip_applied p) host,
         pv_latest_scan = (case latest of None \<Rightarrow> None | Some d \<Rightarrow> badge_for_digest env stamp ix d host)\<rparr> # rest)))"

definition image_policy_view_rows :: "scan_env \<Rightarrow> (int \<Rightarrow> string) \<Rightarrow> string \<Rightarrow> (db, policy_view list) prog" where
  "image_policy_view_rows env stamp stack =
     bindP (list_image_policies_for_stack stack) (\<lambda>ps.
     bindP (new_scan_index env) (\<lambda>ix.
     bindP (tryP (get_stack stack) (\<lambda>_. okP '''') (\<lambda>st. okP (st_host st))) (\<lambda>host.
       policy_views env stamp ix host ps)))"

end
