(* ===== verification/Resource_Pages.thy ===== *)
theory Resource_Pages
  imports Agent_Calls Vuln_Scans
begin

text \<open>
  The pages of images, volumes and networks, \<^verbatim>\<open>src/images.go\<close>, \<^verbatim>\<open>src/volumes.go\<close>, \<^verbatim>\<open>src/networks.go\<close>: what
  each row shows, what an inspection of the agent gives, and the deletion of several items at once.  JSON
  decoding is a parameter; the commands the code sends from several goroutines are sent one after the
  other.
\<close>

section \<open>Deleting several items\<close>

text \<open>All the values of a form field.\<close>

definition form_values :: "(string \<times> string) list \<Rightarrow> string \<Rightarrow> string list" where
  "form_values form k = map snd (filter (\<lambda>(k', _). k' = k) form)"

text \<open>An item is \<^verbatim>\<open>host|name\<close>; what went wrong with it, if anything.\<close>

definition delete_item :: "agents_env \<Rightarrow> string \<Rightarrow> string \<Rightarrow> (ops_state, string option) prog" where
  "delete_item env action ref =
     (case cut_at ''|'' ref of
        None \<Rightarrow> okP None
      | Some (host, name) \<Rightarrow>
        if \<not> ae_live env host then okP (Some (name @ '' (host not connected)''))
        else tryP (call_agent env host (container_command action name))
          (\<lambda>e. okP (Some (name @ '' ('' @ error_text e @ '')'')))
          (\<lambda>r. okP (if \<not> tm_ok r then Some (name @ '' ('' @ trim_space (tm_output r) @ '')'') else None)))"

fun delete_items :: "agents_env \<Rightarrow> string \<Rightarrow> string list \<Rightarrow> (ops_state, string list) prog" where
  "delete_items env action [] = okP []"
| "delete_items env action (ref # refs) =
     bindP (delete_item env action ref) (\<lambda>f. bindP (delete_items env action refs) (\<lambda>fs.
       okP ((case f of None \<Rightarrow> [] | Some t \<Rightarrow> [t]) @ fs)))"

text \<open>The answer once the commands are out; \<open>kind\<close> is the word for an item, \<open>page\<close> where to go.\<close>

definition deletion_answer :: "string \<Rightarrow> string \<Rightarrow> string list \<Rightarrow> string list \<Rightarrow> web_context option \<Rightarrow> (ops_state, reply) prog" where
  "deletion_answer pg kind refs failed c =
     (let n = show_int (int (length refs)) in
      if failed \<noteq> [] then
        redirect_with_error pg (show_int (int (length failed)) @ '' of '' @ n @ '' '' @ kind @ ''(s) could not be removed: ''
          @ join_with ''; '' failed)
      else audited_op c (kind @ ''.delete'') (n @ '' '' @ kind @ ''(s)'') (join_with '', '' refs)
        (answer (SeeOther (append_saved_message (pg @ ''?refreshing=1'') (n @ '' '' @ kind @ ''(s) deleted'')))))"

definition delete_volumes_handler :: "agents_env \<Rightarrow> ops_state handler" where
  "delete_volumes_handler env c rq =
     (case rq_form rq of
        Inl e \<Rightarrow> redirect_with_error ''/volumes'' (error_text e)
      | Inr form \<Rightarrow>
        let refs = form_values form ''names'' in
        if refs = [] then redirect_with_error ''/volumes'' ''No volumes selected.''
        else bindP (delete_items env ''volume_remove'' refs) (\<lambda>failed. deletion_answer ''/volumes'' ''volume'' refs failed c))"

definition delete_images_handler :: "agents_env \<Rightarrow> ops_state handler" where
  "delete_images_handler env c rq =
     (case rq_form rq of
        Inl e \<Rightarrow> redirect_with_error ''/images'' (error_text e)
      | Inr form \<Rightarrow>
        let refs = form_values form ''ids'' in
        if refs = [] then redirect_with_error ''/images'' ''No images selected.''
        else bindP (delete_items env ''image_remove'' refs) (\<lambda>failed. deletion_answer ''/images'' ''image'' refs failed c))"

definition delete_networks_handler :: "agents_env \<Rightarrow> ops_state handler" where
  "delete_networks_handler env c rq =
     (case rq_form rq of
        Inl e \<Rightarrow> redirect_with_error ''/networks'' (error_text e)
      | Inr form \<Rightarrow>
        let refs = form_values form ''names'' in
        if refs = [] then redirect_with_error ''/networks'' ''No networks selected.''
        else bindP (delete_items env ''network_remove'' refs) (\<lambda>failed. deletion_answer ''/networks'' ''network'' refs failed c))"

section \<open>What a row shows\<close>

text \<open>A list of rows, or the answer 500 of the handler.\<close>

definition comma_names :: "string list \<Rightarrow> string" where
  "comma_names ns = foldl (\<lambda>acc n. (if acc \<noteq> '''' then acc @ '', '' else acc) @ n) '''' ns"

record volume_row =
  vw_name :: string
  vw_host :: string
  vw_host_name :: string
  vw_driver :: string
  vw_size :: string
  vw_used_by :: string

definition mounted_by :: "host_container list \<Rightarrow> string \<Rightarrow> string \<Rightarrow> string list" where
  "mounted_by cs host name =
     map hc_name (filter (\<lambda>c. hc_host c = host \<and> hc_mounts c \<noteq> '''' \<and> name \<in> set (split_on CHR '','' (hc_mounts c))) cs)"

definition volume_rows :: "(ops_state, volume_row list) prog" where
  "volume_rows =
     bindP (with_odb list_host_volumes) (\<lambda>vs. bindP (with_odb list_host_containers) (\<lambda>cs. bindP (with_odb list_hosts) (\<lambda>_.
       okP (map (\<lambda>v. \<lparr>vw_name = hv_name v, vw_host = hv_host v, vw_host_name = hv_host_name v, vw_driver = hv_driver v,
         vw_size = ellipsis, vw_used_by = comma_names (mounted_by cs (hv_host v) (hv_name v))\<rparr>) vs))))"

definition volumes_handler :: "ops_state handler" where
  "volumes_handler c rq = tryP volume_rows (http_fail 500) (\<lambda>_. page ''volumes.html'')"

definition familiar_image_ref :: "string \<Rightarrow> string" where
  "familiar_image_ref ref = trim_prefix (trim_prefix ref ''docker.io/library/'') ''docker.io/''"

record image_row =
  iw_repo :: string
  iw_tag :: string
  iw_id :: string
  iw_host :: string
  iw_host_name :: string
  iw_size :: string
  iw_used_by :: string
  iw_scan :: "scan_badge option"

definition run_from :: "host_container list \<Rightarrow> host_image \<Rightarrow> string list" where
  "run_from cs i =
     map hc_name (filter (\<lambda>c. hc_host c = hi_host i
       \<and> familiar_image_ref (hc_image c) = familiar_image_ref (hi_repository i @ '':'' @ hi_tag i)) cs)"

definition image_rows :: "scan_env \<Rightarrow> (int \<Rightarrow> string) \<Rightarrow> (ops_state, image_row list) prog" where
  "image_rows sv stamp =
     bindP (with_odb list_host_images) (\<lambda>is. bindP (with_odb list_host_containers) (\<lambda>cs. bindP (with_odb list_hosts) (\<lambda>_.
     bindP (with_odb (new_scan_index sv)) (\<lambda>ix.
       okP (map (\<lambda>i. \<lparr>iw_repo = hi_repository i, iw_tag = hi_tag i, iw_id = hi_id i, iw_host = hi_host i,
         iw_host_name = hi_host_name i, iw_size = hi_size i, iw_used_by = comma_names (run_from cs i),
         iw_scan = badge_for_image sv stamp ix (hi_host i) (hi_id i)\<rparr>) is)))))"

definition images_handler :: "scan_env \<Rightarrow> (int \<Rightarrow> string) \<Rightarrow> ops_state handler" where
  "images_handler sv stamp c rq = tryP (image_rows sv stamp) (http_fail 500) (\<lambda>_. page ''images.html'')"

record network_row =
  nw_name :: string
  nw_host :: string
  nw_host_name :: string
  nw_driver :: string
  nw_scope :: string
  nw_containers :: string

definition attached_to :: "host_container list \<Rightarrow> string \<Rightarrow> string \<Rightarrow> string list" where
  "attached_to cs host name =
     map hc_name (filter (\<lambda>c. hc_host c = host \<and> hc_networks c \<noteq> '''' \<and> name \<in> set (split_on CHR '','' (hc_networks c))) cs)"

definition network_rows :: "(ops_state, network_row list) prog" where
  "network_rows =
     bindP (with_odb list_host_networks) (\<lambda>ns. bindP (with_odb list_host_containers) (\<lambda>cs. bindP (with_odb list_hosts) (\<lambda>_.
       okP (map (\<lambda>n. \<lparr>nw_name = hn_name n, nw_host = hn_host n, nw_host_name = hn_host_name n, nw_driver = hn_driver n,
         nw_scope = hn_scope n, nw_containers = comma_names (attached_to cs (hn_host n) (hn_name n))\<rparr>) ns))))"

definition networks_handler :: "ops_state handler" where
  "networks_handler c rq = tryP network_rows (http_fail 500) (\<lambda>_. page ''networks.html'')"

section \<open>Sizes of the volumes\<close>

text \<open>
  \<open>df\<close> decodes the report of a host; a volume named twice has its last size.  The agents of the hosts are
  asked in some order.
\<close>

fun ask_sizes :: "agents_env \<Rightarrow> (string \<Rightarrow> (string \<times> string) list result) \<Rightarrow> string list
    \<Rightarrow> (ops_state, (string \<times> (string \<times> string) list) list) prog" where
  "ask_sizes env df [] = okP []"
| "ask_sizes env df (host # hosts) =
     bindP (if \<not> ae_live env host then okP []
        else tryP (call_agent env host (container_command ''volume_sizes'' '''')) (\<lambda>_. okP []) (\<lambda>r.
          if \<not> tm_ok r then okP []
          else okP (case df (tm_output r) of Inl _ \<Rightarrow> [] | Inr vs \<Rightarrow> [(host, rev vs)]))) (\<lambda>mine.
     bindP (ask_sizes env df hosts) (\<lambda>rest. okP (mine @ rest)))"

definition volume_sizes_by_host :: "agents_env \<Rightarrow> (string \<Rightarrow> (string \<times> string) list result) \<Rightarrow> host_volume list
    \<Rightarrow> (ops_state, (string \<times> (string \<times> string) list) list) prog" where
  "volume_sizes_by_host env df vs = ask_sizes env df (dedup_from [] (map hv_host vs))"

definition volume_sizes :: "agents_env \<Rightarrow> (string \<Rightarrow> (string \<times> string) list result) \<Rightarrow> (ops_state, (string \<times> string) list) prog" where
  "volume_sizes env df =
     bindP (with_odb list_host_volumes) (\<lambda>vs. bindP (volume_sizes_by_host env df vs) (\<lambda>sizes.
       okP (List.map_filter (\<lambda>v. case map_of sizes (hv_host v) of None \<Rightarrow> None
         | Some mine \<Rightarrow> map_option (\<lambda>t. (hv_host v @ ''|'' @ hv_name v, t)) (map_of mine (hv_name v))) vs)))"

definition volume_sizes_handler :: "agents_env \<Rightarrow> (string \<Rightarrow> (string \<times> string) list result) \<Rightarrow> ((string \<times> string) list \<Rightarrow> string)
    \<Rightarrow> ops_state handler" where
  "volume_sizes_handler env df json c rq =
     tryP (volume_sizes env df) (http_fail 500) (\<lambda>out. answer (JsonBody 200 (json out)))"

section \<open>Details\<close>

text \<open>Maps as association lists without duplicate keys; by key.\<close>

definition sorted_kv_pairs :: "(string \<times> string) list \<Rightarrow> (string \<times> string) list" where
  "sorted_kv_pairs m = sort_key fst m"

text \<open>Dates of Docker have blanks of ASCII only.\<close>

definition trim_created_at :: "string \<Rightarrow> string" where
  "trim_created_at s =
     (case fields_by (\<lambda>c. [c] \<in> set space_seqs) s of a # b # _ \<Rightarrow> a @ '' '' @ b | _ \<Rightarrow> s)"

record volume_detail =
  vd_name :: string
  vd_driver :: string
  vd_mountpoint :: string
  vd_scope :: string
  vd_created :: string
  vd_options :: "(string \<times> string) list"
  vd_labels :: "(string \<times> string) list"

definition no_volume_detail :: volume_detail where
  "no_volume_detail = \<lparr>vd_name = '''', vd_driver = '''', vd_mountpoint = '''', vd_scope = '''', vd_created = '''', vd_options = [], vd_labels = []\<rparr>"

text \<open>\<open>decode\<close> gives the records of the JSON array with the fields as they stand there.\<close>

definition parse_volume_inspect :: "(string \<Rightarrow> volume_detail list result) \<Rightarrow> string \<Rightarrow> volume_detail" where
  "parse_volume_inspect decode raw =
     (case decode raw of
        Inr (i # _) \<Rightarrow> i\<lparr>vd_created := trim_created_at (vd_created i), vd_options := sorted_kv_pairs (vd_options i),
          vd_labels := sorted_kv_pairs (vd_labels i)\<rparr>
      | _ \<Rightarrow> no_volume_detail)"

text \<open>What an inspection gave: nothing when the host is away, the call failed or the agent refused.\<close>

definition inspected :: "agents_env \<Rightarrow> string \<Rightarrow> string \<Rightarrow> string \<Rightarrow> (ops_state, string option) prog" where
  "inspected env host action name =
     (if \<not> ae_live env host then okP None
      else tryP (call_agent env host (container_command action name)) (\<lambda>_. okP None) (\<lambda>r.
        okP (if tm_ok r then Some (tm_output r) else None)))"

definition volume_detail_of :: "agents_env \<Rightarrow> (string \<Rightarrow> volume_detail list result) \<Rightarrow> string \<Rightarrow> string
    \<Rightarrow> (ops_state, volume_detail \<times> string list) prog" where
  "volume_detail_of env decode host name =
     bindP (inspected env host ''volume_inspect'' name) (\<lambda>out.
     bindP (with_odb list_host_containers) (\<lambda>cs.
       okP ((case out of None \<Rightarrow> no_volume_detail | Some t \<Rightarrow> parse_volume_inspect decode t), mounted_by cs host name)))"

definition volume_detail_handler :: "agents_env \<Rightarrow> (string \<Rightarrow> volume_detail list result) \<Rightarrow> string \<Rightarrow> string \<Rightarrow> ops_state handler" where
  "volume_detail_handler env decode host name c rq =
     tryP (volume_detail_of env decode host name) (http_fail 500) (\<lambda>_. page ''volume_detail.html'')"

record image_inspect =
  ii_id :: string
  ii_size :: int
  ii_created :: string
  ii_arch :: string
  ii_os :: string
  ii_docker :: string
  ii_cmd :: "string list"
  ii_entrypoint :: "string list"
  ii_env :: "string list"
  ii_labels :: "(string \<times> string) list"

record image_detail =
  idt_id :: string
  idt_size :: string
  idt_created :: string
  idt_arch :: string
  idt_os :: string
  idt_docker :: string
  idt_cmd :: string
  idt_entrypoint :: string
  idt_env :: "(string \<times> string) list"
  idt_labels :: "(string \<times> string) list"

definition no_image_detail :: image_detail where
  "no_image_detail = \<lparr>idt_id = '''', idt_size = '''', idt_created = '''', idt_arch = '''', idt_os = '''', idt_docker = '''',
     idt_cmd = '''', idt_entrypoint = '''', idt_env = [], idt_labels = []\<rparr>"

text \<open>\<^verbatim>\<open>strings.Cut(kv, "=")\<close>.\<close>

definition key_value :: "string \<Rightarrow> string \<times> string" where
  "key_value kv = (case cut_at ''='' kv of None \<Rightarrow> (kv, '''') | Some p \<Rightarrow> p)"

definition parse_image_inspect :: "(string \<Rightarrow> image_inspect list result) \<Rightarrow> string \<Rightarrow> image_detail" where
  "parse_image_inspect decode raw =
     (case decode raw of
        Inr (i # _) \<Rightarrow> \<lparr>idt_id = ii_id i, idt_size = human_size (ii_size i), idt_created = trim_created_at (ii_created i),
          idt_arch = ii_arch i, idt_os = ii_os i, idt_docker = ii_docker i, idt_cmd = join_with '' '' (ii_cmd i),
          idt_entrypoint = join_with '' '' (ii_entrypoint i), idt_env = map key_value (ii_env i),
          idt_labels = sorted_kv_pairs (ii_labels i)\<rparr>
      | _ \<Rightarrow> no_image_detail)"

text \<open>The layers with their size and command, numbered from one; \<open>decode\<close> reads a line.\<close>

fun numbered_layers :: "(string \<Rightarrow> (string \<times> string) result) \<Rightarrow> int \<Rightarrow> string list \<Rightarrow> (int \<times> string \<times> string) list" where
  "numbered_layers decode n [] = []"
| "numbered_layers decode n (l # ls) =
     (if trim_space l = '''' then numbered_layers decode n ls
      else (case decode (trim_space l) of
          Inl _ \<Rightarrow> numbered_layers decode n ls
        | Inr x \<Rightarrow> (n, x) # numbered_layers decode (n + 1) ls))"

definition parse_image_history :: "(string \<Rightarrow> (string \<times> string) result) \<Rightarrow> string \<Rightarrow> (int \<times> string \<times> string) list" where
  "parse_image_history decode raw = numbered_layers decode 1 (split_on CHR 0x0A raw)"

definition image_detail_handler :: "agents_env \<Rightarrow> string \<Rightarrow> string \<Rightarrow> ops_state handler" where
  "image_detail_handler env host i c rq =
     bindP (inspected env host ''image_inspect'' i) (\<lambda>_. bindP (inspected env host ''image_history'' i) (\<lambda>_. page ''image_detail.html''))"

record network_inspect =
  ni_name :: string
  ni_driver :: string
  ni_scope :: string
  ni_internal :: bool
  ni_attachable :: bool
  ni_ipam :: "(string \<times> string) list"
  ni_containers :: "(string \<times> string) list"
  ni_labels :: "(string \<times> string) list"

record network_detail =
  nd_name :: string
  nd_driver :: string
  nd_scope :: string
  nd_subnet :: string
  nd_gateway :: string
  nd_internal :: bool
  nd_attachable :: bool
  nd_labels :: "(string \<times> string) list"

definition no_network_detail :: network_detail where
  "no_network_detail = \<lparr>nd_name = '''', nd_driver = '''', nd_scope = '''', nd_subnet = '''', nd_gateway = '''', nd_internal = False,
     nd_attachable = False, nd_labels = []\<rparr>"

text \<open>The containers are the values of a map, in some order; of two with one name the later address counts.\<close>

definition parse_network_inspect :: "(string \<Rightarrow> network_inspect list result) \<Rightarrow> string \<Rightarrow> network_detail \<times> (string \<times> string) list" where
  "parse_network_inspect decode raw =
     (case decode raw of
        Inr (i # _) \<Rightarrow>
          (\<lparr>nd_name = ni_name i, nd_driver = ni_driver i, nd_scope = ni_scope i,
             nd_subnet = (case ni_ipam i of [] \<Rightarrow> '''' | (s, _) # _ \<Rightarrow> s),
             nd_gateway = (case ni_ipam i of [] \<Rightarrow> '''' | (_, g) # _ \<Rightarrow> g),
             nd_internal = ni_internal i, nd_attachable = ni_attachable i, nd_labels = sorted_kv_pairs (ni_labels i)\<rparr>,
           map (\<lambda>n. (n, get_str (rev (ni_containers i)) n)) (sort (map fst (ni_containers i))))
      | _ \<Rightarrow> (no_network_detail, []))"

definition network_detail_handler :: "agents_env \<Rightarrow> string \<Rightarrow> string \<Rightarrow> ops_state handler" where
  "network_detail_handler env host name c rq =
     bindP (inspected env host ''network_inspect'' name) (\<lambda>_. page ''network_detail.html'')"

section \<open>Every item gets its command\<close>

text \<open>The commands for the items that name a connected host, in their order.\<close>

definition removal :: "agents_env \<Rightarrow> string \<Rightarrow> string \<Rightarrow> (string \<times> tunnel_message) option" where
  "removal env action ref =
     (case cut_at ''|'' ref of None \<Rightarrow> None
      | Some (host, name) \<Rightarrow> if ae_live env host then Some (host, container_command action name) else None)"

definition removals :: "agents_env \<Rightarrow> string \<Rightarrow> string list \<Rightarrow> (string \<times> tunnel_message) list" where
  "removals env action refs =
     List.map_filter (removal env action) refs"

lemma delete_item_run:
  "\<exists>f. delete_item env action ref s
     = (Inr f, s\<lparr>os_sent := os_sent s @ (case removal env action ref of None \<Rightarrow> [] | Some x \<Rightarrow> [x])\<rparr>)"
proof (cases "cut_at ''|'' ref")
  case (Some p)
  then obtain host name where p: "cut_at ''|'' ref = Some (host, name)" by (cases p) simp
  show ?thesis
    by (cases "ae_live env host"; cases "ae_reply env (length (os_sent s)) host (container_command action name)")
      (auto simp: delete_item_def removal_def p call_agent_def tryP_def)
qed (simp add: delete_item_def removal_def)

lemma delete_items_run:
  "\<exists>failed. delete_items env action refs s = (Inr failed, s\<lparr>os_sent := os_sent s @ removals env action refs\<rparr>)
     \<and> length failed \<le> length refs"
proof (induction refs arbitrary: s)
  case (Cons ref refs)
  let ?mine = "case removal env action ref of None \<Rightarrow> [] | Some x \<Rightarrow> [x]"
  obtain f where one: "delete_item env action ref s = (Inr f, s\<lparr>os_sent := os_sent s @ ?mine\<rparr>)"
    using delete_item_run by blast
  obtain fs where "delete_items env action refs (s\<lparr>os_sent := os_sent s @ ?mine\<rparr>)
      = (Inr fs, s\<lparr>os_sent := os_sent s @ ?mine @ removals env action refs\<rparr>)" "length fs \<le> length refs"
    using Cons.IH [of "s\<lparr>os_sent := os_sent s @ ?mine\<rparr>"] by auto
  moreover have "removals env action (ref # refs) = ?mine @ removals env action refs"
    by (simp add: removals_def map_filter_simps split: option.split)
  ultimately show ?case using one by (cases f) (auto simp: bindP_def tryP_def)
qed (simp add: removals_def map_filter_simps)

lemma deletion_answer_sent: "os_sent (snd (deletion_answer pg kind refs failed c s)) = os_sent s"
  by (auto simp: deletion_answer_def Let_def redirect_with_error_def audited_op_def answer_def bindP_def tryP_def zoomP_def
      split: prod.split sum.split)

text \<open>
  Deleting a selection of volumes, images or networks sends one removal for
  every selected item of a connected host, in the order selected, whatever became of the others, and
  nothing else.
\<close>

theorem bulk_delete_independent:
  "os_sent (snd (delete_volumes_handler env c rq s)) = os_sent s
       @ (case rq_form rq of Inl _ \<Rightarrow> [] | Inr form \<Rightarrow> removals env ''volume_remove'' (form_values form ''names''))
   \<and> os_sent (snd (delete_images_handler env c rq s)) = os_sent s
       @ (case rq_form rq of Inl _ \<Rightarrow> [] | Inr form \<Rightarrow> removals env ''image_remove'' (form_values form ''ids''))
   \<and> os_sent (snd (delete_networks_handler env c rq s)) = os_sent s
       @ (case rq_form rq of Inl _ \<Rightarrow> [] | Inr form \<Rightarrow> removals env ''network_remove'' (form_values form ''names''))"
proof -
  have run: "os_sent (snd (bindP (delete_items env action refs) (\<lambda>failed. deletion_answer pg kind refs failed c) s))
      = os_sent s @ removals env action refs" for action refs pg kind
    using delete_items_run [of env action refs s] by (auto simp: bindP_def tryP_def deletion_answer_sent)
  show ?thesis
    by (auto simp: delete_volumes_handler_def delete_images_handler_def delete_networks_handler_def run Let_def
        redirect_with_error_def answer_def removals_def map_filter_simps split: sum.split)
qed

end
