(* ===== verification/Container_Pages.thy ===== *)
theory Container_Pages
  imports Resource_Pages Stack_Pages
begin

text \<open>
  Containers, \<^verbatim>\<open>src/containers.go\<close> and \<^verbatim>\<open>src/container_actions.go\<close>: the rows of the lists, a container's page
  with its masked environment, the logs, and the commands that restart, stop and remove.  The decoders of
  JSON and YAML are parameters, and commands sent from several goroutines are sent one after the other.
\<close>

record page_state =
  pg_ops :: ops_state
  pg_keys :: custodian

abbreviation on_ops :: "(ops_state, 'a) prog \<Rightarrow> (page_state, 'a) prog" where
  "on_ops \<equiv> zoomP pg_ops (\<lambda>o' s. s\<lparr>pg_ops := o'\<rparr>)"

abbreviation on_pkeys :: "(custodian, 'a) prog \<Rightarrow> (page_state, 'a) prog" where
  "on_pkeys \<equiv> zoomP pg_keys (\<lambda>k s. s\<lparr>pg_keys := k\<rparr>)"

section \<open>Ports\<close>

record port_link =
  pl_text :: string
  pl_url :: string

text \<open>An entry of the list: host port (empty if none), container port, protocol; \<open>None\<close> is skipped.\<close>

definition port_entry :: "string \<Rightarrow> (bool \<times> string \<times> string \<times> string) option" where
  "port_entry e =
     (let halves = (\<lambda>s. case cut_at ''/'' s of None \<Rightarrow> (s, '''') | Some p \<Rightarrow> p) in
      case cut_at ''->'' e of
        None \<Rightarrow> Some (False, '''', halves e)
      | Some (bnd, rest) \<Rightarrow>
        if CHR '':'' \<notin> set bnd then None else Some (True, snd (cut_last CHR '':'' bnd), halves rest))"

definition port_view :: "string \<Rightarrow> bool \<times> string \<times> string \<times> string \<Rightarrow> port_link" where
  "port_view address e =
     (case e of (published, host_port, cport, proto) \<Rightarrow>
        if \<not> published then \<lparr>pl_text = cport @ ''/'' @ proto, pl_url = ''''\<rparr>
        else \<lparr>pl_text = host_port @ '':'' @ cport @ ''/'' @ proto,
          pl_url = (if address \<noteq> '''' then ''http://'' @ address @ '':'' @ host_port else '''')\<rparr>)"

fun port_links :: "string \<Rightarrow> (string \<times> string \<times> string) list \<Rightarrow> string list \<Rightarrow> port_link list" where
  "port_links address seen [] = []"
| "port_links address seen (e # es) =
     (let t = trim_space e in
      if t = '''' then port_links address seen es
      else (case port_entry t of
          None \<Rightarrow> port_links address seen es
        | Some p \<Rightarrow>
          if snd p \<in> set seen then port_links address seen es
          else port_view address p # port_links address (snd p # seen) es))"

definition parse_ports :: "string \<Rightarrow> string \<Rightarrow> port_link list" where
  "parse_ports raw address = (if raw = '''' then [] else port_links address [] (split_on CHR '','' raw))"

section \<open>Rows\<close>

definition clean_image_name :: "string \<Rightarrow> string" where
  "clean_image_name img =
     (case cut_at ''@'' img of None \<Rightarrow> img | Some (repo, digest) \<Rightarrow> repo @ ''@'' @ short_digest digest)"

record container_view =
  cv_id :: string
  cv_name :: string
  cv_image :: string
  cv_host :: string
  cv_state :: string
  cv_status :: string
  cv_ports :: "port_link list"
  cv_created :: string
  cv_stack :: string
  cv_managed :: bool
  cv_update :: string
  cv_scan :: "scan_badge option"

definition container_view_from_row :: "host_container \<Rightarrow> string \<Rightarrow> string \<Rightarrow> bool \<Rightarrow> container_view" where
  "container_view_from_row c address update managed =
     \<lparr>cv_id = hc_id c, cv_name = hc_name c, cv_image = clean_image_name (hc_image c), cv_host = hc_host_name c,
      cv_state = hc_state c, cv_status = hc_status c, cv_ports = parse_ports (hc_ports c) address,
      cv_created = trim_created_at (hc_created c), cv_stack = hc_stack c, cv_managed = managed, cv_update = update, cv_scan = None\<rparr>"

definition managed_stack_set :: "(db, string list) prog" where
  "managed_stack_set = tryP list_stacks (\<lambda>_. okP []) (\<lambda>ss. okP (map st_id ss))"

fun update_statuses :: "image_policy list \<Rightarrow> ((string \<times> string) \<times> string) list \<Rightarrow> (db, ((string \<times> string) \<times> string) list) prog" where
  "update_statuses [] out = okP out"
| "update_statuses (p # ps) out =
     (case parse_image_ref (ip_ref p) of
        None \<Rightarrow> update_statuses ps out
      | Some ref \<Rightarrow> tryP (get_image_digest_cache (canonical ref)) (\<lambda>_. update_statuses ps out) (\<lambda>d.
          case d of None \<Rightarrow> update_statuses ps out
          | Some digest \<Rightarrow> update_statuses ps (put_assoc (ip_stack p, ip_service p)
              (if digest = ip_applied p then ''current'' else ''outdated'') out)))"

definition container_update_statuses :: "(db, ((string \<times> string) \<times> string) list) prog" where
  "container_update_statuses = tryP list_image_policies (\<lambda>_. okP []) (\<lambda>ps. update_statuses ps [])"

definition container_rows :: "scan_env \<Rightarrow> (int \<Rightarrow> string) \<Rightarrow> (db, container_view list) prog" where
  "container_rows sv stamp =
     bindP list_host_containers (\<lambda>rows. bindP list_hosts (\<lambda>hosts.
     bindP container_update_statuses (\<lambda>statuses. bindP managed_stack_set (\<lambda>managed. bindP (new_scan_index sv) (\<lambda>ix.
       okP (map (\<lambda>c. (container_view_from_row c (get_str (rev (map (\<lambda>h. (h_id h, h_address h)) hosts)) (hc_host c))
           (get_str statuses (hc_stack c, hc_service c)) (hc_stack c \<in> set managed))
         \<lparr>cv_scan := badge_for_image sv stamp ix (hc_host c) (hc_image_id c)\<rparr>) rows))))))"

definition containers_handler :: "scan_env \<Rightarrow> (int \<Rightarrow> string) \<Rightarrow> ops_state handler" where
  "containers_handler sv stamp c rq = tryP (with_odb (container_rows sv stamp)) (http_fail 500) (\<lambda>_. page ''containers.html'')"

record stack_container_row =
  sc_id :: string
  sc_name :: string
  sc_service :: string
  sc_image :: string
  sc_state :: string
  sc_status :: string
  sc_ports :: "port_link list"

text \<open>The address of a host is read once.\<close>

fun stack_rows :: "host_container list \<Rightarrow> (string \<times> string) list \<Rightarrow> (db, stack_container_row list) prog" where
  "stack_rows [] addrs = okP []"
| "stack_rows (c # cs) addrs =
     bindP (case map_of addrs (hc_host c) of
         Some a \<Rightarrow> okP a
       | None \<Rightarrow> tryP (get_host (hc_host c)) (\<lambda>_. okP '''') (\<lambda>h. okP (h_address h))) (\<lambda>addr.
     bindP (stack_rows cs (put_assoc (hc_host c) addr addrs)) (\<lambda>rest.
       okP (\<lparr>sc_id = hc_id c, sc_name = hc_name c, sc_service = hc_service c, sc_image = hc_image c, sc_state = hc_state c,
         sc_status = hc_status c, sc_ports = parse_ports (hc_ports c) addr\<rparr> # rest)))"

definition stack_container_rows :: "string \<Rightarrow> (db, stack_container_row list) prog" where
  "stack_container_rows stack = bindP (list_host_containers_by_stack stack) (\<lambda>rows. stack_rows rows [])"

section \<open>The masked environment\<close>

text \<open>A reference \<^verbatim>\<open>$VAR\<close> or \<^verbatim>\<open>${VAR}\<close> anywhere in a text, the regular expression of the code.\<close>

definition word_start :: "char \<Rightarrow> bool" where
  "word_start c \<longleftrightarrow> is_alpha c \<or> c = CHR ''_''"

definition word_char :: "char \<Rightarrow> bool" where
  "word_char c \<longleftrightarrow> is_alnum c \<or> c = CHR ''_''"

definition var_here :: "string \<Rightarrow> bool" where
  "var_here s =
     (case s of
        CHR ''$'' # CHR ''{'' # c # cs \<Rightarrow> word_start c \<and> (case dropWhile word_char cs of [] \<Rightarrow> False | d # _ \<Rightarrow> d = CHR ''}'')
      | CHR ''$'' # c # cs \<Rightarrow> word_start c
      | _ \<Rightarrow> False)"

fun has_var :: "string \<Rightarrow> bool" where
  "has_var [] = False"
| "has_var (c # cs) = (var_here (c # cs) \<or> has_var cs)"

text \<open>The two forms of \<^verbatim>\<open>environment\<close>; a value that is no text is \<open>None\<close>.\<close>

datatype compose_env =
    EnvMap "(string \<times> string option) list"
  | EnvList "string option list"
  | EnvNone

definition trim_braces :: "string \<Rightarrow> string" where
  "trim_braces s = (let p = (\<lambda>c. c \<in> set ''${}'') in rev (dropWhile p (rev (dropWhile p s))))"

definition service_env_keys :: "compose_env \<Rightarrow> string list" where
  "service_env_keys e =
     (case e of
        EnvMap m \<Rightarrow> List.map_filter (\<lambda>(k, v). case v of None \<Rightarrow> None | Some s \<Rightarrow> if has_var s then Some k else None) m
      | EnvList items \<Rightarrow> List.map_filter (\<lambda>v. case v of None \<Rightarrow> None
          | Some s \<Rightarrow> (case cut_at ''='' s of
              Some (k, w) \<Rightarrow> if has_var w then Some k else None
            | None \<Rightarrow> if has_var s then Some (trim_braces s) else None)) items
      | EnvNone \<Rightarrow> [])"

definition substituted_env_keys :: "(string \<Rightarrow> compose_env list result) \<Rightarrow> string \<Rightarrow> string list result" where
  "substituted_env_keys services yaml =
     bind_res (services yaml) (\<lambda>es. Inr (dedup_from [] (concat (map service_env_keys es))))"

text \<open>The secrets of a local stack, the masked keys of one from Git; nothing when something fails.\<close>

fun secret_lines :: "string list \<Rightarrow> (string \<times> string) list \<Rightarrow> (string \<times> string) list" where
  "secret_lines [] out = out"
| "secret_lines (l # ls) out =
     (let line = trim_space l in
      if line = '''' \<or> prefix ''#'' line then secret_lines ls out
      else (case cut_at ''='' line of
          None \<Rightarrow> secret_lines ls out
        | Some (k, v) \<Rightarrow> secret_lines ls (put_assoc (trim_space k) (trim_space v) out)))"

definition stack_secrets :: "crypto \<Rightarrow> string \<Rightarrow> (page_state, (string \<times> string) list \<times> string list) prog" where
  "stack_secrets cy stack =
     (if stack = '''' then okP ([], [])
      else tryP (on_ops (with_odb (get_stack stack))) (\<lambda>_. okP ([], [])) (\<lambda>st.
        if st_source st = ''git'' then okP ([], filter (\<lambda>k. k \<noteq> '''') (split_on CHR '','' (st_subst_keys st)))
        else if st_secret st = '''' then okP ([], [])
        else tryP (on_pkeys (decrypt cy stack (st_secret st))) (\<lambda>_. okP ([], [])) (\<lambda>plaintext.
          okP (secret_lines (split_on CHR 0x0A plaintext) [], []))))"

record env_var =
  ev_key :: string
  ev_value :: string
  ev_secret :: bool
  ev_source :: string

definition env_view :: "(string \<times> string) list \<Rightarrow> string list \<Rightarrow> string \<Rightarrow> env_var" where
  "env_view secrets hidden kv =
     (case key_value kv of (k, v) \<Rightarrow>
        if k \<in> set hidden then \<lparr>ev_key = k, ev_value = '''', ev_secret = True, ev_source = ''set via ${...} in compose''\<rparr>
        else if v \<noteq> '''' \<and> v \<in> set (map snd secrets) then \<lparr>ev_key = k, ev_value = '''', ev_secret = True, ev_source = ''Wharf secrets''\<rparr>
        else \<lparr>ev_key = k, ev_value = v, ev_secret = False, ev_source = ''''\<rparr>)"

definition build_env_vars :: "crypto \<Rightarrow> string \<Rightarrow> string list \<Rightarrow> (page_state, env_var list) prog" where
  "build_env_vars cy stack raw =
     bindP (stack_secrets cy stack) (\<lambda>(secrets, hidden). okP (map (env_view secrets hidden) raw))"

section \<open>A container's page\<close>

record container_mount =
  cm_type :: string
  cm_name :: string
  cm_source :: string
  cm_destination :: string
  cm_mode :: string
  cm_rw :: bool

record container_inspect =
  ci_image :: string
  ci_config_image :: string
  ci_cmd :: "string list"
  ci_entrypoint :: "string list"
  ci_env :: "string list"
  ci_labels :: "(string \<times> string) list"
  ci_restart :: string
  ci_retries :: int
  ci_mounts :: "container_mount list"
  ci_networks :: "(string \<times> string \<times> string) list"

record container_detail =
  cd_image :: string
  cd_image_id :: string
  cd_cmd :: string
  cd_entrypoint :: string
  cd_restart :: string
  cd_labels :: "(string \<times> string) list"

definition no_container_detail :: container_detail where
  "no_container_detail = \<lparr>cd_image = '''', cd_image_id = '''', cd_cmd = '''', cd_entrypoint = '''', cd_restart = '''', cd_labels = []\<rparr>"

definition restart_policy :: "container_inspect \<Rightarrow> string" where
  "restart_policy i =
     (if ci_restart i = ''on-failure'' \<and> ci_retries i > 0 then ''on-failure (max '' @ show_int (ci_retries i) @ '' retries)''
      else if ci_restart i = '''' then ''no'' else ci_restart i)"

text \<open>Type, source, destination and mode of a mount.\<close>

definition mount_view :: "container_mount \<Rightarrow> string \<times> string \<times> string \<times> string" where
  "mount_view m =
     (cm_type m, if cm_type m = ''volume'' \<and> cm_name m \<noteq> '''' then cm_name m else cm_source m, cm_destination m,
      if cm_mode m = '''' then (if cm_rw m then ''rw'' else ''ro'') else cm_mode m)"

type_synonym inspection =
  "container_detail \<times> env_var list \<times> (string \<times> string \<times> string \<times> string) list \<times> (string \<times> string \<times> string) list"

definition parse_inspect :: "crypto \<Rightarrow> (string \<Rightarrow> container_inspect list result) \<Rightarrow> string \<Rightarrow> string \<Rightarrow> (page_state, inspection) prog" where
  "parse_inspect cy decode stack raw =
     (case decode raw of
        Inr (i # _) \<Rightarrow> bindP (build_env_vars cy stack (ci_env i)) (\<lambda>vars.
          okP (\<lparr>cd_image = ci_config_image i, cd_image_id = short_digest (ci_image i), cd_cmd = join_with '' '' (ci_cmd i),
              cd_entrypoint = join_with '' '' (ci_entrypoint i), cd_restart = restart_policy i,
              cd_labels = sorted_kv_pairs (ci_labels i)\<rparr>,
            vars, map mount_view (ci_mounts i), sort_key fst (ci_networks i)))
      | _ \<Rightarrow> okP (no_container_detail, [], [], []))"

record container_page =
  cp_view :: container_view
  cp_detail :: inspection
  cp_logs :: string
  cp_processes :: string

definition container_page_of :: "crypto \<Rightarrow> scan_env \<Rightarrow> (int \<Rightarrow> string) \<Rightarrow> agents_env \<Rightarrow> (string \<Rightarrow> container_inspect list result)
    \<Rightarrow> host_container \<Rightarrow> (page_state, container_page) prog" where
  "container_page_of cy sv stamp env decode c =
     bindP (on_ops (with_odb (tryP (get_host (hc_host c)) (\<lambda>_. okP '''') (\<lambda>h. okP (h_address h))))) (\<lambda>address.
     bindP (on_ops (with_odb container_update_statuses)) (\<lambda>statuses.
     bindP (on_ops (with_odb managed_stack_set)) (\<lambda>managed.
     bindP (on_ops (inspected env (hc_host c) ''logs'' (hc_id c))) (\<lambda>logs.
     bindP (on_ops (inspected env (hc_host c) ''inspect'' (hc_id c))) (\<lambda>out.
     bindP (case out of None \<Rightarrow> okP (no_container_detail, [], [], []) | Some raw \<Rightarrow> parse_inspect cy decode (hc_stack c) raw) (\<lambda>detail.
     bindP (on_ops (inspected env (hc_host c) ''top'' (hc_id c))) (\<lambda>procs.
     bindP (on_ops (with_odb (new_scan_index sv))) (\<lambda>ix.
       okP \<lparr>cp_view = (container_view_from_row c address (get_str statuses (hc_stack c, hc_service c)) (hc_stack c \<in> set managed))
           \<lparr>cv_scan := badge_for_image sv stamp ix (hc_host c) (hc_image_id c)\<rparr>,
         cp_detail = detail, cp_logs = (case logs of None \<Rightarrow> '''' | Some t \<Rightarrow> t),
         cp_processes = (case procs of None \<Rightarrow> '''' | Some t \<Rightarrow> t)\<rparr>))))))))"

definition container_detail_handler :: "crypto \<Rightarrow> scan_env \<Rightarrow> (int \<Rightarrow> string) \<Rightarrow> agents_env
    \<Rightarrow> (string \<Rightarrow> container_inspect list result) \<Rightarrow> string \<Rightarrow> page_state handler" where
  "container_detail_handler cy sv stamp env decode i c rq =
     tryP (on_ops (with_odb (get_host_container i))) (\<lambda>_. not_found) (\<lambda>row.
       bindP (container_page_of cy sv stamp env decode row) (\<lambda>_. page ''container_detail.html''))"

section \<open>Logs\<close>

definition valid_log_tails :: "string list" where
  "valid_log_tails = [''100'', ''200'', ''500'', ''1000'', ''2000'', ''all'']"

text \<open>\<open>tail\<close> and \<open>download\<close> are parameters of the URL's query.\<close>

definition log_tail_from_query :: "string \<Rightarrow> string" where
  "log_tail_from_query tail = (if tail \<in> set valid_log_tails then tail else ''500'')"

definition split_log_lines :: "string \<Rightarrow> string list" where
  "split_log_lines logs = (if logs = '''' then [] else split_on CHR 0x0A (trim_suffix logs [CHR 0x0A]))"

definition container_logs_page_handler :: "agents_env \<Rightarrow> string \<Rightarrow> string \<Rightarrow> ops_state handler" where
  "container_logs_page_handler env i tail c rq =
     tryP (with_odb (get_host_container i)) (\<lambda>_. not_found) (\<lambda>row.
       if ae_live env (hc_host row)
       then bindP (ignoreP (call_agent env (hc_host row) (logs_command (hc_id row) (log_tail_from_query tail)))) (\<lambda>_.
         page ''container_logs.html'')
       else page ''container_logs.html'')"

text \<open>The file name offered with the download.\<close>

definition safe_name :: "string \<Rightarrow> string" where
  "safe_name name = filter (\<lambda>c. c \<notin> {CHR 0x22, CHR 0x0D, CHR 0x0A}) name"

definition container_logs_raw_handler :: "agents_env \<Rightarrow> string \<Rightarrow> string \<Rightarrow> ops_state handler" where
  "container_logs_raw_handler env i tail c rq =
     tryP (with_odb (get_host_container i)) (\<lambda>_. not_found) (\<lambda>row.
       if \<not> ae_live env (hc_host row) then http_error 503 ''host not connected''
       else tryP (call_agent env (hc_host row) (logs_command (hc_id row) (log_tail_from_query tail))) (http_fail 504) (\<lambda>r.
         if \<not> tm_ok r then http_error 500 (tm_output r) else answer (RawBody (tm_output r))))"

section \<open>Restart, stop and remove\<close>

definition agent_away :: string where
  "agent_away = ''agent for this host is not currently connected''"

text \<open>\<open>referer\<close> is the path of the referring page's URL, when there is one that parses.\<close>

definition action_target :: "string option \<Rightarrow> string \<Rightarrow> string" where
  "action_target referer i = (if referer = Some ''/containers'' then ''/containers'' else ''/containers/'' @ i)"

definition run_container_action :: "agents_env \<Rightarrow> string option \<Rightarrow> string \<Rightarrow> string \<Rightarrow> ops_state handler" where
  "run_container_action env referer action i c rq =
     tryP (with_odb (get_host_container i)) (\<lambda>_. not_found) (\<lambda>row.
       let target = action_target referer i in
       if \<not> ae_live env (hc_host row) then redirect_with_error target agent_away
       else tryP (call_agent env (hc_host row) (container_command action (hc_id row)))
         (\<lambda>e. redirect_with_error target (error_text e)) (\<lambda>r.
           if \<not> tm_ok r then redirect_with_error target (tm_output r)
           else audited_op c (''container.'' @ action) (hc_name row) (''host '' @ hc_host row)
             (redirect_with_saved_message target
               (if action = ''stop'' then ''Container stopped'' else ''Container '' @ action @ ''ed''))))"

definition restart_container_handler :: "agents_env \<Rightarrow> string option \<Rightarrow> string \<Rightarrow> ops_state handler" where
  "restart_container_handler env referer i = run_container_action env referer ''restart'' i"

definition stop_container_handler :: "agents_env \<Rightarrow> string option \<Rightarrow> string \<Rightarrow> ops_state handler" where
  "stop_container_handler env referer i = run_container_action env referer ''stop'' i"

definition managed_refusal :: string where
  "managed_refusal = ''this container belongs to a stack Wharf manages '' @ em_dash
     @ '' undeploy the stack instead of removing one of its containers directly''"

definition managed_stack :: "string \<Rightarrow> (ops_state, bool) prog" where
  "managed_stack stack =
     (if stack = '''' then okP False else tryP (with_odb (get_stack stack)) (\<lambda>_. okP False) (\<lambda>_. okP True))"

definition remove_container_handler :: "agents_env \<Rightarrow> string option \<Rightarrow> string \<Rightarrow> ops_state handler" where
  "remove_container_handler env referer i c rq =
     tryP (with_odb (get_host_container i)) (\<lambda>_. not_found) (\<lambda>row.
       let target = action_target referer i in
       bindP (managed_stack (hc_stack row)) (\<lambda>ours.
         if ours then redirect_with_error target managed_refusal
         else if hc_state row = ''running'' then redirect_with_error target ''stop the container before removing it''
         else if \<not> ae_live env (hc_host row) then redirect_with_error target agent_away
         else tryP (call_agent env (hc_host row) (container_command ''remove'' (hc_id row)))
           (\<lambda>e. redirect_with_error target (error_text e)) (\<lambda>r.
             if \<not> tm_ok r then redirect_with_error target (tm_output r)
             else audited_op c ''container.remove'' (hc_name row) (''host '' @ hc_host row)
               (redirect_with_saved_message ''/containers'' ''Container removed''))))"

section \<open>What is masked\<close>

text \<open>The page reads the secrets of a local stack as the agent channel hands them over.\<close>

lemma secret_lines_env: "secret_lines ls out = parse_env_loop ls out"
  by (induction ls arbitrary: out) (simp_all add: Let_def split: option.split prod.split)

lemma env_view_clear:
  assumes "v \<noteq> ''''" and "(k, v) \<in> set secrets"
  shows "ev_value (env_view secrets hidden kv) \<noteq> v"
proof -
  have "v \<in> set (map snd secrets)" using assms(2) by (metis in_set_conv_nth length_map nth_map snd_conv)
  then show ?thesis using assms(1) by (cases "key_value kv") (auto simp: env_view_def)
qed

lemma stack_secrets_local:
  assumes "i \<noteq> ''''" and "find_stack (os_db (pg_ops s)) i = Some st" and "d_faults (os_db (pg_ops s)) = []"
    and "st_source st \<noteq> ''git''" and "st_secret st \<noteq> ''''"
    and "fst (decrypt cy i (st_secret st) (pg_keys s)) = Inr plaintext"
  shows "fst (stack_secrets cy i s) = Inr (parse_env_lines plaintext, [])"
proof -
  have g: "get_stack i (os_db (pg_ops s)) = (Inr st, os_db (pg_ops s))"
    using assms(2,3) by (simp add: get_stack_def wrapP_def tryP_def bindP_def faultless_exec)
  obtain k where d: "decrypt cy i (st_secret st) (pg_keys s) = (Inr plaintext, k)" using assms(6) by (metis prod.collapse)
  show ?thesis using assms(1,4,5)
    by (simp add: stack_secrets_def tryP_def zoomP_def g d secret_lines_env parse_env_lines_def)
qed

text \<open>The same key opens a ciphertext whenever it can be read.\<close>

lemma decrypt_same_key:
  assumes "fst (decrypt cy i c k) = Inr plaintext" and "find_key i (k_age k') = find_key i (k_age k)" and "k_faults k' = []"
  shows "fst (decrypt cy i c k') = Inr plaintext"
proof -
  from assms(1) obtain row where "find_key i (k_age k) = Some row" "decrypt_with cy (ky_private row) c = Inr plaintext"
    by (auto simp: decrypt_def krow_def kquery_def kstmt_def wrapP_def bindP_def tryP_def liftP_def failP_def
        split: list.splits option.splits sum.splits prod.splits)
  with assms(2,3) show ?thesis
    by (simp add: decrypt_def krow_def kquery_def kstmt_def wrapP_def bindP_def tryP_def liftP_def)
qed

text \<open>What a command for a local stack delivers are the lines of its decrypted secrets.\<close>

lemma delivered_env:
  assumes "fst (command_for kr h dep st a) = Inr (AgCommand cmd)" and "st_source st \<noteq> ''git''" and "x \<in> set (cr_env cmd)"
  shows "st_secret st \<noteq> '''' \<and> (\<exists>plaintext. kr_decrypt kr (st_id st) (st_secret st) = Inr plaintext \<and> cr_env cmd = parse_env_lines plaintext)"
  using assms
  by (auto simp: command_for_def local_command_def bare_response_def Let_def give_up_def ag_error_def bindP_def tryP_def zoomP_def
      ignoreP_def split: sum.splits prod.splits if_splits)

text \<open>
  C35 delivered_secrets_masked.  Every value that a deployment command delivered to an agent in the
  environment of a local stack is hidden on the page of the stack's containers at any later time at which
  the stack's encrypted secrets and its key are those of the command and can be read: no variable shown
  there, whatever its name and whatever the agent reports, has such a value unless it is empty.
\<close>

theorem delivered_secrets_masked:
  assumes "fst (command_for (keyring_of cy keys) h dep st a) = Inr (AgCommand cmd)"
    and "st_source st \<noteq> ''git''" and "st_id st \<noteq> ''''"
    and "find_stack (os_db (pg_ops s)) (st_id st) = Some now" and "st_source now \<noteq> ''git''" and "st_secret now = st_secret st"
    and "find_key (st_id st) (k_age (pg_keys s)) = find_key (st_id st) (k_age keys)"
    and "d_faults (os_db (pg_ops s)) = []" and "k_faults (pg_keys s) = []"
    and "fst (build_env_vars cy (st_id st) raw s) = Inr vars" and "v \<in> set vars"
    and "(k, secret) \<in> set (cr_env cmd)" and "secret \<noteq> ''''"
  shows "ev_value v \<noteq> secret"
proof -
  obtain plaintext where some: "st_secret st \<noteq> ''''" and plain: "fst (decrypt cy (st_id st) (st_secret st) keys) = Inr plaintext"
      and env: "cr_env cmd = parse_env_lines plaintext"
    using delivered_env [OF assms(1,2,12)] by (auto simp: keyring_of_def)
  from decrypt_same_key [OF plain assms(7,9)] have "fst (decrypt cy (st_id st) (st_secret now) (pg_keys s)) = Inr plaintext"
    using assms(6) by simp
  with stack_secrets_local [OF assms(3,4,8,5)] some assms(6)
  obtain s1 where "stack_secrets cy (st_id st) s = (Inr (parse_env_lines plaintext, []), s1)" by (metis prod.collapse)
  then have "vars = map (env_view (parse_env_lines plaintext) []) raw"
    using assms(10) by (simp add: build_env_vars_def bindP_def tryP_def)
  with assms(11) obtain kv where "v = env_view (parse_env_lines plaintext) [] kv" by auto
  with env_view_clear [OF assms(13)] assms(12) env show ?thesis by simp
qed

section \<open>What is not masked\<close>

lemma dropWhile_name: "list_all word_char xs \<Longrightarrow> \<not> word_char c \<Longrightarrow> dropWhile word_char (xs @ c # ys) = c # ys"
  by (induction xs) auto

lemma no_dollar_no_var: "CHR ''$'' \<notin> set s \<Longrightarrow> \<not> has_var s"
  by (induction s) (auto simp: var_here_def split: list.splits char.splits bool.splits)

lemma default_form_no_var:
  assumes "list_all word_char name" and "CHR ''$'' \<notin> set rest"
  shows "\<not> has_var (''${'' @ name @ CHR '':'' # rest)"
proof -
  have "CHR ''$'' \<notin> set name" using assms(1) by (auto simp: list_all_iff word_char_def is_alnum_def is_alpha_def is_lower_def is_upper_def is_digit_def)
  then have tail: "\<not> has_var (CHR ''{'' # name @ CHR '':'' # rest)" using assms(2) by (intro no_dollar_no_var) simp
  have colon: "\<not> word_char CHR '':''" "\<not> word_start CHR '':''"
    by (simp_all add: word_char_def word_start_def is_alnum_def is_alpha_def is_lower_def is_upper_def is_digit_def)
  have "\<not> var_here (''${'' @ name @ CHR '':'' # rest)"
  proof (cases name)
    case Nil
    then show ?thesis by (simp add: var_here_def colon)
  next
    case (Cons c cs)
    then have "dropWhile word_char (cs @ CHR '':'' # rest) = CHR '':'' # rest"
      using assms(1) colon by (intro dropWhile_name) simp_all
    with Cons show ?thesis by (simp add: var_here_def)
  qed
  with tail show ?thesis by simp
qed

text \<open>
  A Git stack whose compose file sets a variable with one of the reference's common
  longer forms (a default or an error after a colon) shows the variable's value, be it a secret, in clear
  on the container's page: the form does not count as a substitution.
\<close>

theorem default_form_shown:
  assumes "st_source st = ''git''" and "st_id st \<noteq> ''''"
    and "fst (get_stack (st_id st) (os_db (pg_ops s))) = Inr st"
    and "services yaml = Inr [EnvMap [(key, Some (''${'' @ name @ CHR '':'' # rest))]]"
    and "substituted_env_keys services yaml = Inr ks" and "st_subst_keys st = join_with '','' ks"
    and "list_all word_char name" and "CHR ''$'' \<notin> set rest" and "CHR ''='' \<notin> set key"
  shows "fst (build_env_vars cy (st_id st) [key @ ''='' @ secret] s)
     = Inr [\<lparr>ev_key = key, ev_value = secret, ev_secret = False, ev_source = ''''\<rparr>]"
proof -
  have "ks = []" using assms(4,5) default_form_no_var [OF assms(7,8)]
    by (simp add: substituted_env_keys_def service_env_keys_def map_filter_simps)
  then have none: "st_subst_keys st = ''''" using assms(6) by simp
  obtain d where g: "get_stack (st_id st) (os_db (pg_ops s)) = (Inr st, d)" using assms(3) by (metis prod.collapse)
  have "key_value (key @ ''='' @ secret) = (key, secret)"
    using cut_at_head [of "CHR ''=''" key "[]" secret] assms(9) by (simp add: key_value_def)
  then show ?thesis using assms(1,2) none
    by (simp add: build_env_vars_def stack_secrets_def bindP_def tryP_def zoomP_def g env_view_def)
qed

definition example_stack :: "string \<Rightarrow> string \<Rightarrow> stack" where
  "example_stack source secret = \<lparr>st_id = ''blog'', st_name = ''Blog'', st_source = source, st_repo = '''', st_branch = '''',
     st_compose_path = '''', st_compose = '''', st_secret = secret, st_host = ''h1'', st_trigger = ''manual'', st_pubkey = '''',
     st_ssh_pubkey = '''', st_connection = '''', st_webhook_secret = '''', st_schedule = '''', st_last_sha = '''',
     st_last_polled = None, st_subst_keys = ''''\<rparr>"

definition example_page :: "stack \<Rightarrow> page_state" where
  "example_page st = \<lparr>pg_ops = \<lparr>os_db = (empty_db 0 (\<lambda>_. ''''))\<lparr>d_stacks := [st]\<rparr>, os_sent = []\<rparr>,
     pg_keys = empty_custodian\<lparr>k_age := [\<lparr>ky_id = ''blog'', ky_public = ''age'', ky_private = ''AGE'', ky_source = ''generated'',
       ky_created = 0\<rparr>]\<rparr>\<rparr>"

definition example_start :: deployment where
  "example_start = \<lparr>dp_id = ''d1'', dp_stack = ''blog'', dp_host = ''h1'', dp_action = ''up'', dp_trigger = ''manual'',
     dp_status = ''running'', dp_output = '''', dp_started = None, dp_finished = None, dp_created = 0\<rparr>"

lemma example_read: "fst (get_stack ''blog'' (os_db (pg_ops (example_page (example_stack source secret)))))
    = Inr (example_stack source secret)"
  by (simp add: example_page_def example_stack_def empty_db_def get_stack_def wrapP_def bindP_def tryP_def faultless_exec find_stack_def)

lemma delivered_secrets_masked_witness:
  "ev_value \<lparr>ev_key = ''DB'', ev_value = '''', ev_secret = True, ev_source = ''Wharf secrets''\<rparr> \<noteq> ''v''"
proof (rule delivered_secrets_masked [where s = "example_page ((example_stack ''local'' ''K=v'')\<lparr>st_name := ''Log''\<rparr>)" and cy = plain_crypto
      and keys = "pg_keys (example_page (example_stack ''local'' ''K=v''))" and now = "(example_stack ''local'' ''K=v'')\<lparr>st_name := ''Log''\<rparr>"
      and st = "example_stack ''local'' ''K=v''" and dep = example_start and k = "''K''" and raw = "[''DB=v'']"
      and h = "\<lparr>h_id = ''h1'', h_name = ''nas'', h_status = ''connected'', h_fp = '''', h_approved_by = '''', h_last_seen = 0,
        h_address = '''', h_agent_version = '''', h_next_fp = '''', h_arch = '''', h_approved_at = None, h_created = 0\<rparr>"
      and cmd = "(bare_response example_start (example_stack ''local'' ''K=v''))\<lparr>cr_env := [(''K'', ''v'')]\<rparr>"
      and vars = "[\<lparr>ev_key = ''DB'', ev_value = '''', ev_secret = True, ev_source = ''Wharf secrets''\<rparr>]"
      and a = "\<lparr>ag_db = empty_db 0 (\<lambda>_. ''''), ag_refusals = [], ag_started = []\<rparr>"])
  show "d_faults (os_db (pg_ops (example_page ((example_stack ''local'' ''K=v'')\<lparr>st_name := ''Log''\<rparr>)))) = []"
    by (simp add: example_page_def empty_db_def)
qed (code_simp+)

lemma default_form_shown_witness:
  "fst (build_env_vars plain_crypto ''blog'' [''DB=hunter2''] (example_page (example_stack ''git'' '''')))
     = Inr [\<lparr>ev_key = ''DB'', ev_value = ''hunter2'', ev_secret = False, ev_source = ''''\<rparr>]"
proof -
  have "fst (build_env_vars plain_crypto (st_id (example_stack ''git'' '''')) [''DB'' @ ''='' @ ''hunter2''] (example_page (example_stack ''git'' '''')))
      = Inr [\<lparr>ev_key = ''DB'', ev_value = ''hunter2'', ev_secret = False, ev_source = ''''\<rparr>]"
  proof (rule default_form_shown [where services = "\<lambda>_. Inr [EnvMap [(''DB'', Some (''${'' @ ''DB_PASSWORD'' @ CHR '':'' # ''?missing}''))]]"
        and yaml = "''''" and ks = "[]" and name = "''DB_PASSWORD''" and rest = "''?missing}''"])
    show "fst (get_stack (st_id (example_stack ''git'' '''')) (os_db (pg_ops (example_page (example_stack ''git'' '''')))))
        = Inr (example_stack ''git'' '''')"
      using example_read by (simp add: example_stack_def)
  qed (code_simp+ | simp add: example_stack_def)+
  then show ?thesis by (simp add: example_stack_def)
qed

section \<open>Removing a container\<close>

text \<open>
  The removal of a container sends nothing, or one command that removes the container
  asked for on the host that reported it, when that container was not running, the agent was connected and,
  the database answering, no stack of its label exists.
\<close>

theorem removal_guarded:
  assumes "d_faults (os_db s) = []"
  shows "os_sent (snd (remove_container_handler env referer i c rq s)) = os_sent s
     \<or> (\<exists>row. os_sent (snd (remove_container_handler env referer i c rq s))
            = os_sent s @ [(hc_host row, container_command ''remove'' i)]
          \<and> row \<in> set (joined_containers (os_db s)) \<and> hc_id row = i \<and> hc_state row \<noteq> ''running'' \<and> ae_live env (hc_host row)
          \<and> (hc_stack row = '''' \<or> find_stack (os_db s) (hc_stack row) = None))"
proof (cases "find (\<lambda>c. hc_id c = i) (joined_containers (os_db s))")
  case None
  then show ?thesis using assms
    by (simp add: remove_container_handler_def tryP_def zoomP_def get_host_container_def one_row_faultless not_found_def
        http_error_def answer_def)
next
  case (Some row)
  let ?m = "container_command ''remove'' (hc_id row)"
  have row: "row \<in> set (joined_containers (os_db s))" "hc_id row = i" using find_in [OF Some] by simp_all
  have ours: "managed_stack (hc_stack row) s = (Inr (hc_stack row \<noteq> '''' \<and> find_stack (os_db s) (hc_stack row) \<noteq> None), s)"
    using assms by (auto simp: managed_stack_def tryP_def zoomP_def get_stack_def wrapP_def bindP_def faultless_exec split: option.split)
  show ?thesis
  proof (cases "(hc_stack row \<noteq> '''' \<and> find_stack (os_db s) (hc_stack row) \<noteq> None) \<or> hc_state row = ''running'' \<or> \<not> ae_live env (hc_host row)")
    case True
    then show ?thesis using Some assms ours
      by (auto simp: remove_container_handler_def tryP_def zoomP_def get_host_container_def one_row_faultless
          answer_def bindP_def Let_def redirect_with_error_def)
  next
    case False
    have "os_sent (snd (remove_container_handler env referer i c rq s)) = os_sent s @ [(hc_host row, ?m)]"
      using Some assms ours False
      by (auto simp: remove_container_handler_def tryP_def zoomP_def get_host_container_def one_row_faultless call_agent_def
          answer_def bindP_def Let_def redirect_with_error_def redirect_with_saved_message_def audited_op_def
          split: prod.split sum.split)
    with row False show ?thesis by auto
  qed
qed

definition left_over :: ops_state where
  "left_over = \<lparr>os_db = (empty_db 0 (\<lambda>_. ''''))\<lparr>
     d_hosts := [\<lparr>h_id = ''h1'', h_name = ''nas'', h_status = ''connected'', h_fp = '''', h_approved_by = '''', h_last_seen = 0,
       h_address = '''', h_agent_version = '''', h_next_fp = '''', h_arch = '''', h_approved_at = None, h_created = 0\<rparr>],
     d_containers := [\<lparr>hc_host = ''h1'', hc_id = ''c1'', hc_name = ''old'', hc_image = ''nginx'', hc_state = ''exited'', hc_status = '''',
       hc_ports = '''', hc_created = '''', hc_stack = ''portainer'', hc_service = '''', hc_mounts = '''', hc_networks = '''',
       hc_image_id = '''', hc_host_name = ''''\<rparr>]\<rparr>, os_sent = []\<rparr>"

lemma removal_guarded_witness:
  "\<exists>sent. os_sent (snd (remove_container_handler \<lparr>ae_live = (\<lambda>_. True), ae_reply = (\<lambda>_ _ _. Inr (empty_message\<lparr>tm_ok := True\<rparr>))\<rparr>
     None ''c1'' None (form []) left_over)) = sent \<and> (sent = [] \<or> sent = [(''h1'', container_command ''remove'' ''c1'')])"
  using removal_guarded [of left_over "\<lparr>ae_live = (\<lambda>_. True), ae_reply = (\<lambda>_ _ _. Inr (empty_message\<lparr>tm_ok := True\<rparr>))\<rparr>" None "''c1''"
      None "form []"]
  by (auto simp: left_over_def empty_db_def joined_containers_def map_filter_simps host_name_of_def find_host_def split: if_splits)

end
