(* ===== verification/Image_Rules.thy ===== *)
theory Image_Rules
  imports Image_Updates Stack_Rules
begin

text \<open>
  What the periodic check of \<open>Image_Updates\<close> deploys: exactly the stacks with an automatic policy that the
  registry has moved past, once each, unless a deployment of the stack is already on its way.
\<close>

section \<open>Canonical forms\<close>

lemma last_part_no_slash: "CHR ''/'' \<notin> set (last_part p)"
  by (auto simp: last_part_def dest: set_takeWhileD)

lemma cut_last_no_sep: "c \<notin> set (snd (cut_last c s))"
  by (auto simp: cut_last_def dest: set_takeWhileD)

lemma set_cut_last: "set (snd (cut_last c s)) \<subseteq> set s"
  by (auto simp: cut_last_def dest: set_takeWhileD)

lemma tag_plain: "CHR '':'' \<notin> set (snd (name_and_tag s))"
  using cut_last_no_sep by (auto simp: name_and_tag_def split: prod.split) (metis snd_conv)+

lemma cut_slash_first: "cut_at ''/'' s = Some (a, b) \<Longrightarrow> CHR ''/'' \<notin> set a"
proof
  assume cut: "cut_at ''/'' s = Some (a, b)" and "CHR ''/'' \<in> set a"
  then obtain i where i: "i < length a" "a ! i = CHR ''/''" by (auto simp: in_set_conv_nth)
  then have "drop i s = CHR ''/'' # drop (Suc i) s"
    using cut_at_Some [OF cut] by (simp add: nth_append flip: Cons_nth_drop_Suc)
  with cut_at_first [OF cut i(1)] show False by simp
qed

lemma parsed_parts:
  assumes "parse_image_ref s = Some r"
  shows "CHR ''/'' \<notin> set (rf_host r)" and "CHR '':'' \<notin> set (rf_tag r)"
proof -
  show "CHR '':'' \<notin> set (rf_tag r)"
    using assms tag_plain [of "trim_space s"]
    by (auto simp: parse_image_ref_def Let_def split: if_splits prod.splits option.splits)
  show "CHR ''/'' \<notin> set (rf_host r)"
    using assms by (auto simp: parse_image_ref_def Let_def split: if_splits prod.splits option.splits dest!: cut_slash_first)
qed

lemma sep_unique: "c \<notin> set a \<Longrightarrow> c \<notin> set a' \<Longrightarrow> a @ c # b = a' @ c # b' \<longleftrightarrow> a = a' \<and> b = b'"
proof (induction a arbitrary: a')
  case Nil
  then show ?case by (cases a') auto
next
  case (Cons x xs)
  then show ?case by (cases a') auto
qed

lemma sep_unique_last:
  assumes "c \<notin> set b" and "c \<notin> set b'"
  shows "a @ c # b = a' @ c # b' \<longleftrightarrow> a = a' \<and> b = b'"
  using sep_unique [of c "rev b" "rev b'" "rev a" "rev a'"] assms
  by (metis append_Cons append_assoc append_Nil rev_append rev.simps(2) rev_rev_ident set_rev)

lemma canonical_inj:
  assumes "parse_image_ref s = Some r" and "parse_image_ref s' = Some r'"
  shows "canonical r = canonical r' \<longleftrightarrow> r = r'"
proof
  assume "canonical r = canonical r'"
  then have "rf_host r = rf_host r' \<and> rf_repo r @ '':'' @ rf_tag r = rf_repo r' @ '':'' @ rf_tag r'"
    using sep_unique [OF parsed_parts(1) [OF assms(1)] parsed_parts(1) [OF assms(2)]] by (simp add: canonical_def)
  then show "r = r'"
    using sep_unique_last [OF parsed_parts(2) [OF assms(1)] parsed_parts(2) [OF assms(2)]]
    by (intro image_ref.equality) auto
qed simp

section \<open>What the registry says of a policy\<close>

definition credential_of :: "custodian \<Rightarrow> string \<Rightarrow> string \<times> string" where
  "credential_of k host =
     (case find (\<lambda>r. rg_host r = host) (k_registries k) of None \<Rightarrow> ('''', '''') | Some r \<Rightarrow> (rg_user r, rg_password r))"

definition registry_digest :: "image_env \<Rightarrow> custodian \<Rightarrow> image_ref \<Rightarrow> string option" where
  "registry_digest env k ref =
     (case ie_digest env ref (fst (credential_of k (rf_host ref))) (snd (credential_of k (rf_host ref))) of
        Inl _ \<Rightarrow> None | Inr d \<Rightarrow> Some d)"

text \<open>An automatic policy whose image the registry has moved past the digest that was deployed.\<close>

definition outdated :: "image_env \<Rightarrow> custodian \<Rightarrow> image_policy \<Rightarrow> bool" where
  "outdated env k p \<longleftrightarrow> ip_policy p = ''auto'' \<and>
     (case parse_image_ref (ip_ref p) of None \<Rightarrow> False
      | Some ref \<Rightarrow> (case registry_digest env k ref of None \<Rightarrow> False | Some d \<Rightarrow> d \<noteq> '''' \<and> d \<noteq> ip_applied p))"

definition busy :: "deployment option \<Rightarrow> bool" where
  "busy latest = (case latest of None \<Rightarrow> False | Some dep \<Rightarrow> dp_status dep = ''queued'' \<or> dp_status dep = ''running'')"

definition deployable :: "db \<Rightarrow> string \<Rightarrow> bool" where
  "deployable d i \<longleftrightarrow> (case find_stack d i of None \<Rightarrow> False | Some st \<Rightarrow> st_host st \<noteq> '''' \<and> \<not> busy (latest_deployment i d))"

lemma set_digest_run:
  assumes "d_faults d = []"
  shows "\<exists>g. snd (set_image_digest_cache c v d) = d_digests_update g d"
    and "\<exists>g. snd (set_image_digest_cache_error c v d) = d_digests_update g d"
  using assms by (auto simp: set_image_digest_cache_def set_image_digest_cache_error_def ups_def faultless_exec)

lemma credential_run:
  "k_faults (ap_keys s) = [] \<Longrightarrow> credential_for host s = (Inr (credential_of (ap_keys s) host), s)"
  by (simp add: credential_for_def registry_credential_def kquery_def kstmt_def wrapP_def tryP_def zoomP_def credential_of_def
      split: option.split)

lemma ignored_store: "ignoreP (on_store m) s = (Inr (), s\<lparr>ap_db := snd (m (ap_db s))\<rparr>)"
  by (simp add: ignoreP_def tryP_def zoomP_def split: prod.split sum.split)

lemma check_digest_run:
  assumes "d_faults (ap_db s) = []" and "k_faults (ap_keys s) = []"
  shows "\<exists>g. check_digest env ref s
     = (Inr (registry_digest env (ap_keys s) ref), s\<lparr>ap_db := d_digests_update g (ap_db s)\<rparr>)"
proof (cases "ie_digest env ref (fst (credential_of (ap_keys s) (rf_host ref))) (snd (credential_of (ap_keys s) (rf_host ref)))")
  case (Inl e)
  obtain g where "snd (set_image_digest_cache_error (canonical ref) (error_text e) (ap_db s)) = d_digests_update g (ap_db s)"
    using set_digest_run(2) [OF assms(1)] by blast
  then have "check_digest env ref s = (Inr None, s\<lparr>ap_db := d_digests_update g (ap_db s)\<rparr>)"
    using Inl by (simp add: check_digest_def bindP_def tryP_def credential_run [OF assms(2)] ignored_store case_prod_unfold)
  with Inl show ?thesis by (auto simp: registry_digest_def)
next
  case (Inr v)
  obtain g where "snd (set_image_digest_cache (canonical ref) v (ap_db s)) = d_digests_update g (ap_db s)"
    using set_digest_run(1) [OF assms(1)] by blast
  then have "check_digest env ref s = (Inr (Some v), s\<lparr>ap_db := d_digests_update g (ap_db s)\<rparr>)"
    using Inr by (simp add: check_digest_def bindP_def tryP_def credential_run [OF assms(2)] ignored_store case_prod_unfold)
  with Inr show ?thesis by (auto simp: registry_digest_def)
qed

definition truthful :: "image_env \<Rightarrow> custodian \<Rightarrow> (string \<times> string) list \<Rightarrow> bool" where
  "truthful env k ds \<longleftrightarrow> (\<forall>text ref d. parse_image_ref text = Some ref \<longrightarrow> map_of ds (canonical ref) = Some d
     \<longrightarrow> registry_digest env k ref = Some d)"

definition known :: "image_env \<Rightarrow> custodian \<Rightarrow> image_policy \<Rightarrow> (string \<times> string) list \<Rightarrow> bool" where
  "known env k p ds \<longleftrightarrow> (\<forall>ref. ip_policy p \<noteq> ''pinned'' \<longrightarrow> parse_image_ref (ip_ref p) = Some ref
     \<longrightarrow> map_of ds (canonical ref) = registry_digest env k ref)"

lemma check_policies_run:
  assumes "d_faults (ap_db s) = []" and "k_faults (ap_keys s) = []" and "truthful env (ap_keys s) ds"
  shows "\<exists>g new. check_policies env ps ds s = (Inr (new @ ds), s\<lparr>ap_db := d_digests_update g (ap_db s)\<rparr>)
     \<and> truthful env (ap_keys s) (new @ ds) \<and> (\<forall>p\<in>set ps. known env (ap_keys s) p (new @ ds))"
  using assms
proof (induction ps arbitrary: s ds)
  case Nil
  then show ?case by (intro exI [of _ id] exI [of _ "[]"]) auto
next
  case (Cons p ps)
  show ?case
  proof (cases "ip_policy p = ''pinned'' \<or> parse_image_ref (ip_ref p) = None")
    case True
    then show ?thesis using Cons.IH [OF Cons.prems] by (auto simp: known_def)
  next
    case False
    then obtain ref where p: "ip_policy p \<noteq> ''pinned''" "parse_image_ref (ip_ref p) = Some ref" by blast
    have grown: "known env k p (new @ ds)" if "truthful env k (new @ ds)" "map_of ds (canonical ref) = Some d" for k new ds d
      using that p by (cases "map_of new (canonical ref)") (force simp: known_def truthful_def map_add_Some_iff)+
    show ?thesis
    proof (cases "map_of ds (canonical ref)")
      case (Some d)
      then show ?thesis using Cons.IH [OF Cons.prems] p grown by fastforce
    next
      case None
      obtain g where run: "check_digest env ref s
          = (Inr (registry_digest env (ap_keys s) ref), s\<lparr>ap_db := d_digests_update g (ap_db s)\<rparr>)"
        using check_digest_run [OF Cons.prems(1,2)] by blast
      let ?s = "s\<lparr>ap_db := d_digests_update g (ap_db s)\<rparr>"
      let ?ds = "case registry_digest env (ap_keys s) ref of None \<Rightarrow> ds | Some d \<Rightarrow> (canonical ref, d) # ds"
      have "truthful env (ap_keys ?s) ?ds"
        using Cons.prems(3) by (auto simp: truthful_def split: option.split dest: canonical_inj [OF _ p(2), THEN iffD1])
      then obtain g2 new where rest: "check_policies env ps ?ds ?s = (Inr (new @ ?ds), ?s\<lparr>ap_db := d_digests_update g2 (ap_db ?s)\<rparr>)"
          "truthful env (ap_keys s) (new @ ?ds)" "\<forall>p\<in>set ps. known env (ap_keys s) p (new @ ?ds)"
        using Cons.IH [of ?s ?ds] Cons.prems by fastforce
      have here: "known env (ap_keys s) p (new @ ?ds)"
      proof (cases "registry_digest env (ap_keys s) ref")
        case None
        then have "map_of (new @ ?ds) (canonical ref) = None"
          using rest(2) p(2) by (cases "map_of (new @ ?ds) (canonical ref)") (auto simp: truthful_def)
        with None p show ?thesis by (simp add: known_def)
      next
        case (Some d)
        then show ?thesis using grown [OF rest(2)] p by auto
      qed
      have "check_policies env (p # ps) ds s = (Inr (new @ ?ds), s\<lparr>ap_db := d_digests_update (g2 \<circ> g) (ap_db s)\<rparr>)"
        using p None run rest(1) by (simp add: bindP_def tryP_def split: option.splits)
      moreover have "\<exists>new'. new @ ?ds = new' @ ds" by (auto split: option.split)
      ultimately show ?thesis using here rest(2,3) by (metis set_ConsD)
    qed
  qed
qed

section \<open>What a tick deploys\<close>

lemma enqueue_fresh:
  assumes "d_faults d = []" and "d_rand d (d_drawn d) \<notin> dp_id ` set (d_deployments d)"
  shows "enqueue_deployment i h tr ac d =
    (let dep = \<lparr>dp_id = d_rand d (d_drawn d), dp_stack = i, dp_host = h, dp_action = ac, dp_trigger = tr, dp_status = ''queued'',
         dp_output = '''', dp_started = None, dp_finished = None, dp_created = d_now d\<rparr>
     in (Inr dep, d\<lparr>d_drawn := Suc (d_drawn d), d_deployments := d_deployments d @ [dep]\<rparr>))"
proof -
  have "first_clash [(''deployments.id'', \<lambda>x. dp_id x = d_rand d (d_drawn d))] (d_deployments d) = None"
    using assms(2) by (auto simp: first_clash_None image_iff)
  moreover have "find (\<lambda>x. dp_id x = d_rand d (d_drawn d)) (d_deployments d) = None"
    using assms(2) by (auto simp: find_None_iff image_iff)
  ultimately show ?thesis using assms(1)
    by (simp add: enqueue_deployment_def bindP_def tryP_def draw_def unitP_def wrapP_def faultless_exec
        get_deployment_def find_deployment_def one_row_faultless find_append Let_def)
qed

lemma in_progress_run:
  "d_faults (ap_db s) = [] \<Longrightarrow> distinct (map dp_id (d_deployments (ap_db s)))
     \<Longrightarrow> in_progress i s = (Inr (busy (latest_deployment i (ap_db s))), s)"
  by (simp add: in_progress_def tryP_def zoomP_def latest_read busy_def split: option.split)

lemma audit_system_run:
  "d_faults d = [] \<Longrightarrow> \<exists>as n. audit_system u a t e d = (Inr (), d\<lparr>d_audit := as, d_audit_next := n\<rparr>)"
  by (auto simp: audit_system_def ignoreP_def record_audit_def unitP_def wrapP_def bindP_def tryP_def faultless_exec)

text \<open>The queue while a tick goes through the policies: what was there, then one deployment per stack.\<close>

definition ticking :: "db \<Rightarrow> string set \<Rightarrow> db \<Rightarrow> bool" where
  "ticking d0 served d \<longleftrightarrow> d_faults d = [] \<and> d_stacks d = d_stacks d0 \<and> inj (d_rand d)
     \<and> (\<forall>x\<in>set (d_deployments d). \<exists>n<d_drawn d. dp_id x = d_rand d n) \<and> distinct (map dp_id (d_deployments d))
     \<and> (\<exists>new. d_deployments d = d_deployments d0 @ new \<and> distinct (map dp_stack new) \<and> dp_stack ` set new = served
          \<and> (\<forall>x\<in>set new. dp_trigger x = ''image-update'' \<and> dp_action x = ''up'' \<and> dp_status x = ''queued''))"

lemma ticking_latest:
  assumes "ticking d0 served d"
  shows "busy (latest_deployment i d) \<longleftrightarrow> i \<in> served \<or> busy (latest_deployment i d0)"
proof -
  obtain new where new: "d_deployments d = d_deployments d0 @ new" "dp_stack ` set new = served"
      "\<forall>x\<in>set new. dp_status x = ''queued''"
    using assms by (auto simp: ticking_def)
  show ?thesis
  proof (cases "find (\<lambda>x. dp_stack x = i) (rev new)")
    case None
    then have "i \<notin> served" using new(2) by (auto simp: find_None_iff)
    with None show ?thesis by (simp add: latest_deployment_def new(1) find_append)
  next
    case (Some x)
    then have "i \<in> served" "dp_status x = ''queued''" using find_in [OF Some] new(2,3) by auto
    with Some show ?thesis by (simp add: latest_deployment_def new(1) find_append busy_def)
  qed
qed

lemma ticking_enqueue:
  assumes "ticking d0 served (ap_db s)"
  shows "ticking d0 (if deployable d0 (ip_stack p) then insert (ip_stack p) served else served)
     (ap_db (snd (enqueue_image_update p v s)))"
proof -
  let ?d = "ap_db s" and ?i = "ip_stack p"
  have f: "d_faults ?d = []" and ids: "distinct (map dp_id (d_deployments ?d))" and st: "d_stacks ?d = d_stacks d0"
    and bound: "\<forall>x\<in>set (d_deployments ?d). \<exists>n<d_drawn ?d. dp_id x = d_rand ?d n" and rand: "inj (d_rand ?d)"
    using assms by (auto simp: ticking_def)
  have fresh: "d_rand ?d (d_drawn ?d) \<notin> dp_id ` set (d_deployments ?d)"
    using bound by (auto dest!: bspec injD [OF rand])
  note busy = in_progress_run [OF f ids, of ?i] ticking_latest [OF assms, of ?i]
  show ?thesis
  proof (cases "?i \<in> served \<or> \<not> deployable d0 ?i")
    case True
    then have "ap_db (snd (enqueue_image_update p v s)) = ?d" 
      using busy f st by (auto simp: enqueue_image_update_def bindP_def tryP_def zoomP_def deployable_def find_stack_def
          get_stack_def wrapP_def faultless_exec split: option.splits)
    moreover have "(if deployable d0 ?i then insert ?i served else served) = served" using True by auto
    ultimately show ?thesis using assms by simp
  next
    case False
    then obtain stk where stk: "find_stack d0 ?i = Some stk" "st_host stk \<noteq> ''''" "\<not> busy (latest_deployment ?i d0)"
      by (auto simp: deployable_def split: option.splits)
    then have id: "st_id stk = ?i" and here: "find_stack ?d ?i = Some stk"
      using find_in [of "\<lambda>s. st_id s = ?i"] st by (fastforce simp: find_stack_def)+
    obtain dep where dep: "dp_stack dep = ?i" "dp_trigger dep = ''image-update''" "dp_action dep = ''up''" "dp_status dep = ''queued''"
        "dp_id dep = d_rand ?d (d_drawn ?d)"
      and enq: "enqueue_deployment ?i (st_host stk) ''image-update'' ''up'' ?d
        = (Inr dep, ?d\<lparr>d_drawn := Suc (d_drawn ?d), d_deployments := d_deployments ?d @ [dep]\<rparr>)"
      using enqueue_fresh [OF f fresh] by (force simp: Let_def)
    let ?d1 = "?d\<lparr>d_drawn := Suc (d_drawn ?d), d_deployments := d_deployments ?d @ [dep]\<rparr>"
    obtain as n where aud: "audit_system ''auto-update'' ''stack.image_update_auto'' (st_name stk)
          (ip_service p @ '': '' @ ip_ref p @ '' '' @ arrow @ '' sha256:'' @ take 12 (trim_prefix v ''sha256:'')) ?d1
        = (Inr (), ?d1\<lparr>d_audit := as, d_audit_next := n\<rparr>)"
      using audit_system_run [of ?d1] f by fastforce
    have quiet: "\<not> busy (latest_deployment ?i ?d)" using busy(2) False stk(3) by simp
    have run: "ap_db (snd (enqueue_image_update p v s)) = ?d1\<lparr>d_audit := as, d_audit_next := n\<rparr>"
      using stk(2) aud by (simp add: enqueue_image_update_def bindP_def tryP_def zoomP_def get_stack_faultless [OF f here] id
          busy(1) quiet enq)
    obtain new where new: "d_deployments ?d = d_deployments d0 @ new" "distinct (map dp_stack new)" "dp_stack ` set new = served"
        "\<forall>x\<in>set new. dp_trigger x = ''image-update'' \<and> dp_action x = ''up'' \<and> dp_status x = ''queued''"
      using assms by (auto simp: ticking_def)
    have "\<exists>new. d_deployments ?d @ [dep] = d_deployments d0 @ new \<and> distinct (map dp_stack new) \<and> dp_stack ` set new = insert ?i served
          \<and> (\<forall>x\<in>set new. dp_trigger x = ''image-update'' \<and> dp_action x = ''up'' \<and> dp_status x = ''queued'')"
      using new dep False by (intro exI [of _ "new @ [dep]"]) auto
    moreover have "\<forall>x\<in>set (d_deployments ?d @ [dep]). \<exists>n<Suc (d_drawn ?d). dp_id x = d_rand ?d n"
      using bound dep(5) by (auto simp: less_Suc_eq)
    ultimately show ?thesis using assms False fresh dep(5) unfolding ticking_def run by simp
  qed
qed

lemma ticking_loop:
  assumes "ticking d0 served (ap_db s)"
  shows "ticking d0 (served \<union> {i. deployable d0 i \<and> (\<exists>p\<in>set ps. ip_stack p = i \<and> due ds p \<noteq> None)})
     (ap_db (snd (forP (act_on ds) ps s)))"
  using assms
proof (induction ps arbitrary: served s)
  case (Cons p ps)
  obtain r s1 where run: "act_on ds p s = (r, s1)" by (metis surj_pair)
  let ?served = "if due ds p \<noteq> None \<and> deployable d0 (ip_stack p) then insert (ip_stack p) served else served"
  have ok: "r = Inr ()" using run
    by (auto simp: act_on_def enqueue_image_update_def in_progress_def bindP_def tryP_def audit_system_def ignoreP_def zoomP_def
        split: option.splits prod.splits sum.splits if_splits)
  have "ticking d0 ?served (ap_db s1)"
  proof (cases "due ds p")
    case None
    then show ?thesis using run Cons.prems by (simp add: act_on_def)
  next
    case (Some v)
    then show ?thesis using run ticking_enqueue [OF Cons.prems, of p v] by (simp add: act_on_def split: if_splits)
  qed
  note rest = Cons.IH [OF this]
  have "?served \<union> {i. deployable d0 i \<and> (\<exists>p\<in>set ps. ip_stack p = i \<and> due ds p \<noteq> None)}
      = served \<union> {i. deployable d0 i \<and> (\<exists>q\<in>set (p # ps). ip_stack q = i \<and> due ds q \<noteq> None)}" by auto
  with rest show ?case using run ok by (simp add: bindP_def tryP_def)
qed simp

lemma due_outdated: "known env k p ds \<Longrightarrow> due ds p \<noteq> None \<longleftrightarrow> outdated env k p"
  by (auto simp: known_def due_def outdated_def should_apply_now_def split: option.splits)

text \<open>
  C30 poll_images_once.  A tick of the image check queues exactly one deployment for each stack that has
  an automatic policy whose image the registry serves under another digest than the deployed one, has a
  host, and has no deployment queued or running; it queues nothing else, however many of the stack's
  services moved (while the databases answer and random ids do not repeat).
\<close>

theorem poll_images_once:
  assumes "d_faults (ap_db s) = []" and "k_faults (ap_keys s) = []" and "inj (d_rand (ap_db s))"
    and "\<forall>dep\<in>set (d_deployments (ap_db s)). \<exists>n<d_drawn (ap_db s). dp_id dep = d_rand (ap_db s) n"
    and "distinct (map dp_id (d_deployments (ap_db s)))"
  shows "\<exists>new. d_deployments (ap_db (snd (poll_images env s))) = d_deployments (ap_db s) @ new \<and> distinct (map dp_stack new)
     \<and> dp_stack ` set new = {i. deployable (ap_db s) i
          \<and> (\<exists>p\<in>set (d_policies (ap_db s)). ip_stack p = i \<and> outdated env (ap_keys s) p)}
     \<and> (\<forall>dep\<in>set new. dp_trigger dep = ''image-update'' \<and> dp_action dep = ''up'' \<and> dp_status dep = ''queued'')"
proof -
  let ?ps = "d_policies (ap_db s)"
  have "truthful env (ap_keys s) []" by (simp add: truthful_def)
  then obtain g ds where check: "check_policies env ?ps [] s = (Inr ds, s\<lparr>ap_db := d_digests_update g (ap_db s)\<rparr>)"
      and known: "\<forall>p\<in>set ?ps. known env (ap_keys s) p ds"
    using check_policies_run [OF assms(1,2), of env "[]" ?ps] by auto
  have "ticking (ap_db s) {} (d_digests_update g (ap_db s))" using assms by (simp add: ticking_def)
  then have "ticking (ap_db s) ({} \<union> {i. deployable (ap_db s) i \<and> (\<exists>p\<in>set ?ps. ip_stack p = i \<and> due ds p \<noteq> None)})
      (ap_db (snd (forP (act_on ds) ?ps (s\<lparr>ap_db := d_digests_update g (ap_db s)\<rparr>))))"
    by (intro ticking_loop) simp
  moreover have "snd (poll_images env s) = snd (forP (act_on ds) ?ps (s\<lparr>ap_db := d_digests_update g (ap_db s)\<rparr>))"
    using assms(1) check by (simp add: poll_images_def bindP_def tryP_def zoomP_def list_image_policies_def wrap_select)
  moreover have "{i. deployable (ap_db s) i \<and> (\<exists>p\<in>set ?ps. ip_stack p = i \<and> due ds p \<noteq> None)}
      = {i. deployable (ap_db s) i \<and> (\<exists>p\<in>set ?ps. ip_stack p = i \<and> outdated env (ap_keys s) p)}"
    using known due_outdated by blast
  ultimately show ?thesis unfolding ticking_def Un_empty_left by simp
qed

definition moved_images :: image_env where
  "moved_images = \<lparr>ie_services = (\<lambda>_. Inr []), ie_digest = (\<lambda>_ _ _. Inr ''sha256:new'')\<rparr>"

definition policy_of :: "string \<Rightarrow> string \<Rightarrow> image_policy" where
  "policy_of stack service =
     \<lparr>ip_stack = stack, ip_service = service, ip_ref = ''nginx'', ip_policy = ''auto'', ip_applied = ''sha256:old''\<rparr>"

definition tracked_app :: app_state where
  "tracked_app = \<lparr>ap_db = polled_db\<lparr>d_policies := [policy_of ''blog'' ''web'', policy_of ''blog'' ''proxy'', policy_of ''gone'' ''web'']\<rparr>,
     ap_keys = empty_custodian, ap_polls = no_schedules\<rparr>"

lemma poll_images_once_witness:
  "map dp_stack (d_deployments (ap_db (snd (poll_images moved_images tracked_app)))) = [''blog'']"
proof -
  have "\<exists>new. d_deployments (ap_db (snd (poll_images moved_images tracked_app))) = d_deployments (ap_db tracked_app) @ new
     \<and> distinct (map dp_stack new)
     \<and> dp_stack ` set new = {i. deployable (ap_db tracked_app) i
          \<and> (\<exists>p\<in>set (d_policies (ap_db tracked_app)). ip_stack p = i \<and> outdated moved_images (ap_keys tracked_app) p)}
     \<and> (\<forall>dep\<in>set new. dp_trigger dep = ''image-update'' \<and> dp_action dep = ''up'' \<and> dp_status dep = ''queued'')"
  proof (rule poll_images_once)
    show "inj (d_rand (ap_db tracked_app))"
      by (auto simp: inj_def tracked_app_def polled_db_def empty_db_def dest: arg_cong [of _ _ length])
  qed (simp_all add: tracked_app_def polled_db_def empty_db_def empty_custodian_def)
  then obtain new where new: "d_deployments (ap_db (snd (poll_images moved_images tracked_app))) = new" "distinct (map dp_stack new)"
      "dp_stack ` set new = {i. deployable (ap_db tracked_app) i
          \<and> (\<exists>p\<in>set (d_policies (ap_db tracked_app)). ip_stack p = i \<and> outdated moved_images (ap_keys tracked_app) p)}"
    by (auto simp: tracked_app_def polled_db_def empty_db_def)
  have old: "outdated moved_images (ap_keys tracked_app) (policy_of i j)" for i j
  proof -
    have "parse_image_ref ''nginx'' = Some \<lparr>rf_host = ''docker.io'', rf_repo = ''library/nginx'', rf_tag = ''latest''\<rparr>" by code_simp
    then show ?thesis by (simp add: outdated_def policy_of_def registry_digest_def moved_images_def)
  qed
  have "deployable (ap_db tracked_app) i \<longleftrightarrow> i = ''blog''" for i
    by (auto simp: deployable_def tracked_app_def polled_db_def empty_db_def find_stack_def latest_deployment_def busy_def)
  then have "set (map dp_stack new) = {''blog''}"
    using new(3) old by (auto simp: tracked_app_def policy_of_def)
  with new(2) have "map dp_stack new = [''blog'']" using distinct_card [OF new(2)]
    by (cases "map dp_stack new") (auto simp: subset_singleton_iff)
  with new(1) show ?thesis by simp
qed

end
