(* ===== verification/Notifications.thy ===== *)
theory Notifications
  imports App Tunnel
begin

text \<open>
  Notifications, \<^verbatim>\<open>src/notifications.go\<close>: the periodic check with its memory of what was said already, the
  message to the configured target and the settings page.  The state of the check is the application with
  the two maps, the flag and the log of the messages handed to the background sender; the transport is a
  parameter.
\<close>

section \<open>Sending\<close>

text \<open>\<open>np_json\<close> prints an object with one text field, \<open>np_post\<close> the request: the code and text of the status.\<close>

record notify_env =
  np_json :: "string \<Rightarrow> string \<Rightarrow> string"
  np_post :: "string \<Rightarrow> string \<Rightarrow> string \<Rightarrow> string \<Rightarrow> (nat \<times> string) result"

definition notification_body :: "notify_env \<Rightarrow> string \<Rightarrow> string \<Rightarrow> string \<times> string \<times> string" where
  "notification_body env kind msg =
     (if kind = ''discord'' then (''application/json'', '''', np_json env ''content'' msg)
      else if kind = ''ntfy'' then (''text/plain; charset=utf-8'', ''Wharf'', msg)
      else (''application/json'', '''', np_json env ''text'' msg))"

definition send_notification :: "notify_env \<Rightarrow> string \<Rightarrow> string \<Rightarrow> string \<Rightarrow> unit result" where
  "send_notification env kind url msg =
     (case notification_body env kind msg of (ctype, title, body) \<Rightarrow>
        bind_res (np_post env url ctype title body) (\<lambda>(code, status).
          guard_res (code \<ge> 300) (''notification target responded '' @ status)))"



definition truncate_for_notify :: "string \<Rightarrow> string" where
  "truncate_for_notify s = (if length s \<le> 300 then s else take 300 s @ ellipsis)"

section \<open>The periodic check\<close>

record notifier =
  nf_app :: app_state
  nf_down :: "(string \<times> bool) list"
  nf_outdated :: "(string \<times> bool) list"
  nf_server :: bool
  nf_sent :: "(string \<times> string \<times> string) list"

definition new_notifier :: "app_state \<Rightarrow> notifier" where
  "new_notifier app = \<lparr>nf_app = app, nf_down = [], nf_outdated = [], nf_server = False, nf_sent = []\<rparr>"

abbreviation on_app :: "(app_state, 'a) prog \<Rightarrow> (notifier, 'a) prog" where
  "on_app \<equiv> zoomP nf_app (\<lambda>a s. s\<lparr>nf_app := a\<rparr>)"

text \<open>\<open>a.notify\<close>: what is sent in the background.\<close>

definition notify :: "string \<Rightarrow> (notifier, unit) prog" where
  "notify msg =
     tryP (on_app (on_keys get_notification_target)) (\<lambda>_. okP ()) (\<lambda>t.
       case t of None \<Rightarrow> okP ()
       | Some x \<Rightarrow> modP (\<lambda>s. s\<lparr>nf_sent := nf_sent s @ [(nt_kind x, nt_url x, msg)]\<rparr>))"

definition notify_deployment_failed :: "string \<Rightarrow> string \<Rightarrow> (notifier, unit) prog" where
  "notify_deployment_failed stack_name output =
     notify (''Wharf: stack '' @ quoted stack_name @ '' failed to deploy '' @ em_dash @ '' '' @ truncate_for_notify output)"

definition is_set :: "(string \<times> bool) list \<Rightarrow> string \<Rightarrow> bool" where
  "is_set m k = (map_of m k = Some True)"

definition down_message :: "host \<Rightarrow> string" where
  "down_message h = ''Wharf: agent '' @ quoted (h_name h) @ '' is disconnected''"

definition outdated_message :: "string \<Rightarrow> host \<Rightarrow> string" where
  "outdated_message latest h =
     ''Wharf: agent '' @ quoted (h_name h) @ '' is outdated ('' @ h_agent_version h @ '', latest is '' @ latest @ '')''"

definition server_message :: "string \<Rightarrow> string \<Rightarrow> string" where
  "server_message version latest = ''Wharf: controller update available ('' @ version @ '' -> '' @ latest @ '')''"

definition agent_outdated :: "string \<Rightarrow> host \<Rightarrow> bool" where
  "agent_outdated latest h \<longleftrightarrow> h_agent_version h \<noteq> '''' \<and> latest \<noteq> '''' \<and> semver_less (h_agent_version h) latest"

definition check_down :: "bool \<Rightarrow> host \<Rightarrow> (notifier, unit) prog" where
  "check_down live h =
     bindP (getP (\<lambda>s. is_set (nf_down s) (h_id h))) (\<lambda>was.
       if \<not> live \<and> \<not> was then
         bindP (modP (\<lambda>s. s\<lparr>nf_down := put_assoc (h_id h) True (nf_down s)\<rparr>)) (\<lambda>_. notify (down_message h))
       else if live \<and> was then modP (\<lambda>s. s\<lparr>nf_down := del_assoc (h_id h) (nf_down s)\<rparr>)
       else okP ())"

definition check_outdated :: "string \<Rightarrow> host \<Rightarrow> (notifier, unit) prog" where
  "check_outdated latest h =
     bindP (getP (\<lambda>s. is_set (nf_outdated s) (h_id h))) (\<lambda>was.
       if agent_outdated latest h \<and> \<not> was then
         bindP (modP (\<lambda>s. s\<lparr>nf_outdated := put_assoc (h_id h) True (nf_outdated s)\<rparr>)) (\<lambda>_. notify (outdated_message latest h))
       else if \<not> agent_outdated latest h \<and> was then modP (\<lambda>s. s\<lparr>nf_outdated := del_assoc (h_id h) (nf_outdated s)\<rparr>)
       else okP ())"

definition check_host :: "(string \<Rightarrow> bool) \<Rightarrow> string \<Rightarrow> host \<Rightarrow> (notifier, unit) prog" where
  "check_host live latest h =
     (if h_status h \<noteq> ''connected'' then okP ()
      else bindP (check_down (live (h_id h)) h) (\<lambda>_. check_outdated latest h))"

definition check_server :: "string \<Rightarrow> string \<Rightarrow> (notifier, unit) prog" where
  "check_server version latest =
     bindP (getP nf_server) (\<lambda>told.
       if \<not> told \<and> latest \<noteq> '''' \<and> semver_less version latest
       then bindP (modP (\<lambda>s. s\<lparr>nf_server := True\<rparr>)) (\<lambda>_. notify (server_message version latest))
       else okP ())"

text \<open>\<open>live\<close> is the registry of tunnels, \<open>latest\<close> the newest known releases, \<open>version\<close> the running build's.\<close>

definition check_notifiable_events :: "string \<Rightarrow> (string \<Rightarrow> bool) \<Rightarrow> latest_versions \<Rightarrow> (notifier, unit) prog" where
  "check_notifiable_events version live latest =
     tryP (on_app (on_store list_hosts)) (\<lambda>_. okP ()) (\<lambda>hosts.
       bindP (forP (check_host live (lv_agent latest)) hosts) (\<lambda>_. check_server version (lv_server latest)))"

section \<open>The settings\<close>

definition settings_notifications_handler :: "app_state handler" where
  "settings_notifications_handler c rq =
     tryP (on_keys get_notification_target) (http_fail 500) (\<lambda>_. page ''settings_notifications.html'')"

definition store_target :: "web_context option \<Rightarrow> string \<Rightarrow> string \<Rightarrow> (app_state, reply) prog" where
  "store_target c kind url =
     tryP (on_keys (set_notification_target kind url)) (http_fail 500) (\<lambda>_.
       audited c ''notifications.configure'' kind '''' (redirect_with_saved ''/settings/notifications''))"

definition set_notification_target_handler :: "app_state handler" where
  "set_notification_target_handler c rq =
     (let kind = form_value rq ''kind''; url = trim_space (form_value rq ''url'') in
      if kind \<noteq> ''slack'' \<and> kind \<noteq> ''discord'' \<and> kind \<noteq> ''ntfy'' \<and> kind \<noteq> ''generic'' then http_error 400 ''invalid kind''
      else if url = '''' then
        tryP (on_keys get_notification_target) (http_fail 500) (\<lambda>t.
          case t of None \<Rightarrow> http_error 400 ''a URL is required to configure a target for the first time''
          | Some x \<Rightarrow> store_target c kind (nt_url x))
      else store_target c kind url)"

definition delete_notification_target_handler :: "app_state handler" where
  "delete_notification_target_handler c rq =
     tryP (on_keys delete_notification_target) (http_fail 500) (\<lambda>_.
       audited c ''notifications.remove'' '''' ''''
         (redirect_with_saved_message ''/settings/notifications'' ''Notification target removed''))"

definition test_message :: string where
  "test_message = ''Wharf: test notification '' @ em_dash @ '' if you can see this, it works.''"

definition test_notification_handler :: "notify_env \<Rightarrow> app_state handler" where
  "test_notification_handler env c rq =
     tryP (on_keys get_notification_target) (http_fail 500) (\<lambda>t.
       case t of None \<Rightarrow> redirect_with_error ''/settings/notifications'' ''configure a target first''
       | Some x \<Rightarrow>
         (case send_notification env (nt_kind x) (nt_url x) test_message of
            Inl e \<Rightarrow> redirect_with_error ''/settings/notifications'' (''test failed: '' @ error_text e)
          | Inr _ \<Rightarrow> redirect_with_saved_message ''/settings/notifications'' ''Test notification sent''))"

section \<open>One message per outage\<close>

text \<open>
  What is said at a tick, from the observations alone: a condition of a host is announced when it holds and
  did not hold when the host was last seen in use, the server's update the first time there is one.
\<close>

record tick =
  tk_db :: db
  tk_live :: "string \<Rightarrow> bool"
  tk_latest :: latest_versions

definition used_hosts :: "tick \<Rightarrow> host list" where
  "used_hosts t = filter (\<lambda>h. h_status h = ''connected'') (rev (d_hosts (tk_db t)))"

definition observe :: "(tick \<Rightarrow> host \<Rightarrow> bool) \<Rightarrow> tick \<Rightarrow> string \<Rightarrow> bool option" where
  "observe cond t i = map_option (cond t) (find (\<lambda>h. h_id h = i) (used_hosts t))"

text \<open>The ticks newest first.\<close>

fun last_observed :: "(tick \<Rightarrow> host \<Rightarrow> bool) \<Rightarrow> tick list \<Rightarrow> string \<Rightarrow> bool" where
  "last_observed cond [] i = False"
| "last_observed cond (t # past) i = (case observe cond t i of None \<Rightarrow> last_observed cond past i | Some b \<Rightarrow> b)"

definition host_down :: "tick \<Rightarrow> host \<Rightarrow> bool" where
  "host_down t h \<longleftrightarrow> \<not> tk_live t (h_id h)"

definition host_old :: "tick \<Rightarrow> host \<Rightarrow> bool" where
  "host_old t h = agent_outdated (lv_agent (tk_latest t)) h"

definition server_behind :: "string \<Rightarrow> tick \<Rightarrow> bool" where
  "server_behind version t \<longleftrightarrow> lv_server (tk_latest t) \<noteq> '''' \<and> semver_less version (lv_server (tk_latest t))"

definition host_news :: "tick list \<Rightarrow> tick \<Rightarrow> host \<Rightarrow> string list" where
  "host_news past t h =
     (if host_down t h \<and> \<not> last_observed host_down past (h_id h) then [down_message h] else [])
     @ (if host_old t h \<and> \<not> last_observed host_old past (h_id h) then [outdated_message (lv_agent (tk_latest t)) h] else [])"

definition tick_news :: "string \<Rightarrow> tick list \<Rightarrow> tick \<Rightarrow> string list" where
  "tick_news version past t =
     concat (map (host_news past t) (used_hosts t))
     @ (if server_behind version t \<and> \<not> list_ex (server_behind version) past
        then [server_message version (lv_server (tk_latest t))] else [])"

fun news :: "string \<Rightarrow> tick list \<Rightarrow> tick list \<Rightarrow> string list" where
  "news version past [] = []"
| "news version past (t # ts) = tick_news version past t @ news version (t # past) ts"

text \<open>The check at a tick: the database and the tunnels are what they are then.\<close>

definition run_tick :: "string \<Rightarrow> tick \<Rightarrow> notifier \<Rightarrow> notifier" where
  "run_tick version t s =
     snd (check_notifiable_events version (tk_live t) (tk_latest t) (s\<lparr>nf_app := (nf_app s)\<lparr>ap_db := tk_db t\<rparr>\<rparr>))"

definition has_target :: "notification_target \<Rightarrow> notifier \<Rightarrow> bool" where
  "has_target g s \<longleftrightarrow> k_faults (ap_keys (nf_app s)) = [] \<and> k_notify (ap_keys (nf_app s)) = Some g"

lemma notify_run:
  "has_target g s \<Longrightarrow> notify msg s = (Inr (), s\<lparr>nf_sent := nf_sent s @ [(nt_kind g, nt_url g, msg)]\<rparr>)"
  by (simp add: notify_def has_target_def tryP_def zoomP_def get_notification_target_def kquery_def kstmt_def wrapP_def modP_def)

definition sent :: "notification_target \<Rightarrow> string list \<Rightarrow> (string \<times> string \<times> string) list" where
  "sent g msgs = map (\<lambda>m. (nt_kind g, nt_url g, m)) msgs"

definition mark :: "string \<Rightarrow> bool \<Rightarrow> (string \<times> bool) list \<Rightarrow> (string \<times> bool) list" where
  "mark i now m = (if now \<and> \<not> is_set m i then put_assoc i True m else if \<not> now \<and> is_set m i then del_assoc i m else m)"

lemma is_set_mark [simp]: "is_set (mark i now m) j = (if j = i then now else is_set m j)"
  by (auto simp: mark_def is_set_def)

lemma check_host_run:
  assumes "has_target g s"
  shows "check_host (tk_live t) (lv_agent (tk_latest t)) h s = (Inr (),
    if h_status h = ''connected'' then
      s\<lparr>nf_down := mark (h_id h) (host_down t h) (nf_down s), nf_outdated := mark (h_id h) (host_old t h) (nf_outdated s),
        nf_sent := nf_sent s @ sent g
          ((if host_down t h \<and> \<not> is_set (nf_down s) (h_id h) then [down_message h] else [])
           @ (if host_old t h \<and> \<not> is_set (nf_outdated s) (h_id h) then [outdated_message (lv_agent (tk_latest t)) h] else []))\<rparr>
    else s)"
proof -
  have down: "check_down (tk_live t (h_id h)) h s = (Inr (), s\<lparr>nf_down := mark (h_id h) (host_down t h) (nf_down s),
      nf_sent := nf_sent s @ sent g (if host_down t h \<and> \<not> is_set (nf_down s) (h_id h) then [down_message h] else [])\<rparr>)"
    using assms by (simp add: check_down_def bindP_def tryP_def getP_def modP_def notify_run has_target_def host_down_def mark_def sent_def)
  have old: "check_outdated (lv_agent (tk_latest t)) h x = (Inr (), x\<lparr>nf_outdated := mark (h_id h) (host_old t h) (nf_outdated x),
      nf_sent := nf_sent x @ sent g (if host_old t h \<and> \<not> is_set (nf_outdated x) (h_id h)
        then [outdated_message (lv_agent (tk_latest t)) h] else [])\<rparr>)" if "has_target g x" for x
    using that by (simp add: check_outdated_def bindP_def tryP_def getP_def modP_def notify_run has_target_def host_old_def mark_def sent_def)
  show ?thesis using assms
    by (simp add: check_host_def bindP_def tryP_def down old has_target_def sent_def)
qed

definition said :: "tick \<Rightarrow> notifier \<Rightarrow> host \<Rightarrow> string list" where
  "said t s h =
     (if host_down t h \<and> \<not> is_set (nf_down s) (h_id h) then [down_message h] else [])
     @ (if host_old t h \<and> \<not> is_set (nf_outdated s) (h_id h) then [outdated_message (lv_agent (tk_latest t)) h] else [])"

definition remembers :: "(tick \<Rightarrow> host \<Rightarrow> bool) \<Rightarrow> tick \<Rightarrow> host list \<Rightarrow> (string \<times> bool) list \<Rightarrow> (string \<times> bool) list \<Rightarrow> bool" where
  "remembers cond t hs m m' \<longleftrightarrow>
     (\<forall>i. is_set m' i = (case find (\<lambda>h. h_id h = i) hs of None \<Rightarrow> is_set m i | Some h \<Rightarrow> cond t h))"

lemma check_hosts_run:
  assumes "has_target g s" and "distinct (map h_id hs)"
  shows "\<exists>s'. forP (check_host (tk_live t) (lv_agent (tk_latest t))) hs s = (Inr (), s')
     \<and> nf_app s' = nf_app s \<and> nf_server s' = nf_server s
     \<and> nf_sent s' = nf_sent s @ sent g (concat (map (said t s) (filter (\<lambda>h. h_status h = ''connected'') hs)))
     \<and> remembers host_down t (filter (\<lambda>h. h_status h = ''connected'') hs) (nf_down s) (nf_down s')
     \<and> remembers host_old t (filter (\<lambda>h. h_status h = ''connected'') hs) (nf_outdated s) (nf_outdated s')"
  using assms
proof (induction hs arbitrary: s)
  case (Cons h hs)
  obtain s1 where run: "check_host (tk_live t) (lv_agent (tk_latest t)) h s = (Inr (), s1)"
    and s1: "s1 = (if h_status h = ''connected'' then
      s\<lparr>nf_down := mark (h_id h) (host_down t h) (nf_down s), nf_outdated := mark (h_id h) (host_old t h) (nf_outdated s),
        nf_sent := nf_sent s @ sent g (said t s h)\<rparr> else s)"
    using check_host_run [OF Cons.prems(1), of t h] by (simp add: said_def)
  have "has_target g s1" using Cons.prems(1) s1 by (simp add: has_target_def)
  from Cons.IH [OF this] Cons.prems(2) obtain s' where rest: "forP (check_host (tk_live t) (lv_agent (tk_latest t))) hs s1 = (Inr (), s')"
      "nf_app s' = nf_app s1" "nf_server s' = nf_server s1"
      "nf_sent s' = nf_sent s1 @ sent g (concat (map (said t s1) (filter (\<lambda>h. h_status h = ''connected'') hs)))"
      "remembers host_down t (filter (\<lambda>h. h_status h = ''connected'') hs) (nf_down s1) (nf_down s')"
      "remembers host_old t (filter (\<lambda>h. h_status h = ''connected'') hs) (nf_outdated s1) (nf_outdated s')"
    by auto
  have others: "h_id x \<noteq> h_id h" if "x \<in> set hs" for x
    using that Cons.prems(2) by (metis distinct.simps(2) image_eqI list.map(2) set_map)
  have same: "map (said t s1) (filter (\<lambda>h. h_status h = ''connected'') hs)
      = map (said t s) (filter (\<lambda>h. h_status h = ''connected'') hs)"
  proof (intro map_cong refl)
    fix x assume "x \<in> set (filter (\<lambda>h. h_status h = ''connected'') hs)"
    then have "h_id x \<noteq> h_id h" using others by simp
    then show "said t s1 x = said t s x" by (simp add: s1 said_def)
  qed
  have out: "find (\<lambda>x. h_id x = h_id h) (filter (\<lambda>h. h_status h = ''connected'') hs) = None"
    using others by (auto simp: find_None_iff)
  have "forP (check_host (tk_live t) (lv_agent (tk_latest t))) (h # hs) s = (Inr (), s')"
    using run rest(1) by (simp add: bindP_def tryP_def)
  moreover have "nf_sent s' = nf_sent s @ sent g (concat (map (said t s) (filter (\<lambda>h. h_status h = ''connected'') (h # hs))))"
    unfolding rest(4) same by (simp add: s1 sent_def)
  moreover have "remembers host_down t (filter (\<lambda>h. h_status h = ''connected'') (h # hs)) (nf_down s) (nf_down s')"
    "remembers host_old t (filter (\<lambda>h. h_status h = ''connected'') (h # hs)) (nf_outdated s) (nf_outdated s')"
    using rest(5,6) out by (auto simp: remembers_def s1 split: option.split)
  ultimately show ?case using rest(2,3) by (intro exI [of _ s']) (simp add: s1)
qed (auto simp: sent_def remembers_def)

text \<open>What the notifier remembers after the ticks of \<open>past\<close>.\<close>

definition recalls :: "string \<Rightarrow> tick list \<Rightarrow> notifier \<Rightarrow> bool" where
  "recalls version past s \<longleftrightarrow> (\<forall>i. is_set (nf_down s) i = last_observed host_down past i)
     \<and> (\<forall>i. is_set (nf_outdated s) i = last_observed host_old past i) \<and> nf_server s = list_ex (server_behind version) past"

definition good_tick :: "tick \<Rightarrow> bool" where
  "good_tick t \<longleftrightarrow> d_faults (tk_db t) = [] \<and> distinct (map h_id (d_hosts (tk_db t)))"

lemma tick_run:
  assumes "has_target g s" and "good_tick t" and "recalls version past s"
  shows "has_target g (run_tick version t s)" and "recalls version (t # past) (run_tick version t s)"
    and "nf_sent (run_tick version t s) = nf_sent s @ sent g (tick_news version past t)"
proof -
  let ?s = "s\<lparr>nf_app := (nf_app s)\<lparr>ap_db := tk_db t\<rparr>\<rparr>"
  have target: "has_target g ?s" using assms(1) by (simp add: has_target_def)
  have "distinct (map h_id (rev (d_hosts (tk_db t))))" using assms(2) by (simp add: good_tick_def rev_map [symmetric])
  from check_hosts_run [OF target this, of t] obtain s1 where
      loop: "forP (check_host (tk_live t) (lv_agent (tk_latest t))) (rev (d_hosts (tk_db t))) ?s = (Inr (), s1)"
      and app: "nf_app s1 = nf_app ?s" and server: "nf_server s1 = nf_server s"
      and log: "nf_sent s1 = nf_sent s @ sent g (concat (map (said t ?s) (used_hosts t)))"
      and mem: "remembers host_down t (used_hosts t) (nf_down s) (nf_down s1)" "remembers host_old t (used_hosts t) (nf_outdated s) (nf_outdated s1)"
    by (auto simp: used_hosts_def)
  have "has_target g s1" using target app by (simp add: has_target_def)
  note told = notify_run [OF this]
  have said: "said t ?s = host_news past t" using assms(3) by (intro ext) (simp add: said_def host_news_def recalls_def)
  have run: "run_tick version t s = snd (check_server version (lv_server (tk_latest t)) s1)"
    using assms(2) loop by (simp add: run_tick_def check_notifiable_events_def bindP_def tryP_def zoomP_def list_hosts_def
        wrap_select good_tick_def)
  have check: "check_server version (lv_server (tk_latest t)) s1 = (Inr (),
     if server_behind version t \<and> \<not> nf_server s
     then s1\<lparr>nf_server := True, nf_sent := nf_sent s1 @ sent g [server_message version (lv_server (tk_latest t))]\<rparr> else s1)"
    using \<open>has_target g s1\<close> server
    by (simp add: check_server_def bindP_def tryP_def getP_def modP_def notify_run has_target_def server_behind_def sent_def)
  show "has_target g (run_tick version t s)" using \<open>has_target g s1\<close> by (simp add: run check has_target_def)
  show "recalls version (t # past) (run_tick version t s)"
    using assms(3) mem server by (auto simp: run check recalls_def remembers_def observe_def split: option.split)
  show "nf_sent (run_tick version t s) = nf_sent s @ sent g (tick_news version past t)"
    using assms(3) by (simp add: run check log said tick_news_def sent_def recalls_def)
qed

text \<open>
  C31 one_message_per_outage.  Over any sequence of ticks of the check, with the hosts, tunnels and known
  releases of each tick, what is sent is what the observations alone call for: one message when a host in
  use goes down or falls behind after having been fine, one when the server first falls behind, and no
  repetition, as long as a target is configured and the databases answer.
\<close>

theorem one_message_per_outage:
  assumes "has_target g (new_notifier app)" and "list_all good_tick ticks"
  shows "nf_sent (fold (run_tick version) ticks (new_notifier app)) = sent g (news version [] ticks)"
proof -
  have "nf_sent (fold (run_tick version) ticks s) = nf_sent s @ sent g (news version past ticks)"
    if "has_target g s" "recalls version past s" for s past
    using that assms(2)
  proof (induction ticks arbitrary: s past)
    case (Cons t ts)
    note step = tick_run [OF Cons.prems(1) _ Cons.prems(2), of t]
    show ?case using Cons.prems(3) Cons.IH [OF step(1,2)] step(3) by (simp add: sent_def)
  qed (simp add: sent_def)
  from this [OF assms(1), of "[]"] show ?thesis by (simp add: recalls_def new_notifier_def is_set_def)
qed

definition watched :: app_state where
  "watched = \<lparr>ap_db = empty_db 0 (\<lambda>_. ''''),
     ap_keys = empty_custodian\<lparr>k_notify := Some \<lparr>nt_kind = ''ntfy'', nt_url = ''https://ntfy.sh/x''\<rparr>\<rparr>,
     ap_polls = no_schedules\<rparr>"

definition seen_host :: host where
  "seen_host = \<lparr>h_id = ''h1'', h_name = ''nas'', h_status = ''connected'', h_fp = '''', h_approved_by = '''', h_last_seen = 0,
     h_address = '''', h_agent_version = '''', h_next_fp = '''', h_arch = '''', h_approved_at = None, h_created = 0\<rparr>"

definition seen :: "bool \<Rightarrow> tick" where
  "seen up = \<lparr>tk_db = (empty_db 0 (\<lambda>_. ''''))\<lparr>d_hosts := [seen_host]\<rparr>, tk_live = (\<lambda>_. up),
     tk_latest = \<lparr>lv_server = '''', lv_agent = ''''\<rparr>\<rparr>"

lemma one_message_per_outage_witness:
  "nf_sent (fold (run_tick ''1.0.0'') [seen False, seen False, seen True, seen False] (new_notifier watched))
     = [(''ntfy'', ''https://ntfy.sh/x'', down_message seen_host), (''ntfy'', ''https://ntfy.sh/x'', down_message seen_host)]"
proof -
  let ?g = "\<lparr>nt_kind = ''ntfy'', nt_url = ''https://ntfy.sh/x''\<rparr>" and ?ticks = "[seen False, seen False, seen True, seen False]"
  have "nf_sent (fold (run_tick ''1.0.0'') ?ticks (new_notifier watched)) = sent ?g (news ''1.0.0'' [] ?ticks)"
    by (rule one_message_per_outage)
      (simp_all add: has_target_def new_notifier_def watched_def empty_custodian_def good_tick_def seen_def empty_db_def)
  moreover have "news ''1.0.0'' [] ?ticks = [down_message seen_host, down_message seen_host]"
    by (simp add: tick_news_def host_news_def used_hosts_def seen_def seen_host_def host_down_def host_old_def agent_outdated_def
        server_behind_def observe_def)
  ultimately show ?thesis by (simp only: sent_def) simp
qed

end
