(* ===== verification/Scan_Rules.thy ===== *)
theory Scan_Rules
  imports Vuln_Scans
begin

text \<open>
  What \<open>Vuln_Scans\<close> guarantees: the targets are checked and named once, and a pass leaves exactly one result
  per target, the new one or, when the scanner fails, the last good one.
\<close>

section \<open>Targets\<close>

definition target_key :: "scan_target \<Rightarrow> string" where
  "target_key t = tg_digest t @ ''|'' @ tg_platform t"

definition good_targets :: "scan_target list \<Rightarrow> bool" where
  "good_targets ts \<longleftrightarrow> distinct (map target_key ts) \<and> (\<forall>t\<in>set ts. validate_target t = Inr ())"

lemma add_target_good: "good_targets ts \<Longrightarrow> good_targets (add_target t ts)"
  by (auto simp: good_targets_def add_target_def target_key_def comp_def)

text \<open>What a program returns, when it returns.\<close>

definition gives :: "('s, 'a) prog \<Rightarrow> ('a \<Rightarrow> bool) \<Rightarrow> bool" where
  "gives m Q \<longleftrightarrow> (\<forall>s x. fst (m s) = Inr x \<longrightarrow> Q x)"

lemma gives_okP: "Q x \<Longrightarrow> gives (okP x) Q"
  by (simp add: gives_def okP_def)

lemma gives_bindP:
  assumes "gives m R" and "\<And>x. R x \<Longrightarrow> gives (f x) Q"
  shows "gives (bindP m f) Q"
  unfolding gives_def
proof (intro allI impI)
  fix s y assume "fst (bindP m f s) = Inr y"
  then obtain x s1 where "m s = (Inr x, s1)" "fst (f x s1) = Inr y"
    by (auto simp: bindP_def tryP_def split: prod.splits sum.splits)
  then show "Q y" using assms unfolding gives_def by (metis fst_conv)
qed

lemma gives_any: "(\<And>x. gives (f x) Q) \<Longrightarrow> gives (bindP m f) Q"
  by (rule gives_bindP [where R = "\<lambda>_. True"]) (auto simp: gives_def)

lemma policy_targets_good:
  "good_targets out \<Longrightarrow> gives (policy_targets env sh ps memo out) (\<lambda>(_, ts). good_targets ts)"
proof (induction ps arbitrary: memo out)
  case (Cons p ps)
  show ?case
    by (cases "parse_image_ref (ip_ref p)")
      (auto simp: Let_def Cons.prems intro!: gives_any Cons.IH add_target_good split: option.split)
qed (simp add: gives_okP)

lemma image_targets_good:
  "good_targets out \<Longrightarrow> gives (image_targets env in_use is memo out) good_targets"
proof (induction "is" arbitrary: memo out)
  case (Cons i "is")
  then show ?case by (auto intro!: gives_any Cons.IH add_target_good split: option.split)
qed (simp add: gives_okP)

lemma scan_targets_good: "gives (scan_targets env) good_targets"
  unfolding scan_targets_def
proof (rule gives_any, rule gives_any)
  fix stacks ps
  show "gives (bindP (policy_targets env (rev (map (\<lambda>s. (st_id s, st_host s)) stacks)) ps [] []) (\<lambda>(memo, out).
     bindP list_host_images (\<lambda>is. bindP list_host_containers (\<lambda>cs.
     bindP (image_targets env (map (\<lambda>c. hc_host c @ ''|'' @ hc_image_id c) (filter (\<lambda>c. hc_image_id c \<noteq> '''') cs)) is memo out) (\<lambda>ts.
       okP (rev ts)))))) good_targets"
  proof (rule gives_bindP [where R = "\<lambda>(_, ts). good_targets ts"])
    show "gives (policy_targets env (rev (map (\<lambda>s. (st_id s, st_host s)) stacks)) ps [] []) (\<lambda>(_, ts). good_targets ts)"
      by (rule policy_targets_good) (simp add: good_targets_def)
    fix x :: "(string \<times> string) list \<times> scan_target list"
    assume x: "case x of (_, ts) \<Rightarrow> good_targets ts"
    show "gives (case x of (memo, out) \<Rightarrow> bindP list_host_images (\<lambda>is. bindP list_host_containers (\<lambda>cs.
       bindP (image_targets env (map (\<lambda>c. hc_host c @ ''|'' @ hc_image_id c) (filter (\<lambda>c. hc_image_id c \<noteq> '''') cs)) is memo out) (\<lambda>ts.
         okP (rev ts))))) good_targets"
    proof (cases x)
      case (Pair memo out)
      then have "good_targets out" using x by simp
      then show ?thesis unfolding Pair prod.case
        by (intro gives_any gives_bindP [OF image_targets_good] gives_okP) (simp_all add: good_targets_def rev_map [symmetric])
    qed
  qed
qed

text \<open>
  C32 targets_well_formed.  What a pass gives to the scanner, whatever references, digests and platforms
  the policies, the registries and the agents put into the database: no image twice for one platform, and
  every reference and platform a word of letters, digits and \<open>.-_/:@\<close> that starts with a letter or digit,
  so none can be read as an option of the command line.
\<close>

theorem targets_well_formed:
  assumes "fst (scan_targets env d) = Inr ts"
  shows "distinct (map (\<lambda>t. (tg_digest t, tg_platform t)) ts)
     \<and> (\<forall>t\<in>set ts. plain_argument (target_ref t) \<and> plain_argument (tg_platform t))"
proof -
  have good: "good_targets ts" using assms scan_targets_good by (auto simp: gives_def)
  have "distinct (map (\<lambda>t. (tg_digest t, tg_platform t)) ts)"
  proof -
    have "map (\<lambda>(a, b). a @ ''|'' @ b) (map (\<lambda>t. (tg_digest t, tg_platform t)) ts) = map target_key ts"
      by (simp add: target_key_def)
    then have "distinct (map (\<lambda>(a, b). a @ ''|'' @ b) (map (\<lambda>t. (tg_digest t, tg_platform t)) ts))"
      using good by (simp only: good_targets_def)
    then show ?thesis unfolding distinct_map [of _ "map _ ts"] by (rule conjunct1)
  qed
  with good valid_plain show ?thesis by (auto simp: good_targets_def)
qed

definition pinned_db :: db where
  "pinned_db = (empty_db 0 (\<lambda>_. ''''))\<lparr>d_policies :=
     [\<lparr>ip_stack = ''blog'', ip_service = ''web'', ip_ref = ''ghcr.io/a/b:1'', ip_policy = ''auto'', ip_applied = ''sha256:'' @ replicate 64 CHR ''a''\<rparr>,
      \<lparr>ip_stack = ''blog'', ip_service = ''db'', ip_ref = ''-x/b'', ip_policy = ''auto'', ip_applied = ''sha256:'' @ replicate 64 CHR ''b''\<rparr>]\<rparr>"

definition scan_example :: scan_env where
  "scan_example = \<lparr>sv_scanners = [\<lparr>sn_name = ''trivy'', sn_label = ''Trivy'', sn_version = ''1'', sn_dirs = []\<rparr>], sv_arch = ''amd64'',
     sv_cache = Inr (), sv_installed = (\<lambda>_. True), sv_install = (\<lambda>_. Inr ()), sv_update = (\<lambda>_. Inr ()), sv_built = (\<lambda>_ _. ''2026''),
     sv_scan = (\<lambda>_ _ _. Inl (ErrText ''down'')), sv_free = None, sv_gb = (\<lambda>_. ''''), sv_cache_dir = '''', sv_json = (\<lambda>_. ''[]''),
     sv_parse = (\<lambda>_. []), sv_remove = (\<lambda>_. Inr ())\<rparr>"

definition example_target :: scan_target where
  "example_target = \<lparr>tg_registry = ''ghcr.io'', tg_repository = ''a/b'', tg_digest = ''sha256:'' @ replicate 64 CHR ''a'', tg_platform = ''linux/amd64''\<rparr>"

lemma example_targets: "fst (scan_targets scan_example pinned_db) = Inr [example_target]"
  by code_simp

lemma targets_well_formed_witness: "plain_argument (target_ref example_target)"
  using targets_well_formed [OF example_targets] by simp

section \<open>One result per target\<close>

text \<open>
  What a pass leaves for a target: the result there was when it is current; the new one when the scanner
  succeeds; when it fails, the last good one, or else the failure.
\<close>

definition result_key :: "scanner_def \<Rightarrow> scan_target \<Rightarrow> string \<times> string \<times> string" where
  "result_key sc t = (sn_name sc, tg_digest t, tg_platform t)"

definition stored :: "db \<Rightarrow> image_scan \<Rightarrow> image_scan" where
  "stored d r = (if is_findings r = '''' then r\<lparr>is_findings := ''[]''\<rparr> else r)\<lparr>is_scanned := d_now d\<rparr>"

lemma stored_scans [simp]: "stored (d\<lparr>d_scans := rows\<rparr>) r = stored d r"
  by (simp add: stored_def)

definition login_for :: "custodian \<Rightarrow> string \<Rightarrow> (string \<times> string) option" where
  "login_for k host = map_option (\<lambda>r. (rg_user r, rg_password r)) (find (\<lambda>r. rg_host r = host) (k_registries k))"

definition find_scan :: "db \<Rightarrow> string \<times> string \<times> string \<Rightarrow> image_scan option" where
  "find_scan d key = find (\<lambda>r. scan_key r = key) (d_scans d)"

definition good_result :: "image_scan option \<Rightarrow> bool" where
  "good_result prev = (case prev of None \<Rightarrow> False | Some p \<Rightarrow> is_status p = ''ok'')"

definition result_after :: "scan_env \<Rightarrow> scanner_def \<Rightarrow> string \<Rightarrow> custodian \<Rightarrow> db \<Rightarrow> scan_target \<Rightarrow> image_scan option" where
  "result_after env sc built k d t =
     (let prev = find_scan d (result_key sc t) in
      if good_result prev \<and> built \<le> is_db_built (the prev) then prev
      else (case sv_scan env (sn_name sc) t (login_for k (tg_registry t)) of
          Inl e \<Rightarrow> if good_result prev then prev else Some (stored d (failed_scan sc t (error_text e)))
        | Inr r \<Rightarrow> Some (stored d (done_scan env sc t r))))"

lemma upsert_scan_run:
  assumes "d_faults d = []"
  shows "\<exists>rows. upsert_image_scan r d = (Inr (), d\<lparr>d_scans := rows\<rparr>)
     \<and> (\<forall>key. find (\<lambda>x. scan_key x = key) rows = (if key = scan_key r then Some (stored d r) else find (\<lambda>x. scan_key x = key) (d_scans d)))"
proof -
  let ?r = "stored d r" and ?P = "\<lambda>x. scan_key x = scan_key r"
  let ?rows = "if list_ex ?P (d_scans d) then update_where ?P (\<lambda>_. ?r) (d_scans d) else d_scans d @ [?r]"
  have key: "scan_key ?r = scan_key r" by (simp add: stored_def scan_key_def)
  have upd: "find (\<lambda>x. scan_key x = k) (update_where ?P (\<lambda>_. ?r) rows)
      = (if k = scan_key r then (if list_ex ?P rows then Some ?r else None) else find (\<lambda>x. scan_key x = k) rows)" for k rows
    by (induction rows) (auto simp: update_where_def key)
  have none: "\<not> list_ex ?P rows \<Longrightarrow> find ?P rows = None" for rows by (auto simp: find_None_iff list_ex_iff)
  have "upsert_image_scan r d = (Inr (), d\<lparr>d_scans := ?rows\<rparr>)"
    using assms by (simp add: upsert_image_scan_def Let_def unitP_def bindP_def tryP_def wrapP_def ups_def faultless_exec stored_def
        scan_key_def)
  moreover have "find (\<lambda>x. scan_key x = k) ?rows = (if k = scan_key r then Some ?r else find (\<lambda>x. scan_key x = k) (d_scans d))" for k
    using none [of "d_scans d"] by (auto simp: upd find_append key split: option.split)
  ultimately show ?thesis by blast
qed

definition quiet :: "scan_state \<Rightarrow> bool" where
  "quiet s \<longleftrightarrow> d_faults (ap_db (vu_app s)) = [] \<and> k_faults (ap_keys (vu_app s)) = []"

lemma bindP_run_Inr: "m s = (Inr x, s1) \<Longrightarrow> bindP m f s = f x s1"
  by (simp add: bindP_def tryP_def)

definition with_scans :: "image_scan list \<Rightarrow> scan_state \<Rightarrow> scan_state" where
  "with_scans rows s = s\<lparr>vu_app := (vu_app s)\<lparr>ap_db := (ap_db (vu_app s))\<lparr>d_scans := rows\<rparr>\<rparr>\<rparr>"

abbreviation scan_db :: "scan_state \<Rightarrow> db" where
  "scan_db s \<equiv> ap_db (vu_app s)"

lemma with_scans_simps [simp]:
  "quiet (with_scans rows s) = quiet s" "ap_keys (vu_app (with_scans rows s)) = ap_keys (vu_app s)"
  "ap_db (vu_app (with_scans rows s)) = (ap_db (vu_app s))\<lparr>d_scans := rows\<rparr>"
  "with_scans rows (with_scans rows' s) = with_scans rows s"
  by (simp_all add: quiet_def with_scans_def)

lemma with_scans_same: "with_scans (d_scans (scan_db s)) s = s"
  by (simp add: with_scans_def)

lemma previous_run:
  "quiet s \<Longrightarrow> tryP (on_scan_db (get_image_scan a b c)) (\<lambda>_. okP None) okP s = (Inr (find_scan (scan_db s) (a, b, c)), s)"
  by (simp add: quiet_def get_image_scan_def wrap_select tryP_def zoomP_def find_scan_def)

lemma login_run:
  "quiet s \<Longrightarrow> tryP (on_scan_app (on_keys (registry_credential host))) (\<lambda>_. okP None) okP s = (Inr (login_for (ap_keys (vu_app s)) host), s)"
  by (simp add: quiet_def registry_credential_def kquery_def kstmt_def wrapP_def tryP_def zoomP_def login_for_def)

lemma upsert_run:
  assumes "quiet s"
  shows "\<exists>rows. on_scan_db (upsert_image_scan r) s = (Inr (), with_scans rows s)
     \<and> (\<forall>key. find (\<lambda>x. scan_key x = key) rows = (if key = scan_key r then Some (stored (scan_db s) r) else find_scan (scan_db s) key))"
proof -
  obtain rows where rows: "upsert_image_scan r (scan_db s) = (Inr (), (scan_db s)\<lparr>d_scans := rows\<rparr>)"
    "\<forall>key. find (\<lambda>x. scan_key x = key) rows = (if key = scan_key r then Some (stored (scan_db s) r) else find (\<lambda>x. scan_key x = key) (d_scans (scan_db s)))"
    using upsert_scan_run [of "scan_db s" r] assms by (auto simp only: quiet_def)
  have "on_scan_db (upsert_image_scan r) s = (Inr (), with_scans rows s)"
    using rows(1) by (simp add: zoomP_def with_scans_def)
  with rows(2) show ?thesis unfolding find_scan_def by blast
qed

lemma scan_one_run:
  assumes q: "quiet s"
  shows "\<exists>o' rows. scan_one env sc built t s = (Inr o', with_scans rows s)
     \<and> (\<forall>key. find (\<lambda>x. scan_key x = key) rows = (if key = result_key sc t
          then result_after env sc built (ap_keys (vu_app s)) (scan_db s) t else find_scan (scan_db s) key))"
proof -
  let ?prev = "find_scan (scan_db s) (result_key sc t)" and ?same = "d_scans (scan_db s)"
  have same: "find (\<lambda>x. scan_key x = key) ?same = find_scan (scan_db s) key" for key by (simp add: find_scan_def)
  have ok: "good_result ?prev = (case ?prev of None \<Rightarrow> False | Some p \<Rightarrow> is_status p = ''ok'')" by (simp add: good_result_def)
  have prev: "tryP (on_scan_db (get_image_scan (sn_name sc) (tg_digest t) (tg_platform t))) (\<lambda>_. okP None) okP s = (Inr ?prev, s)"
    using previous_run [OF q] by (simp add: result_key_def)
  let ?login = "tryP (on_scan_app (on_keys (registry_credential (tg_registry t)))) (\<lambda>_. okP None) okP"
  note run = scan_one_def bindP_run_Inr [where m = "tryP (on_scan_db (get_image_scan (sn_name sc) (tg_digest t) (tg_platform t))) (\<lambda>_. okP None) okP"
      and s = s, OF prev] bindP_run_Inr [where m = ?login and s = s, OF login_run [OF q]]
  consider (current) "good_result ?prev" "built \<le> is_db_built (the ?prev)"
    | (kept) e where "good_result ?prev" "\<not> built \<le> is_db_built (the ?prev)"
        "sv_scan env (sn_name sc) t (login_for (ap_keys (vu_app s)) (tg_registry t)) = Inl e"
    | (failed) e where "\<not> good_result ?prev" "sv_scan env (sn_name sc) t (login_for (ap_keys (vu_app s)) (tg_registry t)) = Inl e"
    | (fresh) r where "\<not> (good_result ?prev \<and> built \<le> is_db_built (the ?prev))"
        "sv_scan env (sn_name sc) t (login_for (ap_keys (vu_app s)) (tg_registry t)) = Inr r"
    by (cases "sv_scan env (sn_name sc) t (login_for (ap_keys (vu_app s)) (tg_registry t))") blast+
  then show ?thesis
  proof cases
    case current
    then have "scan_one env sc built t s = (Inr Current, with_scans ?same s)"
      by (simp add: run ok [symmetric] with_scans_same Let_def)
    moreover have "result_after env sc built (ap_keys (vu_app s)) (scan_db s) t = ?prev" using current by (simp add: result_after_def Let_def)
    ultimately show ?thesis by (intro exI [of _ Current] exI [of _ ?same]) (simp add: same)
  next
    case (kept e)
    then have "scan_one env sc built t s = (Inr Failed, with_scans ?same s)"
      by (simp add: run ok [symmetric] with_scans_same Let_def)
    moreover have "result_after env sc built (ap_keys (vu_app s)) (scan_db s) t = ?prev" using kept by (simp add: result_after_def Let_def)
    ultimately show ?thesis by (intro exI [of _ Failed] exI [of _ ?same]) (simp add: same)
  next
    case (failed e)
    obtain rows where up: "on_scan_db (upsert_image_scan (failed_scan sc t (error_text e))) s = (Inr (), with_scans rows s)"
        "\<And>key. find (\<lambda>x. scan_key x = key) rows = (if key = scan_key (failed_scan sc t (error_text e))
           then Some (stored (scan_db s) (failed_scan sc t (error_text e))) else find_scan (scan_db s) key)"
      using upsert_run [OF q] by meson
    have ignored: "ignoreP (on_scan_db (upsert_image_scan (failed_scan sc t (error_text e)))) s = (Inr (), with_scans rows s)"
      by (simp add: ignoreP_run up(1))
    have "scan_one env sc built t s = (Inr Failed, with_scans rows s)"
      using failed by (simp add: run ok [symmetric] Let_def bindP_run_Inr [where s = s
        and m = "ignoreP (on_scan_db (upsert_image_scan (failed_scan sc t (error_text e))))", OF ignored])
    moreover have "result_after env sc built (ap_keys (vu_app s)) (scan_db s) t = Some (stored (scan_db s) (failed_scan sc t (error_text e)))"
      using failed by (simp add: result_after_def Let_def)
    moreover have "scan_key (failed_scan sc t (error_text e)) = result_key sc t" by (simp add: scan_key_def failed_scan_def result_key_def)
    ultimately show ?thesis by (intro exI [of _ Failed] exI [of _ rows]) (simp add: up(2))
  next
    case (fresh r)
    obtain rows where up: "on_scan_db (upsert_image_scan (done_scan env sc t r)) s = (Inr (), with_scans rows s)"
        "\<And>key. find (\<lambda>x. scan_key x = key) rows = (if key = scan_key (done_scan env sc t r)
           then Some (stored (scan_db s) (done_scan env sc t r)) else find_scan (scan_db s) key)"
      using upsert_run [OF q] by meson
    have "scan_one env sc built t s = (Inr Scanned, with_scans rows s)"
      using fresh by (simp add: run ok [symmetric] Let_def bindP_run_Inr [where m = "on_scan_db (upsert_image_scan (done_scan env sc t r))" and s = s, OF up(1)])
    moreover have "scan_key (done_scan env sc t r) = result_key sc t" by (simp add: scan_key_def done_scan_def result_key_def Let_def)
    moreover have "result_after env sc built (ap_keys (vu_app s)) (scan_db s) t = Some (stored (scan_db s) (done_scan env sc t r))"
      using fresh by (auto simp: result_after_def Let_def)
    ultimately show ?thesis by (intro exI [of _ Scanned] exI [of _ rows]) (simp add: up(2))
  qed
qed

lemma scan_all_run:
  assumes "quiet s" and "distinct (map (result_key sc) ts)"
  shows "\<exists>os rows p. scan_all env sc built n i ts s = (Inr os, with_scans rows (s\<lparr>vu_phase := p\<rparr>)) \<and> length os = length ts
     \<and> (\<forall>t\<in>set ts. find (\<lambda>x. scan_key x = result_key sc t) rows = result_after env sc built (ap_keys (vu_app s)) (scan_db s) t)
     \<and> (\<forall>key. key \<notin> result_key sc ` set ts \<longrightarrow> find (\<lambda>x. scan_key x = key) rows = find_scan (scan_db s) key)"
  using assms
proof (induction ts arbitrary: s i)
  case Nil
  have "s = with_scans (d_scans (scan_db s)) (s\<lparr>vu_phase := vu_phase s\<rparr>)" by (simp add: with_scans_def)
  then show ?case by (intro exI [of _ "[]"] exI [of _ "d_scans (scan_db s)"] exI [of _ "vu_phase s"]) (simp add: find_scan_def)
next
  case (Cons t ts)
  define p1 where "p1 = ''scanning '' @ show_int (int (i + 1)) @ ''/'' @ show_int (int n)"
  let ?s = "s\<lparr>vu_phase := p1\<rparr>" and ?after = "\<lambda>d t. result_after env sc built (ap_keys (vu_app s)) d t"
  have q: "quiet ?s" using Cons.prems(1) by (simp add: quiet_def)
  obtain o1 rows1 where one: "scan_one env sc built t ?s = (Inr o1, with_scans rows1 ?s)"
      "\<And>key. find (\<lambda>x. scan_key x = key) rows1 = (if key = result_key sc t then ?after (scan_db s) t else find_scan (scan_db s) key)"
    using scan_one_run [OF q, of env sc built t] by auto
  let ?s1 = "with_scans rows1 ?s"
  have "quiet ?s1" and "distinct (map (result_key sc) ts)" using q Cons.prems(2) by simp_all
  from Cons.IH [OF this, of "i + 1"] obtain os rows p where rest: "scan_all env sc built n (i + 1) ts ?s1 = (Inr os, with_scans rows (?s1\<lparr>vu_phase := p\<rparr>))"
      "length os = length ts"
      "\<forall>u\<in>set ts. find (\<lambda>x. scan_key x = result_key sc u) rows = result_after env sc built (ap_keys (vu_app ?s1)) (scan_db ?s1) u"
      "\<forall>key. key \<notin> result_key sc ` set ts \<longrightarrow> find (\<lambda>x. scan_key x = key) rows = find_scan (scan_db ?s1) key"
    by blast
  have keys: "ap_keys (vu_app ?s1) = ap_keys (vu_app s)" by simp
  have phase: "set_phase p1 s = (Inr (), ?s)" by (simp add: set_phase_def modP_def)
  have state: "with_scans rows (?s1\<lparr>vu_phase := p\<rparr>) = with_scans rows (s\<lparr>vu_phase := p\<rparr>)" by (simp add: with_scans_def)
  have other: "result_key sc u \<noteq> result_key sc t" if "u \<in> set ts" for u
    using that Cons.prems(2) by (metis distinct.simps(2) image_eqI list.map(2) set_map)
  have find1: "find_scan (scan_db ?s1) key = (if key = result_key sc t then ?after (scan_db s) t else find_scan (scan_db s) key)" for key
    using one(2) by (simp add: find_scan_def)
  have same: "?after (scan_db ?s1) u = ?after (scan_db s) u" if "u \<in> set ts" for u
    using find1 [of "result_key sc u"] other [OF that] by (simp add: result_after_def Let_def split: sum.split)
  have out: "result_key sc t \<notin> result_key sc ` set ts" using Cons.prems(2) by simp
  have "scan_all env sc built n i (t # ts) s = (Inr (o1 # os), with_scans rows (s\<lparr>vu_phase := p\<rparr>))"
    unfolding scan_all.simps p1_def [symmetric] bindP_run_Inr [where m = "set_phase p1", OF phase]
      bindP_run_Inr [where m = "scan_one env sc built t", OF one(1)]
      bindP_run_Inr [where m = "scan_all env sc built n (i + 1) ts", OF rest(1)] by (simp add: state okP_def)
  moreover have "\<forall>u\<in>set (t # ts). find (\<lambda>x. scan_key x = result_key sc u) rows = ?after (scan_db s) u"
  proof
    fix u assume "u \<in> set (t # ts)"
    then consider "u = t" | "u \<in> set ts" by auto
    then show "find (\<lambda>x. scan_key x = result_key sc u) rows = ?after (scan_db s) u"
    proof cases
      case 1
      then show ?thesis using rest(4) [rule_format, OF out] find1 [of "result_key sc t"] by simp
    next
      case 2
      then show ?thesis using rest(3) [unfolded keys] same by simp
    qed
  qed
  moreover have "\<forall>key. key \<notin> result_key sc ` set (t # ts) \<longrightarrow> find (\<lambda>x. scan_key x = key) rows = find_scan (scan_db s) key"
    using rest(4) find1 by auto
  ultimately show ?case using rest(2) by (intro exI [of _ "o1 # os"] exI [of _ rows] exI [of _ p]) simp
qed

lemma delete_scans_run:
  "d_faults d = [] \<Longrightarrow> forP delete_scan ks d = (Inr (), d\<lparr>d_scans := filter (\<lambda>r. scan_key r \<notin> set ks) (d_scans d)\<rparr>)"
proof (induction ks arbitrary: d)
  case (Cons k ks)
  have one: "delete_scan k d = (Inr (), d\<lparr>d_scans := delete_where (\<lambda>r. scan_key r = k) (d_scans d)\<rparr>)"
    using Cons.prems by (simp add: delete_scan_def unitP_def bindP_def tryP_def wrapP_def faultless_exec)
  show ?case using Cons.IH [of "d\<lparr>d_scans := delete_where (\<lambda>r. scan_key r = k) (d_scans d)\<rparr>"] Cons.prems one
    by (auto simp: bindP_def tryP_def delete_where_def intro!: arg_cong2 [where f = "\<lambda>rows d. d_scans_update (\<lambda>_. rows) d"] filter_cong)
qed simp

lemma prune_run:
  assumes "d_faults d = []"
  shows "\<exists>n. prune_image_scans keep d = (Inr n, d\<lparr>d_scans := filter (\<lambda>r. scan_key r \<in> set keep) (d_scans d)\<rparr>)"
proof -
  have "filter (\<lambda>r. scan_key r \<notin> set (filter (\<lambda>k. k \<notin> set keep) (map scan_key (d_scans d)))) (d_scans d)
      = filter (\<lambda>r. scan_key r \<in> set keep) (d_scans d)" by (auto intro: filter_cong)
  then show ?thesis using assms delete_scans_run [OF assms]
    by (simp add: prune_image_scans_def bindP_def tryP_def wrap_select Let_def)
qed

text \<open>Reading the targets leaves an answering database as it is.\<close>

lemma keeps_same_select: "d_faults d = [] \<Longrightarrow> keeps (\<lambda>x. x = d) (select f)"
  by (simp add: keeps_def faultless_exec)

lemma keeps_same_reads:
  assumes "d_faults d = []"
  shows "keeps (\<lambda>x. x = d) (platform_of env host memo)" "keeps (\<lambda>x. x = d) (get_image_digest_cache c)"
    "keeps (\<lambda>x. x = d) list_stacks" "keeps (\<lambda>x. x = d) list_image_policies" "keeps (\<lambda>x. x = d) list_host_images"
    "keeps (\<lambda>x. x = d) list_host_containers" "keeps (\<lambda>x. x = d) get_vuln_settings"
  unfolding platform_of_def host_arch_def one_row_def get_image_digest_cache_def list_stacks_def list_image_policies_def
    list_host_images_def list_host_containers_def get_vuln_settings_def Let_def
  by (intro keeps_intros keeps_same_select assms)+

lemma policy_targets_same: "d_faults d = [] \<Longrightarrow> keeps (\<lambda>x. x = d) (policy_targets env sh ps memo out)"
proof (induction ps arbitrary: memo out)
  case (Cons p ps)
  show ?case unfolding policy_targets.simps Let_def
    by (intro keeps_intros keeps_same_reads Cons.prems Cons.IH)
qed (simp add: keeps_okP)

lemma image_targets_same: "d_faults d = [] \<Longrightarrow> keeps (\<lambda>x. x = d) (image_targets env in_use is memo out)"
proof (induction "is" arbitrary: memo out)
  case (Cons i "is")
  show ?case unfolding image_targets.simps
    by (intro keeps_intros keeps_same_reads Cons.prems Cons.IH)
qed (simp add: keeps_okP)

lemma scan_targets_same: "d_faults d = [] \<Longrightarrow> snd (scan_targets env d) = d"
proof -
  assume f: "d_faults d = []"
  have "keeps (\<lambda>x. x = d) (scan_targets env)"
    unfolding scan_targets_def by (intro keeps_intros keeps_same_reads policy_targets_same image_targets_same f)
  from keepsD [OF this] show ?thesis by simp
qed

lemma active_same: "d_faults d = [] \<Longrightarrow> snd (active_scanner env d) = d"
proof -
  assume f: "d_faults d = []"
  have "keeps (\<lambda>x. x = d) (active_scanner env)"
    unfolding active_scanner_def by (intro keeps_intros keeps_same_reads f)
  from keepsD [OF this] show ?thesis by simp
qed

lemma prepare_phase: "\<exists>p. snd (prepare_scanner env sc u s) = s\<lparr>vu_phase := p\<rparr>"
proof -
  have "keeps (\<lambda>x. \<exists>p. x = s\<lparr>vu_phase := p\<rparr>) (prepare_scanner env sc u)"
    unfolding prepare_scanner_def set_phase_def Let_def by (intro keeps_intros keeps_modP) (auto)
  moreover have "\<exists>p. s = s\<lparr>vu_phase := p\<rparr>" by (rule exI [of _ "vu_phase s"]) simp
  ultimately show ?thesis by (rule keepsD)
qed

lemma ignored_scan: "ignoreP (on_scan_db m) s = (Inr (), s\<lparr>vu_app := (vu_app s)\<lparr>ap_db := snd (m (scan_db s))\<rparr>\<rparr>)"
  by (simp add: ignoreP_run zoomP_def split: prod.split)

text \<open>
  C33 pass_exact.  A pass that gets its scanner ready leaves, while the databases answer, exactly one result
  for every target and none for anything else: the one that is current, the new one, or for a scan that
  fails the last good one, and the failure only where there was none.
\<close>

theorem pass_exact:
  assumes "quiet s" and "fst (active_scanner env (scan_db s)) = Inr (Some sc)"
    and "fst (prepare_scanner env sc u s) = Inr built" and "fst (scan_targets env (scan_db s)) = Inr ts"
  shows "(\<forall>t\<in>set ts. find_scan (scan_db (snd (scan_pass env u s))) (result_key sc t)
         = result_after env sc built (ap_keys (vu_app s)) (scan_db s) t)
     \<and> scan_key ` set (d_scans (scan_db (snd (scan_pass env u s)))) \<subseteq> result_key sc ` set ts"
proof -
  have f: "d_faults (scan_db s) = []" using assms(1) by (simp add: quiet_def)
  have active: "on_scan_db (active_scanner env) s = (Inr (Some sc), s)"
    using active_same [OF f, of env] assms(2) by (cases "active_scanner env (scan_db s)") (simp add: zoomP_def)
  obtain p where ready: "prepare_scanner env sc u s = (Inr built, s\<lparr>vu_phase := p\<rparr>)"
    using prepare_phase [of env sc u s] assms(3) by (metis prod.collapse)
  let ?s = "s\<lparr>vu_phase := p\<rparr>"
  have targets: "on_scan_db (scan_targets env) ?s = (Inr ts, ?s)"
    using scan_targets_same [OF f, of env] assms(4) by (cases "scan_targets env (scan_db s)") (simp add: zoomP_def)
  have good: "good_targets ts" using assms(4) scan_targets_good by (auto simp: gives_def)
  have "map target_key ts = map (\<lambda>(n, a, b). a @ ''|'' @ b) (map (result_key sc) ts)" by (simp add: target_key_def result_key_def)
  then have "distinct (map (\<lambda>(n, a, b). a @ ''|'' @ b) (map (result_key sc) ts))" using good by (simp only: good_targets_def)
  then have dist: "distinct (map (result_key sc) ts)" unfolding distinct_map [of _ "map _ ts"] by (rule conjunct1)
  obtain os rows q where all: "scan_all env sc built (length ts) 0 ts ?s = (Inr os, with_scans rows (?s\<lparr>vu_phase := q\<rparr>))"
      "\<forall>t\<in>set ts. find (\<lambda>x. scan_key x = result_key sc t) rows = result_after env sc built (ap_keys (vu_app ?s)) (scan_db ?s) t"
    using scan_all_run [of ?s sc ts env built "length ts" 0] assms(1) dist by (auto simp: quiet_def)
  let ?s2 = "with_scans rows (?s\<lparr>vu_phase := q\<rparr>)" and ?keep = "map (\<lambda>t. (sn_name sc, tg_digest t, tg_platform t)) ts"
  let ?rows = "filter (\<lambda>r. scan_key r \<in> set ?keep) rows"
  have f2: "d_faults (scan_db ?s2) = []" using f by (simp add: with_scans_def)
  obtain n where "prune_image_scans ?keep (scan_db ?s2) = (Inr n, (scan_db ?s2)\<lparr>d_scans := ?rows\<rparr>)"
    using prune_run [OF f2, of ?keep] by auto
  then have prune: "ignoreP (on_scan_db (prune_image_scans ?keep)) ?s2 = (Inr (), with_scans ?rows ?s2)"
    by (simp add: ignoreP_run zoomP_def with_scans_def)
  have last: "d_scans (snd (set_vuln_last_pass m d)) = d_scans d" for m d
  proof -
    have "keeps (\<lambda>x. d_scans x = d_scans d) (set_vuln_last_pass m)"
      unfolding set_vuln_last_pass_def update_vuln_def by (intro keeps_intros keeps_exec) (auto simp: table_inv_def)
    from keepsD [OF this] show ?thesis by simp
  qed
  have "d_scans (scan_db (snd (scan_pass env u s))) = ?rows"
    unfolding scan_pass_def bindP_run_Inr [where m = "on_scan_db (active_scanner env)", OF active] option.case
      bindP_run_Inr [where m = "prepare_scanner env sc u", OF ready] bindP_run_Inr [where m = "on_scan_db (scan_targets env)", OF targets]
      bindP_run_Inr [where m = "scan_all env sc built (length ts) 0 ts", OF all(1)]
      bindP_run_Inr [where m = "ignoreP (on_scan_db (prune_image_scans ?keep))", OF prune]
    by (simp add: bindP_run_Inr [where m = "ignoreP (on_scan_db (set_vuln_last_pass (pass_message os)))", OF ignored_scan] okP_def last)
  moreover have "find (\<lambda>x. scan_key x = result_key sc t) ?rows = find (\<lambda>x. scan_key x = result_key sc t) rows" if "t \<in> set ts" for t
  proof -
    have "result_key sc t \<in> set ?keep" using that by (auto simp: result_key_def)
    then show ?thesis by (induction rows) auto
  qed
  ultimately show ?thesis using all(2) by (auto simp: find_scan_def result_key_def image_iff)
qed

definition scan_start :: scan_state where
  "scan_start = \<lparr>vu_app = \<lparr>ap_db = pinned_db\<lparr>d_vuln := Some \<lparr>vs_enabled = True, vs_scanner = ''trivy'', vs_last_pass = None,
       vs_last_msg = ''''\<rparr>\<rparr>, ap_keys = empty_custodian, ap_polls = no_schedules\<rparr>, vu_job = None, vu_phase = '''', vu_err = ''''\<rparr>"

lemma pass_exact_witness:
  "find_scan (scan_db (snd (scan_pass scan_example True scan_start))) (result_key (hd (sv_scanners scan_example)) example_target)
     = Some (stored (scan_db scan_start) (failed_scan (hd (sv_scanners scan_example)) example_target ''down''))"
proof -
  have "quiet scan_start" by (simp add: quiet_def scan_start_def pinned_db_def empty_db_def empty_custodian_def)
  moreover have "fst (active_scanner scan_example (scan_db scan_start)) = Inr (Some (hd (sv_scanners scan_example)))" by code_simp
  moreover have "fst (prepare_scanner scan_example (hd (sv_scanners scan_example)) True scan_start) = Inr ''2026''" by code_simp
  moreover have "fst (scan_targets scan_example (scan_db scan_start)) = Inr [example_target]" by code_simp
  ultimately have "find_scan (scan_db (snd (scan_pass scan_example True scan_start))) (result_key (hd (sv_scanners scan_example)) example_target)
      = result_after scan_example (hd (sv_scanners scan_example)) ''2026'' (ap_keys (vu_app scan_start)) (scan_db scan_start) example_target"
    using pass_exact [of scan_start scan_example "hd (sv_scanners scan_example)" True "''2026''" "[example_target]"] by simp
  moreover have "find_scan (scan_db scan_start) k = None" for k
    by (simp add: find_scan_def scan_start_def pinned_db_def empty_db_def)
  ultimately show ?thesis by (simp add: result_after_def good_result_def scan_example_def)
qed

end
