(* ===== verification/Provider_Pages.thy ===== *)
theory Provider_Pages
  imports Secret_Connections App
begin

text \<open>
  The pages of the secret providers, the forms and handlers of \<^verbatim>\<open>src/secret_connections.go\<close>.  A provider
  that reads through a connection is a record of what the interface \<^verbatim>\<open>Connector\<close> offers: its fields, its
  two validations and its test, which are functions here.
\<close>

section \<open>Providers\<close>

record connector_field =
  fd_name :: string
  fd_default :: string
  fd_credential :: bool
  fd_required :: bool
  fd_input :: string
  fd_options :: "string list"

record connector =
  cn_scheme :: string
  cn_label :: string
  cn_fields :: "connector_field list"
  cn_valid_config :: "(string \<times> string) list \<Rightarrow> unit result"
  cn_valid_creds :: "(string \<times> string) list \<Rightarrow> unit result"
  cn_check :: "effective \<Rightarrow> unit result"
  cn_summary :: "((string \<times> string) list \<Rightarrow> string) option"

text \<open>\<open>pe_connectors\<close> is ordered by scheme; \<open>pe_digest\<close> is that of \<open>new_effective\<close>.\<close>

record provider_env =
  pe_connectors :: "connector list"
  pe_digest :: "string \<Rightarrow> (string \<times> string) list \<Rightarrow> (string \<times> string) list \<Rightarrow> string"

definition connector_for :: "provider_env \<Rightarrow> string \<Rightarrow> connector option" where
  "connector_for env scheme = find (\<lambda>c. cn_scheme c = scheme) (pe_connectors env)"

section \<open>Forms\<close>

record field_view =
  fv_field :: connector_field
  fv_input :: string
  fv_value :: string
  fv_set :: bool
  fv_options :: "(string \<times> bool) list"

definition config_view :: "(string \<times> string) list \<Rightarrow> connector_field \<Rightarrow> field_view" where
  "config_view config f =
     (let v = get_str config (fd_name f); shown = (if v = '''' then fd_default f else v) in
      \<lparr>fv_field = f, fv_input = ''cfg_'' @ fd_name f, fv_value = shown, fv_set = False,
       fv_options = map (\<lambda>o'. (o', o' = shown)) (fd_options f)\<rparr>)"

definition cred_view :: "string list \<Rightarrow> connector_field \<Rightarrow> field_view" where
  "cred_view stored f =
     \<lparr>fv_field = f, fv_input = ''cred_'' @ fd_name f, fv_value = '''', fv_set = (fd_name f \<in> set stored), fv_options = []\<rparr>"

definition field_views :: "connector \<Rightarrow> (string \<times> string) list \<Rightarrow> string list \<Rightarrow> field_view list \<times> field_view list" where
  "field_views cn config stored =
     (map (config_view config) (filter (\<lambda>f. \<not> fd_credential f) (cn_fields cn)),
      map (cred_view stored) (filter fd_credential (cn_fields cn)))"

definition config_from_form :: "request \<Rightarrow> connector \<Rightarrow> (string \<times> string) list" where
  "config_from_form rq cn =
     fold (\<lambda>f config.
         let typed = trim_space (form_value rq (''cfg_'' @ fd_name f)); v = (if typed = '''' then fd_default f else typed) in
         if v = '''' then config else put_assoc (fd_name f) v config)
       (filter (\<lambda>f. \<not> fd_credential f) (cn_fields cn)) []"

definition credentials_from_form :: "request \<Rightarrow> connector \<Rightarrow> (string \<times> string) list" where
  "credentials_from_form rq cn =
     fold (\<lambda>f creds.
         let v = trim_space (form_value rq (''cred_'' @ fd_name f)) in
         if v = '''' then creds else put_assoc (fd_name f) v creds)
       (filter fd_credential (cn_fields cn)) []"

definition connector_summary :: "connector \<Rightarrow> (string \<times> string) list \<Rightarrow> string" where
  "connector_summary cn config =
     (case cn_summary cn of
        Some f \<Rightarrow> f config
      | None \<Rightarrow>
        (case find (\<lambda>f. \<not> fd_credential f \<and> fd_required f) (cn_fields cn) of
           None \<Rightarrow> '''' | Some f \<Rightarrow> get_str config (fd_name f)))"

section \<open>The list\<close>

record provider_row =
  pr_id :: string
  pr_name :: string
  pr_label :: string
  pr_summary :: string
  pr_creds :: bool
  pr_rules :: "string list"
  pr_shared :: "string list"
  pr_own :: "string list"

text \<open>A failed read leaves its part of the row empty.\<close>

definition or_nothing :: "('s, 'a list) prog \<Rightarrow> ('s, 'a list) prog" where
  "or_nothing m = tryP m (\<lambda>_. okP []) okP"

definition rules_or_none :: "(string \<times> string) list \<Rightarrow> string list" where
  "rules_or_none config = (case parse_rules (get_str config path_rules_key) of Inl _ \<Rightarrow> [] | Inr rules \<Rightarrow> rules)"

fun provider_rows :: "provider_env \<Rightarrow> secret_connection list \<Rightarrow> (app_state, provider_row list) prog" where
  "provider_rows env [] = okP []"
| "provider_rows env (c # cs) =
     bindP (or_nothing (on_keys (secret_credential_fields (sc_id c)))) (\<lambda>names.
     bindP (tryP (on_store (secret_connection_users (sc_id c))) (\<lambda>_. okP ([], [])) okP) (\<lambda>(shared, own).
     bindP (provider_rows env cs) (\<lambda>rest.
       okP (\<lparr>pr_id = sc_id c, pr_name = sc_name c,
           pr_label = (case connector_for env (sc_type c) of None \<Rightarrow> sc_type c | Some cn \<Rightarrow> cn_label cn),
           pr_summary = (case connector_for env (sc_type c) of None \<Rightarrow> '''' | Some cn \<Rightarrow> connector_summary cn (sc_config c)),
           pr_creds = (names \<noteq> []), pr_rules = rules_or_none (sc_config c), pr_shared = shared, pr_own = own\<rparr> # rest))))"

definition secret_providers_handler :: "provider_env \<Rightarrow> app_state handler" where
  "secret_providers_handler env c rq =
     tryP (on_store list_global_secret_connections) (http_fail 500) (\<lambda>conns.
     bindP (provider_rows env conns) (\<lambda>_. page ''secret_providers.html''))"

section \<open>Handlers\<close>

definition providers_page :: string where
  "providers_page = ''/settings/secret-providers''"

definition name_advice :: string where
  "name_advice = ''give the connection a name (80 characters at most)''"

definition bad_name :: "string \<Rightarrow> bool" where
  "bad_name name \<longleftrightarrow> name = '''' \<or> length name > 80"

definition new_secret_provider_form_handler :: "provider_env \<Rightarrow> string \<Rightarrow> app_state handler" where
  "new_secret_provider_form_handler env scheme c rq =
     (case connector_for env scheme of None \<Rightarrow> not_found | Some cn \<Rightarrow> page ''secret_provider_form.html'')"

definition create_secret_provider_handler :: "provider_env \<Rightarrow> app_state handler" where
  "create_secret_provider_handler env c rq =
     (case connector_for env (form_value rq ''type'') of
        None \<Rightarrow> http_error 400 ''unknown provider type''
      | Some cn \<Rightarrow>
        let back = providers_page @ ''/new?type='' @ cn_scheme cn; name = trim_space (form_value rq ''name'');
            config = config_from_form rq cn; creds = credentials_from_form rq cn in
        if bad_name name then redirect_with_error back name_advice
        else (case cn_valid_config cn config of
            Inl e \<Rightarrow> redirect_with_error back (error_text e)
          | Inr _ \<Rightarrow>
            (case (if creds = [] then Inr () else cn_valid_creds cn creds) of
               Inl e \<Rightarrow> redirect_with_error back (error_text e)
             | Inr _ \<Rightarrow>
               bindP (on_store draw) (\<lambda>i.
               tryP (on_keys (set_secret_credentials i creds)) (http_fail 500) (\<lambda>_.
               tryP (on_store (create_secret_connection
                   \<lparr>sc_id = i, sc_name = name, sc_type = cn_scheme cn, sc_stack = '''', sc_parent = '''', sc_config = config, sc_created = 0\<rparr>))
                 (\<lambda>_. bindP (ignoreP (on_keys (delete_secret_credentials i)))
                    (\<lambda>_. redirect_with_error back ''could not create the connection (name already taken?)''))
                 (\<lambda>_. audited c ''secrets.connection_create'' name (cn_scheme cn)
                    (redirect_with_saved_message providers_page ''Connection created'')))))))"

text \<open>\<^verbatim>\<open>globalSecretConnection\<close>: a connection of a stack is not found here.\<close>

definition with_global :: "provider_env \<Rightarrow> string \<Rightarrow> (secret_connection \<Rightarrow> connector \<Rightarrow> (app_state, reply) prog) \<Rightarrow> (app_state, reply) prog" where
  "with_global env i f =
     tryP (on_store (get_secret_connection i)) (\<lambda>_. not_found) (\<lambda>conn.
       if sc_stack conn \<noteq> '''' then not_found
       else (case connector_for env (sc_type conn) of
           None \<Rightarrow> http_error 500 ''this connection's provider is not available''
         | Some cn \<Rightarrow> f conn cn))"

definition edit_secret_provider_form_handler :: "provider_env \<Rightarrow> string \<Rightarrow> app_state handler" where
  "edit_secret_provider_form_handler env i c rq =
     with_global env i (\<lambda>conn cn.
       bindP (or_nothing (on_keys (secret_credential_fields (sc_id conn)))) (\<lambda>_.
       bindP (or_nothing (on_store (secret_connection_children (sc_id conn)))) (\<lambda>_. page ''secret_provider_form.html'')))"

definition save_provider :: "connector \<Rightarrow> secret_connection \<Rightarrow> string \<Rightarrow> (string \<times> string) list \<Rightarrow> web_context option \<Rightarrow> (app_state, reply) prog" where
  "save_provider cn conn name config c =
     (let back = providers_page @ ''/'' @ sc_id conn in
      tryP (on_store (update_secret_connection (sc_id conn) name config))
        (\<lambda>_. redirect_with_error back ''could not save (name already taken?)'') (\<lambda>_.
        audited c ''secrets.connection_update'' name (cn_scheme cn) (redirect_with_saved back)))"

definition update_secret_provider_handler :: "provider_env \<Rightarrow> string \<Rightarrow> app_state handler" where
  "update_secret_provider_handler env i c rq =
     with_global env i (\<lambda>conn cn.
       let back = providers_page @ ''/'' @ sc_id conn; name = trim_space (form_value rq ''name'');
           config = config_from_form rq cn; creds = credentials_from_form rq cn in
       if bad_name name then redirect_with_error back name_advice
       else (case cn_valid_config cn config of
           Inl e \<Rightarrow> redirect_with_error back (error_text e)
         | Inr _ \<Rightarrow>
           if form_value rq ''clear_credentials'' \<noteq> '''' then
             tryP (on_keys (delete_secret_credentials (sc_id conn))) (http_fail 500) (\<lambda>_. save_provider cn conn name config c)
           else if creds \<noteq> [] then
             (case cn_valid_creds cn creds of
                Inl e \<Rightarrow> redirect_with_error back (error_text e)
              | Inr _ \<Rightarrow> tryP (on_keys (set_secret_credentials (sc_id conn) creds)) (http_fail 500)
                  (\<lambda>_. save_provider cn conn name config c))
           else save_provider cn conn name config c))"

definition delete_secret_provider_handler :: "provider_env \<Rightarrow> string \<Rightarrow> app_state handler" where
  "delete_secret_provider_handler env i c rq =
     with_global env i (\<lambda>conn cn.
       let back = providers_page @ ''/'' @ sc_id conn in
       tryP (on_store (secret_connection_users (sc_id conn))) (http_fail 500) (\<lambda>(shared, own).
         if shared @ own \<noteq> [] then redirect_with_error back
           (''still used by: '' @ join_with '', '' (shared @ own) @ '' '' @ em_dash @ '' remove it from those stacks first'')
         else tryP (on_keys (delete_secret_credentials (sc_id conn))) (http_fail 500) (\<lambda>_.
           tryP (on_store (delete_secret_connection (sc_id conn))) (http_fail 500) (\<lambda>_.
           audited c ''secrets.connection_delete'' (sc_name conn) (sc_type conn)
             (redirect_with_saved_message providers_page ''Connection deleted'')))))"

text \<open>The custodian is read through \<open>secret_credentials\<close>; its failure is that of the lookup.\<close>

definition effective_now :: "provider_env \<Rightarrow> secret_connection \<Rightarrow> string list \<Rightarrow> (app_state, effective) prog" where
  "effective_now env conn prefs =
     bindP (getP ap_keys) (\<lambda>k. on_store (effective_for (pe_digest env) (\<lambda>i. fst (secret_credentials i k)) conn prefs))"

definition run_connection_check :: "provider_env \<Rightarrow> secret_connection \<Rightarrow> connector \<Rightarrow> string list \<Rightarrow> string \<Rightarrow> web_context option
    \<Rightarrow> (app_state, reply) prog" where
  "run_connection_check env conn cn prefs back c =
     tryP (effective_now env conn prefs) (\<lambda>e. redirect_with_error back (error_text e)) (\<lambda>eff.
       case cn_check cn eff of
         Inl e \<Rightarrow> audited c ''secrets.connection_test'' (sc_name conn) ''failed''
           (redirect_with_error back (''connection test failed: '' @ error_text e))
       | Inr _ \<Rightarrow> audited c ''secrets.connection_test'' (sc_name conn) ''ok''
           (redirect_with_saved_message back (''Connection OK '' @ em_dash @ '' '' @ ef_source eff)))"

definition test_secret_provider_handler :: "provider_env \<Rightarrow> string \<Rightarrow> app_state handler" where
  "test_secret_provider_handler env i c rq =
     with_global env i (\<lambda>conn cn. run_connection_check env conn cn [] providers_page c)"

text \<open>\<^verbatim>\<open>dropLocalConnection\<close>.\<close>

definition drop_local_connection :: "string \<Rightarrow> (app_state, unit) prog" where
  "drop_local_connection i =
     bindP (on_keys (delete_secret_credentials i)) (\<lambda>_. on_store (delete_secret_connection i))"

end
