(* ===== verification/Binding_Pages.thy ===== *)
theory Binding_Pages
  imports Provider_Pages Stack_Pages
begin

text \<open>
  The secret connections of a Git stack, \<^verbatim>\<open>src/stack_secrets.go\<close>: the panel of the stack's page, the form of
  a binding and its handlers.  A binding is to a shared connection, to credentials of the stack's own under
  a shared connection, or to a connection of the stack's own.
\<close>

section \<open>The panel\<close>

definition binding_mode :: "secret_connection \<Rightarrow> (app_state, string \<times> string) prog" where
  "binding_mode conn =
     (if sc_stack conn = '''' then okP (''shared'', sc_name conn)
      else if sc_parent conn \<noteq> '''' then
        tryP (on_store (get_secret_connection (sc_parent conn))) (\<lambda>_. okP (''own'', sc_parent conn)) (\<lambda>p. okP (''own'', sc_name p))
      else okP (''separate'', ''its own connection''))"

definition binding_rules :: "secret_connection \<Rightarrow> string \<Rightarrow> (app_state, string) prog" where
  "binding_rules conn stack =
     bindP (if sc_parent conn \<noteq> '''' then
         tryP (on_store (get_secret_connection (sc_parent conn))) (\<lambda>_. okP (sc_config conn)) (\<lambda>p. okP (sc_config p))
       else okP (sc_config conn)) (\<lambda>config.
     case parse_rules (get_str config path_rules_key) of
       Inl _ \<Rightarrow> okP ''''
     | Inr rules \<Rightarrow> okP (join_with '', '' (expand_rules rules stack)))"

record binding_row =
  bw_type :: string
  bw_label :: string
  bw_connection :: string
  bw_mode :: string
  bw_prefixes :: string
  bw_rules :: string

definition binding_row_of :: "provider_env \<Rightarrow> string \<Rightarrow> secret_binding \<Rightarrow> (app_state, binding_row) prog" where
  "binding_row_of env stack b =
     (let row = (\<lambda>connection mode rules.
          \<lparr>bw_type = sb_type b, bw_label = (case connector_for env (sb_type b) of None \<Rightarrow> sb_type b | Some cn \<Rightarrow> cn_label cn),
           bw_connection = connection, bw_mode = mode, bw_prefixes = join_with '', '' (sb_prefixes b), bw_rules = rules\<rparr>) in
      tryP (on_store (get_secret_connection (sb_connection b))) (\<lambda>_. okP (row ''connection missing'' ''broken'' '''')) (\<lambda>conn.
      bindP (binding_mode conn) (\<lambda>(mode, name).
      bindP (binding_rules conn stack) (\<lambda>rules. okP (row name mode rules)))))"

fun binding_row_list :: "provider_env \<Rightarrow> string \<Rightarrow> secret_binding list \<Rightarrow> (app_state, binding_row list) prog" where
  "binding_row_list env stack [] = okP []"
| "binding_row_list env stack (b # bs) =
     bindP (binding_row_of env stack b) (\<lambda>r. bindP (binding_row_list env stack bs) (\<lambda>rs. okP (r # rs)))"

definition stack_secrets_view :: "provider_env \<Rightarrow> string \<Rightarrow> (app_state, binding_row list \<times> connector list) prog" where
  "stack_secrets_view env stack =
     bindP (or_nothing (on_store (list_secret_bindings stack))) (\<lambda>bs.
     bindP (binding_row_list env stack bs) (\<lambda>rows.
       okP (rows, filter (\<lambda>cn. cn_scheme cn \<notin> set (map sb_type bs)) (pe_connectors env))))"

section \<open>The form\<close>

definition with_binding_target :: "provider_env \<Rightarrow> string \<Rightarrow> string \<Rightarrow> (stack \<Rightarrow> connector \<Rightarrow> (app_state, reply) prog) \<Rightarrow> (app_state, reply) prog" where
  "with_binding_target env i typ f =
     with_stack i (\<lambda>st. case connector_for env typ of
        None \<Rightarrow> not_found
      | Some cn \<Rightarrow> if st_source st \<noteq> ''git'' then not_found else f st cn)"

record global_option =
  go_id :: string
  go_name :: string
  go_selected :: bool
  go_creds :: bool
  go_rules :: "string list"

fun global_options :: "string \<Rightarrow> string \<Rightarrow> secret_connection list \<Rightarrow> (app_state, global_option list) prog" where
  "global_options scheme stack [] = okP []"
| "global_options scheme stack (g # gs) =
     (if sc_type g \<noteq> scheme then global_options scheme stack gs
      else bindP (or_nothing (on_keys (secret_credential_fields (sc_id g)))) (\<lambda>names.
        bindP (global_options scheme stack gs) (\<lambda>rest.
          okP (\<lparr>go_id = sc_id g, go_name = sc_name g, go_selected = False, go_creds = (names \<noteq> []),
            go_rules = expand_rules (rules_or_none (sc_config g)) stack\<rparr> # rest))))"

record binding_form =
  bf_existing :: bool
  bf_mode :: string
  bf_options :: "global_option list"
  bf_prefixes :: string
  bf_fields :: "field_view list \<times> field_view list"

definition select_option :: "string \<Rightarrow> global_option list \<Rightarrow> global_option list" where
  "select_option i = map (\<lambda>o'. o'\<lparr>go_selected := (go_id o' = i)\<rparr>)"

definition binding_form_of :: "string \<Rightarrow> connector \<Rightarrow> global_option list \<Rightarrow> (app_state, binding_form) prog" where
  "binding_form_of stack cn options =
     (let form = (\<lambda>existing mode opts prefs config stored.
          \<lparr>bf_existing = existing, bf_mode = mode, bf_options = opts, bf_prefixes = prefs, bf_fields = field_views cn config stored\<rparr>) in
      tryP (on_store (get_secret_binding stack (cn_scheme cn))) (\<lambda>_. okP (form False ''shared'' options '''' [] [])) (\<lambda>b.
        let prefs = join_with [CHR 0x0A] (sb_prefixes b) in
        tryP (on_store (get_secret_connection (sb_connection b))) (\<lambda>_. okP (form True ''shared'' options prefs [] [])) (\<lambda>conn.
          if sc_stack conn = '''' then okP (form True ''shared'' (select_option (sc_id conn) options) prefs [] [])
          else bindP (or_nothing (on_keys (secret_credential_fields (sc_id conn)))) (\<lambda>stored.
            okP (form True (if sc_parent conn = '''' then ''separate'' else ''own'') (select_option (sc_parent conn) options) prefs
              (sc_config conn) stored)))))"

definition stack_binding_form_handler :: "provider_env \<Rightarrow> string \<Rightarrow> string \<Rightarrow> app_state handler" where
  "stack_binding_form_handler env i typ c rq =
     with_binding_target env i typ (\<lambda>st cn.
       tryP (on_store list_global_secret_connections) (http_fail 500) (\<lambda>globals.
       bindP (global_options (cn_scheme cn) (st_id st) globals) (\<lambda>options.
       bindP (binding_form_of (st_id st) cn options) (\<lambda>_. page ''secret_binding_form.html''))))"

section \<open>Saving\<close>

definition binding_prefixes :: "request \<Rightarrow> string \<Rightarrow> (app_state, string list) prog" where
  "binding_prefixes rq mode =
     bindP (if mode = ''shared'' \<or> mode = ''own'' then
         tryP (on_store (get_secret_connection (form_value rq ''connection_id''))) (\<lambda>_. okP '''')
           (\<lambda>parent. okP (get_str (sc_config parent) path_rules_key))
       else if mode = ''separate'' then okP (form_value rq (''cfg_'' @ path_rules_key)) else okP '''') (\<lambda>text.
     liftP (bind_res (parse_rules text) (\<lambda>rules.
       if rules = [] then normalize_prefixes (form_value rq ''prefixes'')
       else bind_res (parse_prefixes (form_value rq ''prefixes'')) (\<lambda>extras.
         if ''*'' \<in> set extras
         then err_text ''this connection has path rules: list the extra paths this stack may read, not *''
         else Inr extras))))"

text \<open>
  \<^verbatim>\<open>localConnection\<close> answers the request itself when it fails: the reply is on the left.  Credentials typed
  replace the stored group; left empty they keep it while the same connection is edited.
\<close>

definition failed_with :: "(app_state, reply) prog \<Rightarrow> (app_state, reply + 'a) prog" where
  "failed_with m = bindP m (\<lambda>r. okP (Inl r))"

definition store_local :: "connector \<Rightarrow> bool \<Rightarrow> secret_connection \<Rightarrow> (string \<times> string) list option
    \<Rightarrow> (app_state, reply + secret_connection) prog" where
  "store_local cn reuse conn creds =
     tryP (case creds of None \<Rightarrow> okP () | Some m \<Rightarrow> on_keys (set_secret_credentials (sc_id conn) m))
       (\<lambda>e. failed_with (http_fail 500 e)) (\<lambda>_.
     if reuse then okP (Inr conn)
     else tryP (on_store (create_secret_connection conn))
       (\<lambda>e. bindP (ignoreP (on_keys (delete_secret_credentials (sc_id conn)))) (\<lambda>_. failed_with (http_fail 500 e)))
       (\<lambda>_. okP (Inr conn)))"

definition local_connection :: "request \<Rightarrow> stack \<Rightarrow> connector \<Rightarrow> secret_connection option \<Rightarrow> string \<Rightarrow> (string \<times> string) list \<Rightarrow> string
    \<Rightarrow> (app_state, reply + secret_connection) prog" where
  "local_connection rq st cn previous parent config back =
     (let typed = credentials_from_form rq cn;
          reused = (case previous of None \<Rightarrow> None
            | Some p \<Rightarrow> if sc_stack p = st_id st \<and> sc_parent p = parent then Some p else None);
          conn = (\<lambda>i. \<lparr>sc_id = i, sc_name = st_id st @ ''/'' @ cn_scheme cn, sc_type = cn_scheme cn, sc_stack = st_id st,
            sc_parent = parent, sc_config = config, sc_created = 0\<rparr>) in
      bindP (case reused of
          None \<Rightarrow> okP (Some typed)
        | Some p \<Rightarrow>
          if typed \<noteq> [] then okP (Some typed)
          else bindP (or_nothing (on_keys (secret_credential_fields (sc_id p)))) (\<lambda>names.
            okP (if names \<noteq> [] then None else Some typed))) (\<lambda>creds.
      case (case creds of None \<Rightarrow> Inr () | Some m \<Rightarrow> cn_valid_creds cn m) of
        Inl e \<Rightarrow> failed_with (redirect_with_error back (error_text e))
      | Inr _ \<Rightarrow>
        (case reused of
           Some p \<Rightarrow> tryP (on_store (update_secret_connection (sc_id p) (sc_name (conn (sc_id p))) config))
             (\<lambda>e. failed_with (http_fail 500 e)) (\<lambda>_. store_local cn True (conn (sc_id p)) creds)
         | None \<Rightarrow> bindP (on_store draw) (\<lambda>i. store_local cn False (conn i) creds))))"

definition set_binding :: "stack \<Rightarrow> connector \<Rightarrow> string \<Rightarrow> string list \<Rightarrow> secret_connection option \<Rightarrow> web_context option
    \<Rightarrow> secret_connection \<Rightarrow> (app_state, reply) prog" where
  "set_binding st cn mode prefs previous c target =
     (let saved = audited c ''secrets.binding_set'' (st_name st) (cn_scheme cn @ '' ('' @ mode @ ''): '' @ join_with '', '' prefs)
            (redirect_with_saved_message (stack_page (st_id st)) (cn_label cn @ '' connection saved'')) in
      tryP (on_store (set_secret_binding
          \<lparr>sb_stack = st_id st, sb_type = cn_scheme cn, sb_connection = sc_id target, sb_prefixes = prefs\<rparr>)) (http_fail 500) (\<lambda>_.
      case previous of
        None \<Rightarrow> saved
      | Some p \<Rightarrow>
        if sc_stack p \<noteq> '''' \<and> sc_id p \<noteq> sc_id target then tryP (drop_local_connection (sc_id p)) (http_fail 500) (\<lambda>_. saved)
        else saved))"

definition or_reply :: "(app_state, reply + 'a) prog \<Rightarrow> ('a \<Rightarrow> (app_state, reply) prog) \<Rightarrow> (app_state, reply) prog" where
  "or_reply m f = bindP m (\<lambda>x. case x of Inl r \<Rightarrow> okP r | Inr y \<Rightarrow> f y)"

definition previous_connection :: "string \<Rightarrow> string \<Rightarrow> (app_state, secret_connection option) prog" where
  "previous_connection stack typ =
     tryP (on_store (get_secret_binding stack typ)) (\<lambda>_. okP None) (\<lambda>b.
     tryP (on_store (get_secret_connection (sb_connection b))) (\<lambda>_. okP None) (\<lambda>conn. okP (Some conn)))"

text \<open>The two modes under a shared connection, and the switch over the modes.\<close>

definition bind_under :: "request \<Rightarrow> stack \<Rightarrow> connector \<Rightarrow> string \<Rightarrow> string list \<Rightarrow> secret_connection option \<Rightarrow> web_context option
    \<Rightarrow> string \<Rightarrow> secret_connection \<Rightarrow> (app_state, reply) prog" where
  "bind_under rq st cn mode prefs previous c back parent =
     (if sc_stack parent \<noteq> '''' \<or> sc_type parent \<noteq> cn_scheme cn then redirect_with_error back ''choose one of the shared connections''
      else if mode = ''shared'' then
        bindP (or_nothing (on_keys (secret_credential_fields (sc_id parent)))) (\<lambda>names.
          if names = [] then redirect_with_error back ''this connection has no default credentials: give the stack its own''
          else set_binding st cn mode prefs previous c parent)
      else or_reply (local_connection rq st cn previous (sc_id parent) [] back) (set_binding st cn mode prefs previous c))"

definition bind_as :: "request \<Rightarrow> stack \<Rightarrow> connector \<Rightarrow> string \<Rightarrow> string list \<Rightarrow> secret_connection option \<Rightarrow> web_context option
    \<Rightarrow> string \<Rightarrow> (app_state, reply) prog" where
  "bind_as rq st cn mode prefs previous c back =
     (if mode = ''shared'' \<or> mode = ''own'' then
        tryP (on_store (get_secret_connection (form_value rq ''connection_id'')))
          (\<lambda>_. redirect_with_error back ''choose one of the shared connections'') (bind_under rq st cn mode prefs previous c back)
      else if mode = ''separate'' then
        (let config = config_from_form rq cn in
         case cn_valid_config cn config of
           Inl e \<Rightarrow> redirect_with_error back (error_text e)
         | Inr _ \<Rightarrow> or_reply (local_connection rq st cn previous '''' config back) (set_binding st cn mode prefs previous c))
      else redirect_with_error back ''choose how this stack connects'')"

definition save_stack_binding_handler :: "provider_env \<Rightarrow> string \<Rightarrow> string \<Rightarrow> app_state handler" where
  "save_stack_binding_handler env i typ c rq =
     with_binding_target env i typ (\<lambda>st cn.
       let back = stack_page (st_id st) @ ''/secrets/bindings/'' @ cn_scheme cn; mode = form_value rq ''mode'' in
       tryP (binding_prefixes rq mode) (\<lambda>e. redirect_with_error back (error_text e)) (\<lambda>prefs.
       bindP (previous_connection (st_id st) (cn_scheme cn)) (\<lambda>previous.
         bind_as rq st cn mode prefs previous c back)))"

definition delete_stack_binding_handler :: "provider_env \<Rightarrow> string \<Rightarrow> string \<Rightarrow> app_state handler" where
  "delete_stack_binding_handler env i typ c rq =
     with_binding_target env i typ (\<lambda>st cn.
       let gone = audited c ''secrets.binding_remove'' (st_name st) (cn_scheme cn)
             (redirect_with_saved_message (stack_page (st_id st)) (cn_label cn @ '' connection removed'')) in
       tryP (on_store (get_secret_binding (st_id st) (cn_scheme cn)))
         (\<lambda>e. if error_is e ErrNotFound then not_found else http_fail 500 e) (\<lambda>b.
       tryP (on_store (delete_secret_binding (st_id st) (sb_type b))) (http_fail 500) (\<lambda>_.
       tryP (on_store (get_secret_connection (sb_connection b))) (\<lambda>_. gone) (\<lambda>conn.
         if sc_stack conn \<noteq> '''' then tryP (drop_local_connection (sc_id conn)) (http_fail 500) (\<lambda>_. gone) else gone))))"

definition test_stack_binding_handler :: "provider_env \<Rightarrow> string \<Rightarrow> string \<Rightarrow> app_state handler" where
  "test_stack_binding_handler env i typ c rq =
     with_binding_target env i typ (\<lambda>st cn.
       tryP (on_store (get_secret_binding (st_id st) (cn_scheme cn))) (\<lambda>_. not_found) (\<lambda>b.
       tryP (on_store (get_secret_connection (sb_connection b)))
         (\<lambda>_. redirect_with_error (stack_page (st_id st)) ''this stack's connection no longer exists'') (\<lambda>conn.
         run_connection_check env conn cn (sb_prefixes b) (stack_page (st_id st)) c)))"

end
