(* ===== verification/Binding_Rules.thy ===== *)
theory Binding_Rules
  imports Binding_Pages
begin

text \<open>
  What holds of the bindings of all stacks along any administration of providers, bindings and stacks:
  a binding leads to a connection of its type that is shared or the stack's own, and never to one that
  is gone.  Every statement may fail; the only handlers that write the two tables are those here.
\<close>

section \<open>The invariant\<close>

text \<open>\<open>stands\<close>: the connection is still there, with the owner, the parent and the type it was read with.\<close>

definition stands :: "db \<Rightarrow> secret_connection \<Rightarrow> bool" where
  "stands d c \<longleftrightarrow> (\<exists>c'. find_connection d (sc_id c) = Some c' \<and> sc_stack c' = sc_stack c \<and> sc_parent c' = sc_parent c
     \<and> sc_type c' = sc_type c)"

definition shared_of :: "db \<Rightarrow> string \<Rightarrow> string \<Rightarrow> bool" where
  "shared_of d typ g \<longleftrightarrow> (\<exists>c. find_connection d g = Some c \<and> sc_stack c = '''' \<and> sc_type c = typ)"

text \<open>What a binding of a stack may lead to.\<close>

definition fits :: "db \<Rightarrow> string \<Rightarrow> string \<Rightarrow> secret_connection \<Rightarrow> bool" where
  "fits d stack typ c \<longleftrightarrow> stands d c \<and> sc_type c = typ
     \<and> (if sc_stack c = '''' then sc_parent c = '''' else sc_stack c = stack \<and> (sc_parent c = '''' \<or> shared_of d typ (sc_parent c)))"

definition wired :: "db \<Rightarrow> bool" where
  "wired d \<longleftrightarrow> distinct (map sc_id (d_secret_conns d)) \<and> distinct (map (\<lambda>b. (sb_stack b, sb_type b)) (d_bindings d))
     \<and> (\<forall>c\<in>set (d_secret_conns d). sc_stack c = '''' \<longrightarrow> sc_parent c = '''')
     \<and> (\<forall>b\<in>set (d_bindings d). \<exists>c. sc_id c = sb_connection b \<and> fits d (sb_stack b) (sb_type b) c)"

lemma same_conns:
  assumes "d_secret_conns d' = d_secret_conns d"
  shows "find_connection d' = find_connection d" "stands d' = stands d" "shared_of d' = shared_of d" "fits d' = fits d"
proof -
  show f: "find_connection d' = find_connection d" using assms by (intro ext) (simp add: find_connection_def)
  show s: "stands d' = stands d" and h: "shared_of d' = shared_of d"
    by (intro ext, simp add: stands_def shared_of_def f)+
  show "fits d' = fits d" by (intro ext) (simp add: fits_def s h)
qed

lemma wired_same:
  assumes "d_secret_conns d' = d_secret_conns d" and "d_bindings d' = d_bindings d"
  shows "wired d' = wired d"
  unfolding wired_def same_conns(4) [OF assms(1)] assms ..

lemma find_connection_id: "find_connection d i = Some c \<Longrightarrow> sc_id c = i \<and> c \<in> set (d_secret_conns d)"
  by (auto simp: find_connection_def dest: find_in)

lemma find_unique_id:
  assumes "distinct (map sc_id rows)" and "c \<in> set rows"
  shows "find (\<lambda>r. sc_id r = sc_id c) rows = Some c"
  using assms by (induction rows) force+

text \<open>What keeps the identity of every connection keeps what fits.\<close>

lemma fits_mono:
  assumes "\<And>c. stands d c \<Longrightarrow> stands d' c" and "fits d stack typ c"
  shows "fits d' stack typ c"
proof -
  have "shared_of d' typ g" if g: "shared_of d typ g" for g
  proof -
    from g obtain c where c: "find_connection d g = Some c" "sc_stack c = ''''" "sc_type c = typ" by (auto simp: shared_of_def)
    then have "sc_id c = g" using find_connection_id by blast
    with c assms(1) [of c] show ?thesis by (auto simp: stands_def shared_of_def)
  qed
  with assms show ?thesis unfolding fits_def by metis
qed

lemma wired_mono:
  assumes "wired d" and "\<And>c. stands d c \<Longrightarrow> stands d' c" and "d_bindings d' = d_bindings d"
    and "distinct (map sc_id (d_secret_conns d'))"
    and "\<forall>c\<in>set (d_secret_conns d'). sc_stack c = '''' \<longrightarrow> sc_parent c = ''''"
  shows "wired d'"
  unfolding wired_def assms(3)
proof (intro conjI ballI)
  fix b
  assume "b \<in> set (d_bindings d)"
  then obtain c where "sc_id c = sb_connection b" "fits d (sb_stack b) (sb_type b) c"
    using assms(1) by (auto simp: wired_def)
  then show "\<exists>c. sc_id c = sb_connection b \<and> fits d' (sb_stack b) (sb_type b) c"
    using fits_mono [OF assms(2)] by blast
qed (use assms in \<open>simp_all add: wired_def\<close>)

section \<open>Statements\<close>

text \<open>
  What a handler knows while it saves a binding: the connection the stack had, and a shared connection it
  was given as parent (none if empty).
\<close>

definition had :: "db \<Rightarrow> string \<Rightarrow> string \<Rightarrow> secret_connection option \<Rightarrow> bool" where
  "had d stack typ previous \<longleftrightarrow> (case previous of None \<Rightarrow> True
     | Some p \<Rightarrow> (\<exists>b\<in>set (d_bindings d). sb_stack b = stack \<and> sb_type b = typ \<and> sb_connection b = sc_id p) \<and> stands d p)"

definition ready :: "string \<Rightarrow> string \<Rightarrow> secret_connection option \<Rightarrow> string \<Rightarrow> db \<Rightarrow> bool" where
  "ready stack typ previous g d \<longleftrightarrow> wired d \<and> had d stack typ previous \<and> (g = '''' \<or> shared_of d typ g)"

definition ready_for :: "string \<Rightarrow> string \<Rightarrow> secret_connection option \<Rightarrow> string \<Rightarrow> secret_connection \<Rightarrow> db \<Rightarrow> bool" where
  "ready_for stack typ previous g t d \<longleftrightarrow> ready stack typ previous g d \<and> fits d stack typ t"

lemma shared_mono:
  assumes "\<And>c. stands d c \<Longrightarrow> stands d' c" and "shared_of d typ g"
  shows "shared_of d' typ g"
proof -
  from assms(2) obtain c where c: "find_connection d g = Some c" "sc_stack c = ''''" "sc_type c = typ" by (auto simp: shared_of_def)
  then have "sc_id c = g" using find_connection_id by blast
  with c assms(1) [of c] show ?thesis by (auto simp: stands_def shared_of_def)
qed

lemma ready_same:
  assumes "d_secret_conns d' = d_secret_conns d" and "d_bindings d' = d_bindings d"
  shows "ready stack typ previous g d' = ready stack typ previous g d"
    and "ready_for stack typ previous g t d' = ready_for stack typ previous g t d"
proof -
  have "had d' stack typ previous = had d stack typ previous"
    by (cases previous) (simp_all add: had_def same_conns [OF assms(1)] assms(2))
  then show "ready stack typ previous g d' = ready stack typ previous g d"
    and "ready_for stack typ previous g t d' = ready_for stack typ previous g t d"
    by (simp_all add: ready_for_def ready_def wired_same [OF assms] same_conns [OF assms(1)])
qed


text \<open>An invariant of the two tables that only asks for what stands.\<close>

definition standing :: "(db \<Rightarrow> bool) \<Rightarrow> bool" where
  "standing I \<longleftrightarrow> (\<forall>d d'. I d \<longrightarrow> d_secret_conns d' = d_secret_conns d \<longrightarrow> d_bindings d' = d_bindings d \<longrightarrow> I d')
     \<and> (\<forall>d d'. I d \<longrightarrow> (\<forall>c. stands d c \<longrightarrow> stands d' c) \<longrightarrow> d_bindings d' = d_bindings d \<longrightarrow> wired d' \<longrightarrow> I d')
     \<and> (\<forall>d. I d \<longrightarrow> wired d)"

lemma standing_invariants: "standing wired" "standing (ready stack typ previous g)" "standing (ready_for stack typ previous g t)"
proof -
  have h: "had d' stack typ previous" if "had d stack typ previous" "\<And>c. stands d c \<Longrightarrow> stands d' c" "d_bindings d' = d_bindings d" for d d'
    using that by (auto simp: had_def split: option.splits)
  show "standing wired" unfolding standing_def using iffD2 [OF wired_same] by blast
  have mono: "ready stack typ previous g d'"
    if "ready stack typ previous g d" "\<forall>c. stands d c \<longrightarrow> stands d' c" "d_bindings d' = d_bindings d" "wired d'" for d d' g
    using that h [of d d'] shared_mono [of d d' "typ" g] unfolding ready_def by blast
  show "standing (ready stack typ previous g)" unfolding standing_def
  proof (intro conjI allI impI)
    show "ready stack typ previous g d'"
      if "ready stack typ previous g d" "d_secret_conns d' = d_secret_conns d" "d_bindings d' = d_bindings d" for d d'
      using that iffD2 [OF ready_same(1)] by blast
  qed (use mono in blast, simp add: ready_def)
  show "standing (ready_for stack typ previous g t)" unfolding standing_def
  proof (intro conjI allI impI)
    show "ready_for stack typ previous g t d'"
      if "ready_for stack typ previous g t d" "d_secret_conns d' = d_secret_conns d" "d_bindings d' = d_bindings d" for d d'
      using that iffD2 [OF ready_same(2)] by blast
    show "ready_for stack typ previous g t d'"
      if "ready_for stack typ previous g t d" "\<forall>c. stands d c \<longrightarrow> stands d' c" "d_bindings d' = d_bindings d" "wired d'" for d d'
      using that mono [of g d d'] fits_mono [of d d' stack "typ" t] unfolding ready_for_def by blast
  qed (simp add: ready_for_def ready_def)
qed

lemma standing_same: "standing I \<Longrightarrow> I d \<Longrightarrow> d_secret_conns d' = d_secret_conns d \<Longrightarrow> d_bindings d' = d_bindings d \<Longrightarrow> I d'"
  unfolding standing_def by blast

lemma standing_mono: "standing I \<Longrightarrow> I d \<Longrightarrow> (\<And>c. stands d c \<Longrightarrow> stands d' c) \<Longrightarrow> d_bindings d' = d_bindings d \<Longrightarrow> wired d' \<Longrightarrow> I d'"
  unfolding standing_def by blast

lemma standing_wired: "standing I \<Longrightarrow> I d \<Longrightarrow> wired d"
  unfolding standing_def by blast

lemma standing_table: "standing I \<Longrightarrow> table_inv I"
  by (rule table_invI) (auto elim: standing_same)

text \<open>The statements that keep them all: reads, a new connection, another name or configuration.\<close>

lemma keeps_standing_read:
  assumes "standing I"
  shows "keeps I (get_secret_connection i)" "keeps I (get_secret_binding st t)" "keeps I (get_stack i)"
    "keeps I list_global_secret_connections" "keeps I (secret_connection_children i)" "keeps I (secret_connection_users i)"
    "keeps I (secret_connections_for_stack i)" "keeps I (latest_deployment_for_stack i)" "keeps I draw"
  unfolding get_secret_connection_def get_secret_binding_def get_stack_def list_global_secret_connections_def query_connections_def
    secret_connection_children_def secret_connection_users_def secret_connections_for_stack_def latest_deployment_for_stack_def get_deployment_def
  by (intro keeps_intros standing_table assms)+

lemma keeps_standing_audit: "standing I \<Longrightarrow> keeps I (record_audit u a t e)"
  unfolding record_audit_def by (intro keeps_intros keeps_exec standing_table) (auto elim: standing_same)

lemma find_update_id:
  "(\<And>r. sc_id (f r) = sc_id r) \<Longrightarrow>
     find (\<lambda>r. sc_id r = j) (update_where P f rows) = map_option (\<lambda>r. if P r then f r else r) (find (\<lambda>r. sc_id r = j) rows)"
  by (induction rows) (auto simp: update_where_def)

lemma keeps_standing_update:
  assumes "standing I"
  shows "keeps I (update_secret_connection i name config)"
proof -
  let ?f = "\<lambda>r. r\<lparr>sc_name := name, sc_config := config\<rparr>"
  have "I (d_secret_conns_update (update_where (\<lambda>r. sc_id r = i) ?f) d)" if d: "I d" for d
  proof -
    let ?d = "d_secret_conns_update (update_where (\<lambda>r. sc_id r = i) ?f) d"
    have w: "wired d" using assms d by (rule standing_wired)
    have s: "stands ?d c" if "stands d c" for c
    proof -
      from that obtain c' where c': "find_connection d (sc_id c) = Some c'" "sc_stack c' = sc_stack c" "sc_parent c' = sc_parent c"
        "sc_type c' = sc_type c" by (auto simp: stands_def)
      then have "find_connection ?d (sc_id c) = Some (if sc_id c' = i then ?f c' else c')"
        by (simp add: find_connection_def find_update_id)
      with c' show ?thesis by (simp add: stands_def)
    qed
    have "wired ?d"
      by (rule wired_mono [OF w s]) (use w in \<open>auto simp: wired_def map_update_where ball_update_where\<close>)
    with s show ?thesis by (intro standing_mono [OF assms d]) auto
  qed
  then show ?thesis unfolding update_secret_connection_def
    by (intro keeps_some_row keeps_upd_unique standing_table assms)
qed

lemma keeps_standing_create:
  assumes "standing I" and "sc_stack c = '''' \<Longrightarrow> sc_parent c = ''''"
  shows "keeps I (create_secret_connection c)"
proof -
  have "I (d_secret_conns_update (\<lambda>rs. rs @ [c\<lparr>sc_created := now\<rparr>]) d)"
    if d: "I d" and free: "\<forall>r\<in>set (d_secret_conns d). sc_id r \<noteq> sc_id c" for d now
  proof -
    let ?d = "d_secret_conns_update (\<lambda>rs. rs @ [c\<lparr>sc_created := now\<rparr>]) d"
    have w: "wired d" using assms(1) d by (rule standing_wired)
    have s: "stands ?d x" if "stands d x" for x
      using that by (auto simp: stands_def find_connection_def find_append)
    have "wired ?d"
      by (rule wired_mono [OF w s]) (use w assms(2) free in \<open>auto simp: wired_def\<close>)
    with s show ?thesis by (intro standing_mono [OF assms(1) d]) auto
  qed
  then show ?thesis unfolding create_secret_connection_def
    by (intro keeps_unitP keeps_ins standing_table assms) (auto simp: first_clash_None)
qed

lemma create_stands:
  assumes "standing I" and "sc_stack c = '''' \<Longrightarrow> sc_parent c = ''''"
  shows "triple I (create_secret_connection c) (\<lambda>r d. I d \<and> (r = Inr () \<longrightarrow> stands d c))"
proof (rule tripleI)
  fix d r d'
  assume d: "I d" and run: "create_secret_connection c d = (r, d')"
  have "stands d' c" if ok: "r = Inr ()"
  proof -
    from run [unfolded ok create_secret_connection_def unitP_Inr] obtain y where
      i: "ins d_secret_conns d_secret_conns_update
          ((''secret_connections.id'', \<lambda>r. sc_id r = sc_id c) #
           (if sc_stack c = '''' then [(''secret_connections.name'', \<lambda>r. sc_stack r = '''' \<and> sc_name r = sc_name c)] else []))
          (\<lambda>d. c\<lparr>sc_created := d_now d\<rparr>) d = (Inr y, d')" by blast
    then obtain now where free: "\<forall>r\<in>set (d_secret_conns d). sc_id r \<noteq> sc_id c"
        and d': "d_secret_conns d' = d_secret_conns d @ [c\<lparr>sc_created := now\<rparr>]"
      by (cases rule: ins_cases) (auto simp: first_clash_None)
    from free have "find (\<lambda>r. sc_id r = sc_id c) (d_secret_conns d) = None" by (auto simp: find_None_iff)
    with d' show ?thesis by (simp add: stands_def find_connection_def find_append)
  qed
  with keepsE [OF keeps_standing_create [OF assms] d run] show "I d' \<and> (r = Inr () \<longrightarrow> stands d' c)" by blast
qed

text \<open>A connection no binding leads to, directly or as a parent, can go.\<close>

definition unused :: "string \<Rightarrow> db \<Rightarrow> bool" where
  "unused i d \<longleftrightarrow> (\<forall>b\<in>set (d_bindings d). sb_connection b \<noteq> i \<and> (i = '''' \<or> parent_of d (sb_connection b) \<noteq> Some i))"

lemma faults_irrelevant [simp]:
  "wired (d\<lparr>d_faults := fs\<rparr>) = wired d" "unused i (d\<lparr>d_faults := fs\<rparr>) = unused i d"
  by (rule wired_same) (simp_all add: unused_def parent_of_def find_connection_def)

lemma find_delete_other: "i \<noteq> j \<Longrightarrow> find (\<lambda>r. sc_id r = j) (delete_where (\<lambda>r. sc_id r = i) rows) = find (\<lambda>r. sc_id r = j) rows"
  by (induction rows) (auto simp: delete_where_def)

lemma distinct_delete: "distinct (map f rows) \<Longrightarrow> distinct (map f (delete_where P rows))"
  by (induction rows) (auto simp: delete_where_def)

lemma wired_without:
  assumes "wired d" and "unused i d"
  shows "wired (d_secret_conns_update (delete_where (\<lambda>c. sc_id c = i)) d)" (is "wired ?d")
proof -
  have f: "find_connection ?d j = find_connection d j" if "j \<noteq> i" for j
    using that by (simp add: find_connection_def find_delete_other)
  have "\<exists>c. sc_id c = sb_connection b \<and> fits ?d (sb_stack b) (sb_type b) c" if b: "b \<in> set (d_bindings d)" for b
  proof -
    from assms(1) b obtain c where c: "sc_id c = sb_connection b" "fits d (sb_stack b) (sb_type b) c" by (auto simp: wired_def)
    then obtain c' where c': "find_connection d (sb_connection b) = Some c'" "sc_parent c' = sc_parent c"
      by (auto simp: fits_def stands_def)
    have "sb_connection b \<noteq> i" "sc_parent c = '''' \<or> sc_parent c \<noteq> i" using assms(2) b c' by (auto simp: unused_def parent_of_def)
    then have "stands ?d c = stands d c" "sc_parent c = '''' \<or> shared_of ?d (sb_type b) (sc_parent c) = shared_of d (sb_type b) (sc_parent c)"
      using f c(1) by (auto simp: stands_def shared_of_def)
    then have "fits ?d (sb_stack b) (sb_type b) c" using c(2) by (auto simp: fits_def)
    with c(1) show ?thesis by blast
  qed
  then show ?thesis using assms(1) by (simp add: wired_def distinct_delete) (simp add: delete_where_def)
qed

lemma drop_wired: "triple (\<lambda>d. wired d \<and> unused i d) (delete_secret_connection i) (\<lambda>_. wired)"
proof (rule tripleI)
  fix d r d'
  assume d: "wired d \<and> unused i d" and run: "delete_secret_connection i d = (r, d')"
  obtain r1 where "del d_secret_conns d_secret_conns_update (\<lambda>_ c. sc_id c = i) d = (r1, d')"
    using run by (auto simp: delete_secret_connection_def unitP_def bindP_def wrapP_def tryP_def split: prod.splits sum.splits)
  then show "wired d'"
  proof (cases rule: del_cases)
    case (error t fs)
    then show ?thesis using d by simp
  next
    case (run fs)
    with d wired_without [of "d\<lparr>d_faults := fs\<rparr>" i] show ?thesis by simp
  qed
qed

lemma users_unused:
  "triple wired (secret_connection_users g) (\<lambda>r d. wired d \<and> (r = Inr ([], []) \<longrightarrow> unused g d))"
proof (rule tripleI)
  fix d r d'
  assume d: "wired d" and run: "secret_connection_users g d = (r, d')"
  have "unused g d'" if "r = Inr ([], [])"
  proof -
    from run [unfolded that secret_connection_users_def] have "\<exists>fs. d' = d\<lparr>d_faults := fs\<rparr>"
      by (auto simp: bindP_Inr wrapP_def tryP_def split: prod.splits sum.splits dest!: select_state)
    moreover have "unused g d"
      using connection_users [OF run [unfolded that]] by (auto simp: unused_def)
    ultimately show ?thesis by auto
  qed
  with keepsE [OF keeps_standing_read(6) [OF standing_invariants(1)] d run]
  show "wired d' \<and> (r = Inr ([], []) \<longrightarrow> unused g d')" by blast
qed

text \<open>A private connection is only used by the binding of its own stack and type.\<close>

lemma wired_binding:
  assumes "wired d" and "b \<in> set (d_bindings d)"
  obtains c where "find_connection d (sb_connection b) = Some c" "sc_type c = sb_type b"
    "sc_stack c = '''' \<and> sc_parent c = '''' \<or> sc_stack c \<noteq> '''' \<and> sc_stack c = sb_stack b \<and> (sc_parent c = '''' \<or> shared_of d (sb_type b) (sc_parent c))"
  using assms by (auto simp: wired_def fits_def stands_def split: if_splits)

lemma private_unused:
  assumes "wired d" and c: "find_connection d i = Some c" "sc_stack c \<noteq> ''''"
    and only: "\<forall>b\<in>set (d_bindings d). sb_stack b = sc_stack c \<longrightarrow> sb_type b = sc_type c \<longrightarrow> sb_connection b \<noteq> i"
  shows "unused i d"
  unfolding unused_def
proof (intro ballI conjI)
  fix b
  assume b: "b \<in> set (d_bindings d)"
  from wired_binding [OF assms(1) b] obtain x where x: "find_connection d (sb_connection b) = Some x" "sc_type x = sb_type b"
    "sc_stack x = '''' \<and> sc_parent x = '''' \<or> sc_stack x \<noteq> '''' \<and> sc_stack x = sb_stack b \<and> (sc_parent x = '''' \<or> shared_of d (sb_type b) (sc_parent x))"
    by blast
  show "sb_connection b \<noteq> i" using x c only b by auto
  show "i = '''' \<or> parent_of d (sb_connection b) \<noteq> Some i" using x c by (auto simp: parent_of_def shared_of_def)
qed

lemma upserted_bindings:
  assumes "distinct (map (\<lambda>b. (sb_stack b, sb_type b)) rows)"
  shows "distinct (map (\<lambda>b. (sb_stack b, sb_type b))
      (if list_ex (binding_key st t) rows then update_where (binding_key st t) (\<lambda>r. r\<lparr>sb_connection := i, sb_prefixes := ps\<rparr>) rows
       else rows @ [\<lparr>sb_stack = st, sb_type = t, sb_connection = i, sb_prefixes = ps\<rparr>]))"
    and "b \<in> set (if list_ex (binding_key st t) rows
          then update_where (binding_key st t) (\<lambda>r. r\<lparr>sb_connection := i, sb_prefixes := ps\<rparr>) rows
          else rows @ [\<lparr>sb_stack = st, sb_type = t, sb_connection = i, sb_prefixes = ps\<rparr>]) \<Longrightarrow>
      sb_stack b = st \<and> sb_type b = t \<and> sb_connection b = i \<or> b \<in> set rows \<and> \<not> (sb_stack b = st \<and> sb_type b = t)"
proof -
  have "distinct (map (\<lambda>b. (sb_stack b, sb_type b)) (update_where (binding_key st t) (\<lambda>r. r\<lparr>sb_connection := i, sb_prefixes := ps\<rparr>) rows))"
    using assms by (simp add: map_update_where binding_key_def)
  then show "distinct (map (\<lambda>b. (sb_stack b, sb_type b))
      (if list_ex (binding_key st t) rows then update_where (binding_key st t) (\<lambda>r. r\<lparr>sb_connection := i, sb_prefixes := ps\<rparr>) rows
       else rows @ [\<lparr>sb_stack = st, sb_type = t, sb_connection = i, sb_prefixes = ps\<rparr>]))"
    using assms by (auto simp: binding_key_def list_ex_iff)
next
  assume b: "b \<in> set (if list_ex (binding_key st t) rows
          then update_where (binding_key st t) (\<lambda>r. r\<lparr>sb_connection := i, sb_prefixes := ps\<rparr>) rows
          else rows @ [\<lparr>sb_stack = st, sb_type = t, sb_connection = i, sb_prefixes = ps\<rparr>])"
  show "sb_stack b = st \<and> sb_type b = t \<and> sb_connection b = i \<or> b \<in> set rows \<and> \<not> (sb_stack b = st \<and> sb_type b = t)"
  proof (cases "list_ex (binding_key st t) rows")
    case True
    with b obtain r where r: "r \<in> set rows" and e: "b = (if binding_key st t r then r\<lparr>sb_connection := i, sb_prefixes := ps\<rparr> else r)"
      by (auto simp: in_update_where)
    show ?thesis unfolding e using r by (simp add: binding_key_def)
  next
    case False
    then have none: "\<not> (sb_stack x = st \<and> sb_type x = t)" if "x \<in> set rows" for x
      using that by (auto simp: list_ex_iff binding_key_def)
    from False b have "b \<in> set rows \<or> b = \<lparr>sb_stack = st, sb_type = t, sb_connection = i, sb_prefixes = ps\<rparr>" by auto
    with none show ?thesis by auto
  qed
qed

lemma set_binding_wired:
  "triple (ready_for stack typ previous g t) (set_secret_binding \<lparr>sb_stack = stack, sb_type = typ, sb_connection = sc_id t, sb_prefixes = ps\<rparr>)
     (\<lambda>r d. wired d \<and> (\<forall>p. r = Inr () \<longrightarrow> previous = Some p \<longrightarrow> sc_stack p \<noteq> '''' \<longrightarrow> sc_id p \<noteq> sc_id t \<longrightarrow> unused (sc_id p) d))"
  (is "triple _ (set_secret_binding ?b) _")
proof (rule tripleI)
  fix d r d'
  assume d: "ready_for stack typ previous g t d" and run: "set_secret_binding ?b d = (r, d')"
  have w: "wired d" and h: "had d stack typ previous" and t: "fits d stack typ t"
    using d by (simp_all add: ready_for_def ready_def)
  let ?rows = "if list_ex (binding_key stack typ) (d_bindings d)
      then update_where (binding_key stack typ) (\<lambda>r. r\<lparr>sb_connection := sc_id t, sb_prefixes := ps\<rparr>) (d_bindings d)
      else d_bindings d @ [?b]"
  consider (error) e fs where "r = Inl e" "d' = d\<lparr>d_faults := fs\<rparr>" | (wrote) "r = Inr ()" "d_secret_conns d' = d_secret_conns d" "d_bindings d' = ?rows"
    using run by (auto simp: set_secret_binding_def unitP_def bindP_def wrapP_def tryP_def ups_def
        split: prod.splits sum.splits elim!: exec_cases)
  then show "wired d' \<and> (\<forall>p. r = Inr () \<longrightarrow> previous = Some p \<longrightarrow> sc_stack p \<noteq> '''' \<longrightarrow> sc_id p \<noteq> sc_id t \<longrightarrow> unused (sc_id p) d')"
  proof cases
    case error
    with w show ?thesis by simp
  next
    case wrote
    have same: "find_connection d' = find_connection d" "stands d' = stands d" "shared_of d' = shared_of d" "fits d' = fits d"
      by (rule same_conns [OF wrote(2)])+
    have keys: "distinct (map (\<lambda>b. (sb_stack b, sb_type b)) ?rows)"
      and rows: "\<And>b. b \<in> set ?rows \<Longrightarrow> sb_stack b = stack \<and> sb_type b = typ \<and> sb_connection b = sc_id t \<or> b \<in> set (d_bindings d) \<and> \<not> (sb_stack b = stack \<and> sb_type b = typ)"
      using upserted_bindings [of "d_bindings d"] w unfolding wired_def by blast+
    have "wired d'" unfolding wired_def
    proof (intro conjI ballI)
      fix b
      assume "b \<in> set (d_bindings d')"
      then have "b \<in> set ?rows" by (simp add: wrote(3))
      from rows [OF this] t w show "\<exists>c. sc_id c = sb_connection b \<and> fits d' (sb_stack b) (sb_type b) c"
        unfolding same wired_def by metis
    qed (use w keys in \<open>auto simp: wrote(2,3) wired_def\<close>)
    moreover have "unused (sc_id p) d'" if p: "previous = Some p" "sc_stack p \<noteq> ''''" "sc_id p \<noteq> sc_id t" for p
    proof -
      from h p(1) obtain b0 p' where b0: "b0 \<in> set (d_bindings d)" "sb_stack b0 = stack" "sb_type b0 = typ" "sb_connection b0 = sc_id p"
        and p': "find_connection d (sc_id p) = Some p'" "sc_stack p' = sc_stack p" by (auto simp: had_def stands_def)
      have "sc_stack p' = stack" "sc_type p' = typ"
        using wired_binding [OF w b0(1)] b0 p' p(2) by (auto split: if_splits)
      then show ?thesis
      proof (intro private_unused [OF \<open>wired d'\<close>])
        show "find_connection d' (sc_id p) = Some p'" by (simp add: same p')
        show "\<forall>b\<in>set (d_bindings d'). sb_stack b = sc_stack p' \<longrightarrow> sb_type b = sc_type p' \<longrightarrow> sb_connection b \<noteq> sc_id p"
        proof (intro ballI impI)
          fix b
          assume "b \<in> set (d_bindings d')" and k: "sb_stack b = sc_stack p'" "sb_type b = sc_type p'"
          then have "b \<in> set ?rows" by (simp add: wrote(3))
          from rows [OF this] k p(3) \<open>sc_stack p' = stack\<close> \<open>sc_type p' = typ\<close> show "sb_connection b \<noteq> sc_id p" by auto
        qed
      qed (use p(2) p' in simp)
    qed
    ultimately show ?thesis by blast
  qed
qed

text \<open>Removing a binding leaves its private connection to no one.\<close>

definition owned :: "db \<Rightarrow> string \<Rightarrow> string \<Rightarrow> string \<Rightarrow> bool" where
  "owned d stack typ i \<longleftrightarrow> (\<forall>c. find_connection d i = Some c \<longrightarrow> sc_stack c = '''' \<or> sc_stack c = stack \<and> sc_type c = typ)"

lemma delete_binding_wired:
  "triple (\<lambda>d. wired d \<and> owned d stack typ i) (delete_secret_binding stack typ)
     (\<lambda>r d. wired d \<and> (r = Inr () \<longrightarrow> owned d stack typ i \<and> (\<forall>b\<in>set (d_bindings d). \<not> (sb_stack b = stack \<and> sb_type b = typ))))"
proof (rule tripleI)
  fix d r d'
  assume d: "wired d \<and> owned d stack typ i" and run: "delete_secret_binding stack typ d = (r, d')"
  consider (error) e fs where "r = Inl e" "d' = d\<lparr>d_faults := fs\<rparr>"
    | (wrote) "r = Inr ()" "d_secret_conns d' = d_secret_conns d" "d_bindings d' = delete_where (binding_key stack typ) (d_bindings d)"
    using run by (auto simp: delete_secret_binding_def unitP_def bindP_def wrapP_def tryP_def
        split: prod.splits sum.splits elim!: del_cases)
  then show "wired d' \<and> (r = Inr () \<longrightarrow> owned d' stack typ i \<and> (\<forall>b\<in>set (d_bindings d'). \<not> (sb_stack b = stack \<and> sb_type b = typ)))"
  proof cases
    case error
    with d show ?thesis by simp
  next
    case wrote
    have "wired d'" unfolding wired_def same_conns [OF wrote(2)] wrote(2,3)
    proof (intro conjI ballI)
      fix b
      assume "b \<in> set (delete_where (binding_key stack typ) (d_bindings d))"
      then show "\<exists>c. sc_id c = sb_connection b \<and> fits d (sb_stack b) (sb_type b) c"
        using d by (simp add: wired_def delete_where_def)
    qed (use d in \<open>simp_all add: wired_def distinct_delete\<close>)
    then show ?thesis using d by (simp add: owned_def same_conns [OF wrote(2)] wrote(3) delete_where_def binding_key_def)
  qed
qed

lemma find_delete_stack:
  assumes "find (\<lambda>r. sc_id r = j) rows = Some c" and "sc_stack c \<noteq> i" and "distinct (map sc_id rows)"
  shows "find (\<lambda>r. sc_id r = j) (filter (\<lambda>c. sc_stack c \<noteq> i) rows) = Some c"
  using assms by (induction rows) (auto simp: find_None_iff split: if_splits)

lemma keeps_wired_delete_stack:
  assumes "i \<noteq> ''''"
  shows "keeps wired (delete_stack i)"
proof (rule keepsI)
  fix d
  assume w: "wired d"
  obtain r d' where run: "delete_stack i d = (r, d')" by (metis surj_pair)
  show "wired (snd (delete_stack i d))"
  proof (cases r)
    case (Inl e)
    then have "same_tables d d'" using delete_stack_complete [of d i] run by simp
    then have "d_secret_conns d' = d_secret_conns d" "d_bindings d' = d_bindings d"
      unfolding same_tables_def by (metis db.select_convs db.surjective db.update_convs)+
    with w run show ?thesis by (simp add: wired_same [of d' d])
  next
    case (Inr u)
    then have b': "d_bindings d' = filter (\<lambda>b. sb_stack b \<noteq> i) (d_bindings d)"
      and c': "d_secret_conns d' = filter (\<lambda>c. sc_stack c \<noteq> i) (d_secret_conns d)"
      using delete_stack_complete [of d i] run by simp_all
    have ids: "distinct (map sc_id (d_secret_conns d))" using w by (simp add: wired_def)
    have f: "find_connection d' j = Some c" if "find_connection d j = Some c" "sc_stack c \<noteq> i" for j c
      using find_delete_stack [OF _ that(2) ids, of j] that(1) by (simp add: find_connection_def c')
    have "\<exists>c. sc_id c = sb_connection b \<and> fits d' (sb_stack b) (sb_type b) c"
      if b: "b \<in> set (d_bindings d)" "sb_stack b \<noteq> i" for b
    proof -
      from wired_binding [OF w b(1)] obtain c where c: "find_connection d (sb_connection b) = Some c" "sc_type c = sb_type b"
        and o: "sc_stack c = '''' \<and> sc_parent c = '''' \<or> sc_stack c \<noteq> '''' \<and> sc_stack c = sb_stack b \<and> (sc_parent c = '''' \<or> shared_of d (sb_type b) (sc_parent c))"
        by blast
      have "sc_stack c \<noteq> i" using o b(2) assms by auto
      then have "find_connection d' (sb_connection b) = Some c" using f c(1) by blast
      moreover have "sc_id c = sb_connection b" using find_connection_id c(1) by blast
      moreover have "shared_of d' (sb_type b) g" if "shared_of d (sb_type b) g" for g
        using that f assms by (auto simp: shared_of_def)
      ultimately show ?thesis using o c(2) by (intro exI [of _ c]) (auto simp: fits_def stands_def)
    qed
    then have "wired d'" using w unfolding wired_def b' c' by (auto simp: distinct_map_filter)
    with run show ?thesis by simp
  qed
qed

section \<open>Handlers\<close>

abbreviation wired_app :: "app_state \<Rightarrow> bool" where
  "wired_app s \<equiv> wired (ap_db s)"

lemma triple_on_store: "triple P m Q \<Longrightarrow> triple (\<lambda>s. P (ap_db s)) (on_store m) (\<lambda>r s. Q r (ap_db s))"
  by (fastforce simp: triple_def zoomP_def split: prod.splits)

lemma triple_db_keys: "triple (\<lambda>s. P (ap_db s)) (on_keys m) (\<lambda>_ s. P (ap_db s))"
  by (auto simp: triple_def zoomP_def split: prod.splits)

lemma keeps_standing_app:
  assumes "standing I"
  shows "keeps (\<lambda>s. I (ap_db s)) (on_store (get_secret_connection i))" "keeps (\<lambda>s. I (ap_db s)) (on_store (get_secret_binding st t))"
    "keeps (\<lambda>s. I (ap_db s)) (on_store (get_stack i))" "keeps (\<lambda>s. I (ap_db s)) (on_store (secret_connections_for_stack i))"
    "keeps (\<lambda>s. I (ap_db s)) (on_store (latest_deployment_for_stack i))" "keeps (\<lambda>s. I (ap_db s)) (on_store draw)"
    "keeps (\<lambda>s. I (ap_db s)) (on_store (update_secret_connection i name config))"
    "keeps (\<lambda>s. I (ap_db s)) nxt \<Longrightarrow> keeps (\<lambda>s. I (ap_db s)) (audited c act target detail nxt)"
  by (intro keeps_on_store keeps_standing_read keeps_standing_update keeps_audited keeps_standing_audit assms; assumption)+

lemmas wired_statements [keeps_intros] = keeps_standing_read [OF standing_invariants(1)]
  keeps_standing_update [OF standing_invariants(1)] keeps_standing_audit [OF standing_invariants(1)]

lemma keeps_or_nothing [keeps_intros]: "keeps I m \<Longrightarrow> keeps I (or_nothing m)"
  unfolding or_nothing_def by (intro keeps_intros)

lemma drop_kept: "triple (\<lambda>s. wired_app s \<and> unused i (ap_db s)) (drop_local_connection i) (\<lambda>_. wired_app)"
  unfolding drop_local_connection_def
proof (rule triple_bindP)
  show "triple (\<lambda>s. wired_app s \<and> unused i (ap_db s)) (on_keys (delete_secret_credentials i)) (\<lambda>_ s. wired_app s \<and> unused i (ap_db s))"
    by (rule triple_db_keys [where P = "\<lambda>d. wired d \<and> unused i d"])
  show "triple (\<lambda>s. wired_app s \<and> unused i (ap_db s)) (on_store (delete_secret_connection i)) (\<lambda>_. wired_app)"
    by (rule triple_on_store [OF drop_wired])
qed simp

lemma keeps_with_global [keeps_intros]:
  "(\<And>conn cn. keeps wired_app (f conn cn)) \<Longrightarrow> keeps wired_app (with_global env i f)"
  unfolding with_global_def by (intro keeps_intros)

lemma wired_provider_handlers:
  "keeps wired_app (create_secret_provider_handler env c rq)" "keeps wired_app (update_secret_provider_handler env i c rq)"
proof -
  show "keeps wired_app (create_secret_provider_handler env c rq)"
    unfolding create_secret_provider_handler_def Let_def
    by (intro keeps_intros keeps_standing_create standing_invariants) simp
  show "keeps wired_app (update_secret_provider_handler env i c rq)"
    unfolding update_secret_provider_handler_def save_provider_def Let_def by (intro keeps_intros)
qed

lemma wired_delete_provider: "keeps wired_app (delete_secret_provider_handler env i c rq)"
proof -
  have drop: "keeps wired_app (tryP (on_store (secret_connection_users g)) (http_fail 500) (\<lambda>(shared, own).
      if shared @ own \<noteq> [] then redirect_with_error pg (msg shared own)
      else tryP (on_keys (delete_secret_credentials g)) (http_fail 500) (\<lambda>_.
        tryP (on_store (delete_secret_connection g)) (http_fail 500) (\<lambda>_.
          audited c ''secrets.connection_delete'' name kind (redirect_with_saved_message page' done_text)))))" for g pg msg name kind page' done_text
    unfolding triple_keeps
  proof (rule triple_tryP [OF triple_on_store [OF users_unused]], goal_cases)
    case (1 e)
    show ?case by (auto simp: triple_def answer_defs)
  next
    case (2 x)
    obtain shared own where x: "x = (shared, own)" by (cases x)
    show ?case
    proof (cases "shared @ own = []")
      case True
      have "triple (\<lambda>s. wired_app s \<and> unused g (ap_db s)) (tryP (on_keys (delete_secret_credentials g)) (http_fail 500) (\<lambda>_.
        tryP (on_store (delete_secret_connection g)) (http_fail 500) (\<lambda>_.
          audited c ''secrets.connection_delete'' name kind (redirect_with_saved_message page' done_text)))) (\<lambda>_. wired_app)"
      proof (rule triple_tryP [OF triple_db_keys [where P = "\<lambda>d. wired d \<and> unused g d"]], goal_cases)
        case (1 e)
        show ?case by (auto simp: triple_def answer_defs)
      next
        case (2 x)
        have "keeps wired_app (audited c ''secrets.connection_delete'' name kind (redirect_with_saved_message page' done_text))"
          by (intro keeps_intros)
        then show ?case
          by (intro triple_tryP [OF triple_on_store [OF drop_wired]]) (auto simp: triple_keeps answer_defs triple_def)
      qed
      with True x show ?thesis by simp
    next
      case False
      with x show ?thesis by (auto simp: triple_def answer_defs)
    qed
  qed
  show ?thesis unfolding delete_secret_provider_handler_def Let_def by (intro keeps_intros drop)
qed

text \<open>Saving a binding: what the steps before the write establish.\<close>

lemma ready_app:
  "keeps (\<lambda>s. ready stack typ previous g (ap_db s)) m \<Longrightarrow> triple (\<lambda>s. ready stack typ previous g (ap_db s)) m (\<lambda>_. wired_app)"
  unfolding triple_keeps by (erule triple_weaken) (auto simp: ready_def)

lemma previous_ready:
  "triple wired_app (previous_connection stack typ) (\<lambda>r s. wired_app s \<and> (\<forall>v. r = Inr v \<longrightarrow> ready stack typ v '''' (ap_db s)))"
proof (rule tripleI)
  fix s r s'
  assume w: "wired_app s" and run: "previous_connection stack typ s = (r, s')"
  have "keeps wired_app (previous_connection stack typ)" unfolding previous_connection_def by (intro keeps_intros)
  then have w': "wired_app s'" using w run by (rule keepsE)
  have "had (ap_db s') stack typ v" if v: "r = Inr v" for v
  proof (cases v)
    case (Some p)
    with run v obtain b s1 where b: "on_store (get_secret_binding stack typ) s = (Inr b, s1)"
      and p: "on_store (get_secret_connection (sb_connection b)) s1 = (Inr p, s')"
      by (auto simp: previous_connection_def tryP_def split: prod.splits sum.splits)
    from b obtain d1 where b1: "get_secret_binding stack typ (ap_db s) = (Inr b, d1)" "ap_db s1 = d1"
      by (auto simp: zoomP_def split: prod.splits)
    from p obtain d2 where p1: "get_secret_connection (sb_connection b) (ap_db s1) = (Inr p, d2)" "ap_db s' = d2"
      by (auto simp: zoomP_def split: prod.splits)
    from get_secret_binding_Inr [OF b1(1)] have fb: "b \<in> set (d_bindings (ap_db s))" "sb_stack b = stack" "sb_type b = typ"
      by (auto simp: binding_key_def dest: find_in)
    obtain fs gs where d: "d1 = (ap_db s)\<lparr>d_faults := fs\<rparr>" "d2 = d1\<lparr>d_faults := gs\<rparr>"
      using get_secret_binding_Inr(2) [OF b1(1)] get_secret_connection_Inr(2) [OF p1(1)] b1(2) by auto
    have f: "find_connection d1 (sb_connection b) = Some p" using get_secret_connection_Inr(1) [OF p1(1)] b1(2) by simp
    then have "sc_id p = sb_connection b" using find_connection_id by blast
    with f fb show ?thesis by (auto simp: had_def Some stands_def p1(2) d find_connection_def)
  qed (simp add: had_def)
  with w' show "wired_app s' \<and> (\<forall>v. r = Inr v \<longrightarrow> ready stack typ v '''' (ap_db s'))" by (simp add: ready_def)
qed

lemma read_connection:
  assumes "standing I"
  shows "triple (\<lambda>s. I (ap_db s)) (on_store (get_secret_connection i))
     (\<lambda>r s. I (ap_db s) \<and> (\<forall>c. r = Inr c \<longrightarrow> find_connection (ap_db s) i = Some c \<and> sc_id c = i))"
proof (rule tripleI)
  fix s r s'
  assume i: "I (ap_db s)" and run: "on_store (get_secret_connection i) s = (r, s')"
  have "I (ap_db s')" using keepsE [OF keeps_standing_app(1) [OF assms] i run] .
  moreover have "find_connection (ap_db s') i = Some c \<and> sc_id c = i" if "r = Inr c" for c
  proof -
    from run that obtain d where d: "get_secret_connection i (ap_db s) = (Inr c, d)" "ap_db s' = d"
      by (auto simp: zoomP_def split: prod.splits)
    from get_secret_connection_Inr [OF d(1)] d(2) have "find_connection (ap_db s') i = Some c"
      by (auto simp: find_connection_def)
    with find_connection_id show ?thesis by blast
  qed
  ultimately show "I (ap_db s') \<and> (\<forall>c. r = Inr c \<longrightarrow> find_connection (ap_db s') i = Some c \<and> sc_id c = i)" by blast
qed

lemma store_local_kept:
  assumes "reuse \<Longrightarrow> P = (\<lambda>d. ready_for stack typ previous g conn d)" and "\<not> reuse \<Longrightarrow> P = ready stack typ previous g"
    and "sc_type conn = typ" "sc_stack conn = stack" "sc_parent conn = g" "stack \<noteq> ''''"
  shows "triple (\<lambda>s. P (ap_db s)) (store_local cn reuse conn creds)
     (\<lambda>r s. wired_app s \<and> (\<forall>t. r = Inr (Inr t) \<longrightarrow> ready_for stack typ previous g t (ap_db s)))"
proof -
  have weak: "ready_for stack typ previous g t d \<Longrightarrow> wired d" "ready stack typ previous g d \<Longrightarrow> wired d" for t d
    by (simp_all add: ready_for_def ready_def)
  have P: "P d \<Longrightarrow> wired d" for d using assms(1,2) weak by (cases reuse) auto
  have keys: "triple (\<lambda>s. P (ap_db s)) (case creds of None \<Rightarrow> okP () | Some m \<Rightarrow> on_keys (set_secret_credentials (sc_id conn) m)) (\<lambda>_ s. P (ap_db s))"
    by (cases creds) (auto simp: triple_db_keys intro: triple_okP)
  have fail: "triple (\<lambda>s. wired_app s) (failed_with (http_fail 500 e) :: (app_state, reply + secret_connection) prog)
      (\<lambda>r s. wired_app s \<and> (\<forall>t. r = Inr (Inr t) \<longrightarrow> ready_for stack typ previous g t (ap_db s)))" for e
    by (auto simp: triple_def failed_with_def answer_defs)
  show ?thesis unfolding store_local_def
  proof (rule triple_tryP [OF keys], goal_cases)
    case (1 e)
    show ?case by (rule triple_weaken [OF fail]) (auto simp: P)
  next
    case (2 u)
    show ?case
    proof (cases reuse)
      case True
      with assms(1) show ?thesis by (auto simp: triple_def weak)
    next
      case False
      have cr: "triple (\<lambda>s. P (ap_db s)) (on_store (create_secret_connection conn))
          (\<lambda>r s. P (ap_db s) \<and> (r = Inr () \<longrightarrow> stands (ap_db s) conn))"
        using assms False by (intro triple_on_store [OF create_stands]) (simp_all add: standing_invariants)
      have un: "triple (\<lambda>s. P (ap_db s)) (ignoreP (on_keys (delete_secret_credentials (sc_id conn)))) (\<lambda>_ s. P (ap_db s))"
        unfolding triple_keeps [symmetric] by (intro keeps_ignoreP) (simp add: triple_keeps triple_db_keys)
      have "triple (\<lambda>s. P (ap_db s)) (tryP (on_store (create_secret_connection conn))
         (\<lambda>e. bindP (ignoreP (on_keys (delete_secret_credentials (sc_id conn)))) (\<lambda>_. failed_with (http_fail 500 e)))
         (\<lambda>_. okP (Inr conn))) (\<lambda>r s. wired_app s \<and> (\<forall>t. r = Inr (Inr t) \<longrightarrow> ready_for stack typ previous g t (ap_db s)))"
      proof (rule triple_tryP [OF cr], goal_cases)
        case (1 e)
        show ?case
          by (rule triple_bindP [OF triple_weaken [OF un]]) (auto simp: P intro: triple_weaken [OF fail])
      next
        case (2 v)
        have "fits d stack typ conn" if "P d" "stands d conn" for d
          using that assms False by (auto simp: fits_def ready_def)
        then show ?case using assms(2) False P by (auto simp: triple_def ready_for_def)
      qed
      with False show ?thesis by simp
    qed
  qed
qed

lemma local_connection_kept:
  assumes "st_id st \<noteq> ''''" and "cn_scheme cn = typ"
  shows "triple (\<lambda>s. ready (st_id st) typ previous g (ap_db s)) (local_connection rq st cn previous g config pg)
     (\<lambda>r s. wired_app s \<and> (\<forall>t. r = Inr (Inr t) \<longrightarrow> ready_for (st_id st) typ previous g t (ap_db s)))"
proof -
  let ?Q = "\<lambda>r s. wired_app s \<and> (\<forall>t. r = Inr (Inr t :: reply + secret_connection) \<longrightarrow> ready_for (st_id st) typ previous g t (ap_db s))"
  let ?I = "ready (st_id st) typ previous g"
  have w: "ready (st_id st) typ previous g d \<Longrightarrow> wired d" for d by (simp add: ready_def)
  define conn where "conn i = \<lparr>sc_id = i, sc_name = st_id st @ ''/'' @ cn_scheme cn, sc_type = cn_scheme cn, sc_stack = st_id st,
      sc_parent = g, sc_config = config, sc_created = 0\<rparr>" for i
  define reused where "reused = (case previous of None \<Rightarrow> None
      | Some p \<Rightarrow> if sc_stack p = st_id st \<and> sc_parent p = g then Some p else None)"
  have fail: "triple (\<lambda>s. ?I (ap_db s)) (failed_with (http_fail 500 e)) ?Q"
    "triple (\<lambda>s. ?I (ap_db s)) (failed_with (redirect_with_error pg t)) ?Q" for e t
    by (auto simp: triple_def failed_with_def answer_defs w)
  have rest: "triple (\<lambda>s. ?I (ap_db s)) (case (case creds of None \<Rightarrow> Inr () | Some m \<Rightarrow> cn_valid_creds cn m) of
      Inl e \<Rightarrow> failed_with (redirect_with_error pg (error_text e))
    | Inr _ \<Rightarrow> (case reused of
         Some p \<Rightarrow> tryP (on_store (update_secret_connection (sc_id p) (sc_name (conn (sc_id p))) config))
           (\<lambda>e. failed_with (http_fail 500 e)) (\<lambda>_. store_local cn True (conn (sc_id p)) creds)
       | None \<Rightarrow> bindP (on_store draw) (\<lambda>i. store_local cn False (conn i) creds))) ?Q" for creds
  proof (cases "case creds of None \<Rightarrow> Inr () | Some m \<Rightarrow> cn_valid_creds cn m")
    case (Inl e)
    then show ?thesis by (simp add: fail)
  next
    case (Inr u)
    show ?thesis
    proof (cases reused)
      case None
      have "triple (\<lambda>s. ?I (ap_db s)) (bindP (on_store draw) (\<lambda>i. store_local cn False (conn i) creds)) ?Q"
      proof (rule triple_bindP)
        show "triple (\<lambda>s. ?I (ap_db s)) (on_store draw) (\<lambda>_ s. ?I (ap_db s))"
          using keeps_standing_app(6) [OF standing_invariants(2)] by (simp add: triple_keeps)
        show "triple (\<lambda>s. ?I (ap_db s)) (store_local cn False (conn i) creds) ?Q" for i
          by (rule store_local_kept) (use assms in \<open>simp_all add: conn_def\<close>)
      qed (simp add: w)
      with None Inr show ?thesis by simp
    next
      case (Some p)
      then have p: "previous = Some p" "sc_stack p = st_id st" "sc_parent p = g"
        by (auto simp: reused_def split: option.splits if_splits)
      have fit: "fits d (st_id st) typ (conn (sc_id p))" if r: "?I d" for d
      proof -
        from r p(1) have s: "stands d p" and w': "wired d" and g: "g = '''' \<or> shared_of d typ g" by (simp_all add: ready_def had_def)
        from r p(1) obtain b where b: "b \<in> set (d_bindings d)" "sb_type b = typ" "sb_connection b = sc_id p"
          by (auto simp: ready_def had_def)
        obtain c' where c': "find_connection d (sc_id p) = Some c'" "sc_type c' = sc_type p" "sc_stack c' = st_id st" "sc_parent c' = g"
          using s p by (auto simp: stands_def)
        obtain c'' where "find_connection d (sb_connection b) = Some c''" "sc_type c'' = sb_type b"
          using wired_binding [OF w' b(1)] by metis
        with b c' have "sc_type c' = typ" by simp
        with c' have "stands d (conn (sc_id p))" by (simp add: stands_def conn_def assms)
        then show ?thesis using g assms by (simp add: fits_def conn_def)
      qed
      have "triple (\<lambda>s. ?I (ap_db s)) (tryP (on_store (update_secret_connection (sc_id p) (sc_name (conn (sc_id p))) config))
           (\<lambda>e. failed_with (http_fail 500 e)) (\<lambda>_. store_local cn True (conn (sc_id p)) creds)) ?Q"
      proof (rule triple_tryP)
        show "triple (\<lambda>s. ?I (ap_db s)) (on_store (update_secret_connection (sc_id p) (sc_name (conn (sc_id p))) config)) (\<lambda>_ s. ?I (ap_db s))"
          using keeps_standing_app(7) [OF standing_invariants(2)] by (simp add: triple_keeps)
        have "triple (\<lambda>s. ready_for (st_id st) typ previous g (conn (sc_id p)) (ap_db s)) (store_local cn True (conn (sc_id p)) creds) ?Q"
          by (rule store_local_kept) (use assms in \<open>simp_all add: conn_def\<close>)
        then show "triple (\<lambda>s. ?I (ap_db s)) (store_local cn True (conn (sc_id p)) creds) ?Q"
          by (rule triple_weaken) (simp_all add: ready_for_def fit)
      qed (rule fail)
      with Some Inr show ?thesis by simp
    qed
  qed
  have creds: "triple (\<lambda>s. ?I (ap_db s)) (case reused of
      None \<Rightarrow> okP (Some typed)
    | Some p \<Rightarrow> if typed \<noteq> [] then okP (Some typed)
        else bindP (or_nothing (on_keys (secret_credential_fields (sc_id p)))) (\<lambda>names. okP (if names \<noteq> [] then None else Some typed)))
      (\<lambda>_ s. ?I (ap_db s))" for typed
    unfolding triple_keeps [symmetric] by (intro keeps_intros)
  show ?thesis unfolding local_connection_def Let_def conn_def [symmetric] reused_def [symmetric]
    by (rule triple_bindP [OF creds]) (use rest w in auto)
qed

lemma set_binding_kept:
  assumes "cn_scheme cn = typ"
  shows "triple (\<lambda>s. ready_for (st_id st) typ previous g t (ap_db s)) (set_binding st cn mode prefs previous c t) (\<lambda>_. wired_app)"
proof -
  have saved: "triple wired_app (audited c act name detail (redirect_with_saved_message p m)) (\<lambda>_. wired_app)" for act name detail p m
    unfolding triple_keeps [symmetric] by (intro keeps_intros)
  have fail: "triple wired_app (http_fail 500 e) (\<lambda>_. wired_app)" for e
    unfolding triple_keeps [symmetric] by (intro keeps_intros)
  show ?thesis unfolding set_binding_def Let_def assms
  proof (rule triple_tryP [OF triple_on_store [OF set_binding_wired]], goal_cases)
    case (1 e)
    show ?case by (rule triple_weaken [OF fail]) auto
  next
    case (2 u)
    show ?case
    proof (cases previous)
      case None
      then show ?thesis by (simp add: saved)
    next
      case (Some p)
      show ?thesis
      proof (cases "sc_stack p \<noteq> '''' \<and> sc_id p \<noteq> sc_id t")
        case True
        have "triple (\<lambda>s. wired_app s \<and> unused (sc_id p) (ap_db s)) (tryP (drop_local_connection (sc_id p)) (http_fail 500)
            (\<lambda>_. audited c act name detail (redirect_with_saved_message pp m))) (\<lambda>_. wired_app)" for act name detail pp m
          by (rule triple_tryP [OF drop_kept fail saved])
        then show ?thesis using True Some by (auto elim: triple_weaken)
      next
        case False
        then show ?thesis using Some triple_weaken [OF saved] by auto
      qed
    qed
  qed
qed

lemma target_kept:
  assumes "\<And>st cn. st_id st = i \<Longrightarrow> cn_scheme cn = typ \<Longrightarrow> keeps wired_app (f st cn)"
  shows "keeps wired_app (with_binding_target env i typ f)"
proof (rule keepsI)
  fix s
  assume w: "wired_app s"
  obtain r s' where g: "on_store (get_stack i) s = (r, s')" by (metis surj_pair)
  have w': "wired_app s'" using keepsE [OF keeps_standing_app(3) [OF standing_invariants(1)] w g] .
  show "wired_app (snd (with_binding_target env i typ f s))"
  proof (cases r)
    case (Inl e)
    with g w' show ?thesis by (simp add: with_binding_target_def with_stack_def tryP_def answer_defs)
  next
    case (Inr st)
    from g Inr obtain d where "get_stack i (ap_db s) = (Inr st, d)" by (auto simp: zoomP_def split: prod.splits)
    then have st: "st_id st = i" using get_stack_Inr [of i "ap_db s" st d] by (auto simp: find_stack_def dest: find_in)
    show ?thesis
    proof (cases "connector_for env typ")
      case None
      with g Inr w' show ?thesis by (simp add: with_binding_target_def with_stack_def tryP_def answer_defs)
    next
      case (Some cn)
      then have "cn_scheme cn = typ" by (auto simp: connector_for_def dest: find_in)
      with st assms have k: "keeps wired_app (f st cn)" by blast
      show ?thesis using g Inr Some w' keepsD [OF k w'] by (simp add: with_binding_target_def with_stack_def tryP_def answer_defs)
    qed
  qed
qed

lemma or_reply_kept:
  assumes "triple P m (\<lambda>r s. wired_app s \<and> (\<forall>t. r = Inr (Inr t) \<longrightarrow> R t s))" and "\<And>t. triple (R t) (f t) (\<lambda>_. wired_app)"
  shows "triple P (or_reply m f) (\<lambda>_. wired_app)"
  unfolding or_reply_def
proof (rule triple_bindP [OF assms(1)], goal_cases)
  case (2 x)
  show ?case
  proof (cases x)
    case (Inr t)
    have "triple (\<lambda>s. wired_app s \<and> R t s) (f t) (\<lambda>_. wired_app)" by (rule triple_weaken [OF assms(2)]) auto
    with Inr show ?thesis by simp
  qed (simp add: triple_def)
qed simp

lemma bind_under_kept:
  assumes "st_id st \<noteq> ''''" and cn: "cn_scheme cn = typ"
  shows "triple (\<lambda>s. ready (st_id st) typ v '''' (ap_db s) \<and> find_connection (ap_db s) (sc_id parent) = Some parent)
     (bind_under rq st cn mode prefs v c pg parent) (\<lambda>_. wired_app)" (is "triple ?P _ _")
proof -
  have w: "?P s \<Longrightarrow> wired_app s" for s by (simp add: ready_def)
  have fail: "triple P (redirect_with_error p t) (\<lambda>_. wired_app)" if "\<And>s. P s \<Longrightarrow> wired_app s" for P p t
    using that by (auto simp: triple_def answer_defs)
  have shared: "ready_for (st_id st) typ v '''' parent (ap_db s)" if "?P s" "sc_stack parent = ''''" "sc_type parent = typ" for s
  proof -
    from that have r: "ready (st_id st) typ v '''' (ap_db s)" and f: "find_connection (ap_db s) (sc_id parent) = Some parent" by simp_all
    have "parent \<in> set (d_secret_conns (ap_db s))" using find_connection_id [OF f] by simp
    with r that(2) have "sc_parent parent = ''''" unfolding ready_def wired_def by blast
    moreover have "stands (ap_db s) parent" using f by (simp add: stands_def)
    ultimately show ?thesis using r that(2,3) by (simp add: ready_for_def fits_def)
  qed
  have own: "ready (st_id st) typ v (sc_id parent) (ap_db s)" if "?P s" "sc_stack parent = ''''" "sc_type parent = typ" for s
    using that by (auto simp: ready_def shared_of_def)
  show ?thesis unfolding bind_under_def
  proof (intro triple_if, goal_cases)
    case 1
    show ?case by (rule fail [OF w])
  next
    case 2
    have names: "triple (\<lambda>s. ready_for (st_id st) typ v '''' parent (ap_db s)) (or_nothing (on_keys m)) (\<lambda>_ s. ready_for (st_id st) typ v '''' parent (ap_db s))" for m
      unfolding triple_keeps [symmetric] by (intro keeps_intros)
    have "triple (\<lambda>s. ready_for (st_id st) typ v '''' parent (ap_db s)) (bindP (or_nothing (on_keys (secret_credential_fields (sc_id parent)))) (\<lambda>names.
          if names = [] then redirect_with_error pg ''this connection has no default credentials: give the stack its own''
          else set_binding st cn mode prefs v c parent)) (\<lambda>_. wired_app)"
    proof (rule triple_bindP [OF names], goal_cases)
      case (2 ns)
      show ?case by (intro triple_if fail set_binding_kept [OF cn]) (simp add: ready_for_def ready_def)
    qed (simp add: ready_for_def ready_def)
    then show ?case by (rule triple_weaken) (use shared 2 cn in auto)
  next
    case 3
    show ?case
      by (rule triple_weaken [OF or_reply_kept [OF local_connection_kept [OF assms, of v "sc_id parent"] set_binding_kept [OF cn]]])
        (use own 3 cn in auto)
  qed
qed

lemma bind_as_kept:
  assumes "st_id st \<noteq> ''''" and cn: "cn_scheme cn = typ"
  shows "triple (\<lambda>s. ready (st_id st) typ v '''' (ap_db s)) (bind_as rq st cn mode prefs v c pg) (\<lambda>_. wired_app)"
proof -
  have w: "ready a b v g d \<Longrightarrow> wired d" for a b v g d by (simp add: ready_def)
  have fail: "triple P (redirect_with_error p t) (\<lambda>_. wired_app)" if "\<And>s. P s \<Longrightarrow> wired_app s" for P p t
    using that by (auto simp: triple_def answer_defs)
  show ?thesis unfolding bind_as_def Let_def
  proof (intro triple_if, goal_cases)
    case 1
    show ?case
    proof (rule triple_tryP [OF read_connection [OF standing_invariants(2)]], goal_cases)
      case (1 e)
      show ?case by (rule fail) (auto simp: w)
    next
      case (2 parent)
      show ?case by (rule triple_weaken [OF bind_under_kept [OF assms]]) auto
    qed
  next
    case 2
    show ?case
    proof (cases "cn_valid_config cn (config_from_form rq cn)")
      case (Inr u)
      then show ?thesis using or_reply_kept [OF local_connection_kept [OF assms, of v "''''"] set_binding_kept [OF cn]] by simp
    qed (auto intro!: fail simp: w)
  next
    case 3
    show ?case by (rule fail) (auto simp: w)
  qed
qed

lemma wired_save_binding:
  assumes "i \<noteq> ''''"
  shows "keeps wired_app (save_stack_binding_handler env i typ c rq)"
  unfolding save_stack_binding_handler_def Let_def
proof (intro target_kept keeps_tryP)
  fix st :: stack and cn :: connector and prefs
  assume st: "st_id st = i" and cn: "cn_scheme cn = typ"
  show "keeps wired_app (binding_prefixes rq (form_value rq ''mode''))"
    unfolding binding_prefixes_def by (intro keeps_intros)
  show "keeps wired_app (redirect_with_error p t)" for p t by (intro keeps_intros)
  have bound: "triple (\<lambda>s. wired_app s \<and> (\<forall>v. Inr x = Inr v \<longrightarrow> ready (st_id st) typ v '''' (ap_db s)))
      (bind_as rq st cn mode prefs x c pg) (\<lambda>_. wired_app)" for x mode pg
    by (rule triple_weaken [OF bind_as_kept]) (use st cn assms in auto)
  show "keeps wired_app (bindP (previous_connection (st_id st) (cn_scheme cn)) (\<lambda>previous.
      bind_as rq st cn (form_value rq ''mode'') prefs previous c (stack_page (st_id st) @ ''/secrets/bindings/'' @ cn_scheme cn)))"
    unfolding triple_keeps cn by (rule triple_bindP [OF previous_ready _ bound]) simp
qed

lemma wired_delete_binding: "keeps wired_app (delete_stack_binding_handler env i typ c rq)"
  unfolding delete_stack_binding_handler_def Let_def
proof (intro target_kept)
  fix st :: stack and cn :: connector
  assume cn: "cn_scheme cn = typ"
  let ?gone = "audited c ''secrets.binding_remove'' (st_name st) (cn_scheme cn)
      (redirect_with_saved_message (stack_page (st_id st)) (cn_label cn @ '' connection removed''))"
  have gone: "triple wired_app ?gone (\<lambda>_. wired_app)" unfolding triple_keeps [symmetric] by (intro keeps_intros)
  have fail: "triple wired_app (http_fail 500 e) (\<lambda>_. wired_app)" for e unfolding triple_keeps [symmetric] by (intro keeps_intros)
  let ?alone = "\<lambda>i d. wired d \<and> owned d (st_id st) typ i \<and> (\<forall>b\<in>set (d_bindings d). \<not> (sb_stack b = st_id st \<and> sb_type b = typ))"
  have alone_same: "?alone i d'" if "?alone i d" "d' = d\<lparr>d_faults := fs\<rparr>" for i d d' fs
    using that by (simp add: owned_def find_connection_def)
  have read: "triple (\<lambda>s. ?alone i (ap_db s)) (on_store (get_secret_connection i)) (\<lambda>r s. ?alone i (ap_db s)
      \<and> (\<forall>x. r = Inr x \<longrightarrow> find_connection (ap_db s) i = Some x \<and> sc_id x = i))" for i
  proof (rule tripleI)
    fix s r s'
    assume al: "?alone i (ap_db s)" and run: "on_store (get_secret_connection i) s = (r, s')"
    then have w: "wired_app s" by simp
    from run have "\<exists>fs. ap_db s' = (ap_db s)\<lparr>d_faults := fs\<rparr>"
      by (auto simp: zoomP_def get_secret_connection_def one_row_def bindP_def tryP_def wrapP_def
          split: prod.splits sum.splits option.splits dest!: select_state)
    with al have "?alone i (ap_db s')" using alone_same by blast
    with tripleD [OF read_connection [OF standing_invariants(1)] w run]
    show "?alone i (ap_db s') \<and> (\<forall>x. r = Inr x \<longrightarrow> find_connection (ap_db s') i = Some x \<and> sc_id x = i)" by blast
  qed
  have drop: "triple (\<lambda>s. ?alone i (ap_db s)) (tryP (on_store (get_secret_connection i)) (\<lambda>_. ?gone) (\<lambda>conn.
      if sc_stack conn \<noteq> '''' then tryP (drop_local_connection (sc_id conn)) (http_fail 500) (\<lambda>_. ?gone) else ?gone)) (\<lambda>_. wired_app)" for i
  proof (rule triple_tryP [OF read], goal_cases)
    case (1 e)
    show ?case by (rule triple_weaken [OF gone]) auto
  next
    case (2 x)
    show ?case
    proof (rule triple_if)
      assume priv: "sc_stack x \<noteq> ''''"
      have "triple (\<lambda>s. wired_app s \<and> unused (sc_id x) (ap_db s)) (tryP (drop_local_connection (sc_id x)) (http_fail 500) (\<lambda>_. ?gone)) (\<lambda>_. wired_app)"
        by (rule triple_tryP [OF drop_kept fail gone])
      moreover have "unused i d" if "?alone i d" "find_connection d i = Some x" for d
      proof (rule private_unused [OF _ that(2) priv])
        show "wired d" using that(1) by simp
        have "sc_stack x = st_id st \<and> sc_type x = typ" using that priv by (auto simp: owned_def)
        then show "\<forall>b\<in>set (d_bindings d). sb_stack b = sc_stack x \<longrightarrow> sb_type b = sc_type x \<longrightarrow> sb_connection b \<noteq> i"
          using that(1) by auto
      qed
      ultimately show "triple (\<lambda>s. ?alone i (ap_db s) \<and> (\<forall>xa. Inr x = Inr xa \<longrightarrow> find_connection (ap_db s) i = Some xa \<and> sc_id xa = i))
          (tryP (drop_local_connection (sc_id x)) (http_fail 500) (\<lambda>_. ?gone)) (\<lambda>_. wired_app)"
        by (elim triple_weaken) auto
    qed (rule triple_weaken [OF gone], auto)
  qed
  have bound: "triple wired_app (on_store (get_secret_binding (st_id st) typ))
      (\<lambda>r s. wired_app s \<and> (\<forall>b. r = Inr b \<longrightarrow> sb_type b = typ \<and> owned (ap_db s) (st_id st) typ (sb_connection b)))"
  proof (rule tripleI)
    fix s r s'
    assume w: "wired_app s" and run: "on_store (get_secret_binding (st_id st) typ) s = (r, s')"
    have w': "wired_app s'" using keepsE [OF keeps_standing_app(2) [OF standing_invariants(1)] w run] .
    have "sb_type b = typ \<and> owned (ap_db s') (st_id st) typ (sb_connection b)" if ok: "r = Inr b" for b
    proof -
      from run ok have g: "get_secret_binding (st_id st) typ (ap_db s) = (Inr b, ap_db s')"
        by (auto simp: zoomP_def split: prod.splits)
      obtain fs where same: "ap_db s' = (ap_db s)\<lparr>d_faults := fs\<rparr>" using get_secret_binding_Inr(2) [OF g] by blast
      have "find (binding_key (st_id st) typ) (d_bindings (ap_db s')) = Some b"
        unfolding same using get_secret_binding_Inr(1) [OF g] by simp
      from find_in [OF this] have b: "b \<in> set (d_bindings (ap_db s'))" "sb_stack b = st_id st" "sb_type b = typ"
        by (simp_all add: binding_key_def)
      obtain x where x: "find_connection (ap_db s') (sb_connection b) = Some x" "sc_type x = sb_type b"
          "sc_stack x = '''' \<or> sc_stack x = sb_stack b"
        using wired_binding [OF w' b(1)] by metis
      then show ?thesis using b by (simp add: owned_def)
    qed
    with w' show "wired_app s' \<and> (\<forall>b. r = Inr b \<longrightarrow> sb_type b = typ \<and> owned (ap_db s') (st_id st) typ (sb_connection b))" by blast
  qed
  have delete: "keeps wired_app (tryP (on_store (get_secret_binding (st_id st) typ)) (\<lambda>e. if error_is e ErrNotFound then not_found else http_fail 500 e)
      (\<lambda>b. tryP (on_store (delete_secret_binding (st_id st) (sb_type b))) (http_fail 500) (\<lambda>_.
         tryP (on_store (get_secret_connection (sb_connection b))) (\<lambda>_. ?gone) (\<lambda>conn.
           if sc_stack conn \<noteq> '''' then tryP (drop_local_connection (sc_id conn)) (http_fail 500) (\<lambda>_. ?gone) else ?gone))))"
    unfolding triple_keeps
  proof (rule triple_tryP [OF bound], goal_cases)
    case (1 e)
    show ?case by (auto simp: triple_def answer_defs)
  next
    case (2 b)
    have "triple (\<lambda>s. wired_app s \<and> owned (ap_db s) (st_id st) typ (sb_connection b)) (tryP (on_store (delete_secret_binding (st_id st) typ)) (http_fail 500) (\<lambda>_.
         tryP (on_store (get_secret_connection (sb_connection b))) (\<lambda>_. ?gone) (\<lambda>conn.
           if sc_stack conn \<noteq> '''' then tryP (drop_local_connection (sc_id conn)) (http_fail 500) (\<lambda>_. ?gone) else ?gone))) (\<lambda>_. wired_app)"
    proof (rule triple_tryP [OF triple_on_store [OF delete_binding_wired]], goal_cases)
      case (1 e)
      show ?case by (rule triple_weaken [OF fail]) auto
    next
      case (2 u)
      show ?case by (rule triple_weaken [OF drop]) auto
    qed
    then show ?case by (cases "sb_type b = typ") (auto elim: triple_weaken simp: triple_def)
  qed
  then show "keeps wired_app (tryP (on_store (get_secret_binding (st_id st) (cn_scheme cn))) (\<lambda>e. if error_is e ErrNotFound then not_found else http_fail 500 e)
      (\<lambda>b. tryP (on_store (delete_secret_binding (st_id st) (sb_type b))) (http_fail 500) (\<lambda>_.
         tryP (on_store (get_secret_connection (sb_connection b))) (\<lambda>_. ?gone) (\<lambda>conn.
           if sc_stack conn \<noteq> '''' then tryP (drop_local_connection (sc_id conn)) (http_fail 500) (\<lambda>_. ?gone) else ?gone))))"
    by (simp add: cn)
qed

lemma wired_delete_stack: "i \<noteq> '''' \<Longrightarrow> keeps wired_app (delete_stack_handler i c rq)"
  unfolding delete_stack_handler_def by (intro keeps_intros keeps_wired_delete_stack)

section \<open>Histories\<close>

text \<open>
  What administrators do, in any order: the form of a provider or binding with whatever it says, and the
  deletion of a stack.  The ids are those of the route, whose wildcards match no empty segment.
\<close>

datatype wiring_action =
    CreateProvider
  | UpdateProvider string
  | DeleteProvider string
  | SaveBinding string string
  | RemoveBinding string string
  | RemoveStack string

fun wiring_handler :: "provider_env \<Rightarrow> wiring_action \<Rightarrow> app_state handler" where
  "wiring_handler env CreateProvider = create_secret_provider_handler env"
| "wiring_handler env (UpdateProvider i) = update_secret_provider_handler env i"
| "wiring_handler env (DeleteProvider i) = delete_secret_provider_handler env i"
| "wiring_handler env (SaveBinding i typ) = save_stack_binding_handler env i typ"
| "wiring_handler env (RemoveBinding i typ) = delete_stack_binding_handler env i typ"
| "wiring_handler env (RemoveStack i) = delete_stack_handler i"

fun routed :: "wiring_action \<Rightarrow> bool" where
  "routed (SaveBinding i typ) \<longleftrightarrow> i \<noteq> ''''"
| "routed (RemoveStack i) \<longleftrightarrow> i \<noteq> ''''"
| "routed _ \<longleftrightarrow> True"

definition wiring_run :: "provider_env \<Rightarrow> (wiring_action \<times> web_context option \<times> request) list \<Rightarrow> app_state \<Rightarrow> app_state" where
  "wiring_run env = fold (\<lambda>(a, c, rq) s. snd (wiring_handler env a c rq s))"

lemma keeps_wired_action: "routed a \<Longrightarrow> keeps wired_app (wiring_handler env a c rq)"
  by (cases a) (simp_all add: wired_provider_handlers wired_delete_provider wired_save_binding wired_delete_binding wired_delete_stack)

lemma wired_run:
  "list_all (\<lambda>(a, _). routed a) acts \<Longrightarrow> wired_app s \<Longrightarrow> wired_app (wiring_run env acts s)"
proof (induction acts arbitrary: s)
  case (Cons x acts)
  obtain a c rq where x: "x = (a, c, rq)" by (metis prod_cases3)
  with Cons have "wired_app (snd (wiring_handler env a c rq s))" using keepsD [OF keeps_wired_action] by simp
  from Cons.IH [OF _ this] Cons.prems show ?case by (simp add: wiring_run_def x)
qed (simp add: wiring_run_def)

lemma wired_empty: "d_secret_conns d = [] \<Longrightarrow> d_bindings d = [] \<Longrightarrow> wired d"
  by (simp add: wired_def)

text \<open>
  C36 bindings_lead_somewhere.  From an empty server, through any administration of providers, bindings and
  stacks and any database failures, every binding leads to a connection that is there, of its provider, and
  when that connection inherits its settings, the shared connection it inherits them from is there too.
\<close>

theorem bindings_lead_somewhere:
  assumes "d_secret_conns (ap_db s) = []" and "d_bindings (ap_db s) = []" and "list_all (\<lambda>(a, _). routed a) acts"
    and "b \<in> set (d_bindings (ap_db (wiring_run env acts s)))"
  shows "\<exists>c\<in>set (d_secret_conns (ap_db (wiring_run env acts s))). sc_id c = sb_connection b \<and> sc_type c = sb_type b
     \<and> (sc_parent c = '''' \<or> (\<exists>g\<in>set (d_secret_conns (ap_db (wiring_run env acts s))).
          sc_id g = sc_parent c \<and> sc_type g = sb_type b \<and> sc_stack g = ''''))"
proof -
  let ?d = "ap_db (wiring_run env acts s)"
  have w: "wired ?d" using wired_run [OF assms(3)] wired_empty [OF assms(1,2)] by blast
  from wired_binding [OF w assms(4)] obtain c where c: "find_connection ?d (sb_connection b) = Some c" "sc_type c = sb_type b"
    and p: "sc_parent c = '''' \<or> shared_of ?d (sb_type b) (sc_parent c)" by metis
  have "\<exists>g\<in>set (d_secret_conns ?d). sc_id g = i \<and> sc_type g = sb_type b \<and> sc_stack g = ''''" if "shared_of ?d (sb_type b) i" for i
    using that find_connection_id unfolding shared_of_def by blast
  then show ?thesis using c p find_connection_id [OF c(1)] by metis
qed

text \<open>
  C37 own_credentials_only.  From an empty server, through any such history and failures, a stack's references
  are read with the credentials of a connection of the reference's provider that is shared or the stack's own:
  no stack is ever given the private credentials of another.
\<close>

theorem own_credentials_only:
  assumes "d_secret_conns (ap_db s) = []" and "d_bindings (ap_db s) = []" and "list_all (\<lambda>(a, _). routed a) acts"
    and "fst (stack_binding digest creds stack scheme (ap_db (wiring_run env acts s))) = Inr eff"
  shows "\<exists>c\<in>set (d_secret_conns (ap_db (wiring_run env acts s))). sc_type c = scheme \<and> sc_stack c \<in> {'''', stack}
     \<and> ef_type eff = scheme \<and> creds (sc_id c) = Inr (ef_credentials eff)"
proof -
  let ?d = "ap_db (wiring_run env acts s)"
  have w: "wired ?d" using wired_run [OF assms(3)] wired_empty [OF assms(1,2)] by blast
  obtain d' where run: "stack_binding digest creds stack scheme ?d = (Inr eff, d')" using assms(4) by (metis prod.collapse)
  from stack_connection [OF this] obtain b c where b: "find (binding_key stack scheme) (d_bindings ?d) = Some b"
    and c: "find_connection ?d (sb_connection b) = Some c" "ef_type eff = sc_type c" "creds (sc_id c) = Inr (ef_credentials eff)"
    by blast
  from find_in [OF b] have b': "b \<in> set (d_bindings ?d)" "sb_stack b = stack" "sb_type b = scheme"
    by (simp_all add: binding_key_def)
  from wired_binding [OF w b'(1)] c(1) b' have "sc_type c = scheme" "sc_stack c = '''' \<or> sc_stack c = stack" by auto
  with c find_connection_id [OF c(1)] show ?thesis by auto
qed

section \<open>An example\<close>

definition vault_connector :: connector where
  "vault_connector =
     \<lparr>cn_scheme = ''vault'', cn_label = ''Vault'',
      cn_fields = [\<lparr>fd_name = ''address'', fd_default = '''', fd_credential = False, fd_required = True, fd_input = '''', fd_options = []\<rparr>,
        \<lparr>fd_name = ''token'', fd_default = '''', fd_credential = True, fd_required = True, fd_input = '''', fd_options = []\<rparr>],
      cn_valid_config = (\<lambda>c. guard_res (c = []) ''an address is required''),
      cn_valid_creds = (\<lambda>c. guard_res (c = []) ''a token is required''), cn_check = (\<lambda>_. Inr ()), cn_summary = None\<rparr>"

definition vault_env :: provider_env where
  "vault_env = \<lparr>pe_connectors = [vault_connector], pe_digest = (\<lambda>_ _ _. '''')\<rparr>"

definition git_stack_named :: "string \<Rightarrow> stack" where
  "git_stack_named i = \<lparr>st_id = i, st_name = i, st_source = ''git'', st_repo = ''r'', st_branch = ''main'', st_compose_path = '''',
     st_compose = '''', st_secret = '''', st_host = ''h1'', st_trigger = ''manual'', st_pubkey = '''', st_ssh_pubkey = '''',
     st_connection = '''', st_webhook_secret = '''', st_schedule = '''', st_last_sha = '''', st_last_polled = None, st_subst_keys = ''''\<rparr>"

definition fresh_server :: app_state where
  "fresh_server = \<lparr>ap_db = (empty_db 0 (\<lambda>n. [char_of (97 + n)]))\<lparr>d_stacks := [git_stack_named ''blog'', git_stack_named ''shop'']\<rparr>,
     ap_keys = empty_custodian, ap_polls = no_schedules\<rparr>"

text \<open>A shared connection; one stack uses it, the other has credentials of its own under it.\<close>

definition vault_history :: "(wiring_action \<times> web_context option \<times> request) list" where
  "vault_history =
     [(CreateProvider, None, form [(''type'', ''vault''), (''name'', ''bao''), (''cfg_address'', ''https://bao''), (''cred_token'', ''t'')]),
      (SaveBinding ''blog'' ''vault'', None, form [(''mode'', ''shared''), (''connection_id'', ''a''), (''prefixes'', ''kv/blog'')]),
      (SaveBinding ''shop'' ''vault'', None, form [(''mode'', ''own''), (''connection_id'', ''a''), (''prefixes'', ''kv/shop''),
        (''cred_token'', ''s'')])]"

lemma vault_run:
  "map (\<lambda>b. (sb_stack b, sb_connection b)) (d_bindings (ap_db (wiring_run vault_env vault_history fresh_server)))
     = [(''blog'', ''a''), (''shop'', ''b'')]"
  by code_simp

lemma vault_read:
  "fst (stack_binding (\<lambda>_ _ _. '''') (\<lambda>i. Inr [(''token'', i)]) ''shop'' ''vault'' (ap_db (wiring_run vault_env vault_history fresh_server)))
     = Inr \<lparr>ef_type = ''vault'', ef_config = [(''address'', ''https://bao'')], ef_credentials = [(''token'', ''b'')], ef_prefixes = [''kv/shop''],
         ef_rules = [], ef_has_rules = False, ef_source = ''this stack's own credentials on '' @ quoted ''bao'', ef_identity = ''''\<rparr>"
  by code_simp

lemma bindings_lead_somewhere_witness:
  "\<exists>b\<in>set (d_bindings (ap_db (wiring_run vault_env vault_history fresh_server))). sb_stack b = ''shop''
     \<and> (\<exists>c\<in>set (d_secret_conns (ap_db (wiring_run vault_env vault_history fresh_server))). sc_id c = sb_connection b \<and> sc_type c = sb_type b
          \<and> (sc_parent c = '''' \<or> (\<exists>g\<in>set (d_secret_conns (ap_db (wiring_run vault_env vault_history fresh_server))).
               sc_id g = sc_parent c \<and> sc_type g = sb_type b \<and> sc_stack g = '''')))"
proof -
  have "(''shop'', ''b'') \<in> set (map (\<lambda>b. (sb_stack b, sb_connection b)) (d_bindings (ap_db (wiring_run vault_env vault_history fresh_server))))"
    unfolding vault_run by simp
  then obtain b where b: "b \<in> set (d_bindings (ap_db (wiring_run vault_env vault_history fresh_server)))" "sb_stack b = ''shop''" by auto
  show ?thesis
    by (intro bexI [OF _ b(1)] conjI b(2) bindings_lead_somewhere [OF _ _ _ b(1)])
      (simp_all add: fresh_server_def empty_db_def vault_history_def)
qed

lemma own_credentials_only_witness:
  "\<exists>c\<in>set (d_secret_conns (ap_db (wiring_run vault_env vault_history fresh_server))). sc_type c = ''vault'' \<and> sc_stack c \<in> {'''', ''shop''}
     \<and> sc_id c = ''b''"
proof -
  have "\<exists>c\<in>set (d_secret_conns (ap_db (wiring_run vault_env vault_history fresh_server))). sc_type c = ''vault'' \<and> sc_stack c \<in> {'''', ''shop''}
      \<and> ''vault'' = ''vault'' \<and> Inr [(''token'', sc_id c)] = (Inr [(''token'', ''b'')] :: (string \<times> string) list result)"
    using own_credentials_only [OF _ _ _ vault_read] by (simp add: fresh_server_def empty_db_def vault_history_def)
  then show ?thesis by auto
qed

end
