(* ===== verification/Backup_Destinations.thy ===== *)
theory Backup_Destinations
  imports Backup_Runs App Resource_Pages
begin

text \<open>
  The destinations of volume backups, \<^verbatim>\<open>src/volume_backup_destinations.go\<close>: an SMB share with its
  password and the password of the repositories on it, the forms that set it up, and the quick test one
  host makes of it.  What a form carries becomes mount options of an agent.
\<close>

section \<open>State\<close>

text \<open>The state of \<open>Backup_Runs\<close> with the custodian beside it.\<close>

record backup_site =
  vb_runs :: backup_state
  vb_keys :: custodian

abbreviation on_runs :: "(backup_state, 'a) prog \<Rightarrow> (backup_site, 'a) prog" where
  "on_runs \<equiv> zoomP vb_runs (\<lambda>b s. s\<lparr>vb_runs := b\<rparr>)"

abbreviation on_bdb :: "(db, 'a) prog \<Rightarrow> (backup_site, 'a) prog" where
  "on_bdb m \<equiv> on_runs (with_bdb m)"

abbreviation on_bkeys :: "(custodian, 'a) prog \<Rightarrow> (backup_site, 'a) prog" where
  "on_bkeys \<equiv> zoomP vb_keys (\<lambda>c s. s\<lparr>vb_keys := c\<rparr>)"

text \<open>What an agent answers to \<^verbatim>\<open>backup_test\<close> and lists as a snapshot.\<close>

record quick_test =
  qt_mounted :: bool
  qt_writable :: bool
  qt_initialized :: bool
  qt_message :: string

record snapshot_info =
  si_id :: string
  si_short :: string
  si_time :: string

text \<open>
  The agents as in \<open>Backup_Runs\<close>, their answer to the n-th command of the history, the two JSON
  decoders (\<open>None\<close> is an error), a time of day rewritten in UTC, and how a duration is printed.
\<close>

record backup_pages_env =
  ve_agents :: backup_env
  ve_quick :: "nat \<Rightarrow> string \<Rightarrow> string \<Rightarrow> agent_backup_request \<Rightarrow> tunnel_message result"
  ve_test :: "string \<Rightarrow> quick_test option"
  ve_snapshots :: "string \<Rightarrow> snapshot_info list option"
  ve_utc :: "string \<Rightarrow> string option"
  ve_duration :: "int \<Rightarrow> string"

text \<open>The custodian is read through \<open>secret_credentials\<close>; its failure is that of the lookup.\<close>

definition agents_now :: "backup_pages_env \<Rightarrow> custodian \<Rightarrow> backup_env" where
  "agents_now env k = (ve_agents env)\<lparr>be_creds := \<lambda>i. fst (secret_credentials i k)\<rparr>"

definition with_agents :: "backup_pages_env \<Rightarrow> (backup_env \<Rightarrow> (backup_state, 'a) prog) \<Rightarrow> (backup_site, 'a) prog" where
  "with_agents env f = bindP (getP vb_keys) (\<lambda>k. on_runs (f (agents_now env k)))"

text \<open>\<^verbatim>\<open>tc.backupCommand\<close>: a command sent, and its answer.\<close>

definition quick_command :: "backup_pages_env \<Rightarrow> string \<Rightarrow> string \<Rightarrow> agent_backup_request \<Rightarrow> (backup_site, string) prog" where
  "quick_command env host action req =
     bindP (getP (\<lambda>s. length (bk_sent (vb_runs s)))) (\<lambda>n.
     bindP (on_runs (modP (\<lambda>s. s\<lparr>bk_sent := bk_sent s @ [(host, action, req)]\<rparr>))) (\<lambda>_.
     liftP (backup_command (ve_quick env n host action req))))"

definition audited_backup :: "web_context option \<Rightarrow> string \<Rightarrow> string \<Rightarrow> string \<Rightarrow> (backup_site, 'a) prog \<Rightarrow> (backup_site, 'a) prog" where
  "audited_backup c action target detail nxt = bindP (on_bdb (audit c action target detail)) (\<lambda>_. nxt)"

section \<open>The form of a destination\<close>

text \<open>The regular expressions of a server, a share, a folder and a domain.\<close>

definition smb_server_re :: "string \<Rightarrow> bool" where
  "smb_server_re s \<longleftrightarrow> s \<noteq> '''' \<and> is_alnum (hd s) \<and> is_alnum (last s) \<and> list_all (\<lambda>c. is_alnum c \<or> c \<in> set ''.-'') s"

definition smb_share_re :: "string \<Rightarrow> bool" where
  "smb_share_re s \<longleftrightarrow> s \<noteq> '''' \<and> list_all (\<lambda>c. is_alnum c \<or> c \<in> set ''._$ -'') s"

definition plain_name_re :: "string \<Rightarrow> bool" where
  "plain_name_re s \<longleftrightarrow> s \<noteq> '''' \<and> list_all (\<lambda>c. is_alnum c \<or> c \<in> set ''._-'') s"

definition smb_folder_re :: "string \<Rightarrow> bool" where
  "smb_folder_re s \<longleftrightarrow> list_all plain_name_re (split_on CHR ''/'' s)"

definition smb_domain_re :: "string \<Rightarrow> bool" where
  "smb_domain_re s \<longleftrightarrow> plain_name_re s"

definition smb_versions :: "string list" where
  "smb_versions = [''3.0'', ''3.1.1'', ''3.02'', ''2.1'', ''2.0'']"

record smb_fields =
  sf_name :: string
  sf_server :: string
  sf_share :: string
  sf_folder :: string
  sf_version :: string
  sf_username :: string
  sf_domain :: string
  sf_password :: string

definition smb_fields_from_form :: "request \<Rightarrow> smb_fields" where
  "smb_fields_from_form rq =
     (let v = (\<lambda>k. trim_space (form_value rq k)) in
      \<lparr>sf_name = v ''name'', sf_server = v ''server'', sf_share = v ''share'', sf_folder = trim_char CHR ''/'' (v ''folder''),
       sf_version = v ''version'', sf_username = v ''username'', sf_domain = v ''domain'',
       sf_password = form_value rq ''password''\<rparr>)"

text \<open>
  A control character is a byte below 0x20 or 0x7f: in UTF-8 these bytes stand for themselves only, and
  a byte that is no UTF-8 is read as a code point above them.
\<close>

definition control_char :: "char \<Rightarrow> bool" where
  "control_char c \<longleftrightarrow> c < CHR '' '' \<or> c = CHR 0x7F"

definition check_mount_text :: "string \<Rightarrow> string \<Rightarrow> unit result" where
  "check_mount_text what v =
     (if v = '''' then err_text (what @ '' is required'')
      else if contains_str v '','' then err_text (what @ '' cannot contain a comma: it would end the mount options'')
      else if list_ex control_char v then err_text (what @ '' cannot contain control characters'')
      else Inr ())"

definition validate_smb :: "bool \<Rightarrow> smb_fields \<Rightarrow> unit result" where
  "validate_smb need f =
     (if sf_name f = '''' \<or> length (sf_name f) > 80 then err_text ''give the destination a name (80 characters at most)''
      else if \<not> smb_server_re (sf_server f) then err_text ''the server must be a host name or an IP address''
      else if \<not> smb_share_re (sf_share f) then err_text ''the share name has characters a share cannot have''
      else if sf_folder f \<noteq> '''' \<and> \<not> smb_folder_re (sf_folder f)
        then err_text ''the folder must be plain path segments (letters, digits, . _ -), without a space''
      else if sf_version f \<notin> set smb_versions then err_text ''pick an SMB version''
      else if sf_domain f \<noteq> '''' \<and> \<not> smb_domain_re (sf_domain f) then err_text ''the domain has characters a domain cannot have''
      else if list_ex (\<lambda>seg. seg = ''.'' \<or> seg = ''..'') (split_on CHR ''/'' (sf_folder f))
        then err_text ''the folder must not contain . or .. segments''
      else bind_res (check_mount_text ''the user name'' (sf_username f)) (\<lambda>_.
        if sf_password f \<noteq> '''' \<or> need then check_mount_text ''the password'' (sf_password f) else Inr ()))"

definition smb_config :: "smb_fields \<Rightarrow> (string \<times> string) list" where
  "smb_config f =
     [(''server'', sf_server f), (''share'', sf_share f), (''version'', sf_version f), (''username'', sf_username f)]
     @ (if sf_folder f \<noteq> '''' then [(''subdir'', sf_folder f)] else [])
     @ (if sf_domain f \<noteq> '''' then [(''domain'', sf_domain f)] else [])"

definition smb_address :: "(string \<times> string) list \<Rightarrow> string" where
  "smb_address cfg =
     [CHR 0x5C, CHR 0x5C] @ get_str cfg ''server'' @ [CHR 0x5C] @ get_str cfg ''share''
     @ (if get_str cfg ''subdir'' \<noteq> '''' then [CHR 0x5C] @ replace_all ''/'' [CHR 0x5C] (get_str cfg ''subdir'') else '''')"

section \<open>The pages\<close>

definition destinations_page :: string where
  "destinations_page = ''/settings/backup-destinations''"

definition destination_type_smb :: string where
  "destination_type_smb = ''smb''"

record destination_row =
  dr_id :: string
  dr_name :: string
  dr_address :: string
  dr_version :: string
  dr_jobs :: nat

definition destination_rows :: "backup_destination list \<Rightarrow> backup_job list \<Rightarrow> destination_row list" where
  "destination_rows dests jobs =
     map (\<lambda>d. \<lparr>dr_id = bd_id d, dr_name = bd_name d, dr_address = smb_address (bd_config d),
        dr_version = get_str (bd_config d) ''version'',
        dr_jobs = length (filter (\<lambda>j. bj_destination j = bd_id d) jobs)\<rparr>) dests"

definition or_none_listed :: "('s, 'a list) prog \<Rightarrow> ('s, 'a list) prog" where
  "or_none_listed m = tryP m (\<lambda>_. okP []) okP"

definition volume_backup_destinations_handler :: "backup_site handler" where
  "volume_backup_destinations_handler c rq =
     tryP (on_bdb list_backup_destinations) (http_fail 500) (\<lambda>dests.
     bindP (or_none_listed (on_bdb list_backup_jobs)) (\<lambda>jobs.
     let rows = destination_rows dests jobs in page ''volume_backup_destinations.html''))"

text \<open>The hosts that are connected and run an agent that can back up, by id and name.\<close>

definition backup_capable_hosts :: "backup_pages_env \<Rightarrow> (db, (string \<times> string) list) prog" where
  "backup_capable_hosts env =
     bindP (or_none_listed list_hosts) (\<lambda>hosts.
       okP (map (\<lambda>h. (h_id h, h_name h))
         (filter (\<lambda>h. be_connected (ve_agents env) (h_id h) \<and> \<not> agent_cannot_back_up (h_agent_version h)) hosts)))"

text \<open>The fields a form starts from: a new destination, or a stored one without its password.\<close>

definition shown_fields :: "backup_destination option \<Rightarrow> smb_fields" where
  "shown_fields dest =
     (case dest of
        None \<Rightarrow> \<lparr>sf_name = '''', sf_server = '''', sf_share = '''', sf_folder = '''', sf_version = ''3.0'', sf_username = '''',
                  sf_domain = '''', sf_password = ''''\<rparr>
      | Some d \<Rightarrow> let cfg = get_str (bd_config d) in
          \<lparr>sf_name = bd_name d, sf_server = cfg ''server'', sf_share = cfg ''share'', sf_folder = cfg ''subdir'',
           sf_version = cfg ''version'', sf_username = cfg ''username'', sf_domain = cfg ''domain'', sf_password = ''''\<rparr>)"

definition volume_backup_destination_form_handler :: "backup_pages_env \<Rightarrow> string \<Rightarrow> backup_site handler" where
  "volume_backup_destination_form_handler env i c rq =
     (if i = '''' then (let f = shown_fields None in page ''volume_backup_destination_form.html'')
      else tryP (on_bdb (get_backup_destination i)) (\<lambda>_. not_found) (\<lambda>d.
        bindP (on_bdb (backup_capable_hosts env)) (\<lambda>hosts.
        bindP (or_none_listed (on_bdb list_backup_jobs)) (\<lambda>jobs.
        let f = shown_fields (Some d); users = map bj_name (filter (\<lambda>j. bj_destination j = bd_id d) jobs) in
        page ''volume_backup_destination_form.html''))))"

text \<open>The text of the password's page is the password: it is in the answer, not in a redirect.\<close>

definition password_page :: "string \<Rightarrow> (backup_site, reply) prog" where
  "password_page password = answer (Page ''volume_backup_repo_password.html'' password)"

definition create_volume_backup_destination_handler :: "backup_site handler" where
  "create_volume_backup_destination_handler c rq =
     (let f = smb_fields_from_form rq; back = destinations_page @ ''/new'' in
      case validate_smb True f of
        Inl e \<Rightarrow> redirect_with_error back (error_text e)
      | Inr _ \<Rightarrow>
        bindP (on_bdb draw) (\<lambda>i.
        bindP (on_bdb draw) (\<lambda>password.
        tryP (on_bkeys (set_secret_credentials (backup_cred_id i) [(''smb_password'', sf_password f), (''repo_password'', password)]))
          (http_fail 500) (\<lambda>_.
        tryP (on_bdb (create_backup_destination
            \<lparr>bd_id = i, bd_name = sf_name f, bd_type = destination_type_smb, bd_config = smb_config f, bd_created = 0\<rparr>))
          (\<lambda>_. bindP (ignoreP (on_bkeys (delete_secret_credentials (backup_cred_id i))))
             (\<lambda>_. redirect_with_error back ''could not create the destination (name already taken?)'')) (\<lambda>_.
        audited_backup c ''volume_backup.destination_create'' (sf_name f) (''smb '' @ smb_address (smb_config f))
          (password_page password))))))"

definition save_destination :: "web_context option \<Rightarrow> string \<Rightarrow> smb_fields \<Rightarrow> (backup_site, reply) prog" where
  "save_destination c i f =
     tryP (on_bdb (update_backup_destination i (sf_name f) (smb_config f)))
       (\<lambda>_. redirect_with_error (destinations_page @ ''/'' @ i) ''could not save (name already taken?)'') (\<lambda>_.
     bindP (ignoreP (on_bdb (clear_backup_repo_states i))) (\<lambda>_.
     audited_backup c ''volume_backup.destination_update'' (sf_name f) (''smb '' @ smb_address (smb_config f))
       (redirect_with_saved_message destinations_page ''Destination saved'')))"

definition update_volume_backup_destination_handler :: "string \<Rightarrow> backup_site handler" where
  "update_volume_backup_destination_handler i c rq =
     tryP (on_bdb (get_backup_destination i)) (\<lambda>_. not_found) (\<lambda>_.
       let f = smb_fields_from_form rq; back = destinations_page @ ''/'' @ i in
       case validate_smb False f of
         Inl e \<Rightarrow> redirect_with_error back (error_text e)
       | Inr _ \<Rightarrow>
         if sf_password f \<noteq> '''' then
           tryP (on_bkeys (secret_credentials (backup_cred_id i))) (http_fail 500) (\<lambda>creds.
           tryP (on_bkeys (set_secret_credentials (backup_cred_id i) (put_assoc ''smb_password'' (sf_password f) creds)))
             (http_fail 500) (\<lambda>_. save_destination c i f))
         else save_destination c i f)"

definition delete_volume_backup_destination_handler :: "string \<Rightarrow> backup_site handler" where
  "delete_volume_backup_destination_handler i c rq =
     tryP (on_bdb (get_backup_destination i)) (\<lambda>_. not_found) (\<lambda>d.
     tryP (on_bdb (delete_backup_destination i))
       (\<lambda>e. redirect_with_error (destinations_page @ ''/'' @ i) (error_text e @ '': remove or repoint those jobs first'')) (\<lambda>_.
     bindP (ignoreP (on_bkeys (delete_secret_credentials (backup_cred_id i)))) (\<lambda>_.
     audited_backup c ''volume_backup.destination_delete'' (bd_name d) ''''
       (redirect_with_saved_message destinations_page
          ''Destination removed. The snapshots already on the share are untouched''))))"

definition reveal_volume_backup_repo_password_handler :: "string \<Rightarrow> backup_site handler" where
  "reveal_volume_backup_repo_password_handler i c rq =
     tryP (on_bdb (get_backup_destination i)) (\<lambda>_. not_found) (\<lambda>d.
     bindP (or_none_listed (on_bkeys (secret_credentials (backup_cred_id i)))) (\<lambda>creds.
       if get_str creds ''repo_password'' = ''''
       then redirect_with_error (destinations_page @ ''/'' @ i) ''this destination has no repository password''
       else audited_backup c ''volume_backup.repo_password_reveal'' (bd_name d) ''''
         (password_page (get_str creds ''repo_password''))))"

section \<open>The test from one host\<close>

definition request_now :: "backup_pages_env \<Rightarrow> string \<Rightarrow> string \<Rightarrow> (backup_site, agent_backup_request) prog" where
  "request_now env dest host = with_agents env (\<lambda>e. with_bdb (request_for_host e dest host))"

definition connected_now :: "backup_pages_env \<Rightarrow> string \<Rightarrow> (backup_site, unit) prog" where
  "connected_now env host = on_bdb (connected_agent (ve_agents env) host)"

text \<open>A command of a page, for a destination and a host.\<close>

definition agent_action :: "backup_pages_env \<Rightarrow> string \<Rightarrow> string \<Rightarrow> string
    \<Rightarrow> (agent_backup_request \<Rightarrow> agent_backup_request) \<Rightarrow> (backup_site, string) prog" where
  "agent_action env dest host action set_up =
     bindP (request_now env dest host) (\<lambda>req.
     bindP (connected_now env host) (\<lambda>_. quick_command env host action (set_up req)))"

definition parse_test_result :: "backup_pages_env \<Rightarrow> string \<Rightarrow> quick_test result" where
  "parse_test_result env raw =
     (case ve_test env raw of None \<Rightarrow> err_text ''the agent answered something unexpected'' | Some r \<Rightarrow> Inr r)"

definition note_tested :: "string \<Rightarrow> string \<Rightarrow> quick_test \<Rightarrow> (db, unit) prog" where
  "note_tested dest host res =
     (if qt_mounted res \<and> qt_writable res \<and> qt_initialized res then note_repo dest host True
      else if qt_mounted res \<and> qt_writable res \<and> contains_str (qt_message res) ''not initialized'' then note_repo dest host False
      else okP ())"

definition test_verdict :: "quick_test \<Rightarrow> string result" where
  "test_verdict res =
     (if \<not> qt_mounted res then err_text (''the share could not be used: '' @ qt_message res)
      else if qt_message res \<noteq> '''' \<and> \<not> qt_initialized res \<and> qt_writable res \<and> contains_str (qt_message res) ''not initialized''
        then Inr ''The share is reachable and writable. This host has no repository there yet: initialize it from a backup job.''
      else if qt_message res \<noteq> '''' then err_text (qt_message res)
      else if qt_initialized res then Inr ''The share is reachable and writable, and this host's repository is initialized.''
      else Inr ''The share is reachable and writable.'')"

definition test_destination :: "backup_pages_env \<Rightarrow> string \<Rightarrow> string \<Rightarrow> (backup_site, string) prog" where
  "test_destination env dest host =
     bindP (agent_action env dest host ''backup_test'' id) (\<lambda>raw.
     bindP (liftP (parse_test_result env raw)) (\<lambda>res.
     bindP (on_bdb (note_tested dest host res)) (\<lambda>_. liftP (test_verdict res))))"

definition say_tested :: "string \<Rightarrow> (backup_site, string) prog \<Rightarrow> (backup_site, reply) prog" where
  "say_tested back m = tryP m (\<lambda>e. redirect_with_error back (error_text e)) (redirect_with_saved_message back)"

definition test_volume_backup_destination_handler :: "backup_pages_env \<Rightarrow> string \<Rightarrow> backup_site handler" where
  "test_volume_backup_destination_handler env i c rq =
     say_tested (destinations_page @ ''/'' @ i) (test_destination env i (form_value rq ''host_id''))"

end
