(* ===== verification/Backup_Pages.thy ===== *)
theory Backup_Pages
  imports Backup_Destinations Go_Paths
begin

text \<open>
  The jobs, the runs and the restores of the page Backups, \<^verbatim>\<open>src/volume_backups.go\<close>, and what the pages
  show of them, \<^verbatim>\<open>src/volume_backup_views.go\<close>.  A query parameter of a page is read as a field of the form.
\<close>

section \<open>Runs as they are shown\<close>

text \<open>\<open>now\<close> is the time of the request; times are seconds, as the database keeps them.\<close>

definition run_duration :: "backup_pages_env \<Rightarrow> int \<Rightarrow> backup_run \<Rightarrow> string" where
  "run_duration env now r =
     (let d = (case br_finished r of None \<Rightarrow> now | Some t \<Rightarrow> t) - br_started r in ve_duration env (if d < 0 then 0 else d))"

record volume_result_view =
  vw_result :: volume_result
  vw_added :: string
  vw_total :: string

record run_view =
  rv_run :: backup_run
  rv_started :: int
  rv_duration :: string
  rv_volumes :: "volume_result_view list"
  rv_job :: string
  rv_added :: string

text \<open>The sum is an \<^verbatim>\<open>int64\<close>.\<close>

definition new_run_view :: "backup_pages_env \<Rightarrow> int \<Rightarrow> backup_run \<Rightarrow> string \<Rightarrow> run_view" where
  "new_run_view env now r job =
     (let added = sint (fold (\<lambda>v acc. acc + (word_of_int (vr_data_added v) :: 64 word)) (br_results r) 0) in
      \<lparr>rv_run = r, rv_started = br_started r, rv_duration = run_duration env now r,
       rv_volumes = map (\<lambda>v. \<lparr>vw_result = v, vw_added = human_size (vr_data_added v), vw_total = human_size (vr_total_bytes v)\<rparr>)
         (br_results r),
       rv_job = job,
       rv_added = (if br_kind r = ''backup'' \<and> br_results r \<noteq> [] then human_size added else '''')\<rparr>)"

text \<open>The name of a job is looked up once; a job that is gone has none.\<close>

fun run_views :: "backup_pages_env \<Rightarrow> int \<Rightarrow> (string \<times> string) list \<Rightarrow> backup_run list \<Rightarrow> (db, run_view list) prog" where
  "run_views env now names [] = okP []"
| "run_views env now names (r # rs) =
     bindP (case map_of names (br_job r) of
         Some n \<Rightarrow> okP n
       | None \<Rightarrow> tryP (get_backup_job (br_job r)) (\<lambda>_. okP '''') (\<lambda>j. okP (bj_name j))) (\<lambda>n.
     bindP (run_views env now (put_assoc (br_job r) n names) rs) (\<lambda>vs. okP (new_run_view env now r n # vs)))"

definition views_of :: "backup_pages_env \<Rightarrow> backup_run list \<Rightarrow> (db, run_view list) prog" where
  "views_of env runs = bindP (getP d_now) (\<lambda>now. run_views env now [] runs)"

section \<open>The list of jobs\<close>

definition shown_host_name :: "string \<Rightarrow> (db, string) prog" where
  "shown_host_name i = tryP (get_host i) (\<lambda>_. okP i) (\<lambda>h. okP (if h_name h \<noteq> '''' then h_name h else i))"

text \<open>What the audit log says a job selects.\<close>

definition selection_summary :: "backup_job \<Rightarrow> string" where
  "selection_summary j =
     join_with ''; ''
       ((if bj_volumes j \<noteq> [] then [''volumes '' @ join_with '', '' (bj_volumes j)] else []) @
        (if bj_stacks j \<noteq> [] then [''stacks '' @ join_with '', '' (bj_stacks j)] else []) @
        (if bj_label_rules j \<noteq> [] then [''labels '' @ join_with '', '' (bj_label_rules j)] else []) @
        (if bj_excluded j \<noteq> [] then [''left out '' @ join_with '', '' (bj_excluded j)] else []))"

record job_row =
  jr_job :: backup_job
  jr_host :: string
  jr_destination :: string
  jr_last :: "run_view option"
  jr_missing :: bool
  jr_selected :: "string list"

fun job_rows :: "backup_destination list \<Rightarrow> run_view list \<Rightarrow> backup_job list \<Rightarrow> (db, job_row list) prog" where
  "job_rows dests views [] = okP []"
| "job_rows dests views (j # js) =
     bindP (repo_state (bj_destination j) (bj_host j)) (\<lambda>(state, _).
     bindP (shown_host_name (bj_host j)) (\<lambda>name.
     bindP (resolve_job_volumes j) (\<lambda>sel.
     bindP (job_rows dests views js) (\<lambda>rows.
       okP (\<lparr>jr_job = j, jr_host = name,
           jr_destination = (case find (\<lambda>d. bd_id d = bj_destination j) dests of None \<Rightarrow> '''' | Some d \<Rightarrow> bd_name d),
           jr_last = find (\<lambda>v. br_job (rv_run v) = bj_id j) views, jr_missing = (state = ''missing''),
           jr_selected = selection_names sel\<rparr> # rows)))))"

definition volume_backups_handler :: "backup_pages_env \<Rightarrow> backup_site handler" where
  "volume_backups_handler env c rq =
     tryP (on_bdb list_backup_jobs) (http_fail 500) (\<lambda>jobs.
     bindP (or_none_listed (on_bdb list_backup_destinations)) (\<lambda>dests.
     bindP (or_none_listed (on_bdb (list_backup_runs '''' 30))) (\<lambda>runs.
     bindP (on_bdb (views_of env runs)) (\<lambda>views.
     bindP (on_bdb (job_rows dests views jobs)) (\<lambda>_. page ''volume_backups.html'')))))"

section \<open>The form of a job\<close>

text \<open>What the tree of volumes starts from.\<close>

record tree_state =
  ts_stacks :: "string list"
  ts_picked :: "string list"
  ts_excluded :: "string list"
  ts_rules :: "string list"

record job_form =
  jf_hosts :: "(string \<times> string) list"
  jf_host :: string
  jf_host_name :: string
  jf_destinations :: "backup_destination list"
  jf_volumes :: "volume_choice list"
  jf_state :: tree_state
  jf_names :: "(string \<times> string) list"
  jf_job :: backup_job
  jf_rules :: string

definition no_retention :: retention_policy where
  "no_retention = \<lparr>rp_keep_last = 0, rp_keep_daily = 0, rp_keep_weekly = 0, rp_keep_monthly = 0\<rparr>"

definition no_job :: backup_job where
  "no_job = \<lparr>bj_id = '''', bj_name = '''', bj_host = '''', bj_destination = '''', bj_volumes = [], bj_stacks = [],
     bj_label_rules = [], bj_excluded = [], bj_schedule = '''', bj_mode = '''', bj_retention = no_retention,
     bj_enabled = False, bj_created = 0\<rparr>"

text \<open>What the job ticked or left out and the host no longer reports is added to the volumes.\<close>

definition tree_volumes :: "volume_choice list \<Rightarrow> backup_job option \<Rightarrow> volume_choice list" where
  "tree_volumes volumes job =
     (case job of None \<Rightarrow> volumes
      | Some j \<Rightarrow> volumes @ map (\<lambda>n. \<lparr>vc_name = n, vc_project = '''', vc_labels = []\<rparr>)
          (dedup_from (map vc_name volumes) (bj_volumes j @ bj_excluded j)))"

definition tree_start :: "backup_job option \<Rightarrow> tree_state" where
  "tree_start job =
     (case job of None \<Rightarrow> \<lparr>ts_stacks = [], ts_picked = [], ts_excluded = [], ts_rules = []\<rparr>
      | Some j \<Rightarrow> \<lparr>ts_stacks = bj_stacks j, ts_picked = bj_volumes j, ts_excluded = bj_excluded j, ts_rules = bj_label_rules j\<rparr>)"

definition job_form_data :: "backup_job option \<Rightarrow> string \<Rightarrow> (db, job_form) prog" where
  "job_form_data job asked =
     bindP list_hosts (\<lambda>hosts.
     bindP (or_none_listed list_host_volumes) (\<lambda>vols.
     bindP (or_none_listed list_backup_destinations) (\<lambda>dests.
     let host = (case job of None \<Rightarrow> asked | Some j \<Rightarrow> bj_host j) in
     bindP (or_none_listed list_stacks) (\<lambda>stacks.
     bindP (shown_host_name host) (\<lambda>name.
       okP \<lparr>jf_hosts = map (\<lambda>h. (h_id h, h_name h)) (filter (\<lambda>h. h_status h = ''connected'') hosts),
         jf_host = host, jf_host_name = name, jf_destinations = dests,
         jf_volumes = tree_volumes (host_volume_choices vols host) job, jf_state = tree_start job,
         jf_names = map (\<lambda>st. (st_id st, st_name st)) stacks,
         jf_job = (case job of None \<Rightarrow> no_job\<lparr>bj_mode := ''live'', bj_enabled := True\<rparr> | Some j \<Rightarrow> j),
         jf_rules = (case job of None \<Rightarrow> '''' | Some j \<Rightarrow> join_with [CHR 0x0A] (bj_label_rules j))\<rparr>)))))"

definition volume_backup_job_form_handler :: "backup_pages_env \<Rightarrow> string \<Rightarrow> backup_site handler" where
  "volume_backup_job_form_handler env i c rq =
     (if i = '''' then tryP (on_bdb (job_form_data None (form_value rq ''host''))) (http_fail 500) (\<lambda>_. page ''volume_backup_job.html'')
      else tryP (on_bdb (get_backup_job i)) (\<lambda>_. not_found) (\<lambda>job.
        tryP (on_bdb (job_form_data (Some job) '''')) (http_fail 500) (\<lambda>_.
        bindP (or_none_listed (on_bdb (list_backup_runs (bj_id job) 15))) (\<lambda>runs.
        bindP (on_bdb (views_of env runs)) (\<lambda>_.
        bindP (on_bdb (repo_state (bj_destination job) (bj_host job))) (\<lambda>_.
        bindP (ignoreP (on_bdb (get_backup_destination (bj_destination job)))) (\<lambda>_. page ''volume_backup_job.html'')))))))"

section \<open>What a form asks for\<close>

definition max_picks :: nat where
  "max_picks = 500"

definition picked :: "request \<Rightarrow> string \<Rightarrow> string list" where
  "picked rq k = (case rq_form rq of Inl _ \<Rightarrow> [] | Inr form \<Rightarrow> form_values form k)"

text \<open>The loops over the picks: the first one refused ends the form.\<close>

fun none_refused :: "(string \<Rightarrow> string option) \<Rightarrow> string list \<Rightarrow> unit result" where
  "none_refused refusal [] = Inr ()"
| "none_refused refusal (v # vs) =
     (case refusal v of Some t \<Rightarrow> err_text t | None \<Rightarrow> none_refused refusal vs)"

definition volume_refusal :: "string list \<Rightarrow> backup_job option \<Rightarrow> string \<Rightarrow> string option" where
  "volume_refusal known existing v =
     (if v \<notin> set known \<and> \<not> (case existing of None \<Rightarrow> False | Some j \<Rightarrow> v \<in> set (bj_volumes j))
      then Some (quoted v @ '' is not a named volume of this host'') else None)"

definition stack_refusal :: "string list \<Rightarrow> backup_job option \<Rightarrow> string \<Rightarrow> string option" where
  "stack_refusal projects existing s =
     (if \<not> project_name_re s then Some (quoted s @ '' is not a stack name'')
      else if s \<notin> set projects \<and> \<not> (case existing of None \<Rightarrow> False | Some j \<Rightarrow> s \<in> set (bj_stacks j))
        then Some (''this host has no volume of the stack '' @ quoted s) else None)"

definition exclusion_refusal :: "string \<Rightarrow> string option" where
  "exclusion_refusal v = (if \<not> safe_volume_name v then Some (quoted v @ '' is not a volume name'') else None)"

definition retention_count :: "request \<Rightarrow> string \<Rightarrow> int result" where
  "retention_count rq field =
     (let v = trim_space (form_value rq field) in
      if v = '''' then Inr 0
      else (case atoi v of
          None \<Rightarrow> err_text ''retention counts are whole numbers from 0 to 9999''
        | Some n \<Rightarrow> if n < 0 \<or> n > 9999 then err_text ''retention counts are whole numbers from 0 to 9999'' else Inr n))"

definition retention_from_form :: "request \<Rightarrow> retention_policy result" where
  "retention_from_form rq =
     bind_res (retention_count rq ''keep_last'') (\<lambda>a.
     bind_res (retention_count rq ''keep_daily'') (\<lambda>b.
     bind_res (retention_count rq ''keep_weekly'') (\<lambda>c.
     bind_res (retention_count rq ''keep_monthly'') (\<lambda>d.
       Inr \<lparr>rp_keep_last = a, rp_keep_daily = b, rp_keep_weekly = c, rp_keep_monthly = d\<rparr>))))"

text \<open>The part of \<^verbatim>\<open>jobFromForm\<close> that says what is backed up.\<close>

definition selection_from_form :: "request \<Rightarrow> volume_choice list \<Rightarrow> backup_job option \<Rightarrow> backup_job \<Rightarrow> backup_job result" where
  "selection_from_form rq choices existing job =
     (let volumes = picked rq ''volumes''; stacks = picked rq ''stacks''; excluded = picked rq ''excluded'';
          known = map vc_name choices; projects = filter (\<lambda>p. p \<noteq> '''') (map vc_project choices) in
      bind_res (none_refused (volume_refusal known existing) volumes) (\<lambda>_.
      bind_res (none_refused (stack_refusal projects existing) stacks) (\<lambda>_.
      bind_res (none_refused exclusion_refusal excluded) (\<lambda>_.
      bind_res (guard_res (length volumes > max_picks \<or> length stacks > max_picks \<or> length excluded > max_picks)
        ''too many volumes selected'') (\<lambda>_.
      bind_res (parse_label_rules (form_value rq ''label_rules'')) (\<lambda>rules.
      bind_res (guard_res (length volumes + length stacks + length rules = 0) ''pick at least one volume, one stack, or a label'') (\<lambda>_.
        Inr (job\<lparr>bj_volumes := volumes, bj_stacks := stacks, bj_excluded := excluded, bj_label_rules := rules\<rparr>))))))))"

text \<open>The part that says when, how and how long.\<close>

definition timing_from_form :: "(string \<Rightarrow> unit result) \<Rightarrow> request \<Rightarrow> backup_job \<Rightarrow> backup_job result" where
  "timing_from_form cron rq job =
     (let schedule = trim_space (form_value rq ''schedule''); mode = form_value rq ''mode'' in
      case (if schedule \<noteq> '''' then cron schedule else Inr ()) of
        Inl e \<Rightarrow> err_text (''the schedule is not a 5-field cron expression: '' @ error_text e)
      | Inr _ \<Rightarrow>
        if mode \<noteq> ''live'' \<and> mode \<noteq> ''stop'' then err_text ''pick a consistency mode''
        else bind_res (retention_from_form rq) (\<lambda>retention.
          Inr (job\<lparr>bj_schedule := schedule, bj_mode := mode, bj_retention := retention,
            bj_enabled := form_value rq ''enabled'' \<noteq> ''''\<rparr>)))"

definition job_from_form :: "(string \<Rightarrow> unit result) \<Rightarrow> request \<Rightarrow> backup_job option \<Rightarrow> (db, backup_job) prog" where
  "job_from_form cron rq existing =
     (let name = trim_space (form_value rq ''name'');
          host = (case existing of None \<Rightarrow> form_value rq ''host_id'' | Some j \<Rightarrow> bj_host j);
          dest = form_value rq ''destination_id'' in
      if name = '''' \<or> length name > 80 then failP (ErrText ''give the job a name (80 characters at most)'')
      else tryP (get_host host) (\<lambda>_. failP (ErrText ''pick a host'')) (\<lambda>_.
        tryP (get_backup_destination dest) (\<lambda>_. failP (ErrText ''pick a destination'')) (\<lambda>_.
        bindP (or_none_listed list_host_volumes) (\<lambda>vols.
          liftP (bind_res (selection_from_form rq (host_volume_choices vols host) existing
              ((case existing of None \<Rightarrow> no_job | Some j \<Rightarrow> j)\<lparr>bj_name := name, bj_host := host, bj_destination := dest\<rparr>))
            (timing_from_form cron rq))))))"

section \<open>Jobs\<close>

definition job_page :: "string \<Rightarrow> string" where
  "job_page i = ''/backups/jobs/'' @ i"

definition schedule_saved_job :: "backup_pages_env \<Rightarrow> backup_job \<Rightarrow> (backup_site, reply) prog" where
  "schedule_saved_job env job =
     tryP (on_runs (with_sched (register_volume_backup (be_schedule (ve_agents env)) job)))
       (\<lambda>e. redirect_with_error (job_page (bj_id job)) (''saved, but the schedule could not be registered: '' @ error_text e))
       (\<lambda>_. redirect_with_saved_message (job_page (bj_id job)) ''Job saved'')"

definition create_job :: "backup_pages_env \<Rightarrow> web_context option \<Rightarrow> request \<Rightarrow> (backup_site, reply) prog" where
  "create_job env c rq =
     (let h = form_value rq ''host_id''; back = job_page ''new'' @ (if h \<noteq> '''' then ''?host='' @ h else '''') in
      tryP (on_bdb (job_from_form (be_schedule (ve_agents env)) rq None)) (\<lambda>e. redirect_with_error back (error_text e)) (\<lambda>job.
      bindP (on_bdb draw) (\<lambda>i.
      let job = job\<lparr>bj_id := i\<rparr> in
      tryP (on_bdb (create_backup_job job)) (\<lambda>_. redirect_with_error back ''could not create the job (name already taken?)'') (\<lambda>_.
      audited_backup c ''volume_backup.job_create'' (bj_name job) (selection_summary job) (schedule_saved_job env job)))))"

definition change_job :: "backup_pages_env \<Rightarrow> backup_job \<Rightarrow> web_context option \<Rightarrow> request \<Rightarrow> (backup_site, reply) prog" where
  "change_job env old c rq =
     (let back = job_page (bj_id old) in
      tryP (on_bdb (job_from_form (be_schedule (ve_agents env)) rq (Some old))) (\<lambda>e. redirect_with_error back (error_text e)) (\<lambda>job.
      tryP (on_bdb (update_backup_job job)) (\<lambda>_. redirect_with_error back ''could not save the job (name already taken?)'') (\<lambda>_.
      audited_backup c ''volume_backup.job_update'' (bj_name job) (selection_summary job) (schedule_saved_job env job))))"

definition save_volume_backup_job_handler :: "backup_pages_env \<Rightarrow> string \<Rightarrow> backup_site handler" where
  "save_volume_backup_job_handler env i c rq =
     (if i = '''' then create_job env c rq
      else tryP (on_bdb (get_backup_job i)) (\<lambda>_. not_found) (\<lambda>j. change_job env j c rq))"

definition delete_volume_backup_job_handler :: "string \<Rightarrow> backup_site handler" where
  "delete_volume_backup_job_handler i c rq =
     tryP (on_bdb (get_backup_job i)) (\<lambda>_. not_found) (\<lambda>job.
     bindP (or_none_listed (on_bdb running_backup_runs)) (\<lambda>runs.
       if \<exists>r\<in>set runs. br_job r = bj_id job then redirect_with_error (job_page (bj_id job)) ''a run of this job is in progress''
       else
         bindP (on_runs (with_sched (modP (unregister_volume_backup (bj_id job))))) (\<lambda>_.
         tryP (on_bdb (delete_backup_job (bj_id job))) (http_fail 500) (\<lambda>_.
         audited_backup c ''volume_backup.job_delete'' (bj_name job) ''''
           (redirect_with_saved_message ''/backups'' ''Job removed. Its snapshots stay on the destination'')))))"

definition user_of :: "web_context option \<Rightarrow> string" where
  "user_of c = (case c of None \<Rightarrow> '''' | Some x \<Rightarrow> cx_user x)"

text \<open>The run started, or the reason there is none; a refused run has its own page.\<close>

definition show_started :: "web_context option \<Rightarrow> string \<Rightarrow> string \<Rightarrow> string \<Rightarrow> (string \<Rightarrow> string) \<Rightarrow> start_outcome \<Rightarrow> (backup_site, reply) prog" where
  "show_started c back action name detail out =
     (case out of
        (None, Some e) \<Rightarrow> redirect_with_error back (error_text e)
      | (run, _) \<Rightarrow>
        let i = (case run of None \<Rightarrow> '''' | Some r \<Rightarrow> br_id r) in
        audited_backup c action name (detail i) (answer (SeeOther (''/backups/runs/'' @ i))))"

definition run_volume_backup_handler :: "backup_pages_env \<Rightarrow> string \<Rightarrow> backup_site handler" where
  "run_volume_backup_handler env i c rq =
     tryP (on_bdb (get_backup_job i)) (\<lambda>_. not_found) (\<lambda>job.
     bindP (with_agents env (\<lambda>e. start_volume_backup e job ''manual'' (user_of c)))
       (show_started c (job_page (bj_id job)) ''volume_backup.run'' (bj_name job) (\<lambda>r. ''run '' @ r)))"

section \<open>Quick actions\<close>

definition job_agent_action :: "backup_pages_env \<Rightarrow> backup_job \<Rightarrow> string \<Rightarrow> (backup_site, string) prog" where
  "job_agent_action env job action = agent_action env (bj_destination job) (bj_host job) action id"

definition test_volume_backup_job_handler :: "backup_pages_env \<Rightarrow> string \<Rightarrow> backup_site handler" where
  "test_volume_backup_job_handler env i c rq =
     tryP (on_bdb (get_backup_job i)) (\<lambda>_. not_found) (\<lambda>job.
       say_tested (job_page (bj_id job)) (test_destination env (bj_destination job) (bj_host job)))"

definition init_volume_backup_job_handler :: "backup_pages_env \<Rightarrow> string \<Rightarrow> backup_site handler" where
  "init_volume_backup_job_handler env i c rq =
     tryP (on_bdb (get_backup_job i)) (\<lambda>_. not_found) (\<lambda>job.
       let back = job_page (bj_id job); known = on_bdb (note_repo (bj_destination job) (bj_host job) True) in
       tryP (job_agent_action env job ''backup_init'')
         (\<lambda>e. if contains_str (error_text e) ''already initialized''
            then bindP known (\<lambda>_. redirect_with_saved_message back ''The repository was already initialized: it is ready'')
            else redirect_with_error back (error_text e)) (\<lambda>_.
         bindP known (\<lambda>_.
         bindP (on_bdb (shown_host_name (bj_host job))) (\<lambda>name.
         audited_backup c ''volume_backup.repository_init'' (bj_name job) (''host '' @ name)
           (redirect_with_saved_message back ''The repository is initialized for this host'')))))"

definition volume_backup_run_handler :: "backup_pages_env \<Rightarrow> string \<Rightarrow> backup_site handler" where
  "volume_backup_run_handler env i c rq =
     tryP (on_bdb (get_backup_run i)) (\<lambda>_. not_found) (\<lambda>run.
     bindP (tryP (on_bdb (get_backup_job (br_job run))) (\<lambda>_. okP no_job) okP) (\<lambda>job.
     bindP (on_bdb (shown_host_name (bj_host job))) (\<lambda>_.
     bindP (on_bdb (getP d_now)) (\<lambda>now.
     let v = new_run_view env now run (bj_name job) in page ''volume_backup_run.html''))))"

section \<open>Restoring\<close>

definition snapshot_id_pattern :: "string \<Rightarrow> bool" where
  "snapshot_id_pattern s \<longleftrightarrow> 8 \<le> length s \<and> length s \<le> 64 \<and> list_all (\<lambda>c. is_digit c \<or> c \<in> set ''abcdef'') s"

record snapshot_row =
  sw_id :: string
  sw_short :: string
  sw_time :: string

definition snapshot_time :: "backup_pages_env \<Rightarrow> string \<Rightarrow> string" where
  "snapshot_time env raw = (case ve_utc env raw of None \<Rightarrow> raw | Some t \<Rightarrow> t)"

text \<open>Newest first; the sort of the code leaves the order of equal times open.\<close>

definition snapshot_rows :: "backup_pages_env \<Rightarrow> snapshot_info list \<Rightarrow> snapshot_row list" where
  "snapshot_rows env snaps =
     map (\<lambda>s. \<lparr>sw_id = si_id s, sw_short = si_short s, sw_time = snapshot_time env (si_time s)\<rparr>) (rev (sort_key si_time snaps))"

definition parse_snapshot_list :: "backup_pages_env \<Rightarrow> string \<Rightarrow> snapshot_info list result" where
  "parse_snapshot_list env raw =
     (case ve_snapshots env raw of None \<Rightarrow> err_text ''the agent answered something unexpected'' | Some l \<Rightarrow> Inr l)"

definition volume_backup_restore_form_handler :: "backup_pages_env \<Rightarrow> string \<Rightarrow> backup_site handler" where
  "volume_backup_restore_form_handler env i c rq =
     tryP (on_bdb (get_backup_job i)) (\<lambda>_. not_found) (\<lambda>job.
     bindP (on_bdb (restorable_volumes job)) (\<lambda>restorable.
       let asked = form_value rq ''volume''; volume = (if asked = '''' \<and> restorable \<noteq> [] then hd restorable else asked) in
       if volume \<notin> set restorable then not_found
       else
         bindP (tryP (agent_action env (bj_destination job) (bj_host job) ''backup_snapshots'' (\<lambda>req. req\<lparr>aq_volume := volume\<rparr>))
             (\<lambda>e. okP (Inl e)) (\<lambda>raw. okP (map_sum id (snapshot_rows env) (parse_snapshot_list env raw)))) (\<lambda>_.
         page ''volume_backup_restore.html'')))"

definition arrow_text :: string where
  "arrow_text = [CHR '' '', CHR 0xE2, CHR 0x86, CHR 0x92, CHR '' '']"

definition volume_backup_restore_handler :: "backup_pages_env \<Rightarrow> string \<Rightarrow> backup_site handler" where
  "volume_backup_restore_handler env i c rq =
     tryP (on_bdb (get_backup_job i)) (\<lambda>_. not_found) (\<lambda>job.
       let volume = form_value rq ''volume''; new_volume = trim_space (form_value rq ''new_volume'');
           snapshot = trim_space (form_value rq ''snapshot''); back = job_page (bj_id job) @ ''/restore?volume='' @ volume in
       bindP (on_bdb (restorable_volumes job)) (\<lambda>restorable.
         if volume \<notin> set restorable then not_found
         else if \<not> safe_volume_name new_volume then redirect_with_error back
           ''the new volume's name must start with a letter or digit and use only letters, digits, . _ -''
         else if \<not> snapshot_id_pattern snapshot then redirect_with_error back ''pick a snapshot''
         else
           bindP (with_agents env (\<lambda>e. start_volume_restore e job snapshot volume new_volume (user_of c)))
             (show_started c back ''volume_backup.restore'' (bj_name job)
               (\<lambda>_. volume @ arrow_text @ new_volume @ '' from '' @ take 8 snapshot))))"

end
