(* ===== verification/Backup_Rules.thy ===== *)
theory Backup_Rules
  imports Backup_Pages
begin

text \<open>
  What holds of volume backups along any use of their pages, any schedules that fire and any restart,
  while the rest of the server does what it does: the jobs stored are ones the form accepts, the
  scheduler has an entry for no other job, and nothing that is sent to an agent can break out of a mount
  option or a file name.  Every statement of both databases may fail.
\<close>

section \<open>Mount options\<close>

text \<open>A text that ends no mount option, and a destination an agent may mount.\<close>

definition mount_text :: "string \<Rightarrow> bool" where
  "mount_text v \<longleftrightarrow> CHR '','' \<notin> set v \<and> \<not> list_ex control_char v"

definition plain_folder :: "string \<Rightarrow> bool" where
  "plain_folder s \<longleftrightarrow> s = '''' \<or> (\<forall>w\<in>set (split_on CHR ''/'' s). plain_name_re w \<and> w \<noteq> ''.'' \<and> w \<noteq> ''..'')"

definition config_plain :: "(string \<times> string) list \<Rightarrow> bool" where
  "config_plain m \<longleftrightarrow> smb_server_re (get_str m ''server'') \<and> smb_share_re (get_str m ''share'') \<and> plain_folder (get_str m ''subdir'')
     \<and> get_str m ''version'' \<in> set smb_versions \<and> (get_str m ''domain'' = '''' \<or> smb_domain_re (get_str m ''domain''))
     \<and> get_str m ''username'' \<noteq> '''' \<and> mount_text (get_str m ''username'')"

section \<open>Programs that leave the jobs alone\<close>

text \<open>They may add a destination or change one, as the forms do.\<close>

named_theorems calm_intros \<open>introduction rules of \<open>calm\<close>\<close>

definition unmoved :: "db \<Rightarrow> db \<Rightarrow> bool" where
  "unmoved d d' \<longleftrightarrow> d_jobs d' = d_jobs d \<and> (d_faults d = [] \<longrightarrow> d_faults d' = [])
     \<and> (\<forall>x\<in>set (d_destinations d'). x \<in> set (d_destinations d) \<or> config_plain (bd_config x))"

definition calm :: "(db, 'a) prog \<Rightarrow> bool" where
  "calm m \<longleftrightarrow> (\<forall>d. unmoved d (snd (m d)))"

lemma unmoved_refl [simp]: "unmoved d d" by (simp add: unmoved_def)

lemma unmoved_trans: "unmoved d d' \<Longrightarrow> unmoved d' d'' \<Longrightarrow> unmoved d d''" unfolding unmoved_def by metis

lemma calm_pure [calm_intros]: "calm (okP x)" "calm (failP e)" "calm (getP f)" "calm (liftP r)"
  by (simp_all add: calm_def)

lemma calm_tryP [calm_intros]:
  assumes "calm m" and "\<And>e. calm (h e)" and "\<And>x. calm (f x)"
  shows "calm (tryP m h f)"
  unfolding calm_def
proof
  fix d
  obtain r d1 where m: "m d = (r, d1)" by (metis surj_pair)
  with assms(1) have d1: "unmoved d d1" by (metis calm_def snd_conv)
  show "unmoved d (snd (tryP m h f d))"
    using unmoved_trans [OF d1] assms(2,3) m by (cases r) (auto simp: tryP_def calm_def)
qed

lemma calm_bindP [calm_intros]: "calm m \<Longrightarrow> (\<And>x. calm (f x)) \<Longrightarrow> calm (bindP m f)"
  unfolding bindP_def by (intro calm_intros)

lemma calm_ignoreP [calm_intros]: "calm m \<Longrightarrow> calm (ignoreP m)"
  unfolding ignoreP_def by (intro calm_intros)

lemma calm_wrapP [calm_intros]: "calm m \<Longrightarrow> calm (wrapP pre m)"
  unfolding wrapP_def by (intro calm_intros)

lemma calm_if [calm_intros]: "calm m \<Longrightarrow> calm n \<Longrightarrow> calm (if b then m else n)"
  by simp

lemma calm_cases [calm_intros]:
  "calm m \<Longrightarrow> (\<And>x. calm (f x)) \<Longrightarrow> calm (case v of None \<Rightarrow> m | Some x \<Rightarrow> f x)"
  "(\<And>x. calm (p x)) \<Longrightarrow> (\<And>y. calm (q y)) \<Longrightarrow> calm (case w of Inl x \<Rightarrow> p x | Inr y \<Rightarrow> q y)"
  "(\<And>x y. calm (g x y)) \<Longrightarrow> calm (case z of (x, y) \<Rightarrow> g x y)"
  by (cases v, simp_all) (cases w, simp_all, cases z, simp)

lemma calm_stmt:
  assumes "\<And>d. unmoved d (snd (f d))"
  shows "calm (stmt f)"
  unfolding calm_def stmt_def
proof
  fix d
  have "unmoved d (d\<lparr>d_faults := fs\<rparr>)" if "d_faults d \<noteq> []" for fs using that by (simp add: unmoved_def)
  with assms unmoved_trans show "unmoved d (snd (case d_faults d of [] \<Rightarrow> f d | Some t # fs \<Rightarrow> (err_text t, d\<lparr>d_faults := fs\<rparr>)
      | None # fs \<Rightarrow> f (d\<lparr>d_faults := fs\<rparr>)))"
    by (auto split: list.split option.split) (metis list.discI)
qed

lemma calm_select [calm_intros]: "calm (select f)"
  unfolding select_def by (rule calm_stmt) simp

lemma calm_exec: "(\<And>d. unmoved d (snd (f d))) \<Longrightarrow> calm (exec f)"
  unfolding exec_def by (rule calm_stmt) (simp add: case_prod_unfold Let_def)

lemma calm_exec_checked: "(\<And>d. unmoved d (snd (f d))) \<Longrightarrow> calm (exec_checked bad f)"
  unfolding exec_checked_def by (rule calm_stmt) (simp add: case_prod_unfold Let_def split: option.split)

lemma calm_draw [calm_intros]: "calm draw"
  by (simp add: calm_def draw_def unmoved_def)

lemma calm_rows [calm_intros]:
  "calm (one_row pre q)" "calm m \<Longrightarrow> calm (unitP pre m)" "calm n \<Longrightarrow> calm (some_row pre n)" "calm l \<Longrightarrow> calm (or_none_listed l)"
  unfolding one_row_def unitP_def some_row_def or_none_listed_def by (intro calm_intros; assumption)+

text \<open>The operations of the other tables.\<close>

lemmas backup_reads = get_backup_destination_def list_backup_destinations_def list_backup_jobs_def get_backup_job_def
  get_backup_run_def list_backup_runs_def running_backup_runs_def backup_repo_state_def get_host_def list_hosts_def
  list_host_volumes_def list_stacks_def

lemma calm_reads [calm_intros]:
  "calm (get_backup_destination i)" "calm list_backup_destinations" "calm list_backup_jobs" "calm (get_backup_job i)"
  "calm (get_backup_run i)" "calm (list_backup_runs i n)" "calm running_backup_runs" "calm (backup_repo_state i h)"
  "calm (get_host i)" "calm list_hosts" "calm list_host_volumes" "calm list_stacks"
  unfolding backup_reads by (intro calm_intros)+

lemma calm_writes [calm_intros]:
  "calm (clear_backup_repo_states i)" "calm (set_backup_repo_state i h b)" "calm (create_backup_run x)"
  "calm (finish_backup_run i st co me re rs)" "calm (fail_stale_backup_runs n t)" "calm (record_audit u w y z)"
  unfolding clear_backup_repo_states_def set_backup_repo_state_def create_backup_run_def finish_backup_run_def
    fail_stale_backup_runs_def record_audit_def del_def ups_def ins_def upd_def
  by (intro calm_intros calm_exec calm_exec_checked; simp add: unmoved_def)+

lemma calm_programs [calm_intros]:
  "calm (audit c x y z)" "calm (audit_system u x y z)" "calm (note_repo i h b)" "calm (repo_state i h)" "calm (resolve_job_volumes j)" "calm (restorable_volumes j)"
  "calm (shown_host_name i)" "calm (backup_capable_hosts env)" "calm (connected_agent e h)" "calm (request_for_host e i h)"
  "calm (job_form_data jo i)" "calm (job_from_form cron rq jo)" "calm (note_tested i h t)" "calm give_up_on_lost_runs"
  unfolding audit_def audit_system_def note_repo_def repo_state_def resolve_job_volumes_def restorable_volumes_def shown_host_name_def
    backup_capable_hosts_def connected_agent_def request_for_host_def job_form_data_def job_from_form_def note_tested_def Let_def
    give_up_on_lost_runs_def
  by (intro calm_intros)+

lemma calm_overlaps [calm_intros]: "calm (overlaps_running job vs)"
proof -
  have "calm (overlaps_loop job vs rs)" for rs by (induction rs) (auto intro!: calm_intros)
  then show ?thesis unfolding overlaps_running_def by (intro calm_intros)
qed

lemma calm_views [calm_intros]: "calm (views_of env runs)" "calm (job_rows dests vs js)"
proof -
  have "calm (run_views env now names runs)" for now names
    by (induction runs arbitrary: names) (auto intro!: calm_intros)
  then show "calm (views_of env runs)" unfolding views_of_def by (intro calm_intros)
  show "calm (job_rows dests vs js)" by (induction js) (auto intro!: calm_intros)
qed

section \<open>The invariant\<close>

text \<open>A job whose schedule should fire.\<close>

definition wanted :: "db \<Rightarrow> string \<Rightarrow> bool" where
  "wanted d i \<longleftrightarrow> (\<exists>j\<in>set (d_jobs d). bj_id j = i \<and> bj_enabled j \<and> bj_schedule j \<noteq> '''')"

definition retention_fits :: "retention_policy \<Rightarrow> bool" where
  "retention_fits r \<longleftrightarrow> (\<forall>n\<in>{rp_keep_last r, rp_keep_daily r, rp_keep_weekly r, rp_keep_monthly r}. 0 \<le> n \<and> n \<le> 9999)"

definition rule_key :: "string \<Rightarrow> string" where
  "rule_key rule = (case cut_at ''='' rule of None \<Rightarrow> rule | Some (key, _) \<Rightarrow> key)"

definition job_ok :: "(string \<Rightarrow> unit result) \<Rightarrow> backup_job \<Rightarrow> bool" where
  "job_ok cron j \<longleftrightarrow> bj_name j \<noteq> '''' \<and> length (bj_name j) \<le> 80 \<and> bj_mode j \<in> {''live'', ''stop''} \<and> retention_fits (bj_retention j)
     \<and> (bj_schedule j = '''' \<or> cron (bj_schedule j) = Inr ()) \<and> bj_volumes j @ bj_stacks j @ bj_label_rules j \<noteq> []
     \<and> list_all project_name_re (bj_stacks j) \<and> list_all safe_volume_name (bj_excluded j)
     \<and> length (bj_label_rules j) \<le> 20 \<and> list_all (\<lambda>r. label_key_re (rule_key r)) (bj_label_rules j)"

definition jobs_ok :: "(string \<Rightarrow> unit result) \<Rightarrow> db \<Rightarrow> bool" where
  "jobs_ok cron d \<longleftrightarrow> distinct (map bj_id (d_jobs d)) \<and> (\<forall>j\<in>set (d_jobs d). job_ok cron j)"

definition keys_plain :: "custodian \<Rightarrow> bool" where
  "keys_plain k \<longleftrightarrow> (\<forall>i m. map_of (k_creds k) (backup_cred_id i) = Some m \<longrightarrow> mount_text (get_str m ''smb_password''))"

definition plain_mount :: "agent_backup_destination \<Rightarrow> bool" where
  "plain_mount a \<longleftrightarrow> smb_server_re (ad_server a) \<and> smb_share_re (ad_share a) \<and> plain_folder (ad_subdir a)
     \<and> ad_version a \<in> set smb_versions \<and> (ad_domain a = '''' \<or> smb_domain_re (ad_domain a))
     \<and> ad_username a \<noteq> '''' \<and> mount_text (ad_username a) \<and> ad_password a \<noteq> '''' \<and> mount_text (ad_password a)"

definition sound_command :: "string \<Rightarrow> string \<Rightarrow> agent_backup_request \<Rightarrow> bool" where
  "sound_command host action req \<longleftrightarrow> plain_mount (aq_dest req) \<and> ad_repo_dir (aq_dest req) = host \<and> aq_host_tag req = ''wharf-'' @ host
     \<and> (action = ''backup_restore'' \<longrightarrow> snapshot_id_pattern (aq_snapshot req) \<and> safe_volume_name (aq_new_volume req))"

text \<open>The number a job is known under is that of no other job's entry, even when its own is gone.\<close>

definition tidy :: "scheduler \<Rightarrow> bool" where
  "tidy c \<longleftrightarrow> schedule_inv c
     \<and> (\<forall>i n. map_of (cs_known c) i = Some n \<longrightarrow> n < cs_next c \<and> (\<forall>p\<in>set (cs_cron c). fst p = n \<longrightarrow> snd p = i))"

text \<open>
  \<open>X\<close> are the jobs whose entry is being replaced; \<open>ex\<close> asks that no failure is to come, and then every job
  whose schedule should fire has its entry.
\<close>

definition timed :: "bool \<Rightarrow> string set \<Rightarrow> backup_state \<Rightarrow> bool" where
  "timed ex X b \<longleftrightarrow> tidy (bk_sched b) \<and> (\<forall>i\<in>snd ` set (cs_cron (bk_sched b)). i \<in> X \<or> wanted (bk_db b) i)
     \<and> (ex \<longrightarrow> d_faults (bk_db b) = [] \<and> (\<forall>i. wanted (bk_db b) i \<longrightarrow> i \<in> X \<or> i \<in> snd ` set (cs_cron (bk_sched b))))"

definition runs_ok :: "(string \<Rightarrow> unit result) \<Rightarrow> bool \<Rightarrow> string set \<Rightarrow> backup_state \<Rightarrow> bool" where
  "runs_ok cron ex X b \<longleftrightarrow> jobs_ok cron (bk_db b) \<and> timed ex X b
     \<and> (\<forall>x\<in>set (d_destinations (bk_db b)). config_plain (bd_config x))
     \<and> (\<forall>(h, action, req)\<in>set (bk_sent b). sound_command h action req)"

definition site_ok :: "(string \<Rightarrow> unit result) \<Rightarrow> bool \<Rightarrow> string set \<Rightarrow> backup_site \<Rightarrow> bool" where
  "site_ok cron ex X s \<longleftrightarrow> runs_ok cron ex X (vb_runs s) \<and> keys_plain (vb_keys s)"

section \<open>What keeps it\<close>

lemma unmoved_wanted: "unmoved d d' \<Longrightarrow> wanted d' = wanted d"
  by (intro ext) (simp add: wanted_def unmoved_def)

lemma runs_ok_unmoved:
  assumes "runs_ok cron ex X b" and "unmoved (bk_db b) d"
  shows "runs_ok cron ex X (b\<lparr>bk_db := d\<rparr>)"
proof -
  have w: "wanted d i = wanted (bk_db b) i" for i using unmoved_wanted [OF assms(2)] by simp
  have "jobs_ok cron d = jobs_ok cron (bk_db b)" using assms(2) by (simp add: jobs_ok_def unmoved_def)
  with assms show ?thesis by (simp add: runs_ok_def timed_def w) (auto simp: unmoved_def)
qed

lemma keeps_calm [keeps_intros]: "calm m \<Longrightarrow> keeps (runs_ok cron ex X) (with_bdb m)"
  by (rule keepsI) (auto simp: zoomP_def calm_def split: prod.split intro: runs_ok_unmoved, metis runs_ok_unmoved snd_conv)

lemma keeps_on_runs: "keeps (runs_ok cron ex X) m \<Longrightarrow> keeps (site_ok cron ex X) (on_runs m)"
  by (rule keeps_zoomP) (auto simp: site_ok_def)

lemma keeps_calm_site [keeps_intros]: "calm m \<Longrightarrow> keeps (site_ok cron ex X) (on_bdb m)"
  by (rule keeps_on_runs [OF keeps_calm])

lemma keeps_keys: "keeps keys_plain m \<Longrightarrow> keeps (site_ok cron ex X) (on_bkeys m)"
  by (rule keeps_zoomP) (auto simp: site_ok_def)

lemma keeps_or_none [keeps_intros]: "keeps I m \<Longrightarrow> keeps I (or_none_listed m)"
  unfolding or_none_listed_def by (intro keeps_intros)

lemma keeps_audited_backup [keeps_intros]: "keeps (site_ok cron ex X) nxt \<Longrightarrow> keeps (site_ok cron ex X) (audited_backup c x y z nxt)"
  unfolding audited_backup_def by (intro keeps_intros calm_intros)

text \<open>Every value a program yields satisfies \<open>Q\<close>.\<close>

definition yields :: "('s \<Rightarrow> bool) \<Rightarrow> ('s, 'a) prog \<Rightarrow> ('a \<Rightarrow> bool) \<Rightarrow> bool" where
  "yields I m Q \<longleftrightarrow> (\<forall>s x s'. I s \<longrightarrow> m s = (Inr x, s') \<longrightarrow> Q x)"

lemma keeps_tryP_yields:
  assumes "keeps I m" and "yields I m Q" and "\<And>e. keeps I (h e)" and "\<And>x. Q x \<Longrightarrow> keeps I (f x)"
  shows "keeps I (tryP m h f)"
proof (rule keepsI)
  fix s
  assume s: "I s"
  obtain r s1 where m: "m s = (r, s1)" by (metis surj_pair)
  have "I s1" by (rule keepsE [OF assms(1) s m])
  then show "I (snd (tryP m h f s))"
    using m s assms(2,3,4) by (cases r) (auto simp: tryP_def yields_def keeps_def)
qed

lemma keeps_bindP_yields:
  "keeps I m \<Longrightarrow> yields I m Q \<Longrightarrow> (\<And>x. Q x \<Longrightarrow> keeps I (f x)) \<Longrightarrow> keeps I (bindP m f)"
  unfolding bindP_def by (erule (1) keeps_tryP_yields) auto

lemma yields_zoomP:
  "yields I m Q \<Longrightarrow> (\<And>s. J s \<Longrightarrow> I (get s)) \<Longrightarrow> yields J (zoomP get put m) Q"
  by (auto simp: yields_def zoomP_def split: prod.splits)

lemma yields_bindP:
  "keeps I m \<Longrightarrow> (\<And>x. yields I (f x) Q) \<Longrightarrow> yields I (bindP m f) Q"
  unfolding yields_def by (metis bindP_Inr keepsE)

section \<open>Requests\<close>

lemma destination_plain: "yields (\<lambda>d. \<forall>x\<in>set (d_destinations d). config_plain (bd_config x)) (get_backup_destination i) (\<lambda>x. config_plain (bd_config x))"
  unfolding yields_def get_backup_destination_def by (auto dest!: one_row_Inr(1) find_in)

text \<open>The credentials an environment gives are plain.\<close>

definition plain_env :: "backup_env \<Rightarrow> bool" where
  "plain_env e \<longleftrightarrow> (\<forall>i m. be_creds e (backup_cred_id i) = Inr m \<longrightarrow> mount_text (get_str m ''smb_password''))"

lemma mount_text_empty [simp]: "mount_text ''''" by (simp add: mount_text_def)

lemma agents_now_plain:
  assumes "keys_plain k"
  shows "plain_env (agents_now env k)"
  unfolding plain_env_def
proof (intro allI impI)
  fix i m
  assume m: "be_creds (agents_now env k) (backup_cred_id i) = Inr m"
  then have "secret_credentials (backup_cred_id i) k = (Inr m, snd (secret_credentials (backup_cred_id i) k))"
    by (simp add: agents_now_def prod_eq_iff)
  then have "m = (case map_of (k_creds k) (backup_cred_id i) of None \<Rightarrow> [] | Some m \<Rightarrow> m)"
    by (auto simp: secret_credentials_def kquery_def kstmt_def split: list.splits option.splits)
  then show "mount_text (get_str m ''smb_password'')"
    using assms by (auto simp: keys_plain_def get_str_def [of "[]"] split: option.splits)
qed

lemma agents_now_fields [simp]:
  "be_start (agents_now env k) = be_start (ve_agents env)" "be_connected (agents_now env k) = be_connected (ve_agents env)"
  "be_schedule (agents_now env k) = be_schedule (ve_agents env)"
  by (simp_all add: agents_now_def)

lemma request_plain:
  assumes "config_plain (bd_config d)" and "mount_text (get_str creds ''smb_password'')" and "backup_request_for d creds host = Inr req"
  shows "plain_mount (aq_dest req) \<and> ad_repo_dir (aq_dest req) = host \<and> aq_host_tag req = ''wharf-'' @ host"
  using assms by (auto simp: backup_request_for_def Let_def config_plain_def plain_mount_def split: if_splits)

section \<open>Starting a run\<close>

lemma runs_dests: "runs_ok cron ex X b \<Longrightarrow> \<forall>x\<in>set (d_destinations (bk_db b)). config_plain (bd_config x)"
  by (simp add: runs_ok_def)

lemma runs_ok_sent:
  "runs_ok cron ex X b \<Longrightarrow> sound_command h action req \<Longrightarrow> runs_ok cron ex X (b\<lparr>bk_sent := bk_sent b @ [(h, action, req)]\<rparr>)"
  by (auto simp: runs_ok_def timed_def)

lemma yields_destination:
  "yields (runs_ok cron ex X) (with_bdb (get_backup_destination i)) (\<lambda>x. config_plain (bd_config x))"
  by (rule yields_zoomP [OF destination_plain]) (rule runs_dests)

lemma keeps_refused: "keeps (runs_ok cron ex X) (refused run code e)"
  unfolding refused_def by (intro keeps_intros calm_intros)

lemma keeps_hand:
  "sound_command (bj_host job) action req \<Longrightarrow> keeps (runs_ok cron ex X) (hand_to_agent e job run action req)"
  unfolding hand_to_agent_def by (intro keeps_intros calm_intros keeps_modP runs_ok_sent)

lemma keeps_checked:
  assumes "plain_env e" and "br_kind run = ''restore'' \<Longrightarrow> snapshot_id_pattern snapshot \<and> safe_volume_name (br_restored run)"
  shows "keeps (runs_ok cron ex X) (start_checked e job run volumes snapshot volume)"
  unfolding start_checked_def
proof (rule keeps_tryP_yields [OF keeps_calm yields_destination])
  fix d :: backup_destination
  assume d: "config_plain (bd_config d)"
  show "keeps (runs_ok cron ex X) (case be_creds e (backup_cred_id (bd_id d)) of
      Inl x \<Rightarrow> refused run ''INTERNAL'' x
    | Inr creds \<Rightarrow>
      (case backup_request_for d creds (bj_host job) of
         Inl x \<Rightarrow> refused run ''VALIDATION'' x
       | Inr req \<Rightarrow>
         bindP (with_bdb (repo_state (bj_destination job) (bj_host job))) (\<lambda>(state, _).
             if state = ''missing''
             then refused run ''REPO_NOT_INITIALIZED'' (ErrText (''this host has no repository on the destination yet, so no ''
                    @ br_kind run @ '' was started: initialize it from the job's page first''))
             else tryP (with_bdb (connected_agent e (bj_host job))) (refused run ''HOST'') (\<lambda>_.
               if br_kind run = ''restore''
               then hand_to_agent e job run ''backup_restore''
                 (req\<lparr>aq_run := br_id run, aq_snapshot := snapshot, aq_volume := volume, aq_new_volume := br_restored run\<rparr>)
               else hand_to_agent e job run ''backup_run''
                 (req\<lparr>aq_run := br_id run, aq_volumes := volumes, aq_mode := bj_mode job, aq_retention := bj_retention job\<rparr>)))))"
  proof (cases "be_creds e (backup_cred_id (bd_id d))")
    case (Inr creds)
    show ?thesis
    proof (cases "backup_request_for d creds (bj_host job)")
      case req: (Inr req)
      have "plain_mount (aq_dest req) \<and> ad_repo_dir (aq_dest req) = bj_host job \<and> aq_host_tag req = ''wharf-'' @ bj_host job"
        using request_plain [OF d _ req] assms(1) Inr by (simp add: plain_env_def)
      then show ?thesis unfolding Inr req sum.case
        by (intro keeps_intros calm_intros keeps_refused keeps_hand) (use assms(2) in \<open>simp_all add: sound_command_def\<close>)
    qed (simp add: Inr keeps_refused)
  qed (simp add: keeps_refused)
qed (rule calm_reads keeps_refused)+

lemma keeps_start:
  assumes "plain_env e" and "kind = ''restore'' \<Longrightarrow> snapshot_id_pattern snapshot \<and> safe_volume_name new"
  shows "keeps (runs_ok cron ex X) (start_volume_action e job kind trigger actor snapshot volume new)"
  unfolding start_volume_action_def Let_def
  by (intro keeps_intros calm_intros keeps_refused keeps_checked assms) (simp_all add: assms)

lemma keeps_scheduled:
  assumes "plain_env e"
  shows "keeps (runs_ok cron ex X) (run_scheduled_volume_backup e i)"
  unfolding run_scheduled_volume_backup_def start_volume_backup_def
  by (intro keeps_intros calm_intros keeps_start assms) simp

lemma keeps_with_agents:
  assumes "\<And>e. plain_env e \<Longrightarrow> keeps (runs_ok cron ex X) (f e)"
  shows "keeps (site_ok cron ex X) (with_agents env f)"
proof (rule keepsI)
  fix s
  assume s: "site_ok cron ex X s"
  then have "plain_env (agents_now env (vb_keys s))" by (simp add: site_ok_def agents_now_plain)
  from keepsD [OF keeps_on_runs [OF assms [OF this]] s]
  show "site_ok cron ex X (snd (with_agents env f s))" by (simp add: with_agents_def bindP_def tryP_def)
qed

section \<open>Quick commands\<close>

lemma yields_request: "yields (site_ok cron ex X) (request_now env dest host)
    (\<lambda>req. plain_mount (aq_dest req) \<and> ad_repo_dir (aq_dest req) = host \<and> aq_host_tag req = ''wharf-'' @ host)"
  unfolding yields_def
proof (intro allI impI)
  fix s req s'
  assume s: "site_ok cron ex X s" and run: "request_now env dest host s = (Inr req, s')"
  let ?e = "agents_now env (vb_keys s)"
  have e: "plain_env ?e" using s by (simp add: site_ok_def agents_now_plain)
  from run obtain d where "request_for_host ?e dest host (bk_db (vb_runs s)) = (Inr req, d)"
    by (auto simp: request_now_def with_agents_def bindP_def tryP_def zoomP_run)
  then obtain x d1 creds where x: "get_backup_destination dest (bk_db (vb_runs s)) = (Inr x, d1)"
    and creds: "be_creds ?e (backup_cred_id dest) = Inr creds" and req: "backup_request_for x creds host = Inr req"
    by (auto simp: request_for_host_def tryP_run bindP_Inr)
  have "config_plain (bd_config x)"
    using destination_plain x s unfolding yields_def site_ok_def runs_ok_def by blast
  with request_plain [OF _ _ req] e creds
  show "plain_mount (aq_dest req) \<and> ad_repo_dir (aq_dest req) = host \<and> aq_host_tag req = ''wharf-'' @ host"
    by (auto simp: plain_env_def)
qed

lemma keeps_request: "keeps (site_ok cron ex X) (request_now env dest host)"
  unfolding request_now_def by (intro keeps_with_agents keeps_calm calm_intros)

lemma keeps_quick: "sound_command host action req \<Longrightarrow> keeps (site_ok cron ex X) (quick_command env host action req)"
  unfolding quick_command_def by (intro keeps_intros keeps_on_runs keeps_modP runs_ok_sent)

lemma keeps_agent_action:
  assumes "\<And>req. aq_dest (f req) = aq_dest req" and "\<And>req. aq_host_tag (f req) = aq_host_tag req" and "action \<noteq> ''backup_restore''"
  shows "keeps (site_ok cron ex X) (agent_action env dest host action f)"
  unfolding agent_action_def connected_now_def
  by (rule keeps_bindP_yields [OF keeps_request yields_request], intro keeps_intros calm_intros keeps_quick)
    (simp add: sound_command_def assms)

lemma keeps_say: "keeps I m \<Longrightarrow> keeps I (say_tested back m)"
  unfolding say_tested_def by (intro keeps_intros)

lemma keeps_test: "keeps (site_ok cron ex X) (test_destination env dest host)"
  unfolding test_destination_def by (intro keeps_intros calm_intros keeps_agent_action) simp_all

section \<open>The form of a destination\<close>

lemma check_mount_text_Inr: "check_mount_text what v = Inr u \<longleftrightarrow> v \<noteq> '''' \<and> mount_text v"
proof -
  have "contains_str s '','' \<longleftrightarrow> CHR '','' \<in> set s" for s
    by (simp add: contains_iff in_set_conv_decomp)
  then show ?thesis by (simp add: check_mount_text_def mount_text_def)
qed

lemma validated_config:
  assumes "validate_smb need f = Inr u"
  shows "config_plain (smb_config f)" and "mount_text (sf_password f)" and "need \<Longrightarrow> sf_password f \<noteq> ''''"
proof -
  have "plain_folder (sf_folder f)"
    using assms by (auto simp: validate_smb_def plain_folder_def smb_folder_re_def list_all_iff list_ex_iff split: if_splits)
  with assms show "config_plain (smb_config f)"
    by (auto simp: validate_smb_def config_plain_def smb_config_def get_str_def bind_res_eq_Inr check_mount_text_Inr split: if_splits)
  show "mount_text (sf_password f)" "need \<Longrightarrow> sf_password f \<noteq> ''''"
    using assms by (auto simp: validate_smb_def bind_res_eq_Inr check_mount_text_Inr split: if_splits)
qed

section \<open>Destinations and their credentials\<close>

lemma calm_create_destination: "config_plain (bd_config x) \<Longrightarrow> calm (create_backup_destination x)"
  unfolding create_backup_destination_def ins_def
  by (intro calm_intros calm_exec_checked) (simp add: unmoved_def)

lemma calm_update_destination: "config_plain m \<Longrightarrow> calm (update_backup_destination i n m)"
  unfolding update_backup_destination_def upd_unique_def
  by (intro calm_intros calm_exec_checked) (auto simp: unmoved_def in_update_where)

lemma calm_delete_destination [calm_intros]: "calm (delete_backup_destination i)"
  unfolding delete_backup_destination_def del_def Let_def
  by (intro calm_intros calm_exec) (simp add: unmoved_def delete_where_def)

lemma backup_keeps_kstmt: "(\<And>k fs. I k \<Longrightarrow> I (k\<lparr>k_faults := fs\<rparr>)) \<Longrightarrow> (\<And>k. I k \<Longrightarrow> I (snd (f k))) \<Longrightarrow> keeps I (kstmt f)"
  by (auto simp: keeps_def kstmt_def split: list.split option.split)

lemma keys_plain_read: "keeps keys_plain (secret_credentials i)"
  unfolding secret_credentials_def kquery_def by (intro keeps_intros backup_keeps_kstmt) (auto simp: keys_plain_def)

lemma keys_plain_delete: "keeps keys_plain (delete_secret_credentials i)"
  unfolding delete_secret_credentials_def kexec_def by (intro keeps_intros backup_keeps_kstmt) (auto simp: keys_plain_def)

lemma keys_plain_set: "mount_text (get_str m ''smb_password'') \<Longrightarrow> keeps keys_plain (set_secret_credentials i m)"
  unfolding set_secret_credentials_def kexec_def
  by (intro keeps_intros backup_keeps_kstmt keys_plain_delete) (auto simp: keys_plain_def)

lemma destination_handlers:
  "keeps (site_ok cron ex X) (volume_backup_destinations_handler c rq)"
  "keeps (site_ok cron ex X) (volume_backup_destination_form_handler env i c rq)"
  "keeps (site_ok cron ex X) (delete_volume_backup_destination_handler i c rq)"
  "keeps (site_ok cron ex X) (reveal_volume_backup_repo_password_handler i c rq)"
  "keeps (site_ok cron ex X) (test_volume_backup_destination_handler env i c rq)"
  unfolding volume_backup_destinations_handler_def volume_backup_destination_form_handler_def Let_def password_page_def answer_def
    delete_volume_backup_destination_handler_def reveal_volume_backup_repo_password_handler_def test_volume_backup_destination_handler_def
  by (intro keeps_intros calm_intros keeps_keys keys_plain_read keys_plain_delete keeps_say keeps_test)+

lemma keeps_create_destination: "keeps (site_ok cron ex X) (create_volume_backup_destination_handler c rq)"
proof (cases "validate_smb True (smb_fields_from_form rq)")
  case (Inr u)
  from validated_config [OF this] show ?thesis
    unfolding create_volume_backup_destination_handler_def Let_def Inr sum.case password_page_def answer_def
    by (intro keeps_intros calm_intros calm_create_destination keeps_keys keys_plain_set keys_plain_delete)
      (simp_all add: get_str_def)
qed (simp add: create_volume_backup_destination_handler_def keeps_reply)

lemma keeps_save_destination:
  "config_plain (smb_config f) \<Longrightarrow> keeps (site_ok cron ex X) (save_destination c i f)"
  unfolding save_destination_def by (intro keeps_intros calm_intros calm_update_destination)

lemma keeps_update_destination: "keeps (site_ok cron ex X) (update_volume_backup_destination_handler i c rq)"
proof (cases "validate_smb False (smb_fields_from_form rq)")
  case (Inr u)
  from validated_config [OF this] show ?thesis
    unfolding update_volume_backup_destination_handler_def Let_def Inr sum.case
    by (intro keeps_intros calm_intros keeps_save_destination keeps_keys keys_plain_set keys_plain_read)
      (simp_all add: get_str_def)
next
  case (Inl e)
  then show ?thesis unfolding update_volume_backup_destination_handler_def Let_def
    by (simp, intro keeps_intros calm_intros)
qed

section \<open>The form of a job\<close>

lemma none_refused_Inr: "none_refused r vs = Inr u \<longleftrightarrow> (\<forall>v\<in>set vs. r v = None)"
  by (induction vs) (auto split: option.splits)

lemma parsed_lines:
  "parse_label_lines ls rules = Inr out \<Longrightarrow> list_all (\<lambda>r. label_key_re (rule_key r)) rules \<Longrightarrow> list_all (\<lambda>r. label_key_re (rule_key r)) out"
proof (induction ls arbitrary: rules)
  case (Cons l ls)
  have key: "cut_at ''='' r = None \<Longrightarrow> rule_key r = r" "cut_at ''='' r = Some (k, v) \<Longrightarrow> rule_key r = k" for r k v
    by (simp_all add: rule_key_def)
  from Cons.prems show ?case
    by (auto simp: Let_def key split: if_splits option.splits prod.splits intro: Cons.IH)
qed simp

lemma parsed_rules:
  "parse_label_rules text = Inr rules \<Longrightarrow> length rules \<le> 20 \<and> list_all (\<lambda>r. label_key_re (rule_key r)) rules"
  by (auto simp: parse_label_rules_def bind_res_eq_Inr max_label_rules_def split: if_splits dest: parsed_lines)

lemma retention_counted: "retention_count rq k = Inr n \<Longrightarrow> 0 \<le> n \<and> n \<le> 9999"
  by (auto simp: retention_count_def Let_def split: if_splits option.splits)

lemma retention_read: "retention_from_form rq = Inr r \<Longrightarrow> retention_fits r"
  by (auto simp: retention_from_form_def bind_res_eq_Inr retention_fits_def dest: retention_counted)

lemma form_selects:
  assumes "selection_from_form rq choices existing job = Inr j"
  shows "bj_volumes j @ bj_stacks j @ bj_label_rules j \<noteq> [] \<and> list_all project_name_re (bj_stacks j)
     \<and> list_all safe_volume_name (bj_excluded j) \<and> length (bj_label_rules j) \<le> 20
     \<and> list_all (\<lambda>r. label_key_re (rule_key r)) (bj_label_rules j) \<and> bj_id j = bj_id job \<and> bj_name j = bj_name job"
  using assms parsed_rules
  by (auto simp: selection_from_form_def Let_def bind_res_eq_Inr none_refused_Inr stack_refusal_def exclusion_refusal_def
      list_all_iff split: if_splits)

lemma form_times:
  assumes "timing_from_form cron rq job = Inr j"
  shows "bj_mode j \<in> {''live'', ''stop''} \<and> retention_fits (bj_retention j) \<and> (bj_schedule j = '''' \<or> cron (bj_schedule j) = Inr ())
     \<and> bj_volumes j = bj_volumes job \<and> bj_stacks j = bj_stacks job \<and> bj_label_rules j = bj_label_rules job
     \<and> bj_excluded j = bj_excluded job \<and> bj_id j = bj_id job \<and> bj_name j = bj_name job"
  using assms
  by (auto simp: timing_from_form_def Let_def bind_res_eq_Inr split: if_splits sum.splits dest: retention_read)

lemma form_job:
  "yields I (job_from_form cron rq existing)
     (\<lambda>j. job_ok cron j \<and> bj_id j = (case existing of None \<Rightarrow> '''' | Some old \<Rightarrow> bj_id old))"
proof -
  have "job_ok cron j \<and> bj_id j = (case existing of None \<Rightarrow> '''' | Some old \<Rightarrow> bj_id old)"
    if run: "job_from_form cron rq existing d = (Inr j, d')" for d j d'
  proof -
    let ?base = "\<lambda>name host dest. (case existing of None \<Rightarrow> no_job | Some j \<Rightarrow> j)\<lparr>bj_name := name, bj_host := host, bj_destination := dest\<rparr>"
    let ?name = "trim_space (form_value rq ''name'')"
    from run have name: "?name \<noteq> ''''" "length ?name \<le> 80"
      by (auto simp: job_from_form_def Let_def split: if_splits)
    from run obtain choices host dest j0 where "selection_from_form rq choices existing (?base ?name host dest) = Inr j0"
      and "timing_from_form cron rq j0 = Inr j"
      by (auto simp: job_from_form_def Let_def tryP_run bindP_Inr bind_res_eq_Inr split: if_splits)
    from form_selects [OF this(1)] form_times [OF this(2)] name show ?thesis
      by (auto simp: job_ok_def no_job_def split: option.splits)
  qed
  then show ?thesis by (auto simp: yields_def)
qed

section \<open>Entries of the scheduler\<close>

lemma tidy_forget:
  assumes "tidy c"
  shows "tidy (forget i c)" and "set (cs_cron (forget i c)) = {p \<in> set (cs_cron c). snd p \<noteq> i}"
proof -
  have I: "schedule_inv c" and K: "\<And>k n p. map_of (cs_known c) k = Some n \<Longrightarrow> p \<in> set (cs_cron c) \<Longrightarrow> fst p = n \<Longrightarrow> snd p = k"
    and N: "\<And>k n. map_of (cs_known c) k = Some n \<Longrightarrow> n < cs_next c"
    using assms by (auto simp: tidy_def)
  have keep: "p \<in> set (cs_cron (cron_remove i c))" if "p \<in> set (cs_cron c)" "snd p \<noteq> i" for p
    using K [OF _ that(1)] that by (auto simp: cron_remove_def set_del_assoc split: option.split)
  have less: "set (cs_cron (cron_remove i c)) \<subseteq> set (cs_cron c)"
    by (auto simp: cron_remove_def set_del_assoc split: option.split)
  then show cron: "set (cs_cron (forget i c)) = {p \<in> set (cs_cron c). snd p \<noteq> i}"
    using keep removed [OF I, of i] by (auto simp: image_iff)
  have "cs_known (forget i c) = del_assoc i (cs_known c)" "cs_next (forget i c) = cs_next c"
    by (auto simp: forget_def cron_remove_def split: option.split)
  then show "tidy (forget i c)" using inv_forget [OF I, of i] K N cron by (auto simp: tidy_def)
qed

lemma tidy_add:
  assumes "tidy c" and "i \<notin> snd ` set (cs_cron c)"
  shows "tidy (cron_add i c)" and "snd ` set (cs_cron (cron_add i c)) = insert i (snd ` set (cs_cron c))"
proof -
  show "snd ` set (cs_cron (cron_add i c)) = insert i (snd ` set (cs_cron c))" by (simp add: cron_add_def)
  have "fst p < cs_next c" if "p \<in> set (cs_cron c)" for p using assms(1) that by (auto simp: tidy_def schedule_inv_def)
  then show "tidy (cron_add i c)"
    using assms inv_add [of c i] by (fastforce simp: tidy_def cron_add_def split: if_splits)
qed

lemma tidy_empty: "tidy no_schedules"
  by (simp add: tidy_def no_schedules_def schedule_inv_def)

section \<open>Registering a stored job\<close>

text \<open>The job is stored, as far as its schedule is concerned.\<close>

definition stored :: "(string \<Rightarrow> unit result) \<Rightarrow> backup_job \<Rightarrow> db \<Rightarrow> bool" where
  "stored cron job d \<longleftrightarrow> job_ok cron job \<and> (\<exists>j\<in>set (d_jobs d). bj_id j = bj_id job)
     \<and> (\<forall>j\<in>set (d_jobs d). bj_id j = bj_id job \<longrightarrow> bj_enabled j = bj_enabled job \<and> bj_schedule j = bj_schedule job)"

lemma stored_unmoved: "stored cron job d \<Longrightarrow> unmoved d d' \<Longrightarrow> stored cron job d'"
  by (simp add: stored_def unmoved_def)

lemma stored_wanted: "stored cron job d \<Longrightarrow> wanted d (bj_id job) \<longleftrightarrow> bj_enabled job \<and> bj_schedule job \<noteq> ''''"
  by (auto simp: stored_def wanted_def)

lemma registered_cron:
  assumes "tidy c" and "job_ok cron job"
  shows "tidy (snd (register_volume_backup cron job c))"
    and "snd ` set (cs_cron (snd (register_volume_backup cron job c)))
      = (snd ` set (cs_cron c) - {bj_id job}) \<union> (if bj_enabled job \<and> bj_schedule job \<noteq> '''' then {bj_id job} else {})"
    and "fst (register_volume_backup cron job c) = Inr ()"
proof -
  let ?c = "forget (bj_id job) c"
  note t = tidy_forget [OF assms(1), of "bj_id job"]
  have gone: "snd ` set (cs_cron ?c) = snd ` set (cs_cron c) - {bj_id job}"
    unfolding t(2) by auto
  have reg: "register_volume_backup cron job c
      = (Inr (), if bj_enabled job \<and> bj_schedule job \<noteq> '''' then cron_add (bj_id job) ?c else ?c)"
    using assms(2)
    by (auto simp: register_volume_backup_def unregister_volume_backup_def bindP_def tryP_def job_ok_def split: sum.split)
  from tidy_add [OF t(1), of "bj_id job"] t(1) gone
  show "tidy (snd (register_volume_backup cron job c))"
    and "snd ` set (cs_cron (snd (register_volume_backup cron job c)))
      = (snd ` set (cs_cron c) - {bj_id job}) \<union> (if bj_enabled job \<and> bj_schedule job \<noteq> '''' then {bj_id job} else {})"
    and "fst (register_volume_backup cron job c) = Inr ()"
    by (auto simp: reg)
qed

lemma register_stored:
  assumes "runs_ok cron ex (insert (bj_id job) X) b" and "stored cron job (bk_db b)"
  shows "runs_ok cron ex X (snd (with_sched (register_volume_backup cron job) b))"
    and "fst (with_sched (register_volume_backup cron job) b) = Inr ()"
    and "bk_db (snd (with_sched (register_volume_backup cron job) b)) = bk_db b"
proof -
  have t: "tidy (bk_sched b)" and j: "job_ok cron job" using assms by (simp_all add: runs_ok_def timed_def stored_def)
  note r = registered_cron [OF t j]
  obtain c where c: "register_volume_backup cron job (bk_sched b) = (Inr (), c)" using r(3) by (metis prod.collapse)
  then have run: "with_sched (register_volume_backup cron job) b = (Inr (), b\<lparr>bk_sched := c\<rparr>)" by (simp add: zoomP_def)
  from r(1,2) c have "tidy c" and ids: "snd ` set (cs_cron c) = (snd ` set (cs_cron (bk_sched b)) - {bj_id job})
      \<union> (if bj_enabled job \<and> bj_schedule job \<noteq> '''' then {bj_id job} else {})" by simp_all
  have "timed ex X (b\<lparr>bk_sched := c\<rparr>)"
    using assms(1) stored_wanted [OF assms(2)] \<open>tidy c\<close> unfolding runs_ok_def timed_def by (auto simp: ids)
  with assms(1) run show "runs_ok cron ex X (snd (with_sched (register_volume_backup cron job) b))"
    by (simp add: runs_ok_def)
  show "fst (with_sched (register_volume_backup cron job) b) = Inr ()"
    and "bk_db (snd (with_sched (register_volume_backup cron job) b)) = bk_db b" by (simp_all add: run)
qed

section \<open>The table of jobs\<close>

text \<open>The rest of the database and the failures to come, across a write to the table of jobs.\<close>

definition beside_jobs :: "db \<Rightarrow> db \<Rightarrow> bool" where
  "beside_jobs d d' \<longleftrightarrow> d_destinations d' = d_destinations d \<and> (d_faults d = [] \<longrightarrow> d_faults d' = [])"

lemma no_faults:
  assumes "d_faults d = []"
  shows "d_faults (snd (create_backup_job job d)) = []" and "d_faults (snd (update_backup_job job d)) = []"
    and "delete_backup_job i d = (Inr (), snd (delete_backup_job i d))" and "d_faults (snd (delete_backup_job i d)) = []"
proof -
  let ?I = "\<lambda>d. d_faults d = []"
  have stmt: "keeps ?I (stmt f)" if "\<And>d. ?I d \<Longrightarrow> ?I (snd (f d))" for f :: "db \<Rightarrow> 'a result \<times> db"
    using that by (auto simp: keeps_def stmt_def)
  have "keeps ?I (create_backup_job job)" "keeps ?I (update_backup_job job)"
    unfolding create_backup_job_def update_backup_job_def ins_def upd_unique_def exec_checked_def
    by (intro keeps_intros stmt; simp split: option.split)+
  with assms show "d_faults (snd (create_backup_job job d)) = []" "d_faults (snd (update_backup_job job d)) = []"
    by (auto simp: keeps_def)
  show "delete_backup_job i d = (Inr (), snd (delete_backup_job i d))" "d_faults (snd (delete_backup_job i d)) = []"
    using assms by (simp_all add: delete_backup_job_def unitP_def bindP_def tryP_def wrapP_def faultless_exec)
qed

lemma job_create_cases:
  assumes "create_backup_job job d = (r, d')"
  obtains (error) e where "r = Inl e" "unmoved d d'"
  | (run) t where "r = Inr ()" "\<forall>j\<in>set (d_jobs d). bj_id j \<noteq> bj_id job" "d_jobs d' = d_jobs d @ [job\<lparr>bj_created := t\<rparr>]" "beside_jobs d d'"
proof -
  let ?ins = "ins d_jobs d_jobs_update
      [(''backup_jobs.id'', \<lambda>r. bj_id r = bj_id job), (''backup_jobs.name'', \<lambda>r. bj_name r = bj_name job)]
      (\<lambda>d. job\<lparr>bj_created := d_now d\<rparr>)"
  have f: "d_faults d = [] \<longrightarrow> d_faults d' = []" by (metis no_faults(1) assms snd_conv)
  obtain r1 where i: "?ins d = (r1, d')" and r: "r = (case r1 of Inl e \<Rightarrow> Inl (ErrWrap ''create backup job: '' e) | Inr _ \<Rightarrow> Inr ())"
    using assms by (auto simp: create_backup_job_def unitP_def bindP_def tryP_def wrapP_def split: prod.splits sum.splits)
  from i show ?thesis
  proof (cases rule: ins_cases)
    case (error t fs)
    with f r show ?thesis by (intro that(1)) (auto simp: unmoved_def)
  next
    case (run fs)
    with f r show ?thesis by (intro that(2)) (auto simp: first_clash_None beside_jobs_def)
  qed
qed

lemma job_update_cases:
  assumes "update_backup_job job d = (r, d')"
  obtains (error) e where "r = Inl e" "unmoved d d'"
  | (run) "r = Inr ()" "\<exists>j\<in>set (d_jobs d). bj_id j = bj_id job"
      "d_jobs d' = update_where (\<lambda>j. bj_id j = bj_id job) (\<lambda>j. job\<lparr>bj_created := bj_created j\<rparr>) (d_jobs d)" "beside_jobs d d'"
proof -
  let ?rows = "update_where (\<lambda>j. bj_id j = bj_id job) (\<lambda>j. job\<lparr>bj_created := bj_created j\<rparr>) (d_jobs d)"
  have f: "d_faults d = [] \<longrightarrow> d_faults d' = []" by (metis no_faults(2) assms snd_conv)
  obtain r1 where u: "upd_unique d_jobs d_jobs_update [(''backup_jobs.name'', \<lambda>r. bj_name r = bj_name job)]
      (\<lambda>r. bj_id r = bj_id job) (\<lambda>r. bj_id r = bj_id job) (\<lambda>r. job\<lparr>bj_created := bj_created r\<rparr>) d = (r1, d')"
    and r: "r = (case r1 of Inl e \<Rightarrow> Inl (ErrWrap ''update backup job: '' e) | Inr k \<Rightarrow> if k = 0 then Inl ErrNotFound else Inr ())"
    using assms by (auto simp: update_backup_job_def some_row_def bindP_def tryP_def wrapP_def split: prod.splits sum.splits if_splits)
  from u [unfolded upd_unique_def] show ?thesis
  proof (cases rule: exec_checked_cases)
    case (error t fs)
    with f r show ?thesis by (intro that(1)) (auto simp: unmoved_def)
  next
    case (run fs)
    then have d': "d_jobs d' = ?rows" "d_destinations d' = d_destinations d"
      and r1: "r1 = Inr (count_where (\<lambda>r. bj_id r = bj_id job) (d_jobs d))" by simp_all
    show ?thesis
    proof (cases "\<exists>j\<in>set (d_jobs d). bj_id j = bj_id job")
      case True
      with d' r1 r f show ?thesis by (intro that(2)) (auto simp: count_where_def filter_empty_conv beside_jobs_def)
    next
      case False
      then have "?rows = d_jobs d" by (auto simp: update_where_def intro!: map_idI)
      with False d' r1 r f show ?thesis by (intro that(1)) (auto simp: count_where_def filter_empty_conv unmoved_def)
    qed
  qed
qed

lemma job_delete_cases:
  assumes "delete_backup_job i d = (r, d')"
  obtains (error) e where "r = Inl e" "unmoved d d'" "d_faults d \<noteq> []"
  | (run) "r = Inr ()" "d_jobs d' = delete_where (\<lambda>j. bj_id j = i) (d_jobs d)" "beside_jobs d d'"
proof -
  have f: "d_faults d = [] \<longrightarrow> d_faults d' = []" by (metis no_faults(4) assms snd_conv)
  have ok: "d_faults d = [] \<Longrightarrow> r = Inr ()" using no_faults(3) [of d i] assms by simp
  have jobs: "d_jobs d1 = d_jobs d \<and> d_destinations d1 = d_destinations d"
    if "unitP pre (del d_runs d_runs_update P) d = (r1, d1)" for pre P r1 d1
  proof -
    from that obtain r2 where "del d_runs d_runs_update P d = (r2, d1)" by (metis prod.collapse snd_conv snd_unitP)
    then show ?thesis by (cases rule: del_cases) simp_all
  qed
  from assms [unfolded delete_backup_job_def] show ?thesis
  proof (cases rule: bindP_cases)
    case (error e)
    with jobs f ok show ?thesis by (intro that(1)) (auto simp: unmoved_def)
  next
    case (run u d1)
    from run(2) obtain r2 where "del d_jobs d_jobs_update (\<lambda>_ r. bj_id r = i) d1 = (r2, d')"
      and r: "r = (case r2 of Inl e \<Rightarrow> Inl (ErrWrap ''delete backup job: '' e) | Inr _ \<Rightarrow> Inr ())"
      by (auto simp: unitP_def bindP_def tryP_def wrapP_def split: prod.splits sum.splits)
    then show ?thesis
    proof (cases rule: del_cases)
      case (error t fs)
      with jobs [OF run(1)] f ok r show ?thesis by (intro that(1)) (auto simp: unmoved_def)
    next
      case (run fs)
      with jobs [OF \<open>unitP _ _ d = (Inr u, d1)\<close>] f r show ?thesis by (intro that(2)) (auto simp: beside_jobs_def)
    qed
  qed
qed

text \<open>A write to the table keeps the rest of the invariant.\<close>

lemma runs_ok_jobs:
  assumes "runs_ok cron ex X b" and "beside_jobs (bk_db b) d" and "jobs_ok cron d"
    and "\<And>k. k \<noteq> i \<Longrightarrow> wanted d k = wanted (bk_db b) k" and "i \<in> Y \<or> i \<notin> snd ` set (cs_cron (bk_sched b)) \<and> \<not> wanted d i"
    and "X \<subseteq> insert i Y" and "Y \<subseteq> insert i X"
  shows "runs_ok cron ex Y (b\<lparr>bk_db := d\<rparr>)"
proof -
  have T: "tidy (bk_sched b)" and in_X: "\<And>k. k \<in> snd ` set (cs_cron (bk_sched b)) \<Longrightarrow> k \<in> X \<or> wanted (bk_db b) k"
    and E: "ex \<Longrightarrow> d_faults (bk_db b) = []" "\<And>k. ex \<Longrightarrow> wanted (bk_db b) k \<Longrightarrow> k \<in> X \<or> k \<in> snd ` set (cs_cron (bk_sched b))"
    using assms(1) by (auto simp: runs_ok_def timed_def)
  have "k \<in> Y \<or> wanted d k" if "k \<in> snd ` set (cs_cron (bk_sched b))" for k
    using in_X [OF that] assms(4-6) that by (cases "k = i") auto
  moreover have "k \<in> Y \<or> k \<in> snd ` set (cs_cron (bk_sched b))" if ex "wanted d k" for k
    using E(2) [OF that(1)] that(2) assms(4-6) by (cases "k = i") auto
  ultimately have "timed ex Y (b\<lparr>bk_db := d\<rparr>)"
    using T E(1) assms(2) unfolding timed_def beside_jobs_def by simp
  with assms show ?thesis by (simp add: runs_ok_def beside_jobs_def)
qed

lemma job_created:
  assumes "runs_ok cron ex X b" and "job_ok cron job" and "with_bdb (create_backup_job job) b = (r, b')"
  shows "case r of Inl e \<Rightarrow> runs_ok cron ex X b' | Inr _ \<Rightarrow> runs_ok cron ex (insert (bj_id job) X) b' \<and> stored cron job (bk_db b')"
proof -
  from assms(3) obtain d where d: "create_backup_job job (bk_db b) = (r, d)" "b' = b\<lparr>bk_db := d\<rparr>" by (auto simp: zoomP_run)
  from d(1) show ?thesis
  proof (cases rule: job_create_cases)
    case (error e)
    then show ?thesis using runs_ok_unmoved [OF assms(1)] d by simp
  next
    case (run t)
    have J: "jobs_ok cron (bk_db b)" using assms(1) by (simp add: runs_ok_def)
    have "jobs_ok cron d" using J run(2) assms(2) by (auto simp: jobs_ok_def run(3) job_ok_def)
    moreover have "wanted d k = wanted (bk_db b) k" if "k \<noteq> bj_id job" for k using that by (auto simp: wanted_def run(3))
    ultimately have "runs_ok cron ex (insert (bj_id job) X) b'"
      unfolding d(2) by (intro runs_ok_jobs [OF assms(1) run(4), where i = "bj_id job"]) auto
    moreover have "stored cron job d" using run(2) assms(2) by (auto simp: stored_def run(3))
    ultimately show ?thesis using run(1) d(2) by simp
  qed
qed

lemma job_updated:
  assumes "runs_ok cron ex X b" and "job_ok cron job" and "with_bdb (update_backup_job job) b = (r, b')"
  shows "case r of Inl e \<Rightarrow> runs_ok cron ex X b' | Inr _ \<Rightarrow> runs_ok cron ex (insert (bj_id job) X) b' \<and> stored cron job (bk_db b')"
proof -
  from assms(3) obtain d where d: "update_backup_job job (bk_db b) = (r, d)" "b' = b\<lparr>bk_db := d\<rparr>" by (auto simp: zoomP_run)
  from d(1) show ?thesis
  proof (cases rule: job_update_cases)
    case (error e)
    then show ?thesis using runs_ok_unmoved [OF assms(1)] d by simp
  next
    case run
    have J: "jobs_ok cron (bk_db b)" using assms(1) by (simp add: runs_ok_def)
    have "jobs_ok cron d"
      using J assms(2) by (auto simp: jobs_ok_def run(3) map_update_where ball_update_where job_ok_def)
    moreover have "wanted d k = wanted (bk_db b) k" if "k \<noteq> bj_id job" for k
      using that unfolding wanted_def run(3) by (force simp: in_update_where)
    ultimately have "runs_ok cron ex (insert (bj_id job) X) b'"
      unfolding d(2) by (intro runs_ok_jobs [OF assms(1) run(4), where i = "bj_id job"]) auto
    moreover have "stored cron job d"
    proof -
      have "bj_id ` set (d_jobs d) = bj_id ` set (d_jobs (bk_db b))" unfolding run(3) by (rule image_update_where) simp
      then have "\<exists>j\<in>set (d_jobs d). bj_id j = bj_id job" using run(2) by (metis image_iff)
      with assms(2) show ?thesis unfolding stored_def by (simp add: run(3) ball_update_where)
    qed
    ultimately show ?thesis using run(1) d(2) by simp
  qed
qed

lemma job_deleted:
  assumes "runs_ok cron ex (insert i X) b" and "i \<notin> snd ` set (cs_cron (bk_sched b))" and "with_bdb (delete_backup_job i) b = (r, b')"
  shows "runs_ok cron ex X b'"
proof -
  from assms(3) obtain d where d: "delete_backup_job i (bk_db b) = (r, d)" "b' = b\<lparr>bk_db := d\<rparr>" by (auto simp: zoomP_run)
  from d(1) show ?thesis
  proof (cases rule: job_delete_cases)
    case (error e)
    then have "\<not> ex" using assms(1) by (auto simp: runs_ok_def timed_def)
    then have "runs_ok cron ex X b" using assms(1,2) by (auto simp: runs_ok_def timed_def)
    from runs_ok_unmoved [OF this error(2)] d show ?thesis by simp
  next
    case run
    have "jobs_ok cron (bk_db b)" using assms(1) by (simp add: runs_ok_def)
    then have "jobs_ok cron d" by (auto simp: jobs_ok_def run(2) delete_where_def distinct_map_filter)
    moreover have "wanted d k = wanted (bk_db b) k" if "k \<noteq> i" for k using that by (auto simp: wanted_def run(2) delete_where_def)
    moreover have "\<not> wanted d i" by (auto simp: wanted_def run(2) delete_where_def)
    ultimately show ?thesis using assms(2)
      unfolding d(2) by (intro runs_ok_jobs [OF assms(1) run(3), where i = i]) auto
  qed
qed

section \<open>Saving and removing a job\<close>

abbreviation cron_of :: "backup_pages_env \<Rightarrow> string \<Rightarrow> unit result" where
  "cron_of env \<equiv> be_schedule (ve_agents env)"

lemma audited_backup_run:
  "\<exists>d. unmoved (bk_db (vb_runs s)) d \<and>
     audited_backup c x y z nxt s = nxt (s\<lparr>vb_runs := (vb_runs s)\<lparr>bk_db := d\<rparr>\<rparr>)"
proof -
  obtain r d where a: "audit c x y z (bk_db (vb_runs s)) = (r, d)" by (metis surj_pair)
  then have "unmoved (bk_db (vb_runs s)) d"
    using calm_programs(1) [of c x y z] unfolding calm_def by (metis snd_conv)
  moreover have "r = Inr ()" using a by (simp add: audit_def ignoreP_run)
  moreover have "on_bdb (audit c x y z) s = (r, s\<lparr>vb_runs := (vb_runs s)\<lparr>bk_db := d\<rparr>\<rparr>)" using a by (simp add: zoomP_def)
  ultimately show ?thesis by (auto simp: audited_backup_def bindP_def tryP_def)
qed

lemma scheduled:
  assumes "site_ok (cron_of env) ex (insert (bj_id job) X) s" and "stored (cron_of env) job (bk_db (vb_runs s))"
  shows "site_ok (cron_of env) ex X (snd (schedule_saved_job env job s))"
proof -
  let ?reg = "with_sched (register_volume_backup (cron_of env) job)"
  have "runs_ok (cron_of env) ex (insert (bj_id job) X) (vb_runs s)" using assms(1) by (simp add: site_ok_def)
  note r = register_stored [OF this assms(2)]
  obtain b where b: "?reg (vb_runs s) = (Inr (), b)" using r(2) by (metis prod.collapse)
  have "snd (schedule_saved_job env job s) = s\<lparr>vb_runs := b\<rparr>"
    by (simp add: schedule_saved_job_def tryP_def zoomP_def [of vb_runs] b redirect_with_saved_message_def answer_def)
  then show ?thesis using r(1) b assms(1) by (simp add: site_ok_def)
qed

lemma keeps_saved:
  assumes "\<And>b r b'. runs_ok (cron_of env) ex X b \<Longrightarrow> with_bdb m b = (r, b') \<Longrightarrow>
      (case r of Inl e \<Rightarrow> runs_ok (cron_of env) ex X b' | Inr _ \<Rightarrow> runs_ok (cron_of env) ex (insert (bj_id job) X) b' \<and> stored (cron_of env) job (bk_db b'))"
  shows "keeps (site_ok (cron_of env) ex X) (tryP (on_bdb m) (\<lambda>_. redirect_with_error back t)
      (\<lambda>_. audited_backup c x y z (schedule_saved_job env job)))"
proof (rule keepsI)
  fix s
  assume s: "site_ok (cron_of env) ex X s"
  obtain r b where m: "with_bdb m (vb_runs s) = (r, b)" by (metis surj_pair)
  have step: "case r of Inl e \<Rightarrow> runs_ok (cron_of env) ex X b | Inr _ \<Rightarrow> runs_ok (cron_of env) ex (insert (bj_id job) X) b \<and> stored (cron_of env) job (bk_db b)"
    by (rule assms [OF _ m]) (use s in \<open>simp add: site_ok_def\<close>)
  let ?s = "s\<lparr>vb_runs := b\<rparr>"
  have run: "on_bdb m s = (r, ?s)" using m by (simp add: zoomP_def [of vb_runs])
  show "site_ok (cron_of env) ex X (snd (tryP (on_bdb m) (\<lambda>_. redirect_with_error back t)
      (\<lambda>_. audited_backup c x y z (schedule_saved_job env job)) s))"
  proof (cases r)
    case (Inl e)
    with step s show ?thesis by (simp add: tryP_def run site_ok_def redirect_with_error_def answer_def)
  next
    case (Inr u)
    obtain d where d: "unmoved (bk_db (vb_runs ?s)) d"
      and a: "audited_backup c x y z (schedule_saved_job env job) ?s = schedule_saved_job env job (?s\<lparr>vb_runs := (vb_runs ?s)\<lparr>bk_db := d\<rparr>\<rparr>)"
      using audited_backup_run by blast
    have "runs_ok (cron_of env) ex (insert (bj_id job) X) b" "stored (cron_of env) job (bk_db b)" using step Inr by simp_all
    then have "runs_ok (cron_of env) ex (insert (bj_id job) X) (b\<lparr>bk_db := d\<rparr>)" "stored (cron_of env) job d"
      using d runs_ok_unmoved stored_unmoved by auto
    then have "site_ok (cron_of env) ex X (snd (schedule_saved_job env job (?s\<lparr>vb_runs := (vb_runs ?s)\<lparr>bk_db := d\<rparr>\<rparr>)))"
      using s by (intro scheduled) (simp_all add: site_ok_def)
    then show ?thesis by (simp add: tryP_def run Inr a)
  qed
qed

lemma yields_form: "yields (site_ok cron ex X) (on_bdb (job_from_form cr rq existing))
     (\<lambda>j. job_ok cr j \<and> bj_id j = (case existing of None \<Rightarrow> '''' | Some old \<Rightarrow> bj_id old))"
  by (rule yields_zoomP [OF yields_zoomP [OF form_job]]) (rule TrueI)+

lemma keeps_create_job: "keeps (site_ok (cron_of env) ex X) (create_job env c rq)"
  unfolding create_job_def Let_def
proof (rule keeps_tryP_yields [OF keeps_calm_site yields_form])
  fix j
  assume "job_ok (cron_of env) j \<and> bj_id j = (case None of None \<Rightarrow> '''' | Some old \<Rightarrow> bj_id old)"
  then have j: "job_ok (cron_of env) (j\<lparr>bj_id := i\<rparr>)" for i by (simp add: job_ok_def)
  show "keeps (site_ok (cron_of env) ex X) (bindP (on_bdb draw) (\<lambda>i.
      tryP (on_bdb (create_backup_job (j\<lparr>bj_id := i\<rparr>)))
        (\<lambda>_. redirect_with_error (job_page ''new'' @ (if form_value rq ''host_id'' \<noteq> '''' then ''?host='' @ form_value rq ''host_id'' else ''''))
               ''could not create the job (name already taken?)'') (\<lambda>_.
      audited_backup c ''volume_backup.job_create'' (bj_name (j\<lparr>bj_id := i\<rparr>)) (selection_summary (j\<lparr>bj_id := i\<rparr>))
        (schedule_saved_job env (j\<lparr>bj_id := i\<rparr>)))))"
    by (intro keeps_bindP keeps_calm_site calm_draw keeps_saved job_created [OF _ j])
qed (intro calm_intros keeps_reply)+

lemma keeps_change_job: "keeps (site_ok (cron_of env) ex X) (change_job env old c rq)"
  unfolding change_job_def Let_def
  by (rule keeps_tryP_yields [OF keeps_calm_site yields_form])
    (intro calm_intros keeps_reply keeps_saved job_updated; simp)+

lemma keeps_save_job: "keeps (site_ok (cron_of env) ex X) (save_volume_backup_job_handler env i c rq)"
  unfolding save_volume_backup_job_handler_def
  by (intro keeps_intros keeps_create_job keeps_change_job calm_intros)

lemma unregistered:
  assumes "runs_ok cron ex X b"
  shows "runs_ok cron ex (insert i X) (b\<lparr>bk_sched := unregister_volume_backup i (bk_sched b)\<rparr>)"
    and "i \<notin> snd ` set (cs_cron (unregister_volume_backup i (bk_sched b)))"
proof -
  have t: "tidy (bk_sched b)" using assms by (simp add: runs_ok_def timed_def)
  have cron: "snd ` set (cs_cron (unregister_volume_backup i (bk_sched b))) = snd ` set (cs_cron (bk_sched b)) - {i}"
    unfolding unregister_volume_backup_def tidy_forget(2) [OF t] by auto
  then show "i \<notin> snd ` set (cs_cron (unregister_volume_backup i (bk_sched b)))" by simp
  have "tidy (unregister_volume_backup i (bk_sched b))" unfolding unregister_volume_backup_def by (rule tidy_forget(1) [OF t])
  with assms show "runs_ok cron ex (insert i X) (b\<lparr>bk_sched := unregister_volume_backup i (bk_sched b)\<rparr>)"
    unfolding runs_ok_def timed_def by (auto simp: cron)
qed

lemma bind_then_try:
  "a s = (Inr u, s1) \<Longrightarrow> b s1 = (r, s2) \<Longrightarrow>
     bindP a (\<lambda>_. tryP b h nxt) s = (case r of Inl e \<Rightarrow> h e s2 | Inr x \<Rightarrow> nxt x s2)"
  by (simp add: bindP_def tryP_def)

lemma keeps_remove_job: "keeps (site_ok (cron_of env) ex X) (delete_volume_backup_job_handler i c rq)"
proof -
  have remove: "keeps (site_ok (cron_of env) ex X) (bindP (on_runs (with_sched (modP (unregister_volume_backup k)))) (\<lambda>_.
      tryP (on_bdb (delete_backup_job k)) (http_fail 500) nxt))"
    if nxt: "\<And>x. keeps (site_ok (cron_of env) ex X) (nxt x)" for k nxt
  proof (rule keepsI)
    fix s
    assume s: "site_ok (cron_of env) ex X s"
    then have b: "runs_ok (cron_of env) ex X (vb_runs s)" by (simp add: site_ok_def)
    let ?b = "(vb_runs s)\<lparr>bk_sched := unregister_volume_backup k (bk_sched (vb_runs s))\<rparr>"
    obtain r b' where d: "with_bdb (delete_backup_job k) ?b = (r, b')" by (metis surj_pair)
    have "runs_ok (cron_of env) ex X b'" by (rule job_deleted [OF unregistered(1) [OF b] _ d]) (simp add: unregistered(2) [OF b])
    with s have s': "site_ok (cron_of env) ex X (s\<lparr>vb_runs := b'\<rparr>)" by (simp add: site_ok_def)
    have "on_bdb (delete_backup_job k) (s\<lparr>vb_runs := ?b\<rparr>) = (r, s\<lparr>vb_runs := b'\<rparr>)" using d by (simp add: zoomP_def [of vb_runs])
    moreover have "on_runs (with_sched (modP (unregister_volume_backup k))) s = (Inr (), s\<lparr>vb_runs := ?b\<rparr>)" by (simp add: zoomP_def)
    ultimately have run: "bindP (on_runs (with_sched (modP (unregister_volume_backup k)))) (\<lambda>_. tryP (on_bdb (delete_backup_job k)) (http_fail 500) nxt) s
        = (case r of Inl e \<Rightarrow> http_fail 500 e (s\<lparr>vb_runs := b'\<rparr>) | Inr x \<Rightarrow> nxt x (s\<lparr>vb_runs := b'\<rparr>))"
      by (rule bind_then_try [rotated])
    show "site_ok (cron_of env) ex X (snd (bindP (on_runs (with_sched (modP (unregister_volume_backup k))))
        (\<lambda>_. tryP (on_bdb (delete_backup_job k)) (http_fail 500) nxt) s))"
      unfolding run using keepsD [OF nxt s'] s' by (cases r) (simp_all add: http_fail_def http_error_def answer_def)
  qed
  show ?thesis unfolding delete_volume_backup_job_handler_def
    by (rule remove keeps_reply keeps_or_none keeps_calm_site calm_reads keeps_audited_backup keeps_if keeps_tryP keeps_bindP)+
qed

section \<open>The other pages\<close>

lemma keeps_answer [keeps_intros]: "keeps I (answer a)"
  by (simp add: answer_def keeps_def)

lemma keeps_show_started: "keeps (site_ok cron ex X) (show_started c back x n f out)"
  unfolding show_started_def Let_def by (intro keeps_intros)

lemma keeps_job_agent_action: "action \<noteq> ''backup_restore'' \<Longrightarrow> keeps (site_ok cron ex X) (job_agent_action env job action)"
  unfolding job_agent_action_def by (rule keeps_agent_action) simp_all

lemma job_pages:
  "keeps (site_ok cron ex X) (volume_backups_handler env c rq)"
  "keeps (site_ok cron ex X) (volume_backup_job_form_handler env i c rq)"
  "keeps (site_ok cron ex X) (volume_backup_run_handler env i c rq)"
  "keeps (site_ok cron ex X) (test_volume_backup_job_handler env i c rq)"
  "keeps (site_ok cron ex X) (init_volume_backup_job_handler env i c rq)"
  unfolding volume_backups_handler_def volume_backup_job_form_handler_def volume_backup_run_handler_def
    test_volume_backup_job_handler_def init_volume_backup_job_handler_def Let_def
  by (intro keeps_intros calm_intros keeps_say keeps_test keeps_job_agent_action; simp)+

lemma keeps_restore_form: "keeps (site_ok cron ex X) (volume_backup_restore_form_handler env i c rq)"
  unfolding volume_backup_restore_form_handler_def Let_def
  by (intro keeps_intros calm_intros keeps_agent_action) simp_all

lemma keeps_run_job: "keeps (site_ok cron ex X) (run_volume_backup_handler env i c rq)"
  unfolding run_volume_backup_handler_def start_volume_backup_def
  by (intro keeps_intros calm_intros keeps_with_agents keeps_start keeps_show_started) simp_all

lemma keeps_restore: "keeps (site_ok cron ex X) (volume_backup_restore_handler env i c rq)"
  unfolding volume_backup_restore_handler_def start_volume_restore_def Let_def
  by (intro keeps_intros calm_intros keeps_with_agents keeps_start keeps_show_started) simp_all

section \<open>A restart\<close>

lemma register_all:
  assumes "runs_ok cron ex (bj_id ` set js) b" and "\<forall>j\<in>set js. stored cron j (bk_db b)"
  shows "\<exists>b'. forP (\<lambda>j. ignoreP (with_sched (register_volume_backup cron j))) js b = (Inr (), b') \<and> runs_ok cron ex {} b' \<and> bk_db b' = bk_db b"
  using assms
proof (induction js arbitrary: b)
  case (Cons j js)
  have ok: "runs_ok cron ex (insert (bj_id j) (bj_id ` set js)) b" and st: "stored cron j (bk_db b)" using Cons.prems by simp_all
  obtain b1 where b1: "with_sched (register_volume_backup cron j) b = (Inr (), b1)"
    using register_stored(2) [OF ok st] by (metis prod.collapse)
  with register_stored(1,3) [OF ok st] have "runs_ok cron ex (bj_id ` set js) b1" "bk_db b1 = bk_db b" by simp_all
  with Cons.IH [of b1] Cons.prems(2) obtain b' where
    "forP (\<lambda>j. ignoreP (with_sched (register_volume_backup cron j))) js b1 = (Inr (), b')" "runs_ok cron ex {} b'" "bk_db b' = bk_db b"
    by auto
  moreover have "ignoreP (with_sched (register_volume_backup cron j)) b = (Inr (), b1)" by (simp add: ignoreP_run b1)
  ultimately show ?case by (simp add: bindP_def tryP_def)
qed simp

lemma stored_listed: "jobs_ok cron d \<Longrightarrow> j \<in> set (d_jobs d) \<Longrightarrow> stored cron j d"
  unfolding jobs_ok_def stored_def distinct_map inj_on_def by blast

lemma restarted:
  assumes "runs_ok cron ex {} b" and "cron = be_schedule e"
  shows "runs_ok cron ex {} (snd (register_volume_backups e (b\<lparr>bk_sched := no_schedules\<rparr>)))"
proof -
  let ?b = "b\<lparr>bk_sched := no_schedules\<rparr>" and ?all = "bj_id ` set (d_jobs (bk_db b))"
  have J: "jobs_ok cron (bk_db b)" using assms(1) by (simp add: runs_ok_def)
  have fresh: "runs_ok cron x (if x then ?all else {}) ?b" if "x \<longrightarrow> ex" for x
    using assms(1) that tidy_empty by (auto simp: runs_ok_def timed_def no_schedules_def wanted_def)
  obtain r d where l: "list_backup_jobs (bk_db b) = (r, d)" by (metis surj_pair)
  have d: "unmoved (bk_db b) d" using calm_reads(3) l unfolding calm_def by (metis snd_conv)
  show ?thesis
  proof (cases r)
    case (Inl t)
    then have "d_faults (bk_db b) \<noteq> []" using l by (auto simp: list_backup_jobs_def wrap_select)
    then have "\<not> ex" using assms(1) by (auto simp: runs_ok_def timed_def)
    with runs_ok_unmoved [OF fresh [of False]] d have "runs_ok cron ex {} (?b\<lparr>bk_db := d\<rparr>)" by simp
    then show ?thesis using l Inl by (simp add: register_volume_backups_def bindP_def tryP_def zoomP_def failP_simp)
  next
    case (Inr js)
    then have js: "set js = set (d_jobs (bk_db b))"
      using l unfolding list_backup_jobs_def by (auto elim!: select_cases)
    have "runs_ok cron ex ?all ?b"
      using assms(1) tidy_empty by (auto simp: runs_ok_def timed_def no_schedules_def wanted_def)
    from runs_ok_unmoved [OF this, of d] d have start: "runs_ok cron ex (bj_id ` set js) (?b\<lparr>bk_db := d\<rparr>)" by (simp add: js)
    have "\<forall>j\<in>set js. stored cron j d" using stored_unmoved [OF stored_listed [OF J] d] by (simp add: js)
    with register_all [OF start] obtain b' where
      all: "forP (\<lambda>j. ignoreP (with_sched (register_volume_backup cron j))) js (?b\<lparr>bk_db := d\<rparr>) = (Inr (), b')" and b': "runs_ok cron ex {} b'"
      by auto
    let ?rest = "bindP (with_bdb give_up_on_lost_runs) (\<lambda>_. liftP (be_schedule e ''17 * * * *''))"
    have "keeps (runs_ok cron ex {}) ?rest" by (intro keeps_intros calm_intros)
    from keepsD [OF this b'] have "runs_ok cron ex {} (snd (?rest b'))" .
    moreover have "register_volume_backups e ?b = ?rest b'"
      using l Inr all by (simp add: register_volume_backups_def assms(2) bindP_def [of "with_bdb list_backup_jobs"] tryP_def [of "with_bdb list_backup_jobs"]
          zoomP_def [of bk_db _ list_backup_jobs] bindP_def [of "forP _ _"] tryP_def [of "forP _ _"])
    ultimately show ?thesis by simp
  qed
qed

section \<open>Histories\<close>

datatype backup_page =
    ShowShares
  | ShareForm string
  | AddShare
  | ChangeShare string
  | RemoveShare string
  | RevealPassword string
  | TestShare string
  | ShowJobs
  | JobForm string
  | SaveJob string
  | RemoveJob string
  | RunJob string
  | TestJob string
  | InitJob string
  | ShowRun string
  | RestoreForm string
  | RestoreVolume string

fun backup_page_handler :: "backup_pages_env \<Rightarrow> backup_page \<Rightarrow> backup_site handler" where
  "backup_page_handler env ShowShares = volume_backup_destinations_handler"
| "backup_page_handler env (ShareForm i) = volume_backup_destination_form_handler env i"
| "backup_page_handler env AddShare = create_volume_backup_destination_handler"
| "backup_page_handler env (ChangeShare i) = update_volume_backup_destination_handler i"
| "backup_page_handler env (RemoveShare i) = delete_volume_backup_destination_handler i"
| "backup_page_handler env (RevealPassword i) = reveal_volume_backup_repo_password_handler i"
| "backup_page_handler env (TestShare i) = test_volume_backup_destination_handler env i"
| "backup_page_handler env ShowJobs = volume_backups_handler env"
| "backup_page_handler env (JobForm i) = volume_backup_job_form_handler env i"
| "backup_page_handler env (SaveJob i) = save_volume_backup_job_handler env i"
| "backup_page_handler env (RemoveJob i) = delete_volume_backup_job_handler i"
| "backup_page_handler env (RunJob i) = run_volume_backup_handler env i"
| "backup_page_handler env (TestJob i) = test_volume_backup_job_handler env i"
| "backup_page_handler env (InitJob i) = init_volume_backup_job_handler env i"
| "backup_page_handler env (ShowRun i) = volume_backup_run_handler env i"
| "backup_page_handler env (RestoreForm i) = volume_backup_restore_form_handler env i"
| "backup_page_handler env (RestoreVolume i) = volume_backup_restore_handler env i"

text \<open>
  A page is asked for, a schedule fires, the server starts again with an empty scheduler, or the rest of
  the server does something.
\<close>

datatype backup_event =
    Visit backup_page "web_context option" request
  | Fires string
  | Restarts
  | Meanwhile "backup_site \<Rightarrow> backup_site"

fun backup_event_run :: "backup_pages_env \<Rightarrow> backup_event \<Rightarrow> backup_site \<Rightarrow> backup_site" where
  "backup_event_run env (Visit p c rq) s = snd (backup_page_handler env p c rq s)"
| "backup_event_run env (Fires i) s = snd (with_agents env (\<lambda>e. run_scheduled_volume_backup e i) s)"
| "backup_event_run env Restarts s =
     snd (on_runs (register_volume_backups (ve_agents env)) (s\<lparr>vb_runs := (vb_runs s)\<lparr>bk_sched := no_schedules\<rparr>\<rparr>))"
| "backup_event_run env (Meanwhile f) s = f s"

definition backup_history :: "backup_pages_env \<Rightarrow> backup_event list \<Rightarrow> backup_site \<Rightarrow> backup_site" where
  "backup_history env = fold (backup_event_run env)"

text \<open>The rest of the server touches no job, no destination, no credential of one, no entry and no command.\<close>

definition elsewhere :: "(backup_site \<Rightarrow> backup_site) \<Rightarrow> bool" where
  "elsewhere f \<longleftrightarrow> (\<forall>s. d_jobs (bk_db (vb_runs (f s))) = d_jobs (bk_db (vb_runs s))
     \<and> d_destinations (bk_db (vb_runs (f s))) = d_destinations (bk_db (vb_runs s))
     \<and> (d_faults (bk_db (vb_runs s)) = [] \<longrightarrow> d_faults (bk_db (vb_runs (f s))) = [])
     \<and> bk_sent (vb_runs (f s)) = bk_sent (vb_runs s) \<and> bk_sched (vb_runs (f s)) = bk_sched (vb_runs s)
     \<and> (\<forall>i. map_of (k_creds (vb_keys (f s))) (backup_cred_id i) = map_of (k_creds (vb_keys s)) (backup_cred_id i)))"

definition only_elsewhere :: "backup_event list \<Rightarrow> bool" where
  "only_elsewhere evs \<longleftrightarrow> (\<forall>f. Meanwhile f \<in> set evs \<longrightarrow> elsewhere f)"

lemma keeps_page: "keeps (site_ok (cron_of env) ex {}) (backup_page_handler env p c rq)"
  by (cases p) (simp_all add: destination_handlers keeps_create_destination keeps_update_destination job_pages keeps_save_job
      keeps_remove_job keeps_run_job keeps_restore_form keeps_restore)

lemma elsewhere_ok:
  assumes "elsewhere f" and "site_ok cron ex {} s"
  shows "site_ok cron ex {} (f s)"
proof -
  let ?b = "vb_runs s" and ?b' = "vb_runs (f s)"
  have f: "d_jobs (bk_db ?b') = d_jobs (bk_db ?b)" "d_destinations (bk_db ?b') = d_destinations (bk_db ?b)"
    "d_faults (bk_db ?b) = [] \<longrightarrow> d_faults (bk_db ?b') = []" "bk_sent ?b' = bk_sent ?b" "bk_sched ?b' = bk_sched ?b"
    "\<And>i. map_of (k_creds (vb_keys (f s))) (backup_cred_id i) = map_of (k_creds (vb_keys s)) (backup_cred_id i)"
    using assms(1) by (auto simp: elsewhere_def)
  have "runs_ok cron ex {} (?b\<lparr>bk_db := bk_db ?b'\<rparr>)"
    by (rule runs_ok_unmoved) (use assms(2) f in \<open>simp_all add: site_ok_def unmoved_def\<close>)
  moreover have "?b\<lparr>bk_db := bk_db ?b'\<rparr> = ?b'" using f by (cases ?b; cases ?b') simp
  ultimately show ?thesis using assms(2) f(6) by (simp add: site_ok_def keys_plain_def)
qed

lemma history_ok:
  assumes "only_elsewhere evs" and "site_ok (cron_of env) ex {} s"
  shows "site_ok (cron_of env) ex {} (backup_history env evs s)"
  using assms
proof (induction evs arbitrary: s)
  case (Cons x evs)
  have "site_ok (cron_of env) ex {} (backup_event_run env x s)"
  proof (cases x)
    case (Visit p c rq)
    then show ?thesis using keepsD [OF keeps_page Cons.prems(2)] by simp
  next
    case (Fires i)
    have "keeps (site_ok (cron_of env) ex {}) (with_agents env (\<lambda>e. run_scheduled_volume_backup e i))"
      by (intro keeps_with_agents keeps_scheduled)
    from keepsD [OF this Cons.prems(2)] show ?thesis by (simp add: Fires)
  next
    case Restarts
    obtain r b where b: "register_volume_backups (ve_agents env) ((vb_runs s)\<lparr>bk_sched := no_schedules\<rparr>) = (r, b)" by (metis surj_pair)
    have "runs_ok (cron_of env) ex {} (snd (register_volume_backups (ve_agents env) ((vb_runs s)\<lparr>bk_sched := no_schedules\<rparr>)))"
      by (rule restarted [OF _ refl]) (use Cons.prems(2) in \<open>simp add: site_ok_def\<close>)
    then show ?thesis using Cons.prems(2) by (simp add: Restarts zoomP_def [of vb_runs] b site_ok_def)
  next
    case (Meanwhile f)
    then show ?thesis using elsewhere_ok [OF _ Cons.prems(2)] Cons.prems(1) by (simp add: only_elsewhere_def)
  qed
  from Cons.IH [OF _ this] Cons.prems(1) show ?case by (simp add: backup_history_def only_elsewhere_def)
qed (simp add: backup_history_def)

text \<open>A server without jobs and destinations.\<close>

definition no_backups :: "backup_site \<Rightarrow> bool" where
  "no_backups s \<longleftrightarrow> d_jobs (bk_db (vb_runs s)) = [] \<and> d_destinations (bk_db (vb_runs s)) = [] \<and> bk_sent (vb_runs s) = []
     \<and> bk_sched (vb_runs s) = no_schedules \<and> k_creds (vb_keys s) = []"

lemma no_backups_ok: "no_backups s \<Longrightarrow> (ex \<Longrightarrow> d_faults (bk_db (vb_runs s)) = []) \<Longrightarrow> site_ok cron ex {} s"
  using tidy_empty by (auto simp: no_backups_def site_ok_def runs_ok_def jobs_ok_def timed_def wanted_def keys_plain_def no_schedules_def)

text \<open>
  C38 backup_commands_plain.  From a server without backups, through any use of the pages, any schedules that
  fire, any restarts and any failures, every command that is sent to an agent has the mount options of a
  destination that was checked: a server, a share, a domain and a version of their alphabets, a user name and
  a password that cannot end the option they are in, and a folder of plain names none of which is a dot or
  two.  Its repository is the one named after the host that gets the command.  A restore names a snapshot by
  hexadecimal digits and writes to a volume with a plain name.  The names of the volumes that are read are
  those the host itself reported, and are not checked.
\<close>

theorem backup_commands_plain:
  assumes "no_backups s" and "only_elsewhere evs" and "(h, action, req) \<in> set (bk_sent (vb_runs (backup_history env evs s)))"
  shows "smb_server_re (ad_server (aq_dest req)) \<and> smb_share_re (ad_share (aq_dest req)) \<and> plain_folder (ad_subdir (aq_dest req))
     \<and> mount_text (ad_username (aq_dest req)) \<and> mount_text (ad_password (aq_dest req))
     \<and> (ad_domain (aq_dest req) = '''' \<or> smb_domain_re (ad_domain (aq_dest req))) \<and> ad_version (aq_dest req) \<in> set smb_versions
     \<and> ad_repo_dir (aq_dest req) = h \<and> aq_host_tag req = ''wharf-'' @ h
     \<and> (action = ''backup_restore'' \<longrightarrow> snapshot_id_pattern (aq_snapshot req) \<and> safe_volume_name (aq_new_volume req))"
proof -
  have "site_ok (cron_of env) False {} (backup_history env evs s)"
    by (rule history_ok [OF assms(2) no_backups_ok [OF assms(1)]]) simp
  then have "sound_command h action req" using assms(3) by (auto simp: site_ok_def runs_ok_def)
  then show ?thesis by (simp add: sound_command_def plain_mount_def)
qed

text \<open>
  C39 schedules_follow_jobs.  Along any such history each entry of the scheduler belongs to a stored job that is
  enabled and has a schedule, and no job has two; and as long as the database works every such job has one.
\<close>

theorem schedules_follow_jobs:
  assumes "no_backups s" and "only_elsewhere evs"
  shows "distinct (map snd (cs_cron (bk_sched (vb_runs (backup_history env evs s)))))
     \<and> (\<forall>i\<in>snd ` set (cs_cron (bk_sched (vb_runs (backup_history env evs s)))). wanted (bk_db (vb_runs (backup_history env evs s))) i)
     \<and> (d_faults (bk_db (vb_runs s)) = [] \<longrightarrow> snd ` set (cs_cron (bk_sched (vb_runs (backup_history env evs s))))
          = Collect (wanted (bk_db (vb_runs (backup_history env evs s)))))"
proof -
  let ?b = "vb_runs (backup_history env evs s)"
  have ok: "timed ex {} ?b" if "ex \<Longrightarrow> d_faults (bk_db (vb_runs s)) = []" for ex
    using history_ok [OF assms(2) no_backups_ok [OF assms(1) that]] by (simp add: site_ok_def runs_ok_def)
  from ok [of False] have "schedule_inv (bk_sched ?b)" and "\<forall>i\<in>snd ` set (cs_cron (bk_sched ?b)). wanted (bk_db ?b) i"
    by (auto simp: timed_def tidy_def)
  moreover have "snd ` set (cs_cron (bk_sched ?b)) = Collect (wanted (bk_db ?b))" if "d_faults (bk_db (vb_runs s)) = []"
    using ok [of True] that by (auto simp: timed_def)
  ultimately show ?thesis using one_entry_each by blast
qed

text \<open>
  C40 jobs_well_formed.  Along any such history a stored job has a name, a mode and a schedule the scheduler
  accepts, covers something, keeps from 0 to 9999 snapshots of each kind, and has well-formed labels, stacks and
  exclusions.
\<close>

theorem jobs_well_formed:
  assumes "no_backups s" and "only_elsewhere evs" and "j \<in> set (d_jobs (bk_db (vb_runs (backup_history env evs s))))"
  shows "job_ok (be_schedule (ve_agents env)) j"
  using history_ok [OF assms(2) no_backups_ok [OF assms(1)], of False env] assms(3)
  by (auto simp: site_ok_def runs_ok_def jobs_ok_def)

section \<open>A destination, a job and a run\<close>

definition example_pages :: backup_pages_env where
  "example_pages = \<lparr>ve_agents = example_env, ve_quick = (\<lambda>_ _ _ _. Inr (empty_message\<lparr>tm_ok := True\<rparr>)), ve_test = (\<lambda>_. None),
     ve_snapshots = (\<lambda>_. None), ve_utc = (\<lambda>_. None), ve_duration = (\<lambda>_. '''')\<rparr>"

definition example_site :: backup_site where
  "example_site = \<lparr>vb_runs = \<lparr>bk_db = example_db\<lparr>d_destinations := [], d_jobs := [], d_rand := (\<lambda>n. CHR ''i'' # digits_of n),
       d_volumes := [\<lparr>hv_host = ''h1'', hv_name = ''data'', hv_driver = ''local'', hv_labels = [], hv_host_name = ''''\<rparr>]\<rparr>,
     bk_sent = [], bk_sched = no_schedules\<rparr>, vb_keys = empty_custodian\<rparr>"

definition example_form :: "(string \<times> string) list \<Rightarrow> request" where
  "example_form form = \<lparr>rq_method = ''POST'', rq_path = '''', rq_content_type = '''', rq_cookie = None, rq_form = Inr form\<rparr>"

definition example_events :: "backup_event list" where
  "example_events =
     [Visit AddShare None (example_form [(''name'', ''nas''), (''server'', ''nas''), (''share'', ''backup''), (''version'', ''3.0''),
        (''username'', ''u''), (''password'', ''p'')]),
      Visit (SaveJob '''') None (example_form [(''name'', ''nightly''), (''host_id'', ''h1''), (''destination_id'', ''i0''), (''volumes'', ''data''),
        (''schedule'', ''0 3 * * *''), (''mode'', ''live''), (''keep_last'', ''7''), (''enabled'', ''on'')]),
      Visit (RunJob ''i2'') None (example_form [])]"

lemma example_no_backups: "no_backups example_site"
  by (simp add: no_backups_def example_site_def empty_custodian_def)

lemma example_elsewhere: "only_elsewhere example_events"
  by (simp add: only_elsewhere_def example_events_def)

lemma example_sent: "map (\<lambda>(h, a, _). (h, a)) (bk_sent (vb_runs (backup_history example_pages example_events example_site))) = [(''h1'', ''backup_run'')]"
  by code_simp

lemma example_jobs: "map bj_id (d_jobs (bk_db (vb_runs (backup_history example_pages example_events example_site)))) = [''i2'']"
  by code_simp

lemma example_schedules: "map snd (cs_cron (bk_sched (vb_runs (backup_history example_pages example_events example_site)))) = [''i2'']"
  by code_simp

lemma backup_commands_plain_witness:
  "\<exists>req. bk_sent (vb_runs (backup_history example_pages example_events example_site)) = [(''h1'', ''backup_run'', req)]
     \<and> mount_text (ad_password (aq_dest req)) \<and> smb_share_re (ad_share (aq_dest req))"
proof -
  obtain req where sent: "bk_sent (vb_runs (backup_history example_pages example_events example_site)) = [(''h1'', ''backup_run'', req)]"
    using example_sent by auto
  from backup_commands_plain [OF example_no_backups example_elsewhere, of "''h1''" "''backup_run''" req example_pages] sent
  show ?thesis by simp
qed

lemma schedules_follow_jobs_witness:
  "wanted (bk_db (vb_runs (backup_history example_pages example_events example_site))) ''i2''
     \<and> Collect (wanted (bk_db (vb_runs (backup_history example_pages example_events example_site)))) = {''i2''}"
proof -
  have "snd ` set (cs_cron (bk_sched (vb_runs (backup_history example_pages example_events example_site)))) = {''i2''}"
    using example_schedules by (metis list.set(1,2) list.set_map)
  moreover have "d_faults (bk_db (vb_runs example_site)) = []" by (simp add: example_site_def example_db_def empty_db_def)
  ultimately show ?thesis
    using schedules_follow_jobs [OF example_no_backups example_elsewhere, of example_pages] by auto
qed

lemma jobs_well_formed_witness:
  "\<exists>j. d_jobs (bk_db (vb_runs (backup_history example_pages example_events example_site))) = [j] \<and> job_ok (be_schedule example_env) j"
proof -
  obtain j where j: "d_jobs (bk_db (vb_runs (backup_history example_pages example_events example_site))) = [j]"
    using example_jobs by auto
  from jobs_well_formed [OF example_no_backups example_elsewhere, of j example_pages] j
  show ?thesis by (simp add: example_pages_def)
qed

text \<open>
  The entry is removed before the row: a removal the database refuses leaves an enabled job that does not
  run until the next start of the server.
\<close>

definition example_refused :: backup_state where
  "example_refused =
     (let b = vb_runs (backup_history example_pages (take 2 example_events) example_site) in
      vb_runs (snd (delete_volume_backup_job_handler ''i2'' None (example_form [])
        \<lparr>vb_runs = b\<lparr>bk_db := (bk_db b)\<lparr>d_faults := [None, None, Some ''locked'']\<rparr>\<rparr>, vb_keys = empty_custodian\<rparr>)))"

lemma failed_removal_unscheduled:
  "map (\<lambda>j. (bj_id j, bj_enabled j)) (d_jobs (bk_db example_refused)) = [(''i2'', True)] \<and> cs_cron (bk_sched example_refused) = []"
  by code_simp

end
