(* ===== verification/Sso.thy ===== *)
theory Sso
  imports App
begin

text \<open>
  Signing in through an identity provider, \<^verbatim>\<open>src/oidc.go\<close>, and its settings, \<^verbatim>\<open>src/settings.go\<close>.  The
  provider and the two libraries that speak to it are the record \<open>idp\<close>: discovery, the exchange of the
  code, the verified ID token and the user info.  What is shown: a session is only given to the account
  linked to the identity the provider vouches for, with the role its groups give.
\<close>

section \<open>The provider\<close>

text \<open>\<open>or_state\<close> and \<open>or_code\<close> are parameters of the query, \<open>or_cookie\<close> the cookie of the attempt.\<close>

record oidc_request =
  or_tls :: bool
  or_host :: string
  or_cookie :: "string option"
  or_state :: string
  or_code :: string

record oauth_client =
  oa_issuer :: string
  oa_client :: string
  oa_secret :: string
  oa_redirect :: string
  oa_scopes :: "string list"

record oauth_token =
  ot_access :: string
  ot_id :: "string option"

record oidc_claims =
  cl_subject :: string
  cl_name :: string
  cl_email :: string
  cl_groups :: "string list"

record id_token =
  it_nonce :: string
  it_claims :: "oidc_claims result"

record user_info =
  ui_subject :: string
  ui_claims :: "oidc_claims result"

record idp =
  sp_discover :: "string \<Rightarrow> unit result"
  sp_auth_url :: "oauth_client \<Rightarrow> string \<Rightarrow> string \<Rightarrow> string"
  sp_exchange :: "oauth_client \<Rightarrow> string \<Rightarrow> oauth_token result"
  sp_verify :: "string \<Rightarrow> string \<Rightarrow> string \<Rightarrow> id_token result"
  sp_user_info :: "string \<Rightarrow> oauth_token \<Rightarrow> user_info result"

definition oidc_redirect_url :: "oidc_request \<Rightarrow> string" where
  "oidc_redirect_url rq = (if or_tls rq then ''https'' else ''http'') @ ''://'' @ or_host rq @ ''/auth/oidc/callback''"

definition issuer_of :: "oidc_config \<Rightarrow> string" where
  "issuer_of cfg = trim_suffix (oc_issuer cfg) ''/''"

definition gated :: "oidc_config \<Rightarrow> bool" where
  "gated cfg \<longleftrightarrow> oc_admin_group cfg \<noteq> '''' \<or> oc_operator_group cfg \<noteq> ''''"

definition oidc_new_config :: "idp \<Rightarrow> oidc_config \<Rightarrow> string \<Rightarrow> oauth_client result" where
  "oidc_new_config p cfg redirect =
     bind_res (sp_discover p (issuer_of cfg)) (\<lambda>_.
       Inr \<lparr>oa_issuer = issuer_of cfg, oa_client = oc_client cfg, oa_secret = oc_secret cfg, oa_redirect = redirect,
         oa_scopes = [''openid'', ''profile'', ''email''] @ (if gated cfg then [''groups''] else [])\<rparr>)"

section \<open>The attempt\<close>

text \<open>The answer, and what becomes of the cookie of the attempt: untouched, set, or cleared.\<close>

record sso_answer =
  sa_reply :: reply
  sa_attempt :: "string option"

definition with_attempt :: "string option \<Rightarrow> ('s, reply) prog \<Rightarrow> ('s, sso_answer) prog" where
  "with_attempt c m = bindP m (\<lambda>r. okP \<lparr>sa_reply = r, sa_attempt = c\<rparr>)"

definition oidc_login_handler :: "idp \<Rightarrow> oidc_request \<Rightarrow> (app_state, sso_answer) prog" where
  "oidc_login_handler p rq =
     tryP (on_keys get_oidc_config) (\<lambda>e. with_attempt None (http_fail 500 e)) (\<lambda>c.
       case c of
         None \<Rightarrow> with_attempt None (http_error 404 ''SSO is not configured'')
       | Some cfg \<Rightarrow>
         (case oidc_new_config p cfg (oidc_redirect_url rq) of
            Inl e \<Rightarrow> with_attempt None (http_error 502 (''could not reach identity provider: '' @ error_text e))
          | Inr client \<Rightarrow>
            bindP (on_store draw) (\<lambda>state.
            bindP (on_store draw) (\<lambda>nonce.
              with_attempt (Some (state @ ''.'' @ nonce)) (answer (SeeOther (sp_auth_url p client state nonce)))))))"

text \<open>A check that fails with a status and a text.\<close>

type_synonym refusal = "nat \<times> string"

definition or_refuse :: "nat \<Rightarrow> string \<Rightarrow> 'a result \<Rightarrow> (refusal + 'a)" where
  "or_refuse code pre r = (case r of Inl e \<Rightarrow> Inl (code, pre @ error_text e) | Inr x \<Rightarrow> Inr x)"

definition check_then :: "(refusal + 'a) \<Rightarrow> ('a \<Rightarrow> refusal + 'b) \<Rightarrow> (refusal + 'b)" where
  "check_then r f = (case r of Inl x \<Rightarrow> Inl x | Inr y \<Rightarrow> f y)"

definition refuse_if :: "bool \<Rightarrow> nat \<Rightarrow> string \<Rightarrow> (refusal + unit)" where
  "refuse_if bad code t = (if bad then Inl (code, t) else Inr ())"

text \<open>The nonce of the attempt the state of the query belongs to.\<close>

definition attempt_nonce :: "oidc_request \<Rightarrow> (refusal + string)" where
  "attempt_nonce rq =
     (case or_cookie rq of
        None \<Rightarrow> Inl (400, ''missing or expired SSO login attempt '' @ em_dash @ '' please try again'')
      | Some v \<Rightarrow>
        let (state, nonce) = (case cut_at ''.'' v of None \<Rightarrow> ('''', '''') | Some p \<Rightarrow> p) in
        if state = '''' \<or> nonce = '''' then Inl (400, ''invalid SSO login attempt '' @ em_dash @ '' please try again'')
        else if or_state rq \<noteq> state then Inl (400, ''SSO state mismatch '' @ em_dash @ '' please try signing in again'')
        else Inr nonce)"

section \<open>The identity\<close>

definition merge_claims :: "oidc_claims \<Rightarrow> oidc_claims \<Rightarrow> oidc_claims" where
  "merge_claims c u =
     c\<lparr>cl_name := if cl_name u \<noteq> '''' then cl_name u else cl_name c,
       cl_email := if cl_email u \<noteq> '''' then cl_email u else cl_email c,
       cl_groups := if cl_groups u \<noteq> [] then cl_groups u else cl_groups c\<rparr>"

definition with_user_info :: "user_info result \<Rightarrow> oidc_claims \<Rightarrow> (refusal + oidc_claims)" where
  "with_user_info r c =
     (case r of
        Inl _ \<Rightarrow> Inr c
      | Inr u \<Rightarrow>
        if ui_subject u \<noteq> cl_subject c
        then Inl (502, ''identity provider returned inconsistent subject between ID token and userinfo'')
        else (case ui_claims u of Inl _ \<Rightarrow> Inr c | Inr x \<Rightarrow> Inr (merge_claims c x)))"

definition verified_claims :: "idp \<Rightarrow> oidc_config \<Rightarrow> oidc_request \<Rightarrow> string \<Rightarrow> (refusal + oidc_claims)" where
  "verified_claims p cfg rq nonce =
     check_then (or_refuse 502 ''could not reach identity provider: '' (oidc_new_config p cfg (oidc_redirect_url rq))) (\<lambda>client.
     check_then (refuse_if (or_code rq = '''') 400 ''identity provider did not return an authorization code'') (\<lambda>_.
     check_then (or_refuse 502 ''token exchange failed: '' (sp_exchange p client (or_code rq))) (\<lambda>token.
     check_then (case ot_id token of
         None \<Rightarrow> Inl (502, ''identity provider did not return an ID token'')
       | Some raw \<Rightarrow> if raw = '''' then Inl (502, ''identity provider did not return an ID token'') else Inr raw) (\<lambda>raw.
     check_then (or_refuse 502 ''ID token verification failed: '' (sp_verify p (issuer_of cfg) (oc_client cfg) raw)) (\<lambda>idt.
     check_then (refuse_if (it_nonce idt \<noteq> nonce) 400 (''ID token nonce mismatch '' @ em_dash @ '' please try signing in again'')) (\<lambda>_.
     check_then (or_refuse 502 ''could not read ID token claims: '' (it_claims idt)) (\<lambda>claims.
       with_user_info (sp_user_info p (issuer_of cfg) token) claims)))))))"

definition oidc_username :: "oidc_claims \<Rightarrow> string" where
  "oidc_username c = (if cl_name c \<noteq> '''' then cl_name c else if cl_email c \<noteq> '''' then cl_email c else cl_subject c)"

text \<open>The role the groups give, and whether they let the account in.\<close>

fun group_access :: "oidc_config \<Rightarrow> string list \<Rightarrow> string \<times> bool \<Rightarrow> string \<times> bool" where
  "group_access cfg [] acc = acc"
| "group_access cfg (g # gs) (role, allowed) =
     (let (role, allowed) = (if oc_admin_group cfg \<noteq> '''' \<and> g = oc_admin_group cfg then (''admin'', True) else (role, allowed)) in
      group_access cfg gs (role, allowed \<or> oc_operator_group cfg \<noteq> '''' \<and> g = oc_operator_group cfg))"

definition oidc_access :: "oidc_config \<Rightarrow> string list \<Rightarrow> string \<times> bool" where
  "oidc_access cfg groups = group_access cfg groups (''operator'', \<not> gated cfg)"

section \<open>The session\<close>

definition sign_in :: "string \<Rightarrow> (db, reply) prog" where
  "sign_in username =
     tryP (touch_user_login username) (http_fail 500) (\<lambda>_.
     tryP (create_session username) (http_fail 500) (\<lambda>token.
     bindP (audit_system username ''auth.login'' username ''sso'') (\<lambda>_. answer_cookie (SeeOther ''/'') token)))"

definition new_sso_account :: "oidc_config \<Rightarrow> oidc_claims \<Rightarrow> string \<Rightarrow> (db, reply) prog" where
  "new_sso_account cfg claims role =
     (let username = oidc_username claims in
      tryP (get_user_by_username username)
        (\<lambda>e. if \<not> error_is e ErrNotFound then http_fail 500 e
           else tryP (create_oidc_user username (oc_issuer cfg) (cl_subject claims) role) (http_fail 500) (\<lambda>_. sign_in username))
        (\<lambda>_. http_error 409 (''an account named '' @ quoted username @ '' already exists and isn't linked to this identity ''
           @ em_dash @ '' ask an admin to resolve this before signing in with SSO'')))"

definition known_sso_account :: "oidc_config \<Rightarrow> user \<Rightarrow> string \<Rightarrow> (db, reply) prog" where
  "known_sso_account cfg user role =
     (if gated cfg \<and> u_role user \<noteq> role then
        tryP (set_user_role (u_name user) role)
          (\<lambda>e. if error_is e ErrLastAdmin then sign_in (u_name user) else http_fail 500 e) (\<lambda>_. sign_in (u_name user))
      else sign_in (u_name user))"

definition sso_session :: "oidc_config \<Rightarrow> oidc_claims \<Rightarrow> (db, reply) prog" where
  "sso_session cfg claims =
     (let (role, allowed) = oidc_access cfg (cl_groups claims) in
      if \<not> allowed then http_error 403 ''your account is not a member of a group authorized to sign in to Wharf''
      else tryP (get_user_by_oidc (oc_issuer cfg) (cl_subject claims)) (http_fail 500) (\<lambda>found.
        case found of None \<Rightarrow> new_sso_account cfg claims role | Some user \<Rightarrow> known_sso_account cfg user role))"

definition oidc_callback_handler :: "idp \<Rightarrow> oidc_request \<Rightarrow> (app_state, sso_answer) prog" where
  "oidc_callback_handler p rq =
     with_attempt (Some '''')
       (tryP (on_keys get_oidc_config) (http_fail 500) (\<lambda>c.
          case c of
            None \<Rightarrow> http_error 404 ''SSO is not configured''
          | Some cfg \<Rightarrow>
            (case check_then (attempt_nonce rq) (verified_claims p cfg rq) of
               Inl (code, t) \<Rightarrow> http_error code t
             | Inr claims \<Rightarrow> on_store (sso_session cfg claims))))"

section \<open>Settings\<close>

definition authentication_page :: string where
  "authentication_page = ''/settings/authentication''"

definition settings_authentication_handler :: "app_state handler" where
  "settings_authentication_handler c rq =
     tryP (on_keys get_oidc_config) (http_fail 500) (\<lambda>_. page ''settings_authentication.html'')"

definition store_oidc_config :: "web_context option \<Rightarrow> oidc_config \<Rightarrow> (app_state, reply) prog" where
  "store_oidc_config c cfg =
     tryP (on_keys (set_oidc_config cfg)) (http_fail 500) (\<lambda>_.
       audited c ''oidc.configure'' (oc_issuer cfg) (''client_id '' @ oc_client cfg) (redirect_with_saved authentication_page))"

definition set_oidc_config_handler :: "app_state handler" where
  "set_oidc_config_handler c rq =
     (let v = (\<lambda>k. trim_space (form_value rq k));
          cfg = \<lparr>oc_issuer = trim_suffix (v ''issuer_url'') ''/'', oc_client = v ''client_id'', oc_secret = form_value rq ''client_secret'',
            oc_name = v ''display_name'', oc_admin_group = v ''admin_group'', oc_operator_group = v ''operator_group'',
            oc_disable_local = form_value rq ''disable_local_auth'' \<noteq> ''''\<rparr> in
      if oc_issuer cfg = '''' \<or> oc_client cfg = '''' then http_error 400 ''issuer URL and client ID are required''
      else if oc_secret cfg = '''' then
        tryP (on_keys get_oidc_config) (http_fail 500) (\<lambda>old.
          case old of
            None \<Rightarrow> http_error 400 ''client secret is required to configure SSO for the first time''
          | Some o' \<Rightarrow> store_oidc_config c (cfg\<lparr>oc_secret := oc_secret o'\<rparr>))
      else store_oidc_config c cfg)"

definition delete_oidc_config_handler :: "app_state handler" where
  "delete_oidc_config_handler c rq =
     tryP (on_keys delete_oidc_config) (http_fail 500) (\<lambda>_.
       audited c ''oidc.remove'' '''' '''' (redirect_with_saved_message authentication_page ''SSO configuration removed''))"

section \<open>Who gets a session\<close>

text \<open>What an account is, beside its password and the times of its sign-ins; who a token stands for.\<close>

definition account :: "user \<Rightarrow> string \<times> string option \<times> string option \<times> string" where
  "account u = (u_name u, u_oidc_issuer u, u_oidc_subject u, u_role u)"

definition session_user :: "db \<Rightarrow> string \<Rightarrow> string option" where
  "session_user d token = map_option s_user (find (\<lambda>s. s_token s = token \<and> d_now d < s_expires s) (d_sessions d))"

definition only_admin :: "db \<Rightarrow> bool" where
  "only_admin d \<longleftrightarrow> count_where (\<lambda>u. u_role u = ''admin'') (d_users d) \<le> 1"


lemma find_account:
  "map account us' = map account us \<Longrightarrow> find (\<lambda>u. u_name u = n) us = Some u \<Longrightarrow>
     \<exists>u'. find (\<lambda>u. u_name u = n) us' = Some u' \<and> account u' = account u"
proof (induction us arbitrary: us')
  case (Cons x us)
  then obtain y ys where us': "us' = y # ys" "account y = account x" "map account ys = map account us" by (cases us') auto
  with Cons show ?case by (auto simp: account_def split: if_splits)
qed simp

lemma accounts_table: "table_inv (\<lambda>d. map account (d_users d) = L)"
  by (rule table_invI) auto

lemma touch_accounts: "keeps (\<lambda>d. map account (d_users d) = L) (touch_user_login n)"
  unfolding touch_user_login_def update_user_def
  by (intro keeps_intros keeps_upd accounts_table) (simp add: map_update_where account_def)

lemma create_session_accounts: "keeps (\<lambda>d. map account (d_users d) = L) (create_session name)"
  unfolding create_session_def by (intro keeps_intros keeps_del keeps_ins accounts_table) simp_all

lemma create_session_now: "keeps (\<lambda>d. d_now d = t) (create_session name)"
  unfolding create_session_def by (intro keeps_intros keeps_del keeps_ins table_invI) simp_all

lemma audit_system_rest:
  "keeps (\<lambda>e. d_users e = us \<and> d_sessions e = ss \<and> d_now e = t) (audit_system a b c e)"
  unfolding audit_system_def record_audit_def by (intro keeps_intros keeps_exec keeps_ins table_invI) auto

lemma sign_in_session:
  assumes "sign_in name d = (Inr r, d')" and "rp_cookie r = Some token"
  shows "session_user d' token = Some name \<and> map account (d_users d') = map account (d_users d)"
proof -
  let ?I = "\<lambda>d'. map account (d_users d') = map account (d_users d)"
  from assms obtain x d1 d2 where touch: "touch_user_login name d = (Inr (), d1)" and new0: "create_session name d1 = (Inr x, d2)"
    and last: "bindP (audit_system name ''auth.login'' name ''sso'') (\<lambda>_. answer_cookie (SeeOther ''/'') x) d2 = (Inr r, d')"
    by (auto simp: sign_in_def tryP_run http_fail_def http_error_def answer_def okP_def)
  from last assms(2) have "x = token" by (auto simp: bindP_Inr answer_cookie_def)
  with new0 have new: "create_session name d1 = (Inr token, d2)" by simp
  have "?I d1" using keepsE [OF touch_accounts _ touch] by simp
  then have "?I d2" by (rule keepsE [OF create_session_accounts _ new])
  from last have "audit_system name ''auth.login'' name ''sso'' d2 = (Inr (), d')" by (simp add: bindP_Inr answer_cookie_def)
  from keepsE [OF audit_system_rest [of "d_users d2" "d_sessions d2" "d_now d2"] _ this] have d': "d_users d' = d_users d2" "d_sessions d' = d_sessions d2" "d_now d' = d_now d2"
    by simp_all
  have "d_now d2 = d_now d1" by (rule keepsE [OF create_session_now _ new]) simp
  then have "d_now d2 < d_now d1 + session_ttl" by (simp add: session_ttl_def)
  with session_lifetime [OF new, of "d_now d2"] have "session_user d2 token = Some name"
    by (simp add: get_session_username_def wrapP_def tryP_def select_def stmt_def session_user_def)
  with d' \<open>?I d2\<close> show ?thesis by (simp add: session_user_def)
qed

text \<open>
  What the settings say of groups, read off the set of them: the role of a member, and whether the
  groups let an account in.
\<close>

definition group_role :: "oidc_config \<Rightarrow> string list \<Rightarrow> string" where
  "group_role cfg gs = (if oc_admin_group cfg \<noteq> '''' \<and> oc_admin_group cfg \<in> set gs then ''admin'' else ''operator'')"

definition group_member :: "oidc_config \<Rightarrow> string list \<Rightarrow> bool" where
  "group_member cfg gs \<longleftrightarrow> oc_admin_group cfg = '''' \<and> oc_operator_group cfg = ''''
     \<or> oc_admin_group cfg \<noteq> '''' \<and> oc_admin_group cfg \<in> set gs \<or> oc_operator_group cfg \<noteq> '''' \<and> oc_operator_group cfg \<in> set gs"

lemma oidc_access_groups: "oidc_access cfg gs = (group_role cfg gs, group_member cfg gs)"
proof -
  have "group_access cfg gs (role, allowed) =
      (if oc_admin_group cfg \<noteq> '''' \<and> oc_admin_group cfg \<in> set gs then ''admin'' else role,
       allowed \<or> oc_admin_group cfg \<noteq> '''' \<and> oc_admin_group cfg \<in> set gs
         \<or> oc_operator_group cfg \<noteq> '''' \<and> oc_operator_group cfg \<in> set gs)" for role allowed
    by (induction gs arbitrary: role allowed) (auto simp: Let_def)
  then show ?thesis by (auto simp: oidc_access_def group_role_def group_member_def gated_def)
qed

text \<open>
  The account of an identity and its role, from what was stored before: a new account, under a name
  nobody had, has the role of its groups; a known one too once a group is configured, unless it is the
  last administrator, and keeps its role otherwise.
\<close>

definition linked_account :: "oidc_config \<Rightarrow> oidc_claims \<Rightarrow> user \<Rightarrow> bool" where
  "linked_account cfg claims u \<longleftrightarrow> u_oidc_issuer u = Some (oc_issuer cfg) \<and> u_oidc_subject u = Some (cl_subject claims)"

definition role_given :: "oidc_config \<Rightarrow> oidc_claims \<Rightarrow> db \<Rightarrow> user \<Rightarrow> bool" where
  "role_given cfg claims before u \<longleftrightarrow>
     (case find (linked_account cfg claims) (d_users before) of
        None \<Rightarrow> u_name u = oidc_username claims \<and> find_user before (u_name u) = None \<and> u_role u = group_role cfg (cl_groups claims)
      | Some v \<Rightarrow> u_name u = u_name v
          \<and> (if oc_admin_group cfg = '''' \<and> oc_operator_group cfg = '''' then u_role u = u_role v
             else u_role u = group_role cfg (cl_groups claims) \<or> u_role u = ''admin'' \<and> u_role v = ''admin'' \<and> only_admin before))"

definition signed_in_as :: "oidc_config \<Rightarrow> oidc_claims \<Rightarrow> string \<Rightarrow> db \<Rightarrow> db \<Rightarrow> bool" where
  "signed_in_as cfg claims token before d \<longleftrightarrow> (\<exists>u. session_user d token = Some (u_name u) \<and> find_user d (u_name u) = Some u
     \<and> linked_account cfg claims u \<and> role_given cfg claims before u)"

lemma signed_in_from:
  assumes "sign_in (u_name u) d = (Inr r, d')" and "rp_cookie r = Some token" and "find_user d (u_name u) = Some u"
    and "linked_account cfg claims u" and "role_given cfg claims before u"
  shows "signed_in_as cfg claims token before d'"
proof -
  from sign_in_session [OF assms(1,2)] have s: "session_user d' token = Some (u_name u)"
    and a: "map account (d_users d') = map account (d_users d)" by simp_all
  from find_account [OF a] assms(3) obtain u' where u': "find_user d' (u_name u) = Some u'" "account u' = account u"
    by (auto simp: find_user_def)
  then have "u_name u' = u_name u" "u_oidc_issuer u' = u_oidc_issuer u" "u_oidc_subject u' = u_oidc_subject u" "u_role u' = u_role u"
    by (simp_all add: account_def)
  then have "linked_account cfg claims u'" "role_given cfg claims before u'"
    using assms(4,5) by (simp_all only: linked_account_def role_given_def)
  with s u' \<open>u_name u' = u_name u\<close> show ?thesis unfolding signed_in_as_def by (intro exI [of _ u']) simp
qed


lemma new_account_signed:
  assumes "new_sso_account cfg claims (group_role cfg (cl_groups claims)) d = (Inr r, d')" and "rp_cookie r = Some token"
    and "find (linked_account cfg claims) (d_users before) = None" and same: "d_users d = d_users before"
  shows "signed_in_as cfg claims token before d'"
proof -
  let ?role = "group_role cfg (cl_groups claims)" and ?n = "oidc_username claims"
  from assms obtain e d1 d2 where look: "get_user_by_username ?n d = (Inl e, d1)" and nf: "error_is e ErrNotFound"
    and new: "create_oidc_user ?n (oc_issuer cfg) (cl_subject claims) ?role d1 = (Inr (), d2)" and go: "sign_in ?n d2 = (Inr r, d')"
    by (auto simp: new_sso_account_def Let_def tryP_run http_fail_def http_error_def answer_def split: if_splits)
  have "insert_user ?n (new_user ?n '''' ?role False (Some (cl_subject claims)) (Some (oc_issuer cfg))) d1 = (Inr (), d2)"
    using new by (auto simp: create_oidc_user_def Let_def unitP_Inr group_role_def split: if_splits)
  then obtain t where "\<forall>u\<in>set (d_users d1). u_name u \<noteq> ?n"
    and rows: "d_users d2 = d_users d1 @ [new_user ?n '''' ?role False (Some (cl_subject claims)) (Some (oc_issuer cfg)) t]"
    unfolding insert_user_def by (cases rule: ins_cases) (auto simp: first_clash_None user_exists_def)
  then have "find (\<lambda>u. u_name u = ?n) (d_users d1) = None" by (simp add: find_None_iff)
  with rows have there: "find_user d2 ?n = Some (new_user ?n '''' ?role False (Some (cl_subject claims)) (Some (oc_issuer cfg)) t)"
    by (simp add: find_user_def find_append new_user_def)
  have "d_users d1 = d_users d"
    using look by (auto simp: get_user_by_username_def one_row_def bindP_def tryP_def wrapP_def select_def failP_def
        elim!: stmt_cases split: prod.splits sum.splits option.splits)
  with \<open>find (\<lambda>u. u_name u = ?n) (d_users d1) = None\<close> same have "find_user before ?n = None" by (simp add: find_user_def)
  with assms(3) have "role_given cfg claims before (new_user ?n '''' ?role False (Some (cl_subject claims)) (Some (oc_issuer cfg)) t)"
    by (simp add: role_given_def new_user_def)
  from signed_in_from [OF _ assms(2) _ _ this] there go show ?thesis by (simp add: new_user_def linked_account_def)
qed

lemma find_user_update:
  "(\<And>u. u_name (f u) = u_name u) \<Longrightarrow> find (\<lambda>u. u_name u = n) (update_where P f us) =
     map_option (\<lambda>u. if P u then f u else u) (find (\<lambda>u. u_name u = n) us)"
  by (induction us) (auto simp: update_where_def)

text \<open>A role that is set is set; it is only refused to the last administrator.\<close>

lemma role_set:
  assumes "set_user_role name role d = (Inr (), d')"
  shows "d_users d' = update_where (\<lambda>u. u_name u = name) (\<lambda>u. u\<lparr>u_role := role\<rparr>) (d_users d)"
proof -
  let ?pre = "''set role for '' @ quoted name @ '': ''"
  have same: "load_role name d0 = (Inr x, d1) \<Longrightarrow> d_users d1 = d_users d0" "refuse_last_admin b d0 = (y, d1) \<Longrightarrow> d_users d1 = d_users d0"
    for d0 d1 x b and y :: "unit result"
    by (auto simp: load_role_def one_row_def refuse_last_admin_def bindP_def tryP_def wrapP_def select_def failP_def
          elim!: stmt_cases split: prod.splits sum.splits option.splits if_splits)
  from assms obtain fs d1 gs where "bindP (load_role name) (\<lambda>current.
        bindP (refuse_last_admin (current = ''admin'' \<and> role \<noteq> ''admin'')) (\<lambda>_.
        unitP ?pre (update_user name (\<lambda>_ u. u\<lparr>u_role := role\<rparr>)))) (d\<lparr>d_faults := fs\<rparr>) = (Inr (), d1)" "d' = d1\<lparr>d_faults := gs\<rparr>"
    unfolding set_user_role_def by (auto simp: failP_def split: if_splits dest!: tx_Inr)
  then obtain x y d2 d3 n where "load_role name (d\<lparr>d_faults := fs\<rparr>) = (Inr x, d2)" "refuse_last_admin y d2 = (Inr (), d3)"
    "update_user name (\<lambda>_ u. u\<lparr>u_role := role\<rparr>) d3 = (Inr n, d1)"
    by (auto simp: bindP_Inr unitP_Inr)
  with same \<open>d' = _\<close> show ?thesis unfolding update_user_def by (auto elim!: upd_cases)
qed

lemma role_refused:
  assumes "set_user_role name role d = (Inl e, d')" and "error_is e ErrLastAdmin"
  shows "d_users d' = d_users d \<and> only_admin d \<and> map_option u_role (find_user d name) = Some ''admin''"
proof -
  let ?body = "bindP (load_role name) (\<lambda>current.
        bindP (refuse_last_admin (current = ''admin'' \<and> role \<noteq> ''admin'')) (\<lambda>_.
        unitP (''set role for '' @ quoted name @ '': '') (update_user name (\<lambda>_ u. u\<lparr>u_role := role\<rparr>))))"
  have load: "load_role name d0 = (r, d1) \<Longrightarrow> d_users d1 = d_users d0 \<and>
      (case r of Inl e \<Rightarrow> \<not> error_is e ErrLastAdmin | Inr x \<Rightarrow> map_option u_role (find_user d0 name) = Some x)" for d0 d1 r
    by (auto simp: load_role_def one_row_def bindP_def tryP_def wrapP_def select_def failP_def find_user_def
          elim!: stmt_cases split: prod.splits sum.splits option.splits dest: sym)
  have refuse: "refuse_last_admin b d0 = (r, d1) \<Longrightarrow> d_users d1 = d_users d0 \<and>
      (case r of Inl e \<Rightarrow> error_is e ErrLastAdmin \<longrightarrow> b \<and> only_admin d0 | Inr x \<Rightarrow> True)" for d0 d1 r b
    by (auto simp: refuse_last_admin_def bindP_def tryP_def wrapP_def select_def failP_def only_admin_def
          elim!: stmt_cases split: prod.splits sum.splits if_splits)
  have set_it: "\<not> error_is e ErrLastAdmin" if "unitP pre (update_user name f) d0 = (Inl e, d1)" for pre f d0 d1 e
    using that by (auto simp: unitP_def update_user_def bindP_def tryP_def wrapP_def failP_def elim!: upd_cases split: prod.splits sum.splits)
  have inner: "only_admin d0 \<and> map_option u_role (find_user d0 name) = Some ''admin''"
    if "?body d0 = (Inl e, d1)" "error_is e ErrLastAdmin" for d0 d1 e
    using that by (auto simp: bindP_def [of "load_role name"] bindP_def [of "refuse_last_admin b" for b] tryP_def
        split: prod.splits sum.splits dest!: load refuse set_it simp: only_admin_def find_user_def)
  obtain fs d1 where "?body (d\<lparr>d_faults := fs\<rparr>) = (Inl e, d1)"
    using assms unfolding set_user_role_def tx_def
    by (auto simp: failP_def elim!: stmt_cases split: if_splits prod.splits sum.splits)
  from inner [OF this assms(2)] have "only_admin d \<and> map_option u_role (find_user d name) = Some ''admin''"
    by (simp add: only_admin_def find_user_def)
  moreover have "same_tables d d'"
    using assms by (auto simp: set_user_role_def failP_def split: if_splits dest!: tx_error_same)
  then have "d_users d' = d_users (d\<lparr>d_faults := d_faults d', d_drawn := d_drawn d'\<rparr>)"
    unfolding same_tables_def by (rule arg_cong)
  then have "d_users d' = d_users d" by simp
  ultimately show ?thesis by simp
qed

lemma known_account_signed:
  assumes "known_sso_account cfg u (group_role cfg (cl_groups claims)) d = (Inr r, d')" and "rp_cookie r = Some token"
    and "find_user d (u_name u) = Some u" and linked: "linked_account cfg claims u"
    and "find (linked_account cfg claims) (d_users before) = Some u" and same: "d_users d = d_users before"
  shows "signed_in_as cfg claims token before d'"
proof -
  let ?role = "group_role cfg (cl_groups claims)"
  note role = role_given_def [of cfg claims before, unfolded assms(5)]
  consider (kept) "gated cfg \<Longrightarrow> u_role u = ?role" "sign_in (u_name u) d = (Inr r, d')"
    | (changed) d1 where "gated cfg" "set_user_role (u_name u) ?role d = (Inr (), d1)" "sign_in (u_name u) d1 = (Inr r, d')"
    | (refused) e d1 where "set_user_role (u_name u) ?role d = (Inl e, d1)" "error_is e ErrLastAdmin" "sign_in (u_name u) d1 = (Inr r, d')"
    using assms(1,2) by (auto simp: known_sso_account_def tryP_run http_fail_def http_error_def answer_def split: if_splits)
  then show ?thesis
  proof cases
    case kept
    then have "role_given cfg claims before u" by (auto simp: role gated_def)
    then show ?thesis by (rule signed_in_from [OF kept(2) assms(2,3) linked])
  next
    case changed
    from role_set [OF changed(2)] assms(3) have "find_user d1 (u_name u) = Some (u\<lparr>u_role := ?role\<rparr>)"
      by (auto simp: find_user_def find_user_update)
    moreover have "role_given cfg claims before (u\<lparr>u_role := ?role\<rparr>)" using changed(1) by (auto simp: role gated_def)
    moreover have "linked_account cfg claims (u\<lparr>u_role := ?role\<rparr>)" using linked by (simp add: linked_account_def)
    ultimately show ?thesis using signed_in_from [of "u\<lparr>u_role := ?role\<rparr>" d1 r d' token] changed(3) assms(2) by simp
  next
    case refused
    from role_refused [OF refused(1,2)] assms(3) same have u: "find_user d1 (u_name u) = Some u" "u_role u = ''admin''" "only_admin before"
      by (auto simp: find_user_def only_admin_def)
    then have "role_given cfg claims before u" by (simp add: role)
    then show ?thesis by (rule signed_in_from [OF refused(3) assms(2) u(1) linked])
  qed
qed

lemma find_own_key: "distinct (map f xs) \<Longrightarrow> u \<in> set xs \<Longrightarrow> find (\<lambda>x. f x = f u) xs = Some u"
  by (induction xs) (auto simp: rev_image_eqI)

lemma sso_session_signed:
  assumes run: "sso_session cfg claims d = (Inr r, d')" and tok: "rp_cookie r = Some token" and "distinct (map u_name (d_users d))"
  shows "group_member cfg (cl_groups claims) \<and> signed_in_as cfg claims token d d'"
proof -
  let ?linked = "linked_account cfg claims" and ?role = "group_role cfg (cl_groups claims)"
  from run tok have allowed: "group_member cfg (cl_groups claims)"
    by (auto simp: sso_session_def oidc_access_groups http_error_def answer_def split: if_splits)
  with run tok obtain found d1 where get: "get_user_by_oidc (oc_issuer cfg) (cl_subject claims) d = (Inr found, d1)"
    and step: "(case found of None \<Rightarrow> new_sso_account cfg claims ?role | Some user \<Rightarrow> known_sso_account cfg user ?role) d1 = (Inr r, d')"
    by (auto simp: sso_session_def oidc_access_groups tryP_run http_fail_def http_error_def answer_def)
  from get have found: "found = find ?linked (d_users d)" "d_users d1 = d_users d"
    by (auto simp: get_user_by_oidc_def linked_account_def [abs_def] wrapP_def tryP_run select_def failP_def elim!: stmt_cases)
  have "signed_in_as cfg claims token d d'"
  proof (cases found)
    case None
    with step have "new_sso_account cfg claims ?role d1 = (Inr r, d')" by simp
    from new_account_signed [OF this tok _ found(2)] None found(1) show ?thesis by simp
  next
    case (Some u)
    with found(1) have there: "find ?linked (d_users d) = Some u" by simp
    from find_in [OF this] found(2) have u: "u \<in> set (d_users d1)" "?linked u" by simp_all
    with assms(3) found(2) have "find_user d1 (u_name u) = Some u" by (simp add: find_user_def find_own_key)
    moreover have "known_sso_account cfg u ?role d1 = (Inr r, d')" using step Some by simp
    ultimately show ?thesis using known_account_signed [OF _ tok _ u(2) _ found(2)] there by blast
  qed
  with allowed show ?thesis by simp
qed

text \<open>
  What the provider says of who signs in: the claims of the ID token, and what its user info, of the same
  subject, has beside them.
\<close>

definition told :: "user_info result \<Rightarrow> oidc_claims \<Rightarrow> oidc_claims \<Rightarrow> bool" where
  "told info c claims \<longleftrightarrow>
     (case info of
        Inl _ \<Rightarrow> claims = c
      | Inr u \<Rightarrow> ui_subject u = cl_subject c \<and>
          (case ui_claims u of
             Inl _ \<Rightarrow> claims = c
           | Inr x \<Rightarrow> cl_subject claims = cl_subject c
               \<and> cl_name claims = (if cl_name x = '''' then cl_name c else cl_name x)
               \<and> cl_email claims = (if cl_email x = '''' then cl_email c else cl_email x)
               \<and> cl_groups claims = (if cl_groups x = [] then cl_groups c else cl_groups x)))"

text \<open>
  The claims are those the provider stands by in its answer to this attempt: of the ID token it gave for the
  code of the query, verified for the configured client, with the nonce of the attempt.
\<close>

definition vouched :: "idp \<Rightarrow> oidc_config \<Rightarrow> oidc_request \<Rightarrow> string \<Rightarrow> oidc_claims \<Rightarrow> bool" where
  "vouched p cfg rq nonce claims \<longleftrightarrow> (\<exists>client token raw t c. oidc_new_config p cfg (oidc_redirect_url rq) = Inr client
     \<and> sp_exchange p client (or_code rq) = Inr token \<and> ot_id token = Some raw
     \<and> sp_verify p (issuer_of cfg) (oc_client cfg) raw = Inr t \<and> it_nonce t = nonce
     \<and> it_claims t = Inr c \<and> told (sp_user_info p (issuer_of cfg) token) c claims)"

lemma with_user_info_told: "with_user_info r c = Inr c' \<Longrightarrow> told r c c'"
  by (auto simp: with_user_info_def merge_claims_def told_def split: sum.splits if_splits)

text \<open>So there is one identity, with its groups, that an attempt can be of.\<close>

lemma told_once: "told r c x \<Longrightarrow> told r c y \<Longrightarrow> x = y"
  by (cases x; cases y) (auto simp: told_def split: sum.splits)

lemma vouched_once: "vouched p cfg rq nonce x \<Longrightarrow> vouched p cfg rq nonce y \<Longrightarrow> x = y"
  unfolding vouched_def by (elim exE conjE) (metis told_once option.inject sum.inject(2))

lemma verified_claims_vouched:
  assumes "verified_claims p cfg rq nonce = Inr claims"
  shows "vouched p cfg rq nonce claims"
proof -
  from assms obtain client token raw t c where "oidc_new_config p cfg (oidc_redirect_url rq) = Inr client" "sp_exchange p client (or_code rq) = Inr token" "ot_id token = Some raw"
    "sp_verify p (issuer_of cfg) (oc_client cfg) raw = Inr t" "it_nonce t = nonce" "it_claims t = Inr c"
    "with_user_info (sp_user_info p (issuer_of cfg) token) c = Inr claims"
    by (auto simp: verified_claims_def check_then_def or_refuse_def refuse_if_def split: sum.splits if_splits option.splits)
  then show ?thesis using with_user_info_told unfolding vouched_def by blast
qed

lemma attempt_nonce_cookie:
  "attempt_nonce rq = Inr nonce \<Longrightarrow> or_cookie rq = Some (or_state rq @ ''.'' @ nonce) \<and> or_state rq \<noteq> '''' \<and> nonce \<noteq> ''''"
  by (auto simp: attempt_nonce_def Let_def split: option.splits if_splits prod.splits dest: cut_at_Some)

text \<open>
  C14 sso_identity.  The callback of single sign-on gives out a session only to the browser that began the
  attempt: its cookie holds the state the provider sent back and the nonce of the ID token the provider
  vouches for.  The groups the provider names let the account in, when a group is configured, and the session
  is of the one account linked to that issuer and subject, or of a new one under a free name.  A new account
  has the role of those groups, and without configured groups an operator's.  An account that was there keeps
  its role when no group is configured; else it has the role of those groups, except that the only
  administrator may stay one.
\<close>

theorem sso_identity:
  assumes "oidc_callback_handler p rq s = (Inr a, s')" and "rp_cookie (sa_reply a) = Some token"
    and "distinct (map u_name (d_users (ap_db s)))"
  shows "\<exists>cfg nonce claims. k_oidc (ap_keys s) = Some cfg
     \<and> or_cookie rq = Some (or_state rq @ ''.'' @ nonce) \<and> or_state rq \<noteq> '''' \<and> nonce \<noteq> '''' \<and> vouched p cfg rq nonce claims
     \<and> group_member cfg (cl_groups claims) \<and> signed_in_as cfg claims token (ap_db s) (ap_db s')"
proof -
  from assms(1,2) obtain c s1 where get: "on_keys get_oidc_config s = (Inr c, s1)"
    and step: "(case c of None \<Rightarrow> http_error 404 ''SSO is not configured''
          | Some cfg \<Rightarrow> (case check_then (attempt_nonce rq) (verified_claims p cfg rq) of
               Inl (code, t) \<Rightarrow> http_error code t | Inr claims \<Rightarrow> on_store (sso_session cfg claims))) s1 = (Inr (sa_reply a), s')"
    by (auto simp: oidc_callback_handler_def with_attempt_def bindP_Inr tryP_run http_fail_def http_error_def answer_def)
  from get have s1: "c = k_oidc (ap_keys s)" "ap_db s1 = ap_db s"
    by (auto simp: zoomP_run get_oidc_config_def wrapP_def tryP_run kquery_def kstmt_def failP_def split: list.splits option.splits)
  from step assms(2) obtain cfg nonce claims d' where cfg: "c = Some cfg" and nonce: "attempt_nonce rq = Inr nonce"
    and claims: "verified_claims p cfg rq nonce = Inr claims" and run: "sso_session cfg claims (ap_db s) = (Inr (sa_reply a), d')"
    and d': "ap_db s' = d'"
    by (cases a) (auto simp: check_then_def zoomP_run s1 http_error_def answer_def split: option.splits sum.splits prod.splits)
  from sso_session_signed [OF run assms(2,3)] d' cfg s1(1) attempt_nonce_cookie [OF nonce] verified_claims_vouched [OF claims]
  show ?thesis by (intro exI [of _ cfg] exI [of _ nonce] exI [of _ claims]) simp
qed

text \<open>The first sign-in of a member of the operators' group.\<close>

definition wharf_idp :: idp where
  "wharf_idp = (let c = Inr \<lparr>cl_subject = ''7'', cl_name = ''ann'', cl_email = '''', cl_groups = [''ops'']\<rparr> in
     \<lparr>sp_discover = (\<lambda>_. Inr ()), sp_auth_url = (\<lambda>o' state nonce. oa_issuer o'), sp_exchange = (\<lambda>_ _. Inr \<lparr>ot_access = ''a'', ot_id = Some ''raw''\<rparr>),
      sp_verify = (\<lambda>_ _ _. Inr \<lparr>it_nonce = ''n'', it_claims = c\<rparr>), sp_user_info = (\<lambda>_ _. Inl (ErrText ''down''))\<rparr>)"

definition wharf_callback :: oidc_request where
  "wharf_callback = \<lparr>or_tls = True, or_host = ''wharf'', or_cookie = Some ''s.n'', or_state = ''s'', or_code = ''c''\<rparr>"

definition sso_server :: app_state where
  "sso_server = \<lparr>ap_db = empty_db 0 (\<lambda>_. ''tok''), ap_keys = empty_custodian\<lparr>k_oidc := Some \<lparr>oc_issuer = ''https://id'',
     oc_client = ''wharf'', oc_secret = ''x'', oc_name = ''SSO'', oc_admin_group = ''admins'', oc_operator_group = ''ops'',
     oc_disable_local = False\<rparr>\<rparr>, ap_polls = no_schedules\<rparr>"

lemma sso_identity_witness:
  "\<exists>cfg nonce claims. k_oidc (ap_keys sso_server) = Some cfg
     \<and> or_cookie wharf_callback = Some (or_state wharf_callback @ ''.'' @ nonce) \<and> or_state wharf_callback \<noteq> '''' \<and> nonce \<noteq> ''''
     \<and> vouched wharf_idp cfg wharf_callback nonce claims \<and> group_member cfg (cl_groups claims)
     \<and> signed_in_as cfg claims ''tok'' (ap_db sso_server) (ap_db (snd (oidc_callback_handler wharf_idp wharf_callback sso_server)))"
proof -
  have "fst (oidc_callback_handler wharf_idp wharf_callback sso_server)
      = Inr \<lparr>sa_reply = \<lparr>rp_answer = SeeOther ''/'', rp_cookie = Some ''tok''\<rparr>, sa_attempt = Some ''''\<rparr>" by code_simp
  from sso_identity [OF run_eqI [OF this]] show ?thesis by (simp add: sso_server_def empty_db_def)
qed

end
