(* ===== verification/Admin_Pages.thy ===== *)
theory Admin_Pages
  imports Stack_Rules Versions
begin

text \<open>
  The pages of Git connections, registries, hosts and the audit log: \<^verbatim>\<open>src/git_connections.go\<close>,
  \<^verbatim>\<open>src/registries.go\<close>, \<^verbatim>\<open>src/hosts.go\<close>, \<^verbatim>\<open>src/audit.go\<close>.  A credential form with an empty password keeps the
  stored one; a connection a stack uses is not deleted.  The clock is UTC, so a day is 86400 seconds.
\<close>

section \<open>Git connections\<close>

definition connection_page :: "string \<Rightarrow> string" where
  "connection_page i = ''/git-connections/'' @ i"

definition with_connection :: "string \<Rightarrow> (git_connection \<Rightarrow> (app_state, reply) prog) \<Rightarrow> (app_state, reply) prog" where
  "with_connection i f = tryP (on_store (get_git_connection i)) (\<lambda>_. not_found) f"

definition git_connections_handler :: "app_state handler" where
  "git_connections_handler c rq = tryP (on_store list_git_connections) (http_fail 500) (\<lambda>_. page ''git_connections.html'')"

definition git_connection_view_handler :: "string \<Rightarrow> app_state handler" where
  "git_connection_view_handler i c rq =
     with_connection i (\<lambda>conn.
       let shown = bindP (ignoreP (on_store (git_connection_in_use i))) (\<lambda>_. page ''git_connection_view.html'') in
       if gc_auth conn = ''ssh_key'' then tryP (on_keys (connection_ssh_public_key i)) (http_fail 500) (\<lambda>_. shown)
       else bindP (ignoreP (on_keys (connection_http_credential i))) (\<lambda>_. shown))"

definition regenerate_git_connection_key_handler :: "crypto \<Rightarrow> string \<Rightarrow> app_state handler" where
  "regenerate_git_connection_key_handler cy i c rq =
     with_connection i (\<lambda>conn.
       if gc_auth conn \<noteq> ''ssh_key'' then http_error 400 ''this connection does not use an SSH key''
       else tryP (on_keys (generate_connection_ssh_keypair cy i))
         (\<lambda>e. http_error 500 (''could not regenerate key: '' @ error_text e)) (\<lambda>_.
         audited c ''git_connection.regenerate_key'' (gc_name conn) ''''
           (redirect_with_saved_message (connection_page i) ''SSH key regenerated'')))"

definition rename_git_connection_handler :: "string \<Rightarrow> app_state handler" where
  "rename_git_connection_handler i c rq =
     (let name = trim_space (form_value rq ''name'') in
      if name = '''' then redirect_with_error (connection_page i) ''name can't be empty''
      else tryP (on_store (rename_git_connection i name)) (\<lambda>e. redirect_with_error (connection_page i) (error_text e)) (\<lambda>_.
        audited c ''git_connection.rename'' i name (redirect_with_saved (connection_page i))))"

text \<open>The password of the form, or the stored one when it is empty.\<close>

definition given_password :: "string \<Rightarrow> string \<Rightarrow> (app_state, string) prog" where
  "given_password i password =
     (if password = '''' then bindP (on_keys (connection_http_credential i)) (\<lambda>(_, existing). okP existing) else okP password)"

definition update_git_connection_credential_handler :: "string \<Rightarrow> app_state handler" where
  "update_git_connection_credential_handler i c rq =
     with_connection i (\<lambda>conn.
       let username = trim_space (form_value rq ''username'') in
       if gc_auth conn \<noteq> ''http_password''
       then redirect_with_error (connection_page i) ''this connection does not use a username/password credential''
       else if username = '''' then redirect_with_error (connection_page i) ''username can't be empty''
       else tryP (given_password i (form_value rq ''password''))
         (\<lambda>e. redirect_with_error (connection_page i) (''could not load the existing credential: '' @ error_text e)) (\<lambda>password.
         tryP (on_keys (import_connection_http_credential i username password))
           (\<lambda>e. redirect_with_error (connection_page i) (''could not store credential: '' @ error_text e)) (\<lambda>_.
           audited c ''git_connection.update_credential'' (gc_name conn) (''username '' @ username)
             (redirect_with_saved (connection_page i)))))"

definition delete_git_connection_handler :: "string \<Rightarrow> app_state handler" where
  "delete_git_connection_handler i c rq =
     with_connection i (\<lambda>conn.
       tryP (on_store (git_connection_in_use i)) (\<lambda>e. redirect_with_error (connection_page i) (error_text e)) (\<lambda>in_use.
         if in_use then redirect_with_error (connection_page i)
           (''one or more stacks still use this connection '' @ em_dash @ '' repoint them first'')
         else tryP (on_keys (delete_connection_keys i)) (http_fail 500) (\<lambda>_.
           tryP (on_store (delete_git_connection i)) (http_fail 500) (\<lambda>_.
             audited c ''git_connection.delete'' (gc_name conn) ''''
               (redirect_with_saved_message ''/git-connections'' ''Git connection deleted'')))))"

definition new_git_connection_form_handler :: "app_state handler" where
  "new_git_connection_form_handler c rq = page ''git_connection_form.html''"

text \<open>The credential of a connection whose row is already there; \<open>nxt\<close> is what follows its success.\<close>

definition connection_credential ::
  "crypto \<Rightarrow> request \<Rightarrow> string \<Rightarrow> string \<Rightarrow> (app_state, reply) prog \<Rightarrow> (app_state, reply) prog" where
  "connection_credential cy rq i auth nxt =
     (if auth = ''http_password'' then
        (if form_value rq ''username'' = '''' \<or> form_value rq ''password'' = '''' then http_error 400 ''username and password are required''
         else tryP (on_keys (import_connection_http_credential i (form_value rq ''username'') (form_value rq ''password'')))
           (\<lambda>e. http_error 500 (''could not store credential: '' @ error_text e)) (\<lambda>_. nxt))
      else if form_value rq ''key_source'' = ''import'' then
        tryP (on_keys (import_connection_ssh_key cy i (form_value rq ''private_key'')))
          (\<lambda>e. http_error 400 (''could not import key: '' @ error_text e)) (\<lambda>_. nxt)
      else tryP (on_keys (generate_connection_ssh_keypair cy i))
          (\<lambda>e. http_error 500 (''could not generate key: '' @ error_text e)) (\<lambda>_. nxt))"

definition create_git_connection_handler :: "crypto \<Rightarrow> app_state handler" where
  "create_git_connection_handler cy c rq =
     (case rq_form rq of
        Inl e \<Rightarrow> http_error 400 (''invalid form: '' @ error_text e)
      | Inr _ \<Rightarrow>
        let name = trim_space (form_value rq ''name''); i = slugify name;
            auth = (if form_value rq ''auth_kind'' \<noteq> ''http_password'' then ''ssh_key'' else ''http_password'') in
        if i = '''' then http_error 400 ''missing or invalid connection name''
        else tryP (on_store (create_git_connection i name auth))
          (\<lambda>e. http_error 409 (''could not create connection (name already taken?): '' @ error_text e)) (\<lambda>_.
          connection_credential cy rq i auth
            (audited c ''git_connection.create'' name auth (answer (SeeOther (connection_page i))))))"

section \<open>Registries\<close>

text \<open>Value, label and hint of the host.\<close>

definition registry_types :: "(string \<times> string \<times> string) list" where
  "registry_types =
     [(''dockerhub'', ''Docker Hub'', ''docker.io''), (''ghcr'', ''GitHub Container Registry (GHCR)'', ''ghcr.io''),
      (''gitlab'', ''GitLab Container Registry'', ''registry.gitlab.com''), (''acr'', ''Azure Container Registry'', ''''),
      (''custom'', ''Custom / self-hosted'', '''')]"

definition registry_type_label :: "string \<Rightarrow> string" where
  "registry_type_label value =
     (case find (\<lambda>(v, _). v = value) registry_types of None \<Rightarrow> value | Some (_, label, _) \<Rightarrow> label)"

record registry_view_row =
  rr_name :: string
  rr_host :: string
  rr_user :: string
  rr_type :: string
  rr_label :: string

definition registry_row_of :: "string \<times> string \<times> string \<times> string \<Rightarrow> registry_view_row" where
  "registry_row_of = (\<lambda>(name, host, typ, user).
     \<lparr>rr_name = if name = '''' then host else name, rr_host = host, rr_user = user, rr_type = typ, rr_label = registry_type_label typ\<rparr>)"

definition registry_rows :: "(app_state, registry_view_row list) prog" where
  "registry_rows = bindP (on_keys list_registries) (\<lambda>rs. okP (map registry_row_of rs))"

definition settings_registries_handler :: "app_state handler" where
  "settings_registries_handler c rq = tryP registry_rows (http_fail 500) (\<lambda>_. page ''settings_registries.html'')"

definition store_registry :: "web_context option \<Rightarrow> string \<Rightarrow> string \<Rightarrow> string \<Rightarrow> string \<Rightarrow> string \<Rightarrow> (app_state, reply) prog" where
  "store_registry c name host typ username password =
     tryP (on_keys (set_registry_credential (if name = '''' then host else name) host typ username password)) (http_fail 500) (\<lambda>_.
       audited c ''registry.set'' host (''username '' @ username) (redirect_with_saved ''/settings/registries''))"

definition set_registry_credential_handler :: "app_state handler" where
  "set_registry_credential_handler c rq =
     (let name = trim_space (form_value rq ''name''); host = trim_space (to_lower (form_value rq ''host''));
          typ = form_value rq ''type''; username = trim_space (form_value rq ''username''); password = form_value rq ''password'' in
      if host = '''' \<or> username = '''' then http_error 400 ''host and username are required''
      else if password = '''' then
        tryP (on_keys (registry_credential host)) (http_fail 500) (\<lambda>old.
          case old of
            None \<Rightarrow> http_error 400 ''password/token is required to add a new registry''
          | Some (_, existing) \<Rightarrow> store_registry c name host typ username existing)
      else store_registry c name host typ username password)"

definition delete_registry_credential_handler :: "string \<Rightarrow> app_state handler" where
  "delete_registry_credential_handler host c rq =
     tryP (on_keys (delete_registry_credential host)) (http_fail 500) (\<lambda>_.
       audited c ''registry.delete'' host '''' (redirect_with_saved_message ''/settings/registries'' ''Registry credential removed''))"

section \<open>Hosts\<close>

text \<open>\<^verbatim>\<open>net.SplitHostPort\<close>, the host alone; the port starts after the last colon.\<close>

definition last_cut :: "string \<Rightarrow> (string \<times> string) option" where
  "last_cut s =
     (let tail = rev (takeWhile (\<lambda>x. x \<noteq> CHR '':'') (rev s)) in
      if length tail = length s then None else Some (take (length s - length tail - 1) s, tail))"

definition split_host_port :: "string \<Rightarrow> string option" where
  "split_host_port s =
     (case last_cut s of
        None \<Rightarrow> None
      | Some (before, port) \<Rightarrow>
        if prefix ''['' s then
          (case cut_at '']'' s of
             None \<Rightarrow> None
           | Some (opened, rest) \<Rightarrow>
             if rest = '':'' @ port \<and> \<not> contains_str (tl s) ''['' \<and> \<not> contains_str rest '']'' then Some (tl opened) else None)
        else if contains_str before '':'' \<or> contains_str s ''['' \<or> contains_str s '']'' then None else Some before)"

definition controller_addr :: "string \<Rightarrow> string" where
  "controller_addr vhost =
     ''https://'' @ (case split_host_port vhost of None \<Rightarrow> vhost | Some h \<Rightarrow> h) @ '':8443''"

record host_row =
  hw_host :: host
  hw_outdated :: bool

definition new_host_row :: "string \<Rightarrow> host \<Rightarrow> host_row" where
  "new_host_row latest h =
     \<lparr>hw_host = h, hw_outdated = (h_agent_version h \<noteq> '''' \<and> latest \<noteq> '''' \<and> semver_less (h_agent_version h) latest)\<rparr>"

definition host_label :: "string \<Rightarrow> (app_state, string) prog" where
  "host_label i = (if i = '''' then okP em_dash else tryP (on_store (get_host i)) (\<lambda>_. okP i) (\<lambda>h. okP (h_name h)))"

text \<open>What the template of the hosts page is given, beside the answer.\<close>

record hosts_view =
  hv_pending :: "host_row list"
  hv_connected :: "host_row list"
  hv_address :: string
  hv_token :: string

definition hosts_view_of :: "string \<Rightarrow> string \<Rightarrow> string \<Rightarrow> host list \<Rightarrow> hosts_view" where
  "hosts_view_of latest vhost token hs =
     \<lparr>hv_pending = map (new_host_row latest) (filter (\<lambda>h. h_status h = ''pending'') hs),
      hv_connected = map (new_host_row latest) (filter (\<lambda>h. h_status h \<noteq> ''pending'') hs),
      hv_address = controller_addr vhost, hv_token = token\<rparr>"

definition render_hosts :: "string \<Rightarrow> string \<Rightarrow> string \<Rightarrow> (app_state, reply \<times> hosts_view option) prog" where
  "render_hosts latest vhost token =
     tryP (on_store list_hosts) (\<lambda>e. bindP (http_fail 500 e) (\<lambda>a. okP (a, None))) (\<lambda>hs.
       bindP (page ''hosts.html'') (\<lambda>a. okP (a, Some (hosts_view_of latest vhost token hs))))"

definition hosts_handler :: "string \<Rightarrow> string \<Rightarrow> (app_state, reply \<times> hosts_view option) prog" where
  "hosts_handler latest vhost = render_hosts latest vhost ''''"

text \<open>An hour, in the seconds of the store.\<close>

definition create_enrollment_token_handler ::
  "(string \<Rightarrow> string) \<Rightarrow> string \<Rightarrow> string \<Rightarrow> web_context option \<Rightarrow> (app_state, reply \<times> hosts_view option) prog" where
  "create_enrollment_token_handler hash latest vhost c =
     tryP (on_store (create_enrollment_token hash (case c of None \<Rightarrow> '''' | Some x \<Rightarrow> cx_user x) 3600))
       (\<lambda>e. bindP (http_fail 500 e) (\<lambda>a. okP (a, None))) (\<lambda>token.
       bindP (on_store (audit c ''host.enrollment_token'' '''' '''')) (\<lambda>_. render_hosts latest vhost token))"

text \<open>The page of a host, its row beside whether its tunnel is open.\<close>

definition host_view_handler :: "string \<Rightarrow> (string \<Rightarrow> bool) \<Rightarrow> string \<Rightarrow> (app_state, reply \<times> (host_row \<times> bool) option) prog" where
  "host_view_handler latest live i =
     tryP (on_store (get_host i)) (\<lambda>_. bindP not_found (\<lambda>a. okP (a, None))) (\<lambda>h.
       bindP (page ''host_view.html'') (\<lambda>a. okP (a, Some (new_host_row latest h, live i))))"

definition approve_host_handler :: "string \<Rightarrow> app_state handler" where
  "approve_host_handler i c rq =
     tryP (on_store (approve_host i (case c of None \<Rightarrow> '''' | Some x \<Rightarrow> cx_user x))) (http_fail 500) (\<lambda>_.
       audited c ''host.approve'' i '''' (redirect_with_saved_message ''/hosts'' ''Agent approved''))"

definition reject_host_handler :: "string \<Rightarrow> app_state handler" where
  "reject_host_handler i c rq =
     tryP (on_store (reject_pending_host i))
       (\<lambda>e. redirect_with_error ''/hosts'' (''could not reject this host: '' @ error_text e)) (\<lambda>_.
       audited c ''host.reject'' i '''' (redirect_with_saved_message ''/hosts'' ''Agent rejected''))"

definition set_host_address_handler :: "string \<Rightarrow> app_state handler" where
  "set_host_address_handler i c rq =
     (let address = trim_space (form_value rq ''address'') in
      tryP (on_store (set_host_address i address)) (http_fail 500) (\<lambda>_.
        audited c ''host.set_address'' i address (redirect_with_saved ''/hosts'')))"

definition set_host_name_handler :: "string \<Rightarrow> app_state handler" where
  "set_host_name_handler i c rq =
     (let name = trim_space (form_value rq ''name'') in
      if name = '''' then redirect_with_error (''/hosts/'' @ i) ''name can't be empty''
      else tryP (on_store (set_host_name i name)) (\<lambda>e. redirect_with_error (''/hosts/'' @ i) (error_text e)) (\<lambda>_.
        audited c ''host.rename'' i name (redirect_with_saved (''/hosts/'' @ i))))"

section \<open>The audit log\<close>

definition audit_categories :: "(string \<times> string) list" where
  "audit_categories =
     [(''auth'', ''Sign-in / sign-out''), (''container'', ''Containers (restart/stop)''),
      (''stack'', ''Stacks (deploy, secrets, lifecycle)''), (''host'', ''Hosts (approve, rename, address)''), (''user'', ''Users''),
      (''git_connection'', ''Git connections''), (''registry'', ''Registry credentials''), (''oidc'', ''SSO (OIDC)''),
      (''image'', ''Images (delete)''), (''volume'', ''Volumes (delete, file browser)''), (''network'', ''Networks (delete)''),
      (''notifications'', ''Notifications''), (''backup'', ''Backup & restore''),
      (''secrets'', ''Secrets (encrypt helper, references)''), (''scan'', ''Vulnerability scanning''),
      (''volume_backup'', ''Volume backups'')]"

text \<open>
  \<open>order\<close> is the order in which Go ranges over a map.  A category that fails is logged and the next
  one is tried.  A day has 86400 seconds, as it has in UTC; a change of the local clock is not modelled.
\<close>

definition prune_category :: "string \<times> int \<Rightarrow> (db, unit) prog" where
  "prune_category = (\<lambda>(category, days).
     if days \<le> 0 then okP ()
     else bindP (getP d_now) (\<lambda>now. ignoreP (prune_audit_older_than category (now - 86400 * days))))"

definition prune_audit_log :: "((string \<times> int) list \<Rightarrow> (string \<times> int) list) \<Rightarrow> (db, unit) prog" where
  "prune_audit_log order =
     tryP get_audit_retention_all (\<lambda>_. okP ()) (\<lambda>retention. forP prune_category (order retention))"

definition audit_log_handler :: "app_state handler" where
  "audit_log_handler c rq =
     tryP (on_store (list_audit 500)) (http_fail 500) (\<lambda>_.
     tryP (on_store get_audit_retention_all) (http_fail 500) (\<lambda>_. page ''audit_log.html''))"

text \<open>The days of a category, or the label of the first one that is not a number of days.\<close>

fun parse_retention :: "request \<Rightarrow> (string \<times> string) list \<Rightarrow> (string + (string \<times> int) list)" where
  "parse_retention rq [] = Inr []"
| "parse_retention rq ((key, label) # cs) =
     (let raw = trim_space (form_value rq (''retain_'' @ key)) in
      case atoi (if raw = '''' then ''0'' else raw) of
        None \<Rightarrow> Inl label
      | Some days \<Rightarrow>
        if days < 0 then Inl label
        else (case parse_retention rq cs of Inl l \<Rightarrow> Inl l | Inr ps \<Rightarrow> Inr ((key, days) # ps)))"

definition set_audit_retention_handler :: "((string \<times> int) list \<Rightarrow> (string \<times> int) list) \<Rightarrow> app_state handler" where
  "set_audit_retention_handler order c rq =
     (case parse_retention rq audit_categories of
        Inl label \<Rightarrow> redirect_with_error ''/audit-log''
          (''invalid retention value for '' @ label @ '' '' @ em_dash @ '' enter a whole number of days, or 0 for forever'')
      | Inr parsed \<Rightarrow>
        tryP (on_store (forP (\<lambda>(category, days). set_audit_retention category days) (order parsed))) (http_fail 500) (\<lambda>_.
          audited c ''audit.retention_change'' '''' '''' (redirect_with_saved ''/audit-log'')))"

end
