(* ===== verification/Admin_Rules.thy ===== *)
theory Admin_Rules
  imports Admin_Pages
begin

text \<open>
  What holds along a history of the pages of Git connections and of the stacks: a stack's connection is
  there as long as the stack is.  The daily pass over the audit log removes exactly the entries whose
  category has a retention they are older than.
\<close>

section \<open>A stack's connection is there\<close>

definition linked :: "db \<Rightarrow> bool" where
  "linked d \<longleftrightarrow> st_connection ` set (d_stacks d) \<subseteq> insert '''' (gc_id ` set (d_connections d))"

lemma table_linked [simp, intro]: "table_inv linked"
  by (rule table_invI) (simp_all add: linked_def)

lemma keeps_linked_store [keeps_intros]:
  "keeps linked (record_audit u a t e)"
  "keeps linked (enqueue_deployment j h tr ac)"
  "keeps linked (get_stack j)"
  "keeps linked (latest_deployment_for_stack j)"
  "keeps linked (get_git_connection j)"
  "keeps linked (git_connection_in_use j)"
  "keeps linked list_git_connections"
  "keeps linked (get_stack_revision j n)"
  "keeps linked (secret_connections_for_stack j)"
  "keeps linked (record_stack_revision j y)"
  by ((unfold record_audit_def enqueue_deployment_def get_stack_def latest_deployment_for_stack_def get_deployment_def
      get_git_connection_def git_connection_in_use_def list_git_connections_def get_stack_revision_def
      secret_connections_for_stack_def query_connections_def record_stack_revision_def;
      intro keeps_intros keeps_ins keeps_exec; auto simp: linked_def)+)

lemma keeps_linked_draw [keeps_intros]: "keeps linked draw"
  by (rule keeps_draw) simp

lemma keeps_linked_update:
  assumes "\<And>d s. st_connection (f d s) = st_connection s"
  shows "keeps linked (update_stack j f)"
  unfolding update_stack_def
  by (rule keeps_upd) (simp_all add: linked_def image_update_where assms)

lemma keeps_linked_updates [keeps_intros]:
  "keeps linked (record_poll j sha)"
  "keeps linked (set_poll_schedule j schedule)"
  "keeps linked (update_stack_trigger j tr schedule secret)"
  "keeps linked (rename_stack j name)"
  "keeps linked (update_stack_secret j cipher)"
  "keeps linked (update_stack_compose j y)"
  by (unfold record_poll_def set_poll_schedule_def update_stack_trigger_def rename_stack_def update_stack_secret_def
      update_stack_compose_def; intro keeps_intros keeps_linked_update; simp)+

lemma keeps_linked_rows [keeps_intros]:
  "keeps linked (delete_stack j)"
  "keeps linked (create_git_connection j name auth)"
  "keeps linked (rename_git_connection j name)"
  by ((unfold delete_stack_def create_git_connection_def rename_git_connection_def Let_def;
      intro keeps_intros keeps_del keeps_ins keeps_upd; auto simp: linked_def delete_where_def image_update_where)+)

text \<open>A connection that is found is there; one that no stack uses can go.\<close>

definition linked_to :: "string \<Rightarrow> db \<Rightarrow> bool" where
  "linked_to i d \<longleftrightarrow> linked d \<and> i \<in> insert '''' (gc_id ` set (d_connections d))"

lemma table_linked_to [simp, intro]: "table_inv (linked_to i)"
  by (rule table_invI) (simp_all add: linked_to_def linked_def)

lemma found_connection:
  assumes "get_git_connection i d = (Inr conn, d')" and "linked d"
  shows "linked_to i d'"
proof -
  from assms(1) obtain fs where fs: "find (\<lambda>c. gc_id c = i) (d_connections d) = Some conn" "d' = d\<lparr>d_faults := fs\<rparr>"
    unfolding get_git_connection_def using one_row_Inr [of _ "\<lambda>d. find (\<lambda>c. gc_id c = i) (d_connections d)" d conn d'] by auto
  from find_in [OF fs(1)] have "i \<in> gc_id ` set (d_connections d)" by blast
  with assms(2) fs(2) show ?thesis by (simp add: linked_to_def linked_def)
qed

lemma create_linked: "triple (linked_to (st_connection st)) (create_stack st) (\<lambda>_. linked)"
proof -
  have "keeps (linked_to (st_connection st)) (create_stack st)"
    unfolding create_stack_def by (intro keeps_intros keeps_ins) (auto simp: linked_to_def linked_def)
  then show ?thesis unfolding triple_keeps by (rule triple_weaken) (simp_all add: linked_to_def)
qed

definition unused :: "string \<Rightarrow> db \<Rightarrow> bool" where
  "unused i d \<longleftrightarrow> linked d \<and> i \<notin> st_connection ` set (d_stacks d) - {''''}"

lemma not_in_use:
  assumes "git_connection_in_use i d = (Inr False, d')" and "linked d"
  shows "unused i d'"
proof -
  from assms(1) obtain n where "select (\<lambda>d. count_where (\<lambda>s. st_connection s = i \<and> st_connection s \<noteq> '''') (d_stacks d)) d = (Inr n, d')" "n = 0"
    by (auto simp: git_connection_in_use_def bindP_Inr)
  then obtain fs where "\<forall>s\<in>set (d_stacks d). \<not> (st_connection s = i \<and> st_connection s \<noteq> '''')" "d' = d\<lparr>d_faults := fs\<rparr>"
    by (auto simp: count_where_def filter_empty_conv elim!: select_cases)
  with assms(2) show ?thesis unfolding unused_def linked_def by (simp add: image_iff) blast
qed

lemma table_unused [simp, intro]: "table_inv (unused i)"
  by (rule table_invI) (simp_all add: unused_def linked_def)

lemma delete_linked: "triple (unused i) (delete_git_connection i) (\<lambda>_. linked)"
proof -
  have "unused i (d_connections_update (delete_where (\<lambda>c. gc_id c = i)) d)" if "unused i d" for d
  proof -
    have free: "i \<notin> st_connection ` set (d_stacks d) - {''''}"
      and rows: "st_connection ` set (d_stacks d) \<subseteq> insert '''' (gc_id ` set (d_connections d))"
      using that unfolding unused_def linked_def by blast+
    have "st_connection ` set (d_stacks d) \<subseteq> insert '''' (gc_id ` {c \<in> set (d_connections d). gc_id c \<noteq> i})"
    proof (rule image_subsetI)
      fix s assume s: "s \<in> set (d_stacks d)"
      then have "st_connection s \<in> insert '''' (gc_id ` set (d_connections d))" by (rule subsetD [OF rows imageI])
      moreover have "st_connection s \<noteq> i \<or> st_connection s = ''''" using s free by auto
      ultimately show "st_connection s \<in> insert '''' (gc_id ` {c \<in> set (d_connections d). gc_id c \<noteq> i})" by auto
    qed
    with that show ?thesis by (simp add: unused_def linked_def delete_where_def)
  qed
  then have "keeps (unused i) (delete_git_connection i)"
    unfolding delete_git_connection_def by (intro keeps_intros keeps_del table_unused)
  then show ?thesis unfolding triple_keeps by (rule triple_weaken) (simp_all add: unused_def)
qed

text \<open>What the handlers that look for a connection do with it.\<close>

lemma answers_linked: "triple (\<lambda>s. linked (ap_db s)) (http_fail n e) (\<lambda>_ s. linked (ap_db s))"
    "triple (\<lambda>s. linked (ap_db s)) (http_error n t) (\<lambda>_ s. linked (ap_db s))"
    "triple (\<lambda>s. linked (ap_db s)) (redirect_with_error p t) (\<lambda>_ s. linked (ap_db s))"
    "triple (\<lambda>s. linked (ap_db s)) not_found (\<lambda>_ s. linked (ap_db s))"
  by (auto simp: triple_def answer_defs)

lemma store_stack_linked: "triple (\<lambda>s. linked_to (st_connection st) (ap_db s)) (store_stack cron c st) (\<lambda>_ s. linked (ap_db s))"
  unfolding store_stack_def
proof (rule triple_tryP)
  show "triple (\<lambda>s. linked_to (st_connection st) (ap_db s)) (on_store (create_stack st)) (\<lambda>_ s. linked (ap_db s))"
    using create_linked [of st] by (auto simp: triple_def zoomP_def split: prod.splits)
  have "keeps (\<lambda>s. linked (ap_db s)) (bindP (if st_trigger st = ''polling'' then ignoreP (on_polls (register_polling cron st)) else okP ())
      (\<lambda>_. audited c ''stack.create'' (st_name st) (st_source st @ '' stack, trigger '' @ st_trigger st)
         (answer (SeeOther (stack_page (st_id st))))))"
    by (intro keeps_intros)
  then show "triple (\<lambda>s. linked (ap_db s)) (bindP (if st_trigger st = ''polling'' then ignoreP (on_polls (register_polling cron st)) else okP ())
      (\<lambda>_. audited c ''stack.create'' (st_name st) (st_source st @ '' stack, trigger '' @ st_trigger st)
         (answer (SeeOther (stack_page (st_id st)))))) (\<lambda>_ s. linked (ap_db s))" by (simp add: triple_keeps)
qed (rule answers_linked)

lemma credentials_linked:
  assumes "st_connection st = ''''"
  shows "triple (\<lambda>s. linked (ap_db s)) (stack_credentials cy rq st)
     (\<lambda>r s. linked (ap_db s) \<and> (case r of Inr (Inr st') \<Rightarrow> linked_to (st_connection st') (ap_db s) | _ \<Rightarrow> True))"
proof (rule tripleI)
  fix s r s'
  let ?g = "form_value rq ''git_connection_id''"
  assume l: "linked (ap_db s)" and run: "stack_credentials cy rq st s = (r, s')"
  have "keeps (\<lambda>s. linked (ap_db s)) (stack_credentials cy rq st)"
    unfolding stack_credentials_def Let_def by (intro keeps_intros)
  then have l': "linked (ap_db s')" using l run by (rule keepsE)
  have "linked_to (st_connection st') (ap_db s')" if "r = Inr (Inr st')" for st'
    using run that assms l' found_connection [of ?g "ap_db s"] l
    by (auto simp: stack_credentials_def Let_def tryP_run bindP_Inr zoomP_run answer_defs linked_to_def split: if_splits)
  with l' show "linked (ap_db s') \<and> (case r of Inr (Inr st') \<Rightarrow> linked_to (st_connection st') (ap_db s') | _ \<Rightarrow> True)"
    by (simp split: sum.split)
qed

lemma create_stack_handler_linked: "keeps (\<lambda>s. linked (ap_db s)) (create_stack_handler cy cron c rq)"
proof -
  have tail: "keeps (\<lambda>s. linked (ap_db s)) (bindP (stack_credentials cy rq st) (\<lambda>r. case r of Inl a \<Rightarrow> okP a | Inr st \<Rightarrow> store_stack cron c st))"
    if "st_connection st = ''''" for st
    unfolding triple_keeps
    by (rule triple_bindP [OF credentials_linked [OF that]])
       (auto split: sum.split intro!: triple_okP intro: triple_weaken [OF store_stack_linked])
  show ?thesis unfolding create_stack_handler_def Let_def
    by (intro keeps_intros tail) (simp add: form_stack_def)
qed

lemma delete_handler_linked: "keeps (\<lambda>s. linked (ap_db s)) (delete_git_connection_handler i c rq)"
proof -
  have kept: "keeps (\<lambda>s. unused i (ap_db s)) (on_keys m)" for m :: "(custodian, unit) prog"
    by (rule keeps_on_keys)
  have store: "triple (\<lambda>s. unused i (ap_db s)) (on_store (delete_git_connection i)) (\<lambda>_ s. linked (ap_db s))"
    using delete_linked [of i] by (auto simp: triple_def zoomP_def split: prod.splits)
  have last: "triple (\<lambda>s. linked (ap_db s)) (audited c a x y (redirect_with_saved_message p t)) (\<lambda>_ s. linked (ap_db s))" for a x y p t
    unfolding triple_keeps [symmetric] by (intro keeps_intros)
  have tail: "triple (\<lambda>s. unused i (ap_db s)) (tryP (on_keys (delete_connection_keys i)) (http_fail 500) (\<lambda>_.
           tryP (on_store (delete_git_connection i)) (http_fail 500) (\<lambda>_.
             audited c a x y (redirect_with_saved_message p t)))) (\<lambda>_ s. linked (ap_db s))" for a x y p t
    by (rule triple_tryP [OF kept [unfolded triple_keeps]], rule triple_weaken [OF answers_linked(1)], simp_all add: unused_def)
       (rule triple_tryP [OF triple_weaken [OF store] answers_linked(1) last], simp_all add: unused_def)
  have look: "triple (\<lambda>s. linked (ap_db s)) (on_store (git_connection_in_use i))
      (\<lambda>r s. linked (ap_db s) \<and> (r = Inr False \<longrightarrow> unused i (ap_db s)))"
  proof (rule tripleI)
    fix s r s'
    assume l: "linked (ap_db s)" and run: "on_store (git_connection_in_use i) s = (r, s')"
    from keepsE [OF keeps_on_store [OF keeps_linked_store(6)] l run] l run
    show "linked (ap_db s') \<and> (r = Inr False \<longrightarrow> unused i (ap_db s'))"
      by (auto simp: zoomP_run intro: not_in_use)
  qed
  show ?thesis unfolding delete_git_connection_handler_def with_connection_def triple_keeps
    by (intro triple_tryP [OF keeps_on_store [OF keeps_linked_store(5), unfolded triple_keeps]] answers_linked
        triple_tryP [OF look] triple_if triple_weaken [OF answers_linked(3)] triple_weaken [OF tail]) auto
qed

lemma stack_actions_linked: "keeps (\<lambda>s. linked (ap_db s)) (stack_action_handler env a c rq)"
proof (cases a)
  case NewStack
  then show ?thesis by (simp add: create_stack_handler_linked)
qed (simp_all, unfold update_stack_handler_def restore_stack_revision_handler_def replace_compose_def update_stack_secret_handler_def
    rename_stack_handler_def set_poll_schedule_handler_def set_stack_trigger_handler_def force_poll_handler_def poll_stack_def
    queue_polled_deploy_def ls_remote_sha_def resolve_git_auth_def deploy_stack_handler_def undeploy_stack_handler_def
    delete_stack_handler_def audit_system_def kept_secret_def Let_def, (intro keeps_intros)+)

lemma hooks_linked: "keeps (\<lambda>s. linked (ap_db s)) (hooks_handler hmac i hk)"
  unfolding hooks_handler_def audit_system_def by (intro keeps_intros)

lemma poll_linked: "keeps linked (poll_stack kr git i)"
  unfolding poll_stack_def queue_polled_deploy_def ls_remote_sha_def resolve_git_auth_def audit_system_def Let_def
  by (intro keeps_intros)

section \<open>Histories\<close>

datatype connection_action =
    ListConnections
  | ViewConnection string
  | NewConnection
  | RegenerateKey string
  | RenameConnection string
  | ChangeCredential string
  | DeleteConnection string

fun connection_handler :: "crypto \<Rightarrow> connection_action \<Rightarrow> app_state handler" where
  "connection_handler cy ListConnections = git_connections_handler"
| "connection_handler cy (ViewConnection i) = git_connection_view_handler i"
| "connection_handler cy NewConnection = create_git_connection_handler cy"
| "connection_handler cy (RegenerateKey i) = regenerate_git_connection_key_handler cy i"
| "connection_handler cy (RenameConnection i) = rename_git_connection_handler i"
| "connection_handler cy (ChangeCredential i) = update_git_connection_credential_handler i"
| "connection_handler cy (DeleteConnection i) = delete_git_connection_handler i"

lemma connections_linked: "keeps (\<lambda>s. linked (ap_db s)) (connection_handler cy a c rq)"
proof (cases a)
  case (DeleteConnection i)
  then show ?thesis by (simp add: delete_handler_linked)
qed (simp_all, unfold git_connections_handler_def git_connection_view_handler_def with_connection_def create_git_connection_handler_def
    connection_credential_def regenerate_git_connection_key_handler_def rename_git_connection_handler_def
    update_git_connection_credential_handler_def given_password_def Let_def, (intro keeps_intros)+)

datatype link_event =
    OnStacks stack_event
  | OnConnections connection_action "web_context option" request

fun link_step :: "stack_env \<Rightarrow> link_event \<Rightarrow> app_state \<Rightarrow> app_state" where
  "link_step env (OnStacks e) s = stack_step env e s"
| "link_step env (OnConnections a c rq) s = snd (connection_handler (se_crypto env) a c rq s)"

lemma link_step_linked: "linked (ap_db s) \<Longrightarrow> linked (ap_db (link_step env e s))"
proof (induction e)
  case (OnStacks e)
  then show ?case
    by (cases e) (auto intro: keepsD [OF stack_actions_linked] keepsD [OF hooks_linked] keepsD [OF keeps_on_store [OF poll_linked]])
next
  case (OnConnections a c rq)
  then show ?case by (simp add: keepsD [OF connections_linked])
qed

text \<open>
  Whatever is done with the pages of stacks and of Git connections, by web hooks and
  polls, and whatever statements fail, the shared connection a stack names exists: it is looked up when
  the stack is created, and not removed while a stack names it.
\<close>

theorem git_links_hold:
  assumes "linked (ap_db s)" and "st \<in> set (d_stacks (ap_db (fold (link_step env) events s)))" and "st_connection st \<noteq> ''''"
  shows "\<exists>conn\<in>set (d_connections (ap_db (fold (link_step env) events s))). gc_id conn = st_connection st"
proof -
  have "linked (ap_db (fold (link_step env) events s))"
    using assms(1) by (induction events arbitrary: s) (simp_all add: link_step_linked)
  then have "st_connection st \<in> insert '''' (gc_id ` set (d_connections (ap_db (fold (link_step env) events s))))"
    unfolding linked_def by (rule subsetD [OF _ imageI]) (rule assms(2))
  with assms(3) show ?thesis by auto
qed

text \<open>The connection of a stack, which the page of connections then refuses to remove.\<close>

definition shared_history :: "link_event list" where
  "shared_history =
     [OnConnections NewConnection None (form [(''name'', ''forge''), (''auth_kind'', ''ssh_key'')]),
      OnStacks (Form NewStack None (form [(''name'', ''blog''), (''source'', ''git''), (''git_connection_id'', ''forge'')])),
      OnConnections (DeleteConnection ''forge'') None (form [])]"

lemma git_links_hold_witness:
  "\<exists>st. d_stacks (ap_db (fold (link_step plain_env) shared_history fresh_app)) = [st] \<and> st_connection st = ''forge''
     \<and> (\<exists>conn\<in>set (d_connections (ap_db (fold (link_step plain_env) shared_history fresh_app))). gc_id conn = st_connection st)"
proof -
  obtain st where st: "d_stacks (ap_db (fold (link_step plain_env) shared_history fresh_app)) = [st]" "st_connection st = ''forge''"
  proof -
    have "map st_connection (d_stacks (ap_db (fold (link_step plain_env) shared_history fresh_app))) = [''forge'']" by code_simp
    then show ?thesis using that by (auto simp: map_eq_Cons_conv)
  qed
  moreover have "linked (ap_db fresh_app)" by (simp add: linked_def fresh_app_def empty_db_def)
  ultimately show ?thesis using git_links_hold [of fresh_app st plain_env shared_history] by simp
qed

text \<open>
  A connection whose form has no credential is refused after its row was stored, and the same name is
  refused from then on.
\<close>

lemma refused_connection_stays:
  "fst (connection_handler plain_crypto NewConnection None (form [(''name'', ''forge''), (''auth_kind'', ''http_password'')]) fresh_app)
      = Inr \<lparr>rp_answer = HttpError 400 ''username and password are required'', rp_cookie = None\<rparr>
   \<and> map gc_id (d_connections (ap_db (snd (connection_handler plain_crypto NewConnection None
       (form [(''name'', ''forge''), (''auth_kind'', ''http_password'')]) fresh_app)))) = [''forge'']"
  by (rule conjI) code_simp+

section \<open>The daily pass over the audit log\<close>

text \<open>An entry is of a category when its action is, or begins with it and a dot.\<close>

definition in_category :: "string \<Rightarrow> audit_row \<Rightarrow> bool" where
  "in_category category a \<longleftrightarrow> a_action a = category \<or> sql_like (category @ ''.%'') (a_action a)"

definition expired :: "int \<Rightarrow> (string \<times> int) list \<Rightarrow> audit_row \<Rightarrow> bool" where
  "expired now retention a \<longleftrightarrow>
     list_ex (\<lambda>(category, days). 0 < days \<and> in_category category a \<and> a_created a < now - 86400 * days) retention"

lemma prune_category_run:
  assumes "prune_category p d = (r, d')"
  shows "r = Inr () \<and> d_now d' = d_now d \<and> (\<forall>a\<in>set (d_audit d). \<not> expired (d_now d) [p] a \<longrightarrow> a \<in> set (d_audit d'))
    \<and> (d_faults d = [] \<longrightarrow> d_faults d' = [] \<and> d_audit d' = filter (\<lambda>a. \<not> expired (d_now d) [p] a) (d_audit d))"
proof (cases "snd p \<le> 0")
  case True
  with assms show ?thesis by (cases p) (auto simp: prune_category_def expired_def)
next
  case False
  obtain category days where p: "p = (category, days)" by force
  let ?old = "\<lambda>a. in_category category a \<and> a_created a < d_now d - 86400 * days"
  from assms False p obtain x where run: "del d_audit d_audit_update (\<lambda>_. ?old) d = (x, d')" and r: "r = Inr ()"
    by (auto simp: prune_category_def prune_audit_older_than_def in_category_def bindP_def getP_def ignoreP_def wrapP_def tryP_def
        split: prod.splits sum.splits)
  have exp: "expired (d_now d) [p] = ?old" using False by (auto simp: expired_def p)
  show ?thesis
  proof (cases "d_faults d")
    case Nil
    with run have "d' = d_audit_update (delete_where ?old) d" by (simp add: del_def faultless_exec)
    with Nil r show ?thesis by (simp add: exp delete_where_def)
  next
    case (Cons f fs)
    from run show ?thesis by (cases rule: del_cases) (use r Cons in \<open>auto simp: exp delete_where_def\<close>)
  qed
qed

lemma prune_loop:
  assumes "forP prune_category ps d = (r, d')"
  shows "d_now d' = d_now d \<and> (\<forall>a\<in>set (d_audit d). \<not> expired (d_now d) ps a \<longrightarrow> a \<in> set (d_audit d'))
    \<and> (d_faults d = [] \<longrightarrow> d_audit d' = filter (\<lambda>a. \<not> expired (d_now d) ps a) (d_audit d))"
  using assms
proof (induction ps arbitrary: d)
  case Nil
  then show ?case by (auto simp: expired_def)
next
  case (Cons p ps)
  obtain r1 d1 where first: "prune_category p d = (r1, d1)" by force
  note run = prune_category_run [OF first]
  have rest: "forP prune_category ps d1 = (r, d')" using Cons.prems first run by (simp add: bindP_def tryP_def)
  have split: "expired (d_now d) (p # ps) a \<longleftrightarrow> expired (d_now d) [p] a \<or> expired (d_now d) ps a" for a by (simp add: expired_def)
  from Cons.IH [OF rest] run show ?case unfolding split by (auto simp: conj_commute)
qed

text \<open>
  The daily pass over the audit log only removes entries older than the retention of
  their category, whatever fails; when nothing fails it removes all of them.  The order in which the
  categories are taken is not fixed.
\<close>

theorem pruning_exact:
  assumes "set (order (d_retention d)) = set (d_retention d)"
  shows "(\<forall>a\<in>set (d_audit d). \<not> expired (d_now d) (d_retention d) a \<longrightarrow> a \<in> set (d_audit (snd (prune_audit_log order d))))
    \<and> (d_faults d = [] \<longrightarrow> d_audit (snd (prune_audit_log order d)) = filter (\<lambda>a. \<not> expired (d_now d) (d_retention d) a) (d_audit d))"
proof -
  obtain x d1 where read: "get_audit_retention_all d = (x, d1)" by force
  then have same: "d_audit d1 = d_audit d" "d_now d1 = d_now d" "\<forall>y. x = Inr y \<longrightarrow> y = d_retention d"
    "d_faults d = [] \<longrightarrow> d_faults d1 = [] \<and> x = Inr (d_retention d)"
    by (auto simp: get_audit_retention_all_def wrapP_def tryP_def select_def stmt_def failP_def split: prod.splits sum.splits list.splits option.splits)
  have perm: "expired now (order (d_retention d)) = expired now (d_retention d)" for now
    using assms by (auto simp: expired_def list_ex_iff)
  obtain r d' where loop: "forP prune_category (order (d_retention d)) d1 = (r, d')" by force
  show ?thesis
  proof (cases x)
    case (Inl e)
    with read same show ?thesis by (simp add: prune_audit_log_def tryP_def)
  next
    case (Inr y)
    with same(3) have x: "x = Inr (d_retention d)" by simp
    have "prune_audit_log order d = (r, d')" using read loop unfolding x by (simp add: prune_audit_log_def tryP_def)
    then have out: "snd (prune_audit_log order d) = d'" by simp
    show ?thesis using prune_loop [OF loop] same(4) unfolding perm out same(1,2) by blast
  qed
qed

definition old_audit :: db where
  "old_audit = (empty_db 864000 (\<lambda>_. ''''))\<lparr>d_retention := [(''stack'', 7), (''user'', 0)],
     d_audit := [\<lparr>a_id = 1, a_user = ''ann'', a_action = ''stack.deploy'', a_target = ''blog'', a_detail = '''', a_created = 86400\<rparr>,
       \<lparr>a_id = 2, a_user = ''ann'', a_action = ''user.create'', a_target = ''bob'', a_detail = '''', a_created = 86400\<rparr>]\<rparr>"

lemma pruning_exact_witness: "map a_id (d_audit (snd (prune_audit_log rev old_audit))) = [2]"
proof -
  have "d_audit (snd (prune_audit_log rev old_audit)) = filter (\<lambda>a. \<not> expired (d_now old_audit) (d_retention old_audit) a) (d_audit old_audit)"
    by (rule conjunct2 [OF pruning_exact, rule_format]) (auto simp: old_audit_def empty_db_def)
  then show ?thesis by (rule ssubst) code_simp
qed

text \<open>The category of the entries about the retention itself is not among those that can be set.\<close>

definition not_of_retention :: "string \<Rightarrow> bool" where
  "not_of_retention c \<longleftrightarrow> ''audit.retention_change'' \<noteq> c \<and> \<not> sql_like (c @ ''.%'') ''audit.retention_change''"

lemma retention_change_kept:
  assumes "fst ` set retention \<subseteq> fst ` set audit_categories" and "a_action a = ''audit.retention_change''"
  shows "\<not> expired now retention a"
proof -
  have "list_all not_of_retention (map fst audit_categories)" by code_simp
  then have "\<forall>c\<in>fst ` set audit_categories. not_of_retention c" by (simp add: list_all_iff)
  then have "\<not> in_category c a" if "c \<in> fst ` set audit_categories" for c
    using bspec [OF \<open>\<forall>c\<in>fst ` set audit_categories. not_of_retention c\<close> that]
    unfolding in_category_def assms(2) not_of_retention_def by blast
  then have "\<not> in_category c a" if "(c, n) \<in> set retention" for c n
    using subsetD [OF assms(1)] that by (metis fst_conv image_eqI)
  then show ?thesis unfolding expired_def list_ex_iff by blast
qed

section \<open>Kept passwords\<close>

text \<open>A form with an empty password changes the rest of the credential and keeps the password.\<close>

lemma blank_password_keeps:
  assumes "given_password i '''' s = (Inr password, s')"
  shows "\<exists>row\<in>set (k_conn_http (ap_keys s)). hr_id row = i \<and> hr_password row = password"
proof -
  from assms obtain u where run: "on_keys (connection_http_credential i) s = (Inr (u, password), s')"
    by (auto simp: given_password_def bindP_Inr)
  then have "map_option (\<lambda>r. (hr_user r, hr_password r)) (find (\<lambda>r. hr_id r = i) (k_conn_http (ap_keys s))) = Some (u, password)"
    by (auto simp: zoomP_run connection_http_credential_def krow_def kquery_def kstmt_def bindP_Inr failP_def
        split: list.splits option.splits)
  then show ?thesis by (auto dest: find_in)
qed

text \<open>The address shown for an IPv6 host has lost its brackets.\<close>

lemma ipv6_address_unbracketed: "controller_addr ''[::1]:9443'' = ''https://::1:8443''"
  by code_simp

end
