(* ===== verification/Spec2Isabelle.thy ===== *)
theory Spec2Isabelle
  imports Path_Rules Secret_Refs Secret_Resolve Store_Hosts Store_Stacks Store_Users Store_Backups
    Store_Secrets Store_Scans Versions Web Auth Secret_Connections Agent_Channel Agent_Commands
    Tunnel Tunnel_State Backup_Selection Scheduler Backup_Runs Custodian App Polling Stack_Pages
    Stack_Rules Go_Paths Agent_Calls Volume_Browse Resource_Pages Container_Pages Image_Updates
    Image_Rules Notifications Scan_Targets Vuln_Scans Scan_Rules Provider_Pages Binding_Pages Binding_Rules
    Backup_Destinations Backup_Pages Backup_Rules Sso Admin_Pages Admin_Rules
begin

text \<open>
  A verification development for the server of Wharf: who gets in (hosts, users, agents), what a
  stack may read of the secret providers, and what the database keeps.

  \<^bold>\<open>The program.\<close>  A web server for administrators and a TLS channel for agents share one SQLite
  database (\<^verbatim>\<open>src/internal/store\<close>).  An agent enrolls with a certificate, an administrator (or an
  enrollment token) lets it in, and from then on it polls for deployments, decrypts and resolves the
  secrets of the deployment it runs, and reports the outcome.

  \<^bold>\<open>The model.\<close>  A Go string is a list of bytes.  An operation is a function from a state to a result
  (an error value \<open>gerr\<close> on the left, a value on the right) and a new state; \<open>bindP\<close>, \<open>tryP\<close> and
  \<open>wrapP\<close> are the \<^verbatim>\<open>if err != nil\<close> of the code.  The database is a record with a list of rows per
  table, a clock in seconds, a source of random strings and a list of driver failures, so that every
  statement of every operation may fail.  A JSON column is kept decoded; a Go map is an association
  list.  Hashes, password hashing, YAML, HTTP providers, encryption, Git, the cron parser and the
  certificates are parameters.  A handler of a page is a function of the session, the request and the
  state; it is one step, so a history is a list of events and two handlers do not interleave, except
  where a theory says so (claims of deployments, calls over a tunnel).

  \<^bold>\<open>The theories.\<close>
  \<^item> \<open>Go_Strings\<close>, \<open>Go_Base\<close>: the functions of the standard library the code uses, errors, programs and
    their rules, tables as lists.
  \<^item> \<open>Secret_Refs\<close> (\<^verbatim>\<open>internal/secrets/ref.go\<close>): references \<^verbatim>\<open>ref+scheme://path#/field\<close>, their parser and
    printer, the expansion of \<^verbatim>\<open>{stack}\<close>, and the file of references.
  \<^item> \<open>Path_Rules\<close> (\<^verbatim>\<open>internal/secrets/rules.go\<close>, \<^verbatim>\<open>connector.go\<close>): the rules of a connection, the glob loop
    and its language, what a stack may read.
  \<^item> \<open>Secret_Resolve\<close> (\<^verbatim>\<open>internal/secrets/resolve.go\<close>, \<^verbatim>\<open>sops.go\<close>): a job, its caches, the environment built.
  \<^item> \<open>Store_Schema\<close>: the tables and the statements; \<open>Store_Hosts\<close>, \<open>Store_Stacks\<close>, \<open>Store_Users\<close>,
    \<open>Store_Backups\<close>, \<open>Store_Secrets\<close>, \<open>Store_Scans\<close> (\<^verbatim>\<open>internal/store/*.go\<close>): the operations by table.
  \<^item> \<open>Web\<close> (\<^verbatim>\<open>redirect.go\<close>), \<open>Auth\<close> (\<^verbatim>\<open>auth.go\<close>, \<^verbatim>\<open>users.go\<close>): redirects, sessions, form tokens, the limiter
    of login attempts, the administration of users.
  \<^item> \<open>Versions\<close> (\<^verbatim>\<open>versioncheck.go\<close>), \<open>Secret_Connections\<close> (\<^verbatim>\<open>secret_connections.go\<close>).
  \<^item> \<open>Agent_Channel\<close>, \<open>Agent_Commands\<close> (\<^verbatim>\<open>agent_protocol.go\<close>, \<^verbatim>\<open>agent_resolve.go\<close>): the handlers agents call.
  \<^item> \<open>Tunnel\<close>, \<open>Tunnel_State\<close> (\<^verbatim>\<open>tunnel.go\<close>, \<^verbatim>\<open>backup_protocol.go\<close>): the registry of live connections, the
    calls that wait for replies as a step relation, the state an agent pushes and the cache of what was
    written.
  \<^item> \<open>Backup_Selection\<close> (\<^verbatim>\<open>volume_backup_select.go\<close>), \<open>Backup_Runs\<close> (\<^verbatim>\<open>volume_backup_runs.go\<close>): what a backup
    job covers, the start and the report of a run, the schedules.
  \<^item> \<open>Scheduler\<close>: the entries of the cron scheduler that belong to one registry, as an interface that
    both the backup jobs and the polled stacks implement.
  \<^item> \<open>Custodian\<close> (\<^verbatim>\<open>internal/keys/keys.go\<close>, \<^verbatim>\<open>secretcreds.go\<close>): the store of keys and credentials.
  \<^item> \<open>App\<close> (\<^verbatim>\<open>main.go\<close>): the state of the server, database, custodian and schedules side by side.
  \<^item> \<open>Polling\<close> (\<^verbatim>\<open>poller.go\<close>), \<open>Stack_Pages\<close> and \<open>Stack_Rules\<close> (\<^verbatim>\<open>stacks.go\<close>): the polls of a branch, the
    forms of a stack and its web hook as events of one history, and what holds along it.
  \<^item> \<open>Go_Paths\<close>: \<^verbatim>\<open>path\<close>, \<^verbatim>\<open>base64\<close> and \<^verbatim>\<open>utf8\<close> of the standard library, and \<^verbatim>\<open>humanSize\<close>; \<open>Agent_Calls\<close>: the
    state of a page that sends commands over a tunnel, with the log of what was sent.
  \<^item> \<open>Volume_Browse\<close> (\<^verbatim>\<open>volumebrowse.go\<close>), \<open>Resource_Pages\<close> (\<^verbatim>\<open>volumes.go\<close>, \<^verbatim>\<open>images.go\<close>, \<^verbatim>\<open>networks.go\<close>),
    \<open>Container_Pages\<close> (\<^verbatim>\<open>containers.go\<close>, \<^verbatim>\<open>container_actions.go\<close>): what an administrator sees of a host and
    does to it, file by file and object by object.
  \<^item> \<open>Image_Updates\<close>, \<open>Image_Rules\<close> (\<^verbatim>\<open>internal/registry\<close>, \<^verbatim>\<open>imagepolicies.go\<close>, \<^verbatim>\<open>imagepoller.go\<close>): references of
    images, the policies of a stack's services, the periodic check and what it deploys.
  \<^item> \<open>Provider_Pages\<close> (\<^verbatim>\<open>secret_connections.go\<close>), \<open>Binding_Pages\<close> and \<open>Binding_Rules\<close> (\<^verbatim>\<open>stack_secrets.go\<close>):
    the forms of the shared secret providers, the bindings and the private connections of a stack, and
    who may read with which credentials along a history of them.
  \<^item> \<open>Backup_Destinations\<close> (\<^verbatim>\<open>volume_backup_destinations.go\<close>), \<open>Backup_Pages\<close> and \<open>Backup_Rules\<close>
    (\<^verbatim>\<open>volume_backups.go\<close>, \<^verbatim>\<open>volume_backup_views.go\<close>): the forms of destinations and jobs, runs and restores by
    hand, the scheduler's entries, and what holds along a history of them.
  \<^item> \<open>Sso\<close> (\<^verbatim>\<open>oidc.go\<close>, \<^verbatim>\<open>settings.go\<close>): signing in through an identity provider, and its settings.
  \<^item> \<open>Admin_Pages\<close> and \<open>Admin_Rules\<close> (\<^verbatim>\<open>git_connections.go\<close>, \<^verbatim>\<open>registries.go\<close>, \<^verbatim>\<open>hosts.go\<close>,
    \<^verbatim>\<open>audit.go\<close>): the administration of Git connections, registries, hosts and the audit log; a stack's Git
    connection exists, and a pass of the retention removes the entries that are too old and no other.
  \<^item> \<open>Notifications\<close> (\<^verbatim>\<open>notifications.go\<close>): the check for outages and old versions, and its messages.
  \<^item> \<open>Scan_Targets\<close>, \<open>Vuln_Scans\<close>, \<open>Scan_Rules\<close> (\<^verbatim>\<open>internal/scanner/scanner.go\<close>, \<^verbatim>\<open>vulnscan.go\<close>,
    \<^verbatim>\<open>vulnscan_ui.go\<close>): what is scanned, the pass over it, the jobs and the badges.

  \<^bold>\<open>What is shown.\<close>  Of the secrets: references and rules are decided as their language says, a
  stack reads nothing outside its paths, a value encrypted for it stays readable, a binding leads to a
  connection that exists and the private connection of a stack serves no other.  Of the agents:
  a certificate is accepted for one host, admitted by an administrator, a token or a rotation, and sees
  deployments and secrets of its host alone.  Of the users: there is always an administrator, a
  session is what its account is now, the limiter locks as it says from the 6th to the 36th failure, a sign-in
  through a provider is of the identity its signed token names, with the role its groups give.  Of the
  tunnels: the registry holds the newest live connection, a reply reaches the call it answers.  Of the
  backups: when the database answers, every start is in the history and a backup shares no volume with a
  running one; the scheduler has the enabled jobs and no other, stored jobs are well formed and no command
  carries a mount option in a field of its destination.  Of the stacks: no compose file is lost, a web hook
  proves the secret, a poll deploys each change once, and so does the check of the images.  Of the pages: a
  command of the volume browser stays in its volume, a delivered secret is masked while the page reads the
  secrets the host got, a container is removed under its guards.  Of the scans: the targets are plain words
  and a pass leaves one result for each.  Of the notifications: one message per outage.  The counts of polls,
  of checked images, of scans and of messages, and the history of backups, are those of a database that
  answers; safety holds under any failures, except where a property says so.  Further lemmas
  state what the code does not guarantee: a name left unusable, a schedule that outlives its stack, a
  tunnel blocked by a second reply, a lock that overflows, a secret shown for a longer form of its
  reference, a volume's root deleted, a job that is listed but no longer scheduled, an overlap of backups
  that is missed and a running stack that is deleted when a read fails, a refused connection that stays.

  \<^bold>\<open>Bounds.\<close>  Loops are structural or have a measure (the glob loop, lexicographically in pattern and
  segment).  The one recursion with fuel, \<open>strip_fuel\<close>, drops leading sequences; the length of the
  text is enough, as each of them has a byte.  The back-off of the limiter is a 64-bit word.

  \<^bold>\<open>Not modelled.\<close>  HTTP providers, the registry's HTTP exchange, the scanners' programs, templates,
  the live figures and the graph, start-up, logging and archives.
\<close>

end
